(* ===== verification/Prelude.thy ===== *)
theory Prelude
  imports Complex_Main "HOL-Library.Char_ord" "HOL-Library.List_Lexorder" "HOL-Library.Product_Lexorder"
begin

text \<open>
  Shared vocabulary of the development: the result type of code that may throw, the model of
  JavaScript strings and the string operations the sources call, and the generic lemmas about
  them.

  A JavaScript string is a sequence of 16-bit code units. Here it is a \<^typ>\<open>string\<close>, a list of
  8-bit \<^typ>\<open>char\<close>s, each standing for the code unit with that number: the model covers every
  string whose code units are at most U+00FF. On these strings \<open>length\<close> is \<open>.length\<close>,
  the order of \<^verbatim>\<open>HOL-Library.List_Lexorder\<close> is the code-unit order of \<open><\<close> and of
  \<open>Array.prototype.sort()\<close>, and \<open>normalize("NFC")\<close> is the identity.
\<close>

section \<open>Results\<close>

text \<open>Code that may throw returns \<open>Inl\<close> of what it throws or \<open>Inr\<close> of its value.\<close>

type_synonym ('e, 'a) result = "'e + 'a"

definition bind_result :: "('e, 'a) result \<Rightarrow> ('a \<Rightarrow> ('e, 'b) result) \<Rightarrow> ('e, 'b) result" where
  "bind_result r f = (case r of Inl e \<Rightarrow> Inl e | Inr x \<Rightarrow> f x)"

definition is_ok :: "('e, 'a) result \<Rightarrow> bool" where
  "is_ok r = (case r of Inl _ \<Rightarrow> False | Inr _ \<Rightarrow> True)"

named_theorems guards \<open>decision procedures of the request validators, as rewrite rules\<close>
named_theorems outcomes \<open>what each handler returns on each branch\<close>

section \<open>Characters and strings\<close>

definition code :: "char \<Rightarrow> nat" where
  "code c = of_char c"

definition is_digit :: "char \<Rightarrow> bool" where
  "is_digit c = (48 \<le> code c \<and> code c \<le> 57)"

definition is_upper :: "char \<Rightarrow> bool" where
  "is_upper c = (65 \<le> code c \<and> code c \<le> 90)"

definition is_lower :: "char \<Rightarrow> bool" where
  "is_lower c = (97 \<le> code c \<and> code c \<le> 122)"

text \<open>\<open>[0-9a-fA-F]\<close> and \<open>[0-9a-f]\<close>.\<close>

definition is_hex :: "char \<Rightarrow> bool" where
  "is_hex c = (is_digit c \<or> 65 \<le> code c \<and> code c \<le> 70 \<or> 97 \<le> code c \<and> code c \<le> 102)"

definition is_lower_hex :: "char \<Rightarrow> bool" where
  "is_lower_hex c = (is_digit c \<or> 97 \<le> code c \<and> code c \<le> 102)"

text \<open>\<open>\s\<close> and the white space of \<open>trim\<close>, below U+0100.\<close>

definition is_space :: "char \<Rightarrow> bool" where
  "is_space c = (9 \<le> code c \<and> code c \<le> 13 \<or> code c = 32 \<or> code c = 160)"

text \<open>\<open>toLowerCase\<close>: below U+0100 the capitals are A to Z and U+00C0 to U+00DE without the
  multiplication sign U+00D7; each one's small letter is 32 above it.\<close>

definition lower_char :: "char \<Rightarrow> char" where
  "lower_char c = (if is_upper c \<or> 192 \<le> code c \<and> code c \<le> 222 \<and> code c \<noteq> 215
                   then char_of (code c + 32) else c)"

definition to_lower :: "string \<Rightarrow> string" where
  "to_lower s = map lower_char s"

definition starts_with :: "string \<Rightarrow> string \<Rightarrow> bool" where
  "starts_with p s = (take (length p) s = p)"

text \<open>\<open>s.slice(i, j)\<close> for \<open>0 \<le> i \<le> j\<close>.\<close>

definition slice :: "nat \<Rightarrow> nat \<Rightarrow> string \<Rightarrow> string" where
  "slice i j s = take (j - i) (drop i s)"

definition trim :: "string \<Rightarrow> string" where
  "trim s = rev (dropWhile is_space (rev (dropWhile is_space s)))"

fun join :: "string \<Rightarrow> string list \<Rightarrow> string" where
  "join sep [] = []"
| "join sep [x] = x"
| "join sep (x # y # xs) = x @ sep @ join sep (y # xs)"

text \<open>\<open>/^[0-9a-fA-F]{64}$/\<close> and \<open>/^[0-9a-f]{64}$/\<close>.\<close>

definition HEX64 :: "string \<Rightarrow> bool" where
  "HEX64 s = (length s = 64 \<and> list_all is_hex s)"

definition HEX64_LOWER :: "string \<Rightarrow> bool" where
  "HEX64_LOWER s = (length s = 64 \<and> list_all is_lower_hex s)"

text \<open>Decimal digits, as \<open>Number.prototype.toString\<close> and template literals print an integer
  (of magnitude below \<open>10\<^sup>2\<^sup>1\<close>, where the exponent form starts).\<close>

definition digit_char :: "nat \<Rightarrow> char" where
  "digit_char d = char_of (48 + d)"

fun show_nat :: "nat \<Rightarrow> string" where
  "show_nat n = (if n < 10 then [digit_char n] else show_nat (n div 10) @ [digit_char (n mod 10)])"

definition show_int :: "int \<Rightarrow> string" where
  "show_int i = (if i < 0 then CHR ''-'' # show_nat (nat (- i)) else show_nat (nat i))"

text \<open>\<open>Number.parseInt(s, 10)\<close> of a string of digits.\<close>

definition parse_nat :: "string \<Rightarrow> nat" where
  "parse_nat s = foldl (\<lambda>n c. 10 * n + (code c - 48)) 0 s"

text \<open>\<open>Buffer.from(s, "utf8")\<close>: one byte per code unit below U+0080 and two above.\<close>

definition utf8_char :: "char \<Rightarrow> nat list" where
  "utf8_char c = (if code c < 128 then [code c] else [192 + code c div 64, 128 + code c mod 64])"

definition utf8 :: "string \<Rightarrow> nat list" where
  "utf8 s = concat (map utf8_char s)"

text \<open>\<open>crypto.timingSafeEqual\<close>: it throws a \<open>RangeError\<close> (\<open>None\<close>) on buffers of different
  lengths.\<close>

definition timing_safe_equal :: "nat list \<Rightarrow> nat list \<Rightarrow> bool option" where
  "timing_safe_equal a b = (if length a \<noteq> length b then None else Some (a = b))"

declare show_nat.simps [simp del]

section \<open>Lemmas\<close>

lemma bind_result_simps [simp]:
  "bind_result (Inl e) f = Inl e"
  "bind_result (Inr x) f = f x"
  by (simp_all add: bind_result_def)

lemma bind_result_assoc: "bind_result (bind_result r f) g = bind_result r (\<lambda>x. bind_result (f x) g)"
  by (cases r) (simp_all add: bind_result_def)

lemma is_ok_simps [simp]:
  "is_ok (Inl e) = False"
  "is_ok (Inr x) = True"
  by (simp_all add: is_ok_def)

lemma is_ok_iff: "is_ok r \<longleftrightarrow> (\<exists>x. r = Inr x)"
  by (cases r) auto

lemma code_less [simp]: "code c < 256"
  by (simp add: code_def)

lemma code_inject [simp]: "code c = code d \<longleftrightarrow> c = d"
  by (simp add: code_def)

lemma code_char_of [simp]: "n < 256 \<Longrightarrow> code (char_of n) = n"
  by (simp add: code_def)

lemma length_to_lower [simp]: "length (to_lower s) = length s"
  by (simp add: to_lower_def)

lemma lower_char_idem [simp]: "lower_char (lower_char c) = lower_char c"
  by (auto simp: lower_char_def is_upper_def)

lemma to_lower_idem [simp]: "to_lower (to_lower s) = to_lower s"
  by (simp add: to_lower_def)

lemma code_digit_char [simp]: "d < 10 \<Longrightarrow> code (digit_char d) = 48 + d"
  by (simp add: digit_char_def)

lemma is_digit_digit_char [simp]: "d < 10 \<Longrightarrow> is_digit (digit_char d)"
  by (simp add: is_digit_def)

lemma show_nat_digits: "list_all is_digit (show_nat n)"
proof (induction n rule: show_nat.induct)
  case (1 n)
  then show ?case by (subst show_nat.simps) simp
qed

lemma show_nat_nonempty [simp]: "show_nat n \<noteq> []"
  by (subst show_nat.simps) simp

lemma parse_nat_snoc: "parse_nat (s @ [c]) = 10 * parse_nat s + (code c - 48)"
  by (simp add: parse_nat_def)

lemma parse_show_nat [simp]: "parse_nat (show_nat n) = n"
proof (induction n rule: show_nat.induct)
  case (1 n)
  show ?case
  proof (cases "n < 10")
    case True
    then show ?thesis by (subst show_nat.simps) (simp add: parse_nat_def)
  next
    case False
    with 1 show ?thesis by (subst show_nat.simps) (simp add: parse_nat_snoc)
  qed
qed

lemma show_nat_inject [simp]: "show_nat m = show_nat n \<longleftrightarrow> m = n"
  by (metis parse_show_nat)

lemma hd_show_nat_digit: "is_digit (hd (show_nat n))"
  using show_nat_digits [of n] by (cases "show_nat n") auto

lemma show_int_inject [simp]: "show_int i = show_int j \<longleftrightarrow> i = j"
proof -
  have minus: "CHR ''-'' # s \<noteq> show_nat n" for s n
  proof
    assume "CHR ''-'' # s = show_nat n"
    then have "hd (show_nat n) = CHR ''-''" by (metis list.sel(1))
    with hd_show_nat_digit [of n] show False by (simp add: is_digit_def code_def)
  qed
  show ?thesis
    using minus minus [symmetric] by (auto simp: show_int_def nat_eq_iff2)
qed

lemma utf8_char_nonempty [simp]: "utf8_char c \<noteq> []"
  by (simp add: utf8_char_def)

lemma utf8_char_prefix_free:
  "utf8_char c @ r = utf8_char d @ s \<Longrightarrow> c = d \<and> r = s"
proof -
  assume eq: "utf8_char c @ r = utf8_char d @ s"
  have split: "code c = code d" if "code c div 64 = code d div 64" "code c mod 64 = code d mod 64"
    using that by (metis div_mult_mod_eq)
  show ?thesis
    using eq split by (auto simp: utf8_char_def split: if_splits)
qed

text \<open>UTF-8 is injective, so comparing the bytes of two strings compares the strings.\<close>

lemma utf8_inject [simp]: "utf8 a = utf8 b \<longleftrightarrow> a = b"
proof (induction a arbitrary: b)
  case Nil
  then show ?case by (cases b) (auto simp: utf8_def)
next
  case (Cons c a)
  show ?case
  proof (cases b)
    case Nil
    then show ?thesis by (auto simp: utf8_def)
  next
    case (Cons d b')
    then show ?thesis
      using Cons.IH [of b'] utf8_char_prefix_free [of c "utf8 a" d "utf8 b'"]
      by (auto simp: utf8_def)
  qed
qed

lemma timing_safe_equal_True: "timing_safe_equal a b = Some True \<longleftrightarrow> a = b"
  by (auto simp: timing_safe_equal_def)

lemma list_all_slice: "list_all P s \<Longrightarrow> list_all P (slice i j s)"
  by (simp add: slice_def list_all_iff) (meson in_set_dropD in_set_takeD)

end
