(* ===== verification/Js_Regex.thy ===== *)
theory Js_Regex
  imports Prelude
begin

text \<open>
  The regular expressions the gateway uses, as syntax trees, and the matching of the language: \<open>rests r s\<close> lists what is left of
  \<open>s\<close> after each way to match \<open>r\<close> at its start, the greedy way first. A pattern that starts with \<open>^\<close> matches when the list is
  not empty.
\<close>

section \<open>Expressions\<close>

datatype regex =
    Lit string
  | Times nat "char \<Rightarrow> bool"
  | Plus "char \<Rightarrow> bool"
  | Opt regex
  | Seq regex regex
  | Alt regex regex
  | Ahead regex
  | NotEnd
  | End

fun rests :: "regex \<Rightarrow> string \<Rightarrow> string list" where
  "rests (Lit l) s = (if starts_with l s then [drop (length l) s] else [])"
| "rests (Times n p) s = (if n \<le> length s \<and> list_all p (take n s) then [drop n s] else [])"
| "rests (Plus p) s = map (\<lambda>k. drop k s) (rev [1 ..< Suc (length (takeWhile p s))])"
| "rests (Opt r) s = rests r s @ [s]"
| "rests (Seq a b) s = concat (map (rests b) (rests a s))"
| "rests (Alt a b) s = rests a s @ rests b s"
| "rests (Ahead r) s = (if rests r s = [] then [] else [s])"
| "rests NotEnd s = (if s = [] then [] else [s])"
| "rests End s = (if s = [] then [s] else [])"

text \<open>A pattern written as the sequence of its parts.\<close>

fun seqs :: "regex list \<Rightarrow> regex" where
  "seqs [] = Lit []"
| "seqs [r] = r"
| "seqs (r # q # rs) = Seq r (seqs (q # rs))"

definition regex_test :: "regex \<Rightarrow> string \<Rightarrow> bool" where
  "regex_test r s = (rests r s \<noteq> [])"

section \<open>Lemmas\<close>

text \<open>\<open>r\<close> matches a prefix of \<open>s\<close> and leaves \<open>t\<close>.\<close>

definition leaves :: "regex \<Rightarrow> string \<Rightarrow> string \<Rightarrow> bool" where
  "leaves r s t = (t \<in> set (rests r s))"

lemma regex_test_leaves: "regex_test r s \<longleftrightarrow> (\<exists>t. leaves r s t)"
  by (cases "rests r s") (auto simp: regex_test_def leaves_def)

lemma starts_with_iff: "starts_with p s \<longleftrightarrow> (\<exists>t. s = p @ t)"
  unfolding starts_with_def by (metis append_take_drop_id append_eq_conv_conj)

lemma leaves_Lit: "leaves (Lit l) s t \<longleftrightarrow> s = l @ t"
  by (auto simp: leaves_def starts_with_iff)

lemma leaves_Plus: "leaves (Plus p) s t \<longleftrightarrow> (\<exists>x. s = x @ t \<and> x \<noteq> [] \<and> list_all p x)"
proof
  assume "leaves (Plus p) s t"
  then obtain k where k: "1 \<le> k" "k \<le> length (takeWhile p s)" "t = drop k s" by (auto simp: leaves_def)
  have "take k s = take k (takeWhile p s)" using k(2) by (metis min.absorb1 take_take takeWhile_eq_take)
  then have "list_all p (take k s)" by (simp add: list_all_iff) (metis in_set_takeD set_takeWhileD)
  moreover have "take k s \<noteq> []" using k length_takeWhile_le [of p s] by (cases s) auto
  ultimately show "\<exists>x. s = x @ t \<and> x \<noteq> [] \<and> list_all p x" using k(3) by (metis append_take_drop_id)
next
  assume "\<exists>x. s = x @ t \<and> x \<noteq> [] \<and> list_all p x"
  then obtain x where x: "s = x @ t" "x \<noteq> []" "list_all p x" by blast
  then have "takeWhile p s = x @ takeWhile p t" by (simp add: list_all_iff)
  then show "leaves (Plus p) s t"
    using x by (auto simp: leaves_def intro!: image_eqI [where x = "length x"] simp: Suc_le_eq)
qed

lemma leaves_simps:
  "leaves (Times n p) s t \<longleftrightarrow> (\<exists>x. s = x @ t \<and> length x = n \<and> list_all p x)"
  "leaves (Opt r) s t \<longleftrightarrow> leaves r s t \<or> t = s"
  "leaves (Seq a b) s t \<longleftrightarrow> (\<exists>u. leaves a s u \<and> leaves b u t)"
  "leaves (Alt a b) s t \<longleftrightarrow> leaves a s t \<or> leaves b s t"
  "leaves (Ahead r) s t \<longleftrightarrow> t = s \<and> (\<exists>u. leaves r s u)"
  "leaves NotEnd s t \<longleftrightarrow> t = s \<and> s \<noteq> []"
  "leaves End s t \<longleftrightarrow> t = s \<and> s = []"
proof -
  show "leaves (Times n p) s t \<longleftrightarrow> (\<exists>x. s = x @ t \<and> length x = n \<and> list_all p x)"
    by (auto simp: leaves_def intro: exI [where x = "take n s"])
  show "leaves (Ahead r) s t \<longleftrightarrow> t = s \<and> (\<exists>u. leaves r s u)"
    by (cases "rests r s") (auto simp: leaves_def)
qed (auto simp: leaves_def)

lemmas matching = leaves_Lit leaves_Plus leaves_simps

end
