(* ===== verification/Js_Number.thy ===== *)
theory Js_Number
  imports Prelude
begin

text \<open>
  JavaScript numbers: the values of type \<open>number\<close> the validators distinguish, and IEEE-754
  double arithmetic as the sources use it, exact rational arithmetic followed by rounding to 53
  significant bits, ties to even. The main lemmas say when that arithmetic is exact: on integers
  up to \<open>2\<^sup>5\<^sup>3\<close>, and for \<open>Math.floor(x / d)\<close> on safe integers.
\<close>

section \<open>Values\<close>

text \<open>A \<open>number\<close> is an integer, another finite value, \<open>NaN\<close> or an infinity
  (\<open>JInf True\<close> is \<open>+Infinity\<close>).\<close>

datatype jsnumber = JInt int | JFrac rat | JNaN | JInf bool

definition MAX_SAFE_INTEGER :: int where
  "MAX_SAFE_INTEGER = 2 ^ 53 - 1"

fun isInteger :: "jsnumber \<Rightarrow> bool" where
  "isInteger (JInt _) = True"
| "isInteger _ = False"

fun isFinite :: "jsnumber \<Rightarrow> bool" where
  "isFinite (JInt _) = True"
| "isFinite (JFrac _) = True"
| "isFinite _ = False"

fun isSafeInteger :: "jsnumber \<Rightarrow> bool" where
  "isSafeInteger (JInt i) = (\<bar>i\<bar> \<le> MAX_SAFE_INTEGER)"
| "isSafeInteger _ = False"

text \<open>\<open>a < b\<close>: false as soon as a side is \<open>NaN\<close>.\<close>

fun js_less :: "jsnumber \<Rightarrow> jsnumber \<Rightarrow> bool" where
  "js_less JNaN _ = False"
| "js_less _ JNaN = False"
| "js_less (JInf a) (JInf b) = (\<not> a \<and> b)"
| "js_less (JInf a) _ = (\<not> a)"
| "js_less _ (JInf b) = b"
| "js_less (JInt i) (JInt j) = (i < j)"
| "js_less (JInt i) (JFrac q) = (of_int i < q)"
| "js_less (JFrac p) (JInt j) = (p < of_int j)"
| "js_less (JFrac p) (JFrac q) = (p < q)"

text \<open>\<open>a <= b\<close>.\<close>

definition js_leq :: "jsnumber \<Rightarrow> jsnumber \<Rightarrow> bool" where
  "js_leq a b = (js_less a b \<or> a = b \<and> a \<noteq> JNaN)"

section \<open>Rounding to 53 significant bits\<close>

fun log2_nat :: "nat \<Rightarrow> nat" where
  "log2_nat n = (if n < 2 then 0 else Suc (log2_nat (n div 2)))"

declare log2_nat.simps [simp del]

text \<open>The exponent of a positive rational: \<open>2\<^sup>k \<le> q < 2\<^sup>k\<^sup>+\<^sup>1\<close>.\<close>

definition ilog2 :: "rat \<Rightarrow> int" where
  "ilog2 q = (if 1 \<le> q then int (log2_nat (nat \<lfloor>q\<rfloor>))
              else - int (Suc (log2_nat (nat \<lceil>1 / q\<rceil> - 1))))"

text \<open>The nearest integer, ties to even.\<close>

definition round_even :: "rat \<Rightarrow> int" where
  "round_even q = (let f = \<lfloor>q\<rfloor>; r = q - of_int f in
     if r < 1 / 2 then f else if 1 / 2 < r then f + 1 else if even f then f else f + 1)"

text \<open>The double nearest to a rational, for magnitudes in the normal range.\<close>

definition fl53 :: "rat \<Rightarrow> rat" where
  "fl53 q = (if q = 0 then 0
             else let e = ilog2 \<bar>q\<bar> - 52 in sgn q * of_int (round_even (\<bar>q\<bar> / 2 powi e)) * 2 powi e)"

text \<open>Sums, differences and products of integral numbers, and \<open>Math.floor\<close> of a quotient.\<close>

definition js_add :: "int \<Rightarrow> int \<Rightarrow> int" where
  "js_add a b = \<lfloor>fl53 (of_int (a + b))\<rfloor>"

definition js_sub :: "int \<Rightarrow> int \<Rightarrow> int" where
  "js_sub a b = \<lfloor>fl53 (of_int (a - b))\<rfloor>"

definition js_mul :: "int \<Rightarrow> int \<Rightarrow> int" where
  "js_mul a b = \<lfloor>fl53 (of_int (a * b))\<rfloor>"

definition js_floor_div :: "int \<Rightarrow> int \<Rightarrow> int" where
  "js_floor_div a b = \<lfloor>fl53 (of_int a / of_int b)\<rfloor>"

text \<open>\<open>Math.round\<close>: the nearest integer, ties upwards.\<close>

definition math_round :: "rat \<Rightarrow> int" where
  "math_round q = \<lfloor>q + 1 / 2\<rfloor>"

section \<open>Lemmas\<close>

lemma log2_nat_bounds: "0 < n \<Longrightarrow> 2 ^ log2_nat n \<le> n \<and> n < 2 ^ Suc (log2_nat n)"
proof (induction n rule: log2_nat.induct)
  case (1 n)
  show ?case
  proof (cases "n < 2")
    case True
    with 1(2) show ?thesis by (simp add: log2_nat.simps [of n])
  next
    case False
    with 1(1) have "2 ^ log2_nat (n div 2) \<le> n div 2 \<and> n div 2 < 2 ^ Suc (log2_nat (n div 2))"
      by simp
    with False show ?thesis by (auto simp: log2_nat.simps [of n])
  qed
qed

lemma ilog2_bounds:
  assumes "0 < q"
  shows "2 powi ilog2 q \<le> q \<and> q < 2 powi (ilog2 q + 1)"
proof (cases "1 \<le> q")
  case True
  define n where "n = nat \<lfloor>q\<rfloor>"
  have n: "0 < n" "of_nat n \<le> q" "q < of_nat n + 1"
    using True by (simp_all add: n_def of_nat_nat) linarith+
  have "2 ^ log2_nat n \<le> (of_nat n :: rat)" "of_nat n + 1 \<le> (2 ^ Suc (log2_nat n) :: rat)"
    using log2_nat_bounds [OF n(1)]
    by (metis of_nat_le_iff of_nat_numeral of_nat_power)
      (use log2_nat_bounds [OF n(1)] in
        \<open>metis Suc_leI of_nat_Suc of_nat_le_iff of_nat_numeral of_nat_power add.commute\<close>)
  with n have "2 ^ log2_nat n \<le> q" "q < 2 ^ Suc (log2_nat n)" by linarith+
  moreover have "ilog2 q = int (log2_nat n)" using True by (simp add: ilog2_def n_def)
  ultimately show ?thesis by (simp add: power_int_add)
next
  case False
  define n where "n = nat \<lceil>1 / q\<rceil> - 1"
  have gt: "1 < 1 / q" using False assms by (simp add: field_simps)
  then have "2 \<le> \<lceil>1 / q\<rceil>" by linarith
  then have "0 < n" "int n = \<lceil>1 / q\<rceil> - 1"
    unfolding n_def by linarith+
  then have n: "0 < n" "of_nat n = (of_int \<lceil>1 / q\<rceil> :: rat) - 1"
    by (simp, metis of_int_1 of_int_diff of_int_of_nat_eq)
  then have ub: "of_nat n < 1 / q" "1 / q \<le> of_nat n + 1" by linarith+
  define k where "k = log2_nat n"
  have "2 ^ k \<le> (of_nat n :: rat)"
    using log2_nat_bounds [OF n(1)] unfolding k_def
    by (metis of_nat_le_iff of_nat_numeral of_nat_power)
  moreover have "of_nat n + 1 \<le> (2 ^ Suc k :: rat)"
    using log2_nat_bounds [OF n(1)] unfolding k_def
    by (metis Suc_leI of_nat_Suc of_nat_le_iff of_nat_numeral of_nat_power add.commute)
  ultimately have "2 ^ k < 1 / q" "1 / q \<le> 2 ^ Suc k" using ub by linarith+
  then have "q < 1 / 2 ^ k" "1 / 2 ^ Suc k \<le> q"
    using assms by (simp_all add: field_simps)
  moreover have e: "ilog2 q = - int (Suc k)" "ilog2 q + 1 = - int k"
    using False by (simp_all add: ilog2_def n_def k_def)
  ultimately show ?thesis
    unfolding e(2) unfolding e(1) by (simp only: power_int_minus_divide power_int_of_nat)
qed

lemma round_even_error: "\<bar>of_int (round_even q) - q\<bar> \<le> 1 / 2"
proof -
  define r where "r = q - of_int \<lfloor>q\<rfloor>"
  have "0 \<le> r" "r < 1" unfolding r_def by linarith+
  then show ?thesis
    unfolding round_even_def Let_def r_def [symmetric]
    using r_def by (auto simp: abs_le_iff)
qed

lemma round_even_of_int [simp]: "round_even (of_int n) = n"
  by (simp add: round_even_def)

lemma round_even_ge: "of_int n \<le> q \<Longrightarrow> n \<le> round_even q"
  by (auto simp: round_even_def Let_def le_floor_iff) linarith+

lemma round_even_le: "q \<le> of_int n \<Longrightarrow> round_even q \<le> n"
  by (auto simp: round_even_def Let_def) linarith+

text \<open>An integer of magnitude at most \<open>2\<^sup>5\<^sup>3\<close> is a double.\<close>

lemma pow2_int_dvd:
  fixes n :: int
  assumes "0 < n" "n \<le> 2 ^ 53"
  shows "\<exists>m. of_int n = of_int m * (2 :: rat) powi (ilog2 (of_int n) - 52)"
proof (cases "ilog2 (of_int n) \<le> 52")
  case True
  then have "of_int n = of_int (n * 2 ^ nat (52 - ilog2 (of_int n))) * (2 :: rat) powi (ilog2 (of_int n) - 52)"
    by (simp add: power_int_def power_inverse field_simps)
  then show ?thesis by blast
next
  case False
  have "(2 :: rat) powi ilog2 (of_int n) \<le> of_int n"
    using ilog2_bounds [of "of_int n"] assms(1) by simp
  moreover have "(2 :: rat) powi 53 \<le> 2 powi ilog2 (of_int n)"
    using False by (intro power_int_increasing) auto
  ultimately have "(2 :: rat) ^ 53 \<le> of_int n" by simp
  then have "(of_int (2 ^ 53) :: rat) \<le> of_int n" by simp
  then have "2 ^ 53 \<le> n" by (simp only: of_int_le_iff)
  with assms have n: "n = 2 ^ 53" by simp
  have "(2 :: rat) powi ilog2 (2 ^ 53) \<le> 2 ^ 53"
    using ilog2_bounds [of "2 ^ 53"] by simp
  then have "(2 :: rat) powi ilog2 (2 ^ 53) \<le> 2 powi 53" by simp
  then have "ilog2 (2 ^ 53) \<le> 53"
    by (metis linorder_not_le one_less_numeral_iff power_int_strict_increasing semiring_norm(76))
  with False n have e: "ilog2 (of_int n) = 53" by simp
  have "of_int n = of_int (2 ^ 52) * (2 :: rat) powi (ilog2 (of_int n) - 52)"
    unfolding e using n by simp
  then show ?thesis by blast
qed

lemma fl53_pos_int:
  fixes n :: int
  assumes "0 < n" "n \<le> 2 ^ 53"
  shows "fl53 (of_int n) = of_int n"
proof -
  define u :: rat where "u = 2 powi (ilog2 (of_int n) - 52)"
  obtain m where m: "of_int n = of_int m * u"
    using pow2_int_dvd [OF assms] unfolding u_def by blast
  have "0 < u" by (simp add: u_def)
  then have "of_int n / u = of_int m" using m by (simp add: field_simps)
  then have "fl53 (of_int n) = of_int (round_even (of_int m)) * u"
    using assms by (simp add: fl53_def Let_def u_def)
  then show ?thesis using m by simp
qed

lemma fl53_minus: "fl53 (- q) = - fl53 q"
  by (simp add: fl53_def Let_def)

lemma fl53_int [simp]:
  fixes n :: int
  assumes "\<bar>n\<bar> \<le> 2 ^ 53"
  shows "fl53 (of_int n) = of_int n"
proof (cases "0 \<le> n")
  case True
  show ?thesis
  proof (cases "n = 0")
    case False
    with True assms show ?thesis by (intro fl53_pos_int) auto
  qed (simp add: fl53_def)
next
  case False
  with assms have "fl53 (of_int (- n)) = of_int (- n)" by (intro fl53_pos_int) auto
  then show ?thesis by (simp add: fl53_minus)
qed

lemmas js_arith_defs = js_add_def js_sub_def js_mul_def

lemma js_add_exact [simp]: "\<bar>a + b\<bar> \<le> 2 ^ 53 \<Longrightarrow> js_add a b = a + b"
  unfolding js_add_def by (subst fl53_int) simp_all

lemma js_sub_exact [simp]: "\<bar>a - b\<bar> \<le> 2 ^ 53 \<Longrightarrow> js_sub a b = a - b"
  unfolding js_sub_def by (subst fl53_int) simp_all

lemma js_mul_exact [simp]: "\<bar>a * b\<bar> \<le> 2 ^ 53 \<Longrightarrow> js_mul a b = a * b"
  unfolding js_mul_def by (subst fl53_int) (simp_all only: floor_of_int)

lemma fl53_pos_def:
  "0 < q \<Longrightarrow> fl53 q = of_int (round_even (q / 2 powi (ilog2 q - 52))) * 2 powi (ilog2 q - 52)"
  by (simp add: fl53_def Let_def)

lemma fl53_nonneg: "0 \<le> q \<Longrightarrow> 0 \<le> fl53 q"
proof (cases "q = 0")
  case False
  assume "0 \<le> q"
  with False have "0 < q" by simp
  then show ?thesis
    by (simp add: fl53_pos_def zero_le_mult_iff round_even_ge [of 0])
qed (simp add: fl53_def)

text \<open>The relative error of one rounding is at most \<open>2\<^sup>-\<^sup>5\<^sup>3\<close>.\<close>

lemma fl53_ulp:
  assumes "0 < q"
  shows "\<bar>fl53 q - q\<bar> \<le> 2 powi (ilog2 q - 52) / 2"
proof -
  define u :: rat where "u = 2 powi (ilog2 q - 52)"
  have "0 < u" by (simp add: u_def)
  have "\<bar>fl53 q - q\<bar> = \<bar>of_int (round_even (q / u)) * u - q / u * u\<bar>"
    using assms \<open>0 < u\<close> by (simp add: fl53_pos_def u_def)
  also have "\<dots> = \<bar>of_int (round_even (q / u)) - q / u\<bar> * u"
    using \<open>0 < u\<close> by (simp only: left_diff_distrib [symmetric] abs_mult abs_of_pos)
  also have "\<dots> \<le> 1 / 2 * u"
    using round_even_error [of "q / u"] \<open>0 < u\<close> by (intro mult_right_mono) auto
  finally show ?thesis by (simp add: u_def)
qed

lemma ulp_le: "0 < q \<Longrightarrow> 2 powi (ilog2 q - 52) \<le> q / 2 ^ 52"
  using ilog2_bounds [of q] by (simp add: power_int_diff field_simps)

lemma fl53_error:
  assumes "0 < q"
  shows "\<bar>fl53 q - q\<bar> \<le> q / 2 ^ 53"
  using fl53_ulp [OF assms] ulp_le [OF assms] by simp

lemma fl53_ge_int:
  fixes f :: int
  assumes "of_int f \<le> q" "0 < q" "q < 2 ^ 53"
  shows "of_int f \<le> fl53 q"
proof -
  define e where "e = 52 - ilog2 q"
  have "(2 :: rat) powi ilog2 q < 2 powi 53"
    using ilog2_bounds [OF assms(2)] assms(3) by simp
  then have "ilog2 q < 53"
    by (metis linorder_not_le one_le_numeral power_int_increasing)
  then have e: "0 \<le> e" by (simp add: e_def)
  have u: "(2 :: rat) powi (ilog2 q - 52) = 1 / 2 ^ nat e"
    using e by (simp add: e_def power_int_def power_inverse field_simps)
  have "of_int (f * 2 ^ nat e) \<le> q * 2 ^ nat e"
    using assms(1) by simp
  then have "f * 2 ^ nat e \<le> round_even (q * 2 ^ nat e)"
    by (rule round_even_ge)
  then have "of_int (f * 2 ^ nat e) \<le> (of_int (round_even (q * 2 ^ nat e)) :: rat)"
    by (simp only: of_int_le_iff)
  then show ?thesis
    unfolding fl53_pos_def [OF assms(2)] u by (simp add: field_simps)
qed

text \<open>On safe integers the double quotient never rounds up to the next integer, so
  \<open>Math.floor(a / b)\<close> is the exact floor.\<close>

lemma js_floor_div_exact:
  assumes "0 \<le> a" "a \<le> MAX_SAFE_INTEGER" "0 < b"
  shows "js_floor_div a b = a div b"
proof (cases "a = 0")
  case True
  then show ?thesis by (simp add: js_floor_div_def fl53_def)
next
  case False
  define q :: rat where "q = of_int a / of_int b"
  define f where "f = a div b"
  have q0: "0 < q" using assms False by (simp add: q_def)
  have small: "a < 2 ^ 53" using assms by (simp add: MAX_SAFE_INTEGER_def)
  have fq: "of_int f \<le> q" "q \<le> of_int f + 1 - 1 / of_int b"
  proof -
    have b: "a = b * f + a mod b" "a mod b \<le> b - 1" "0 \<le> a mod b"
      using assms by (simp_all add: f_def)
    then have "b * f \<le> a" "a \<le> b * f + b - 1" by linarith+
    then have "of_int (b * f) \<le> (of_int a :: rat)" "of_int a \<le> (of_int (b * f + b - 1) :: rat)"
      by (simp_all only: of_int_le_iff)
    then show "of_int f \<le> q" "q \<le> of_int f + 1 - 1 / of_int b"
      using assms(3) by (simp_all add: q_def field_simps)
  qed
  have qa: "q * of_int b = of_int a" using assms by (simp add: q_def)
  have ab: "(of_int a :: rat) < 2 ^ 53"
    using small by (metis of_int_less_iff of_int_numeral of_int_power)
  have "q \<le> of_int a" using assms by (simp add: q_def field_simps mult_le_cancel_left1)
  with ab have "q < 2 ^ 53" by simp
  then have lower: "of_int f \<le> fl53 q" using fq q0 by (intro fl53_ge_int) auto
  have "fl53 q - q \<le> q / 2 ^ 53" using fl53_error [OF q0] by linarith
  also have "\<dots> < 1 / of_int b"
  proof -
    have "q * of_int b / 2 ^ 53 < 1" unfolding qa using ab by simp
    then show ?thesis using assms by (simp add: field_simps)
  qed
  finally have "fl53 q < of_int f + 1" using fq by linarith
  with lower have "\<lfloor>fl53 q\<rfloor> = f" by (simp add: floor_eq_iff)
  then show ?thesis by (simp add: js_floor_div_def q_def f_def)
qed

lemma math_round_near: "\<bar>q - of_int n\<bar> < 1 / 2 \<Longrightarrow> math_round q = n"
  unfolding math_round_def floor_eq_iff abs_less_iff by linarith

text \<open>A comparison function that subtracts two integers has the right sign, whatever is rounded.\<close>

lemma js_sub_sign: "js_sub a b \<le> 0 \<longleftrightarrow> a \<le> b"
proof (cases "a \<le> b")
  case True
  have "fl53 (of_int (a - b)) = - fl53 (of_int (b - a))" using fl53_minus [of "of_int (b - a)"] by simp
  also have "\<dots> \<le> 0" using fl53_nonneg [of "of_int (b - a)"] True by simp
  finally show ?thesis using True by (simp add: js_sub_def floor_le_iff)
next
  case False
  define q :: rat where "q = of_int (a - b)"
  have q: "1 \<le> q" unfolding q_def using False by linarith
  have "1 \<le> fl53 q"
  proof (cases "q < 2 ^ 53")
    case True
    then show ?thesis using fl53_ge_int [of 1 q] q by simp
  next
    case False
    then have "1 \<le> q - q / 2 ^ 53" by (simp add: field_simps)
    then show ?thesis using fl53_error [of q] q by linarith
  qed
  then have "1 \<le> js_sub a b" by (simp add: js_sub_def q_def le_floor_iff)
  then show ?thesis using False by linarith
qed

lemma fl53_error_nonneg: "0 \<le> q \<Longrightarrow> \<bar>fl53 q - q\<bar> \<le> q * (1 / 2 ^ 53)"
  using fl53_error [of q] by (cases "q = 0") (simp_all add: fl53_def)

text \<open>Summing whole cents in doubles: the error after \<open>k\<close> additions.\<close>

lemma sum_cents_error:
  fixes C :: rat and cs :: "int list"
  assumes "\<forall>c\<in>set cs. 0 \<le> c" "0 \<le> s" "0 \<le> p" "p + of_int (sum_list cs) \<le> C"
    and "\<bar>s - p / 100\<bar> \<le> 2 * of_nat k * (C / 50 * (1 / 2 ^ 53))" "4 * of_nat (k + length cs) * (1 / 2 ^ 53) \<le> (1 :: rat)"
  shows "\<bar>foldl (\<lambda>s c. fl53 (s + fl53 (of_int c / 100))) s cs - (p + of_int (sum_list cs)) / 100\<bar>
    \<le> 2 * of_nat (k + length cs) * (C / 50 * (1 / 2 ^ 53))"
  using assms
proof (induction cs arbitrary: s p k)
  case (Cons c cs)
  define u :: rat where "u = 1 / 2 ^ 53"
  define e where "e = C / 50 * u"
  define x where "x = fl53 (of_int c / 100)"
  define s' where "s' = fl53 (s + x)"
  note hyps = Cons.prems [folded u_def, folded e_def]
  have c: "0 \<le> c" "\<forall>c\<in>set cs. 0 \<le> c" using Cons.prems(1) by auto
  then have cs0: "0 \<le> (of_int (sum_list cs) :: rat)" by (simp add: sum_list_nonneg)
  have pc: "p + of_int c + of_int (sum_list cs) \<le> C" using hyps(4) by simp
  have u: "0 < u" "u \<le> 1" by (simp_all add: u_def)
  have C: "0 \<le> C" using pc hyps(3) c(1) cs0 by linarith
  have x: "\<bar>x - of_int c / 100\<bar> \<le> of_int c / 100 * u" "0 \<le> x"
    using fl53_error_nonneg [of "of_int c / 100"] fl53_nonneg [of "of_int c / 100"] c(1) by (simp_all add: x_def u_def)
  have "of_int c / 100 * u \<le> C / 100 * u"
    using pc hyps(3) cs0 u by (intro mult_right_mono divide_right_mono) auto
  then have xe: "\<bar>x - of_int c / 100\<bar> \<le> e / 2" using x(1) by (simp add: e_def)
  have e0: "0 \<le> e" using C u by (simp add: e_def)
  have "4 * of_nat (k + length (c # cs)) * u * C \<le> C" using mult_right_mono [OF hyps(6) C] by simp
  then have ke: "4 * of_nat (k + length (c # cs)) * e \<le> C / 50" by (simp add: e_def field_simps)
  have "(4 * of_nat k + 4) * e \<le> 4 * of_nat (k + length (c # cs)) * e" using e0 by (intro mult_right_mono) auto
  then have "(4 * of_nat k + 4) * e \<le> C / 50" using ke by linarith
  then have "2 * of_nat k * e + e / 2 \<le> C / 100" using e0 by (simp add: algebra_simps)
  then have "s + x \<le> C / 50" using hyps(5) xe pc cs0 by (simp add: abs_le_iff field_simps)
  then have "(s + x) * u \<le> e" using u by (simp add: e_def mult_right_mono)
  then have s': "\<bar>s' - (s + x)\<bar> \<le> e" "0 \<le> s'"
    using fl53_error_nonneg [of "s + x"] fl53_nonneg [of "s + x"] x(2) hyps(2) by (simp_all add: s'_def u_def)
  have "\<bar>s' - (p + of_int c) / 100\<bar> \<le> \<bar>s' - (s + x)\<bar> + \<bar>s - p / 100\<bar> + \<bar>x - of_int c / 100\<bar>"
    by (simp add: abs_if field_simps)
  also have "\<dots> \<le> e + 2 * of_nat k * e + e / 2" using s'(1) hyps(5) xe by linarith
  also have "\<dots> \<le> 2 * of_nat (Suc k) * e" using e0 by (simp add: algebra_simps)
  finally have "\<bar>s' - (p + of_int c) / 100\<bar> \<le> 2 * of_nat (Suc k) * e" .
  then have "\<bar>foldl (\<lambda>s c. fl53 (s + fl53 (of_int c / 100))) s' cs - (p + of_int c + of_int (sum_list cs)) / 100\<bar>
      \<le> 2 * of_nat (Suc k + length cs) * e"
    unfolding e_def u_def
    by (intro Cons.IH) (use c s'(2) hyps pc in \<open>simp_all add: e_def u_def\<close>)
  then show ?case by (simp add: s'_def x_def e_def u_def add.assoc)
qed simp

lemma round_cents:
  fixes n :: nat and C :: int
  assumes "\<bar>s - of_int C / 100\<bar> \<le> 2 * of_nat n * (of_int C / 50 * (1 / 2 ^ 53))" "0 \<le> s" "0 \<le> C" "1 \<le> n" "int n * C \<le> 2 ^ 49"
  shows "math_round (fl53 (s * 100)) = C"
proof (rule math_round_near)
  define u :: rat where "u = 1 / 2 ^ 53"
  define w :: rat where "w = of_nat n * of_int C * u"
  have "(of_int (int n * C) :: rat) \<le> of_int (2 ^ 49)" using assms(5) by (simp only: of_int_le_iff)
  then have "w \<le> 2 ^ 49 * u" unfolding w_def by (intro mult_right_mono) (simp_all add: u_def)
  then have w: "w \<le> 1 / 16" by (simp add: u_def)
  have "(1 :: rat) * of_int C * u \<le> of_nat n * of_int C * u" using assms(3,4) by (intro mult_right_mono) (simp_all add: u_def)
  then have Cu: "of_int C * u \<le> w" by (simp add: w_def)
  have "0 \<le> of_int C * u" using assms(3) by (simp add: u_def)
  have "2 * of_nat n * (of_int C / 50 * u) * 100 = 4 * w" by (simp add: w_def)
  moreover have "\<bar>s * 100 - of_int C\<bar> = \<bar>s - of_int C / 100\<bar> * 100" by (simp add: abs_if field_simps)
  ultimately have d: "\<bar>s * 100 - of_int C\<bar> \<le> 4 * w" using assms(1) by (simp add: u_def)
  have "s * 100 * u \<le> (of_int C + 1) * u" using d w by (intro mult_right_mono) (simp_all add: u_def abs_le_iff)
  then have "s * 100 * u \<le> w + u" using Cu by (simp add: algebra_simps)
  moreover have "u \<le> 1 / 16" by (simp add: u_def)
  moreover have "\<bar>fl53 (s * 100) - s * 100\<bar> \<le> s * 100 * u" using fl53_error_nonneg [of "s * 100"] assms(2) by (simp add: u_def)
  ultimately have "\<bar>fl53 (s * 100) - s * 100\<bar> \<le> 1 / 8" using w by linarith
  then show "\<bar>fl53 (s * 100) - of_int C\<bar> < 1 / 2" using d w by (simp add: abs_if split: if_splits)
qed

end
