(* ===== verification/Jcs.thy ===== *)
theory Jcs
  imports Js_Number
begin

text \<open>
  JSON values and the canonical JSON printers of the issuers: \<open>jcsStringify\<close> (in
  \<^verbatim>\<open>src/issuers/bank-mock.ts\<close>, \<^verbatim>\<open>civic.ts\<close> and \<^verbatim>\<open>kyc-test.ts\<close>, the same code three times)
  and \<open>canonicalJson\<close> (in \<^verbatim>\<open>worldcoin.ts\<close> and \<^verbatim>\<open>skill-cert.ts\<close>). The SHA-256 of the printed
  text is the on-chain claim hash, so what matters is that the text depends on the value alone, not
  on the order of its keys, and determines the value: both are proved here.

  An object is the list of its members in insertion order, with distinct keys.
\<close>

section \<open>Values and printers\<close>

datatype json = JNull | JBool bool | JNum jsnumber | JStr string | JArr "json list" | JObj "(string \<times> json) list"

datatype jcs_error = NonFiniteNumber | NonIntegerNumber

text \<open>\<open>JSON.stringify\<close> of a string.\<close>

definition hex_digit :: "nat \<Rightarrow> char" where
  "hex_digit d = (if d < 10 then char_of (48 + d) else char_of (87 + d))"

text \<open>\<open>n.toString(16)\<close>.\<close>

fun show_hex :: "nat \<Rightarrow> string" where
  "show_hex n = (if n < 16 then [hex_digit n] else show_hex (n div 16) @ [hex_digit (n mod 16)])"

declare show_hex.simps [simp del]

definition escape_char :: "char \<Rightarrow> string" where
  "escape_char c = (let n = code c in
     if n = 34 then [CHR 0x5C, CHR 0x22]
     else if n = 92 then [CHR 0x5C, CHR 0x5C]
     else if n = 8 then [CHR 0x5C, CHR ''b'']
     else if n = 9 then [CHR 0x5C, CHR ''t'']
     else if n = 10 then [CHR 0x5C, CHR ''n'']
     else if n = 12 then [CHR 0x5C, CHR ''f'']
     else if n = 13 then [CHR 0x5C, CHR ''r'']
     else if n < 32 then [CHR 0x5C, CHR ''u'', CHR ''0'', CHR ''0'', hex_digit (n div 16), hex_digit (n mod 16)]
     else [c])"

definition quote :: "string \<Rightarrow> string" where
  "quote s = CHR 0x22 # concat (map escape_char s) @ [CHR 0x22]"

text \<open>\<open>Number.prototype.toString\<close>: an integer up to \<open>2\<^sup>5\<^sup>3\<close> prints as its decimal digits. Any other
  finite number prints the fewest digits that round to it, placed by the rules of the language.
  \<open>dec_exp x\<close> is the \<open>n\<close> with \<open>10\<^sup>n\<^sup>-\<^sup>1 \<le> x < 10\<^sup>n\<close>.\<close>

definition dec_exp :: "rat \<Rightarrow> int" where
  "dec_exp x = (if 1 \<le> x then int (length (show_nat (nat \<lfloor>x\<rfloor>)))
                else 1 - int (length (show_nat (nat \<lceil>1 / x\<rceil> - 1))))"

definition digits_of :: "rat \<Rightarrow> nat \<Rightarrow> int" where
  "digits_of x k = round_even (x / 10 powi (dec_exp x - int k))"

definition digits_exact :: "rat \<Rightarrow> nat \<Rightarrow> bool" where
  "digits_exact x k = (fl53 (of_int (digits_of x k) * 10 powi (dec_exp x - int k)) = x)"

definition shortest_digits :: "rat \<Rightarrow> nat" where
  "shortest_digits x = (case filter (digits_exact x) [1..<17] of [] \<Rightarrow> 17 | k # _ \<Rightarrow> k)"

definition place_digits :: "string \<Rightarrow> int \<Rightarrow> string" where
  "place_digits ds n = (let k = int (length ds) in
     if k \<le> n \<and> n \<le> 21 then ds @ replicate (nat (n - k)) (CHR ''0'')
     else if 0 < n \<and> n \<le> 21 then take (nat n) ds @ ''.'' @ drop (nat n) ds
     else if - 6 < n \<and> n \<le> 0 then ''0.'' @ replicate (nat (- n)) (CHR ''0'') @ ds
     else let ex = (if 0 < n then ''+'' else ''-'') @ show_int \<bar>n - 1\<bar> in
       if k = 1 then ds @ ''e'' @ ex else take 1 ds @ ''.'' @ drop 1 ds @ ''e'' @ ex)"

definition show_rat :: "rat \<Rightarrow> string" where
  "show_rat x = (let y = \<bar>x\<bar>; k = shortest_digits y; s = digits_of y k
     in (if x < 0 then ''-'' else [])
        @ (if s = 10 ^ k then place_digits ''1'' (dec_exp y + 1) else place_digits (show_int s) (dec_exp y)))"

fun number_toString :: "jsnumber \<Rightarrow> string" where
  "number_toString (JInt i) = (if \<bar>i\<bar> \<le> 2 ^ 53 then show_int i else show_rat (of_int i))"
| "number_toString (JFrac q) = show_rat q"
| "number_toString JNaN = ''NaN''"
| "number_toString (JInf b) = (if b then ''Infinity'' else ''-Infinity'')"

text \<open>\<open>jcsCompareUtf16\<close>: the difference of the first differing code units, or of the lengths. The
  printers sort the keys with it or with the default order of \<open>sort()\<close>, which agree.\<close>

fun jcsCompareUtf16 :: "string \<Rightarrow> string \<Rightarrow> int" where
  "jcsCompareUtf16 [] [] = 0"
| "jcsCompareUtf16 [] (d # b) = - int (length (d # b))"
| "jcsCompareUtf16 (c # a) [] = int (length (c # a))"
| "jcsCompareUtf16 (c # a) (d # b) = (if c \<noteq> d then int (code c) - int (code d) else jcsCompareUtf16 a b)"

text \<open>The results of a list of calls, in order: the first failure wins.\<close>

fun sequence :: "('e, 'a) result list \<Rightarrow> ('e, 'a list) result" where
  "sequence [] = Inr []"
| "sequence (r # rs) = bind_result r (\<lambda>x. bind_result (sequence rs) (\<lambda>xs. Inr (x # xs)))"

definition member :: "string \<Rightarrow> string \<Rightarrow> string" where
  "member k s = quote k @ '':'' @ s"

definition brackets :: "string list \<Rightarrow> string" where
  "brackets xs = ''['' @ join '','' xs @ '']''"

definition braces :: "string list \<Rightarrow> string" where
  "braces xs = ''{'' @ join '','' xs @ ''}''"

fun jcsStringify :: "json \<Rightarrow> (jcs_error, string) result" where
  "jcsStringify JNull = Inr ''null''"
| "jcsStringify (JBool b) = Inr (if b then ''true'' else ''false'')"
| "jcsStringify (JNum n) = (if \<not> isFinite n then Inl NonFiniteNumber
     else if \<not> isInteger n then Inl NonIntegerNumber else Inr (number_toString n))"
| "jcsStringify (JStr s) = Inr (quote s)"
| "jcsStringify (JArr vs) = bind_result (sequence (map jcsStringify vs)) (\<lambda>xs. Inr (brackets xs))"
| "jcsStringify (JObj kvs) =
     bind_result (sequence (map (\<lambda>(k, r). bind_result r (\<lambda>s. Inr (member k s)))
                              (sort_key fst (map (\<lambda>(k, v). (k, jcsStringify v)) kvs))))
       (\<lambda>xs. Inr (braces xs))"

text \<open>\<open>JSON.stringify\<close> of a number: \<open>null\<close> when it is not finite.\<close>

definition json_number :: "jsnumber \<Rightarrow> string" where
  "json_number n = (if isFinite n then number_toString n else ''null'')"

fun canonicalJson :: "json \<Rightarrow> string" where
  "canonicalJson JNull = ''null''"
| "canonicalJson (JBool b) = (if b then ''true'' else ''false'')"
| "canonicalJson (JNum n) = json_number n"
| "canonicalJson (JStr s) = quote s"
| "canonicalJson (JArr vs) = brackets (map canonicalJson vs)"
| "canonicalJson (JObj kvs) =
     braces (map (\<lambda>(k, s). member k s) (sort_key fst (map (\<lambda>(k, v). (k, canonicalJson v)) kvs)))"

text \<open>\<open>JSON.stringify\<close> itself keeps the members in insertion order.\<close>

fun json_stringify :: "json \<Rightarrow> string" where
  "json_stringify JNull = ''null''"
| "json_stringify (JBool b) = (if b then ''true'' else ''false'')"
| "json_stringify (JNum n) = json_number n"
| "json_stringify (JStr s) = quote s"
| "json_stringify (JArr vs) = brackets (map json_stringify vs)"
| "json_stringify (JObj kvs) = braces (map (\<lambda>(k, s). member k s) (map (\<lambda>(k, v). (k, json_stringify v)) kvs))"

section \<open>Specification\<close>

text \<open>The values the issuers print: numbers are safe integers and the keys of an object are distinct.\<close>

fun wf_json :: "json \<Rightarrow> bool" where
  "wf_json (JNum n) = isSafeInteger n"
| "wf_json (JArr vs) = list_all wf_json vs"
| "wf_json (JObj kvs) = (distinct (map fst kvs) \<and> list_all (\<lambda>(k, v). wf_json v) kvs)"
| "wf_json _ = True"

text \<open>Two JSON texts denote the same value when they differ only in the order of object members: this
  is equality of the values with every object sorted by key.\<close>

fun normal_json :: "json \<Rightarrow> json" where
  "normal_json (JArr vs) = JArr (map normal_json vs)"
| "normal_json (JObj kvs) = JObj (sort_key fst (map (\<lambda>(k, v). (k, normal_json v)) kvs))"
| "normal_json v = v"

section \<open>Lemmas: the order of keys\<close>

lemma less_char_code: "c < d \<longleftrightarrow> code c < code d"
  by (simp add: less_char_def code_def)

lemma jcsCompareUtf16_less: "jcsCompareUtf16 a b < 0 \<longleftrightarrow> a < b"
  by (induction a b rule: jcsCompareUtf16.induct) (auto simp: less_char_code)

lemma jcsCompareUtf16_eq: "jcsCompareUtf16 a b = 0 \<longleftrightarrow> a = b"
  by (induction a b rule: jcsCompareUtf16.induct) auto

lemma insort_key_map:
  "(\<And>y. g (f y) = h y) \<Longrightarrow> insort_key g (f x) (map f xs) = map f (insort_key h x xs)"
  by (induction xs) simp_all

lemma sort_key_map: "(\<And>y. g (f y) = h y) \<Longrightarrow> sort_key g (map f xs) = map f (sort_key h xs)"
  by (induction xs) (simp_all add: insort_key_map)

lemma sort_key_members:
  "sort_key fst (map (\<lambda>(k, v). (k, f v)) kvs) = map (\<lambda>(k, v). (k, f v)) (sort_key fst kvs)"
  by (rule sort_key_map) auto

lemma canonicalJson_obj:
  "canonicalJson (JObj kvs) = braces (map (\<lambda>(k, v). member k (canonicalJson v)) (sort_key fst kvs))"
  by (simp add: sort_key_members) (simp add: case_prod_unfold comp_def)

lemma normal_json_obj:
  "normal_json (JObj kvs) = JObj (map (\<lambda>(k, v). (k, normal_json v)) (sort_key fst kvs))"
  by (simp add: sort_key_members)

text \<open>The two printers agree on the values the issuers print.\<close>

lemma sequence_Inr: "sequence (map (\<lambda>x. Inr (f x)) xs) = Inr (map f xs)"
  by (induction xs) simp_all

lemma jcs_eq_canonical: "wf_json v \<Longrightarrow> jcsStringify v = Inr (canonicalJson v)"
proof (induction v rule: canonicalJson.induct)
  case (3 n)
  then show ?case by (cases n) (simp_all add: json_number_def)
next
  case (5 vs)
  then have "map jcsStringify vs = map (\<lambda>v. Inr (canonicalJson v)) vs" by (simp add: list_all_iff)
  then show ?case by (simp add: sequence_Inr del: map_eq_conv)
next
  case (6 kvs)
  have "map (\<lambda>(k, v). (k, jcsStringify v)) kvs = map (\<lambda>(k, v). (k, Inr (canonicalJson v))) kvs"
    using 6 by (auto simp: list_all_iff)
  then have "jcsStringify (JObj kvs) = bind_result (sequence (map (\<lambda>kv. Inr (member (fst kv) (canonicalJson (snd kv)))) (sort_key fst kvs))) (\<lambda>xs. Inr (braces xs))"
    by (simp add: sort_key_members del: map_eq_conv) (simp add: case_prod_unfold comp_def)
  then show ?case by (simp add: sequence_Inr canonicalJson_obj case_prod_unfold del: canonicalJson.simps)
qed simp_all

section \<open>Lemmas: unique readability\<close>

definition no_digit :: "string \<Rightarrow> bool" where
  "no_digit r = (r = [] \<or> \<not> is_digit (hd r))"

text \<open>The code unit that a two-character escape stands for.\<close>

definition short_escape :: "char \<Rightarrow> nat" where
  "short_escape e = (if e = CHR ''b'' then 8 else if e = CHR ''t'' then 9 else if e = CHR ''n'' then 10
     else if e = CHR ''f'' then 12 else if e = CHR ''r'' then 13 else code e)"

lemma hex_digit_inject: "m < 16 \<Longrightarrow> n < 16 \<Longrightarrow> hex_digit m = hex_digit n \<longleftrightarrow> m = n"
proof -
  assume "m < 16" "n < 16"
  then have "code (hex_digit k) = (if k < 10 then 48 + k else 87 + k)" if "k = m \<or> k = n" for k
    using that by (auto simp: hex_digit_def)
  then show ?thesis by (auto dest!: arg_cong [of _ _ code] split: if_splits)
qed

lemma escape_char_cases:
  obtains "escape_char c = [c]" "c \<noteq> CHR 0x5C" "c \<noteq> CHR 0x22"
  | e where "escape_char c = [CHR 0x5C, e]" "e \<noteq> CHR ''u''" "code c = short_escape e"
  | "escape_char c = [CHR 0x5C, CHR ''u'', CHR ''0'', CHR ''0'', hex_digit (code c div 16), hex_digit (code c mod 16)]"
proof -
  consider "code c = 34" | "code c = 92" | "code c = 8" | "code c = 9" | "code c = 10" | "code c = 12" | "code c = 13"
    | "code c \<notin> {34, 92, 8, 9, 10, 12, 13}" "code c < 32"
    | "code c \<notin> {34, 92, 8, 9, 10, 12, 13}" "\<not> code c < 32" by blast
  then show ?thesis
  proof cases
    case 9
    then have "c \<noteq> CHR 0x5C" "c \<noteq> CHR 0x22" by (auto simp: code_def)
    with 9 that(1) show ?thesis by (simp add: escape_char_def)
  next
    case 8
    then have "escape_char c = [CHR 0x5C, CHR ''u'', CHR ''0'', CHR ''0'', hex_digit (code c div 16), hex_digit (code c mod 16)]"
      by (simp add: escape_char_def Let_def)
    then show ?thesis by (rule that(3))
  qed (rule that(2), simp add: escape_char_def, simp, simp add: short_escape_def code_def)+
qed

lemma escape_char_prefix_free:
  "escape_char c @ r = escape_char d @ s \<Longrightarrow> c = d \<and> r = s"
proof -
  assume eq: "escape_char c @ r = escape_char d @ s"
  have lt: "code x div 16 < 16" "code x mod 16 < 16" for x
    using code_less [of x] by (simp_all add: less_mult_imp_div_less)
  have hex: "code c div 16 = code d div 16 \<Longrightarrow> code c mod 16 = code d mod 16 \<Longrightarrow> c = d"
    by (metis div_mult_mod_eq code_inject)
  show ?thesis
  proof (cases rule: escape_char_cases [of c])
    case 1
    with eq show ?thesis by (cases rule: escape_char_cases [of d]) simp_all
  next
    case (2 e)
    show ?thesis
    proof (cases rule: escape_char_cases [of d])
      fix e' assume d: "escape_char d = [CHR 0x5C, e']" "code d = short_escape e'"
      with eq 2 have "e = e'" "r = s" by simp_all
      with 2 d show ?thesis by (metis code_inject)
    qed (use eq 2 in simp_all)
  next
    case 3
    show ?thesis
    proof (cases rule: escape_char_cases [of d])
      assume d: "escape_char d = [CHR 0x5C, CHR ''u'', CHR ''0'', CHR ''0'', hex_digit (code d div 16), hex_digit (code d mod 16)]"
      have "code c div 16 = code d div 16 \<and> code c mod 16 = code d mod 16 \<and> r = s"
        using eq unfolding 3 d by (simp add: hex_digit_inject lt)
      then show ?thesis using hex by blast
    qed (use eq 3 in simp_all)
  qed
qed

lemma quote_prefix_free: "quote s @ r = quote t @ r' \<Longrightarrow> s = t \<and> r = r'"
proof -
  have head: "escape_char c \<noteq> [] \<and> hd (escape_char c) \<noteq> CHR 0x22" for c
    by (cases rule: escape_char_cases [of c]) simp_all
  have "concat (map escape_char s) @ CHR 0x22 # r = concat (map escape_char t) @ CHR 0x22 # r' \<Longrightarrow> s = t \<and> r = r'"
  proof (induction s arbitrary: t)
    case Nil
    then show ?case
    proof (cases t)
      case (Cons d t')
      then show ?thesis using Nil head [of d] by (cases "escape_char d") auto
    qed simp
  next
    case (Cons c s)
    show ?case
    proof (cases t)
      case Nil
      then show ?thesis using head [of c] Cons.prems by (cases "escape_char c") auto
    next
      case (Cons d t')
      then have "escape_char c @ concat (map escape_char s) @ CHR 0x22 # r
          = escape_char d @ concat (map escape_char t') @ CHR 0x22 # r'" using Cons.prems by simp
      from escape_char_prefix_free [OF this] Cons.IH [of t'] Cons show ?thesis by simp
    qed
  qed
  then show "quote s @ r = quote t @ r' \<Longrightarrow> s = t \<and> r = r'" by (simp add: quote_def)
qed

lemma digits_prefix_free:
  assumes "list_all is_digit a" "list_all is_digit b" "no_digit r" "no_digit s" "a @ r = b @ s"
  shows "a = b \<and> r = s"
proof -
  have "takeWhile is_digit (a @ r) = a" "takeWhile is_digit (b @ s) = b"
    using assms(1-4) by (cases r; cases s; auto simp: list_all_iff no_digit_def takeWhile_append)+
  with assms(5) show ?thesis by simp
qed

lemma minus_no_digit: "\<not> is_digit CHR ''-''"
  by (simp add: is_digit_def code_def)

lemma show_int_prefix_free:
  assumes "no_digit r" "no_digit s" "show_int i @ r = show_int j @ s"
  shows "i = j \<and> r = s"
proof -
  have m: "CHR ''-'' # x \<noteq> show_nat n @ y" for x n y
    using hd_show_nat_digit [of n] minus_no_digit by (cases "show_nat n") auto
  have n: "show_nat a @ r = show_nat b @ s \<Longrightarrow> a = b \<and> r = s" for a b
    using digits_prefix_free [OF show_nat_digits show_nat_digits assms(1,2)] by (metis show_nat_inject)
  show ?thesis
  proof (cases "i < 0"; cases "j < 0")
    assume "i < 0" "j < 0"
    with assms(3) n [of "nat (- i)" "nat (- j)"] show ?thesis by (simp add: show_int_def nat_eq_iff)
  next
    assume "i < 0" "\<not> j < 0"
    with assms(3) m [of "show_nat (nat (- i)) @ r" "nat j" s] show ?thesis by (simp add: show_int_def)
  next
    assume "\<not> i < 0" "j < 0"
    with assms(3) m [of "show_nat (nat (- j)) @ s" "nat i" r] show ?thesis by (simp add: show_int_def)
  next
    assume "\<not> i < 0" "\<not> j < 0"
    with assms(3) n [of "nat i" "nat j"] show ?thesis by (simp add: show_int_def nat_eq_iff)
  qed
qed

text \<open>A list of items, each readable before a separator, is readable before its closing bracket.\<close>

lemma join_prefix_free:
  assumes "\<And>x y r s. x \<in> set xs \<Longrightarrow> y \<in> set ys \<Longrightarrow> no_digit r \<Longrightarrow> no_digit s \<Longrightarrow> f x @ r = f y @ s \<Longrightarrow> n x = n y \<and> r = s"
    and "\<And>x. x \<in> set xs \<union> set ys \<Longrightarrow> f x \<noteq> [] \<and> hd (f x) \<noteq> z"
    and "z \<noteq> CHR '',''" "\<not> is_digit z"
    and "join '','' (map f xs) @ z # r = join '','' (map f ys) @ z # s"
  shows "map n xs = map n ys \<and> r = s"
  using assms(1,2,5)
proof (induction xs arbitrary: ys)
  case Nil
  then show ?case
  proof (cases ys)
    case (Cons y ys')
    with Nil.prems(2) [of y] Nil.prems(3) show ?thesis by (cases ys'; cases "f y") simp_all
  qed simp
next
  case (Cons x xs)
  have c: "no_digit (CHR '','' # t)" for t by (simp add: no_digit_def is_digit_def code_def)
  have zd: "no_digit (z # t)" for t using assms(4) by (simp add: no_digit_def)
  show ?case
  proof (cases ys)
    case Nil
    with Cons.prems(2) [of x] Cons.prems(3) show ?thesis by (cases xs; cases "f x") simp_all
  next
    case (Cons y ys')
    have item: "f x @ a = f y @ b \<Longrightarrow> no_digit a \<Longrightarrow> no_digit b \<Longrightarrow> n x = n y \<and> a = b" for a b
      using Cons.prems(1) [of x y a b] Cons by simp
    show ?thesis
    proof (cases xs)
      case Nil
      then show ?thesis
        using Cons.prems(3) \<open>ys = y # ys'\<close> item [of "z # r"] assms(3) c zd by (cases ys') auto
    next
      case (Cons x' xs')
      show ?thesis
      proof (cases ys')
        case Nil
        then show ?thesis
          using Cons.prems(3) \<open>ys = y # ys'\<close> Cons item [of _ "z # s"] assms(3) c zd by auto
      next
        case (Cons y' ys'')
        then have "n x = n y \<and> join '','' (map f xs) @ z # r = join '','' (map f ys') @ z # s"
          using Cons.prems(3) \<open>ys = y # ys'\<close> \<open>xs = x' # xs'\<close>
            item [of "CHR '','' # join '','' (map f xs) @ z # r" "CHR '','' # join '','' (map f ys') @ z # s"] c by simp
        moreover have "map n xs = map n ys' \<and> r = s" if "join '','' (map f xs) @ z # r = join '','' (map f ys') @ z # s"
          using that Cons.prems(1,2) \<open>ys = y # ys'\<close> by (intro Cons.IH) auto
        ultimately show ?thesis using \<open>ys = y # ys'\<close> by simp
      qed
    qed
  qed
qed

text \<open>The first character tells the kind of a value.\<close>

lemma hd_show_int: "hd (show_int i) = CHR ''-'' \<or> is_digit (hd (show_int i))"
  by (simp add: show_int_def hd_show_nat_digit)

lemma show_int_nonempty [simp]: "show_int i \<noteq> []"
  by (simp add: show_int_def)

fun kind_char :: "json \<Rightarrow> char \<Rightarrow> bool" where
  "kind_char JNull c = (c = CHR ''n'')"
| "kind_char (JBool b) c = (c = (if b then CHR ''t'' else CHR ''f''))"
| "kind_char (JNum n) c = (c = CHR ''-'' \<or> is_digit c)"
| "kind_char (JStr s) c = (c = CHR 0x22)"
| "kind_char (JArr vs) c = (c = CHR ''['')"
| "kind_char (JObj kvs) c = (c = CHR ''{'')"

lemma safe_number: "wf_json (JNum n) \<Longrightarrow> \<exists>i. n = JInt i \<and> canonicalJson (JNum n) = show_int i"
  by (cases n) (auto simp: json_number_def MAX_SAFE_INTEGER_def)

lemma canonicalJson_head:
  "wf_json v \<Longrightarrow> \<exists>c s. canonicalJson v = c # s \<and> kind_char v c"
proof (cases v)
  case (JNum n)
  moreover assume "wf_json v"
  ultimately obtain i where "canonicalJson v = show_int i" using safe_number by blast
  then show ?thesis using JNum hd_show_int [of i] by (cases "show_int i") auto
qed (auto simp: quote_def brackets_def braces_def)

lemma kind_char_no_digit: "is_digit CHR ''n'' = False" "is_digit CHR ''t'' = False" "is_digit CHR ''f'' = False"
  "is_digit CHR 0x22 = False" "is_digit CHR ''['' = False" "is_digit CHR ''{'' = False" "is_digit CHR '']'' = False"
  "is_digit CHR ''}'' = False" "is_digit CHR '','' = False" "is_digit CHR '':'' = False"
  by (simp_all add: is_digit_def code_def)

lemma kind_char_open: "kind_char v c \<Longrightarrow> c \<noteq> CHR '']''"
  by (cases v) (auto simp: kind_char_no_digit)

text \<open>The inductive step of unique readability for a pair of values of the same kind.\<close>

definition readable :: "json \<Rightarrow> json \<Rightarrow> bool" where
  "readable v w = (\<forall>r s. no_digit r \<longrightarrow> no_digit s \<longrightarrow> canonicalJson v @ r = canonicalJson w @ s
     \<longrightarrow> normal_json v = normal_json w \<and> r = s)"

definition same_kind :: "json \<Rightarrow> json \<Rightarrow> bool" where
  "same_kind v w = (\<exists>c. kind_char v c \<and> kind_char w c)"

lemma readable_kind:
  assumes "wf_json v" "wf_json w" "same_kind v w \<Longrightarrow> readable v w"
  shows "readable v w"
proof (cases "same_kind v w")
  case False
  have "canonicalJson v @ r \<noteq> canonicalJson w @ s" for r s
    using canonicalJson_head [OF assms(1)] canonicalJson_head [OF assms(2)] False by (auto simp: same_kind_def)
  then show ?thesis by (simp add: readable_def)
qed (rule assms(3))

lemma readable_arr:
  assumes "\<And>v w. v \<in> set vs \<Longrightarrow> w \<in> set ws \<Longrightarrow> readable v w" "list_all wf_json vs" "list_all wf_json ws"
  shows "readable (JArr vs) (JArr ws)"
proof -
  have "map normal_json vs = map normal_json ws \<and> r = s"
    if "join '','' (map canonicalJson vs) @ CHR '']'' # r = join '','' (map canonicalJson ws) @ CHR '']'' # s" for r s
  proof (rule join_prefix_free [OF _ _ _ _ that])
    show "canonicalJson x \<noteq> [] \<and> hd (canonicalJson x) \<noteq> CHR '']''" if "x \<in> set vs \<union> set ws" for x
      using that assms(2,3) canonicalJson_head [of x] kind_char_open by (fastforce simp: list_all_iff)
  qed (use assms(1) in \<open>auto simp: readable_def kind_char_no_digit\<close>)
  then show ?thesis by (simp add: readable_def brackets_def)
qed

lemma readable_obj:
  assumes "\<And>k v l w. (k, v) \<in> set kvs \<Longrightarrow> (l, w) \<in> set lws \<Longrightarrow> readable v w"
  shows "readable (JObj kvs) (JObj lws)"
proof -
  let ?f = "\<lambda>(k, v). member k (canonicalJson v)" and ?n = "\<lambda>(k, v). (k, normal_json v)"
  have "map ?n (sort_key fst kvs) = map ?n (sort_key fst lws) \<and> r = s"
    if "join '','' (map ?f (sort_key fst kvs)) @ CHR ''}'' # r = join '','' (map ?f (sort_key fst lws)) @ CHR ''}'' # s" for r s
  proof (rule join_prefix_free [OF _ _ _ _ that])
    fix x y r s assume *: "x \<in> set (sort_key fst kvs)" "y \<in> set (sort_key fst lws)" "no_digit r" "no_digit s" "?f x @ r = ?f y @ s"
    obtain k v l w where xy: "x = (k, v)" "y = (l, w)" by fastforce
    have "quote k @ '':'' @ canonicalJson v @ r = quote l @ '':'' @ canonicalJson w @ s"
      using * xy by (simp add: member_def)
    then have "k = l \<and> '':'' @ canonicalJson v @ r = '':'' @ canonicalJson w @ s" by (rule quote_prefix_free)
    moreover have "readable v w" using * xy assms [of k v l w] by simp
    ultimately show "?n x = ?n y \<and> r = s" using *(3,4) xy by (simp add: readable_def)
  next
    show "?f x \<noteq> [] \<and> hd (?f x) \<noteq> CHR ''}''" for x by (cases x) (simp add: member_def quote_def)
  qed (simp_all add: kind_char_no_digit)
  then show ?thesis
    unfolding readable_def canonicalJson_obj normal_json_obj by (simp add: braces_def)
qed

lemma canonicalJson_readable: "wf_json v \<Longrightarrow> wf_json w \<Longrightarrow> readable v w"
proof (induction v arbitrary: w rule: canonicalJson.induct)
  case 1
  show ?case
    by (rule readable_kind [OF 1]) (cases w; simp add: same_kind_def readable_def kind_char_no_digit)
next
  case (2 b)
  show ?case
    by (rule readable_kind [OF 2])
      (cases w; cases b; simp add: same_kind_def readable_def kind_char_no_digit split: if_splits)
next
  case (3 n)
  show ?case
  proof (rule readable_kind [OF 3])
    assume k: "same_kind (JNum n) w"
    obtain i where i: "n = JInt i" "canonicalJson (JNum n) = show_int i" using safe_number 3(1) by blast
    from k obtain m where m: "w = JNum m" by (cases w) (auto simp: same_kind_def kind_char_no_digit split: if_splits)
    obtain j where j: "m = JInt j" "canonicalJson (JNum m) = show_int j" using safe_number 3(2) m by blast
    show "readable (JNum n) w"
      unfolding readable_def m i(2) j(2) using show_int_prefix_free i(1) j(1) by blast
  qed
next
  case (4 t)
  show ?case
  proof (rule readable_kind [OF 4])
    assume "same_kind (JStr t) w"
    then obtain u where w: "w = JStr u" by (cases w) (auto simp: same_kind_def kind_char_no_digit split: if_splits)
    show "readable (JStr t) w" unfolding w readable_def canonicalJson.simps using quote_prefix_free by blast
  qed
next
  case (5 vs)
  show ?case
  proof (rule readable_kind [OF 5(2,3)])
    assume "same_kind (JArr vs) w"
    then obtain ws where w: "w = JArr ws" by (cases w) (auto simp: same_kind_def kind_char_no_digit split: if_splits)
    show "readable (JArr vs) w" unfolding w
      by (rule readable_arr) (use 5 w in \<open>simp_all add: list_all_iff\<close>)
  qed
next
  case (6 kvs)
  show ?case
  proof (rule readable_kind [OF 6(2,3)])
    assume "same_kind (JObj kvs) w"
    then obtain lws where w: "w = JObj lws" by (cases w) (auto simp: same_kind_def kind_char_no_digit split: if_splits)
    have "wf_json x" if "(l, x) \<in> set lws" for l x using 6(3) w that by (auto simp: list_all_iff)
    moreover have "wf_json x" if "(l, x) \<in> set kvs" for l x using 6(2) that by (auto simp: list_all_iff)
    ultimately show "readable (JObj kvs) w" unfolding w
      by (intro readable_obj 6(1)) auto
  qed
qed

lemma canonicalJson_normal: "canonicalJson (normal_json v) = canonicalJson v"
proof (induction v rule: canonicalJson.induct)
  case (5 vs)
  then show ?case by (simp cong: map_cong)
next
  case (6 kvs)
  let ?n = "map (\<lambda>(k, v). (k, normal_json v)) (sort_key fst kvs)"
  have s: "sort_key fst ?n = ?n"
    by (simp flip: sort_key_members add: sort_key_id_if_sorted)
  have "map (\<lambda>(k, v). member k (canonicalJson v)) ?n = map (\<lambda>(k, v). member k (canonicalJson v)) (sort_key fst kvs)"
    using 6 by (auto simp: case_prod_unfold)
  then show ?case unfolding normal_json_obj canonicalJson_obj s by (rule arg_cong)
qed simp_all

lemma canonicalJson_inject:
  "wf_json v \<Longrightarrow> wf_json w \<Longrightarrow> canonicalJson v = canonicalJson w \<longleftrightarrow> normal_json v = normal_json w"
  using canonicalJson_readable [of v w] canonicalJson_normal by (metis append_Nil2 no_digit_def readable_def)

section \<open>Properties\<close>

text \<open>C21. Canonical JSON identifies a value: two values whose numbers are safe integers and whose
  objects have distinct keys print to the same text exactly when they differ at most in the order of
  object members, and the two printers of the code base then give that same text.\<close>

theorem canonical_json_identifies:
  assumes "wf_json v" "wf_json w"
  shows "(jcsStringify v = jcsStringify w \<longleftrightarrow> normal_json v = normal_json w)
       \<and> jcsStringify v = Inr (canonicalJson v)"
  using assms canonicalJson_inject by (simp add: jcs_eq_canonical)

theorem canonical_json_identifies_witness:
  "jcsStringify (JObj [(''b'', JNum (JInt 1)), (''a'', JNull)]) = jcsStringify (JObj [(''a'', JNull), (''b'', JNum (JInt 1))])
   \<and> jcsStringify (JObj [(''a'', JStr ''x'')]) \<noteq> jcsStringify (JObj [(''a'', JStr ''y'')])"
  using canonical_json_identifies [of "JObj [(''b'', JNum (JInt 1)), (''a'', JNull)]" "JObj [(''a'', JNull), (''b'', JNum (JInt 1))]"]
    canonical_json_identifies [of "JObj [(''a'', JStr ''x'')]" "JObj [(''a'', JStr ''y'')]"]
  by (simp add: MAX_SAFE_INTEGER_def less_char_code code_def)

end
