(* ===== verification/Base58.thy ===== *)
theory Base58
  imports Prelude
begin

text \<open>
  The base-58 and hexadecimal decoders of the issuers. The same code stands in
  \<^verbatim>\<open>src/issuers/civic.ts\<close>, \<^verbatim>\<open>kyc-test.ts\<close> and \<^verbatim>\<open>skill-cert.ts\<close>. Bytes and the running
  \<open>carry\<close> are natural numbers; \<open>& 0xff\<close> and \<open>>>= 8\<close> are remainder and quotient by 256, which is what
  the 32-bit operators compute because the carry stays below \<open>2\<^sup>3\<^sup>1\<close> (\<open>mul_carry_small\<close>).
\<close>

section \<open>Decoders\<close>

definition BASE58_ALPHABET :: string where
  "BASE58_ALPHABET = ''123456789ABCDEFGHJKLMNPQRSTUVWXYZabcdefghijkmnopqrstuvwxyz''"

fun index_of :: "'a \<Rightarrow> 'a list \<Rightarrow> nat option" where
  "index_of x [] = None"
| "index_of x (y # ys) = (if x = y then Some 0 else map_option Suc (index_of x ys))"

definition BASE58_LOOKUP :: "char \<Rightarrow> nat option" where
  "BASE58_LOOKUP c = index_of c BASE58_ALPHABET"

text \<open>\<open>while (carry > 0)\<close>: push the bytes of the carry.\<close>

fun push_carry :: "nat \<Rightarrow> nat list" where
  "push_carry carry = (if carry = 0 then [] else carry mod 256 # push_carry (carry div 256))"

declare push_carry.simps [simp del]

text \<open>One character: multiply the number by 58 and add, byte by byte from the lowest.\<close>

fun mul_carry :: "nat \<Rightarrow> nat list \<Rightarrow> nat list" where
  "mul_carry carry [] = push_carry carry"
| "mul_carry carry (b # bs) = (let c = carry + b * 58 in c mod 256 # mul_carry (c div 256) bs)"

fun base58_digits :: "string \<Rightarrow> nat list \<Rightarrow> nat list option" where
  "base58_digits [] bytes = Some bytes"
| "base58_digits (c # cs) bytes = (case BASE58_LOOKUP c of None \<Rightarrow> None
     | Some v \<Rightarrow> base58_digits cs (mul_carry v bytes))"

text \<open>\<open>None\<close> is the thrown error.\<close>

definition base58Decode :: "string \<Rightarrow> nat list option" where
  "base58Decode s = (if s = [] then Some []
     else let zeros = length (takeWhile (\<lambda>c. c = CHR ''1'') s)
     in map_option (\<lambda>bytes. replicate zeros 0 @ rev bytes) (base58_digits (drop zeros s) []))"

text \<open>\<open>parseInt(s, 16)\<close> stored in a byte: leading white space, a sign and a \<open>0x\<close> are skipped, the
  longest run of hexadecimal digits is read, and no digit at all is \<open>NaN\<close>, which a byte array stores
  as 0.\<close>

definition hex_value :: "char \<Rightarrow> nat" where
  "hex_value c = (if is_digit c then code c - 48 else if code c < 97 then code c - 55 else code c - 87)"

definition hex_number :: "string \<Rightarrow> nat" where
  "hex_number s = foldl (\<lambda>n c. 16 * n + hex_value c) 0 (takeWhile is_hex s)"

definition parseInt16_byte :: "string \<Rightarrow> nat" where
  "parseInt16_byte s = (let t = dropWhile is_space s;
       neg = (t \<noteq> [] \<and> hd t = CHR ''-'');
       u = (if t \<noteq> [] \<and> (hd t = CHR ''-'' \<or> hd t = CHR ''+'') then tl t else t);
       v = (if starts_with ''0x'' (to_lower (take 2 u)) then drop 2 u else u);
       n = hex_number v
     in nat ((if neg then - int n else int n) mod 256))"

fun hex_pairs :: "string \<Rightarrow> nat list" where
  "hex_pairs (a # b # s) = parseInt16_byte [a, b] # hex_pairs s"
| "hex_pairs _ = []"

definition hexToBytes :: "string \<Rightarrow> nat list option" where
  "hexToBytes s = (if length s mod 2 \<noteq> 0 then None else Some (hex_pairs s))"

text \<open>\<open>Buffer.from(s, "hex")\<close> stops at the first pair that is not hexadecimal.\<close>

fun buffer_from_hex :: "string \<Rightarrow> nat list" where
  "buffer_from_hex (a # b # s) = (if is_hex a \<and> is_hex b then (16 * hex_value a + hex_value b) # buffer_from_hex s else [])"
| "buffer_from_hex _ = []"

section \<open>Specification\<close>

text \<open>The number that digits of a base denote, lowest first.\<close>

fun numeral_val :: "nat \<Rightarrow> nat list \<Rightarrow> nat" where
  "numeral_val b [] = 0"
| "numeral_val b (d # ds) = d + b * numeral_val b ds"

definition no_leading_zero :: "nat list \<Rightarrow> bool" where
  "no_leading_zero ds = (ds = [] \<or> last ds \<noteq> 0)"

section \<open>Lemmas\<close>

lemma hex_value_less: "is_hex c \<Longrightarrow> hex_value c < 16"
  by (auto simp: hex_value_def is_hex_def is_digit_def)

lemma numeral_val_append: "numeral_val b (xs @ ys) = numeral_val b xs + b ^ length xs * numeral_val b ys"
  by (induction xs) (simp_all add: algebra_simps)

lemma numeral_val_pos: "0 < b \<Longrightarrow> ds \<noteq> [] \<Longrightarrow> no_leading_zero ds \<Longrightarrow> 0 < numeral_val b ds"
  by (induction ds) (auto simp: no_leading_zero_def split: if_splits)

text \<open>Numerals without leading zeros are unique.\<close>

lemma numeral_val_inject:
  assumes "0 < b" "\<forall>d \<in> set xs. d < b" "\<forall>d \<in> set ys. d < b" "no_leading_zero xs" "no_leading_zero ys"
    "numeral_val b xs = numeral_val b ys"
  shows "xs = ys"
  using assms
proof (induction xs arbitrary: ys)
  case Nil
  then show ?case using numeral_val_pos [of b ys] by fastforce
next
  case (Cons x xs)
  then obtain y ys' where ys: "ys = y # ys'"
    using numeral_val_pos [of b "x # xs"] by (cases ys) auto
  have "(x + b * numeral_val b xs) mod b = x" "(y + b * numeral_val b ys') mod b = y"
    using Cons.prems(2,3) ys by simp_all
  then have xy: "x = y" using Cons.prems(6) ys by (metis numeral_val.simps(2))
  then have "numeral_val b xs = numeral_val b ys'" using Cons.prems(1,6) ys by simp
  moreover have "no_leading_zero xs" "no_leading_zero ys'"
    using Cons.prems(4,5) ys by (auto simp: no_leading_zero_def split: if_splits)
  ultimately show ?case using Cons.IH [of ys'] Cons.prems ys xy by simp
qed

lemma push_carry_val: "numeral_val 256 (push_carry c) = c"
  by (induction c rule: push_carry.induct) (subst push_carry.simps, simp)

lemma push_carry_bytes: "b \<in> set (push_carry c) \<Longrightarrow> b < 256"
  by (induction c rule: push_carry.induct) (subst (asm) (2) push_carry.simps, auto split: if_splits)

lemma push_carry_empty [simp]: "push_carry c = [] \<longleftrightarrow> c = 0"
  by (subst push_carry.simps) simp

lemma push_carry_top: "no_leading_zero (push_carry c)"
proof (induction c rule: push_carry.induct)
  case (1 c)
  show ?case
  proof (cases "c = 0")
    case False
    with 1 have "no_leading_zero (push_carry (c div 256))" by simp
    with False show ?thesis by (subst push_carry.simps) (auto simp: no_leading_zero_def)
  qed (simp add: no_leading_zero_def)
qed

lemma mul_carry_val: "numeral_val 256 (mul_carry c bs) = c + 58 * numeral_val 256 bs"
proof (induction bs arbitrary: c)
  case Nil
  show ?case by (simp add: push_carry_val)
next
  case (Cons b bs)
  then show ?case by (simp add: Let_def algebra_simps)
qed

lemma mul_carry_bytes: "b \<in> set (mul_carry c bs) \<Longrightarrow> b < 256"
  by (induction bs arbitrary: c) (auto simp: Let_def push_carry_bytes)

text \<open>The carry never exceeds what a 32-bit signed integer holds.\<close>

lemma mul_carry_small: "(c::nat) < 58 \<Longrightarrow> b < 256 \<Longrightarrow> c + b * 58 < 2 ^ 31 \<and> (c + b * 58) div 256 < 58"
  by (simp add: div_less_iff_less_mult)

lemma mul_carry_top: "no_leading_zero bs \<Longrightarrow> no_leading_zero (mul_carry c bs)"
proof (induction bs arbitrary: c)
  case Nil
  then show ?case by (simp add: push_carry_top)
next
  case (Cons b bs)
  have ne: "mul_carry c' bs = [] \<longleftrightarrow> bs = [] \<and> c' = 0" for c' by (cases bs) (simp_all add: Let_def)
  show ?case
  proof (cases "mul_carry ((c + b * 58) div 256) bs = []")
    case True
    with Cons.prems ne have "b \<noteq> 0" "bs = []" "(c + b * 58) div 256 = 0" by (auto simp: no_leading_zero_def)
    then show ?thesis using True by (simp add: Let_def no_leading_zero_def div_eq_0_iff)
  next
    case False
    moreover from False ne Cons.prems have "no_leading_zero bs" by (auto simp: no_leading_zero_def split: if_splits)
    ultimately show ?thesis using Cons.IH [of "(c + b * 58) div 256"] by (simp add: Let_def no_leading_zero_def)
  qed
qed

lemma base58_digits_spec:
  "base58_digits s bs = Some out \<Longrightarrow> no_leading_zero bs \<Longrightarrow> (\<forall>b \<in> set bs. b < 256) \<Longrightarrow>
     no_leading_zero out \<and> (\<forall>b \<in> set out. b < 256)
   \<and> (\<exists>vs. map BASE58_LOOKUP s = map Some vs
        \<and> numeral_val 256 out = numeral_val 58 (rev vs) + 58 ^ length s * numeral_val 256 bs)"
proof (induction s arbitrary: bs)
  case Nil
  then show ?case by (auto intro: exI [of _ "[]"])
next
  case (Cons c s)
  then obtain v where v: "BASE58_LOOKUP c = Some v" "base58_digits s (mul_carry v bs) = Some out"
    by (auto split: option.splits)
  from Cons.IH [OF v(2)] Cons.prems(2) obtain vs where
    "no_leading_zero out" "\<forall>b \<in> set out. b < 256" "map BASE58_LOOKUP s = map Some vs"
    "numeral_val 256 out = numeral_val 58 (rev vs) + 58 ^ length s * (v + 58 * numeral_val 256 bs)"
    by (auto simp: mul_carry_top mul_carry_bytes mul_carry_val)
  moreover from this(3) have "length vs = length s" by (metis length_map)
  ultimately show ?case using v(1)
    by (auto intro!: exI [of _ "v # vs"] simp: numeral_val_append algebra_simps)
qed

lemma index_of_nth: "index_of x xs = Some i \<Longrightarrow> i < length xs \<and> xs ! i = x"
  by (induction xs arbitrary: i) (auto split: if_splits)

lemma BASE58_LOOKUP_inject: "BASE58_LOOKUP c = Some v \<Longrightarrow> BASE58_LOOKUP d = Some v \<Longrightarrow> c = d"
  unfolding BASE58_LOOKUP_def using index_of_nth by metis

lemma BASE58_LOOKUP_less: "BASE58_LOOKUP c = Some v \<Longrightarrow> v < 58"
  using index_of_nth [of c BASE58_ALPHABET v] by (simp add: BASE58_LOOKUP_def BASE58_ALPHABET_def)

lemma BASE58_LOOKUP_zero: "BASE58_LOOKUP c = Some 0 \<longleftrightarrow> c = CHR ''1''"
  by (simp add: BASE58_LOOKUP_def BASE58_ALPHABET_def)

lemma map_lookup_inject:
  "map BASE58_LOOKUP s = map Some vs \<Longrightarrow> map BASE58_LOOKUP t = map Some vs \<Longrightarrow> s = t"
proof (induction vs arbitrary: s t)
  case (Cons v vs)
  then show ?case by (cases s; cases t) (auto dest: BASE58_LOOKUP_inject)
qed simp

text \<open>What decoding returns: as many zero bytes as there are leading ones, then the bytes of the base-58
  number, highest first and without leading zeros.\<close>

lemma base58Decode_spec:
  assumes "base58Decode s = Some out"
  obtains z bs vs t where "s = replicate z (CHR ''1'') @ t" "out = replicate z 0 @ rev bs" "no_leading_zero bs"
    "\<forall>b \<in> set bs. b < 256" "map BASE58_LOOKUP t = map Some vs" "no_leading_zero (rev vs)"
    "numeral_val 256 bs = numeral_val 58 (rev vs)"
proof (cases "s = []")
  case True
  with assms that [of 0 "[]" "[]" "[]"] show ?thesis by (simp add: base58Decode_def no_leading_zero_def)
next
  case False
  define z where "z = length (takeWhile (\<lambda>c. c = CHR ''1'') s)"
  define t where "t = dropWhile (\<lambda>c. c = CHR ''1'') s"
  have s: "s = replicate z (CHR ''1'') @ t"
  proof -
    have "takeWhile (\<lambda>c. c = CHR ''1'') s = replicate z (CHR ''1'')"
      unfolding z_def by (rule replicate_length_same [symmetric]) (blast dest: set_takeWhileD)
    then show ?thesis unfolding t_def by (metis takeWhile_dropWhile_id)
  qed
  have "drop z s = t" using s by (metis append_eq_conv_conj length_replicate)
  then obtain bs where bs: "base58_digits t [] = Some bs" "out = replicate z 0 @ rev bs"
    using assms False by (auto simp: base58Decode_def Let_def z_def [symmetric])
  from base58_digits_spec [OF bs(1)] obtain vs where d: "no_leading_zero bs" "\<forall>b \<in> set bs. b < 256"
    "map BASE58_LOOKUP t = map Some vs" "numeral_val 256 bs = numeral_val 58 (rev vs)"
    by (auto simp: no_leading_zero_def)
  have "no_leading_zero (rev vs)"
  proof (cases t)
    case (Cons c u)
    then have "c \<noteq> CHR ''1''" unfolding t_def by (metis (mono_tags, lifting) dropWhile_eq_Cons_conv)
    with d(3) Cons BASE58_LOOKUP_zero [of c] show ?thesis by (cases vs) (auto simp: no_leading_zero_def)
  qed (use d(3) in \<open>simp add: no_leading_zero_def\<close>)
  with that s bs(2) d show ?thesis by blast
qed

lemma replicate_append_inject:
  assumes "replicate m x @ a = replicate n x @ b" "a = [] \<or> hd a \<noteq> x" "b = [] \<or> hd b \<noteq> x"
  shows "m = n \<and> a = b"
  using assms
proof (induction m arbitrary: n)
  case 0
  then show ?case by (cases n) auto
next
  case (Suc m)
  then show ?case by (cases n) auto
qed

section \<open>Properties\<close>

text \<open>The base-58 decoder computes the number its input denotes and loses nothing: a result is as many
  zero bytes as the input has leading ones followed by the shortest big-endian bytes of the base-58
  number of the rest, and no two inputs have the same result.\<close>

theorem base58Decode_correct:
  assumes "base58Decode s = Some out"
  shows "(\<exists>z t vs bs. s = replicate z (CHR ''1'') @ t \<and> out = replicate z 0 @ bs \<and> map BASE58_LOOKUP t = map Some vs
           \<and> numeral_val 256 (rev bs) = numeral_val 58 (rev vs) \<and> (bs = [] \<or> hd bs \<noteq> 0) \<and> (\<forall>b \<in> set bs. b < 256))
       \<and> (base58Decode s' = Some out \<longleftrightarrow> s' = s)"
proof -
  from assms obtain z bs vs t where a: "s = replicate z (CHR ''1'') @ t" "out = replicate z 0 @ rev bs" "no_leading_zero bs"
    "\<forall>b \<in> set bs. b < 256" "map BASE58_LOOKUP t = map Some vs" "no_leading_zero (rev vs)"
    "numeral_val 256 bs = numeral_val 58 (rev vs)" by (rule base58Decode_spec)
  have head: "rev xs = [] \<or> hd (rev xs) \<noteq> 0" if "no_leading_zero xs" for xs :: "nat list"
    using that by (auto simp: no_leading_zero_def hd_rev)
  have "s' = s" if "base58Decode s' = Some out"
  proof -
    from that obtain z' bs' vs' t' where b: "s' = replicate z' (CHR ''1'') @ t'" "out = replicate z' 0 @ rev bs'"
      "no_leading_zero bs'" "\<forall>b \<in> set bs'. b < 256" "map BASE58_LOOKUP t' = map Some vs'" "no_leading_zero (rev vs')"
      "numeral_val 256 bs' = numeral_val 58 (rev vs')" by (rule base58Decode_spec)
    from a(2) b(2) have "z = z' \<and> rev bs = rev bs'"
      using replicate_append_inject head [OF a(3)] head [OF b(3)] by metis
    then have zb: "z = z'" "bs = bs'" by simp_all
    have small: "\<forall>v \<in> set (rev ws). v < 58" if "map BASE58_LOOKUP u = map Some ws" for u ws
    proof -
      have "Some v \<in> set (map BASE58_LOOKUP u)" if "v \<in> set ws" for v
        using \<open>map BASE58_LOOKUP u = map Some ws\<close> that by simp
      then show ?thesis using BASE58_LOOKUP_less by fastforce
    qed
    have "rev vs = rev vs'"
      using numeral_val_inject [of 58 "rev vs" "rev vs'"] small [OF a(5)] small [OF b(5)] a(6,7) b(6,7) zb by simp
    then have "t = t'" using map_lookup_inject a(5) b(5) by simp
    with zb a(1) b(1) show ?thesis by simp
  qed
  moreover have "rev bs = [] \<or> hd (rev bs) \<noteq> 0" using head a(3) by blast
  ultimately show ?thesis
    using assms a by (intro conjI exI [of _ z] exI [of _ t] exI [of _ vs] exI [of _ "rev bs"]) auto
qed

theorem base58Decode_correct_witness:
  "base58Decode ''12z'' = Some [0, 115] \<and> (\<forall>s'. base58Decode s' = Some [0, 115] \<longleftrightarrow> s' = ''12z'')"
proof -
  have d: "base58Decode ''12z'' = Some [0, 115]" by code_simp
  with base58Decode_correct [OF d] show ?thesis by blast
qed

end
