(* ===== verification/Json_Text.thy ===== *)
theory Json_Text
  imports Jcs Base58
begin

text \<open>
  Reading text: \<open>JSON.parse\<close> over the whole JSON grammar, the conversion of a decimal literal to the
  nearest double, \<open>Number(v)\<close> of a JSON value, and the decoders of \<open>Buffer\<close> (base64url and UTF-8).
  The main lemma is that \<open>JSON.parse\<close> inverts \<open>JSON.stringify\<close> on the values the program prints.

  A text that denotes a string with a code unit above U+00FF is outside the model of strings; the
  readers answer \<open>None\<close> for it, as for a syntax error. The sign of a zero is not kept.
\<close>

section \<open>Numbers\<close>

text \<open>The double nearest to a rational, subnormal and overflowing values included.\<close>

definition to_double :: "rat \<Rightarrow> jsnumber" where
  "to_double q = (if q = 0 then JInt 0 else
     let e = max (ilog2 \<bar>q\<bar> - 52) (- 1074); v = sgn q * of_int (round_even (\<bar>q\<bar> / 2 powi e)) * 2 powi e
     in if 2 powi 1024 \<le> \<bar>v\<bar> then JInf (0 < q) else if v = of_int \<lfloor>v\<rfloor> then JInt \<lfloor>v\<rfloor> else JFrac v)"

text \<open>\<open>[eE][+-]?[0-9]+\<close>, optional: the exponent and the rest.\<close>

definition read_exponent :: "string \<Rightarrow> (int \<times> string) option" where
  "read_exponent s = (case s of c # t \<Rightarrow>
       if c = CHR ''e'' \<or> c = CHR ''E'' then
         let neg = (t \<noteq> [] \<and> hd t = CHR ''-''); u = (if t \<noteq> [] \<and> (hd t = CHR ''-'' \<or> hd t = CHR ''+'') then tl t else t);
             ds = takeWhile is_digit u
         in if ds = [] then None
            else Some (if neg then - int (parse_nat ds) else int (parse_nat ds), dropWhile is_digit u)
       else Some (0, s)
     | [] \<Rightarrow> Some (0, s))"

text \<open>\<open>(\.[0-9]+)?\<close>: the digits and the rest.\<close>

definition read_fraction :: "string \<Rightarrow> (string \<times> string) option" where
  "read_fraction s = (case s of c # t \<Rightarrow>
       if c = CHR ''.'' then (if takeWhile is_digit t = [] then None else Some (takeWhile is_digit t, dropWhile is_digit t))
       else Some ([], s)
     | [] \<Rightarrow> Some ([], s))"

definition decimal :: "string \<Rightarrow> string \<Rightarrow> int \<Rightarrow> rat" where
  "decimal ds fs ex = of_nat (parse_nat (ds @ fs)) * 10 powi (ex - int (length fs))"

definition read_number :: "string \<Rightarrow> (jsnumber \<times> string) option" where
  "read_number s = (let neg = (s \<noteq> [] \<and> hd s = CHR ''-''); t = (if neg then tl s else s); ds = takeWhile is_digit t
     in if ds = [] \<or> (1 < length ds \<and> hd ds = CHR ''0'') then None
        else case read_fraction (dropWhile is_digit t) of None \<Rightarrow> None
        | Some (fs, u) \<Rightarrow> (case read_exponent u of None \<Rightarrow> None
          | Some (ex, r) \<Rightarrow> Some (to_double ((if neg then - 1 else 1) * decimal ds fs ex), r)))"

section \<open>JSON.parse\<close>

definition json_space :: "char \<Rightarrow> bool" where
  "json_space c = (code c \<in> {9, 10, 13, 32})"

definition skip_space :: "string \<Rightarrow> string" where
  "skip_space s = dropWhile json_space s"

text \<open>The character of \<open>\uXXXX\<close>, when it is below U+0100.\<close>

definition unicode_escape :: "char \<Rightarrow> char \<Rightarrow> char \<Rightarrow> char \<Rightarrow> char option" where
  "unicode_escape a b c d = (if list_all is_hex [a, b, c, d] \<and> hex_value a = 0 \<and> hex_value b = 0
     then Some (char_of (16 * hex_value c + hex_value d)) else None)"

definition simple_escape :: "char \<Rightarrow> char option" where
  "simple_escape c = (if c = CHR 0x22 \<or> c = CHR 0x5C \<or> c = CHR ''/'' then Some c
     else if c = CHR ''b'' then Some (CHR 0x08) else if c = CHR ''f'' then Some (CHR 0x0C)
     else if c = CHR ''n'' then Some (CHR 0x0A) else if c = CHR ''r'' then Some (CHR 0x0D)
     else if c = CHR ''t'' then Some (CHR 0x09) else None)"

definition put_char :: "char \<Rightarrow> (string \<times> string) option \<Rightarrow> (string \<times> string) option" where
  "put_char c x = (case x of None \<Rightarrow> None | Some (s, r) \<Rightarrow> Some (c # s, r))"

text \<open>The characters after an opening quotation mark, up to the closing one.\<close>

function (sequential) read_string :: "string \<Rightarrow> (string \<times> string) option" where
  "read_string [] = None"
| "read_string (c # s) = (
     if c = CHR 0x22 then Some ([], s)
     else if c = CHR 0x5C then (case s of
         [] \<Rightarrow> None
       | e # t \<Rightarrow>
           if e = CHR ''u'' then (case t of
               h1 # h2 # h3 # h4 # r \<Rightarrow> (case unicode_escape h1 h2 h3 h4 of None \<Rightarrow> None | Some x \<Rightarrow> put_char x (read_string r))
             | _ \<Rightarrow> None)
           else (case simple_escape e of None \<Rightarrow> None | Some x \<Rightarrow> put_char x (read_string t)))
     else if code c < 32 then None
     else put_char c (read_string s))"
  by pat_completeness auto
termination by (relation "measure length") auto

declare read_string.simps [simp del]

text \<open>A repeated key keeps the place of its first and the value of its last occurrence.\<close>

fun set_member :: "string \<Rightarrow> json \<Rightarrow> (string \<times> json) list \<Rightarrow> (string \<times> json) list" where
  "set_member k v [] = [(k, v)]"
| "set_member k v ((k', v') # kvs) = (if k = k' then (k, v) # kvs else (k', v') # set_member k v kvs)"

definition read_word :: "string \<Rightarrow> json \<Rightarrow> string \<Rightarrow> (json \<times> string) option" where
  "read_word w v s = (if starts_with w s then Some (v, drop (length w) s) else None)"

text \<open>A quoted key and the colon after it.\<close>

definition read_key :: "string \<Rightarrow> (string \<times> string) option" where
  "read_key s = (case skip_space s of [] \<Rightarrow> None | q # s1 \<Rightarrow>
     if q \<noteq> CHR 0x22 then None else
     (case read_string s1 of None \<Rightarrow> None | Some (k, s2) \<Rightarrow>
        (case skip_space s2 of [] \<Rightarrow> None | e # s3 \<Rightarrow> if e \<noteq> CHR '':'' then None else Some (k, s3))))"

text \<open>\<open>read_value\<close> reads a value, \<open>read_elements\<close> the rest of an array after its opening bracket or a
  comma, \<open>read_members\<close> the same of an object. \<open>acc\<close> holds what was read, newest first for
  elements. The first argument bounds the depth of the calls.\<close>

fun read_value :: "nat \<Rightarrow> string \<Rightarrow> (json \<times> string) option"
  and read_elements :: "nat \<Rightarrow> json list \<Rightarrow> string \<Rightarrow> (json \<times> string) option"
  and read_members :: "nat \<Rightarrow> (string \<times> json) list \<Rightarrow> string \<Rightarrow> (json \<times> string) option" where
  "read_value 0 s = None"
| "read_value (Suc n) s = (case skip_space s of [] \<Rightarrow> None | c # t \<Rightarrow>
     if c = CHR ''['' then (case skip_space t of [] \<Rightarrow> None | d # u \<Rightarrow>
         if d = CHR '']'' then Some (JArr [], u) else read_elements n [] t)
     else if c = CHR ''{'' then (case skip_space t of [] \<Rightarrow> None | d # u \<Rightarrow>
         if d = CHR ''}'' then Some (JObj [], u) else read_members n [] t)
     else if c = CHR 0x22 then (case read_string t of None \<Rightarrow> None | Some (x, r) \<Rightarrow> Some (JStr x, r))
     else if c = CHR ''n'' then read_word ''null'' JNull (c # t)
     else if c = CHR ''t'' then read_word ''true'' (JBool True) (c # t)
     else if c = CHR ''f'' then read_word ''false'' (JBool False) (c # t)
     else (case read_number (c # t) of None \<Rightarrow> None | Some (x, r) \<Rightarrow> Some (JNum x, r)))"
| "read_elements 0 acc s = None"
| "read_elements (Suc n) acc s = (case read_value n s of None \<Rightarrow> None | Some (v, r) \<Rightarrow>
     (case skip_space r of [] \<Rightarrow> None | d # u \<Rightarrow>
        if d = CHR '','' then read_elements n (v # acc) u
        else if d = CHR '']'' then Some (JArr (rev (v # acc)), u) else None))"
| "read_members 0 acc s = None"
| "read_members (Suc n) acc s = (case read_key s of None \<Rightarrow> None | Some (k, t) \<Rightarrow>
     (case read_value n t of None \<Rightarrow> None | Some (v, r) \<Rightarrow>
        (case skip_space r of [] \<Rightarrow> None | d # u \<Rightarrow>
           if d = CHR '','' then read_members n (set_member k v acc) u
           else if d = CHR ''}'' then Some (JObj (set_member k v acc), u) else None)))"

definition json_parse :: "string \<Rightarrow> json option" where
  "json_parse s = (case read_value (2 * length s + 1) s of
     Some (v, r) \<Rightarrow> if skip_space r = [] then Some v else None | None \<Rightarrow> None)"

section \<open>Bytes to text\<close>

text \<open>\<open>Buffer.prototype.toString("base64url")\<close>: no padding.\<close>

definition B64_ALPHABET :: string where
  "B64_ALPHABET = ''ABCDEFGHIJKLMNOPQRSTUVWXYZabcdefghijklmnopqrstuvwxyz0123456789-_''"

definition b64_char :: "nat \<Rightarrow> char" where
  "b64_char n = B64_ALPHABET ! n"

fun b64url_encode :: "nat list \<Rightarrow> string" where
  "b64url_encode (a # b # c # r) = b64_char (a div 4) # b64_char (a mod 4 * 16 + b div 16)
     # b64_char (b mod 16 * 4 + c div 64) # b64_char (c mod 64) # b64url_encode r"
| "b64url_encode [a, b] = [b64_char (a div 4), b64_char (a mod 4 * 16 + b div 16), b64_char (b mod 16 * 4)]"
| "b64url_encode [a] = [b64_char (a div 4), b64_char (a mod 4 * 16)]"
| "b64url_encode [] = []"

text \<open>\<open>Buffer.from(s, "base64url")\<close> reads both alphabets, ends at a padding sign and skips every other
  character.\<close>

definition b64_value :: "char \<Rightarrow> nat option" where
  "b64_value c = (if c = CHR ''+'' then Some 62 else if c = CHR ''/'' then Some 63 else index_of c B64_ALPHABET)"

fun sextets_bytes :: "nat list \<Rightarrow> nat list" where
  "sextets_bytes (w # x # y # z # r) = (w * 4 + x div 16) # (x mod 16 * 16 + y div 4) # (y mod 4 * 64 + z) # sextets_bytes r"
| "sextets_bytes [w, x, y] = [w * 4 + x div 16, x mod 16 * 16 + y div 4]"
| "sextets_bytes [w, x] = [w * 4 + x div 16]"
| "sextets_bytes _ = []"

definition b64url_decode :: "string \<Rightarrow> nat list" where
  "b64url_decode s = sextets_bytes (List.map_filter b64_value (takeWhile (\<lambda>c. c \<noteq> CHR ''='') s))"

text \<open>\<open>Buffer.prototype.toString("utf8")\<close>, for bytes that are the UTF-8 text of code units below U+0100.\<close>

fun utf8_decode :: "nat list \<Rightarrow> string option" where
  "utf8_decode [] = Some []"
| "utf8_decode (a # r) = (
     if a < 128 then map_option (Cons (char_of a)) (utf8_decode r)
     else if a = 194 \<or> a = 195 then (case r of
         b # r' \<Rightarrow> if 128 \<le> b \<and> b < 192 then map_option (Cons (char_of ((a - 192) * 64 + (b - 128)))) (utf8_decode r') else None
       | [] \<Rightarrow> None)
     else None)"

definition to_hex :: "nat list \<Rightarrow> string" where
  "to_hex bs = concat (map (\<lambda>b. [hex_digit (b div 16), hex_digit (b mod 16)]) bs)"

section \<open>Lemmas: fuel\<close>

lemma length_skip_space: "length (skip_space s) \<le> length s"
  by (simp add: skip_space_def length_dropWhile_le)

lemma skip_space_Cons: "skip_space s = c # t \<Longrightarrow> length t < length s"
  using length_skip_space [of s] by simp

lemma put_char_Some: "put_char c x = Some (s, r) \<Longrightarrow> \<exists>s'. x = Some (s', r)"
  by (auto simp: put_char_def split: option.splits)

lemma read_string_shorter: "read_string s = Some (x, r) \<Longrightarrow> length r < length s"
proof (induction "length s" arbitrary: s x r rule: less_induct)
  case less
  have IH: "length u < length s \<Longrightarrow> put_char c (read_string u) = Some (x, r) \<Longrightarrow> length r < length s" for u c
    using less.hyps [of u] by (auto dest!: put_char_Some)
  from less.prems show ?case
  proof (cases s)
    case (Cons c t)
    with less.prems show ?thesis
      by (auto simp: read_string.simps split: if_splits list.splits option.splits dest!: IH [rotated])
  qed (simp add: read_string.simps)
qed

lemma read_exponent_shorter: "read_exponent s = Some (x, r) \<Longrightarrow> length r \<le> length s"
  by (auto simp: read_exponent_def Let_def split: list.splits if_splits
      intro: order_trans [OF length_dropWhile_le] le_SucI)

lemma read_fraction_shorter: "read_fraction s = Some (x, r) \<Longrightarrow> length r \<le> length s"
  by (auto simp: read_fraction_def split: list.splits if_splits intro: order_trans [OF length_dropWhile_le] le_SucI)

lemma length_dropWhile_less: "takeWhile P s \<noteq> [] \<Longrightarrow> length (dropWhile P s) < length s"
  by (cases s) (auto split: if_splits simp: less_Suc_eq_le length_dropWhile_le)

lemma read_number_shorter: "read_number s = Some (x, r) \<Longrightarrow> length r < length s"
proof -
  assume a: "read_number s = Some (x, r)"
  define t where "t = (if s \<noteq> [] \<and> hd s = CHR ''-'' then tl s else s)"
  have t: "length t \<le> length s" by (simp add: t_def)
  from a obtain fs u ex where "takeWhile is_digit t \<noteq> []" "read_fraction (dropWhile is_digit t) = Some (fs, u)" "read_exponent u = Some (ex, r)"
    by (auto simp: read_number_def Let_def t_def [symmetric] split: if_splits option.splits)
  with t length_dropWhile_less [of is_digit t] show ?thesis
    by (auto dest!: read_exponent_shorter read_fraction_shorter)
qed

lemma read_word_shorter: "w \<noteq> [] \<Longrightarrow> read_word w v s = Some (x, r) \<Longrightarrow> length r < length s"
  by (cases s; cases w) (auto simp: read_word_def starts_with_def split: if_splits)

lemma read_key_shorter: "read_key s = Some (k, t) \<Longrightarrow> length t < length s"
  by (auto simp: read_key_def split: list.splits if_splits option.splits dest!: skip_space_Cons read_string_shorter)

lemma read_shorter_all:
  "(\<forall>s v r. read_value n s = Some (v, r) \<longrightarrow> length r < length s)
   \<and> (\<forall>acc s v r. read_elements n acc s = Some (v, r) \<longrightarrow> length r < length s)
   \<and> (\<forall>acc s v r. read_members n acc s = Some (v, r) \<longrightarrow> length r < length s)"
proof (induction n)
  case (Suc n)
  then have IH: "read_value n s = Some (v, r) \<Longrightarrow> length r < length s"
    "read_elements n acc s = Some (v, r) \<Longrightarrow> length r < length s"
    "read_members n mems s = Some (v, r) \<Longrightarrow> length r < length s" for s v r acc mems by blast+
  have "length r < length s" if a: "read_value (Suc n) s = Some (v, r)" for s v r
  proof (cases "skip_space s")
    case (Cons c t)
    then have le: "length t < length s" by (rule skip_space_Cons)
    have ct: "length (c # t) \<le> length s" using length_skip_space [of s] Cons by simp
    from a Cons have "length r < length t \<or> length r < length (c # t)"
      by (auto split: if_splits list.splits option.splits prod.splits
          dest!: skip_space_Cons IH(2,3) read_string_shorter read_word_shorter [rotated] read_number_shorter)
    with le ct show ?thesis by linarith
  qed (use a in simp)
  moreover have "length r < length s" if "read_elements (Suc n) acc s = Some (v, r)" for acc s v r
    using that by (auto split: if_splits list.splits option.splits dest!: skip_space_Cons IH)
  moreover have "length r < length s" if "read_members (Suc n) acc s = Some (v, r)" for acc s v r
    using that by (auto split: if_splits list.splits option.splits dest!: skip_space_Cons read_key_shorter IH)
  ultimately show ?case by blast
qed simp

lemma read_value_shorter: "read_value n s = Some (v, r) \<Longrightarrow> length r < length s"
  using read_shorter_all by blast

text \<open>The bound on the depth that \<open>json_parse\<close> uses is enough: any larger one gives the same answer.\<close>

lemma read_fuel_all:
  "(\<forall>m s. 2 * length s + 1 \<le> n \<longrightarrow> n \<le> m \<longrightarrow> read_value m s = read_value n s)
   \<and> (\<forall>m acc s. 2 * length s + 2 \<le> n \<longrightarrow> n \<le> m \<longrightarrow> read_elements m acc s = read_elements n acc s)
   \<and> (\<forall>m acc s. 2 * length s + 2 \<le> n \<longrightarrow> n \<le> m \<longrightarrow> read_members m acc s = read_members n acc s)"
proof (induction n)
  case (Suc n)
  then have IH: "2 * length s + 1 \<le> n \<Longrightarrow> n \<le> m \<Longrightarrow> read_value m s = read_value n s"
    "2 * length s + 2 \<le> n \<Longrightarrow> n \<le> m \<Longrightarrow> read_elements m acc s = read_elements n acc s"
    "2 * length s + 2 \<le> n \<Longrightarrow> n \<le> m \<Longrightarrow> read_members m mems s = read_members n mems s" for s m acc mems by blast+
  have V: "read_value (Suc k) s = read_value (Suc n) s" if "2 * length s + 1 \<le> Suc n" "n \<le> k" for k s
  proof (cases "skip_space s")
    case (Cons c t)
    then have "2 * length t + 2 \<le> n" using skip_space_Cons [OF Cons] that by simp
    with IH(2,3) [OF _ that(2)] have "read_elements k [] t = read_elements n [] t" "read_members k [] t = read_members n [] t"
      by blast+
    then show ?thesis using Cons by (simp split: list.split)
  qed simp
  have E: "read_elements (Suc k) acc s = read_elements (Suc n) acc s" if h: "2 * length s + 2 \<le> Suc n" "n \<le> k" for k acc s
  proof -
    have v: "read_value k s = read_value n s" using h by (intro IH(1)) simp_all
    have "read_elements k a u = read_elements n a u"
      if "read_value n s = Some (w, r)" "skip_space r = d # u" for w r u d a
      using that h by (intro IH(2)) (auto dest!: read_value_shorter skip_space_Cons)
    then show ?thesis by (auto simp: v split: option.splits list.splits)
  qed
  have M: "read_members (Suc k) acc s = read_members (Suc n) acc s" if h: "2 * length s + 2 \<le> Suc n" "n \<le> k" for k acc s
  proof -
    have v: "read_value k t = read_value n t" if "read_key s = Some (x, t)" for x t
      using h that by (intro IH(1)) (auto dest!: read_key_shorter)
    have "read_members k a u = read_members n a u"
      if "read_key s = Some (x, t)" "read_value n t = Some (w, r)" "skip_space r = d # u" for x t w r u d a
      using that h by (intro IH(3)) (auto dest!: read_key_shorter read_value_shorter skip_space_Cons)
    then show ?thesis by (auto simp: v split: option.splits list.splits)
  qed
  have m: "Suc n \<le> m \<Longrightarrow> \<exists>k. m = Suc k \<and> n \<le> k" for m by (cases m) auto
  show ?case by (intro conjI allI impI; drule m; elim exE conjE; hypsubst; rule V E M; assumption)
qed simp

lemma read_value_fuel: "2 * length s + 1 \<le> n \<Longrightarrow> read_value n s = read_value (2 * length s + 1) s"
  using read_fuel_all [of "2 * length s + 1"] by simp

section \<open>Lemmas: reading what was printed\<close>

lemma hex_value_hex_digit: "d < 16 \<Longrightarrow> is_hex (hex_digit d) \<and> hex_value (hex_digit d) = d"
  by (simp add: hex_digit_def is_hex_def hex_value_def is_digit_def)

lemma read_string_escape: "read_string (escape_char c @ s) = put_char c (read_string s)"
proof -
  consider "code c \<in> {34, 92, 8, 9, 10, 12, 13}"
    | "code c \<notin> {34, 92, 8, 9, 10, 12, 13}" "code c < 32"
    | "code c \<notin> {34, 92, 8, 9, 10, 12, 13}" "\<not> code c < 32" by blast
  then show ?thesis
  proof cases
    case 1
    then have "code c \<in> code ` {CHR 0x22, CHR 0x5C, CHR 0x08, CHR 0x09, CHR 0x0A, CHR 0x0C, CHR 0x0D}"
      by (simp add: code_def)
    then have "c \<in> {CHR 0x22, CHR 0x5C, CHR 0x08, CHR 0x09, CHR 0x0A, CHR 0x0C, CHR 0x0D}"
      by (simp only: image_insert image_empty insert_iff code_inject empty_iff)
    then show ?thesis by (auto simp: escape_char_def code_def read_string.simps(2) simple_escape_def)
  next
    case 2
    have d: "code c div 16 < 16" "code c mod 16 < 16" using code_less [of c] by (simp_all add: less_mult_imp_div_less)
    then have "unicode_escape (CHR ''0'') (CHR ''0'') (hex_digit (code c div 16)) (hex_digit (code c mod 16)) = Some c"
      using hex_value_hex_digit [OF d(1)] hex_value_hex_digit [OF d(2)]
      by (simp add: unicode_escape_def is_hex_def is_digit_def hex_value_def) (simp add: code_def)
    moreover have "escape_char c = [CHR 0x5C, CHR ''u'', CHR ''0'', CHR ''0'', hex_digit (code c div 16), hex_digit (code c mod 16)]"
      using 2 by (simp add: escape_char_def Let_def)
    ultimately show ?thesis by (simp add: read_string.simps(2))
  next
    case 3
    moreover from 3 have "c \<noteq> CHR 0x22" "c \<noteq> CHR 0x5C" by (auto simp: code_def)
    ultimately show ?thesis by (simp add: escape_char_def Let_def read_string.simps(2))
  qed
qed

lemma read_string_quoted: "read_string (concat (map escape_char s) @ CHR 0x22 # r) = Some (s, r)"
  by (induction s) (simp_all add: read_string_escape put_char_def read_string.simps(2))

text \<open>What may follow a number without being read as part of it.\<close>

definition ends_number :: "string \<Rightarrow> bool" where
  "ends_number r = (case r of [] \<Rightarrow> True | c # _ \<Rightarrow> \<not> is_digit c \<and> c \<notin> {CHR ''.'', CHR ''e'', CHR ''E''})"

lemma to_double_int: "\<bar>i\<bar> \<le> 2 ^ 53 \<Longrightarrow> to_double (of_int i) = JInt i"
proof -
  assume i: "\<bar>i\<bar> \<le> 2 ^ 53"
  show ?thesis
  proof (cases "i = 0")
    case False
    have e: "0 \<le> ilog2 \<bar>of_int i\<bar>" using False by (simp add: ilog2_def)
    then have "to_double (of_int i) = (let v = fl53 (of_int i) in
        if 2 powi 1024 \<le> \<bar>v\<bar> then JInf (0 < i) else if v = of_int \<lfloor>v\<rfloor> then JInt \<lfloor>v\<rfloor> else JFrac v)"
      using False by (simp add: to_double_def fl53_def Let_def max_def)
    moreover have "fl53 (of_int i) = of_int i" using i by (rule fl53_int)
    moreover have "\<not> (2 powi 1024 \<le> \<bar>of_int i :: rat\<bar>)"
    proof -
      have "\<bar>of_int i :: rat\<bar> \<le> 2 ^ 53" using i by (metis of_int_abs of_int_le_iff of_int_numeral of_int_power)
      also have "\<dots> < (2 :: rat) ^ 1024" by (rule power_strict_increasing) simp_all
      finally show ?thesis by simp
    qed
    ultimately show ?thesis by simp
  qed (simp add: to_double_def)
qed

lemma show_nat_no_leading_zero: "1 < length (show_nat n) \<Longrightarrow> hd (show_nat n) \<noteq> CHR ''0''"
proof (induction n rule: show_nat.induct)
  case (1 n)
  show ?case
  proof (cases "n < 10")
    case False
    have "hd (show_nat (n div 10)) \<noteq> CHR ''0''"
    proof (cases "n div 10 < 10")
      case True
      then show ?thesis using \<open>\<not> n < 10\<close> by (subst show_nat.simps) (auto simp: digit_char_def dest!: arg_cong [where f = code] simp: code_def)
    next
      case False
      then have "1 < length (show_nat (n div 10))" by (subst show_nat.simps) (simp add: Suc_lessI)
      with 1 \<open>\<not> n < 10\<close> show ?thesis by simp
    qed
    with False show ?thesis by (subst show_nat.simps) simp
  qed (use 1 in \<open>simp add: show_nat.simps [of n]\<close>)
qed

lemma ends_number_splits:
  assumes "ends_number r"
  shows "takeWhile is_digit (show_nat n @ r) = show_nat n" "dropWhile is_digit (show_nat n @ r) = r"
    "read_fraction r = Some ([], r)" "read_exponent r = Some (0, r)"
proof -
  have d: "\<And>c. c \<in> set (show_nat n) \<Longrightarrow> is_digit c" using show_nat_digits [of n] by (simp add: list_all_iff)
  have "takeWhile is_digit r = [] \<and> dropWhile is_digit r = r" using assms by (cases r) (simp_all add: ends_number_def)
  with d show "takeWhile is_digit (show_nat n @ r) = show_nat n" "dropWhile is_digit (show_nat n @ r) = r"
    by (simp_all add: takeWhile_append dropWhile_append3)
  show "read_fraction r = Some ([], r)" "read_exponent r = Some (0, r)"
    using assms by (cases r; simp add: ends_number_def read_fraction_def read_exponent_def)+
qed

lemma read_number_int:
  assumes "\<bar>i\<bar> \<le> 2 ^ 53" "ends_number r"
  shows "read_number (show_int i @ r) = Some (JInt i, r)"
proof -
  have nz: "\<not> (1 < length (show_nat n) \<and> hd (show_nat n) = CHR ''0'')" for n using show_nat_no_leading_zero by blast
  have hd: "hd (show_nat n @ r) \<noteq> CHR ''-''" for n
    using hd_show_nat_digit [of n] minus_no_digit by auto
  have dbl: "to_double (decimal (show_nat n) [] 0) = JInt (int n)" "to_double (- decimal (show_nat n) [] 0) = JInt (- int n)"
    if "int n \<le> 2 ^ 53" for n
    using to_double_int [of "int n"] to_double_int [of "- int n"] that by (simp_all add: decimal_def)
  show ?thesis
  proof (cases "i < 0")
    case True
    then show ?thesis using ends_number_splits [OF assms(2)] nz [of "nat (- i)"] dbl(2) [of "nat (- i)"] assms(1)
      by (auto simp: read_number_def show_int_def Let_def)
  next
    case False
    then show ?thesis using ends_number_splits [OF assms(2)] nz [of "nat i"] dbl(1) [of "nat i"] hd [of "nat i"] assms(1)
      by (auto simp: read_number_def show_int_def Let_def)
  qed
qed

lemma json_stringify_head: "wf_json v \<Longrightarrow> \<exists>c t. json_stringify v = c # t \<and> kind_char v c"
proof (cases v)
  case (JNum n)
  assume "wf_json v"
  then obtain i where "json_stringify v = show_int i" using JNum by (cases n) (auto simp: json_number_def MAX_SAFE_INTEGER_def)
  then show ?thesis using JNum hd_show_int [of i] by (cases "show_int i") auto
qed (simp_all add: quote_def brackets_def braces_def)

lemma kind_char_facts: "kind_char v c \<Longrightarrow> \<not> json_space c \<and> c \<noteq> CHR '']'' \<and> c \<noteq> CHR ''}''"
  by (cases v) (auto simp: json_space_def is_digit_def code_def split: if_splits)

lemma skip_space_stop: "\<not> json_space c \<Longrightarrow> skip_space (c # s) = c # s"
  by (simp add: skip_space_def)

lemma json_punctuation [simp]: "\<not> json_space (CHR '','')" "\<not> json_space (CHR '']'')" "\<not> json_space (CHR ''}'')"
  "\<not> json_space (CHR '':'')" "\<not> json_space (CHR 0x22)" "\<not> json_space (CHR ''['')" "\<not> json_space (CHR ''{'')"
  by (simp_all add: json_space_def code_def)

lemma ends_number_punctuation [simp]: "ends_number (CHR '','' # r)" "ends_number (CHR '']'' # r)" "ends_number (CHR ''}'' # r)"
  by (simp_all add: ends_number_def is_digit_def code_def)

text \<open>With enough depth, the text \<open>s\<close> is read as \<open>v\<close> in front of anything that ends a number.\<close>

definition reads :: "string \<Rightarrow> json \<Rightarrow> bool" where
  "reads s v = (\<exists>N. \<forall>n \<ge> N. \<forall>r. ends_number r \<longrightarrow> read_value n (s @ r) = Some (v, r))"

lemma readsI: "(\<And>n r. ends_number r \<Longrightarrow> N \<le> n \<Longrightarrow> read_value (Suc n) (s @ r) = Some (v, r)) \<Longrightarrow> reads s v"
  unfolding reads_def by (rule exI [of _ "Suc N"]) (metis Suc_le_D Suc_le_mono)

lemma read_elements_printed:
  assumes "vs \<noteq> []" "\<And>v. v \<in> set vs \<Longrightarrow> reads (f v) v"
  shows "\<exists>N. \<forall>n \<ge> N. \<forall>acc r. read_elements n acc (join '','' (map f vs) @ CHR '']'' # r) = Some (JArr (rev acc @ vs), r)"
  using assms
proof (induction vs rule: list_nonempty_induct)
  case (single v)
  then obtain N where N: "\<And>n r. N \<le> n \<Longrightarrow> ends_number r \<Longrightarrow> read_value n (f v @ r) = Some (v, r)" by (auto simp: reads_def)
  have "read_elements n acc (f v @ CHR '']'' # r) = Some (JArr (rev acc @ [v]), r)" if "Suc N \<le> n" for n acc r
    using that N [of "n - 1"] by (cases n) (simp_all add: skip_space_stop)
  then show ?case by auto
next
  case (cons v vs)
  from cons.prems have "reads (f v) v" by simp
  then obtain N1 where N1: "\<And>n r. N1 \<le> n \<Longrightarrow> ends_number r \<Longrightarrow> read_value n (f v @ r) = Some (v, r)" by (auto simp: reads_def)
  from cons.IH cons.prems obtain N2 where N2: "\<And>n acc r. N2 \<le> n \<Longrightarrow> read_elements n acc (join '','' (map f vs) @ CHR '']'' # r) = Some (JArr (rev acc @ vs), r)"
    by (metis list.set_intros(2))
  have "read_elements n acc (f v @ CHR '','' # join '','' (map f vs) @ CHR '']'' # r) = Some (JArr (rev acc @ v # vs), r)"
    if "Suc (max N1 N2) \<le> n" for n acc r
    using that N1 [of "n - 1"] N2 [of "n - 1"] by (cases n) (simp_all add: skip_space_stop)
  moreover have "join '','' (map f (v # vs)) = f v @ CHR '','' # join '','' (map f vs)" using cons.hyps by (cases vs) simp_all
  ultimately show ?case by (simp only: append_assoc append_Cons) blast
qed

lemma set_member_new: "k \<notin> set (map fst kvs) \<Longrightarrow> set_member k v kvs = kvs @ [(k, v)]"
  by (induction kvs) auto

lemma read_key_printed: "read_key (quote k @ CHR '':'' # s) = Some (k, s)"
  by (simp add: read_key_def quote_def skip_space_stop read_string_quoted)

lemma read_members_printed:
  assumes "kvs \<noteq> []" "distinct (map fst kvs)" "\<And>k v. (k, v) \<in> set kvs \<Longrightarrow> reads (f v) v"
  shows "\<exists>N. \<forall>n \<ge> N. \<forall>acc r. set (map fst acc) \<inter> set (map fst kvs) = {} \<longrightarrow>
    read_members n acc (join '','' (map (\<lambda>(k, v). member k (f v)) kvs) @ CHR ''}'' # r) = Some (JObj (acc @ kvs), r)"
  using assms
proof (induction kvs rule: list_nonempty_induct)
  case (single kv)
  obtain k v where kv: "kv = (k, v)" by (cases kv)
  with single obtain N where N: "\<And>n r. N \<le> n \<Longrightarrow> ends_number r \<Longrightarrow> read_value n (f v @ r) = Some (v, r)" by (auto simp: reads_def)
  have "read_members n acc (member k (f v) @ CHR ''}'' # r) = Some (JObj (acc @ [(k, v)]), r)"
    if "Suc N \<le> n" "k \<notin> set (map fst acc)" for n acc r
    using that N [of "n - 1"] by (cases n) (simp_all add: skip_space_stop member_def read_key_printed set_member_new)
  then show ?case using kv by (intro exI [of _ "Suc N"]) auto
next
  case (cons kv kvs)
  obtain k v where kv: "kv = (k, v)" by (cases kv)
  with cons.prems(2) [of k v] have "reads (f v) v" by simp
  then obtain N1 where N1: "\<And>n r. N1 \<le> n \<Longrightarrow> ends_number r \<Longrightarrow> read_value n (f v @ r) = Some (v, r)" by (auto simp: reads_def)
  have "distinct (map fst kvs)" using cons.prems by simp
  from cons.IH [OF this] cons.prems obtain N2 where N2: "\<And>n acc r. N2 \<le> n \<Longrightarrow> set (map fst acc) \<inter> set (map fst kvs) = {} \<Longrightarrow>
      read_members n acc (join '','' (map (\<lambda>(k, v). member k (f v)) kvs) @ CHR ''}'' # r) = Some (JObj (acc @ kvs), r)"
    by (metis list.set_intros(2))
  have "read_members n acc (member k (f v) @ CHR '','' # join '','' (map (\<lambda>(k, v). member k (f v)) kvs) @ CHR ''}'' # r)
      = Some (JObj (acc @ (k, v) # kvs), r)"
    if "Suc (max N1 N2) \<le> n" "set (map fst acc) \<inter> set (map fst (kv # kvs)) = {}" for n acc r
    using that N1 [of "n - 1"] N2 [of "n - 1" "acc @ [(k, v)]"] cons.prems(1) kv
    by (cases n) (auto simp: skip_space_stop member_def read_key_printed set_member_new)
  moreover have "join '','' (map (\<lambda>(k, v). member k (f v)) (kv # kvs))
      = member k (f v) @ CHR '','' # join '','' (map (\<lambda>(k, v). member k (f v)) kvs)" using cons.hyps kv by (cases kvs) simp_all
  ultimately show ?case by (simp only: append_assoc append_Cons kv) blast
qed


lemma reads_printed: "wf_json v \<Longrightarrow> reads (json_stringify v) v"
proof (induction v)
  case JNull
  show ?case by (rule readsI [of 0]) (simp add: skip_space_stop json_space_def code_def read_word_def starts_with_def)
next
  case (JBool b)
  show ?case by (rule readsI [of 0]) (simp add: skip_space_stop json_space_def code_def read_word_def starts_with_def)
next
  case (JNum n)
  then obtain i where i: "n = JInt i" "json_stringify (JNum n) = show_int i" "\<bar>i\<bar> \<le> 2 ^ 53"
    by (cases n) (auto simp: json_number_def MAX_SAFE_INTEGER_def)
  show ?case
  proof (rule readsI [of 0])
    fix k r assume r: "ends_number r"
    obtain c t where ct: "show_int i = c # t" "c = CHR ''-'' \<or> is_digit c" using hd_show_int [of i] by (cases "show_int i") auto
    then have "\<not> json_space c" "c \<notin> {CHR ''['', CHR ''{'', CHR 0x22, CHR ''n'', CHR ''t'', CHR ''f''}"
      by (auto simp: json_space_def is_digit_def code_def)
    then show "read_value (Suc k) (json_stringify (JNum n) @ r) = Some (JNum n, r)"
      using read_number_int [OF i(3) r] ct(1) i(2) by (simp add: i(1) skip_space_stop)
  qed
next
  case (JStr s)
  show ?case by (rule readsI [of 0]) (simp add: quote_def skip_space_stop read_string_quoted)
next
  case (JArr vs)
  show ?case
  proof (cases vs)
    case Nil
    show ?thesis by (rule readsI [of 0]) (simp add: Nil brackets_def skip_space_stop)
  next
    case (Cons w ws)
    from Cons JArr have "\<And>v. v \<in> set vs \<Longrightarrow> reads (json_stringify v) v" by (auto simp: list_all_iff)
    then obtain N where N: "\<And>n acc r. N \<le> n \<Longrightarrow> read_elements n acc (join '','' (map json_stringify vs) @ CHR '']'' # r) = Some (JArr (rev acc @ vs), r)"
      using read_elements_printed [of vs json_stringify] Cons by blast
    obtain c t where "json_stringify w = c # t" "kind_char w c" using json_stringify_head [of w] JArr.prems Cons by auto
    then obtain t' where t': "join '','' (map json_stringify vs) = c # t'" "\<not> json_space c" "c \<noteq> CHR '']''"
      using Cons kind_char_facts by (cases ws) auto
    show ?thesis
      by (rule readsI [of N]) (use N t' in \<open>auto simp: brackets_def skip_space_stop\<close>)
  qed
next
  case (JObj kvs)
  show ?case
  proof (cases kvs)
    case Nil
    show ?thesis by (rule readsI [of 0]) (simp add: Nil braces_def skip_space_stop)
  next
    case (Cons kv kvs')
    have eq: "json_stringify (JObj kvs) = CHR ''{'' # join '','' (map (\<lambda>(k, v). member k (json_stringify v)) kvs) @ ''}''"
      by (simp add: braces_def comp_def case_prod_unfold)
    have "\<And>k v. (k, v) \<in> set kvs \<Longrightarrow> reads (json_stringify v) v"
      using JObj by (auto simp: list_all_iff snds.simps)
    then obtain N where N: "\<And>n acc r. N \<le> n \<Longrightarrow> set (map fst acc) \<inter> set (map fst kvs) = {} \<Longrightarrow>
        read_members n acc (join '','' (map (\<lambda>(k, v). member k (json_stringify v)) kvs) @ CHR ''}'' # r) = Some (JObj (acc @ kvs), r)"
      using read_members_printed [of kvs json_stringify] Cons JObj.prems by (metis list.distinct(1) wf_json.simps(3))
    obtain t' where t': "join '','' (map (\<lambda>(k, v). member k (json_stringify v)) kvs) = CHR 0x22 # t'"
      using Cons by (cases kvs'; cases kv) (auto simp: member_def quote_def)
    show ?thesis unfolding eq
      by (rule readsI [of N]) (use N [of _ "[]"] t' in \<open>auto simp: skip_space_stop\<close>)
  qed
qed

text \<open>\<open>JSON.parse\<close> inverts \<open>JSON.stringify\<close>.\<close>

lemma json_parse_stringify: "wf_json v \<Longrightarrow> json_parse (json_stringify v) = Some v"
proof -
  assume "wf_json v"
  then obtain N where N: "\<And>n r. N \<le> n \<Longrightarrow> ends_number r \<Longrightarrow> read_value n (json_stringify v @ r) = Some (v, r)"
    using reads_printed [of v] by (auto simp: reads_def)
  let ?s = "json_stringify v"
  have "read_value (2 * length ?s + 1) ?s = read_value (max N (2 * length ?s + 1)) ?s"
    using read_value_fuel [of ?s "max N (2 * length ?s + 1)"] by simp
  also have "\<dots> = Some (v, [])" using N [of "max N (2 * length ?s + 1)" "[]"] by (simp add: ends_number_def)
  finally show ?thesis by (simp add: json_parse_def skip_space_def)
qed

section \<open>Lemmas: bytes and text\<close>

lemma b64_value_char: "n < 64 \<Longrightarrow> b64_value (b64_char n) = Some n \<and> b64_char n \<noteq> CHR ''=''"
proof -
  have "\<forall>n \<in> set [0..<64]. b64_value (b64_char n) = Some n \<and> b64_char n \<noteq> CHR ''=''"
    by code_simp
  then show "n < 64 \<Longrightarrow> ?thesis" by (simp add: atLeastLessThan_upt [symmetric] del: upt_Suc)
qed

lemma b64_char_not_dot: "n < 64 \<Longrightarrow> b64_char n \<noteq> CHR ''.''"
proof -
  have "\<forall>n \<in> set [0..<64]. b64_char n \<noteq> CHR ''.''" by code_simp
  then show "n < 64 \<Longrightarrow> ?thesis" by simp
qed

lemma sextets_bytes_encode:
  "\<forall>b \<in> set bs. b < 256 \<Longrightarrow> sextets_bytes (List.map_filter b64_value (takeWhile (\<lambda>c. c \<noteq> CHR ''='') (b64url_encode bs))) = bs"
proof (induction bs rule: b64url_encode.induct)
  case (1 a b c r)
  have "a div 4 < 64" "a mod 4 * 16 + b div 16 < 64" "b mod 16 * 4 + c div 64 < 64" "c mod 64 < 64" "b div 16 < 16" "c div 64 < 4" using "1.prems" by auto
  with 1 show ?case by (simp add: b64_value_char List.map_filter_simps)
next
  case (2 a b)
  have "a div 4 < 64" "a mod 4 * 16 + b div 16 < 64" "b mod 16 * 4 < 64" "b div 16 < 16" using "2.prems" by auto
  with 2 show ?case by (simp add: b64_value_char List.map_filter_simps)
next
  case (3 a)
  have "a div 4 < 64" "a mod 4 * 16 < 64" using "3.prems" by auto
  with 3 show ?case by (simp add: b64_value_char List.map_filter_simps)
qed (simp add: List.map_filter_simps)

lemma b64url_roundtrip: "\<forall>b \<in> set bs. b < 256 \<Longrightarrow> b64url_decode (b64url_encode bs) = bs"
  by (simp add: b64url_decode_def sextets_bytes_encode)

lemma b64url_no_dot: "\<forall>b \<in> set bs. b < 256 \<Longrightarrow> CHR ''.'' \<notin> set (b64url_encode bs)"
  by (induction bs rule: b64url_encode.induct) (auto simp: b64_char_not_dot [THEN not_sym])

lemma utf8_byte_range: "\<forall>b \<in> set (utf8 s). b < 256"
proof -
  have "b < 256" if "b \<in> set (utf8_char c)" for b c
  proof -
    have "code c div 64 < 4" "code c mod 64 < 64" using code_less [of c] by (simp_all add: less_mult_imp_div_less)
    with that show ?thesis by (auto simp: utf8_char_def split: if_splits)
  qed
  then show ?thesis by (auto simp: utf8_def)
qed

lemma utf8_decode_char: "utf8_decode (utf8_char c @ r) = map_option (Cons c) (utf8_decode r)"
proof (cases "code c < 128")
  case False
  have "code c div 64 < 4" "1 < code c div 64" using False code_less [of c] by (simp_all add: less_mult_imp_div_less)
  then have "code c div 64 = 2 \<or> code c div 64 = 3" by linarith
  then have "(192 + code c div 64 = 194 \<or> 192 + code c div 64 = 195)" "code c div 64 * 64 + code c mod 64 = code c" by auto
  with False show ?thesis by (simp add: utf8_char_def) (simp add: code_def)
qed (simp add: utf8_char_def, simp add: code_def)

lemma utf8_roundtrip: "utf8_decode (utf8 s) = Some s"
  by (induction s) (simp_all add: utf8_def utf8_decode_char)

lemma hex_roundtrip: "\<forall>b \<in> set bs. b < 256 \<Longrightarrow> buffer_from_hex (to_hex bs) = bs"
  by (induction bs) (auto simp: to_hex_def hex_value_hex_digit less_mult_imp_div_less)

lemma to_hex_no_dot: "\<forall>b \<in> set bs. b < 256 \<Longrightarrow> CHR ''.'' \<notin> set (to_hex bs)"
proof (induction bs)
  case (Cons b bs)
  have "hex_digit d \<noteq> CHR ''.''" if "d < 16" for d
    using hex_value_hex_digit [OF that] by (auto simp: is_hex_def is_digit_def code_def)
  then have "hex_digit (b div 16) \<noteq> CHR ''.''" "hex_digit (b mod 16) \<noteq> CHR ''.''"
    using Cons.prems by (simp_all add: less_mult_imp_div_less)
  with Cons show ?case by (auto simp: to_hex_def)
qed (simp add: to_hex_def)

end
