(* ===== verification/Session_Auth.thy ===== *)
theory Session_Auth
  imports Json_Text "HOL-Library.Sublist" "HOL-Library.AList"
begin

text \<open>
  Session tokens of the gateway: \<^verbatim>\<open>src/gateway/session.ts\<close>, \<^verbatim>\<open>auth.ts\<close> and
  \<^verbatim>\<open>persisted-store.ts\<close>. A token is the base64url text of a JSON payload, a dot, and the HMAC of
  the payload text in hexadecimal; revoked token ids are kept in a list that is written to a file and
  read back at start-up. \<open>hmac key data\<close> is HMAC-SHA-256 and \<open>sha256\<close> the hash, of
  \<^verbatim>\<open>node:crypto\<close>; the id of a token (\<open>crypto.randomUUID()\<close>) is an argument, and \<open>now\<close> is
  \<open>Date.now()\<close> in milliseconds.

  \<open>verifySession\<close> casts the parsed JSON to a payload without checking it, so a verified session is a
  JSON value here, and the accesses to its fields are those of JavaScript.
\<close>

section \<open>Values of unknown shape\<close>

text \<open>\<open>v.k\<close>: a \<open>TypeError\<close> (\<open>Inl\<close>) for \<open>null\<close> and \<open>undefined\<close> (\<open>None\<close>), \<open>undefined\<close> where the
  field is missing.\<close>

datatype js_exception = TypeError

definition js_field :: "json option \<Rightarrow> string \<Rightarrow> (js_exception, json option) result" where
  "js_field v k = (case v of None \<Rightarrow> Inl TypeError | Some JNull \<Rightarrow> Inl TypeError
     | Some (JObj kvs) \<Rightarrow> Inr (map_of kvs k) | Some _ \<Rightarrow> Inr None)"

definition own_field :: "json \<Rightarrow> string \<Rightarrow> json option" where
  "own_field v k = (case v of JObj kvs \<Rightarrow> map_of kvs k | _ \<Rightarrow> None)"

text \<open>\<open>String(v)\<close>; an array joins its elements with commas.\<close>

fun js_toString :: "json \<Rightarrow> string" where
  "js_toString JNull = ''null''"
| "js_toString (JBool b) = (if b then ''true'' else ''false'')"
| "js_toString (JNum n) = number_toString n"
| "js_toString (JStr s) = s"
| "js_toString (JArr vs) = join '','' (map (\<lambda>v. if v = JNull then [] else js_toString v) vs)"
| "js_toString (JObj kvs) = ''[object Object]''"

text \<open>\<open>Number(s)\<close> of a string: the white space around is dropped, the empty text is 0.\<close>

definition radix_digits :: "nat \<Rightarrow> string \<Rightarrow> jsnumber" where
  "radix_digits b s = (if s \<noteq> [] \<and> list_all (\<lambda>c. is_hex c \<and> hex_value c < b) s
     then to_double (of_nat (foldl (\<lambda>n c. b * n + hex_value c) 0 s)) else JNaN)"

definition unsigned_literal :: "bool \<Rightarrow> string \<Rightarrow> jsnumber" where
  "unsigned_literal neg s = (if s = ''Infinity'' then JInf (\<not> neg) else
     let ds = takeWhile is_digit s; t = dropWhile is_digit s; point = (t \<noteq> [] \<and> hd t = CHR ''.'');
         fs = (if point then takeWhile is_digit (tl t) else []); u = (if point then dropWhile is_digit (tl t) else t)
     in if ds = [] \<and> fs = [] then JNaN
        else (case read_exponent u of Some (ex, []) \<Rightarrow> to_double ((if neg then - 1 else 1) * decimal ds fs ex) | _ \<Rightarrow> JNaN))"

definition string_to_number :: "string \<Rightarrow> jsnumber" where
  "string_to_number s0 = (let s = trim s0; p = to_lower (take 2 s) in
     if s = [] then JInt 0
     else if p = ''0x'' then radix_digits 16 (drop 2 s)
     else if p = ''0o'' then radix_digits 8 (drop 2 s)
     else if p = ''0b'' then radix_digits 2 (drop 2 s)
     else if hd s = CHR ''-'' then unsigned_literal True (tl s)
     else if hd s = CHR ''+'' then unsigned_literal False (tl s)
     else unsigned_literal False s)"

fun to_number :: "json \<Rightarrow> jsnumber" where
  "to_number JNull = JInt 0"
| "to_number (JBool b) = JInt (if b then 1 else 0)"
| "to_number (JNum n) = n"
| "to_number (JStr s) = string_to_number s"
| "to_number v = string_to_number (js_toString v)"

text \<open>\<open>v < n\<close> and \<open>n < v\<close> against a number; \<open>undefined\<close> compares as \<open>NaN\<close>.\<close>

definition value_less :: "json option \<Rightarrow> int \<Rightarrow> bool" where
  "value_less v n = (case v of None \<Rightarrow> False | Some x \<Rightarrow> js_less (to_number x) (JInt n))"

definition value_greater :: "json option \<Rightarrow> int \<Rightarrow> bool" where
  "value_greater v n = (case v of None \<Rightarrow> False | Some x \<Rightarrow> js_less (JInt n) (to_number x))"

text \<open>Equality of \<open>Map\<close> keys: parsed arrays and objects are fresh, so no two are the same.\<close>

definition same_key :: "json option \<Rightarrow> json option \<Rightarrow> bool" where
  "same_key a b = (a = b \<and> (case a of Some (JArr _) \<Rightarrow> False | Some (JObj _) \<Rightarrow> False | _ \<Rightarrow> True))"

text \<open>A \<open>Map\<close> as the list of its entries in insertion order: \<open>get\<close>, \<open>set\<close> and \<open>delete\<close>.\<close>

type_synonym 'v js_map = "(json option \<times> 'v) list"

fun js_map_get :: "'v js_map \<Rightarrow> json option \<Rightarrow> 'v option" where
  "js_map_get [] k = None"
| "js_map_get ((j, v) # kvs) k = (if same_key j k then Some v else js_map_get kvs k)"

fun js_map_set :: "'v js_map \<Rightarrow> json option \<Rightarrow> 'v \<Rightarrow> 'v js_map" where
  "js_map_set [] k v = [(k, v)]"
| "js_map_set ((j, w) # kvs) k v = (if same_key j k then (j, v) # kvs else (j, w) # js_map_set kvs k v)"

text \<open>\<open>s.split(".")\<close>.\<close>

fun split_dot :: "string \<Rightarrow> string list" where
  "split_dot [] = [[]]"
| "split_dot (c # s) = (if c = CHR ''.'' then [] # split_dot s
     else (case split_dot s of p # ps \<Rightarrow> (c # p) # ps | [] \<Rightarrow> [[c]]))"

section \<open>Signing\<close>

text \<open>The signing key at start-up: \<open>None\<close> is the exit of the process. \<open>session_key\<close> and \<open>paseto_key\<close> are the
  two environment variables.\<close>

definition signing_key :: "(nat list \<Rightarrow> nat list) \<Rightarrow> bool \<Rightarrow> string option \<Rightarrow> string option \<Rightarrow> nat list option" where
  "signing_key sha256 production session_key paseto_key = (
     let envKey = (case session_key of Some k \<Rightarrow> Some k | None \<Rightarrow> paseto_key)
     in if production \<and> (case envKey of None \<Rightarrow> True | Some k \<Rightarrow> length k < 32) then None
        else case envKey of
          Some (c # k) \<Rightarrow> Some (utf8 (c # k))
        | _ \<Rightarrow> Some (sha256 (utf8 ''eto-mcp-dev-signing-key-DO-NOT-USE-IN-PROD'')))"

type_synonym mac = "nat list \<Rightarrow> nat list \<Rightarrow> nat list"

definition hmacSign :: "mac \<Rightarrow> nat list \<Rightarrow> string \<Rightarrow> string" where
  "hmacSign hmac key data = to_hex (hmac key (utf8 data))"

definition signOauthState :: "mac \<Rightarrow> nat list \<Rightarrow> json \<Rightarrow> string" where
  "signOauthState hmac key payload = (let text = json_stringify payload
     in b64url_encode (utf8 text) @ ''.'' @ hmacSign hmac key text)"

definition verifyOauthState :: "mac \<Rightarrow> nat list \<Rightarrow> string \<Rightarrow> json option" where
  "verifyOauthState hmac key token = (case split_dot token of
       b64 # sig # _ \<Rightarrow> if b64 = [] \<or> sig = [] then None
         else (case utf8_decode (b64url_decode b64) of None \<Rightarrow> None
           | Some text \<Rightarrow>
             let expected = buffer_from_hex (hmacSign hmac key text); actual = buffer_from_hex sig
             in if length expected \<noteq> length actual \<or> timing_safe_equal expected actual \<noteq> Some True then None
                else json_parse text)
     | _ \<Rightarrow> None)"

section \<open>Sessions\<close>

definition CAPABILITY_SCOPES :: "(string \<times> string) list" where
  "CAPABILITY_SCOPES = [
    (''wallet:read'', ''View wallet addresses and balances''),
    (''wallet:create'', ''Create new wallets and derive addresses''),
    (''account:read'', ''Query account information''),
    (''token:read'', ''View token balances and metadata''),
    (''token:write'', ''Create, mint, burn, transfer tokens''),
    (''block:read'', ''Query block and transaction data''),
    (''chain:read'', ''View chain stats and health''),
    (''validator:read'', ''View validator and epoch info''),
    (''contract:read'', ''Read contract state (view calls)''),
    (''transfer:write'', ''Send native token transfers''),
    (''deploy:write'', ''Deploy smart contracts''),
    (''contract:write'', ''Execute contract transactions''),
    (''stake:write'', ''Create and manage stake accounts''),
    (''vote:write'', ''Submit votes''),
    (''agent:write'', ''Create and manage on-chain agents''),
    (''agent:read'', ''View agent information''),
    (''crossvm:write'', ''Execute cross-VM calls''),
    (''batch:write'', ''Execute batch operations''),
    (''zk:write'', ''Submit ZK proofs''),
    (''a2a:read'', ''View A2A channels and messages''),
    (''a2a:write'', ''Create channels and send A2A messages''),
    (''mcp_program:read'', ''View registered MCP services''),
    (''mcp_program:write'', ''Register and invoke MCP services''),
    (''swarm:read'', ''View swarm state and proposals''),
    (''swarm:write'', ''Create swarms, propose, and vote''),
    (''subscription:write'', ''Manage event subscriptions''),
    (''security:admin'', ''Manage FROST key shares and step-up auth''),
    (''session:admin'', ''Manage sessions and API keys''),
    (''policy:admin'', ''Configure spending limits and policies''),
    (''webhook:admin'', ''Manage event subscriptions'')]"

definition ALL_CAPS :: "string list" where
  "ALL_CAPS = map fst CAPABILITY_SCOPES"

record session_opts =
  so_userId :: string
  so_walletId :: string
  so_network :: "string option"
  so_capabilities :: "string list option"
  so_agentId :: "string option"
  so_ttlSeconds :: "int option"
  so_authStrategy :: "string option"
  so_clientId :: "string option"

definition seconds :: "int \<Rightarrow> int" where
  "seconds now = now div 1000"

definition or_default :: "'a option \<Rightarrow> 'a \<Rightarrow> 'a" where
  "or_default x d = (case x of Some v \<Rightarrow> v | None \<Rightarrow> d)"

definition optional_member :: "string \<Rightarrow> string option \<Rightarrow> (string \<times> json) list" where
  "optional_member k x = (case x of None \<Rightarrow> [] | Some v \<Rightarrow> [(k, JStr v)])"

definition SessionPayload :: "int \<Rightarrow> string \<Rightarrow> session_opts \<Rightarrow> json" where
  "SessionPayload now jti opts = JObj ([
      (''sub'', JStr (so_userId opts)),
      (''iss'', JStr ''eto-mcp''),
      (''aud'', JStr ''eto-agent''),
      (''iat'', JNum (JInt (seconds now))),
      (''exp'', JNum (JInt (js_add (seconds now) (or_default (so_ttlSeconds opts) 300)))),
      (''jti'', JStr jti),
      (''caps'', JArr (map JStr (or_default (so_capabilities opts) ALL_CAPS))),
      (''wallet_id'', JStr (so_walletId opts)),
      (''network'', JStr (or_default (so_network opts) ''testnet''))]
     @ optional_member ''agent_id'' (so_agentId opts)
     @ optional_member ''auth_strategy'' (so_authStrategy opts)
     @ optional_member ''client_id'' (so_clientId opts))"

definition createSession :: "mac \<Rightarrow> nat list \<Rightarrow> int \<Rightarrow> string \<Rightarrow> session_opts \<Rightarrow> string" where
  "createSession hmac key now jti opts = (let text = json_stringify (SessionPayload now jti opts)
     in b64url_encode (utf8 text) @ ''.'' @ hmacSign hmac key text)"

type_synonym deny_list = "json option js_map"

definition deny_has :: "deny_list \<Rightarrow> json option \<Rightarrow> bool" where
  "deny_has deny jti = list_ex (\<lambda>(j, _). same_key j jti) deny"

definition verifySession :: "mac \<Rightarrow> nat list \<Rightarrow> deny_list \<Rightarrow> int \<Rightarrow> string \<Rightarrow> json option" where
  "verifySession hmac key deny now token = (case split_dot token of
       payloadB64 # sig # _ \<Rightarrow> if payloadB64 = [] \<or> sig = [] then None
         else (case utf8_decode (b64url_decode payloadB64) of None \<Rightarrow> None
           | Some text \<Rightarrow>
             let expectedBuf = buffer_from_hex (hmacSign hmac key text); actualBuf = buffer_from_hex sig
             in if length expectedBuf \<noteq> length actualBuf \<or> timing_safe_equal expectedBuf actualBuf \<noteq> Some True then None
                else (case json_parse text of None \<Rightarrow> None
                  | Some payload \<Rightarrow>
                    (case js_field (Some payload) ''exp'' of Inl _ \<Rightarrow> None
                     | Inr ex \<Rightarrow> if value_less ex (seconds now) then None
                         else if deny_has deny (own_field payload ''jti'') then None
                         else Some payload)))
     | _ \<Rightarrow> None)"

text \<open>\<open>session.caps.includes(cap)\<close>: on a string it looks for a substring, on anything else but an array the call is a
  \<open>TypeError\<close>.\<close>

definition hasCapability :: "json \<Rightarrow> string \<Rightarrow> (js_exception, bool) result" where
  "hasCapability session cap = (case own_field session ''caps'' of
       Some (JArr vs) \<Rightarrow> Inr (JStr cap \<in> set vs)
     | Some (JStr s) \<Rightarrow> Inr (sublist cap s)
     | _ \<Rightarrow> Inl TypeError)"

definition createDevSession :: "mac \<Rightarrow> nat list \<Rightarrow> int \<Rightarrow> string \<Rightarrow> string \<Rightarrow> string" where
  "createDevSession hmac key now jti walletId = createSession hmac key now jti
     \<lparr>so_userId = ''dev-user'', so_walletId = walletId, so_network = Some ''testnet'', so_capabilities = Some ALL_CAPS,
      so_agentId = None, so_ttlSeconds = Some 86400, so_authStrategy = Some ''dev'', so_clientId = None\<rparr>"

section \<open>Revocation\<close>

text \<open>The state of the module: the list in memory and the text of its file. Writing is atomic (a temporary file
  is renamed), and a file that is missing or does not parse reads as an empty list.\<close>

record session_state =
  ss_deny :: deny_list
  ss_file :: "string option"

definition null_of :: "json option \<Rightarrow> json" where
  "null_of x = (case x of None \<Rightarrow> JNull | Some v \<Rightarrow> v)"

definition deny_json :: "deny_list \<Rightarrow> json" where
  "deny_json deny = JArr (map (\<lambda>(j, e). JArr [null_of j, null_of e]) deny)"

definition atomicWriteJson :: "json \<Rightarrow> string" where
  "atomicWriteJson data = json_stringify data"

definition loadJsonArray :: "string option \<Rightarrow> json" where
  "loadJsonArray file = (case file of None \<Rightarrow> JArr [] | Some text \<Rightarrow> (case json_parse text of None \<Rightarrow> JArr [] | Some v \<Rightarrow> v))"

definition revokeJti :: "json option \<Rightarrow> json option \<Rightarrow> session_state \<Rightarrow> session_state" where
  "revokeJti jti ex st = (let deny = js_map_set (ss_deny st) jti ex
     in \<lparr>ss_deny = deny, ss_file = Some (atomicWriteJson (deny_json deny))\<rparr>)"

text \<open>\<open>const [jti, exp] = v\<close> and \<open>for (... of v)\<close>; what cannot be iterated is a \<open>TypeError\<close>.\<close>

definition iterate :: "json \<Rightarrow> (js_exception, json list) result" where
  "iterate v = (case v of JArr vs \<Rightarrow> Inr vs | JStr s \<Rightarrow> Inr (map (\<lambda>c. JStr [c]) s) | _ \<Rightarrow> Inl TypeError)"

definition item :: "nat \<Rightarrow> json list \<Rightarrow> json option" where
  "item i vs = (if i < length vs then Some (vs ! i) else None)"

fun load_entries :: "int \<Rightarrow> json list \<Rightarrow> deny_list \<Rightarrow> (js_exception, deny_list) result" where
  "load_entries now [] deny = Inr deny"
| "load_entries now (v # vs) deny = bind_result (iterate v) (\<lambda>xs.
     load_entries now vs (if value_greater (item 1 xs) now then js_map_set deny (item 0 xs) (item 1 xs) else deny))"

definition loadDenyList :: "int \<Rightarrow> string option \<Rightarrow> (js_exception, deny_list) result" where
  "loadDenyList now file = bind_result (iterate (loadJsonArray file)) (\<lambda>vs. load_entries (seconds now) vs [])"

definition session_restart :: "int \<Rightarrow> session_state \<Rightarrow> (js_exception, session_state) result" where
  "session_restart now st = bind_result (loadDenyList now (ss_file st)) (\<lambda>deny. Inr (st\<lparr>ss_deny := deny\<rparr>))"

section \<open>Authentication\<close>

text \<open>The errors a tool call can end with: an \<open>McpError\<close> by its code, message and retry delay, or an exception of
  the language.\<close>

datatype gate_error = McpError string string "jsnumber option" | JsError js_exception

text \<open>\<open>header.replace(/^Bearer\s+/i, "")\<close>.\<close>

definition strip_bearer :: "string \<Rightarrow> string" where
  "strip_bearer s = (let t = drop 6 s in
     if to_lower (take 6 s) = ''bearer'' \<and> t \<noteq> [] \<and> is_space (hd t) then dropWhile is_space t else s)"

definition DEV_SESSION :: "int \<Rightarrow> json" where
  "DEV_SESSION started = JObj [
     (''sub'', JStr ''dev-user''), (''iss'', JStr ''eto-mcp''), (''aud'', JStr ''eto-agent''),
     (''exp'', JNum (JInt (js_add (seconds started) (86400 * 365)))), (''iat'', JNum (JInt (seconds started))),
     (''jti'', JStr ''dev-session''), (''caps'', JArr (map (\<lambda>(k, _). JStr k) CAPABILITY_SCOPES)),
     (''wallet_id'', JStr ''dev-wallet''), (''network'', JStr ''testnet''), (''auth_strategy'', JStr ''dev'')]"

record AuthContext =
  ac_session :: json
  ac_userId :: "json option"
  ac_walletId :: "json option"

record auth_config =
  au_devBypass :: bool
  au_started :: int
  au_key :: "nat list"

definition authenticate :: "mac \<Rightarrow> auth_config \<Rightarrow> deny_list \<Rightarrow> int \<Rightarrow> string option \<Rightarrow> string option
    \<Rightarrow> (gate_error, AuthContext) result" where
  "authenticate hmac cfg deny now authHeader ambient = (
     if au_devBypass cfg then (let s = DEV_SESSION (au_started cfg) in
       Inr \<lparr>ac_session = s, ac_userId = own_field s ''sub'', ac_walletId = own_field s ''wallet_id''\<rparr>)
     else case (case authHeader of Some h \<Rightarrow> Some h | None \<Rightarrow> ambient) of
       Some (c # h) \<Rightarrow> (case verifySession hmac (au_key cfg) deny now (strip_bearer (c # h)) of
           None \<Rightarrow> Inl (McpError ''AUTH_001'' ''Session expired or invalid'' None)
         | Some session \<Rightarrow> Inr \<lparr>ac_session = session, ac_userId = own_field session ''sub'',
             ac_walletId = own_field session ''wallet_id''\<rparr>)
     | _ \<Rightarrow> Inl (McpError ''AUTH_001'' ''Authentication required'' None))"

definition requireCapability :: "json \<Rightarrow> string \<Rightarrow> (gate_error, unit) result" where
  "requireCapability session cap = (case hasCapability session cap of
       Inl e \<Rightarrow> Inl (JsError e)
     | Inr True \<Rightarrow> Inr ()
     | Inr False \<Rightarrow> Inl (McpError ''AUTH_002'' ''Insufficient capabilities'' None))"

section \<open>Lemmas: maps\<close>

lemma set_alist_update: "set (AList.update k v xs) \<subseteq> insert (k, v) (set xs)"
  by (induction xs) auto

lemma set_alist_delete: "set (AList.delete k xs) \<subseteq> set xs"
  by (auto simp: AList.delete_eq)

lemma same_key_JStr [simp]: "same_key j (Some (JStr s)) \<longleftrightarrow> j = Some (JStr s)"
  by (auto simp: same_key_def)

lemma js_map_get_set:
  "js_map_get (js_map_set kvs (Some (JStr a)) v) (Some (JStr b)) = (if a = b then Some v else js_map_get kvs (Some (JStr b)))"
  by (induction kvs "Some (JStr a)" v rule: js_map_set.induct) auto

section \<open>Lemmas: tokens\<close>

text \<open>What the code relies on of HMAC-SHA-256: a digest is 32 bytes.\<close>

definition digest32 :: "mac \<Rightarrow> bool" where
  "digest32 hmac = (\<forall>k d. length (hmac k d) = 32 \<and> (\<forall>b \<in> set (hmac k d). b < 256))"

lemma split_dot_none: "CHR ''.'' \<notin> set a \<Longrightarrow> split_dot a = [a]"
  by (induction a) auto

lemma split_dot_pair: "CHR ''.'' \<notin> set a \<Longrightarrow> CHR ''.'' \<notin> set b \<Longrightarrow> split_dot (a @ CHR ''.'' # b) = [a, b]"
  by (induction a) (auto simp: split_dot_none)

lemma hmacSign_facts:
  assumes "digest32 hmac"
  shows "buffer_from_hex (hmacSign hmac key d) = hmac key (utf8 d)" "CHR ''.'' \<notin> set (hmacSign hmac key d)" "hmacSign hmac key d \<noteq> []"
proof -
  have h: "\<forall>b \<in> set (hmac key (utf8 d)). b < 256" "length (hmac key (utf8 d)) = 32" using assms by (auto simp: digest32_def)
  then show "buffer_from_hex (hmacSign hmac key d) = hmac key (utf8 d)" "CHR ''.'' \<notin> set (hmacSign hmac key d)"
    unfolding hmacSign_def by (simp_all add: hex_roundtrip to_hex_no_dot)
  show "hmacSign hmac key d \<noteq> []" using h(2) by (cases "hmac key (utf8 d)") (simp_all add: hmacSign_def to_hex_def)
qed

lemma token_parts:
  assumes "digest32 hmac" "text \<noteq> []"
  shows "split_dot (b64url_encode (utf8 text) @ ''.'' @ hmacSign hmac key text) = [b64url_encode (utf8 text), hmacSign hmac key text]"
    "b64url_encode (utf8 text) \<noteq> []" "utf8_decode (b64url_decode (b64url_encode (utf8 text))) = Some text"
proof -
  show "split_dot (b64url_encode (utf8 text) @ ''.'' @ hmacSign hmac key text) = [b64url_encode (utf8 text), hmacSign hmac key text]"
    using split_dot_pair b64url_no_dot [OF utf8_byte_range] hmacSign_facts(2) [OF assms(1)] by simp
  have "utf8 text \<noteq> []" using assms(2) by (cases "text") (simp_all add: utf8_def)
  then show "b64url_encode (utf8 text) \<noteq> []" by (cases "utf8 text" rule: b64url_encode.cases) simp_all
  show "utf8_decode (b64url_decode (b64url_encode (utf8 text))) = Some text"
    by (simp add: b64url_roundtrip utf8_byte_range utf8_roundtrip)
qed

text \<open>What \<open>verifySession\<close> does with a token the server signed over the text of a value.\<close>

lemma verifySession_signed:
  assumes "digest32 hmac" "wf_json v" "token = b64url_encode (utf8 (json_stringify v)) @ ''.'' @ hmacSign hmac key (json_stringify v)"
  shows "verifySession hmac key deny now token = (case js_field (Some v) ''exp'' of Inl _ \<Rightarrow> None
    | Inr ex \<Rightarrow> if value_less ex (seconds now) \<or> deny_has deny (own_field v ''jti'') then None else Some v)"
proof -
  have ne: "json_stringify v \<noteq> []" using json_stringify_head [OF assms(2)] by auto
  note parts = token_parts [OF assms(1) ne]
  show ?thesis
    unfolding verifySession_def assms(3) parts(1)
    by (simp add: parts(2,3) hmacSign_facts [OF assms(1)] timing_safe_equal_def json_parse_stringify [OF assms(2)] split: sum.split)
qed

lemma wf_strings: "list_all wf_json (map JStr xs)"
  by (simp add: list_all_iff)

lemma wf_SessionPayload:
  assumes "\<bar>seconds now\<bar> \<le> 2 ^ 52" "\<bar>or_default (so_ttlSeconds opts) 300\<bar> \<le> 2 ^ 51"
  shows "wf_json (SessionPayload now jti opts)"
    "js_add (seconds now) (or_default (so_ttlSeconds opts) 300) = seconds now + or_default (so_ttlSeconds opts) 300"
proof -
  have "\<bar>seconds now + or_default (so_ttlSeconds opts) 300\<bar> \<le> 2 ^ 52 + 2 ^ 51" using assms by linarith
  then show add: "js_add (seconds now) (or_default (so_ttlSeconds opts) 300) = seconds now + or_default (so_ttlSeconds opts) 300"
    by (intro js_add_exact) simp
  show "wf_json (SessionPayload now jti opts)"
    using assms wf_strings by (auto simp: SessionPayload_def add MAX_SAFE_INTEGER_def optional_member_def list_all_iff split: option.splits)
qed

lemma SessionPayload_fields:
  "js_field (Some (SessionPayload now jti opts)) ''exp'' = Inr (Some (JNum (JInt (js_add (seconds now) (or_default (so_ttlSeconds opts) 300)))))"
  "own_field (SessionPayload now jti opts) ''jti'' = Some (JStr jti)"
  "own_field (SessionPayload now jti opts) ''sub'' = Some (JStr (so_userId opts))"
  "own_field (SessionPayload now jti opts) ''caps'' = Some (JArr (map JStr (or_default (so_capabilities opts) ALL_CAPS)))"
  by (simp_all add: SessionPayload_def js_field_def own_field_def)

lemma verifySession_created:
  assumes "digest32 hmac" "\<bar>seconds now\<bar> \<le> 2 ^ 52" "\<bar>or_default (so_ttlSeconds opts) 300\<bar> \<le> 2 ^ 51"
  shows "verifySession hmac key deny later (createSession hmac key now jti opts) =
    (if seconds later \<le> seconds now + or_default (so_ttlSeconds opts) 300 \<and> \<not> deny_has deny (Some (JStr jti))
     then Some (SessionPayload now jti opts) else None)"
  using verifySession_signed [OF assms(1) wf_SessionPayload(1) [OF assms(2,3)]]
  by (auto simp: createSession_def Let_def SessionPayload_fields value_less_def wf_SessionPayload(2) [OF assms(2,3)])

section \<open>Properties: tokens\<close>

text \<open>C7. A session token is accepted until its expiry second included, unless its id is on the deny list, and gives back the payload it was created with; otherwise it is refused. The times are safe integers, and a digest has 32 bytes.\<close>

theorem session_roundtrip:
  assumes "digest32 hmac" "\<bar>seconds now\<bar> \<le> 2 ^ 52" "\<bar>or_default (so_ttlSeconds opts) 300\<bar> \<le> 2 ^ 51"
  shows "verifySession hmac key deny later (createSession hmac key now jti opts) =
    (if seconds later \<le> seconds now + or_default (so_ttlSeconds opts) 300 \<and> \<not> deny_has deny (Some (JStr jti))
     then Some (SessionPayload now jti opts) else None)"
  using verifySession_created [OF assms] .

theorem session_roundtrip_witness:
  "verifySession (\<lambda>k d. replicate 32 (length d mod 256)) [1] [] 5000
      (createSession (\<lambda>k d. replicate 32 (length d mod 256)) [1] 0 ''j1''
        \<lparr>so_userId = ''u'', so_walletId = ''w'', so_network = None, so_capabilities = Some [''wallet:read''], so_agentId = None,
         so_ttlSeconds = None, so_authStrategy = None, so_clientId = None\<rparr>)
    = Some (SessionPayload 0 ''j1'' \<lparr>so_userId = ''u'', so_walletId = ''w'', so_network = None, so_capabilities = Some [''wallet:read''],
         so_agentId = None, so_ttlSeconds = None, so_authStrategy = None, so_clientId = None\<rparr>)"
  by (subst session_roundtrip) (simp_all add: digest32_def seconds_def or_default_def deny_has_def)

text \<open>C25. A token that is accepted carries, in its second part, the MAC of the text in its first part; that text parses to the session returned, which has not expired and is not revoked. So when the only texts with that MAC are those the server signed, the session is one of the values it signed: no field can be changed under an old signature.\<close>

theorem session_unforgeable:
  assumes "digest32 hmac" "verifySession hmac key deny now token = Some session"
    and "\<And>text. hmac key (utf8 text) = buffer_from_hex (split_dot token ! 1) \<Longrightarrow> text \<in> signed"
  shows "\<exists>text \<in> signed. json_parse text = Some session \<and> session \<noteq> JNull
    \<and> \<not> value_less (own_field session ''exp'') (seconds now) \<and> \<not> deny_has deny (own_field session ''jti'')"
proof -
  from assms(2) obtain b64 sig rest body ex where
    parts: "split_dot token = b64 # sig # rest" and body: "utf8_decode (b64url_decode b64) = Some body"
    and mac: "buffer_from_hex (hmacSign hmac key body) = buffer_from_hex sig" and parse: "json_parse body = Some session"
    and fresh: "js_field (Some session) ''exp'' = Inr ex" "\<not> value_less ex (seconds now)" "\<not> deny_has deny (own_field session ''jti'')"
    unfolding verifySession_def Let_def
    by (auto split: list.splits if_splits option.splits sum.splits simp: timing_safe_equal_True)
  have "body \<in> signed" using assms(3) [of body] mac parts by (simp add: hmacSign_facts [OF assms(1)])
  moreover have "session \<noteq> JNull" "ex = own_field session ''exp''"
    using fresh(1) by (auto simp: js_field_def own_field_def split: json.splits)
  ultimately show ?thesis using parse fresh by blast
qed

theorem session_unforgeable_witness:
  "\<exists>text \<in> {t. length (utf8 t) mod 256 = 19}. json_parse text = Some (JObj [(''sub'', JStr ''u''), (''exp'', JNum (JInt 9))])
    \<and> JObj [(''sub'', JStr ''u''), (''exp'', JNum (JInt 9))] \<noteq> JNull
    \<and> \<not> value_less (own_field (JObj [(''sub'', JStr ''u''), (''exp'', JNum (JInt 9))]) ''exp'') (seconds 9000)
    \<and> \<not> deny_has [] (own_field (JObj [(''sub'', JStr ''u''), (''exp'', JNum (JInt 9))]) ''jti'')"
proof -
  let ?h = "\<lambda>k d :: nat list. replicate 32 (length d mod 256)"
  let ?v = "JObj [(''sub'', JStr ''u''), (''exp'', JNum (JInt 9))]"
  let ?t = "b64url_encode (utf8 (json_stringify ?v)) @ ''.'' @ hmacSign ?h [1] (json_stringify ?v)"
  have d: "digest32 ?h" by (simp add: digest32_def)
  have w: "wf_json ?v" by (simp add: MAX_SAFE_INTEGER_def)
  have v: "verifySession ?h [1] [] 9000 ?t = Some ?v"
    using verifySession_signed [OF d w refl, of "[1]" "[]" 9000]
    by (simp add: js_field_def value_less_def seconds_def deny_has_def)
  have n: "length (utf8 (json_stringify ?v)) = 19" by code_simp
  have "split_dot ?t ! 1 = hmacSign ?h [1] (json_stringify ?v)"
    by (subst token_parts(1) [OF d]) (simp_all add: braces_def)
  then have m: "buffer_from_hex (split_dot ?t ! 1) = replicate 32 19"
    by (simp only: hmacSign_facts(1) [OF d] n) simp
  have r: "replicate 32 a = replicate 32 b \<Longrightarrow> a = b" for a b :: nat by (metis replicate_eq_replicate zero_neq_numeral)
  show ?thesis by (rule session_unforgeable [OF d v]) (use m r in auto)
qed

section \<open>Properties: revocation\<close>

text \<open>The life of the deny list: revocations, and restarts of the process at given times.\<close>

datatype session_op = Revoke "json option" "json option" | Restart int

fun run_sessions :: "session_op list \<Rightarrow> session_state \<Rightarrow> (js_exception, session_state) result" where
  "run_sessions [] st = Inr st"
| "run_sessions (Revoke jti ex # ops) st = run_sessions ops (revokeJti jti ex st)"
| "run_sessions (Restart now # ops) st = bind_result (session_restart now st) (run_sessions ops)"

text \<open>The entries a verified token can add: JSON values, and one expiry for an id.\<close>

definition entry_ok :: "string \<Rightarrow> int \<Rightarrow> json option \<Rightarrow> json option \<Rightarrow> bool" where
  "entry_ok jti ex j e = (wf_json (null_of j) \<and> wf_json (null_of e)
     \<and> (same_key j (Some (JStr jti)) \<longrightarrow> e = Some (JNum (JInt ex))))"

fun session_op_ok :: "string \<Rightarrow> int \<Rightarrow> session_op \<Rightarrow> bool" where
  "session_op_ok jti ex (Revoke j e) = entry_ok jti ex j e"
| "session_op_ok jti ex (Restart now) = True"

definition entries_ok :: "string \<Rightarrow> int \<Rightarrow> deny_list \<Rightarrow> bool" where
  "entries_ok jti ex deny = list_all (\<lambda>(j, e). entry_ok jti ex j e) deny"

definition listed :: "string \<Rightarrow> int \<Rightarrow> deny_list \<Rightarrow> bool" where
  "listed jti ex deny = ((Some (JStr jti), Some (JNum (JInt ex))) \<in> set deny \<and> entries_ok jti ex deny)"

definition revoked :: "string \<Rightarrow> int \<Rightarrow> session_state \<Rightarrow> bool" where
  "revoked jti ex st = (listed jti ex (ss_deny st)
     \<and> (\<exists>entries. ss_file st = Some (atomicWriteJson (deny_json entries)) \<and> listed jti ex entries))"

lemma js_map_set_entries: "entries_ok jti ex deny \<Longrightarrow> entry_ok jti ex j e \<Longrightarrow> entries_ok jti ex (js_map_set deny j e)"
  by (induction deny j e rule: js_map_set.induct) (auto simp: entries_ok_def entry_ok_def same_key_def)

lemma js_map_set_keeps: "(Some (JStr jti), Some (JNum (JInt ex))) \<in> set deny \<Longrightarrow> entry_ok jti ex j e \<Longrightarrow>
  (Some (JStr jti), Some (JNum (JInt ex))) \<in> set (js_map_set deny j e)"
  by (induction deny j e rule: js_map_set.induct) (auto simp: entry_ok_def same_key_def)

lemma js_map_set_adds: "(Some (JStr jti), Some (JNum (JInt ex))) \<in> set (js_map_set deny (Some (JStr jti)) (Some (JNum (JInt ex))))"
  by (induction deny) auto

lemma listed_js_map_set: "listed jti ex deny \<Longrightarrow> entry_ok jti ex j e \<Longrightarrow> listed jti ex (js_map_set deny j e)"
  using js_map_set_entries js_map_set_keeps by (simp add: listed_def)

lemma listed_has: "listed jti ex deny \<Longrightarrow> deny_has deny (Some (JStr jti))"
  by (force simp: listed_def deny_has_def list_ex_iff)

lemma load_entries_ok:
  assumes "entries_ok jti ex entries" "entries_ok jti ex deny"
  shows "\<exists>d. load_entries n (map (\<lambda>(j, e). JArr [null_of j, null_of e]) entries) deny = Inr d \<and> entries_ok jti ex d
    \<and> (listed jti ex deny \<or> listed jti ex entries \<and> n < ex \<longrightarrow> listed jti ex d)"
  using assms
proof (induction entries arbitrary: deny)
  case (Cons je entries)
  obtain j e where je: "je = (j, e)" by (cases je)
  define d where "d = (if value_greater (Some (null_of e)) n then js_map_set deny (Some (null_of j)) (Some (null_of e)) else deny)"
  have ok: "entry_ok jti ex (Some (null_of j)) (Some (null_of e))"
    using Cons.prems(1) je by (auto simp: entries_ok_def entry_ok_def null_of_def split: option.splits)
  have d: "entries_ok jti ex d" using Cons.prems(2) js_map_set_entries [OF _ ok] by (simp add: d_def)
  have keep: "listed jti ex deny \<Longrightarrow> listed jti ex d" using listed_js_map_set [OF _ ok] by (simp add: d_def)
  have add: "j = Some (JStr jti) \<Longrightarrow> e = Some (JNum (JInt ex)) \<Longrightarrow> n < ex \<Longrightarrow> listed jti ex d"
    using js_map_set_adds d by (simp add: listed_def d_def value_greater_def null_of_def)
  have rest: "listed jti ex (je # entries) \<Longrightarrow> (j = Some (JStr jti) \<and> e = Some (JNum (JInt ex))) \<or> listed jti ex entries"
    by (auto simp: listed_def je entries_ok_def)
  have "entries_ok jti ex entries" using Cons.prems(1) by (simp add: entries_ok_def)
  from Cons.IH [OF this d] obtain d' where
    "load_entries n (map (\<lambda>(j, e). JArr [null_of j, null_of e]) entries) d = Inr d'" "entries_ok jti ex d'"
    "listed jti ex d \<or> listed jti ex entries \<and> n < ex \<longrightarrow> listed jti ex d'" by blast
  moreover have "load_entries n (map (\<lambda>(j, e). JArr [null_of j, null_of e]) (je # entries)) deny
      = load_entries n (map (\<lambda>(j, e). JArr [null_of j, null_of e]) entries) d"
    by (simp add: je iterate_def item_def d_def)
  ultimately show ?case using keep add rest by metis
qed (simp add: listed_def)

lemma wf_deny_json: "entries_ok jti ex entries \<Longrightarrow> wf_json (deny_json entries)"
  by (auto simp: entries_ok_def deny_json_def entry_ok_def list_all_iff)

lemma restart_keeps:
  assumes "revoked jti ex st" "seconds now < ex"
  shows "\<exists>st'. session_restart now st = Inr st' \<and> revoked jti ex st'"
proof -
  from assms(1) obtain entries where stored: "ss_file st = Some (atomicWriteJson (deny_json entries))" and l: "listed jti ex entries"
    by (auto simp: revoked_def)
  then have "entries_ok jti ex entries" by (simp add: listed_def)
  from load_entries_ok [OF this, of "[]" "seconds now"] l assms(2) obtain d where
    "load_entries (seconds now) (map (\<lambda>(j, e). JArr [null_of j, null_of e]) entries) [] = Inr d" "listed jti ex d"
    by (auto simp: entries_ok_def)
  moreover have "loadJsonArray (ss_file st) = JArr (map (\<lambda>(j, e). JArr [null_of j, null_of e]) entries)"
    using wf_deny_json [of jti ex entries] l
    by (simp add: loadJsonArray_def stored atomicWriteJson_def json_parse_stringify listed_def) (simp add: deny_json_def)
  ultimately show ?thesis using stored l by (auto simp: session_restart_def loadDenyList_def iterate_def revoked_def)
qed

lemma revokeJti_revoked:
  "entries_ok jti ex (ss_deny st) \<Longrightarrow> \<bar>ex\<bar> \<le> MAX_SAFE_INTEGER \<Longrightarrow> revoked jti ex (revokeJti (Some (JStr jti)) (Some (JNum (JInt ex))) st)"
  using js_map_set_entries [of jti ex "ss_deny st" "Some (JStr jti)" "Some (JNum (JInt ex))"] js_map_set_adds
  by (auto simp: revoked_def revokeJti_def listed_def Let_def entry_ok_def null_of_def)

lemma revokeJti_keeps: "revoked jti ex st \<Longrightarrow> entry_ok jti ex j e \<Longrightarrow> revoked jti ex (revokeJti j e st)"
  using listed_js_map_set by (auto simp: revoked_def revokeJti_def Let_def)

lemma run_sessions_revoked:
  assumes "revoked jti ex st" "\<forall>op \<in> set ops. session_op_ok jti ex op" "\<forall>t. Restart t \<in> set ops \<longrightarrow> seconds t < ex"
  shows "\<exists>st'. run_sessions ops st = Inr st' \<and> revoked jti ex st'"
  using assms
proof (induction ops st rule: run_sessions.induct)
  case (2 j e ops st)
  then show ?case using revokeJti_keeps [of jti ex st j e] by simp
next
  case (3 now ops st)
  then obtain st' where st': "session_restart now st = Inr st'" "revoked jti ex st'" using restart_keeps [of jti ex st now] by auto
  with 3 show ?case by simp
qed simp

lemma revoked_refused: "revoked jti ex st \<Longrightarrow> deny_has (ss_deny st) (Some (JStr jti))"
  using listed_has by (auto simp: revoked_def)

text \<open>C24. Once the id of a session token is revoked, the token is refused at every later time and through any further revocations and restarts of the process, provided no restart falls in the very second of its expiry. \<open>session_op_ok\<close> says that no other token has the same id with another expiry; \<open>later\<close> is not before any restart.\<close>

theorem session_revocation_lasts:
  assumes "digest32 hmac" "\<bar>seconds now\<bar> \<le> 2 ^ 52" "\<bar>or_default (so_ttlSeconds opts) 300\<bar> \<le> 2 ^ 51"
    and "ex = seconds now + or_default (so_ttlSeconds opts) 300" "entries_ok jti ex (ss_deny st)"
    and "\<forall>op \<in> set ops. session_op_ok jti ex op" "\<forall>t. Restart t \<in> set ops \<longrightarrow> seconds t \<noteq> ex \<and> t \<le> later"
    and "run_sessions ops (revokeJti (Some (JStr jti)) (Some (JNum (JInt ex))) st) = Inr st'"
  shows "verifySession hmac key (ss_deny st') later (createSession hmac key now jti opts) = None"
proof -
  note v = verifySession_created [OF assms(1-3), of key "ss_deny st'" later jti]
  show ?thesis
  proof (cases "ex < seconds later")
    case False
    have "\<bar>ex\<bar> \<le> MAX_SAFE_INTEGER" using assms(2-4) by (auto simp: MAX_SAFE_INTEGER_def)
    from revokeJti_revoked [OF assms(5) this] have r: "revoked jti ex (revokeJti (Some (JStr jti)) (Some (JNum (JInt ex))) st)" .
    have "seconds t < ex" if "Restart t \<in> set ops" for t
    proof -
      have "seconds t \<le> seconds later" using assms(7) that by (simp add: seconds_def zdiv_mono1)
      with False assms(7) that show ?thesis by force
    qed
    with run_sessions_revoked [OF r assms(6)] assms(8) revoked_refused show ?thesis by (auto simp: v)
  qed (simp add: v assms(4))
qed


theorem session_revocation_lasts_witness:
  "verifySession (\<lambda>k d. replicate 32 0) [1] [(Some (JStr ''j''), Some (JNum (JInt 300)))] 5000
      (createSession (\<lambda>k d. replicate 32 0) [1] 0 ''j''
        \<lparr>so_userId = ''u'', so_walletId = ''w'', so_network = None, so_capabilities = Some [], so_agentId = None,
         so_ttlSeconds = None, so_authStrategy = None, so_clientId = None\<rparr>) = None"
proof -
  let ?o = "\<lparr>so_userId = ''u'', so_walletId = ''w'', so_network = None, so_capabilities = Some [], so_agentId = None,
         so_ttlSeconds = None, so_authStrategy = None, so_clientId = None\<rparr>"
  let ?st = "\<lparr>ss_deny = [], ss_file = None\<rparr>"
  have r: "run_sessions [Restart 4000] (revokeJti (Some (JStr ''j'')) (Some (JNum (JInt 300))) ?st)
      = Inr \<lparr>ss_deny = [(Some (JStr ''j''), Some (JNum (JInt 300)))], ss_file = Some ''[[\"j\",300]]''\<rparr>"
    by code_simp
  show ?thesis
    using session_revocation_lasts [OF _ _ _ _ _ _ _ r, where hmac = "\<lambda>k d. replicate 32 0" and key = "[1]" and now = 0 and opts = ?o
        and later = 5000]
    by (simp add: digest32_def seconds_def or_default_def entries_ok_def)
qed

text \<open>A restart in the second of the expiry forgets the revocation, because the list is reloaded with \<open>exp > now\<close> while
  a token is accepted with \<open>exp >= now\<close>: the revoked token is accepted again.\<close>

lemma session_revived_by_restart:
  assumes "digest32 hmac" "\<bar>seconds now\<bar> \<le> 2 ^ 52" "\<bar>or_default (so_ttlSeconds opts) 300\<bar> \<le> 2 ^ 51"
    and "seconds later = seconds now + or_default (so_ttlSeconds opts) 300"
  shows "\<exists>st. session_restart later (revokeJti (Some (JStr jti)) (Some (JNum (JInt (seconds later)))) \<lparr>ss_deny = [], ss_file = None\<rparr>) = Inr st
    \<and> verifySession hmac key (ss_deny st) later (createSession hmac key now jti opts) = Some (SessionPayload now jti opts)"
proof -
  let ?st = "revokeJti (Some (JStr jti)) (Some (JNum (JInt (seconds later)))) \<lparr>ss_deny = [], ss_file = None\<rparr>"
  have ex: "\<bar>seconds later\<bar> \<le> MAX_SAFE_INTEGER" using assms(2-4) by (auto simp: MAX_SAFE_INTEGER_def)
  have "loadJsonArray (ss_file ?st) = deny_json [(Some (JStr jti), Some (JNum (JInt (seconds later))))]"
    using ex by (simp add: revokeJti_def Let_def loadJsonArray_def atomicWriteJson_def)
      (subst json_parse_stringify, simp_all add: deny_json_def null_of_def)
  then have "session_restart later ?st = Inr (?st\<lparr>ss_deny := []\<rparr>)"
    by (simp add: session_restart_def loadDenyList_def deny_json_def iterate_def null_of_def item_def value_greater_def)
  moreover have "verifySession hmac key [] later (createSession hmac key now jti opts) = Some (SessionPayload now jti opts)"
    using assms(4) by (simp add: verifySession_created [OF assms(1-3)] deny_has_def)
  ultimately show ?thesis by simp
qed

end
