(* ===== verification/Js_Date.thy ===== *)
theory Js_Date
  imports Js_Number
begin

text \<open>
  The part of the ECMAScript \<open>Date\<close> object that the issuers and the indexer call, defined as the
  language specification does (sections Time Values and MakeDay): \<open>Date.UTC\<close>, the UTC accessors
  and \<open>toISOString\<close>. A time value is an integer number of milliseconds since 1970. The loop that
  finds the year of a day ends because the first day of a year grows with the year.
\<close>

section \<open>Days, years and months\<close>

definition DayFromYear :: "int \<Rightarrow> int" where
  "DayFromYear y = 365 * (y - 1970) + (y - 1969) div 4 - (y - 1901) div 100 + (y - 1601) div 400"

definition DaysInYear :: "int \<Rightarrow> int" where
  "DaysInYear y = (if y mod 4 \<noteq> 0 then 365 else if y mod 100 \<noteq> 0 then 366 else if y mod 400 \<noteq> 0 then 365 else 366)"

lemma div_succ: "0 < (k::int) \<Longrightarrow> (x + 1) div k = x div k + (if (x + 1) mod k = 0 then 1 else 0)"
proof -
  assume k: "0 < k"
  have eq: "x + 1 = k * (x div k) + (x mod k + 1)" by simp
  have r: "0 \<le> x mod k" "x mod k < k" using k by simp_all
  show ?thesis
  proof (cases "x mod k + 1 = k")
    case True
    then have "x + 1 = k * (x div k + 1)" using eq by (simp add: algebra_simps)
    then show ?thesis using k by simp
  next
    case False
    then have lt: "x mod k + 1 < k" using r by simp
    have "(x + 1) div k = x div k" by (rule int_div_pos_eq [OF eq]) (use r lt in simp_all)
    moreover have "(x + 1) mod k = x mod k + 1" by (rule int_mod_pos_eq [OF eq]) (use r lt in simp_all)
    ultimately have "(x + 1) div k = x div k" "(x + 1) mod k = x mod k + 1" by simp_all
    then show ?thesis using r by simp
  qed
qed

lemma DayFromYear_Suc: "DayFromYear (y + 1) = DayFromYear y + DaysInYear y"
proof -
  have m: "(y - 1968) mod 4 = y mod 4" "(y - 1900) mod 100 = y mod 100" "(y - 1600) mod 400 = y mod 400"
    using mod_mult_self1 [of y "- 492" 4] mod_mult_self1 [of y "- 19" 100] mod_mult_self1 [of y "- 4" 400] by simp_all
  have d: "y mod 400 = 0 \<longrightarrow> y mod 100 = 0" "y mod 100 = 0 \<longrightarrow> y mod 4 = 0"
    using dvd_trans [of 100 400 y] dvd_trans [of 4 100 y] by (simp_all add: mod_eq_0_iff_dvd)
  have e: "y - 1969 + 1 = y - 1968" "y - 1901 + 1 = y - 1900" "y - 1601 + 1 = y - 1600" by simp_all
  have s: "(y - 1968) div 4 = (y - 1969) div 4 + (if y mod 4 = 0 then 1 else 0)"
    "(y - 1900) div 100 = (y - 1901) div 100 + (if y mod 100 = 0 then 1 else 0)"
    "(y - 1600) div 400 = (y - 1601) div 400 + (if y mod 400 = 0 then 1 else 0)"
    by (rule div_succ [of 4 "y - 1969", unfolded e m, OF zero_less_numeral]
        div_succ [of 100 "y - 1901", unfolded e m, OF zero_less_numeral]
        div_succ [of 400 "y - 1601", unfolded e m, OF zero_less_numeral])+
  have "DayFromYear (y + 1) = 365 * (y - 1970) + 365 + (y - 1968) div 4 - (y - 1900) div 100 + (y - 1600) div 400"
    by (simp add: DayFromYear_def)
  also have "\<dots> = DayFromYear y + DaysInYear y"
    unfolding s DayFromYear_def DaysInYear_def
    by (cases "y mod 4 = 0"; cases "y mod 100 = 0"; cases "y mod 400 = 0"; use d in simp)
  finally show ?thesis .
qed

lemma DaysInYear_bounds: "365 \<le> DaysInYear y" "DaysInYear y \<le> 366"
  by (simp_all add: DaysInYear_def)

text \<open>\<open>YearFromTime\<close>: the largest year that starts no later than the day.\<close>

function year_up :: "int \<Rightarrow> int \<Rightarrow> int" where
  "year_up day y = (if DayFromYear (y + 1) \<le> day then year_up day (y + 1) else y)"
  by auto
termination
proof (relation "measure (\<lambda>(day, y). nat (day - DayFromYear y))")
  show "((day, y + 1), day, y) \<in> measure (\<lambda>(day, y). nat (day - DayFromYear y))"
    if "DayFromYear (y + 1) \<le> day" for day y
    using that DaysInYear_bounds(1) [of y] by (simp add: DayFromYear_Suc)
qed simp

declare year_up.simps [simp del]

definition YearFromDay :: "int \<Rightarrow> int" where
  "YearFromDay day = year_up day (1970 + (if 0 \<le> day then day div 366 else day div 365))"

definition month_start :: "bool \<Rightarrow> int list" where
  "month_start leap = (if leap then [0, 31, 60, 91, 121, 152, 182, 213, 244, 274, 305, 335]
                       else [0, 31, 59, 90, 120, 151, 181, 212, 243, 273, 304, 334])"

definition InLeapYear :: "int \<Rightarrow> bool" where
  "InLeapYear y = (DaysInYear y = 366)"

definition days_in_month :: "int \<Rightarrow> int \<Rightarrow> int" where
  "days_in_month y m = (if m = 1 then (if InLeapYear y then 29 else 28)
                        else if m = 3 \<or> m = 5 \<or> m = 8 \<or> m = 10 then 30 else 31)"

text \<open>\<open>MonthFromTime\<close> and \<open>DateFromTime\<close> of a day, with January as month 0.\<close>

definition MonthFromDay :: "int \<Rightarrow> int" where
  "MonthFromDay day = (let y = YearFromDay day; d = day - DayFromYear y
     in int (length (filter (\<lambda>s. s \<le> d) (month_start (InLeapYear y)))) - 1)"

definition DateFromDay :: "int \<Rightarrow> int" where
  "DateFromDay day = (let y = YearFromDay day
     in day - DayFromYear y - month_start (InLeapYear y) ! nat (MonthFromDay day) + 1)"

definition MakeDay :: "int \<Rightarrow> int \<Rightarrow> int \<Rightarrow> int" where
  "MakeDay year month dt = (let ym = year + month div 12
     in DayFromYear ym + month_start (InLeapYear ym) ! nat (month mod 12) + dt - 1)"

section \<open>Time values\<close>

definition msPerDay :: int where
  "msPerDay = 86400000"

definition TimeClip :: "int \<Rightarrow> int option" where
  "TimeClip t = (if \<bar>t\<bar> \<le> 8640000000000000 then Some t else None)"

text \<open>\<open>Date.UTC(year, month, day)\<close>: \<open>None\<close> is \<open>NaN\<close>; the years 0 to 99 stand for 1900 to 1999.\<close>

definition Date_UTC :: "int \<Rightarrow> int \<Rightarrow> int \<Rightarrow> int option" where
  "Date_UTC year month dt = TimeClip (MakeDay (if 0 \<le> year \<and> year \<le> 99 then 1900 + year else year) month dt * msPerDay)"

definition getUTCFullYear :: "int \<Rightarrow> int" where
  "getUTCFullYear t = YearFromDay (t div msPerDay)"

definition getUTCMonth :: "int \<Rightarrow> int" where
  "getUTCMonth t = MonthFromDay (t div msPerDay)"

definition getUTCDate :: "int \<Rightarrow> int" where
  "getUTCDate t = DateFromDay (t div msPerDay)"

text \<open>Digits padded with zeros to a width.\<close>

definition pad :: "nat \<Rightarrow> int \<Rightarrow> string" where
  "pad w n = (let s = show_int n in replicate (w - length s) (CHR ''0'') @ s)"

definition iso_year :: "int \<Rightarrow> string" where
  "iso_year y = (if 0 \<le> y \<and> y \<le> 9999 then pad 4 y else (if y < 0 then ''-'' else ''+'') @ pad 6 \<bar>y\<bar>)"

text \<open>\<open>new Date(t).toISOString()\<close>; \<open>None\<close> is the \<open>RangeError\<close> of an invalid date.\<close>

definition toISOString :: "int \<Rightarrow> string option" where
  "toISOString t = (case TimeClip t of None \<Rightarrow> None | Some t \<Rightarrow>
     let ms = t mod msPerDay in
     Some (iso_year (getUTCFullYear t) @ ''-'' @ pad 2 (getUTCMonth t + 1) @ ''-'' @ pad 2 (getUTCDate t)
       @ ''T'' @ pad 2 (ms div 3600000) @ '':'' @ pad 2 (ms div 60000 mod 60) @ '':'' @ pad 2 (ms div 1000 mod 60)
       @ ''.'' @ pad 3 (ms mod 1000) @ ''Z''))"

section \<open>Lemmas\<close>

lemma DayFromYear_mono: "x \<le> y \<Longrightarrow> DayFromYear x \<le> DayFromYear y"
proof (induction y rule: int_ge_induct)
  case (step y)
  then show ?case using DayFromYear_Suc [of y] DaysInYear_bounds(1) [of y] by linarith
qed simp

lemma DayFromYear_upper: "0 \<le> k \<Longrightarrow> DayFromYear (1970 + k) \<le> 366 * k"
proof (induction k rule: int_ge_induct)
  case base
  show ?case by (simp add: DayFromYear_def)
next
  case (step k)
  then show ?case using DayFromYear_Suc [of "1970 + k"] DaysInYear_bounds(2) [of "1970 + k"] by (simp add: algebra_simps)
qed

lemma DayFromYear_lower: "k \<le> 0 \<Longrightarrow> DayFromYear (1970 + k) \<le> 365 * k"
proof (induction k rule: int_le_induct)
  case base
  show ?case by (simp add: DayFromYear_def)
next
  case (step k)
  then show ?case using DayFromYear_Suc [of "1970 + k - 1"] DaysInYear_bounds(1) [of "1970 + k - 1"] by (simp add: algebra_simps)
qed

lemma year_up_spec: "DayFromYear y \<le> day \<Longrightarrow>
  DayFromYear (year_up day y) \<le> day \<and> day < DayFromYear (year_up day y + 1)"
proof (induction day y rule: year_up.induct)
  case (1 day y)
  then show ?case by (subst (1 2) year_up.simps) auto
qed

lemma YearFromDay_spec:
  "DayFromYear (YearFromDay day) \<le> day" "day < DayFromYear (YearFromDay day + 1)"
proof -
  have "DayFromYear (1970 + day div 366) \<le> day" if "0 \<le> day"
    using DayFromYear_upper [of "day div 366"] that pos_mod_sign [of 366 day] mult_div_mod_eq [of 366 day]
    by (simp add: pos_imp_zdiv_nonneg_iff)
  moreover have "DayFromYear (1970 + day div 365) \<le> day" if "day < 0"
    using DayFromYear_lower [of "day div 365"] that pos_mod_sign [of 365 day] mult_div_mod_eq [of 365 day]
    by (simp add: div_nonpos_pos_le0)
  ultimately show "DayFromYear (YearFromDay day) \<le> day" "day < DayFromYear (YearFromDay day + 1)"
    using year_up_spec by (auto simp: YearFromDay_def not_le)
qed

lemma YearFromDay_unique:
  "DayFromYear y \<le> day \<Longrightarrow> day < DayFromYear (y + 1) \<Longrightarrow> YearFromDay day = y"
  using YearFromDay_spec [of day] DayFromYear_mono [of "y + 1" "YearFromDay day"]
    DayFromYear_mono [of "YearFromDay day + 1" y] by linarith

lemma month_cases: "0 \<le> (m::int) \<Longrightarrow> m < 12 \<Longrightarrow>
  m = 0 \<or> m = 1 \<or> m = 2 \<or> m = 3 \<or> m = 4 \<or> m = 5 \<or> m = 6 \<or> m = 7 \<or> m = 8 \<or> m = 9 \<or> m = 10 \<or> m = 11"
  by presburger

lemma days_in_month_le: "days_in_month y m \<le> 31"
  by (simp add: days_in_month_def)

lemma InLeapYear_days: "DaysInYear y = (if InLeapYear y then 366 else 365)"
  by (simp add: InLeapYear_def DaysInYear_def)

text \<open>A valid month and day lie within their year, and the accessors find them again.\<close>

lemma month_offset:
  assumes "0 \<le> m" "m < 12" "1 \<le> d" "d \<le> days_in_month y m"
  shows "0 \<le> month_start (InLeapYear y) ! nat m + d - 1
    \<and> month_start (InLeapYear y) ! nat m + d - 1 < DaysInYear y
    \<and> int (length (filter (\<lambda>s. s \<le> month_start (InLeapYear y) ! nat m + d - 1) (month_start (InLeapYear y)))) - 1 = m"
  using month_cases [OF assms(1,2)] assms(3,4)
  by (elim disjE; cases "InLeapYear y"; simp add: month_start_def days_in_month_def InLeapYear_days)

lemma MakeDay_accessors:
  assumes "0 \<le> m" "m < 12" "1 \<le> d" "d \<le> days_in_month y m"
  shows "YearFromDay (MakeDay y m d) = y" "MonthFromDay (MakeDay y m d) = m" "DateFromDay (MakeDay y m d) = d"
proof -
  have mk: "MakeDay y m d = DayFromYear y + (month_start (InLeapYear y) ! nat m + d - 1)"
    using assms(1,2) by (simp add: MakeDay_def)
  show Y: "YearFromDay (MakeDay y m d) = y"
    using month_offset [OF assms] by (intro YearFromDay_unique) (simp_all add: mk DayFromYear_Suc)
  show M: "MonthFromDay (MakeDay y m d) = m"
    unfolding MonthFromDay_def Let_def Y using month_offset [OF assms] by (simp add: mk)
  show "DateFromDay (MakeDay y m d) = d"
    unfolding DateFromDay_def Let_def Y M by (simp add: mk)
qed

lemma month_of_day_of_year:
  assumes "0 \<le> d" "d < DaysInYear y"
  shows "\<exists>m. 0 \<le> m \<and> m < 12 \<and> month_start (InLeapYear y) ! nat m \<le> d
           \<and> d < month_start (InLeapYear y) ! nat m + days_in_month y m"
proof -
  have u: "\<exists>m. 0 \<le> m \<and> m < 12 \<and> P m" if "P 0 \<or> P 1 \<or> P 2 \<or> P 3 \<or> P 4 \<or> P 5 \<or> P 6 \<or> P 7 \<or> P 8 \<or> P 9 \<or> P 10 \<or> P 11"
    for P :: "int \<Rightarrow> bool"
    using that by (elim disjE) (rule exI, rule conjI, rule_tac [2] conjI, assumption?, simp_all)+
  have a: "d < 31 \<or> 31 \<le> d \<and> d < 60 \<or> 60 \<le> d \<and> d < 91 \<or> 91 \<le> d \<and> d < 121 \<or> 121 \<le> d \<and> d < 152
    \<or> 152 \<le> d \<and> d < 182 \<or> 182 \<le> d \<and> d < 213 \<or> 213 \<le> d \<and> d < 244 \<or> 244 \<le> d \<and> d < 274
    \<or> 274 \<le> d \<and> d < 305 \<or> 305 \<le> d \<and> d < 335 \<or> 335 \<le> d" by presburger
  have b: "d < 31 \<or> 31 \<le> d \<and> d < 59 \<or> 59 \<le> d \<and> d < 90 \<or> 90 \<le> d \<and> d < 120 \<or> 120 \<le> d \<and> d < 151
    \<or> 151 \<le> d \<and> d < 181 \<or> 181 \<le> d \<and> d < 212 \<or> 212 \<le> d \<and> d < 243 \<or> 243 \<le> d \<and> d < 273
    \<or> 273 \<le> d \<and> d < 304 \<or> 304 \<le> d \<and> d < 334 \<or> 334 \<le> d" by presburger
  show ?thesis
    by (rule u) (use assms a b in \<open>cases "InLeapYear y"; simp add: month_start_def days_in_month_def InLeapYear_days\<close>)
qed

text \<open>Every day has a valid month and day of month, from which \<open>MakeDay\<close> gives it back.\<close>

lemma accessors_MakeDay:
  "0 \<le> MonthFromDay n \<and> MonthFromDay n < 12 \<and> 1 \<le> DateFromDay n
   \<and> DateFromDay n \<le> days_in_month (YearFromDay n) (MonthFromDay n)
   \<and> MakeDay (YearFromDay n) (MonthFromDay n) (DateFromDay n) = n"
proof -
  let ?y = "YearFromDay n" and ?o = "n - DayFromYear (YearFromDay n)"
  have "0 \<le> ?o" "?o < DaysInYear ?y"
    using YearFromDay_spec [of n] DayFromYear_Suc [of ?y] by simp_all
  then obtain m where m: "0 \<le> m" "m < 12" "month_start (InLeapYear ?y) ! nat m \<le> ?o"
      "?o < month_start (InLeapYear ?y) ! nat m + days_in_month ?y m"
    using month_of_day_of_year by blast
  define d where "d = ?o - month_start (InLeapYear ?y) ! nat m + 1"
  have d: "1 \<le> d" "d \<le> days_in_month ?y m" using m by (simp_all add: d_def)
  have n: "n = MakeDay ?y m d" using m by (simp add: MakeDay_def d_def)
  have "MonthFromDay n = m" "DateFromDay n = d"
    using MakeDay_accessors [OF m(1,2) d] n by metis+
  with m d n show ?thesis by simp
qed

end
