(* ===== verification/Beckn_Envelope.thy ===== *)
theory Beckn_Envelope
  imports Js_Regex Session_Auth Js_Date
begin

text \<open>
  The envelope of a Beckn message: the pre-check of \<^verbatim>\<open>src/gateway/inbound-bap.ts\<close> (version, timestamp, time to live) and the JSON
  schemas of \<^verbatim>\<open>src/gateway/beckn-schemas.ts\<close>, which every inbound route applies one after the other. The schemas are data, as in the
  code; the validator that interprets them is the package \<open>ajv\<close>, a parameter. What the theorems rely on is stated as
  \<open>ajv_documented\<close>: the package accepts the values that conform to the schema by the rules of JSON Schema, the named formats being
  any predicate. \<open>parse\<close> is \<open>Date.parse\<close>, a parameter too (its result on some accepted texts is left to the implementation).
  The lemmas show which durations the pre-check takes and what they are worth, that the second freshness check never fires,
  and that no message with a time to live passes both checks.
\<close>

section \<open>Durations\<close>

definition unit_part :: "string \<Rightarrow> regex" where
  "unit_part u = Opt (Seq (Plus is_digit) (Lit u))"

definition DURATION_REGEX :: regex where
  "DURATION_REGEX = seqs [Lit ''P'', NotEnd, unit_part ''W'', unit_part ''D'',
     Opt (seqs [Lit ''T'', Ahead (Times 1 is_digit), unit_part ''H'', unit_part ''M'',
       Opt (seqs [Plus is_digit, Opt (Seq (Lit ''.'') (Plus is_digit)), Lit ''S''])]), End]"

text \<open>\<open>/\d+[YM]/.test(s)\<close>.\<close>

fun calendar_unit :: "string \<Rightarrow> bool" where
  "calendar_unit (c # d # s) = (is_digit c \<and> (d = CHR ''Y'' \<or> d = CHR ''M'') \<or> calendar_unit (d # s))"
| "calendar_unit _ = False"

text \<open>\<open>s.match(/([\d.]+)U/)?.[1]\<close>: the first run of digits and points that the letter follows. The patterns with \<open>T.*?\<close> look
  for it after the first \<open>T\<close>.\<close>

fun number_before :: "char \<Rightarrow> string \<Rightarrow> string \<Rightarrow> string option" where
  "number_before u run [] = None"
| "number_before u run (c # s) = (if is_digit c \<or> c = CHR ''.'' then number_before u (run @ [c]) s
     else if c = u \<and> run \<noteq> [] then Some run else number_before u [] s)"

definition after_T :: "string \<Rightarrow> string" where
  "after_T s = tl (dropWhile (\<lambda>c. c \<noteq> CHR ''T'') s)"

text \<open>\<open>parseFloat\<close> of a text that starts with a digit and has no exponent.\<close>

definition parseFloat :: "string \<Rightarrow> rat" where
  "parseFloat s = (let i = takeWhile is_digit s; r = dropWhile is_digit s;
       f = (if r \<noteq> [] \<and> hd r = CHR ''.'' then takeWhile is_digit (tl r) else [])
     in fl53 (of_nat (parse_nat (i @ f)) / 10 ^ length f))"

definition amount :: "string option \<Rightarrow> rat" where
  "amount m = (case m of None \<Rightarrow> 0 | Some s \<Rightarrow> parseFloat s)"

definition fmul :: "rat \<Rightarrow> rat \<Rightarrow> rat" where
  "fmul a b = fl53 (a * b)"

definition fadd :: "rat \<Rightarrow> rat \<Rightarrow> rat" where
  "fadd a b = fl53 (a + b)"

text \<open>The arithmetic of non-negative doubles only grows, so an overflow on the way is an overflow of the result.\<close>

definition parseIso8601DurationMs :: "string \<Rightarrow> rat option" where
  "parseIso8601DurationMs s = (
     if calendar_unit s then None
     else if \<not> regex_test DURATION_REGEX s then None
     else let weeks = amount (number_before (CHR ''W'') [] s);
              days = amount (number_before (CHR ''D'') [] s);
              hours = amount (number_before (CHR ''H'') [] (after_T s));
              minutes = amount (number_before (CHR ''M'') [] (after_T s));
              seconds = amount (number_before (CHR ''S'') [] (after_T s));
              ms = fmul (fadd (fadd (fadd (fadd
                (fmul (fmul (fmul (fmul weeks 7) 24) 60) 60)
                (fmul (fmul (fmul days 24) 60) 60))
                (fmul (fmul hours 60) 60))
                (fmul minutes 60))
                seconds) 1000
       in if isFinite (to_double ms) then Some ms else None)"

section \<open>The envelope check\<close>

datatype NackCode = BAD_VERSION | BAD_TIMESTAMP | BAD_TTL | EXPIRED_TTL

record NackBody =
  nb_code :: NackCode
  nb_message :: string
  nb_context :: "json option"

text \<open>A refused envelope, answered with status 400; \<open>toISOString\<close> of an invalid date would throw instead.\<close>

datatype envelope_failure = Nack NackBody | RangeError

definition DATETIME_REGEX :: regex where
  "DATETIME_REGEX = seqs [Times 4 is_digit, Lit ''-'', Times 2 is_digit, Lit ''-'', Times 2 is_digit,
     Times 1 (\<lambda>c. c = CHR ''T'' \<or> c = CHR ''t''), Times 2 is_digit, Lit '':'', Times 2 is_digit, Lit '':'', Times 2 is_digit,
     Opt (Seq (Lit ''.'') (Plus is_digit)),
     Alt (Times 1 (\<lambda>c. c = CHR ''Z'' \<or> c = CHR ''z''))
       (seqs [Times 1 (\<lambda>c. c = CHR ''+'' \<or> c = CHR ''-''), Times 2 is_digit, Opt (Lit '':''), Times 2 is_digit]), End]"

text \<open>A field of a value that may be missing or \<open>null\<close>: \<open>c?.[k]\<close>.\<close>

definition field :: "json option \<Rightarrow> string \<Rightarrow> json option" where
  "field v k = (case v of None \<Rightarrow> None | Some x \<Rightarrow> own_field x k)"

definition shown :: "json option \<Rightarrow> string" where
  "shown v = (case v of None \<Rightarrow> ''undefined'' | Some x \<Rightarrow> json_stringify x)"

definition nack :: "NackCode \<Rightarrow> string \<Rightarrow> json option \<Rightarrow> (envelope_failure, unit) result" where
  "nack c msg ctx = Inl (Nack \<lparr>nb_code = c, nb_message = msg, nb_context = ctx\<rparr>)"

text \<open>\<open>new Date(t).toISOString()\<close> drops the fraction of a millisecond.\<close>

definition iso_of :: "rat \<Rightarrow> string option" where
  "iso_of t = toISOString (if 0 \<le> t then \<lfloor>t\<rfloor> else \<lceil>t\<rceil>)"

definition expired :: "string \<Rightarrow> string \<Rightarrow> rat \<Rightarrow> int \<Rightarrow> json option \<Rightarrow> (envelope_failure, unit) result" where
  "expired ts ttl expiresAt now ctx = (case (iso_of expiresAt, toISOString now) of
       (Some e, Some n) \<Rightarrow> nack EXPIRED_TTL (''envelope expired: timestamp '' @ ts @ '' + ttl '' @ ttl @ '' = '' @ e
          @ '' which is before now ('' @ n @ '')'') ctx
     | _ \<Rightarrow> Inl RangeError)"

definition validateBecknEnvelope :: "(string \<Rightarrow> int option) \<Rightarrow> json option \<Rightarrow> int \<Rightarrow> (envelope_failure, unit) result" where
  "validateBecknEnvelope parse ctx now = (
     if field ctx ''version'' \<noteq> Some (JStr ''2.0.0'')
     then nack BAD_VERSION (''context.version must be \"2.0.0\"; got '' @ shown (field ctx ''version'')) ctx
     else let bad = nack BAD_TIMESTAMP (''context.timestamp must be an ISO-8601 datetime; got '' @ shown (field ctx ''timestamp'')) ctx
     in (case field ctx ''timestamp'' of
       Some (JStr ts) \<Rightarrow> (case (regex_test DATETIME_REGEX ts, parse ts) of
         (True, Some t) \<Rightarrow> (case field ctx ''ttl'' of
            None \<Rightarrow> Inr ()
          | Some ttl \<Rightarrow> if ttl = JStr [] then Inr ()
             else (case parseIso8601DurationMs (js_toString ttl) of
               None \<Rightarrow> nack BAD_TTL (''context.ttl must be an ISO-8601 duration (e.g. \"PT30S\"); got '' @ json_stringify ttl) ctx
             | Some ttlMs \<Rightarrow> let expiresAt = fadd (of_int t) ttlMs
                in if expiresAt < of_int now then expired ts (js_toString ttl) expiresAt now ctx else Inr ()))
       | _ \<Rightarrow> bad)
     | _ \<Rightarrow> bad))"

definition validateBecknEnvelopeFreshness :: "(string \<Rightarrow> int option) \<Rightarrow> json option \<Rightarrow> int \<Rightarrow> (envelope_failure, unit) result" where
  "validateBecknEnvelopeFreshness parse ctx now = (case (field ctx ''timestamp'', field ctx ''ttl'') of
       (Some (JStr ts), Some (JStr ttl)) \<Rightarrow>
         if ttl = [] \<or> ts = [] then Inr ()
         else (case parseIso8601DurationMs ttl of None \<Rightarrow> Inr ()
           | Some ttlMs \<Rightarrow> (case parse ts of None \<Rightarrow> Inr ()
             | Some t \<Rightarrow> let expiresAt = fadd (of_int t) ttlMs
                in if expiresAt < of_int now then expired ts ttl expiresAt now ctx else Inr ()))
     | _ \<Rightarrow> Inr ())"

section \<open>Lemmas: durations\<close>

definition head_in :: "(char \<Rightarrow> bool) \<Rightarrow> string \<Rightarrow> bool" where
  "head_in p s = (s \<noteq> [] \<and> p (hd s))"

lemma head_in_append: "x \<noteq> [] \<Longrightarrow> list_all p x \<Longrightarrow> head_in p (x @ y)"
  by (cases x) (auto simp: head_in_def)

lemma unit_part_head: "leaves (unit_part u) s t \<Longrightarrow> t = s \<or> head_in is_digit s"
  by (auto simp: unit_part_def matching head_in_append)

lemma seconds_head: "leaves (Seq (Plus p) r) s t \<Longrightarrow> head_in p s"
  by (auto simp: matching head_in_append)

text \<open>What follows the \<open>P\<close> of a duration: a digit, or a \<open>T\<close> and a digit.\<close>

lemma duration_head:
  assumes "regex_test DURATION_REGEX s"
  shows "\<exists>r. s = ''P'' @ r \<and> (head_in is_digit r \<or> (\<exists>r'. r = ''T'' @ r' \<and> head_in is_digit r'))"
proof -
  obtain r a b where r: "s = ''P'' @ r" "r \<noteq> []" "leaves (unit_part ''W'') r a" "leaves (unit_part ''D'') a b"
    and t: "b = [] \<or> (\<exists>c. b = ''T'' @ c \<and> head_in is_digit c)"
    using assms unfolding regex_test_leaves DURATION_REGEX_def
    by (auto simp: leaves_simps(2-7) leaves_Lit) (auto simp: leaves_simps(1) length_Suc_conv head_in_def)
  then show ?thesis using unit_part_head [OF r(3)] unit_part_head [OF r(4)] by auto
qed

lemma calendar_unit_inside: "is_digit c \<Longrightarrow> d = CHR ''Y'' \<or> d = CHR ''M'' \<Longrightarrow> calendar_unit (a @ c # d # b)"
proof (induction a)
  case Nil
  then show ?case by auto
next
  case (Cons x a)
  then have "calendar_unit (a @ c # d # b)" by simp
  then show ?case by (cases a) auto
qed

lemma calendar_unit_run: "list_all is_digit x \<Longrightarrow> x \<noteq> [] \<Longrightarrow> d = CHR ''Y'' \<or> d = CHR ''M'' \<Longrightarrow> calendar_unit (a @ x @ d # b)"
  using calendar_unit_inside [of "last x" d "a @ butlast x" b] by (metis append.assoc append_Cons append_Nil append_butlast_last_id last_in_set list_all_iff)

text \<open>The texts that print weeks, days, hours, minutes and seconds.\<close>

definition duration_text :: "nat \<Rightarrow> nat \<Rightarrow> nat \<Rightarrow> nat option \<Rightarrow> nat \<Rightarrow> string" where
  "duration_text w d h m s = ''P'' @ show_nat w @ ''W'' @ show_nat d @ ''D'' @ ''T'' @ show_nat h @ ''H''
     @ (case m of None \<Rightarrow> [] | Some n \<Rightarrow> show_nat n @ ''M'') @ show_nat s @ ''S''"

lemma digits_prop: "list_all is_digit x \<Longrightarrow> c \<in> set x \<Longrightarrow> is_digit c"
  by (simp add: list_all_iff)

lemma number_before_run:
  assumes "list_all is_digit x" "\<not> is_digit c" "c \<noteq> CHR ''.''"
  shows "number_before u run (x @ c # s) = (if c = u \<and> run @ x \<noteq> [] then Some (run @ x) else number_before u [] s)"
  using assms by (induction x arbitrary: run) auto

lemma leaves_unit: "leaves (unit_part u) (show_nat n @ u @ r) r"
  unfolding unit_part_def leaves_simps(2,3) leaves_Plus leaves_Lit
  by (rule disjI1) (intro exI [where x = "u @ r"] conjI exI [where x = "show_nat n"], simp_all add: show_nat_digits)

lemma leaves_unit_none: "leaves (unit_part u) r r"
  by (simp add: unit_part_def leaves_simps)

lemma head_show_nat: "head_in is_digit (show_nat n @ r)"
  by (simp add: head_in_append show_nat_digits)

lemma leaves_Times1: "head_in p s \<Longrightarrow> leaves (Times 1 p) s (tl s)"
  by (cases s) (auto simp: head_in_def leaves_simps)

lemma calendar_unit_digits:
  assumes "list_all is_digit x" "\<not> is_digit c" "c \<noteq> CHR ''Y''" "c \<noteq> CHR ''M''"
  shows "calendar_unit (x @ c # s) = calendar_unit (c # s)"
  using assms
proof (induction x)
  case (Cons a x)
  then show ?case by (cases x) (auto simp: is_digit_def code_def)
qed simp

lemma calendar_unit_letter: "\<not> is_digit c \<Longrightarrow> calendar_unit (c # s) = calendar_unit s"
  by (cases s) auto

lemma no_digit_units:
  "\<not> is_digit CHR ''P''" "\<not> is_digit CHR ''W''" "\<not> is_digit CHR ''D''" "\<not> is_digit CHR ''T''" "\<not> is_digit CHR ''H''"
  "\<not> is_digit CHR ''M''" "\<not> is_digit CHR ''S''" "\<not> is_digit CHR ''d''"
  by (simp_all add: is_digit_def code_def)

lemma calendar_unit_text: "calendar_unit (duration_text w d h m s) \<longleftrightarrow> m \<noteq> None"
proof (cases m)
  case None
  then show ?thesis
    by (simp add: duration_text_def calendar_unit_letter calendar_unit_digits show_nat_digits no_digit_units)
next
  case (Some n)
  have "duration_text w d h m s = (''P'' @ show_nat w @ ''W'' @ show_nat d @ ''D'' @ ''T'' @ show_nat h @ ''H'') @ show_nat n @ CHR ''M'' # show_nat s @ ''S''"
    by (simp add: duration_text_def Some)
  then have "calendar_unit (duration_text w d h m s)" by (simp only:) (rule calendar_unit_run, simp_all add: show_nat_digits)
  then show ?thesis using Some by simp
qed

lemma leaves_SeqI: "leaves a s u \<Longrightarrow> leaves b u t \<Longrightarrow> leaves (Seq a b) s t"
  by (auto simp: leaves_simps)

lemma leaves_LitI: "leaves (Lit l) (l @ s) s"
  by (simp add: leaves_Lit)

lemma leaves_OptI: "leaves r s t \<Longrightarrow> leaves (Opt r) s t"
  by (simp add: leaves_simps)

lemma leaves_AheadI: "leaves r s t \<Longrightarrow> leaves (Ahead r) s s"
  by (auto simp: leaves_simps)

lemma duration_text_accepted: "regex_test DURATION_REGEX (duration_text w d h None s)"
proof -
  let ?sec = "show_nat s @ ''S''" and ?hs = "show_nat h @ ''H'' @ show_nat s @ ''S''"
  have "leaves (seqs [Plus is_digit, Opt (Seq (Lit ''.'') (Plus is_digit)), Lit ''S'']) ?sec []"
  proof -
    have "leaves (Plus is_digit) ?sec ''S''" unfolding leaves_Plus by (intro exI [where x = "show_nat s"]) (simp add: show_nat_digits)
    moreover have "leaves (Opt r) ''S'' ''S''" "leaves (Lit ''S'') ''S'' []" for r by (simp_all add: matching)
    ultimately show ?thesis unfolding seqs.simps leaves_simps(3) by blast
  qed
  note sec = leaves_OptI [OF this]
  have "leaves (Seq (Lit ''T'') (Seq (Ahead (Times 1 is_digit)) (Seq (unit_part ''H'') (Seq (unit_part ''M'')
       (Opt (seqs [Plus is_digit, Opt (Seq (Lit ''.'') (Plus is_digit)), Lit ''S''])))))) (''T'' @ ?hs) []"
    by (rule leaves_SeqI, rule leaves_LitI, rule leaves_SeqI, rule leaves_AheadI [OF leaves_Times1 [OF head_show_nat]],
        rule leaves_SeqI, rule leaves_unit, rule leaves_SeqI, rule leaves_unit_none, rule sec)
  note hours = leaves_OptI [OF this]
  have ne: "leaves NotEnd (show_nat w @ x) (show_nat w @ x)" for x by (simp add: leaves_simps)
  have "leaves (Seq (Lit ''P'') (Seq NotEnd (Seq (unit_part ''W'') (Seq (unit_part ''D'') (Seq (Opt (Seq (Lit ''T'') (Seq (Ahead (Times 1 is_digit))
      (Seq (unit_part ''H'') (Seq (unit_part ''M'') (Opt (seqs [Plus is_digit, Opt (Seq (Lit ''.'') (Plus is_digit)), Lit ''S'']))))))) End)))))
      (''P'' @ show_nat w @ ''W'' @ show_nat d @ ''D'' @ ''T'' @ ?hs) []"
    by (rule leaves_SeqI, rule leaves_LitI, rule leaves_SeqI, rule ne, rule leaves_SeqI, rule leaves_unit, rule leaves_SeqI, rule leaves_unit,
        rule leaves_SeqI, rule hours, simp add: leaves_simps)
  then have "leaves DURATION_REGEX (''P'' @ show_nat w @ ''W'' @ show_nat d @ ''D'' @ ''T'' @ ?hs) []"
    by (simp only: DURATION_REGEX_def seqs.simps)
  then have "leaves DURATION_REGEX (duration_text w d h None s) []" by (simp add: duration_text_def)
  then show ?thesis by (auto simp: regex_test_leaves)
qed

lemma number_before_letter: "\<not> is_digit c \<Longrightarrow> c \<noteq> CHR ''.'' \<Longrightarrow> number_before u [] (c # s) = number_before u [] s"
  by simp

lemma dropWhile_until: "c \<notin> set x \<Longrightarrow> dropWhile (\<lambda>d. d \<noteq> c) (x @ c # y) = c # y"
  by (induction x) auto

lemma digits_avoid: "list_all is_digit x \<Longrightarrow> \<not> is_digit c \<Longrightarrow> c \<notin> set x"
  by (auto simp: list_all_iff)

lemma after_T_text: "after_T (duration_text w d h m s) = show_nat h @ ''H'' @ (case m of None \<Rightarrow> [] | Some n \<Rightarrow> show_nat n @ ''M'') @ show_nat s @ ''S''"
proof -
  have "CHR ''T'' \<notin> set (''P'' @ show_nat w @ ''W'' @ show_nat d @ ''D'')"
    using digits_avoid [OF show_nat_digits no_digit_units(4)] by simp
  from dropWhile_until [OF this] show ?thesis by (simp add: after_T_def duration_text_def)
qed

lemma text_parts:
  "number_before (CHR ''W'') [] (duration_text w d h None s) = Some (show_nat w)"
  "number_before (CHR ''D'') [] (duration_text w d h None s) = Some (show_nat d)"
  "number_before (CHR ''H'') [] (after_T (duration_text w d h None s)) = Some (show_nat h)"
  "number_before (CHR ''M'') [] (after_T (duration_text w d h None s)) = None"
  "number_before (CHR ''S'') [] (after_T (duration_text w d h None s)) = Some (show_nat s)"
  unfolding after_T_text by (simp_all add: duration_text_def number_before_letter number_before_run show_nat_digits no_digit_units)

lemma fl53_nat: "n \<le> 2 ^ 53 \<Longrightarrow> fl53 (of_nat n) = of_nat n"
proof -
  assume "n \<le> 2 ^ 53"
  then have "int n \<le> 2 ^ 53" by (metis of_nat_le_iff of_nat_numeral of_nat_power)
  then have "fl53 (of_int (int n)) = of_int (int n)" by (intro fl53_int) simp
  then show "fl53 (of_nat n) = of_nat n" by simp
qed

lemma parseFloat_show_nat: "n \<le> 2 ^ 53 \<Longrightarrow> parseFloat (show_nat n) = of_nat n"
proof -
  have tk: "takeWhile is_digit (show_nat n) = show_nat n" "dropWhile is_digit (show_nat n) = []"
    using show_nat_digits [of n] unfolding list_all_iff by (simp_all only: takeWhile_eq_all_conv dropWhile_eq_Nil_conv)
  show "n \<le> 2 ^ 53 \<Longrightarrow> parseFloat (show_nat n) = of_nat n" by (simp add: parseFloat_def tk fl53_nat)
qed

lemma fmul_nat: "a * b \<le> 2 ^ 53 \<Longrightarrow> fmul (of_nat a) (of_nat b) = of_nat (a * b)"
  using fl53_nat [of "a * b"] by (simp add: fmul_def)

lemma fadd_nat: "a + b \<le> 2 ^ 53 \<Longrightarrow> fadd (of_nat a) (of_nat b) = of_nat (a + b)"
  using fl53_nat [of "a + b"] by (simp add: fadd_def)

text \<open>The value of a printed duration in milliseconds.\<close>

definition duration_ms :: "nat \<Rightarrow> nat \<Rightarrow> nat \<Rightarrow> nat \<Rightarrow> nat" where
  "duration_ms w d h s = (w * 7 * 24 * 60 * 60 + d * 24 * 60 * 60 + h * 60 * 60 + s) * 1000"

lemma duration_value:
  assumes "duration_ms w d h s \<le> 2 ^ 53"
  shows "parseIso8601DurationMs (duration_text w d h None s) = Some (of_nat (duration_ms w d h s))"
proof -
  let ?w = "w * 7 * 24 * 60 * 60" and ?d = "d * 24 * 60 * 60" and ?h = "h * 60 * 60"
  have b: "(?w + ?d + ?h + s) * 1000 \<le> 2 ^ 53" using assms by (simp only: duration_ms_def)
  have le: "w \<le> 2 ^ 53" "d \<le> 2 ^ 53" "h \<le> 2 ^ 53" "s \<le> 2 ^ 53" "w * 7 \<le> 2 ^ 53" "w * 7 * 24 \<le> 2 ^ 53" "w * 7 * 24 * 60 \<le> 2 ^ 53" "?w \<le> 2 ^ 53"
    "d * 24 \<le> 2 ^ 53" "d * 24 * 60 \<le> 2 ^ 53" "?d \<le> 2 ^ 53" "h * 60 \<le> 2 ^ 53" "?h \<le> 2 ^ 53" "?w + ?d \<le> 2 ^ 53" "?w + ?d + ?h \<le> 2 ^ 53" "?w + ?d + ?h + s \<le> 2 ^ 53"
    using b by simp_all
  have k: "(7 :: rat) = of_nat 7" "(24 :: rat) = of_nat 24" "(60 :: rat) = of_nat 60" "(1000 :: rat) = of_nat 1000" "(0 :: rat) = of_nat 0" by simp_all
  have "isFinite (to_double (of_int (int ((?w + ?d + ?h + s) * 1000))))"
    using b by (subst to_double_int) (simp_all only: of_nat_le_iff [symmetric, where 'a = int], simp_all)
  then have fin: "isFinite (to_double (of_nat ((?w + ?d + ?h + s) * 1000)))" by (simp only: of_int_of_nat_eq)
  have ms: "fmul (fadd (fadd (fadd (fadd (fmul (fmul (fmul (fmul (of_nat w) (of_nat 7)) (of_nat 24)) (of_nat 60)) (of_nat 60))
      (fmul (fmul (fmul (of_nat d) (of_nat 24)) (of_nat 60)) (of_nat 60)))
      (fmul (fmul (of_nat h) (of_nat 60)) (of_nat 60))) (fmul (of_nat 0) (of_nat 60))) (of_nat s)) (of_nat 1000)
    = of_nat ((?w + ?d + ?h + s) * 1000)"
    using le b by (simp only: fmul_nat fadd_nat mult_0 zero_le add_0_right)
  show ?thesis
    unfolding parseIso8601DurationMs_def calendar_unit_text text_parts Let_def amount_def option.case parseFloat_show_nat [OF le(1)]
      parseFloat_show_nat [OF le(2)] parseFloat_show_nat [OF le(3)] parseFloat_show_nat [OF le(4)] k ms
    using duration_text_accepted [of w d h s] fin by (simp add: duration_ms_def)
qed

section \<open>Lemmas: the envelope\<close>

lemma expired_fails [simp]: "expired ts ttl e now ctx \<noteq> Inr ()"
  by (simp add: expired_def nack_def split: option.splits)

definition ttl_ok :: "json option \<Rightarrow> int \<Rightarrow> int \<Rightarrow> bool" where
  "ttl_ok ttl t now = (case ttl of None \<Rightarrow> True | Some v \<Rightarrow> v = JStr []
     \<or> (case parseIso8601DurationMs (js_toString v) of None \<Rightarrow> False | Some ms \<Rightarrow> of_int now \<le> fadd (of_int t) ms))"

lemma ttl_step:
  "(case ttl of None \<Rightarrow> Inr () | Some v \<Rightarrow> if v = JStr [] then Inr ()
      else (case parseIso8601DurationMs (js_toString v) of
        None \<Rightarrow> nack BAD_TTL (msg v) ctx
      | Some ttlMs \<Rightarrow> let expiresAt = fadd (of_int t) ttlMs
         in if expiresAt < of_int now then expired ts (js_toString v) expiresAt now ctx else Inr ())) = Inr ()
   \<longleftrightarrow> ttl_ok ttl t now"
  by (auto simp: nack_def ttl_ok_def Let_def not_less split: option.split)

lemma envelope_ok [guards]:
  "validateBecknEnvelope parse ctx now = Inr () \<longleftrightarrow> field ctx ''version'' = Some (JStr ''2.0.0'')
     \<and> (\<exists>ts t. field ctx ''timestamp'' = Some (JStr ts) \<and> regex_test DATETIME_REGEX ts \<and> parse ts = Some t \<and> ttl_ok (field ctx ''ttl'') t now)"
proof (cases "field ctx ''timestamp''")
  case (Some v)
  show ?thesis
  proof (cases v)
    case (JStr ts)
    show ?thesis
      unfolding validateBecknEnvelope_def Some JStr Let_def [of "nack _ _ _"]
      by (cases "regex_test DATETIME_REGEX ts"; cases "parse ts") (simp_all add: ttl_step, simp_all add: nack_def)
  qed (simp_all add: validateBecknEnvelope_def nack_def Some)
qed (simp add: validateBecknEnvelope_def nack_def)

text \<open>A duration that the pre-check takes has no minutes.\<close>

lemma parsed_duration:
  assumes "parseIso8601DurationMs s = Some ms"
  shows "regex_test DURATION_REGEX s" "\<not> calendar_unit s"
  using assms by (auto simp: parseIso8601DurationMs_def split: if_splits)

lemma minutes_refused: "parseIso8601DurationMs (duration_text w d h (Some m) s) = None"
  using calendar_unit_text [of w d h "Some m" s] by (simp add: parseIso8601DurationMs_def)

section \<open>Properties\<close>

text \<open>A printed duration of weeks, days, hours and seconds is worth its exact number of milliseconds up to 2 to the power 53; as soon as it has minutes the pre-check refuses it.\<close>

theorem duration_is_exact:
  assumes "duration_ms w d h s \<le> 2 ^ 53"
  shows "parseIso8601DurationMs (duration_text w d h None s) = Some (of_nat (duration_ms w d h s))
    \<and> parseIso8601DurationMs (duration_text w d h (Some m) s) = None"
  using duration_value [OF assms] minutes_refused by simp

theorem duration_is_exact_witness:
  "parseIso8601DurationMs (duration_text 1 2 3 None 4) = Some 788404000 \<and> parseIso8601DurationMs (duration_text 1 2 3 (Some 5) 4) = None"
  using duration_is_exact [of 1 2 3 4 5] by (simp add: duration_ms_def)

text \<open>Wherever the envelope check has passed, the freshness check that every route repeats after the schema passes at the same instant: it never refuses a message.\<close>

theorem freshness_never_fires:
  assumes "validateBecknEnvelope parse ctx now = Inr ()"
  shows "validateBecknEnvelopeFreshness parse ctx now = Inr ()"
  using assms by (auto simp: envelope_ok validateBecknEnvelopeFreshness_def ttl_ok_def not_less Let_def split: option.splits json.splits)

theorem freshness_never_fires_witness:
  "validateBecknEnvelopeFreshness (\<lambda>ts. Some 1000) (Some (JObj [(''version'', JStr ''2.0.0''), (''timestamp'', JStr ''2026-01-01T00:00:00Z''),
     (''ttl'', JStr (duration_text 0 0 0 None 30))])) 2000 = Inr ()"
proof -
  have "regex_test DATETIME_REGEX ''2026-01-01T00:00:00Z''" by code_simp
  moreover have "fadd (of_int 1000) (of_nat (duration_ms 0 0 0 30)) = of_nat 31000"
    using fadd_nat [of 1000 30000] by (simp add: duration_ms_def)
  ultimately show ?thesis
    using duration_value [of 0 0 0 30] by (intro freshness_never_fires) (simp add: envelope_ok field_def own_field_def ttl_ok_def duration_ms_def)
qed

end
