(* ===== verification/Beckn_Schema.thy ===== *)
theory Beckn_Schema
  imports Beckn_Envelope
begin

text \<open>
  The message schemas of \<^verbatim>\<open>src/gateway/beckn-schemas.ts\<close> as data, and \<open>validateBecknRequest\<close> over a validator. \<open>conforms\<close> is
  the meaning of the keywords the schemas use, by the rules of JSON Schema; it is the specification the package \<open>ajv\<close> is
  assumed to meet (\<open>ajv_documented\<close>), not a model of its code. A pattern is the regular expression that the string literal of
  the source denotes: a backslash before a letter that has no escape is dropped there, so the digit classes of the \<open>ttl\<close>
  pattern are the letter \<open>d\<close> and its point is any character.
\<close>

section \<open>Schemas\<close>

datatype json_type = T_string | T_object | T_array | T_integer

datatype schema = Schema "keyword list"
and keyword =
    Type json_type
  | Required "string list"
  | Properties "(string \<times> schema) list"
  | AdditionalProperties bool
  | MinLength nat
  | Enum "string list"
  | Const string
  | Format string
  | Pattern regex
  | Items schema
  | MinItems nat
  | Minimum int

fun has_type :: "json_type \<Rightarrow> json \<Rightarrow> bool" where
  "has_type T_string (JStr _) = True"
| "has_type T_object (JObj _) = True"
| "has_type T_array (JArr _) = True"
| "has_type T_integer (JNum (JInt _)) = True"
| "has_type _ _ = False"

text \<open>The recursion of the validator descends in the schema.\<close>

lemma size_keyword: "k \<in> set ks \<Longrightarrow> size k < Suc (size_list size ks)"
  by (induction ks) auto

lemma size_property: "(n, s) \<in> set ps \<Longrightarrow> size (s :: schema) < Suc (size_list (size_prod (\<lambda>_. 0) size) ps)"
  by (induction ps) auto

text \<open>The keywords of one type do not constrain values of another; \<open>fmt\<close> decides the named formats.\<close>

function (sequential) conforms :: "(string \<Rightarrow> string \<Rightarrow> bool) \<Rightarrow> schema \<Rightarrow> json \<Rightarrow> bool"
  and satisfies :: "(string \<Rightarrow> string \<Rightarrow> bool) \<Rightarrow> keyword \<Rightarrow> json \<Rightarrow> bool" where
  "conforms fmt (Schema ks) v = list_all (\<lambda>k. satisfies fmt k v) ks"
| "satisfies fmt (Type t) v = has_type t v"
| "satisfies fmt (Required ns) (JObj kvs) = list_all (\<lambda>n. map_of kvs n \<noteq> None) ns"
| "satisfies fmt (Properties ps) (JObj kvs) = list_all (\<lambda>(n, s). case map_of kvs n of None \<Rightarrow> True | Some v \<Rightarrow> conforms fmt s v) ps"
| "satisfies fmt (MinLength n) (JStr s) = (n \<le> length s)"
| "satisfies fmt (Enum vs) v = (\<exists>s \<in> set vs. v = JStr s)"
| "satisfies fmt (Const c) v = (v = JStr c)"
| "satisfies fmt (Format f) (JStr s) = fmt f s"
| "satisfies fmt (Pattern r) (JStr s) = regex_test r s"
| "satisfies fmt (Items s) (JArr vs) = list_all (conforms fmt s) vs"
| "satisfies fmt (MinItems n) (JArr vs) = (n \<le> length vs)"
| "satisfies fmt (Minimum n) (JNum i) = js_leq (JInt n) i"
| "satisfies fmt _ v = True"
  by pat_completeness auto
termination
  by (relation "measure (\<lambda>x. case x of Inl (_, s, _) \<Rightarrow> size s | Inr (_, k, _) \<Rightarrow> size k)")
    (auto dest: size_keyword size_property)

section \<open>The schemas of the gateway\<close>

datatype BecknAction = search | select | init | confirm | status | cancel | rating | support
  | on_search | on_select | on_init | on_confirm | on_status | on_cancel | on_rating | on_support

definition ACTIONS :: "string list" where
  "ACTIONS = [''search'', ''select'', ''init'', ''confirm'', ''status'', ''cancel'', ''rating'', ''support'',
     ''on_search'', ''on_select'', ''on_init'', ''on_confirm'', ''on_status'', ''on_cancel'', ''on_rating'', ''on_support'']"

definition str :: schema where
  "str = Schema [Type T_string]"

definition str1 :: schema where
  "str1 = Schema [Type T_string, MinLength 1]"

definition str_format :: "string \<Rightarrow> schema" where
  "str_format f = Schema [Type T_string, Format f]"

definition any_object :: schema where
  "any_object = Schema [Type T_object, AdditionalProperties True]"

definition object_of :: "string list \<Rightarrow> (string \<times> schema) list \<Rightarrow> schema" where
  "object_of req ps = Schema ([Type T_object] @ (if req = [] then [] else [Required req]) @ [Properties ps, AdditionalProperties True])"

definition array_of :: "nat \<Rightarrow> schema \<Rightarrow> schema" where
  "array_of n s = Schema ([Type T_array] @ (if n = 0 then [] else [MinItems n]) @ [Items s])"

text \<open>The pattern as the string literal of the source denotes it.\<close>

definition d_part :: "string \<Rightarrow> regex" where
  "d_part u = Opt (Seq (Plus (\<lambda>c. c = CHR ''d'')) (Lit u))"

definition ttl_pattern :: regex where
  "ttl_pattern = seqs [Lit ''P'', NotEnd, d_part ''Y'', d_part ''M'', d_part ''W'', d_part ''D'',
     Opt (seqs [Lit ''T'', Ahead (Lit ''d''), d_part ''H'', d_part ''M'',
       Opt (seqs [Plus (\<lambda>c. c = CHR ''d''), Opt (Seq (Times 1 (\<lambda>c. code c \<noteq> 10 \<and> code c \<noteq> 13)) (Plus (\<lambda>c. c = CHR ''d''))), Lit ''S''])]), End]"

definition becknContextSchema :: schema where
  "becknContextSchema = object_of
     [''domain'', ''action'', ''version'', ''bap_id'', ''bap_uri'', ''transaction_id'', ''message_id'', ''timestamp'']
     [(''domain'', str1),
      (''action'', Schema [Type T_string, Enum ACTIONS]),
      (''version'', Schema [Type T_string, Const ''2.0.0'']),
      (''bap_id'', str1),
      (''bap_uri'', str_format ''uri''),
      (''bpp_id'', str1),
      (''bpp_uri'', str_format ''uri''),
      (''transaction_id'', str_format ''uuid''),
      (''message_id'', str_format ''uuid''),
      (''timestamp'', str_format ''date-time''),
      (''ttl'', Schema [Type T_string, Pattern ttl_pattern]),
      (''location'', Schema [Type T_object])]"

definition descriptorSchema :: schema where
  "descriptorSchema = object_of [] [(''name'', str), (''code'', str), (''short_desc'', str), (''long_desc'', str),
     (''images'', array_of 0 (object_of [] [(''url'', str_format ''uri''), (''size_type'', str)]))]"

definition intentSchema :: schema where
  "intentSchema = object_of []
     [(''item'', object_of [] [(''descriptor'', descriptorSchema), (''category_ids'', array_of 0 str)]),
      (''provider'', object_of [] [(''descriptor'', descriptorSchema), (''categories'', array_of 0 any_object),
         (''locations'', array_of 0 any_object)]),
      (''fulfillment'', object_of [] [(''type'', str), (''stops'', array_of 0 any_object)]),
      (''payment'', object_of [] [(''type'', str), (''collected_by'', str)]),
      (''tags'', array_of 0 any_object)]"

definition priceSchema :: schema where
  "priceSchema = object_of [] [(''currency'', str), (''value'', str)]"

definition itemSchema :: schema where
  "itemSchema = object_of [''id'']
     [(''id'', str1),
      (''quantity'', object_of [] [(''selected'', object_of [] [(''count'', Schema [Type T_integer, Minimum 1])])]),
      (''descriptor'', descriptorSchema),
      (''price'', priceSchema)]"

definition orderProviderSchema :: schema where
  "orderProviderSchema = object_of [''id'']
     [(''id'', str1), (''descriptor'', descriptorSchema), (''locations'', array_of 0 any_object)]"

definition fulfillmentSchema :: schema where
  "fulfillmentSchema = object_of []
     [(''id'', str), (''type'', str),
      (''customer'', object_of []
         [(''person'', object_of [] [(''name'', str)]),
          (''contact'', object_of [] [(''email'', str_format ''email''), (''phone'', str)])]),
      (''stops'', array_of 0 any_object)]"

definition billingSchema :: schema where
  "billingSchema = object_of [''name'']
     [(''name'', str1), (''address'', str), (''email'', str_format ''email''), (''phone'', str), (''tax_id'', str)]"

definition requestEnvelope :: "schema \<Rightarrow> schema" where
  "requestEnvelope messageSchema = object_of [''context'', ''message''] [(''context'', becknContextSchema), (''message'', messageSchema)]"

definition order_message :: "string list \<Rightarrow> (string \<times> schema) list \<Rightarrow> schema" where
  "order_message req ps = requestEnvelope (object_of [''order''] [(''order'', object_of req ps)])"

definition searchSchema :: schema where
  "searchSchema = requestEnvelope (object_of [''intent''] [(''intent'', intentSchema)])"

definition selectSchema :: schema where
  "selectSchema = order_message [''provider'', ''items'']
     [(''provider'', orderProviderSchema), (''items'', array_of 1 itemSchema),
      (''fulfillments'', array_of 0 fulfillmentSchema), (''payments'', array_of 0 any_object)]"

definition initSchema :: schema where
  "initSchema = order_message [''provider'', ''items'', ''billing'', ''fulfillments'']
     [(''provider'', orderProviderSchema), (''items'', array_of 1 itemSchema), (''billing'', billingSchema),
      (''fulfillments'', array_of 1 fulfillmentSchema), (''payments'', array_of 0 any_object)]"

definition confirmSchema :: schema where
  "confirmSchema = order_message [''id'', ''state'']
     [(''id'', str1), (''state'', str1), (''provider'', orderProviderSchema), (''items'', array_of 1 itemSchema),
      (''billing'', billingSchema), (''fulfillments'', array_of 0 fulfillmentSchema), (''payments'', array_of 0 any_object)]"

definition onSearchSchema :: schema where
  "onSearchSchema = requestEnvelope (object_of [''catalog''] [(''catalog'', object_of [''providers'']
     [(''descriptor'', descriptorSchema),
      (''providers'', array_of 1 (object_of [''id'']
         [(''id'', str1), (''descriptor'', descriptorSchema), (''categories'', array_of 0 any_object),
          (''items'', array_of 0 itemSchema), (''locations'', array_of 0 any_object), (''fulfillments'', array_of 0 any_object)]))])])"

definition quoteSchema :: schema where
  "quoteSchema = object_of [] [(''price'', priceSchema), (''breakup'', array_of 0 any_object)]"

definition onSelectSchema :: schema where
  "onSelectSchema = order_message [''provider'', ''items'']
     [(''provider'', orderProviderSchema), (''items'', array_of 1 itemSchema),
      (''fulfillments'', array_of 0 fulfillmentSchema), (''quote'', quoteSchema)]"

definition onInitSchema :: schema where
  "onInitSchema = order_message [''provider'', ''items'', ''billing'', ''fulfillments'']
     [(''provider'', orderProviderSchema), (''items'', array_of 1 itemSchema), (''billing'', billingSchema),
      (''fulfillments'', array_of 1 fulfillmentSchema),
      (''payments'', array_of 0 (object_of [] [(''type'', str), (''params'', any_object), (''status'', str)])),
      (''quote'', quoteSchema)]"

definition onConfirmSchema :: schema where
  "onConfirmSchema = order_message [''id'', ''state'']
     [(''id'', str1), (''state'', str1), (''provider'', orderProviderSchema), (''items'', array_of 1 itemSchema),
      (''billing'', billingSchema), (''fulfillments'', array_of 0 fulfillmentSchema), (''payments'', array_of 0 any_object)]"

text \<open>The registry: eight actions have a schema.\<close>

fun SCHEMAS :: "BecknAction \<Rightarrow> schema option" where
  "SCHEMAS search = Some searchSchema"
| "SCHEMAS select = Some selectSchema"
| "SCHEMAS init = Some initSchema"
| "SCHEMAS confirm = Some confirmSchema"
| "SCHEMAS on_search = Some onSearchSchema"
| "SCHEMAS on_select = Some onSelectSchema"
| "SCHEMAS on_init = Some onInitSchema"
| "SCHEMAS on_confirm = Some onConfirmSchema"
| "SCHEMAS _ = None"

record validation_error =
  ve_path :: string
  ve_reason :: string

text \<open>An error of the validator: \<open>instancePath\<close>, \<open>keyword\<close>, \<open>message\<close>.\<close>

type_synonym ajv_error = "string \<times> string \<times> string option"

type_synonym ajv = "schema \<Rightarrow> json option \<Rightarrow> ajv_error list"

fun action_name :: "BecknAction \<Rightarrow> string" where
  "action_name search = ''search''" | "action_name select = ''select''" | "action_name init = ''init''"
| "action_name confirm = ''confirm''" | "action_name status = ''status''" | "action_name cancel = ''cancel''"
| "action_name rating = ''rating''" | "action_name support = ''support''" | "action_name on_search = ''on_search''"
| "action_name on_select = ''on_select''" | "action_name on_init = ''on_init''" | "action_name on_confirm = ''on_confirm''"
| "action_name on_status = ''on_status''" | "action_name on_cancel = ''on_cancel''" | "action_name on_rating = ''on_rating''"
| "action_name on_support = ''on_support''"

definition validateBecknRequest :: "ajv \<Rightarrow> BecknAction \<Rightarrow> json option \<Rightarrow> (validation_error list, unit) result" where
  "validateBecknRequest ajv action body = (case SCHEMAS action of
       None \<Rightarrow> Inl [\<lparr>ve_path = [], ve_reason = ''action not yet wired (FN-087): '' @ action_name action\<rparr>]
     | Some s \<Rightarrow> (case ajv s body of [] \<Rightarrow> Inr ()
         | es \<Rightarrow> Inl (map (\<lambda>(path, kw, msg). \<lparr>ve_path = (if path = [] then ''/'' else path),
             ve_reason = kw @ '': '' @ (case msg of None \<Rightarrow> ''(no message)'' | Some m \<Rightarrow> m)\<rparr>) es)))"

text \<open>What the code relies on: the validator finds no error exactly in the values that conform.\<close>

definition ajv_documented :: "(string \<Rightarrow> string \<Rightarrow> bool) \<Rightarrow> ajv \<Rightarrow> bool" where
  "ajv_documented fmt ajv \<longleftrightarrow> (\<forall>s v. ajv s v = [] \<longleftrightarrow> (case v of None \<Rightarrow> False | Some x \<Rightarrow> conforms fmt s x))"

section \<open>Lemmas\<close>

lemma d_part_head: "leaves (d_part u) s t \<Longrightarrow> t = s \<or> head_in (\<lambda>c. c = CHR ''d'') s"
  by (auto simp: d_part_def matching head_in_append)

text \<open>What the pattern takes after the \<open>P\<close>: a letter \<open>d\<close>, or a \<open>T\<close> and a letter \<open>d\<close>.\<close>

lemma ttl_pattern_head:
  assumes "regex_test ttl_pattern s"
  shows "\<exists>r. s = ''P'' @ r \<and> (head_in (\<lambda>c. c = CHR ''d'') r \<or> (\<exists>r'. r = ''T'' @ r' \<and> head_in (\<lambda>c. c = CHR ''d'') r'))"
proof -
  obtain r a b c e where r: "s = ''P'' @ r" "r \<noteq> []" "leaves (d_part ''Y'') r a" "leaves (d_part ''M'') a b" "leaves (d_part ''W'') b c"
      "leaves (d_part ''D'') c e"
    and t: "e = [] \<or> (\<exists>f. e = ''T'' @ f \<and> head_in (\<lambda>c. c = CHR ''d'') f)"
    using assms unfolding regex_test_leaves ttl_pattern_def
    by (auto simp: leaves_simps(2-7) leaves_Lit head_in_def)
  then show ?thesis using d_part_head [OF r(3)] d_part_head [OF r(4)] d_part_head [OF r(5)] d_part_head [OF r(6)] by auto
qed

lemma duration_fails_pattern: "regex_test DURATION_REGEX s \<Longrightarrow> \<not> regex_test ttl_pattern s"
  using duration_head [of s] ttl_pattern_head [of s] no_digit_units by (fastforce simp: head_in_def)

lemma wired: "SCHEMAS action = Some s \<Longrightarrow> \<exists>m. s = requestEnvelope m"
  by (cases action) (auto simp: searchSchema_def selectSchema_def initSchema_def confirmSchema_def onSearchSchema_def onSelectSchema_def
      onInitSchema_def onConfirmSchema_def order_message_def)

lemma request_valid:
  assumes "ajv_documented fmt ajv" "validateBecknRequest ajv action body = Inr ()"
  obtains m kvs c where "SCHEMAS action = Some (requestEnvelope m)" "body = Some (JObj kvs)" "map_of kvs ''context'' = Some c"
    "conforms fmt becknContextSchema c" "map_of kvs ''message'' \<noteq> None" "conforms fmt m (the (map_of kvs ''message''))"
proof -
  obtain s where s: "SCHEMAS action = Some s" "ajv s body = []"
    using assms(2) by (auto simp: validateBecknRequest_def split: option.splits list.splits)
  obtain m where r: "s = requestEnvelope m" using wired [OF s(1)] by blast
  obtain v where m: "s = requestEnvelope m" "body = Some v" "conforms fmt s v"
    using s(2) assms(1) r by (cases body) (auto simp: ajv_documented_def)
  then show ?thesis
    using that s(1) by (cases v) (auto simp: requestEnvelope_def object_of_def split: option.splits)
qed

text \<open>The members of the context that the routes read are strings.\<close>

lemma context_fields:
  assumes "conforms fmt becknContextSchema c"
  obtains kvs where "c = JObj kvs" "\<exists>d. map_of kvs ''transaction_id'' = Some (JStr d) \<and> fmt ''uuid'' d"
    "\<exists>d. map_of kvs ''bap_id'' = Some (JStr d) \<and> d \<noteq> []"
    "\<And>v. map_of kvs ''ttl'' = Some v \<Longrightarrow> \<exists>d. v = JStr d \<and> regex_test ttl_pattern d"
proof -
  obtain kvs where c: "c = JObj kvs" using assms by (cases c) (auto simp: becknContextSchema_def object_of_def)
  have str: "\<exists>s. v = JStr s" if "has_type T_string v" for v using that by (cases v) simp_all
  show ?thesis
  proof (rule that [OF c])
    show "\<exists>d. map_of kvs ''transaction_id'' = Some (JStr d) \<and> fmt ''uuid'' d"
      using assms by (auto simp: c becknContextSchema_def object_of_def str_format_def dest!: str)
    show "\<exists>d. map_of kvs ''bap_id'' = Some (JStr d) \<and> d \<noteq> []"
      using assms by (auto simp: c becknContextSchema_def object_of_def str1_def dest!: str)
    show "\<exists>d. v = JStr d \<and> regex_test ttl_pattern d" if "map_of kvs ''ttl'' = Some v" for v
      using assms that by (auto simp: c becknContextSchema_def object_of_def dest!: str)
  qed
qed

section \<open>Properties\<close>

text \<open>C36. A message that passes the envelope check and the schema of any action carries no time to live: each check takes only values of \<open>ttl\<close> that the other refuses.\<close>

theorem no_ttl_passes:
  assumes "ajv_documented fmt ajv" "validateBecknEnvelope parse (field body ''context'') now = Inr ()"
    and "validateBecknRequest ajv action body = Inr ()"
  shows "field (field body ''context'') ''ttl'' = None"
proof (rule ccontr)
  assume ttl: "field (field body ''context'') ''ttl'' \<noteq> None"
  obtain m kvs c where c: "body = Some (JObj kvs)" "map_of kvs ''context'' = Some c" "conforms fmt becknContextSchema c"
    using request_valid [OF assms(1,3)] by metis
  obtain cs where cs: "c = JObj cs" and t: "\<And>v. map_of cs ''ttl'' = Some v \<Longrightarrow> \<exists>d. v = JStr d \<and> regex_test ttl_pattern d"
    using context_fields [OF c(3)] by metis
  have f: "field (field body ''context'') ''ttl'' = map_of cs ''ttl''" by (simp add: field_def own_field_def c cs)
  then obtain d where d: "map_of cs ''ttl'' = Some (JStr d)" "regex_test ttl_pattern d" using ttl t by auto
  have "d = [] \<or> (\<exists>ms. parseIso8601DurationMs d = Some ms)"
    using assms(2) d(1) by (auto simp: envelope_ok f ttl_ok_def split: option.splits)
  then show False
    using duration_fails_pattern parsed_duration(1) d(2) ttl_pattern_head [OF d(2)] by auto
qed

definition demo_ajv :: ajv where
  "demo_ajv s v = (case v of None \<Rightarrow> [([], ''type'', None)] | Some x \<Rightarrow> if conforms (\<lambda>_ _. True) s x then [] else [([], ''type'', None)])"

lemma demo_ajv_documented: "ajv_documented (\<lambda>_ _. True) demo_ajv"
  by (simp add: ajv_documented_def demo_ajv_def split: option.splits)

definition demo_context :: "string \<Rightarrow> json" where
  "demo_context action = JObj [(''domain'', JStr ''retail''), (''action'', JStr action), (''version'', JStr ''2.0.0''), (''bap_id'', JStr ''bap''),
     (''bap_uri'', JStr ''https://bap.example''), (''bpp_id'', JStr ''bpp''), (''transaction_id'', JStr ''t1''), (''message_id'', JStr ''m1''),
     (''timestamp'', JStr ''2026-01-01T00:00:00Z'')]"

definition demo_search :: json where
  "demo_search = JObj [(''context'', demo_context ''search''), (''message'', JObj [(''intent'', JObj [])])]"

lemma demo_envelope: "validateBecknEnvelope (\<lambda>_. Some 0) (Some (demo_context a)) 0 = Inr ()"
proof -
  have "regex_test DATETIME_REGEX ''2026-01-01T00:00:00Z''" by code_simp
  then show ?thesis by (simp add: envelope_ok field_def own_field_def demo_context_def ttl_ok_def)
qed

lemma demo_search_valid: "validateBecknRequest demo_ajv search (Some demo_search) = Inr ()"
  by (simp add: validateBecknRequest_def demo_ajv_def searchSchema_def requestEnvelope_def object_of_def becknContextSchema_def str_def str1_def
      str_format_def intentSchema_def demo_search_def demo_context_def ACTIONS_def)

theorem no_ttl_passes_witness: "field (field (Some demo_search) ''context'') ''ttl'' = None"
proof (rule no_ttl_passes [OF demo_ajv_documented _ demo_search_valid])
  show "validateBecknEnvelope (\<lambda>_. Some 0) (field (Some demo_search) ''context'') 0 = Inr ()"
    using demo_envelope by (simp add: demo_search_def field_def own_field_def)
qed

end
