(* ===== verification/Beckn_Gateway.thy ===== *)
theory Beckn_Gateway
  imports Beckn_Schema "HOL-Library.Sublist"
begin

text \<open>
  The message routes of the gateway: \<^verbatim>\<open>src/gateway/inbound-bap.ts\<close> (\<open>/search\<close>, \<open>/select\<close>), \<^verbatim>\<open>outbound-bap.ts\<close> (\<open>/on_search\<close> and the
  search trigger), \<^verbatim>\<open>inbound-bpp.ts\<close> (\<open>/on_confirm\<close>, \<open>/on_select\<close> and the confirm trigger) and the plain routes of \<^verbatim>\<open>beckn.ts\<close>.
  Each handler runs without a pause up to its call of the chain, so a run of the gateway is a sequence of handled requests; the state
  is the set of seen transactions and the log of the chain calls, each with the body it came from. The signature verifier, the
  validator, \<open>Date.parse\<close>, the chain call and the rate limiter's verdict (\<open>rq_limited\<close>) are parameters.
\<close>

section \<open>Requests and answers\<close>

record http_request =
  rq_body :: "json option"
  rq_authorization :: "string option"
  rq_content_type :: "string option"
  rq_limited :: bool

datatype error_details = DText string | DErrors "validation_error list"

datatype reply_body =
    NackReply NackBody
  | ErrorReply string error_details
  | AckReply "json option" "string option"
  | Limited

text \<open>An exception outside the \<open>try\<close> of an asynchronous handler leaves the request without an answer.\<close>

datatype reply = Reply int reply_body | Unanswered

text \<open>The arguments of the chain calls. A field that is \<open>undefined\<close> is \<open>None\<close>.\<close>

record SearchArgs =
  sa_network_id :: string
  sa_bap_id :: "json option"
  sa_intent_hash :: string
  sa_tag_filter :: "string list"
  sa_max_responses :: jsnumber
  sa_deadline_slot :: jsnumber
  sa_caller_pubkey :: "string option"

record SelectArgs =
  se_bap_id :: "json option"
  se_catalog_response_pda :: "json option"
  se_network :: string
  se_caller_pubkey :: "string option"

record CatalogArgs =
  ca_bpp_id :: "json option"
  ca_transaction_id :: "json option"
  ca_catalog_uri :: json
  ca_catalog_hash :: json
  ca_providers :: json
  ca_received_at_iso :: string

record OutcomeArgs =
  oa_bpp_id :: "json option"
  oa_bap_id :: "json option"
  oa_task_pda :: "json option"
  oa_fulfillment_uri :: json
  oa_state :: json
  oa_received_at_iso :: string
  oa_caller_pubkey :: "string option"

datatype submission = SubmitSearch SearchArgs | SubmitSelect SelectArgs | PublishCatalogResponse CatalogArgs
  | CompleteTask OutcomeArgs | FailTask OutcomeArgs

record gateway_state =
  gw_seen :: "string list"
  gw_log :: "(json option \<times> submission) list"

record GatewayDeps =
  gd_verify :: "(http_request \<Rightarrow> string option) option"
  gd_ajv :: ajv
  gd_parse :: "string \<Rightarrow> int option"
  gd_sha :: "nat list \<Rightarrow> nat list"
  gd_submit :: "(json option \<times> submission) list \<Rightarrow> submission \<Rightarrow> (string, string) result"
  gd_expectedBpps :: "string list option"
  gd_requireSignature :: bool

section \<open>The checks of the routes\<close>

definition caller_of :: "GatewayDeps \<Rightarrow> http_request \<Rightarrow> (reply, string option) result" where
  "caller_of d req = (case gd_verify d of None \<Rightarrow> Inr None
     | Some verify \<Rightarrow> (case verify req of
         None \<Rightarrow> Inl (Reply 401 (ErrorReply ''invalid_signature'' (DText ''BAP signature verification failed'')))
       | Some k \<Rightarrow> Inr (Some (to_lower k))))"

definition envelope_reply :: "(envelope_failure, unit) result \<Rightarrow> (reply, unit) result" where
  "envelope_reply r = (case r of Inr u \<Rightarrow> Inr u | Inl (Nack b) \<Rightarrow> Inl (Reply 400 (NackReply b)) | Inl RangeError \<Rightarrow> Inl Unanswered)"

text \<open>Envelope, schema, freshness.\<close>

definition checks :: "GatewayDeps \<Rightarrow> BecknAction \<Rightarrow> int \<Rightarrow> http_request \<Rightarrow> (reply, unit) result" where
  "checks d action now req = (let ctx = field (rq_body req) ''context'' in
     bind_result (envelope_reply (validateBecknEnvelope (gd_parse d) ctx now)) (\<lambda>_.
       case validateBecknRequest (gd_ajv d) action (rq_body req) of
         Inl errors \<Rightarrow> Inl (Reply 400 (ErrorReply ''beckn_validation_failed'' (DErrors errors)))
       | Inr _ \<Rightarrow> envelope_reply (validateBecknEnvelopeFreshness (gd_parse d) ctx now)))"

section \<open>Translation to chain arguments\<close>

definition sha256_hex :: "(nat list \<Rightarrow> nat list) \<Rightarrow> string \<Rightarrow> string" where
  "sha256_hex sha s = to_hex (sha (utf8 s))"

definition deriveNetworkId :: "(nat list \<Rightarrow> nat list) \<Rightarrow> json option \<Rightarrow> string" where
  "deriveNetworkId sha domain = (case domain of Some (JStr d) \<Rightarrow> if d = [] then replicate 64 (CHR ''0'') else sha256_hex sha d
     | _ \<Rightarrow> replicate 64 (CHR ''0''))"

definition string_code :: "json option \<Rightarrow> string list" where
  "string_code v = (case field v ''code'' of Some (JStr c) \<Rightarrow> [c] | _ \<Rightarrow> [])"

definition tag_codes :: "json \<Rightarrow> string list" where
  "tag_codes t = (case t of JStr s \<Rightarrow> [s] | _ \<Rightarrow> string_code (own_field t ''descriptor''))"

definition extractTags :: "json \<Rightarrow> string list" where
  "extractTags intent = string_code (field (own_field intent ''category'') ''descriptor'')
     @ (case own_field intent ''tags'' of Some (JArr ts) \<Rightarrow> concat (map tag_codes ts) | _ \<Rightarrow> [])"

text \<open>\<open>v ?? {}\<close>.\<close>

definition or_empty :: "json option \<Rightarrow> json" where
  "or_empty v = (case v of None \<Rightarrow> JObj [] | Some JNull \<Rightarrow> JObj [] | Some x \<Rightarrow> x)"

definition number_or :: "json option \<Rightarrow> int \<Rightarrow> jsnumber" where
  "number_or v n = (case v of Some (JNum x) \<Rightarrow> x | _ \<Rightarrow> JInt n)"

definition becknSearchToOnChainArgs :: "(nat list \<Rightarrow> nat list) \<Rightarrow> json option \<Rightarrow> string option \<Rightarrow> SearchArgs" where
  "becknSearchToOnChainArgs sha body callerPubkey = (let ctx = field body ''context''; intent = or_empty (field (field body ''message'') ''intent'')
     in \<lparr>sa_network_id = deriveNetworkId sha (field ctx ''domain''), sa_bap_id = field ctx ''bap_id'',
         sa_intent_hash = sha256_hex sha (canonicalJson intent), sa_tag_filter = extractTags intent,
         sa_max_responses = number_or (own_field intent ''max_responses'') 10,
         sa_deadline_slot = number_or (field ctx ''ttl_slot'') 0, sa_caller_pubkey = callerPubkey\<rparr>)"

definition becknSelectToOnChainArgs :: "(nat list \<Rightarrow> nat list) \<Rightarrow> json option \<Rightarrow> string option \<Rightarrow> SelectArgs" where
  "becknSelectToOnChainArgs sha body callerPubkey = (let ctx = field body ''context'' in
     \<lparr>se_bap_id = field ctx ''bap_id'', se_catalog_response_pda = field (field (field (field body ''message'') ''order'') ''provider'') ''id'',
      se_network = deriveNetworkId sha (field ctx ''domain''), se_caller_pubkey = callerPubkey\<rparr>)"

text \<open>\<open>v ?? w\<close>.\<close>

definition nullish_or :: "json option \<Rightarrow> json \<Rightarrow> json" where
  "nullish_or v w = (case v of None \<Rightarrow> w | Some JNull \<Rightarrow> w | Some x \<Rightarrow> x)"

definition becknOnSearchToCatalogResponse :: "string \<Rightarrow> json option \<Rightarrow> CatalogArgs" where
  "becknOnSearchToCatalogResponse received body = (let ctx = field body ''context''; catalog = field (field body ''message'') ''catalog''
     in \<lparr>ca_bpp_id = field ctx ''bpp_id'', ca_transaction_id = field ctx ''transaction_id'',
         ca_catalog_uri = nullish_or (field catalog ''uri'') JNull, ca_catalog_hash = nullish_or (field catalog ''hash'') JNull,
         ca_providers = nullish_or (field catalog ''providers'') (JArr []), ca_received_at_iso = received\<rparr>)"

definition first_item :: "json option \<Rightarrow> json option" where
  "first_item v = (case v of Some (JArr (x # _)) \<Rightarrow> Some x | _ \<Rightarrow> None)"

definition becknOnConfirmToTaskOutcome :: "string \<Rightarrow> json option \<Rightarrow> string option \<Rightarrow> OutcomeArgs" where
  "becknOnConfirmToTaskOutcome received body callerPubkey = (let ctx = field body ''context''; order = field (field body ''message'') ''order'';
       fulfillment = field order ''fulfillment''
     in \<lparr>oa_bpp_id = field ctx ''bpp_id'', oa_bap_id = field ctx ''bap_id'', oa_task_pda = field order ''id'',
         oa_fulfillment_uri = nullish_or (field (field fulfillment ''tracking'') ''url'')
           (nullish_or (field (first_item (field fulfillment ''artifacts'')) ''url'') (JStr [])),
         oa_state = nullish_or (field order ''state'') (JStr ''UNKNOWN''), oa_received_at_iso = received,
         oa_caller_pubkey = callerPubkey\<rparr>)"

section \<open>Routes\<close>

text \<open>A call of the chain: the log grows before its outcome is known.\<close>

definition chain_submit :: "GatewayDeps \<Rightarrow> http_request \<Rightarrow> submission \<Rightarrow> gateway_state \<Rightarrow> (string, string) result \<times> gateway_state" where
  "chain_submit d req s st = (gd_submit d (gw_log st) s, st\<lparr>gw_log := gw_log st @ [(rq_body req, s)]\<rparr>)"

definition route_search :: "GatewayDeps \<Rightarrow> int \<Rightarrow> http_request \<Rightarrow> gateway_state \<Rightarrow> reply \<times> gateway_state" where
  "route_search d now req st = (case caller_of d req of Inl r \<Rightarrow> (r, st)
     | Inr callerPubkey \<Rightarrow> (case checks d search now req of Inl r \<Rightarrow> (r, st)
     | Inr _ \<Rightarrow> (case chain_submit d req (SubmitSearch (becknSearchToOnChainArgs (gd_sha d) (rq_body req) callerPubkey)) st of
         (Inr tx, st') \<Rightarrow> (Reply 202 (AckReply (field (rq_body req) ''context'') (Some tx)), st')
       | (Inl e, st') \<Rightarrow> (Reply 500 (ErrorReply ''on_chain_submission_failed'' (DText e)), st'))))"

definition route_select :: "GatewayDeps \<Rightarrow> int \<Rightarrow> http_request \<Rightarrow> gateway_state \<Rightarrow> reply \<times> gateway_state" where
  "route_select d now req st = (case caller_of d req of Inl r \<Rightarrow> (r, st)
     | Inr callerPubkey \<Rightarrow> (case checks d select now req of Inl r \<Rightarrow> (r, st)
     | Inr _ \<Rightarrow> (case chain_submit d req (SubmitSelect (becknSelectToOnChainArgs (gd_sha d) (rq_body req) callerPubkey)) st of
         (Inr tx, st') \<Rightarrow> (Reply 202 (AckReply (field (rq_body req) ''context'') (Some tx)), st')
       | (Inl e, st') \<Rightarrow> (Reply 500 (ErrorReply ''on_chain_submission_failed'' (DText e)), st'))))"

definition route_on_search :: "GatewayDeps \<Rightarrow> int \<Rightarrow> string \<Rightarrow> http_request \<Rightarrow> gateway_state \<Rightarrow> reply \<times> gateway_state" where
  "route_on_search d now received req st = (case checks d on_search now req of Inl r \<Rightarrow> (r, st)
     | Inr _ \<Rightarrow> (case chain_submit d req (PublishCatalogResponse (becknOnSearchToCatalogResponse received (rq_body req))) st of
         (Inr tx, st') \<Rightarrow> (Reply 200 (AckReply None (Some tx)), st')
       | (Inl e, st') \<Rightarrow> (Reply 500 (ErrorReply ''submission_failed'' (DText e)), st')))"

definition route_on_select :: "GatewayDeps \<Rightarrow> int \<Rightarrow> http_request \<Rightarrow> gateway_state \<Rightarrow> reply \<times> gateway_state" where
  "route_on_select d now req st = (case checks d on_select now req of Inl r \<Rightarrow> (r, st)
     | Inr _ \<Rightarrow> (Reply 200 (AckReply (field (rq_body req) ''context'') None), st))"

definition string_field :: "json option \<Rightarrow> string \<Rightarrow> string option" where
  "string_field v k = (case field v k of Some (JStr s) \<Rightarrow> Some s | _ \<Rightarrow> None)"

text \<open>The transaction of a message, unless it is the empty text.\<close>

definition transaction_of :: "json option \<Rightarrow> string option" where
  "transaction_of body = (case string_field (field body ''context'') ''transaction_id'' of Some t \<Rightarrow> if t = [] then None else Some t | None \<Rightarrow> None)"

definition bpp_allowed :: "GatewayDeps \<Rightarrow> json option \<Rightarrow> bool" where
  "bpp_allowed d body = (case gd_expectedBpps d of None \<Rightarrow> True
     | Some allowed \<Rightarrow> (case string_field (field body ''context'') ''bpp_id'' of None \<Rightarrow> False | Some b \<Rightarrow> b \<noteq> [] \<and> b \<in> set allowed))"

definition order_done :: "json option \<Rightarrow> bool" where
  "order_done body = (string_field (field (field body ''message'') ''order'') ''state'' \<in> {Some ''COMPLETED'', Some ''FULFILLED''})"

definition confirm_task :: "GatewayDeps \<Rightarrow> string \<Rightarrow> http_request \<Rightarrow> string option \<Rightarrow> gateway_state \<Rightarrow> reply \<times> gateway_state" where
  "confirm_task d received req callerPubkey st = (let args = becknOnConfirmToTaskOutcome received (rq_body req) callerPubkey in
     case chain_submit d req (if order_done (rq_body req) then CompleteTask args else FailTask args) st of
       (Inr tx, st') \<Rightarrow> (Reply 200 (AckReply None (Some tx)), st')
     | (Inl e, st') \<Rightarrow> (Reply 500 (ErrorReply ''submission_failed'' (DText e)), st'))"

definition route_on_confirm :: "GatewayDeps \<Rightarrow> int \<Rightarrow> string \<Rightarrow> http_request \<Rightarrow> gateway_state \<Rightarrow> reply \<times> gateway_state" where
  "route_on_confirm d now received req st = (
     if rq_limited req then (Reply 429 Limited, st)
     else (case checks d on_confirm now req of Inl r \<Rightarrow> (r, st)
     | Inr _ \<Rightarrow> (case caller_of d req of Inl r \<Rightarrow> (r, st)
     | Inr callerPubkey \<Rightarrow>
       if gd_requireSignature d \<and> (rq_authorization req = None \<or> rq_authorization req = Some [])
       then (Reply 401 (ErrorReply ''missing_signature'' (DText ''Authorization header required'')), st)
       else if \<not> bpp_allowed d (rq_body req)
       then (Reply 403 (ErrorReply ''unknown_bpp'' (DText (''bpp_id not in allowlist: ''
          @ (case string_field (field (rq_body req) ''context'') ''bpp_id'' of None \<Rightarrow> ''(missing)'' | Some b \<Rightarrow> b)))), st)
       else (case transaction_of (rq_body req) of
         Some t \<Rightarrow> if t \<in> set (gw_seen st)
           then (Reply 409 (ErrorReply ''duplicate_transaction'' (DText (''transaction_id already processed: '' @ t))), st)
           else confirm_task d received req callerPubkey (st\<lparr>gw_seen := gw_seen st @ [t]\<rparr>)
       | None \<Rightarrow> confirm_task d received req callerPubkey st))))"

text \<open>A run: requests in the order in which their handlers start, each with the instant of its checks and the text of the instant at
  which its arguments are built.\<close>

datatype route = R_search | R_select | R_on_search | R_on_select | R_on_confirm

record arrival =
  ar_route :: route
  ar_now :: int
  ar_received :: string
  ar_request :: http_request

fun handle :: "GatewayDeps \<Rightarrow> arrival \<Rightarrow> gateway_state \<Rightarrow> reply \<times> gateway_state" where
  "handle d a st = (case ar_route a of
       R_search \<Rightarrow> route_search d (ar_now a) (ar_request a) st
     | R_select \<Rightarrow> route_select d (ar_now a) (ar_request a) st
     | R_on_search \<Rightarrow> route_on_search d (ar_now a) (ar_received a) (ar_request a) st
     | R_on_select \<Rightarrow> route_on_select d (ar_now a) (ar_request a) st
     | R_on_confirm \<Rightarrow> route_on_confirm d (ar_now a) (ar_received a) (ar_request a) st)"

definition gateway_run :: "GatewayDeps \<Rightarrow> arrival list \<Rightarrow> gateway_state \<Rightarrow> gateway_state" where
  "gateway_run d as st = foldl (\<lambda>st a. snd (handle d a st)) st as"

definition gateway_start :: gateway_state where
  "gateway_start = \<lparr>gw_seen = [], gw_log = []\<rparr>"

section \<open>Triggers\<close>

record ConfirmTrigger =
  ct_bap :: string
  ct_bpp :: string
  ct_task_pda :: string
  ct_terms_hash :: string

datatype trigger_kind = K_Search | K_Select | K_Init | K_Confirm

record AgentTrigger =
  at_kind :: trigger_kind
  at_bap :: string
  at_network :: string
  at_intent_hash :: string
  at_deadline_slot :: int
  at_emitted_at :: int

text \<open>\<open>uri\<close> is \<open>BRIDGE_BAP_URI\<close>, \<open>stamp\<close> the text of the clock; the result is what is posted and where.\<close>

definition bap_uri_of :: "string option \<Rightarrow> string" where
  "bap_uri_of uri = or_default uri ''https://bridge.eto.network''"

definition handleConfirmTrigger :: "(string \<Rightarrow> string) \<Rightarrow> (string \<Rightarrow> json option) \<Rightarrow> string option \<Rightarrow> string \<Rightarrow> ConfirmTrigger \<Rightarrow> string \<times> json" where
  "handleConfirmTrigger resolveBppEndpoint loadOrder uri stamp trigger = (let url = resolveBppEndpoint (ct_bpp trigger);
       order = nullish_or (loadOrder (ct_terms_hash trigger)) (JObj [(''terms_hash'', JStr (ct_terms_hash trigger))])
     in (url, JObj [
        (''context'', JObj [(''domain'', JStr ''retail''), (''action'', JStr ''confirm''), (''version'', JStr ''2.0.0''),
           (''bap_id'', JStr (ct_bap trigger)), (''bap_uri'', JStr (bap_uri_of uri)), (''bpp_id'', JStr (ct_bpp trigger)), (''bpp_uri'', JStr url),
           (''transaction_id'', JStr (slice 0 36 (ct_task_pda trigger))), (''message_id'', JStr (slice 0 36 (ct_task_pda trigger))),
           (''timestamp'', JStr stamp)]),
        (''message'', JObj [(''order'', order)])]))"

definition handleSearchTrigger :: "(string \<Rightarrow> string) \<Rightarrow> (string \<Rightarrow> json option) \<Rightarrow> string option \<Rightarrow> string \<Rightarrow> AgentTrigger \<Rightarrow> (string \<times> json) option" where
  "handleSearchTrigger resolveEndpoint loadIntent uri stamp trigger = (if at_kind trigger \<noteq> K_Search then None else
     let intent = nullish_or (loadIntent (at_intent_hash trigger)) (JObj [(''intent_hash'', JStr (at_intent_hash trigger))])
     in Some (resolveEndpoint (at_network trigger), JObj [
        (''context'', JObj [(''domain'', JStr ''retail''), (''action'', JStr ''search''), (''version'', JStr ''2.0.0''),
           (''bap_id'', JStr (at_bap trigger)), (''bap_uri'', JStr (bap_uri_of uri)),
           (''transaction_id'', JStr (slice 0 36 (at_intent_hash trigger))), (''message_id'', JStr (slice 0 36 (at_intent_hash trigger))),
           (''timestamp'', JStr stamp),
           (''ttl'', JStr (''PT'' @ number_toString (JInt (max 1 (js_sub (at_deadline_slot trigger) (at_emitted_at trigger)))) @ ''S''))]),
        (''message'', JObj [(''intent'', intent)])]))"

section \<open>Lemmas\<close>

lemma caller_of_ok:
  "caller_of d req = Inr k \<longleftrightarrow> (case gd_verify d of None \<Rightarrow> k = None | Some verify \<Rightarrow> \<exists>v. verify req = Some v \<and> k = Some (to_lower v))"
  by (auto simp: caller_of_def split: option.splits)

lemma checks_ok [guards]:
  "checks d action now req = Inr () \<longleftrightarrow> validateBecknEnvelope (gd_parse d) (field (rq_body req) ''context'') now = Inr ()
     \<and> validateBecknRequest (gd_ajv d) action (rq_body req) = Inr ()"
  using freshness_never_fires [of "gd_parse d" "field (rq_body req) ''context''" now]
  by (auto simp: checks_def envelope_reply_def Let_def split: sum.splits envelope_failure.splits)

text \<open>The chain calls that a route may make for a request, stated without the handlers. A request is well formed when its envelope
  and its body are valid. Its signer is the key that the verifier returned, in lower case; without a verifier there is none.
  \<open>/search\<close> and \<open>/select\<close> need a well-formed, signed request. \<open>/on_confirm\<close> needs moreover an authorization header, when signatures are
  required, and a provider on the allow list, when there is one. \<open>/on_search\<close> needs a well-formed request and nothing else.\<close>

definition well_formed :: "GatewayDeps \<Rightarrow> BecknAction \<Rightarrow> arrival \<Rightarrow> bool" where
  "well_formed d action a = (let body = rq_body (ar_request a) in
     validateBecknEnvelope (gd_parse d) (field body ''context'') (ar_now a) = Inr () \<and> validateBecknRequest (gd_ajv d) action body = Inr ())"

definition signed_by :: "GatewayDeps \<Rightarrow> http_request \<Rightarrow> string option \<Rightarrow> bool" where
  "signed_by d req k = (case gd_verify d of None \<Rightarrow> k = None | Some verify \<Rightarrow> \<exists>v. verify req = Some v \<and> k = Some (to_lower v))"

definition confirm_admitted :: "GatewayDeps \<Rightarrow> arrival \<Rightarrow> string option \<Rightarrow> bool" where
  "confirm_admitted d a k = (let req = ar_request a in well_formed d on_confirm a \<and> signed_by d req k \<and> \<not> rq_limited req
     \<and> (gd_requireSignature d \<longrightarrow> (\<exists>h. rq_authorization req = Some h \<and> h \<noteq> []))
     \<and> (\<forall>allowed. gd_expectedBpps d = Some allowed \<longrightarrow>
          (\<exists>b \<in> set allowed. b \<noteq> [] \<and> string_field (field (rq_body req) ''context'') ''bpp_id'' = Some b)))"

definition authentic :: "GatewayDeps \<Rightarrow> arrival \<Rightarrow> submission \<Rightarrow> bool" where
  "authentic d a s = (let req = ar_request a; body = rq_body req in case s of
       SubmitSearch args \<Rightarrow> ar_route a = R_search \<and> well_formed d search a
         \<and> (\<exists>k. signed_by d req k \<and> args = becknSearchToOnChainArgs (gd_sha d) body k)
     | SubmitSelect args \<Rightarrow> ar_route a = R_select \<and> well_formed d select a
         \<and> (\<exists>k. signed_by d req k \<and> args = becknSelectToOnChainArgs (gd_sha d) body k)
     | PublishCatalogResponse args \<Rightarrow> ar_route a = R_on_search \<and> well_formed d on_search a
         \<and> args = becknOnSearchToCatalogResponse (ar_received a) body
     | CompleteTask args \<Rightarrow> ar_route a = R_on_confirm \<and> order_done body
         \<and> (\<exists>k. confirm_admitted d a k \<and> args = becknOnConfirmToTaskOutcome (ar_received a) body k)
     | FailTask args \<Rightarrow> ar_route a = R_on_confirm \<and> \<not> order_done body
         \<and> (\<exists>k. confirm_admitted d a k \<and> args = becknOnConfirmToTaskOutcome (ar_received a) body k))"

lemma checks_well_formed: "checks d action (ar_now a) (ar_request a) = Inr () \<longleftrightarrow> well_formed d action a"
  by (simp add: checks_ok well_formed_def Let_def)

lemma caller_signed_by: "caller_of d req = Inr k \<longleftrightarrow> signed_by d req k"
  by (simp add: caller_of_ok signed_by_def)

lemma bpp_allowed_iff: "bpp_allowed d body \<longleftrightarrow> (\<forall>allowed. gd_expectedBpps d = Some allowed \<longrightarrow>
    (\<exists>b \<in> set allowed. b \<noteq> [] \<and> string_field (field body ''context'') ''bpp_id'' = Some b))"
  by (auto simp: bpp_allowed_def split: option.split)

text \<open>One handler makes at most one chain call, and an authentic one; on the confirm route its transaction was not seen before and is now.\<close>

fun settles_task :: "submission \<Rightarrow> bool" where
  "settles_task (CompleteTask _) = True"
| "settles_task (FailTask _) = True"
| "settles_task _ = False"

definition step_ok :: "GatewayDeps \<Rightarrow> arrival \<Rightarrow> gateway_state \<Rightarrow> gateway_state \<Rightarrow> bool" where
  "step_ok d a st st' = (
     (gw_log st' = gw_log st \<and> gw_seen st' = gw_seen st)
   \<or> (\<exists>s. authentic d a s \<and> gw_log st' = gw_log st @ [(rq_body (ar_request a), s)]
        \<and> (if settles_task s then (case transaction_of (rq_body (ar_request a)) of
             None \<Rightarrow> gw_seen st' = gw_seen st
           | Some t \<Rightarrow> t \<notin> set (gw_seen st) \<and> gw_seen st' = gw_seen st @ [t])
         else gw_seen st' = gw_seen st)))"

lemma step_stays: "step_ok d a st st"
  by (simp add: step_ok_def)

lemma step_logs: "authentic d a s \<Longrightarrow> \<not> settles_task s \<Longrightarrow> step_ok d a st (st\<lparr>gw_log := gw_log st @ [(rq_body (ar_request a), s)]\<rparr>)"
  by (simp add: step_ok_def)

lemma chain_submit_state: "snd (chain_submit d req s st) = st\<lparr>gw_log := gw_log st @ [(rq_body req, s)]\<rparr>"
  by (simp add: chain_submit_def)

lemma snd_answer: "snd (case r of (Inl e, st') \<Rightarrow> (f e, st') | (Inr x, st') \<Rightarrow> (g x, st')) = snd r"
  by (cases r; cases "fst r") auto

definition task_outcome :: "string \<Rightarrow> json option \<Rightarrow> string option \<Rightarrow> submission" where
  "task_outcome received body k = (if order_done body then CompleteTask else FailTask) (becknOnConfirmToTaskOutcome received body k)"

lemma confirm_task_state:
  "snd (confirm_task d received req k st) = st\<lparr>gw_log := gw_log st @ [(rq_body req, task_outcome received (rq_body req) k)]\<rparr>"
  by (simp add: confirm_task_def Let_def snd_answer chain_submit_state task_outcome_def)

lemma task_outcome_settles: "settles_task (task_outcome received body k)"
  by (simp add: task_outcome_def)

lemma confirm_step:
  assumes "ar_route a = R_on_confirm"
  shows "step_ok d a st (snd (handle d a st))"
proof -
  let ?req = "ar_request a" and ?st = "snd (handle d a st)"
  show ?thesis
  proof (cases "\<exists>k. checks d on_confirm (ar_now a) ?req = Inr () \<and> caller_of d ?req = Inr k
      \<and> (gd_requireSignature d \<longrightarrow> (\<exists>h. rq_authorization ?req = Some h \<and> h \<noteq> [])) \<and> bpp_allowed d (rq_body ?req) \<and> \<not> rq_limited ?req
      \<and> ?st = snd (confirm_task d (ar_received a) ?req k (st\<lparr>gw_seen := gw_seen st @ (case transaction_of (rq_body ?req) of None \<Rightarrow> [] | Some t \<Rightarrow> [t])\<rparr>))
      \<and> (\<forall>t. transaction_of (rq_body ?req) = Some t \<longrightarrow> t \<notin> set (gw_seen st))")
    case True
    then obtain k where k: "checks d on_confirm (ar_now a) ?req = Inr ()" "caller_of d ?req = Inr k"
      "gd_requireSignature d \<longrightarrow> (\<exists>h. rq_authorization ?req = Some h \<and> h \<noteq> [])" "bpp_allowed d (rq_body ?req)" "\<not> rq_limited ?req"
      "?st = st\<lparr>gw_seen := gw_seen st @ (case transaction_of (rq_body ?req) of None \<Rightarrow> [] | Some t \<Rightarrow> [t]),
         gw_log := gw_log st @ [(rq_body ?req, task_outcome (ar_received a) (rq_body ?req) k)]\<rparr>"
      "\<forall>t. transaction_of (rq_body ?req) = Some t \<longrightarrow> t \<notin> set (gw_seen st)"
      by (auto simp: confirm_task_state)
    have "confirm_admitted d a k"
      using k(1-5) by (simp add: confirm_admitted_def checks_well_formed caller_signed_by bpp_allowed_iff Let_def)
    then have "authentic d a (task_outcome (ar_received a) (rq_body ?req) k)" using assms by (auto simp: authentic_def task_outcome_def Let_def)
    then show ?thesis
      unfolding step_ok_def k(6) using k(7) task_outcome_settles
      by (intro disjI2 exI [where x = "task_outcome (ar_received a) (rq_body ?req) k"]) (auto split: option.split)
  next
    case False
    then have "?st = st" using assms by (auto simp: route_on_confirm_def split: sum.splits option.splits if_splits)
    then show ?thesis by (simp add: step_stays)
  qed
qed

lemma handle_step: "step_ok d a st (snd (handle d a st))"
proof (cases "ar_route a")
  case R_search
  then show ?thesis by (auto simp: route_search_def snd_answer chain_submit_state authentic_def checks_well_formed caller_signed_by Let_def intro!: step_logs step_stays split: sum.split)
next
  case R_select
  then show ?thesis by (auto simp: route_select_def snd_answer chain_submit_state authentic_def checks_well_formed caller_signed_by Let_def intro!: step_logs step_stays split: sum.split)
next
  case R_on_search
  then show ?thesis by (auto simp: route_on_search_def snd_answer chain_submit_state authentic_def checks_well_formed caller_signed_by Let_def intro!: step_logs step_stays split: sum.split)
next
  case R_on_select
  then show ?thesis by (auto simp: route_on_select_def intro!: step_stays split: sum.split)
qed (rule confirm_step)

text \<open>The transactions whose task was completed or failed, in the order of the calls.\<close>

definition settled :: "(json option \<times> submission) list \<Rightarrow> json option list" where
  "settled calls = map fst (filter (\<lambda>(_, s). settles_task s) calls)"

definition transactions :: "(json option \<times> submission) list \<Rightarrow> string list" where
  "transactions calls = concat (map (\<lambda>b. case transaction_of b of None \<Rightarrow> [] | Some t \<Rightarrow> [t]) (settled calls))"

text \<open>The calls of a run, one by one, with the requests that caused them: different requests, in the order of the calls.\<close>

definition caused_by :: "GatewayDeps \<Rightarrow> arrival list \<Rightarrow> (json option \<times> submission) list \<Rightarrow> bool" where
  "caused_by d causes calls = list_all2 (\<lambda>a (body, s). body = rq_body (ar_request a) \<and> authentic d a s) causes calls"

definition gateway_inv :: "GatewayDeps \<Rightarrow> arrival list \<Rightarrow> gateway_state \<Rightarrow> bool" where
  "gateway_inv d as st = (gw_seen st = transactions (gw_log st) \<and> distinct (gw_seen st)
     \<and> (\<exists>causes. subseq causes as \<and> caused_by d causes (gw_log st)))"

lemma step_causes:
  assumes "step_ok d a st st'" "subseq causes as" "caused_by d causes (gw_log st)"
  shows "\<exists>causes'. subseq causes' (as @ [a]) \<and> caused_by d causes' (gw_log st')"
proof (cases "gw_log st' = gw_log st")
  case True
  then show ?thesis using assms(2,3) by (auto intro: list_emb_append2 [of _ _ "as" "[a]"] subseq_rev_drop_many)
next
  case False
  then obtain s where s: "authentic d a s" "gw_log st' = gw_log st @ [(rq_body (ar_request a), s)]"
    using assms(1) by (auto simp: step_ok_def)
  then have "caused_by d (causes @ [a]) (gw_log st')"
    using assms(3) by (auto simp: caused_by_def intro!: list_all2_appendI)
  moreover have "subseq (causes @ [a]) (as @ [a])" using assms(2) by (simp add: subseq_append)
  ultimately show ?thesis by blast
qed

lemma step_inv: "step_ok d a st st' \<Longrightarrow> gateway_inv d as st \<Longrightarrow> gateway_inv d (as @ [a]) st'"
proof -
  assume step: "step_ok d a st st'" and inv: "gateway_inv d as st"
  have "gw_seen st' = transactions (gw_log st') \<and> distinct (gw_seen st')"
  proof (cases "gw_log st' = gw_log st \<and> gw_seen st' = gw_seen st")
    case False
    then obtain s where s: "gw_log st' = gw_log st @ [(rq_body (ar_request a), s)]"
      "if settles_task s then (case transaction_of (rq_body (ar_request a)) of None \<Rightarrow> gw_seen st' = gw_seen st
         | Some t \<Rightarrow> t \<notin> set (gw_seen st) \<and> gw_seen st' = gw_seen st @ [t]) else gw_seen st' = gw_seen st"
      using step unfolding step_ok_def by blast
    have "gw_seen st = transactions (gw_log st)" "distinct (gw_seen st)" using inv unfolding gateway_inv_def by blast+
    moreover have "transactions (gw_log st') = transactions (gw_log st) @ (if settles_task s
        then (case transaction_of (rq_body (ar_request a)) of None \<Rightarrow> [] | Some t \<Rightarrow> [t]) else [])"
      by (simp add: s(1) transactions_def settled_def)
    ultimately show ?thesis using s(2) by (auto split: if_splits option.splits)
  qed (use inv in \<open>metis gateway_inv_def\<close>)
  then show ?thesis using step_causes [OF step] inv unfolding gateway_inv_def by blast
qed

lemma gateway_run_inv: "gateway_inv d as0 st \<Longrightarrow> gateway_inv d (as0 @ as) (gateway_run d as st)"
proof (induction as arbitrary: as0 st)
  case Nil
  then show ?case by (simp add: gateway_run_def)
next
  case (Cons a as)
  have "gateway_inv d (as0 @ [a]) (snd (handle d a st))" using step_inv [OF handle_step Cons.prems] .
  from Cons.IH [OF this] show ?case by (simp add: gateway_run_def del: handle.simps)
qed

lemma start_inv: "gateway_inv d [] gateway_start"
  by (simp add: gateway_inv_def gateway_start_def transactions_def settled_def caused_by_def)

lemma run_from_start: "gateway_inv d as (gateway_run d as gateway_start)"
  using gateway_run_inv [OF start_inv] by simp

lemma call_has_cause:
  assumes "(body, s) \<in> set (gw_log (gateway_run d as gateway_start))"
  shows "\<exists>a \<in> set as. body = rq_body (ar_request a) \<and> authentic d a s"
proof -
  obtain causes where c: "subseq causes as" "caused_by d causes (gw_log (gateway_run d as gateway_start))"
    using run_from_start [of d as] by (auto simp: gateway_inv_def)
  have "\<exists>a \<in> set causes. body = rq_body (ar_request a) \<and> authentic d a s" if "caused_by d causes log" "(body, s) \<in> set log" for causes log
    using that unfolding caused_by_def by (induction rule: list_all2_induct) auto
  then obtain a where "a \<in> set causes" "body = rq_body (ar_request a)" "authentic d a s" using c(2) assms by blast
  moreover have "set causes \<subseteq> set as" using list_emb_set [OF c(1)] by blast
  ultimately show ?thesis by blast
qed

text \<open>A message that passed the schema has a transaction.\<close>

lemma valid_transaction:
  assumes "ajv_documented fmt ajv" "validateBecknRequest ajv action body = Inr ()" "\<not> fmt ''uuid'' []"
  shows "transaction_of body \<noteq> None"
proof -
  obtain m kvs c where c: "body = Some (JObj kvs)" "map_of kvs ''context'' = Some c" "conforms fmt becknContextSchema c"
    using request_valid [OF assms(1,2)] by metis
  obtain cs t where "c = JObj cs" "map_of cs ''transaction_id'' = Some (JStr t)" "fmt ''uuid'' t" using context_fields [OF c(3)] by metis
  then show ?thesis using c(1,2) assms(3) by (auto simp: transaction_of_def string_field_def field_def own_field_def)
qed

text \<open>A transaction that was seen stays refused, whatever became of its chain call.\<close>

lemma seen_is_refused:
  assumes "transaction_of (rq_body req) = Some t" "t \<in> set (gw_seen st)"
  shows "snd (route_on_confirm d now received req st) = st" "fst (route_on_confirm d now received req st) \<noteq> Reply 200 b"
  using assms by (auto simp: route_on_confirm_def checks_def caller_of_def envelope_reply_def Let_def
      split: sum.splits option.splits envelope_failure.splits)

lemma seen_stays: "t \<in> set (gw_seen st) \<Longrightarrow> t \<in> set (gw_seen (gateway_run d as st))"
proof (induction as arbitrary: st)
  case (Cons a as)
  have "t \<in> set (gw_seen (snd (handle d a st)))"
    using handle_step [of d a st] Cons.prems by (auto simp: step_ok_def split: option.splits if_splits)
  then show ?case using Cons.IH by (simp add: gateway_run_def del: handle.simps)
qed (simp add: gateway_run_def)

lemma failed_confirm_is_final:
  assumes "route_on_confirm d now received req st = (Reply 500 (ErrorReply ''submission_failed'' e), st')"
    and "transaction_of (rq_body req) = Some t" "transaction_of (rq_body req') = Some t"
  shows "snd (route_on_confirm d now' received' req' (gateway_run d as st')) = gateway_run d as st'"
proof -
  have "t \<in> set (gw_seen st')"
    using assms(1,2) by (auto simp: route_on_confirm_def confirm_task_def chain_submit_def checks_def caller_of_def envelope_reply_def Let_def
      split: sum.splits option.splits envelope_failure.splits if_splits)
  then show ?thesis using seen_is_refused(1) [OF assms(3)] seen_stays by blast
qed

lemma ttl_T_not_d: "c \<noteq> CHR ''d'' \<Longrightarrow> \<not> regex_test ttl_pattern (''PT'' @ c # s)"
  using ttl_pattern_head [of "''PT'' @ c # s"] by (auto simp: head_in_def)

lemma ttl_of_number: "\<bar>n\<bar> \<le> 2 ^ 53 \<Longrightarrow> \<not> regex_test ttl_pattern (''PT'' @ number_toString (JInt n) @ ''S'')"
proof -
  assume "\<bar>n\<bar> \<le> 2 ^ 53"
  moreover have "show_int n \<noteq> [] \<and> hd (show_int n) \<noteq> CHR ''d''" using hd_show_int [of n] no_digit_units(8) by auto
  ultimately show ?thesis using ttl_T_not_d by (cases "show_int n") auto
qed

section \<open>Properties\<close>

text \<open>C3. In any run of the gateway the calls of the chain belong, one to one and in order, to requests that were admitted on the route of the call, and carry the arguments of that request; nothing else is ever submitted, and no request causes two calls. A search or select request had a valid envelope and body and, where a verifier is configured, its signature; the caller is the verified signer, and nobody without a verifier. A request that settles a task moreover was not limited, had the required header and a provider on the allow list, where these are configured. A catalogue is published for any valid message, whoever sent it.\<close>

theorem chain_calls_authentic:
  "\<exists>causes. subseq causes as \<and> caused_by d causes (gw_log (gateway_run d as gateway_start))"
  using run_from_start [of d as] by (simp add: gateway_inv_def)

theorem chain_calls_authentic_witness:
  "\<exists>causes. subseq causes [\<lparr>ar_route = R_search, ar_now = 0, ar_received = [], ar_request = \<lparr>rq_body = Some demo_search, rq_authorization = None,
      rq_content_type = None, rq_limited = False\<rparr>\<rparr>]
     \<and> caused_by \<lparr>gd_verify = None, gd_ajv = demo_ajv, gd_parse = (\<lambda>_. Some 0), gd_sha = (\<lambda>x. x),
       gd_submit = (\<lambda>_ _. Inr ''tx''), gd_expectedBpps = None, gd_requireSignature = False\<rparr> causes
         [(Some demo_search, SubmitSearch (becknSearchToOnChainArgs (\<lambda>x. x) (Some demo_search) None))]"
  (is "\<exists>causes. subseq causes [?a] \<and> caused_by ?d causes [(_, ?s)]")
proof -
  have v: "validateBecknEnvelope (\<lambda>_. Some 0) (field (Some demo_search) ''context'') 0 = Inr ()"
    using demo_envelope by (simp add: demo_search_def field_def own_field_def)
  have "checks ?d search 0 (ar_request ?a) = Inr ()" using v demo_search_valid by (simp add: checks_ok)
  then have "gw_log (gateway_run ?d [?a] gateway_start) = [(Some demo_search, ?s)]"
    by (simp add: gateway_run_def route_search_def caller_of_def chain_submit_def gateway_start_def)
  then show ?thesis using chain_calls_authentic [of "[?a]" ?d] by simp
qed

text \<open>C15. No transaction settles a task twice: in any run each completed or failed task belongs to a transaction, and these transactions are pairwise different.\<close>

theorem transaction_settles_once:
  assumes "ajv_documented fmt (gd_ajv d)" "\<not> fmt ''uuid'' []"
  shows "distinct (map transaction_of (settled (gw_log (gateway_run d as gateway_start))))
    \<and> None \<notin> set (map transaction_of (settled (gw_log (gateway_run d as gateway_start))))"
proof -
  let ?log = "gw_log (gateway_run d as gateway_start)"
  note inv = run_from_start [of d as, unfolded gateway_inv_def]
  have ne: "transaction_of b \<noteq> None" if b: "b \<in> set (settled ?log)" for b
  proof -
    obtain s where s: "(b, s) \<in> set ?log" "settles_task s" using b by (auto simp: settled_def)
    then obtain a where a: "b = rq_body (ar_request a)" "authentic d a s" using call_has_cause by blast
    then have "well_formed d on_confirm a" using s(2) by (cases s) (auto simp: authentic_def confirm_admitted_def Let_def)
    then have "validateBecknRequest (gd_ajv d) on_confirm b = Inr ()" using a(1) by (simp add: well_formed_def Let_def)
    then show ?thesis by (rule valid_transaction [OF assms(1) _ assms(2)])
  qed
  have all: "map transaction_of bs = map Some (concat (map (\<lambda>b. case transaction_of b of None \<Rightarrow> [] | Some t \<Rightarrow> [t]) bs))"
    if "\<forall>b \<in> set bs. transaction_of b \<noteq> None" for bs
    using that by (induction bs) auto
  have eq: "map transaction_of (settled ?log) = map Some (transactions ?log)"
    unfolding transactions_def using ne by (intro all) blast
  have "distinct (transactions ?log)" using inv by metis
  then show ?thesis unfolding eq by (simp add: distinct_map)
qed

text \<open>The identifier under which a search reaches the chain depends on the content of its intent alone: two searches get the same hash exactly when their intents are the same up to the order of members (if the hash does not collide on them).\<close>

theorem intent_hash_identifies:
  assumes "wf_json i" "wf_json j" "field (field b ''message'') ''intent'' = Some i" "field (field c ''message'') ''intent'' = Some j"
    and "i \<noteq> JNull" "j \<noteq> JNull" "sha256_hex sha (canonicalJson i) = sha256_hex sha (canonicalJson j) \<longrightarrow> canonicalJson i = canonicalJson j"
  shows "sa_intent_hash (becknSearchToOnChainArgs sha b k) = sa_intent_hash (becknSearchToOnChainArgs sha c k') \<longleftrightarrow> normal_json i = normal_json j"
proof -
  have e: "or_empty (Some i) = i" "or_empty (Some j) = j" using assms(5,6) by (cases i; cases j; simp add: or_empty_def)+
  have "sa_intent_hash (becknSearchToOnChainArgs sha b k) = sha256_hex sha (canonicalJson i)"
    "sa_intent_hash (becknSearchToOnChainArgs sha c k') = sha256_hex sha (canonicalJson j)"
    by (simp_all add: becknSearchToOnChainArgs_def Let_def assms(3,4) e)
  then show ?thesis using assms(7) canonicalJson_inject [OF assms(1,2)] by auto
qed

text \<open>C37. The search message that the outbound role posts for an agent is refused by the schema of the same gateway, because its time to live is written the way the protocol says.\<close>

theorem search_trigger_refused:
  assumes "ajv_documented fmt ajv" "handleSearchTrigger resolveEndpoint loadIntent uri stamp trigger = Some (url, body)"
    and "\<bar>at_deadline_slot trigger - at_emitted_at trigger\<bar> \<le> 2 ^ 53"
  shows "validateBecknRequest ajv search (Some body) \<noteq> Inr ()"
proof
  assume valid: "validateBecknRequest ajv search (Some body) = Inr ()"
  let ?n = "max 1 (at_deadline_slot trigger - at_emitted_at trigger)"
  obtain m kvs c where c: "Some body = Some (JObj kvs)" "map_of kvs ''context'' = Some c" "conforms fmt becknContextSchema c"
    using request_valid [OF assms(1) valid] by metis
  obtain cs where cs: "c = JObj cs" and t: "\<And>v. map_of cs ''ttl'' = Some v \<Longrightarrow> \<exists>d. v = JStr d \<and> regex_test ttl_pattern d"
    using context_fields [OF c(3)] by metis
  have "map_of cs ''ttl'' = Some (JStr (''PT'' @ number_toString (JInt ?n) @ ''S''))"
    using assms(2,3) c(1,2) cs by (auto simp: handleSearchTrigger_def Let_def split: if_splits)
  then have "regex_test ttl_pattern (''PT'' @ number_toString (JInt ?n) @ ''S'')" using t by blast
  then show False using ttl_of_number [of ?n] assms(3) by (simp add: max_def split: if_splits)
qed

definition demo_deps :: GatewayDeps where
  "demo_deps = \<lparr>gd_verify = None, gd_ajv = demo_ajv, gd_parse = (\<lambda>_. Some 0), gd_sha = (\<lambda>x. x),
       gd_submit = (\<lambda>_ _. Inr ''tx''), gd_expectedBpps = None, gd_requireSignature = False\<rparr>"

definition demo_confirm :: json where
  "demo_confirm = JObj [(''context'', demo_context ''on_confirm''),
     (''message'', JObj [(''order'', JObj [(''id'', JStr ''task''), (''state'', JStr ''COMPLETED'')])])]"

definition demo_arrival :: arrival where
  "demo_arrival = \<lparr>ar_route = R_on_confirm, ar_now = 0, ar_received = [], ar_request = \<lparr>rq_body = Some demo_confirm, rq_authorization = None,
      rq_content_type = None, rq_limited = False\<rparr>\<rparr>"

definition strict_ajv :: ajv where
  "strict_ajv s v = (case v of None \<Rightarrow> [([], ''type'', None)]
     | Some x \<Rightarrow> if conforms (\<lambda>f s. f = ''uuid'' \<longrightarrow> s \<noteq> []) s x then [] else [([], ''type'', None)])"

lemma strict_ajv_documented: "ajv_documented (\<lambda>f s. f = ''uuid'' \<longrightarrow> s \<noteq> []) strict_ajv"
  by (simp add: ajv_documented_def strict_ajv_def split: option.splits)

lemma demo_confirm_valid: "validateBecknRequest strict_ajv on_confirm (Some demo_confirm) = Inr ()"
  by (simp add: validateBecknRequest_def strict_ajv_def onConfirmSchema_def order_message_def requestEnvelope_def object_of_def becknContextSchema_def
      str_def str1_def str_format_def demo_confirm_def demo_context_def ACTIONS_def)

text \<open>The same confirmation twice settles the task once.\<close>

theorem transaction_settles_once_witness:
  "distinct (map transaction_of (settled (gw_log (gateway_run (demo_deps\<lparr>gd_ajv := strict_ajv\<rparr>) [demo_arrival, demo_arrival] gateway_start))))
   \<and> settled (gw_log (gateway_run (demo_deps\<lparr>gd_ajv := strict_ajv\<rparr>) [demo_arrival, demo_arrival] gateway_start)) = [Some demo_confirm]"
proof -
  let ?d = "demo_deps\<lparr>gd_ajv := strict_ajv\<rparr>"
  have v: "validateBecknEnvelope (\<lambda>_. Some 0) (field (Some demo_confirm) ''context'') 0 = Inr ()"
    using demo_envelope by (simp add: demo_confirm_def field_def own_field_def)
  have c: "checks ?d on_confirm 0 (ar_request demo_arrival) = Inr ()"
    using v demo_confirm_valid by (simp add: checks_ok demo_arrival_def demo_deps_def)
  have t: "transaction_of (Some demo_confirm) = Some ''t1''" "order_done (Some demo_confirm)"
    by (simp_all add: transaction_of_def order_done_def string_field_def field_def own_field_def demo_confirm_def demo_context_def)
  have first: "snd (handle ?d demo_arrival gateway_start) = \<lparr>gw_seen = [''t1''], gw_log = [(Some demo_confirm, task_outcome [] (Some demo_confirm) None)]\<rparr>"
    using c t by (simp add: demo_arrival_def route_on_confirm_def caller_of_def confirm_task_state gateway_start_def bpp_allowed_def demo_deps_def)
  have "snd (handle ?d demo_arrival (snd (handle ?d demo_arrival gateway_start))) = snd (handle ?d demo_arrival gateway_start)"
    using t(1) unfolding first by (simp add: demo_arrival_def seen_is_refused(1) [where t = "''t1''"])
  then have "settled (gw_log (gateway_run ?d [demo_arrival, demo_arrival] gateway_start)) = [Some demo_confirm]"
    by (simp add: gateway_run_def first settled_def task_outcome_settles del: handle.simps)
  then show ?thesis
    using transaction_settles_once [of "\<lambda>f s. f = ''uuid'' \<longrightarrow> s \<noteq> []" ?d "[demo_arrival, demo_arrival]"] strict_ajv_documented
    by (simp add: demo_deps_def)
qed

theorem intent_hash_identifies_witness:
  "sa_intent_hash (becknSearchToOnChainArgs (\<lambda>x. x) (Some (JObj [(''message'', JObj [(''intent'', JObj [(''a'', JNull), (''b'', JBool True)])])])) None)
   = sa_intent_hash (becknSearchToOnChainArgs (\<lambda>x. x) (Some (JObj [(''message'', JObj [(''intent'', JObj [(''b'', JBool True), (''a'', JNull)])])])) (Some ''k''))"
  by (subst intent_hash_identifies [of "JObj [(''a'', JNull), (''b'', JBool True)]" "JObj [(''b'', JBool True), (''a'', JNull)]"])
    (simp_all add: field_def own_field_def less_char_code code_def)

theorem search_trigger_refused_witness:
  "\<exists>url body. handleSearchTrigger (\<lambda>n. n) (\<lambda>h. None) None ''2026-01-01T00:00:00Z'' \<lparr>at_kind = K_Search, at_bap = ''b'', at_network = ''n'',
      at_intent_hash = ''h'', at_deadline_slot = 40, at_emitted_at = 10\<rparr> = Some (url, body) \<and> validateBecknRequest demo_ajv search (Some body) \<noteq> Inr ()"
  using search_trigger_refused [OF demo_ajv_documented, of "\<lambda>n. n" "\<lambda>h. None" None "''2026-01-01T00:00:00Z''"
      "\<lparr>at_kind = K_Search, at_bap = ''b'', at_network = ''n'', at_intent_hash = ''h'', at_deadline_slot = 40, at_emitted_at = 10\<rparr>"]
  by (simp add: handleSearchTrigger_def Let_def)

end
