(* ===== verification/Beckn_Callback.thy ===== *)
theory Beckn_Callback
  imports Beckn_Gateway
begin

text \<open>
  Callbacks of the gateway to addresses that its callers name: \<^verbatim>\<open>src/gateway/inbound-bap-callback.ts\<close> (the guard against internal
  addresses and the retrying post) and \<^verbatim>\<open>src/gateway/outbound-bpp.ts\<close> (the catalogue of an on_search answer, its guard and its
  dispatch). The URL parser (\<open>url\<close>: protocol and host name of a text), \<open>isIP\<close> on version 6 literals (\<open>ip6\<close>), the DNS lookup, the
  checks of text formats and the HTTP client are parameters. The lemmas show that both guards refuse exactly the private ranges
  of version 4 addresses (they differ on \<open>0.0.0.0/8\<close>), that nothing is posted to a refused host, how often the post is repeated,
  and that the catalogue lists each provider once with all its items.
\<close>

section \<open>Guards\<close>

definition ends_with :: "string \<Rightarrow> string \<Rightarrow> bool" where
  "ends_with p s = starts_with (rev p) (rev s)"

definition one_of :: "string \<Rightarrow> regex" where
  "one_of cs = Times 1 (\<lambda>c. c \<in> set cs)"

fun alts :: "regex list \<Rightarrow> regex" where
  "alts [] = Lit []"
| "alts [r] = r"
| "alts (r # q # rs) = Alt r (alts (q # rs))"

definition PRIVATE_172 :: regex where
  "PRIVATE_172 = seqs [Lit ''172.'', alts [Seq (Lit ''1'') (one_of ''6789''), Seq (Lit ''2'') (Times 1 is_digit), Seq (Lit ''3'') (one_of ''01'')], Lit ''.'']"

definition CALLBACK_PRIVATE_IPV4_RE :: regex where
  "CALLBACK_PRIVATE_IPV4_RE = alts [Lit ''127.'', Lit ''10.'', PRIVATE_172, Lit ''192.168.'', Lit ''169.254.'']"

text \<open>With the flag \<open>i\<close> these match the text in small letters.\<close>

definition CALLBACK_PRIVATE_IPV6_RE :: regex where
  "CALLBACK_PRIVATE_IPV6_RE = alts [Seq (Lit ''::1'') End, Lit ''fe80:'']"

text \<open>\<open>h.slice(1, -1)\<close> of a bracketed host.\<close>

definition strip_brackets :: "string \<Rightarrow> string" where
  "strip_brackets h = (if starts_with ''['' h then butlast (tl h) else h)"

definition isPrivateHost :: "string \<Rightarrow> bool" where
  "isPrivateHost hostname = (let h = strip_brackets hostname in
     h = ''localhost'' \<or> regex_test CALLBACK_PRIVATE_IPV4_RE h \<or> regex_test CALLBACK_PRIVATE_IPV6_RE (to_lower h) \<or> ends_with ''.local'' h)"

datatype callback_error = CallbackTargetForbidden string

type_synonym url_parser = "string \<Rightarrow> (string \<times> string) option"

definition apostrophes :: "string \<Rightarrow> string" where
  "apostrophes s = [CHR 0x27] @ s @ [CHR 0x27]"

definition validateCallbackUri :: "url_parser \<Rightarrow> bool \<Rightarrow> string \<Rightarrow> (callback_error, string \<times> string) result" where
  "validateCallbackUri url allowPrivate uri = (case url uri of
       None \<Rightarrow> Inl (CallbackTargetForbidden (apostrophes uri @ '' is not a valid URL''))
     | Some (protocol, hostname) \<Rightarrow>
       if protocol \<noteq> ''http:'' \<and> protocol \<noteq> ''https:''
       then Inl (CallbackTargetForbidden (''protocol '' @ apostrophes protocol @ '' is not http or https''))
       else if \<not> allowPrivate \<and> isPrivateHost hostname
       then Inl (CallbackTargetForbidden (''hostname '' @ apostrophes hostname @ '' is in a private/loopback/link-local range''))
       else Inr (protocol, hostname))"

definition PRIVATE_IPV4_RE :: regex where
  "PRIVATE_IPV4_RE = alts [Lit ''127.'', Lit ''10.'', PRIVATE_172, Lit ''192.168.'', Lit ''169.254.'', Lit ''0.'']"

definition PRIVATE_IPV6_RE :: regex where
  "PRIVATE_IPV6_RE = alts [Seq (Lit ''::1'') End, Lit ''fc'', Lit ''fd'', Lit ''fe80:'']"

text \<open>\<open>isIP\<close>: a version 4 literal is four numbers below 256 without leading zeros.\<close>

definition octet :: "string \<Rightarrow> bool" where
  "octet s = (s \<noteq> [] \<and> list_all is_digit s \<and> parse_nat s < 256 \<and> show_nat (parse_nat s) = s)"

definition isIPv4 :: "string \<Rightarrow> bool" where
  "isIPv4 h = (length (split_dot h) = 4 \<and> list_all octet (split_dot h))"

definition isIP :: "(string \<Rightarrow> bool) \<Rightarrow> string \<Rightarrow> nat" where
  "isIP ip6 h = (if isIPv4 h then 4 else if ip6 h then 6 else 0)"

definition isPrivateOrLoopbackHost :: "(string \<Rightarrow> bool) \<Rightarrow> string \<Rightarrow> bool" where
  "isPrivateOrLoopbackHost ip6 hostname = (let h = strip_brackets hostname in
     if h = ''localhost'' then True
     else if ends_with ''.local'' h then True
     else if isIP ip6 h = 4 then regex_test PRIVATE_IPV4_RE h
     else if isIP ip6 h = 6 then regex_test PRIVATE_IPV6_RE (to_lower h)
     else False)"

definition isPrivateOrLoopbackHostResolved :: "(string \<Rightarrow> bool) \<Rightarrow> (string \<Rightarrow> string option) \<Rightarrow> string \<Rightarrow> bool" where
  "isPrivateOrLoopbackHostResolved ip6 dns hostname = (
     if isPrivateOrLoopbackHost ip6 hostname then True
     else if isIP ip6 (strip_brackets hostname) \<noteq> 0 then False
     else (case dns hostname of None \<Rightarrow> True | Some address \<Rightarrow> isPrivateOrLoopbackHost ip6 address))"

section \<open>The retrying post\<close>

datatype fetch_outcome = Response int | Aborted | NetworkError

record post_result =
  pr_status :: int
  pr_ok :: bool
  pr_attempts :: int
  pr_waits :: "int list"

definition response_ok :: "fetch_outcome \<Rightarrow> bool" where
  "response_ok r = (case r of Response s \<Rightarrow> 200 \<le> s \<and> s < 300 | _ \<Rightarrow> False)"

definition response_status :: "fetch_outcome \<Rightarrow> int" where
  "response_status r = (case r of Response s \<Rightarrow> s | _ \<Rightarrow> 0)"

text \<open>The wait before the next attempt.\<close>

definition backoff :: "nat \<Rightarrow> int" where
  "backoff attempt = (if attempt = 1 then 200 else 400)"

text \<open>\<open>fetch k\<close> is the outcome of attempt \<open>k\<close>; \<open>n\<close> attempts are left.\<close>

fun post_loop :: "(nat \<Rightarrow> fetch_outcome) \<Rightarrow> nat \<Rightarrow> nat \<Rightarrow> int \<Rightarrow> int list \<Rightarrow> post_result" where
  "post_loop fetch maxAttempts 0 lastStatus waits = \<lparr>pr_status = lastStatus, pr_ok = False, pr_attempts = int maxAttempts, pr_waits = waits\<rparr>"
| "post_loop fetch maxAttempts (Suc n) lastStatus waits = (let attempt = maxAttempts - n; r = fetch attempt in
     if response_ok r then \<lparr>pr_status = response_status r, pr_ok = True, pr_attempts = int attempt, pr_waits = waits\<rparr>
     else post_loop fetch maxAttempts n (response_status r) (if attempt < maxAttempts then waits @ [backoff attempt] else waits))"

definition postOnSearch :: "url_parser \<Rightarrow> bool \<Rightarrow> string \<Rightarrow> nat option \<Rightarrow> (nat \<Rightarrow> fetch_outcome) \<Rightarrow> (callback_error, post_result) result" where
  "postOnSearch url allowPrivate bap_uri retries fetch = (let maxAttempts = or_default retries 2 + 1 in
     case validateCallbackUri url allowPrivate bap_uri of Inl e \<Rightarrow> Inl e
     | Inr _ \<Rightarrow> Inr (post_loop fetch maxAttempts maxAttempts 0 []))"

section \<open>The catalogue of an answer\<close>

record BppCatalogRow =
  cr_provider_id :: string
  cr_descriptor :: "json option"
  cr_items :: "json list option"

record provider_entry =
  pe_id :: string
  pe_descriptor :: "json option"
  pe_items :: "json list"

definition row_items :: "BppCatalogRow \<Rightarrow> json list" where
  "row_items row = (case cr_items row of None \<Rightarrow> [] | Some is \<Rightarrow> is)"

text \<open>One step of the loop over the rows; the map keeps its entries in insertion order.\<close>

fun add_row :: "BppCatalogRow \<Rightarrow> provider_entry list \<Rightarrow> provider_entry list" where
  "add_row row [] = [\<lparr>pe_id = cr_provider_id row, pe_descriptor = cr_descriptor row, pe_items = row_items row\<rparr>]"
| "add_row row (p # ps) = (if pe_id p = cr_provider_id row then p\<lparr>pe_items := pe_items p @ row_items row\<rparr> # ps else p # add_row row ps)"

definition providers_of :: "BppCatalogRow list \<Rightarrow> provider_entry list" where
  "providers_of rows = foldl (\<lambda>ps row. add_row row ps) [] rows"

definition provider_json :: "provider_entry \<Rightarrow> json" where
  "provider_json p = JObj ([(''id'', JStr (pe_id p))]
     @ (case pe_descriptor p of None \<Rightarrow> [] | Some d \<Rightarrow> [(''descriptor'', d)])
     @ (if pe_items p = [] then [] else [(''items'', JArr (pe_items p))]))"

record BecknContext =
  bc_domain :: string
  bc_bap_id :: string
  bc_bap_uri :: string
  bc_transaction_id :: string
  bc_ttl :: "string option"
  bc_location :: "json option"

text \<open>\<open>BRIDGE_BPP_ID\<close>, \<open>BRIDGE_BPP_URI\<close>, and the clock and the random generator of the call.\<close>

record bridge_env =
  be_bpp_id :: "string option"
  be_bpp_uri :: "string option"
  be_uuid :: string
  be_timestamp :: string

definition buildBppOnSearchEnvelope :: "bridge_env \<Rightarrow> BecknContext \<Rightarrow> BppCatalogRow list \<Rightarrow> json" where
  "buildBppOnSearchEnvelope e c rows = JObj [
     (''context'', JObj ([(''domain'', JStr (bc_domain c)), (''action'', JStr ''on_search''), (''version'', JStr ''2.0.0''),
        (''bap_id'', JStr (bc_bap_id c)), (''bap_uri'', JStr (bc_bap_uri c)), (''transaction_id'', JStr (bc_transaction_id c)),
        (''message_id'', JStr (be_uuid e)), (''timestamp'', JStr (be_timestamp e)),
        (''bpp_id'', JStr (or_default (be_bpp_id e) ''bridge.eto.network'')),
        (''bpp_uri'', JStr (or_default (be_bpp_uri e) ''https://bridge.eto.network''))]
        @ (case bc_ttl c of None \<Rightarrow> [] | Some t \<Rightarrow> [(''ttl'', JStr t)])
        @ (case bc_location c of None \<Rightarrow> [] | Some l \<Rightarrow> [(''location'', l)]))),
     (''message'', JObj [(''catalog'', JObj [(''providers'', JArr (map provider_json (providers_of rows)))])])]"

text \<open>The schema of an outgoing answer; \<open>fmt\<close> decides the formats \<open>url\<close>, \<open>uuid\<close> and \<open>datetime\<close>.\<close>

definition has_string :: "json option \<Rightarrow> string \<Rightarrow> (string \<Rightarrow> bool) \<Rightarrow> bool" where
  "has_string v k p = (case field v k of Some (JStr s) \<Rightarrow> p s | _ \<Rightarrow> False)"

definition provider_ok :: "json \<Rightarrow> bool" where
  "provider_ok p = has_string (Some p) ''id'' (\<lambda>s. s \<noteq> [])"

definition validateOnSearchEnvelope :: "(string \<Rightarrow> string \<Rightarrow> bool) \<Rightarrow> json \<Rightarrow> bool" where
  "validateOnSearchEnvelope fmt env = (let c = own_field env ''context'' in
     has_string c ''domain'' (\<lambda>s. s \<noteq> []) \<and> has_string c ''action'' (\<lambda>s. s = ''on_search'') \<and> has_string c ''version'' (\<lambda>s. s \<noteq> [])
     \<and> has_string c ''bap_id'' (\<lambda>s. s \<noteq> []) \<and> has_string c ''bap_uri'' (fmt ''url'') \<and> has_string c ''transaction_id'' (fmt ''uuid'')
     \<and> has_string c ''message_id'' (fmt ''uuid'') \<and> has_string c ''timestamp'' (fmt ''datetime'')
     \<and> (case field (field (own_field env ''message'') ''catalog'') ''providers'' of
          Some (JArr ps) \<Rightarrow> ps \<noteq> [] \<and> list_all provider_ok ps | _ \<Rightarrow> False))"

section \<open>Dispatch\<close>

record OutboundBppDeps =
  ob_rows :: "string \<Rightarrow> BppCatalogRow list"
  ob_url :: url_parser
  ob_ip6 :: "string \<Rightarrow> bool"
  ob_dns :: "string \<Rightarrow> string option"
  ob_fmt :: "string \<Rightarrow> string \<Rightarrow> bool"
  ob_allowPrivate :: bool
  ob_post :: "string \<Rightarrow> json \<Rightarrow> int \<times> int"

record PostBppOnSearchResult =
  po_status :: int
  po_ok :: bool
  po_attempts :: int
  po_reason :: "string option"

definition refused :: "string \<Rightarrow> PostBppOnSearchResult" where
  "refused why = \<lparr>po_status = 0, po_ok = False, po_attempts = 0, po_reason = Some why\<rparr>"

definition target_url :: "string \<Rightarrow> string" where
  "target_url bap_uri = (if ends_with ''/on_search'' bap_uri then bap_uri
     else (if ends_with ''/'' bap_uri then butlast bap_uri else bap_uri) @ ''/on_search'')"

text \<open>The result, and the post made on the way.\<close>

definition postBppOnSearch :: "OutboundBppDeps \<Rightarrow> string \<Rightarrow> json \<Rightarrow> PostBppOnSearchResult \<times> (string \<times> json) option" where
  "postBppOnSearch d bap_uri envelope = (case ob_url d bap_uri of None \<Rightarrow> (refused ''bad_bap_uri'', None)
     | Some (protocol, hostname) \<Rightarrow>
       if protocol \<noteq> ''http:'' \<and> protocol \<noteq> ''https:'' then (refused ''bad_bap_uri'', None)
       else if \<not> ob_allowPrivate d \<and> isPrivateOrLoopbackHostResolved (ob_ip6 d) (ob_dns d) hostname then (refused ''ssrf_blocked'', None)
       else if \<not> validateOnSearchEnvelope (ob_fmt d) envelope then (refused ''envelope_invalid'', None)
       else let targetUrl = target_url bap_uri; (status, attempts) = ob_post d targetUrl envelope
         in (\<lparr>po_status = status, po_ok = (200 \<le> status \<and> status < 300), po_attempts = attempts, po_reason = None\<rparr>, Some (targetUrl, envelope)))"

definition dispatchOnSearch :: "OutboundBppDeps \<Rightarrow> bridge_env \<Rightarrow> BecknContext \<Rightarrow> string
    \<Rightarrow> nat \<times> PostBppOnSearchResult \<times> (string \<times> json) option" where
  "dispatchOnSearch d e c intent_hash = (let rows = ob_rows d intent_hash in
     if rows = [] then (0, refused ''no_catalog_responses'', None)
     else let envelope = buildBppOnSearchEnvelope e c rows; (result, posted) = postBppOnSearch d (bc_bap_uri c) envelope
       in (length (providers_of rows), result, posted))"

section \<open>Lemmas: the guards on version 4 addresses\<close>

definition quad :: "nat \<Rightarrow> nat \<Rightarrow> nat \<Rightarrow> nat \<Rightarrow> string" where
  "quad a b c d = show_nat a @ ''.'' @ show_nat b @ ''.'' @ show_nat c @ ''.'' @ show_nat d"

text \<open>The private ranges: loopback, \<open>10/8\<close>, \<open>172.16/12\<close>, \<open>192.168/16\<close>, link-local.\<close>

definition private_range :: "nat \<Rightarrow> nat \<Rightarrow> bool" where
  "private_range a b = (a = 127 \<or> a = 10 \<or> a = 172 \<and> 16 \<le> b \<and> b \<le> 31 \<or> a = 192 \<and> b = 168 \<or> a = 169 \<and> b = 254)"

lemma test_Alt: "regex_test (Alt p q) s \<longleftrightarrow> regex_test p s \<or> regex_test q s"
  by (auto simp: regex_test_leaves leaves_simps)

lemma test_Lit: "regex_test (Lit l) s \<longleftrightarrow> (\<exists>t. s = l @ t)"
  by (simp add: regex_test_leaves leaves_Lit)

lemma no_digit_dot: "no_digit (''.'' @ r)"
  by (simp add: no_digit_def is_digit_def code_def)

lemma number_dot: "(\<exists>t. show_nat a @ ''.'' @ r = show_nat n @ ''.'' @ t) \<longleftrightarrow> a = n"
proof
  assume "\<exists>t. show_nat a @ ''.'' @ r = show_nat n @ ''.'' @ t"
  then obtain t where "show_nat a @ ''.'' @ r = show_nat n @ ''.'' @ t" by blast
  from digits_prefix_free [OF show_nat_digits show_nat_digits no_digit_dot no_digit_dot this] show "a = n" by simp
qed auto

lemma number_dot_eq: "show_nat a @ ''.'' @ r = show_nat n @ ''.'' @ t \<longleftrightarrow> a = n \<and> r = t"
  using digits_prefix_free [OF show_nat_digits show_nat_digits no_digit_dot no_digit_dot, of a r n t] by auto

lemma shown_numbers:
  "''127.'' @ t = show_nat 127 @ ''.'' @ t" "''10.'' @ t = show_nat 10 @ ''.'' @ t" "''172.'' @ t = show_nat 172 @ ''.'' @ t"
  "''192.168.'' @ t = show_nat 192 @ ''.'' @ show_nat 168 @ ''.'' @ t" "''169.254.'' @ t = show_nat 169 @ ''.'' @ show_nat 254 @ ''.'' @ t"
  "''0.'' @ t = show_nat 0 @ ''.'' @ t"
  by (simp_all add: show_nat.simps digit_char_def) code_simp+

definition tens_ones :: "char \<Rightarrow> char \<Rightarrow> bool" where
  "tens_ones x y = (x = CHR ''1'' \<and> y \<in> set ''6789'' \<or> x = CHR ''2'' \<and> is_digit y \<or> x = CHR ''3'' \<and> y \<in> set ''01'')"

lemma tens_ones_digits: "tens_ones x y \<Longrightarrow> is_digit x \<and> is_digit y"
  by (auto simp: tens_ones_def is_digit_def code_def)

lemma second_octet: "b < 256 \<Longrightarrow> (case show_nat b of [x, y] \<Rightarrow> tens_ones x y | _ \<Rightarrow> False) \<longleftrightarrow> 16 \<le> b \<and> b \<le> 31"
proof -
  have "list_all (\<lambda>b. (case show_nat b of [x, y] \<Rightarrow> tens_ones x y | _ \<Rightarrow> False) = (16 \<le> b \<and> b \<le> 31)) [0 ..< 256]" by code_simp
  then show "b < 256 \<Longrightarrow> ?thesis" by (simp add: list_all_iff)
qed

lemma two_digits_dot: "tens_ones x y \<Longrightarrow> show_nat b @ ''.'' @ r = [x, y] @ ''.'' @ t \<longleftrightarrow> show_nat b = [x, y] \<and> r = t"
  using digits_prefix_free [of "show_nat b" "[x, y]" "''.'' @ r" "''.'' @ t"] tens_ones_digits [of x y]
  by (auto simp: show_nat_digits no_digit_dot simp del: append.simps)

lemma leaves_one: "leaves (Times (Suc 0) p) s t \<longleftrightarrow> (\<exists>c. s = c # t \<and> p c)"
  by (auto simp: leaves_simps length_Suc_conv)

lemma leaves_172: "leaves PRIVATE_172 s t \<longleftrightarrow> (\<exists>x y. s = ''172.'' @ [x, y] @ ''.'' @ t \<and> tens_ones x y)"
  by (auto simp: PRIVATE_172_def one_of_def leaves_one One_nat_def leaves_Lit leaves_simps(3,4) tens_ones_def)

lemma range_172:
  assumes "b < 256"
  shows "regex_test PRIVATE_172 (show_nat a @ ''.'' @ show_nat b @ ''.'' @ r) \<longleftrightarrow> a = 172 \<and> 16 \<le> b \<and> b \<le> 31"
proof -
  have "regex_test PRIVATE_172 (show_nat a @ ''.'' @ show_nat b @ ''.'' @ r)
      \<longleftrightarrow> (\<exists>x y t. a = 172 \<and> show_nat b @ ''.'' @ r = [x, y] @ ''.'' @ t \<and> tens_ones x y)"
    unfolding regex_test_leaves leaves_172 shown_numbers(3) number_dot_eq by blast
  also have "\<dots> \<longleftrightarrow> a = 172 \<and> (\<exists>x y. show_nat b = [x, y] \<and> tens_ones x y)"
  proof -
    have "a = 172 \<and> show_nat b @ ''.'' @ r = [x, y] @ ''.'' @ t \<and> tens_ones x y \<longleftrightarrow> a = 172 \<and> (show_nat b = [x, y] \<and> r = t) \<and> tens_ones x y" for x y t
      using two_digits_dot by blast
    then show ?thesis by (simp only:) blast
  qed
  also have "\<dots> \<longleftrightarrow> a = 172 \<and> 16 \<le> b \<and> b \<le> 31"
    unfolding second_octet [OF assms, symmetric] by (auto split: list.split)
  finally show ?thesis .
qed

lemma ipv4_re:
  assumes "b < 256"
  shows "regex_test CALLBACK_PRIVATE_IPV4_RE (quad a b c d) \<longleftrightarrow> private_range a b"
    and "regex_test PRIVATE_IPV4_RE (quad a b c d) \<longleftrightarrow> private_range a b \<or> a = 0"
proof -
  have "(\<exists>t. quad a b c d = ''127.'' @ t) \<longleftrightarrow> a = 127" "(\<exists>t. quad a b c d = ''10.'' @ t) \<longleftrightarrow> a = 10"
    "(\<exists>t. quad a b c d = ''192.168.'' @ t) \<longleftrightarrow> a = 192 \<and> b = 168" "(\<exists>t. quad a b c d = ''169.254.'' @ t) \<longleftrightarrow> a = 169 \<and> b = 254"
    "(\<exists>t. quad a b c d = ''0.'' @ t) \<longleftrightarrow> a = 0"
    unfolding shown_numbers quad_def number_dot_eq by auto
  moreover have "regex_test PRIVATE_172 (quad a b c d) \<longleftrightarrow> a = 172 \<and> 16 \<le> b \<and> b \<le> 31" unfolding quad_def by (rule range_172 [OF assms])
  ultimately show "regex_test CALLBACK_PRIVATE_IPV4_RE (quad a b c d) \<longleftrightarrow> private_range a b"
    "regex_test PRIVATE_IPV4_RE (quad a b c d) \<longleftrightarrow> private_range a b \<or> a = 0"
    by (auto simp: CALLBACK_PRIVATE_IPV4_RE_def PRIVATE_IPV4_RE_def test_Alt test_Lit private_range_def)
qed

lemma quad_ends: "hd (quad a b c d) = hd (show_nat a)" "last (quad a b c d) = last (show_nat d)" "quad a b c d \<noteq> []"
  by (simp_all add: quad_def)

lemma quad_digits: "is_digit (hd (quad a b c d))" "is_digit (last (quad a b c d))"
  using hd_show_nat_digit [of a] show_nat_digits [of d] by (simp_all add: quad_ends list_all_iff)

lemma quad_plain:
  "strip_brackets (quad a b c d) = quad a b c d" "quad a b c d \<noteq> ''localhost''" "\<not> ends_with ''.local'' (quad a b c d)"
  "\<not> regex_test CALLBACK_PRIVATE_IPV6_RE (to_lower (quad a b c d))"
proof -
  note q = quad_digits [of a b c d]
  have nd: "\<not> is_digit CHR ''[''" "\<not> is_digit CHR ''l''" "\<not> is_digit CHR '':''" "\<not> is_digit CHR ''f''" by (simp_all add: is_digit_def code_def)
  obtain x s where xs: "quad a b c d = x # s" using quad_ends(3) [of a b c d] by (cases "quad a b c d") auto
  then have x: "is_digit x" using q by simp
  then have lx: "lower_char x = x" by (auto simp: lower_char_def is_digit_def is_upper_def)
  show "strip_brackets (quad a b c d) = quad a b c d" using x nd by (auto simp: strip_brackets_def starts_with_def xs)
  show "quad a b c d \<noteq> ''localhost''" using q(1) nd by auto
  show "\<not> ends_with ''.local'' (quad a b c d)"
  proof
    assume "ends_with ''.local'' (quad a b c d)"
    then obtain t where "rev (quad a b c d) = rev ''.local'' @ t" unfolding ends_with_def starts_with_iff by blast
    then have "hd (rev (quad a b c d)) = CHR ''l''" by simp
    then have "last (quad a b c d) = CHR ''l''" by (simp only: hd_rev)
    then show False using q(2) nd by simp
  qed
  show "\<not> regex_test CALLBACK_PRIVATE_IPV6_RE (to_lower (quad a b c d))"
    using x nd lx by (auto simp: CALLBACK_PRIVATE_IPV6_RE_def regex_test_leaves matching xs to_lower_def)
qed

lemma split_dot_append: "CHR ''.'' \<notin> set x \<Longrightarrow> split_dot (x @ ''.'' @ y) = x # split_dot y"
  by (induction x) auto

lemma split_dot_single: "CHR ''.'' \<notin> set x \<Longrightarrow> split_dot x = [x]"
  by (induction x) auto

lemma octet_show: "n < 256 \<Longrightarrow> octet (show_nat n)"
  by (simp add: octet_def show_nat_digits)

lemma quad_is_ipv4: "a < 256 \<Longrightarrow> b < 256 \<Longrightarrow> c < 256 \<Longrightarrow> d < 256 \<Longrightarrow> isIPv4 (quad a b c d)"
proof -
  have "CHR ''.'' \<notin> set (show_nat n)" for n using digits_avoid [OF show_nat_digits] by (simp add: is_digit_def code_def)
  then have "split_dot (quad a b c d) = [show_nat a, show_nat b, show_nat c, show_nat d]"
    unfolding quad_def by (simp only: split_dot_append split_dot_single simp_thms)
  then show "a < 256 \<Longrightarrow> b < 256 \<Longrightarrow> c < 256 \<Longrightarrow> d < 256 \<Longrightarrow> isIPv4 (quad a b c d)" by (simp add: isIPv4_def octet_show)
qed

text \<open>And a version 4 literal is such a quadruple.\<close>

lemma join_dots: "concat (map (\<lambda>p. p @ ''.'') (split_dot h)) = h @ ''.''"
proof (induction h)
  case (Cons c h)
  then show ?case by (cases "split_dot h") auto
qed simp

lemma ipv4_is_quad: "isIPv4 h \<Longrightarrow> \<exists>a b c d. a < 256 \<and> b < 256 \<and> c < 256 \<and> d < 256 \<and> h = quad a b c d"
proof -
  assume h: "isIPv4 h"
  then obtain p q r s where l: "split_dot h = [p, q, r, s]" "octet p" "octet q" "octet r" "octet s"
    by (auto simp: isIPv4_def length_Suc_conv eval_nat_numeral)
  have n: "parse_nat x < 256 \<and> show_nat (parse_nat x) = x" if "octet x" for x using that by (simp add: octet_def)
  have "h @ ''.'' = quad (parse_nat p) (parse_nat q) (parse_nat r) (parse_nat s) @ ''.''"
    using join_dots [of h] n l by (simp add: quad_def)
  then have "h = quad (parse_nat p) (parse_nat q) (parse_nat r) (parse_nat s)" by simp
  then show ?thesis using n l by blast
qed

lemma guard_on_quad:
  assumes "a < 256" "b < 256" "c < 256" "d < 256"
  shows "isPrivateOrLoopbackHost ip6 (quad a b c d) \<longleftrightarrow> private_range a b \<or> a = 0"
  using quad_is_ipv4 [OF assms] ipv4_re [OF assms(2)] by (simp add: isPrivateOrLoopbackHost_def quad_plain isIP_def Let_def)

section \<open>Lemmas: internal hosts\<close>

text \<open>What must not be reached, stated on names, octets and 16-bit groups: \<open>localhost\<close> and the names below \<open>.local\<close>; the private
  ranges and \<open>0/8\<close> of version 4; of version 6 the loopback \<open>::1\<close>, the unique-local range \<open>fc00::/7\<close> and the block \<open>fe80::/16\<close>
  of the link-local range, with groups written as a URL writes them.\<close>

definition internal_name :: "string \<Rightarrow> bool" where
  "internal_name h \<longleftrightarrow> h = ''localhost'' \<or> (\<exists>p. h = p @ ''.local'')"

definition internal_v4 :: "string \<Rightarrow> bool" where
  "internal_v4 h \<longleftrightarrow> (\<exists>a b c d. a < 256 \<and> b < 256 \<and> c < 256 \<and> d < 256 \<and> h = quad a b c d \<and> (private_range a b \<or> a = 0))"

definition internal_v6 :: "string \<Rightarrow> bool" where
  "internal_v6 h \<longleftrightarrow> to_lower h = ''::1''
     \<or> (\<exists>g rest. to_lower h = show_hex g @ '':'' @ rest \<and> (0xfc00 \<le> g \<and> g \<le> 0xfdff \<or> g = 0xfe80))"

definition internal :: "(string \<Rightarrow> bool) \<Rightarrow> string \<Rightarrow> bool" where
  "internal ip6 h \<longleftrightarrow> internal_name h \<or> internal_v4 h \<or> ip6 h \<and> internal_v6 h"

lemma show_hex_4:
  assumes "4096 \<le> v" "v < 65536"
  shows "show_hex v = [hex_digit (v div 4096), hex_digit (v div 256 mod 16), hex_digit (v div 16 mod 16), hex_digit (v mod 16)]"
proof -
  have "show_hex v = show_hex (v div 16) @ [hex_digit (v mod 16)]" using assms by (subst show_hex.simps) simp
  moreover have "show_hex (v div 16) = show_hex (v div 256) @ [hex_digit (v div 16 mod 16)]"
    using assms by (subst show_hex.simps) (simp add: div_mult2_eq [symmetric])
  moreover have "show_hex (v div 256) = show_hex (v div 4096) @ [hex_digit (v div 256 mod 16)]"
    using assms by (subst show_hex.simps) (simp add: div_mult2_eq [symmetric])
  moreover have "show_hex (v div 4096) = [hex_digit (v div 4096)]" using assms by (subst show_hex.simps) simp
  ultimately show ?thesis by simp
qed

lemma unique_local_text:
  assumes "0xfc00 \<le> v" "v \<le> 0xfdff"
  shows "\<exists>t. show_hex v = ''fc'' @ t \<or> show_hex v = ''fd'' @ t"
proof -
  have v: "4096 \<le> v" "v < 65536" using assms by simp_all
  have "v div 4096 = 15" using assms by (intro div_nat_eqI) simp_all
  moreover have "252 \<le> v div 256" "v div 256 < 254" using assms by (simp_all add: less_eq_div_iff_mult_less_eq div_less_iff_less_mult)
  then have "v div 256 = 252 \<or> v div 256 = 253" by linarith
  then have "v div 256 mod 16 = 12 \<or> v div 256 mod 16 = 13" by auto
  moreover have "hex_digit 15 = CHR ''f''" "hex_digit 12 = CHR ''c''" "hex_digit 13 = CHR ''d''" by code_simp+
  ultimately show ?thesis unfolding show_hex_4 [OF v] by (elim disjE) simp_all
qed

lemma link_local_text: "show_hex 0xfe80 = ''fe80''"
proof -
  have "hex_digit 15 = CHR ''f''" "hex_digit 14 = CHR ''e''" "hex_digit 8 = CHR ''8''" "hex_digit 0 = CHR ''0''" by code_simp+
  then show ?thesis by (simp add: show_hex_4)
qed

lemma ends_with_iff: "ends_with p h \<longleftrightarrow> (\<exists>t. h = t @ p)"
proof
  assume "ends_with p h"
  then obtain t where "rev h = rev p @ t" by (auto simp: ends_with_def starts_with_iff)
  then have "h = rev t @ p" by (metis rev_append rev_rev_ident)
  then show "\<exists>t. h = t @ p" ..
qed (auto simp: ends_with_def starts_with_iff)

lemma refused_v6: "internal_v6 h \<Longrightarrow> regex_test PRIVATE_IPV6_RE (to_lower h)"
  unfolding internal_v6_def
proof (elim disjE exE conjE)
  assume "to_lower h = ''::1''"
  then show ?thesis by (simp add: PRIVATE_IPV6_RE_def test_Alt) (simp add: regex_test_leaves leaves_Lit leaves_simps)
next
  fix g rest assume g: "to_lower h = show_hex g @ '':'' @ rest" "0xfc00 \<le> g" "g \<le> 0xfdff"
  then show ?thesis using unique_local_text [OF g(2,3)] by (auto simp: PRIVATE_IPV6_RE_def test_Alt test_Lit)
next
  fix g rest assume "to_lower h = show_hex g @ '':'' @ rest" "g = 0xfe80"
  then show ?thesis by (simp add: PRIVATE_IPV6_RE_def test_Alt test_Lit link_local_text)
qed

lemma quad_not_v6: "\<not> internal_v6 (quad a b c d)"
proof
  assume "internal_v6 (quad a b c d)"
  then have "hd (to_lower (quad a b c d)) \<in> {CHR '':'', CHR ''f''}"
    using unique_local_text link_local_text by (fastforce simp: internal_v6_def)
  moreover have "hd (to_lower (quad a b c d)) = lower_char (hd (quad a b c d))" by (simp add: to_lower_def hd_map quad_ends(3))
  moreover have "lower_char x = x" if "is_digit x" for x using that by (auto simp: lower_char_def is_digit_def is_upper_def)
  ultimately have "is_digit CHR '':'' \<or> is_digit CHR ''f''" using quad_digits(1) [of a b c d] by auto
  then show False by (simp add: is_digit_def code_def)
qed

text \<open>The guard refuses every internal host.\<close>

lemma internal_refused: "internal ip6 (strip_brackets h) \<Longrightarrow> isPrivateOrLoopbackHost ip6 h"
proof -
  let ?h = "strip_brackets h"
  assume "internal ip6 ?h"
  then consider (name) "internal_name ?h"
    | (v4) a b c d where "a < 256" "b < 256" "c < 256" "d < 256" "?h = quad a b c d" "private_range a b \<or> a = 0"
    | (v6) "ip6 ?h" "internal_v6 ?h" "\<not> isIPv4 ?h"
    using ipv4_is_quad [of ?h] quad_not_v6 unfolding internal_def internal_v4_def by metis
  then show ?thesis
  proof cases
    case name
    then show ?thesis by (auto simp: internal_name_def isPrivateOrLoopbackHost_def ends_with_iff Let_def)
  next
    case v4
    then show ?thesis using quad_is_ipv4 [OF v4(1-4)] ipv4_re(2) [OF v4(2)] by (simp add: isPrivateOrLoopbackHost_def isIP_def Let_def)
  next
    case v6
    then show ?thesis using refused_v6 by (simp add: isPrivateOrLoopbackHost_def isIP_def Let_def)
  qed
qed

section \<open>Lemmas: the post and the catalogue\<close>

text \<open>With \<open>n\<close> attempts left the loop stops at the first good one of the last \<open>n\<close>, or fails after the last.\<close>

lemma post_loop_spec:
  "n \<le> m \<Longrightarrow> (case find (\<lambda>k. response_ok (fetch k)) [Suc (m - n) ..< Suc m] of
      Some k \<Rightarrow> pr_ok (post_loop fetch m n ls waits) \<and> pr_attempts (post_loop fetch m n ls waits) = int k
    | None \<Rightarrow> \<not> pr_ok (post_loop fetch m n ls waits) \<and> pr_attempts (post_loop fetch m n ls waits) = int m)"
proof (induction n arbitrary: ls waits)
  case (Suc n)
  have "[Suc (m - Suc n) ..< Suc m] = (m - n) # [Suc (m - n) ..< Suc m]" using Suc.prems by (simp add: Suc_diff_Suc upt_conv_Cons del: upt_Suc)
  note split = this
  let ?w = "if m - n < m then waits @ [backoff (m - n)] else waits"
  show ?case
  proof (cases "response_ok (fetch (m - n))")
    case False
    then have "post_loop fetch m (Suc n) ls waits = post_loop fetch m n (response_status (fetch (m - n))) ?w" by (simp add: Let_def)
    moreover have "find (\<lambda>k. response_ok (fetch k)) ((m - n) # [Suc (m - n) ..< Suc m]) = find (\<lambda>k. response_ok (fetch k)) [Suc (m - n) ..< Suc m]"
      using False by (simp del: upt_Suc)
    ultimately show ?thesis unfolding split using Suc.IH [OF Suc_leD [OF Suc.prems]] by (simp only:)
  qed (simp add: split Let_def del: upt_Suc)
qed simp

lemma post_loop_waits:
  "n \<le> m \<Longrightarrow> sum_list (pr_waits (post_loop fetch m n ls waits)) \<le> sum_list waits + 400 * int (n - 1)"
proof (induction n arbitrary: ls waits)
  case (Suc n)
  let ?w = "if m - n < m then waits @ [backoff (m - n)] else waits"
  have "sum_list ?w \<le> sum_list waits + (if n = 0 then 0 else 400)" using Suc.prems by (auto simp: backoff_def)
  moreover have "sum_list (pr_waits (post_loop fetch m n (response_status (fetch (m - n))) ?w)) \<le> sum_list ?w + 400 * int (n - 1)"
    using Suc.IH Suc.prems by simp
  ultimately have "sum_list (pr_waits (post_loop fetch m n (response_status (fetch (m - n))) ?w)) \<le> sum_list waits + 400 * int n"
    by (cases n) auto
  then show ?case by (simp add: Let_def)
qed simp

lemma add_row_eq:
  "distinct (map pe_id ps) \<Longrightarrow> add_row row ps = (if cr_provider_id row \<in> pe_id ` set ps
     then map (\<lambda>p. if pe_id p = cr_provider_id row then p\<lparr>pe_items := pe_items p @ row_items row\<rparr> else p) ps
     else ps @ [\<lparr>pe_id = cr_provider_id row, pe_descriptor = cr_descriptor row, pe_items = row_items row\<rparr>])"
proof (induction ps)
  case (Cons p ps)
  then have "pe_id p \<notin> pe_id ` set ps" by simp
  then have "\<forall>q \<in> set ps. pe_id q \<noteq> pe_id p" by (metis image_eqI)
  then have same: "pe_id p = cr_provider_id row \<Longrightarrow> map (\<lambda>p. if pe_id p = cr_provider_id row then p\<lparr>pe_items := pe_items p @ row_items row\<rparr> else p) ps = ps"
    by (intro map_idI) auto
  show ?case using Cons same by (cases "pe_id p = cr_provider_id row") auto
qed simp

text \<open>The catalogue as a whole: the providers in the order of their first rows, each with the descriptor of its first row and the
  items of all its rows.\<close>

definition provider_ids :: "BppCatalogRow list \<Rightarrow> string list" where
  "provider_ids rows = rev (remdups (rev (map cr_provider_id rows)))"

definition provider_entry_of :: "BppCatalogRow list \<Rightarrow> string \<Rightarrow> provider_entry" where
  "provider_entry_of rows k = \<lparr>pe_id = k, pe_descriptor = (case find (\<lambda>r. cr_provider_id r = k) rows of None \<Rightarrow> None | Some r \<Rightarrow> cr_descriptor r),
     pe_items = concat (map row_items (filter (\<lambda>r. cr_provider_id r = k) rows))\<rparr>"

lemma provider_ids_snoc: "provider_ids (rows @ [r]) = (if cr_provider_id r \<in> set (provider_ids rows) then provider_ids rows
    else provider_ids rows @ [cr_provider_id r])"
  by (simp add: provider_ids_def)

lemma set_provider_ids: "set (provider_ids rows) = cr_provider_id ` set rows"
  by (simp add: provider_ids_def)

lemma distinct_provider_ids: "distinct (provider_ids rows)"
  by (simp add: provider_ids_def)

lemma entry_snoc:
  "provider_entry_of (rows @ [r]) k = (if k = cr_provider_id r then (if k \<in> cr_provider_id ` set rows
       then (provider_entry_of rows k)\<lparr>pe_items := pe_items (provider_entry_of rows k) @ row_items r\<rparr>
       else \<lparr>pe_id = k, pe_descriptor = cr_descriptor r, pe_items = row_items r\<rparr>)
     else provider_entry_of rows k)"
proof -
  have none: "find (\<lambda>r. cr_provider_id r = k) rows = None \<longleftrightarrow> k \<notin> cr_provider_id ` set rows" by (auto simp: find_None_iff)
  have f: "find P (xs @ [x]) = (case find P xs of None \<Rightarrow> (if P x then Some x else None) | Some y \<Rightarrow> Some y)" for P :: "BppCatalogRow \<Rightarrow> bool" and xs x
    by (induction xs) auto
  have e: "filter (\<lambda>r. cr_provider_id r = k) rows = []" if "k \<notin> cr_provider_id ` set rows" using that by (auto simp: filter_empty_conv)
  show ?thesis
  proof (cases "k = cr_provider_id r")
    case k: True
    show ?thesis
    proof (cases "k \<in> cr_provider_id ` set rows")
      case True
      then obtain y where "find (\<lambda>r. cr_provider_id r = k) rows = Some y" using none by (cases "find (\<lambda>r. cr_provider_id r = k) rows") auto
      then show ?thesis using True k by (simp add: provider_entry_of_def f)
    next
      case False
      then show ?thesis using none e k by (simp add: provider_entry_of_def f)
    qed
  next
    case False
    then show ?thesis by (simp add: provider_entry_of_def f split: option.split)
  qed
qed

lemma pe_id_entry [simp]: "pe_id (provider_entry_of rows k) = k"
  by (simp add: provider_entry_of_def)

lemma providers_of_eq: "providers_of rows = map (provider_entry_of rows) (provider_ids rows)"
proof (induction rows rule: rev_induct)
  case Nil
  then show ?case by (simp add: providers_of_def provider_ids_def)
next
  case (snoc r rows)
  let ?k = "cr_provider_id r"
  have ids: "map pe_id (providers_of rows) = provider_ids rows" by (simp add: snoc provider_entry_of_def comp_def)
  have mem: "pe_id ` set (providers_of rows) = cr_provider_id ` set rows" using ids set_provider_ids by (metis list.set_map)
  have step: "providers_of (rows @ [r]) = add_row r (providers_of rows)" by (simp add: providers_of_def)
  have row: "add_row r (providers_of rows) = (if ?k \<in> cr_provider_id ` set rows
     then map (\<lambda>p. if pe_id p = ?k then p\<lparr>pe_items := pe_items p @ row_items r\<rparr> else p) (providers_of rows)
     else providers_of rows @ [\<lparr>pe_id = ?k, pe_descriptor = cr_descriptor r, pe_items = row_items r\<rparr>])"
    using add_row_eq [of "providers_of rows" r] distinct_provider_ids [of rows] unfolding ids mem by simp
  show ?case
  proof (cases "?k \<in> cr_provider_id ` set rows")
    case True
    have "map (\<lambda>p. if pe_id p = ?k then p\<lparr>pe_items := pe_items p @ row_items r\<rparr> else p) (map (provider_entry_of rows) (provider_ids rows))
        = map (provider_entry_of (rows @ [r])) (provider_ids rows)"
      using True by (simp add: entry_snoc)
    moreover have "providers_of (rows @ [r]) = map (\<lambda>p. if pe_id p = ?k then p\<lparr>pe_items := pe_items p @ row_items r\<rparr> else p) (providers_of rows)"
      unfolding step row using True by (simp only: if_True)
    ultimately show ?thesis using True unfolding provider_ids_snoc set_provider_ids snoc by (simp only: if_True)
  next
    case False
    then have other: "k \<noteq> ?k" if "k \<in> set (provider_ids rows)" for k using that set_provider_ids by metis
    have "map (provider_entry_of (rows @ [r])) (provider_ids rows) = map (provider_entry_of rows) (provider_ids rows)"
      by (intro map_cong refl) (simp add: entry_snoc other)
    then show ?thesis using False unfolding step row provider_ids_snoc set_provider_ids by (simp add: snoc entry_snoc)
  qed
qed

section \<open>Properties\<close>

text \<open>C38. On every version 4 address both guards compute the private ranges exactly; the guard of the outbound role also refuses \<open>0.0.0.0/8\<close>, which the guard of the callback lets through.\<close>

theorem guards_on_ipv4:
  assumes "a < 256" "b < 256" "c < 256" "d < 256"
  shows "(isPrivateHost (quad a b c d) \<longleftrightarrow> private_range a b) \<and> (isPrivateOrLoopbackHost ip6 (quad a b c d) \<longleftrightarrow> private_range a b \<or> a = 0)"
  using quad_is_ipv4 [OF assms] ipv4_re [OF assms(2)]
  by (simp add: isPrivateHost_def isPrivateOrLoopbackHost_def quad_plain isIP_def Let_def)

theorem guards_on_ipv4_witness:
  "isPrivateHost (quad 172 31 0 1) \<and> \<not> isPrivateHost (quad 172 32 0 1) \<and> \<not> isPrivateHost (quad 0 0 0 0) \<and> isPrivateOrLoopbackHost (\<lambda>_. False) (quad 0 0 0 0)"
  using guards_on_ipv4 [of 172 31 0 1 "\<lambda>_. False"] guards_on_ipv4 [of 172 32 0 1 "\<lambda>_. False"] guards_on_ipv4 [of 0 0 0 0 "\<lambda>_. False"]
  by (simp add: private_range_def)

text \<open>C20. Unless private callbacks are allowed, the dispatcher posts only to an HTTP address whose host, and for a name the address it resolves to, is not internal: not \<open>localhost\<close> or a name below \<open>.local\<close>, no version 4 address in a private range or in \<open>0.0.0.0/8\<close>, and none of the version 6 addresses \<open>::1\<close>, \<open>fc00::/7\<close> and \<open>fe80::/16\<close>; what it posts is a valid answer that lists each provider of the rows once, in the order of the first rows and with all their items.\<close>

theorem dispatch_is_guarded:
  assumes "dispatchOnSearch d e c h = (n, r, Some (target, env))" "\<not> ob_allowPrivate d"
  shows "\<exists>protocol host. ob_url d (bc_bap_uri c) = Some (protocol, host) \<and> protocol \<in> {''http:'', ''https:''}
      \<and> \<not> internal (ob_ip6 d) (strip_brackets host)
      \<and> (isIPv4 (strip_brackets host) \<or> ob_ip6 d (strip_brackets host)
         \<or> (\<exists>address. ob_dns d host = Some address \<and> \<not> internal (ob_ip6 d) (strip_brackets address)))
      \<and> target = target_url (bc_bap_uri c) \<and> validateOnSearchEnvelope (ob_fmt d) env \<and> env = buildBppOnSearchEnvelope e c (ob_rows d h)
      \<and> providers_of (ob_rows d h) = map (provider_entry_of (ob_rows d h)) (provider_ids (ob_rows d h)) \<and> n = length (provider_ids (ob_rows d h))"
proof -
  obtain protocol host where u: "ob_url d (bc_bap_uri c) = Some (protocol, host)"
    using assms(1) by (auto simp: dispatchOnSearch_def postBppOnSearch_def Let_def split: option.splits if_splits)
  then have "protocol \<in> {''http:'', ''https:''}" "\<not> isPrivateOrLoopbackHostResolved (ob_ip6 d) (ob_dns d) host"
    "target = target_url (bc_bap_uri c)" "validateOnSearchEnvelope (ob_fmt d) env" "env = buildBppOnSearchEnvelope e c (ob_rows d h)"
    "n = length (providers_of (ob_rows d h))"
    using assms by (auto simp: dispatchOnSearch_def postBppOnSearch_def Let_def split: if_splits prod.splits)
  moreover from this(2) have "\<not> internal (ob_ip6 d) (strip_brackets host)"
    "isIPv4 (strip_brackets host) \<or> ob_ip6 d (strip_brackets host)
      \<or> (\<exists>address. ob_dns d host = Some address \<and> \<not> internal (ob_ip6 d) (strip_brackets address))"
    using internal_refused by (auto simp: isPrivateOrLoopbackHostResolved_def isIP_def split: if_splits option.splits)
  ultimately show ?thesis using u providers_of_eq [of "ob_rows d h"] by simp
qed

text \<open>The retrying post stops at the first attempt that is answered well and reports it; when none of the allowed attempts is, it reports failure after all of them, having waited at most 400 milliseconds before each repetition.\<close>

theorem callback_attempts_bounded:
  assumes "postOnSearch url allowPrivate uri retries fetch = Inr r"
  shows "(case find (\<lambda>k. response_ok (fetch k)) [1 ..< or_default retries 2 + 2] of
       Some k \<Rightarrow> pr_ok r \<and> pr_attempts r = int k
     | None \<Rightarrow> \<not> pr_ok r \<and> pr_attempts r = int (or_default retries 2 + 1))
   \<and> sum_list (pr_waits r) \<le> 400 * int (or_default retries 2)"
proof -
  let ?m = "or_default retries 2 + 1"
  have r: "r = post_loop fetch ?m ?m 0 []" using assms by (simp add: postOnSearch_def Let_def del: post_loop.simps split: sum.splits)
  show ?thesis
    using post_loop_spec [of ?m ?m fetch 0 "[]"] post_loop_waits [of ?m ?m fetch 0 "[]"] unfolding r by (simp del: post_loop.simps upt_Suc)
qed

definition demo_out :: OutboundBppDeps where
  "demo_out = \<lparr>ob_rows = (\<lambda>h. [\<lparr>cr_provider_id = ''p'', cr_descriptor = None, cr_items = Some [JNull]\<rparr>,
       \<lparr>cr_provider_id = ''p'', cr_descriptor = None, cr_items = Some [JBool True]\<rparr>]),
     ob_url = (\<lambda>u. Some (''https:'', ''bap.example'')), ob_ip6 = (\<lambda>_. False), ob_dns = (\<lambda>h. Some (quad 8 8 8 8)), ob_fmt = (\<lambda>_ _. True),
     ob_allowPrivate = False, ob_post = (\<lambda>_ _. (200, 1))\<rparr>"

definition demo_bap :: BecknContext where
  "demo_bap = \<lparr>bc_domain = ''retail'', bc_bap_id = ''bap'', bc_bap_uri = ''https://bap.example'', bc_transaction_id = ''t'', bc_ttl = None, bc_location = None\<rparr>"

definition demo_bridge :: bridge_env where
  "demo_bridge = \<lparr>be_bpp_id = None, be_bpp_uri = None, be_uuid = ''m'', be_timestamp = ''now''\<rparr>"

lemma demo_not_private: "\<not> isPrivateOrLoopbackHostResolved (\<lambda>_. False) (\<lambda>h. Some (quad 8 8 8 8)) ''bap.example''"
proof -
  have "\<not> isPrivateOrLoopbackHost (\<lambda>_. False) ''bap.example''" by code_simp
  then show ?thesis
    using guard_on_quad [of 8 8 8 8 "\<lambda>_. False"] by (auto simp: isPrivateOrLoopbackHostResolved_def private_range_def)
qed

lemma demo_valid: "validateOnSearchEnvelope (\<lambda>_ _. True) (buildBppOnSearchEnvelope demo_bridge demo_bap (ob_rows demo_out h))"
  by (simp add: validateOnSearchEnvelope_def buildBppOnSearchEnvelope_def demo_bridge_def demo_bap_def demo_out_def has_string_def field_def own_field_def
      provider_ok_def provider_json_def providers_of_def row_items_def or_default_def)

theorem dispatch_is_guarded_witness:
  "\<exists>n r target env. dispatchOnSearch demo_out demo_bridge demo_bap ''h'' = (n, r, Some (target, env)) \<and> n = 1"
proof -
  obtain n r target env where res: "dispatchOnSearch demo_out demo_bridge demo_bap ''h'' = (n, r, Some (target, env))"
    using demo_not_private demo_valid [of "''h''"]
    by (simp add: dispatchOnSearch_def postBppOnSearch_def Let_def demo_out_def)
  have "n = length (provider_ids (ob_rows demo_out ''h''))" using dispatch_is_guarded [OF res] by (simp add: demo_out_def)
  then have "n = 1" by (simp add: demo_out_def provider_ids_def)
  with res show ?thesis by blast
qed

theorem callback_attempts_bounded_witness:
  "\<exists>r. postOnSearch (\<lambda>u. Some (''https:'', quad 8 8 8 8)) True ''u'' None (\<lambda>k. if k < 3 then NetworkError else Response 200) = Inr r
     \<and> pr_ok r \<and> pr_attempts r = 3 \<and> sum_list (pr_waits r) \<le> 800"
proof -
  let ?f = "\<lambda>k :: nat. if k < 3 then NetworkError else Response 200"
  obtain r where r: "postOnSearch (\<lambda>u. Some (''https:'', quad 8 8 8 8)) True ''u'' None ?f = Inr r"
    by (simp add: postOnSearch_def validateCallbackUri_def Let_def)
  have "find (\<lambda>k. response_ok (?f k)) [1 ..< or_default None 2 + 2] = Some 3" by (simp add: or_default_def response_ok_def upt_rec)
  then show ?thesis using callback_attempts_bounded [OF r] r by (simp add: or_default_def)
qed

section \<open>Findings\<close>

text \<open>Version 6 addresses that the guards let through: the rest of the link-local range \<open>fe80::/10\<close> (the documentation of the
  guard lists the whole range), the unspecified address and an embedded loopback address of version 4.\<close>

lemma internal_v6_not_refused:
  "\<not> isPrivateOrLoopbackHost (\<lambda>h. \<not> isIPv4 h) ''[fe90::1]''" "\<not> isPrivateOrLoopbackHost (\<lambda>h. \<not> isIPv4 h) ''[::]''"
  "\<not> isPrivateOrLoopbackHost (\<lambda>h. \<not> isIPv4 h) ''[::ffff:7f00:1]''"
  "\<not> isPrivateHost ''[fe90::1]''" "\<not> isPrivateHost ''[::]''" "\<not> isPrivateHost ''[::ffff:7f00:1]''" "\<not> isPrivateHost ''[fd00::1]''"
  by code_simp+

end
