(* ===== verification/Beckn_Auth.thy ===== *)
theory Beckn_Auth
  imports Beckn_Envelope
begin

text \<open>
  The signature header of a Beckn message: \<^verbatim>\<open>src/gateway/beckn-auth.ts\<close>. \<open>blake\<close> is BLAKE2b-512 and \<open>ed_sign\<close>, \<open>ed_verify\<close> are the
  Ed25519 calls of the package \<open>noble\<close>, on bytes; an exception of the check counts as a refusal, as in the code. The lemmas show
  that a header made by \<open>signBecknAuthHeader\<close> is read back and accepted within its time window, and that the signing string
  determines the digest whatever fields a header claims to sign, so that an accepted header authenticates the body.
\<close>

section \<open>Reading the header\<close>

datatype BecknAuthFailureCode = MISSING_AUTH | MALFORMED_AUTH | WRONG_ALGORITHM | EXPIRED_AUTH | UNKNOWN_KEY | BAD_SIGNATURE

record auth_failure =
  af_code :: BecknAuthFailureCode
  af_reason :: "string option"

record auth_success =
  as_keyId :: string
  as_subscriberId :: string
  as_uniqueKeyId :: string

record ParsedAuthHeader =
  ph_keyId :: string
  ph_algorithm :: string
  ph_created :: jsnumber
  ph_expires :: jsnumber
  ph_headers :: "string list"
  ph_signature :: string

text \<open>\<open>.replace(/^Signature\s+/i, "")\<close>.\<close>

definition strip_scheme :: "string \<Rightarrow> string" where
  "strip_scheme s = (if to_lower (take 9 s) = ''signature'' \<and> drop 9 s \<noteq> [] \<and> is_space (hd (drop 9 s))
     then dropWhile is_space (drop 9 s) else s)"

text \<open>The state machine that splits at commas outside quotes: the open quote, the part so far, the rest.\<close>

fun split_parts :: "char option \<Rightarrow> string \<Rightarrow> string \<Rightarrow> string list" where
  "split_parts q buf [] = (if buf = [] then [] else [buf])"
| "split_parts (Some q) buf (c # s) = split_parts (if c = q then None else Some q) (buf @ [c]) s"
| "split_parts None buf (c # s) = (
     if c = CHR 0x22 \<or> c = CHR 0x27 then split_parts (Some c) (buf @ [c]) s
     else if c = CHR '','' then buf # split_parts None [] s
     else split_parts None (buf @ [c]) s)"

definition unquote :: "string \<Rightarrow> string" where
  "unquote v = (if v \<noteq> [] \<and> (hd v = CHR 0x22 \<and> last v = CHR 0x22 \<or> hd v = CHR 0x27 \<and> last v = CHR 0x27) then butlast (tl v) else v)"

definition read_part :: "string \<Rightarrow> (string \<times> string) option" where
  "read_part raw = (if CHR ''='' \<notin> set raw then None
     else Some (trim (takeWhile (\<lambda>c. c \<noteq> CHR ''='') raw), unquote (trim (tl (dropWhile (\<lambda>c. c \<noteq> CHR ''='') raw)))))"

fun read_parts :: "string list \<Rightarrow> (string \<times> string) list option" where
  "read_parts [] = Some []"
| "read_parts (p # ps) = (case read_part p of None \<Rightarrow> None | Some kv \<Rightarrow> map_option (Cons kv) (read_parts ps))"

text \<open>\<open>s.split(/\s+/).filter(Boolean)\<close>.\<close>

fun words_from :: "string \<Rightarrow> string \<Rightarrow> string list" where
  "words_from w [] = (if w = [] then [] else [w])"
| "words_from w (c # s) = (if is_space c then (if w = [] then words_from [] s else w # words_from [] s) else words_from (w @ [c]) s)"

text \<open>The value of a name: the last part wins, and an empty value counts as missing.\<close>

definition header_value :: "(string \<times> string) list \<Rightarrow> string \<Rightarrow> string option" where
  "header_value kvs k = (case map_of (rev kvs) k of None \<Rightarrow> None | Some v \<Rightarrow> if v = [] then None else Some v)"

definition parseBecknAuthHeader :: "string \<Rightarrow> ParsedAuthHeader option" where
  "parseBecknAuthHeader header = (if header = [] then None
     else (case read_parts (split_parts None [] (strip_scheme (trim header))) of None \<Rightarrow> None
     | Some kvs \<Rightarrow> (case (header_value kvs ''keyId'', header_value kvs ''algorithm'', header_value kvs ''created'', header_value kvs ''expires'',
           header_value kvs ''headers'', header_value kvs ''signature'') of
         (Some keyId, Some algorithm, Some created, Some expires, Some headers, Some signature) \<Rightarrow>
           (let cNum = string_to_number created; eNum = string_to_number expires
            in if isFinite cNum \<and> isFinite eNum
               then Some \<lparr>ph_keyId = keyId, ph_algorithm = algorithm, ph_created = cNum, ph_expires = eNum,
                 ph_headers = words_from [] headers, ph_signature = signature\<rparr> else None)
       | _ \<Rightarrow> None)))"

fun split_bar :: "string \<Rightarrow> string list" where
  "split_bar [] = [[]]"
| "split_bar (c # s) = (if c = CHR ''|'' then [] # split_bar s
     else (case split_bar s of [] \<Rightarrow> [[c]] | w # ws \<Rightarrow> (c # w) # ws))"

definition parseKeyId :: "string \<Rightarrow> (string \<times> string \<times> string) option" where
  "parseKeyId keyId = (case split_bar keyId of
       [subscriberId, uniqueKeyId, alg] \<Rightarrow> if subscriberId = [] \<or> uniqueKeyId = [] \<or> alg = [] then None else Some (subscriberId, uniqueKeyId, alg)
     | _ \<Rightarrow> None)"

section \<open>The signing string\<close>

text \<open>\<open>Buffer.prototype.toString("base64")\<close>: the other alphabet, with padding. The decoder reads both.\<close>

definition b64_swap :: "char \<Rightarrow> char" where
  "b64_swap c = (if c = CHR ''-'' then CHR ''+'' else if c = CHR ''_'' then CHR ''/'' else c)"

definition base64 :: "nat list \<Rightarrow> string" where
  "base64 bs = map b64_swap (b64url_encode bs) @ replicate ((3 - length bs mod 3) mod 3) (CHR ''='')"

definition blake512Base64 :: "(nat list \<Rightarrow> nat list) \<Rightarrow> nat list \<Rightarrow> string" where
  "blake512Base64 blake rawBody = base64 (blake rawBody)"

definition STANDARD_HEADERS :: "string list" where
  "STANDARD_HEADERS = [''(created)'', ''(expires)'', ''digest'']"

definition signing_line :: "jsnumber \<Rightarrow> jsnumber \<Rightarrow> string \<Rightarrow> string \<Rightarrow> string" where
  "signing_line created expires digestB64 h = (
     if h = ''(created)'' then ''(created): '' @ number_toString created
     else if h = ''(expires)'' then ''(expires): '' @ number_toString expires
     else if to_lower h = ''digest'' then ''digest: BLAKE-512='' @ digestB64
     else h @ '':'')"

definition buildSigningString :: "jsnumber \<Rightarrow> jsnumber \<Rightarrow> string \<Rightarrow> string list option \<Rightarrow> string" where
  "buildSigningString created expires digestB64 headers
     = join [CHR 10] (map (signing_line created expires digestB64) (or_default headers STANDARD_HEADERS))"

section \<open>Verification and signing\<close>

definition auth_fail :: "BecknAuthFailureCode \<Rightarrow> string option \<Rightarrow> (auth_failure, auth_success) result" where
  "auth_fail c r = Inl \<lparr>af_code = c, af_reason = r\<rparr>"

text \<open>\<open>now\<close> is in seconds; \<open>resolve\<close> is the registry.\<close>

definition verifyBecknAuthHeader :: "(nat list \<Rightarrow> nat list) \<Rightarrow> (nat list \<Rightarrow> nat list \<Rightarrow> nat list \<Rightarrow> bool) \<Rightarrow> string option \<Rightarrow> nat list
    \<Rightarrow> (string \<Rightarrow> nat list option) \<Rightarrow> int \<Rightarrow> (auth_failure, auth_success) result" where
  "verifyBecknAuthHeader blake ed_verify header rawBody resolve now = (case header of
       None \<Rightarrow> auth_fail MISSING_AUTH None
     | Some h \<Rightarrow> if h = [] then auth_fail MISSING_AUTH None
       else (case parseBecknAuthHeader h of None \<Rightarrow> auth_fail MALFORMED_AUTH (Some ''header structure'')
       | Some p \<Rightarrow>
         if to_lower (ph_algorithm p) \<noteq> ''ed25519'' then auth_fail WRONG_ALGORITHM (Some (ph_algorithm p))
         else (case parseKeyId (ph_keyId p) of None \<Rightarrow> auth_fail MALFORMED_AUTH (Some ''keyId'')
         | Some (subscriberId, uniqueKeyId, alg) \<Rightarrow>
           if to_lower alg \<noteq> ''ed25519'' then auth_fail WRONG_ALGORITHM (Some (''keyId alg='' @ alg))
           else if js_less (JInt (now + 60)) (ph_created p) then auth_fail EXPIRED_AUTH (Some ''created in future'')
           else if js_less (ph_expires p) (JInt now) then auth_fail EXPIRED_AUTH (Some ''expires in past'')
           else (case resolve (ph_keyId p) of None \<Rightarrow> auth_fail UNKNOWN_KEY (Some (ph_keyId p))
           | Some pubKey \<Rightarrow>
             if pubKey = [] then auth_fail UNKNOWN_KEY (Some (ph_keyId p))
             else let sigBytes = b64url_decode (ph_signature p) in
               if length sigBytes \<noteq> 64 then auth_fail MALFORMED_AUTH (Some ''signature bytes'')
               else if ed_verify sigBytes (utf8 (buildSigningString (ph_created p) (ph_expires p) (blake512Base64 blake rawBody) (Some (ph_headers p)))) pubKey
               then Inr \<lparr>as_keyId = ph_keyId p, as_subscriberId = subscriberId, as_uniqueKeyId = uniqueKeyId\<rparr>
               else auth_fail BAD_SIGNATURE None))))"

definition quoted_text :: "string \<Rightarrow> string" where
  "quoted_text s = [CHR 0x22] @ s @ [CHR 0x22]"

definition signBecknAuthHeader :: "(nat list \<Rightarrow> nat list) \<Rightarrow> (nat list \<Rightarrow> nat list \<Rightarrow> nat list) \<Rightarrow> nat list \<Rightarrow> string \<Rightarrow> nat list \<Rightarrow> int \<Rightarrow> int \<Rightarrow> string" where
  "signBecknAuthHeader blake ed_sign privateKey keyId rawBody created expires = (
     let signingString = buildSigningString (JInt created) (JInt expires) (blake512Base64 blake rawBody) None;
         sigB64 = base64 (ed_sign (utf8 signingString) privateKey)
     in ''Signature keyId='' @ quoted_text keyId @ '',algorithm='' @ quoted_text ''ed25519'' @ '',created='' @ number_toString (JInt created)
        @ '',expires='' @ number_toString (JInt expires) @ '',headers='' @ quoted_text ''(created) (expires) digest'' @ '',signature='' @ quoted_text sigB64)"

section \<open>Lemmas: the header is read back\<close>

lemma b64_value_swap: "b64_value (b64_swap c) = b64_value c"
proof -
  have "b64_value CHR ''+'' = b64_value CHR ''-''" "b64_value CHR ''/'' = b64_value CHR ''_''" by code_simp+
  then show ?thesis by (simp add: b64_swap_def)
qed

lemma b64_char_ex: "n < 64 \<Longrightarrow> \<exists>m < 64. b64_char n = b64_char m"
  by blast

lemma b64_chars: "\<forall>b \<in> set bs. b < 256 \<Longrightarrow> \<forall>c \<in> set (b64url_encode bs). \<exists>n < 64. c = b64_char n"
proof (induction bs rule: b64url_encode.induct)
  case (1 a b c r)
  then have "a div 4 < 64" "a mod 4 * 16 + b div 16 < 64" "b mod 16 * 4 + c div 64 < 64" by auto
  then show ?case using 1 by (auto intro: b64_char_ex)
next
  case (2 a b)
  then have "a div 4 < 64" "a mod 4 * 16 + b div 16 < 64" "b mod 16 * 4 < 64" by auto
  then show ?case by (auto intro: b64_char_ex)
next
  case (3 a)
  then have "a div 4 < 64" "a mod 4 * 16 < 64" by auto
  then show ?case by (auto intro: b64_char_ex)
qed simp

text \<open>Letters, digits, plus and slash: no text of this alphabet has a quote, a white space or a line end.\<close>

definition plain_char :: "char \<Rightarrow> bool" where
  "plain_char c = (c \<noteq> CHR 0x22 \<and> c \<noteq> CHR 0x27 \<and> \<not> is_space c \<and> c \<noteq> CHR '','')"

lemma b64_plain: "n < 64 \<Longrightarrow> plain_char (b64_swap (b64_char n)) \<and> b64_swap (b64_char n) \<noteq> CHR ''=''"
proof -
  have "list_all (\<lambda>n. plain_char (b64_swap (b64_char n)) \<and> b64_swap (b64_char n) \<noteq> CHR ''='') [0 ..< 64]" by code_simp
  then show "n < 64 \<Longrightarrow> ?thesis" by (simp add: list_all_iff)
qed

lemma base64_plain: "\<forall>b \<in> set bs. b < 256 \<Longrightarrow> c \<in> set (base64 bs) \<Longrightarrow> plain_char c"
proof -
  have "plain_char CHR ''=''" by code_simp
  then show "\<forall>b \<in> set bs. b < 256 \<Longrightarrow> c \<in> set (base64 bs) \<Longrightarrow> plain_char c"
    using b64_chars [of bs] b64_plain by (fastforce simp: base64_def)
qed

lemma base64_roundtrip: "\<forall>b \<in> set bs. b < 256 \<Longrightarrow> b64url_decode (base64 bs) = bs"
proof -
  assume b: "\<forall>b \<in> set bs. b < 256"
  let ?e = "map b64_swap (b64url_encode bs)" and ?p = "replicate ((3 - length bs mod 3) mod 3) (CHR ''='')"
  have "\<forall>c \<in> set ?e. c \<noteq> CHR ''=''" using b64_chars [OF b] b64_plain by fastforce
  then have tw: "takeWhile (\<lambda>c. c \<noteq> CHR ''='') (?e @ ?p) = ?e" by (simp add: takeWhile_append takeWhile_replicate)
  have "\<forall>c \<in> set (b64url_encode bs). c \<noteq> CHR ''=''" using b64_chars [OF b] b64_value_char by fastforce
  then have tw': "takeWhile (\<lambda>c. c \<noteq> CHR ''='') (b64url_encode bs) = b64url_encode bs" by (simp only: takeWhile_eq_all_conv)
  have mf: "List.map_filter b64_value ?e = List.map_filter b64_value (b64url_encode bs)" by (simp add: List.map_filter_def filter_map comp_def b64_value_swap)
  have "b64url_decode (base64 bs) = b64url_decode (b64url_encode bs)" by (simp only: b64url_decode_def base64_def tw tw' mf)
  then show ?thesis using b64url_roundtrip [OF b] by simp
qed

lemma base64_inject: "\<forall>b \<in> set bs. b < 256 \<Longrightarrow> \<forall>b \<in> set cs. b < 256 \<Longrightarrow> base64 bs = base64 cs \<Longrightarrow> bs = cs"
  by (metis base64_roundtrip)

lemma split_parts_plain: "\<forall>c \<in> set x. c \<noteq> CHR 0x22 \<and> c \<noteq> CHR 0x27 \<and> c \<noteq> CHR '','' \<Longrightarrow>
    split_parts None buf (x @ s) = split_parts None (buf @ x) s"
  by (induction x arbitrary: buf) auto

lemma split_parts_quoted: "q \<notin> set x \<Longrightarrow> split_parts (Some q) buf (x @ q # s) = split_parts None (buf @ x @ [q]) s"
  by (induction x arbitrary: buf) auto

text \<open>A part \<open>name=value\<close>, quoted or plain, is split off and read.\<close>

definition letter :: "char \<Rightarrow> bool" where
  "letter c = (is_lower c \<or> is_upper c)"

definition name_ok :: "string \<Rightarrow> bool" where
  "name_ok n = (n \<noteq> [] \<and> list_all letter n)"

lemma name_chars: "name_ok n \<Longrightarrow> c \<in> set n \<Longrightarrow> c \<noteq> CHR 0x22 \<and> c \<noteq> CHR 0x27 \<and> c \<noteq> CHR '','' \<and> c \<noteq> CHR ''='' \<and> \<not> is_space c"
  by (auto simp: name_ok_def list_all_iff letter_def is_lower_def is_upper_def is_space_def code_def)

lemma trim_id: "s = [] \<or> \<not> is_space (hd s) \<and> \<not> is_space (last s) \<Longrightarrow> trim s = s"
proof -
  assume "s = [] \<or> \<not> is_space (hd s) \<and> \<not> is_space (last s)"
  then have "dropWhile is_space s = s" "dropWhile is_space (rev s) = rev s" by (auto simp: dropWhile_eq_self_iff hd_rev)
  then show "trim s = s" by (simp add: trim_def)
qed

lemma split_quoted: "name_ok n \<Longrightarrow> CHR 0x22 \<notin> set v \<Longrightarrow>
    split_parts None [] (n @ ''='' @ quoted_text v @ s) = split_parts None (n @ ''='' @ quoted_text v) s"
  using split_parts_plain [of "n @ ''=''" "[]" "quoted_text v @ s"] name_chars [of n] split_parts_quoted [of "CHR 0x22" v "n @ ''='' @ [CHR 0x22]" s]
  by (auto simp: quoted_text_def)

lemma split_plain: "name_ok n \<Longrightarrow> \<forall>c \<in> set v. plain_char c \<Longrightarrow> split_parts None [] (n @ ''='' @ v @ s) = split_parts None (n @ ''='' @ v) s"
  using split_parts_plain [of "n @ ''='' @ v" "[]" s] name_chars [of n] by (auto simp: plain_char_def)

lemma split_comma: "split_parts None buf ('','' @ s) = buf # split_parts None [] s"
  by simp

lemma until_equals: "name_ok n \<Longrightarrow> takeWhile (\<lambda>c. c \<noteq> CHR ''='') (n @ ''='' @ v) = n \<and> dropWhile (\<lambda>c. c \<noteq> CHR ''='') (n @ ''='' @ v) = ''='' @ v"
  using name_chars [of n] by (auto simp: takeWhile_append dropWhile_append)

lemma trim_name: "name_ok n \<Longrightarrow> trim n = n"
  using name_chars [of n] by (intro trim_id) (auto simp: name_ok_def)

lemma read_quoted: "name_ok n \<Longrightarrow> read_part (n @ ''='' @ quoted_text v) = Some (n, v)"
proof -
  assume n: "name_ok n"
  have "\<not> is_space CHR 0x22" by code_simp
  then have "trim (quoted_text v) = quoted_text v" by (intro trim_id) (simp add: quoted_text_def)
  moreover have "unquote (quoted_text v) = v" by (simp add: unquote_def quoted_text_def)
  ultimately show "read_part (n @ ''='' @ quoted_text v) = Some (n, v)"
    using until_equals [OF n, of "quoted_text v"] trim_name [OF n] by (simp add: read_part_def)
qed

lemma read_plain: "name_ok n \<Longrightarrow> \<forall>c \<in> set v. plain_char c \<Longrightarrow> v \<noteq> [] \<Longrightarrow> read_part (n @ ''='' @ v) = Some (n, v)"
proof -
  assume n: "name_ok n" and v: "\<forall>c \<in> set v. plain_char c" "v \<noteq> []"
  have "hd v \<in> set v" "last v \<in> set v" using v(2) by simp_all
  then have h: "plain_char (hd v)" "plain_char (last v)" using v(1) by blast+
  then have "trim v = v" by (intro trim_id) (simp add: plain_char_def)
  moreover have "unquote v = v" using h by (simp add: unquote_def plain_char_def)
  ultimately show "read_part (n @ ''='' @ v) = Some (n, v)"
    using until_equals [OF n, of v] trim_name [OF n] by (simp add: read_part_def)
qed

lemma digit_plain: "is_digit c \<Longrightarrow> plain_char c"
  by (auto simp: is_digit_def plain_char_def is_space_def code_def)

lemma Number_show_nat:
  assumes "n \<le> 2 ^ 53"
  shows "string_to_number (show_nat n) = JInt (int n)"
proof -
  let ?s = "show_nat n"
  note d = show_nat_digits [of n]
  have h: "is_digit (hd ?s)" "is_digit (last ?s)" using d by (simp_all add: list_all_iff)
  then have t: "trim ?s = ?s" using digit_plain by (intro trim_id) (auto simp: plain_char_def)
  have lower: "to_lower x = x" if "list_all is_digit x" for x
    using that by (induction x) (auto simp: to_lower_def lower_char_def is_digit_def is_upper_def)
  have "list_all is_digit (take 2 ?s)" using d by (simp add: list_all_iff) (meson in_set_takeD)
  then have p: "list_all is_digit (to_lower (take 2 ?s))" by (simp add: lower)
  then have np: "to_lower (take 2 ?s) \<noteq> ''0x''" "to_lower (take 2 ?s) \<noteq> ''0o''" "to_lower (take 2 ?s) \<noteq> ''0b''"
    by (auto simp: is_digit_def code_def)
  have tk: "takeWhile is_digit ?s = ?s" "dropWhile is_digit ?s = []"
    using d unfolding list_all_iff by (simp_all only: takeWhile_eq_all_conv dropWhile_eq_Nil_conv)
  have inf: "?s \<noteq> ''Infinity''" "hd ?s \<noteq> CHR ''-''" "hd ?s \<noteq> CHR ''+''" using h(1) by (auto simp: is_digit_def code_def)
  have "int n \<le> 2 ^ 53" using assms by (metis of_nat_le_iff of_nat_numeral of_nat_power)
  then have "\<bar>int n\<bar> \<le> 2 ^ 53" by simp
  then have "to_double (of_int (int n)) = JInt (int n)" by (rule to_double_int)
  then show ?thesis by (simp add: string_to_number_def t np inf unsigned_literal_def tk read_exponent_def decimal_def)
qed

text \<open>The header as \<open>signBecknAuthHeader\<close> writes it.\<close>

definition header_text :: "string \<Rightarrow> nat \<Rightarrow> nat \<Rightarrow> string \<Rightarrow> string" where
  "header_text keyId created expires sigB64 = ''Signature keyId='' @ quoted_text keyId @ '',algorithm='' @ quoted_text ''ed25519''
     @ '',created='' @ show_nat created @ '',expires='' @ show_nat expires @ '',headers='' @ quoted_text ''(created) (expires) digest''
     @ '',signature='' @ quoted_text sigB64"

lemma names: "name_ok ''keyId''" "name_ok ''algorithm''" "name_ok ''created''" "name_ok ''expires''" "name_ok ''headers''" "name_ok ''signature''"
  by code_simp+

lemma header_parts:
  assumes "CHR 0x22 \<notin> set k" "CHR 0x22 \<notin> set sig"
  shows "split_parts None [] (''keyId='' @ quoted_text k @ '',algorithm='' @ quoted_text ''ed25519''
     @ '',created='' @ show_nat c @ '',expires='' @ show_nat e @ '',headers='' @ quoted_text ''(created) (expires) digest''
     @ '',signature='' @ quoted_text sig)
   = [''keyId'' @ ''='' @ quoted_text k, ''algorithm'' @ ''='' @ quoted_text ''ed25519'', ''created'' @ ''='' @ show_nat c, ''expires'' @ ''='' @ show_nat e,
      ''headers'' @ ''='' @ quoted_text ''(created) (expires) digest'', ''signature'' @ ''='' @ quoted_text sig]"
proof -
  have d: "\<forall>x \<in> set (show_nat n). plain_char x" for n using show_nat_digits [of n] digit_plain by (simp add: list_all_iff)
  have f: "CHR 0x22 \<notin> set ''ed25519''" "CHR 0x22 \<notin> set ''(created) (expires) digest''" by simp_all
  have last: "split_parts None [] (''signature'' @ ''='' @ quoted_text sig) = [''signature'' @ ''='' @ quoted_text sig]"
    using split_quoted [OF names(6) assms(2), of "[]"] by (simp add: quoted_text_def)
  have chain: "split_parts None [] (''keyId'' @ ''='' @ quoted_text k @ '','' @ ''algorithm'' @ ''='' @ quoted_text ''ed25519''
     @ '','' @ ''created'' @ ''='' @ show_nat c @ '','' @ ''expires'' @ ''='' @ show_nat e @ '','' @ ''headers'' @ ''='' @ quoted_text ''(created) (expires) digest''
     @ '','' @ ''signature'' @ ''='' @ quoted_text sig)
   = [''keyId'' @ ''='' @ quoted_text k, ''algorithm'' @ ''='' @ quoted_text ''ed25519'', ''created'' @ ''='' @ show_nat c, ''expires'' @ ''='' @ show_nat e,
      ''headers'' @ ''='' @ quoted_text ''(created) (expires) digest'', ''signature'' @ ''='' @ quoted_text sig]"
    by (simp only: split_quoted [OF names(1) assms(1)] split_quoted [OF names(2) f(1)] split_plain [OF names(3) d] split_plain [OF names(4) d]
        split_quoted [OF names(5) f(2)] split_comma last)
  have eq: "''keyId='' = ''keyId'' @ ''=''" "'',algorithm='' = '','' @ ''algorithm'' @ ''=''" "'',created='' = '','' @ ''created'' @ ''=''"
    "'',expires='' = '','' @ ''expires'' @ ''=''" "'',headers='' = '','' @ ''headers'' @ ''=''" "'',signature='' = '','' @ ''signature'' @ ''=''" by simp_all
  show ?thesis unfolding eq append_assoc by (rule chain)
qed

lemma parse_header:
  assumes "CHR 0x22 \<notin> set k" "CHR 0x22 \<notin> set sig" "k \<noteq> []" "sig \<noteq> []" "c \<le> 2 ^ 53" "e \<le> 2 ^ 53"
  shows "parseBecknAuthHeader (header_text k c e sig) = Some \<lparr>ph_keyId = k, ph_algorithm = ''ed25519'', ph_created = JInt (int c), ph_expires = JInt (int e),
     ph_headers = STANDARD_HEADERS, ph_signature = sig\<rparr>"
proof -
  let ?rest = "''keyId='' @ quoted_text k @ '',algorithm='' @ quoted_text ''ed25519''
     @ '',created='' @ show_nat c @ '',expires='' @ show_nat e @ '',headers='' @ quoted_text ''(created) (expires) digest''
     @ '',signature='' @ quoted_text sig"
  let ?kvs = "[(''keyId'', k), (''algorithm'', ''ed25519''), (''created'', show_nat c), (''expires'', show_nat e),
      (''headers'', ''(created) (expires) digest''), (''signature'', sig)]"
  have h: "header_text k c e sig = ''Signature '' @ ?rest" by (simp add: header_text_def)
  have ns: "\<not> is_space CHR ''S''" "\<not> is_space CHR 0x22" "\<not> is_space CHR ''k''" "is_space CHR '' ''" by code_simp+
  have "trim (header_text k c e sig) = header_text k c e sig"
    using ns by (intro trim_id) (simp add: header_text_def quoted_text_def)
  moreover have "strip_scheme (''Signature '' @ ?rest) = ?rest"
  proof -
    have "take 9 (''Signature '' @ ?rest) = ''Signature''" by simp
    moreover have "to_lower ''Signature'' = ''signature''" by code_simp
    ultimately have "to_lower (take 9 (''Signature '' @ ?rest)) = ''signature''" by simp
    then show ?thesis using ns by (simp add: strip_scheme_def)
  qed
  moreover have d: "\<forall>x \<in> set (show_nat n). plain_char x" for n using show_nat_digits [of n] digit_plain by (simp add: list_all_iff)
  have "read_parts (split_parts None [] ?rest) = Some ?kvs"
    unfolding header_parts [OF assms(1,2)]
    by (simp only: read_parts.simps read_quoted [OF names(1)] read_quoted [OF names(2)] read_quoted [OF names(5)] read_quoted [OF names(6)]
        read_plain [OF names(3) d show_nat_nonempty] read_plain [OF names(4) d show_nat_nonempty] option.case option.map)
  moreover have "words_from [] ''(created) (expires) digest'' = STANDARD_HEADERS" by code_simp
  ultimately show ?thesis
    using assms(3-6) unfolding parseBecknAuthHeader_def h
    by (simp add: header_value_def Number_show_nat Let_def del: append.simps)
qed

lemma split_bar_append: "CHR ''|'' \<notin> set x \<Longrightarrow> split_bar (x @ ''|'' @ y) = x # split_bar y"
  by (induction x) auto

lemma split_bar_single: "CHR ''|'' \<notin> set x \<Longrightarrow> split_bar x = [x]"
  by (induction x) auto

lemma parseKeyId_of:
  assumes "CHR ''|'' \<notin> set s" "CHR ''|'' \<notin> set u" "s \<noteq> []" "u \<noteq> []"
  shows "parseKeyId (s @ ''|'' @ u @ ''|'' @ ''ed25519'') = Some (s, u, ''ed25519'')"
  using assms split_bar_append [OF assms(1), of "u @ ''|'' @ ''ed25519''"] split_bar_append [OF assms(2), of "''ed25519''"] split_bar_single [of "''ed25519''"]
  by (simp add: parseKeyId_def)

section \<open>Lemmas: the signing string\<close>

lemma join_inject:
  assumes "xs \<noteq> []" "ys \<noteq> []" "\<forall>x \<in> set xs. c \<notin> set x" "\<forall>y \<in> set ys. c \<notin> set y" "join [c] xs = join [c] ys"
  shows "xs = ys"
  using assms
proof (induction xs arbitrary: ys)
  case (Cons x xs)
  obtain y ys' where ys: "ys = y # ys'" using Cons.prems(2) by (cases ys) auto
  have j: "join [c] (w # ws) = (if ws = [] then w else w @ c # join [c] ws)" for w ws by (cases ws) simp_all
  have tw: "takeWhile (\<lambda>d. d \<noteq> c) (w @ c # r) = w" "dropWhile (\<lambda>d. d \<noteq> c) (w @ c # r) = c # r" if "c \<notin> set w" for w r
    using that by (auto simp: takeWhile_append dropWhile_append)
  have cut: "w @ c # r \<noteq> v" if "c \<notin> set v" for w r v using that by auto
  have n: "c \<notin> set x" "c \<notin> set y" using Cons.prems(3,4) ys by simp_all
  have eq: "(if xs = [] then x else x @ c # join [c] xs) = (if ys' = [] then y else y @ c # join [c] ys')"
    using Cons.prems(5) unfolding ys j .
  show ?case
  proof (cases "xs = [] \<or> ys' = []")
    case True
    then have "xs = [] \<and> ys' = [] \<and> x = y"
      using eq cut [OF n(1), of y "join [c] ys'"] cut [OF n(2), of x "join [c] xs"] by (auto split: if_splits)
    then show ?thesis by (simp add: ys)
  next
    case False
    then have e: "x @ c # join [c] xs = y @ c # join [c] ys'" using eq by simp
    have "x = y" using arg_cong [OF e, of "takeWhile (\<lambda>d. d \<noteq> c)"] unfolding tw(1) [OF n(1)] tw(1) [OF n(2)] .
    moreover have "join [c] xs = join [c] ys'" using e calculation by simp
    ultimately show ?thesis using Cons.IH [of ys'] False Cons.prems(3,4) by (simp add: ys)
  qed
qed simp

lemma words_no_space: "list_all (\<lambda>c. \<not> is_space c) w \<Longrightarrow> list_all (list_all (\<lambda>c. \<not> is_space c)) (words_from w s)"
  by (induction w s rule: words_from.induct) simp_all

definition no_newline :: "string \<Rightarrow> bool" where
  "no_newline s = (CHR 10 \<notin> set s)"

lemma no_newline_append [simp]: "no_newline (a @ b) \<longleftrightarrow> no_newline a \<and> no_newline b"
  by (simp add: no_newline_def)

lemma no_newline_Cons [simp]: "no_newline (x # s) \<longleftrightarrow> x \<noteq> CHR 10 \<and> no_newline s"
  by (auto simp: no_newline_def)

lemma no_newline_literals: "no_newline []" "no_newline ''e''" "no_newline ''.''" "no_newline ''0.''" "no_newline ''-''" "no_newline ''+''"
  "no_newline (replicate n CHR ''0'')" "no_newline ''1''" "no_newline ''NaN''" "no_newline ''Infinity''" "no_newline ''-Infinity''"
  by (simp_all add: no_newline_def)

lemma no_newline_nat: "no_newline (show_nat n)"
  using digits_avoid [OF show_nat_digits, of "CHR 10" n] by (simp add: no_newline_def is_digit_def code_def)

lemma no_newline_int: "no_newline (show_int i)"
  using no_newline_nat by (simp add: show_int_def no_newline_def)

lemma no_newline_part: "no_newline s \<Longrightarrow> no_newline (take n s)" "no_newline s \<Longrightarrow> no_newline (drop n s)"
  by (auto simp: no_newline_def dest: in_set_takeD in_set_dropD)

lemma no_newline_place: "no_newline ds \<Longrightarrow> no_newline (place_digits ds n)"
  by (simp add: place_digits_def Let_def no_newline_literals no_newline_int no_newline_part)

lemma no_newline_number: "no_newline (number_toString x)"
proof (cases x)
  case (JFrac q)
  then show ?thesis by (simp add: show_rat_def Let_def no_newline_literals no_newline_place no_newline_int)
next
  case (JInt i)
  then show ?thesis by (simp add: show_rat_def Let_def no_newline_literals no_newline_place no_newline_int)
qed (simp_all add: no_newline_literals)

lemma plain_no_newline: "\<forall>c \<in> set s. plain_char c \<Longrightarrow> no_newline s"
proof -
  have "\<not> plain_char CHR 10" by code_simp
  then show "\<forall>c \<in> set s. plain_char c \<Longrightarrow> no_newline s" by (auto simp: no_newline_def)
qed

lemma line_no_newline: "no_newline d \<Longrightarrow> \<forall>c \<in> set h. \<not> is_space c \<Longrightarrow> no_newline (signing_line c e d h)"
proof -
  have "is_space CHR 10" by code_simp
  then show "no_newline d \<Longrightarrow> \<forall>c \<in> set h. \<not> is_space c \<Longrightarrow> no_newline (signing_line c e d h)"
    using no_newline_number by (auto simp: signing_line_def no_newline_def)
qed

lemma line_cases:
  assumes "\<forall>c \<in> set h. \<not> is_space c"
  shows "signing_line c e d h = ''(created): '' @ n \<Longrightarrow> number_toString c = n"
    "signing_line c e d h = ''(expires): '' @ n \<Longrightarrow> number_toString e = n"
    "signing_line c e d h = ''digest: BLAKE-512='' @ n \<Longrightarrow> d = n"
proof -
  have "is_space CHR '' ''" by code_simp
  then have "CHR '' '' \<notin> set (h @ '':'')" using assms by auto
  then have no: "h @ '':'' \<noteq> w @ '' '' @ v" for w v by (metis append_Cons in_set_conv_decomp)
  show "signing_line c e d h = ''(created): '' @ n \<Longrightarrow> number_toString c = n"
    "signing_line c e d h = ''(expires): '' @ n \<Longrightarrow> number_toString e = n"
    "signing_line c e d h = ''digest: BLAKE-512='' @ n \<Longrightarrow> d = n"
    using no [of "''(created):''" n] no [of "''(expires):''" n] no [of "''digest:''" "''BLAKE-512='' @ n"]
    by (auto simp: signing_line_def split: if_splits)
qed

lemma lower_digest: "to_lower ''digest'' = ''digest''"
  by code_simp

lemma signing_string_binds:
  assumes "buildSigningString c e d None = buildSigningString c' e' d' (Some hs)" "no_newline d" "no_newline d'"
    and "list_all (list_all (\<lambda>x. \<not> is_space x)) hs"
  shows "number_toString c' = number_toString c \<and> number_toString e' = number_toString e \<and> d' = d"
proof -
  let ?honest = "[''(created): '' @ number_toString c, ''(expires): '' @ number_toString e, ''digest: BLAKE-512='' @ d]"
  let ?lines = "map (signing_line c' e' d') hs"
  have std: "map (signing_line c e d) STANDARD_HEADERS = ?honest"
    using lower_digest by (simp add: STANDARD_HEADERS_def signing_line_def)
  have eq: "join [CHR 10] ?honest = join [CHR 10] ?lines" using assms(1) unfolding buildSigningString_def or_default_def by (simp add: std)
  have ne: "?lines \<noteq> []" using eq by auto
  have "\<forall>l \<in> set ?honest. CHR 10 \<notin> set l" using assms(2) no_newline_number [of c] no_newline_number [of e] by (simp add: no_newline_def)
  moreover have "\<forall>l \<in> set ?lines. CHR 10 \<notin> set l" using line_no_newline [OF assms(3)] assms(4) by (auto simp: list_all_iff no_newline_def)
  ultimately have "?honest = ?lines" using join_inject [OF _ ne _ _ eq] by blast
  then obtain h1 h2 h3 where h: "hs = [h1, h2, h3]" and l: "signing_line c' e' d' h1 = ''(created): '' @ number_toString c"
    "signing_line c' e' d' h2 = ''(expires): '' @ number_toString e" "signing_line c' e' d' h3 = ''digest: BLAKE-512='' @ d"
    by (auto simp: Cons_eq_map_conv)
  then show ?thesis using line_cases(1) [OF _ l(1)] line_cases(2) [OF _ l(2)] line_cases(3) [OF _ l(3)] assms(4) by (simp add: list_all_iff)
qed

lemma verify_ok:
  assumes "verifyBecknAuthHeader blake ed_verify header rawBody resolve now = Inr ok"
  obtains h p pk where "header = Some h" "parseBecknAuthHeader h = Some p" "resolve (ph_keyId p) = Some pk" "as_keyId ok = ph_keyId p"
    "parseKeyId (ph_keyId p) \<noteq> None" "\<not> js_less (JInt (now + 60)) (ph_created p)" "\<not> js_less (ph_expires p) (JInt now)"
    "ed_verify (b64url_decode (ph_signature p)) (utf8 (buildSigningString (ph_created p) (ph_expires p) (blake512Base64 blake rawBody) (Some (ph_headers p)))) pk"
  using assms by (auto simp: verifyBecknAuthHeader_def auth_fail_def Let_def split: option.splits if_splits prod.splits)

lemma parsed_headers: "parseBecknAuthHeader h = Some p \<Longrightarrow> list_all (list_all (\<lambda>x. \<not> is_space x)) (ph_headers p)"
  using words_no_space [of "[]"] by (auto simp: parseBecknAuthHeader_def Let_def split: option.splits if_splits)

lemma sign_then_verify:
  assumes "m = utf8 (buildSigningString (JInt created) (JInt expires) (blake512Base64 blake body) None)"
    and "length (ed_sign m sk) = 64 \<and> (\<forall>b \<in> set (ed_sign m sk). b < 256)" "ed_verify (ed_sign m sk) m pk" "pk \<noteq> []"
    and "keyId = s @ ''|'' @ u @ ''|ed25519''" "s \<noteq> []" "u \<noteq> []" "CHR ''|'' \<notin> set s \<union> set u" "CHR 0x22 \<notin> set keyId" "resolve keyId = Some pk"
    and "0 \<le> created" "created \<le> now + 60" "created \<le> 2 ^ 53" "0 \<le> expires" "now \<le> expires" "expires \<le> 2 ^ 53"
  shows "verifyBecknAuthHeader blake ed_verify (Some (signBecknAuthHeader blake ed_sign sk keyId body created expires)) body resolve now
    = Inr \<lparr>as_keyId = keyId, as_subscriberId = s, as_uniqueKeyId = u\<rparr>"
proof -
  let ?sig = "ed_sign m sk"
  have n: "nat created \<le> 2 ^ 53" "nat expires \<le> 2 ^ 53" "int (nat created) = created" "int (nat expires) = expires"
    using assms(11,13,14,16) by (simp_all add: nat_le_iff)
  have header_eq: "signBecknAuthHeader blake ed_sign sk keyId body created expires = header_text keyId (nat created) (nat expires) (base64 ?sig)"
    using assms(11,13,14,16) by (simp add: signBecknAuthHeader_def header_text_def Let_def show_int_def assms(1))
  have bytes: "\<forall>b \<in> set ?sig. b < 256" "length ?sig = 64" using assms(2) by blast+
  have "base64 ?sig \<noteq> []"
  proof
    assume "base64 ?sig = []"
    then have "b64url_decode [] = ?sig" using base64_roundtrip [OF bytes(1)] by simp
    moreover have "b64url_decode [] = []" by code_simp
    ultimately show False using bytes(2) by simp
  qed
  note sig = base64_plain [OF bytes(1), of "CHR 0x22"] base64_roundtrip [OF bytes(1)] this
  have q: "CHR 0x22 \<notin> set (base64 ?sig)" using sig(1) by (auto simp: plain_char_def)
  have key: "keyId \<noteq> []" "parseKeyId keyId = Some (s, u, ''ed25519'')" using parseKeyId_of [of s u] assms(5-8) by auto
  have p: "parseBecknAuthHeader (header_text keyId (nat created) (nat expires) (base64 ?sig)) = Some \<lparr>ph_keyId = keyId, ph_algorithm = ''ed25519'',
      ph_created = JInt created, ph_expires = JInt expires, ph_headers = STANDARD_HEADERS, ph_signature = base64 ?sig\<rparr>"
    using parse_header [OF assms(9) q key(1) sig(3) n(1,2)] unfolding n(3,4) .
  have same: "buildSigningString a b c (Some STANDARD_HEADERS) = buildSigningString a b c None" for a b c by (simp add: buildSigningString_def or_default_def)
  have "header_text keyId (nat created) (nat expires) (base64 ?sig) \<noteq> []" by (simp add: header_text_def)
  moreover have "to_lower ''ed25519'' = ''ed25519''" by code_simp
  ultimately show ?thesis
    unfolding header_eq verifyBecknAuthHeader_def using p key(2) assms(3,4,10,12,15) bytes(2) sig(2) by (simp add: same assms(1) [symmetric] del: append.simps)
qed

section \<open>Properties\<close>

text \<open>C39. A header signed for a key of the registry is accepted for its body within its window, and reports the subscriber and key it was signed with.\<close>

theorem signed_header_accepted:
  assumes "\<And>m. length (ed_sign m sk) = 64 \<and> (\<forall>b \<in> set (ed_sign m sk). b < 256)" "\<And>m. ed_verify (ed_sign m sk) m pk" "pk \<noteq> []"
    and "keyId = s @ ''|'' @ u @ ''|ed25519''" "s \<noteq> []" "u \<noteq> []" "CHR ''|'' \<notin> set s \<union> set u" "CHR 0x22 \<notin> set keyId" "resolve keyId = Some pk"
    and "0 \<le> created" "created \<le> now + 60" "created \<le> 2 ^ 53" "0 \<le> expires" "now \<le> expires" "expires \<le> 2 ^ 53"
  shows "verifyBecknAuthHeader blake ed_verify (Some (signBecknAuthHeader blake ed_sign sk keyId body created expires)) body resolve now
    = Inr \<lparr>as_keyId = keyId, as_subscriberId = s, as_uniqueKeyId = u\<rparr>"
  using assms by (intro sign_then_verify [OF refl, where pk = pk]) blast+

theorem signed_header_accepted_witness:
  "verifyBecknAuthHeader (\<lambda>x. [1]) (\<lambda>sig m pk. sig = replicate 64 0) (Some (signBecknAuthHeader (\<lambda>x. [1]) (\<lambda>m sk. replicate 64 0) [5] ''bap|k1|ed25519'' [1, 2] 100 200))
     [1, 2] (\<lambda>k. Some [7]) 150 = Inr \<lparr>as_keyId = ''bap|k1|ed25519'', as_subscriberId = ''bap'', as_uniqueKeyId = ''k1''\<rparr>"
  by (rule signed_header_accepted [where pk = "[7]"]) simp_all

text \<open>C17. An accepted header authenticates the body: if the keys of the registry only verify messages that their owner signed over the standard fields, then the owner signed this very digest, with the window that was checked, whatever fields the header claims to be signed.\<close>

theorem accepted_header_authenticates:
  assumes "verifyBecknAuthHeader blake ed_verify header body resolve now = Inr ok" "\<forall>x. \<forall>b \<in> set (blake x). b < 256"
    and "\<forall>k pk sig m. resolve k = Some pk \<and> ed_verify sig m pk
      \<longrightarrow> (\<exists>(c, e, b) \<in> signed k. m = utf8 (buildSigningString (JInt c) (JInt e) (blake512Base64 blake b) None))"
  shows "\<exists>(c, e, b) \<in> signed (as_keyId ok). \<exists>h p. header = Some h \<and> parseBecknAuthHeader h = Some p \<and> blake b = blake body
    \<and> number_toString (ph_created p) = number_toString (JInt c) \<and> number_toString (ph_expires p) = number_toString (JInt e)
    \<and> \<not> js_less (JInt (now + 60)) (ph_created p) \<and> \<not> js_less (ph_expires p) (JInt now)"
proof -
  obtain h p pk where v: "header = Some h" "parseBecknAuthHeader h = Some p" "resolve (ph_keyId p) = Some pk" "as_keyId ok = ph_keyId p"
    "\<not> js_less (JInt (now + 60)) (ph_created p)" "\<not> js_less (ph_expires p) (JInt now)"
    "ed_verify (b64url_decode (ph_signature p)) (utf8 (buildSigningString (ph_created p) (ph_expires p) (blake512Base64 blake body) (Some (ph_headers p)))) pk"
    using verify_ok [OF assms(1)] by metis
  obtain c e b where s: "(c, e, b) \<in> signed (ph_keyId p)"
    "buildSigningString (ph_created p) (ph_expires p) (blake512Base64 blake body) (Some (ph_headers p)) = buildSigningString (JInt c) (JInt e) (blake512Base64 blake b) None"
    using assms(3) v(3,7) by fastforce
  have nl: "no_newline (blake512Base64 blake x)" for x
    using base64_plain [of "blake x"] assms(2) plain_no_newline by (auto simp: blake512Base64_def)
  have "number_toString (ph_created p) = number_toString (JInt c) \<and> number_toString (ph_expires p) = number_toString (JInt e)
      \<and> blake512Base64 blake body = blake512Base64 blake b"
    using signing_string_binds [OF s(2) [symmetric] nl nl parsed_headers [OF v(2)]] .
  moreover from this have "blake b = blake body" using base64_inject [of "blake body" "blake b"] assms(2) by (auto simp: blake512Base64_def)
  ultimately show ?thesis using s(1) v by (intro bexI [of _ "(c, e, b)"]) auto
qed

theorem accepted_header_authenticates_witness:
  "\<exists>ok. verifyBecknAuthHeader (\<lambda>x. [1]) (\<lambda>sig m pk. m = utf8 (buildSigningString (JInt 100) (JInt 200) (blake512Base64 (\<lambda>x. [1]) [1, 2]) None))
     (Some (signBecknAuthHeader (\<lambda>x. [1]) (\<lambda>m sk. replicate 64 0) [5] ''bap|k1|ed25519'' [1, 2] 100 200)) [1, 2] (\<lambda>k. Some [7]) 150 = Inr ok
   \<and> (\<exists>p :: ParsedAuthHeader. number_toString (ph_created p) = number_toString (JInt 100) \<and> \<not> js_less (ph_expires p) (JInt 150))"
proof -
  let ?m = "utf8 (buildSigningString (JInt 100) (JInt 200) (blake512Base64 (\<lambda>x. [1]) [1, 2]) None)"
  let ?h = "Some (signBecknAuthHeader (\<lambda>x. [1]) (\<lambda>m sk. replicate 64 0) [5] ''bap|k1|ed25519'' [1, 2] 100 200)"
  have v: "verifyBecknAuthHeader (\<lambda>x. [1]) (\<lambda>sig m pk. m = ?m) ?h [1, 2] (\<lambda>k. Some [7]) 150
      = Inr \<lparr>as_keyId = ''bap|k1|ed25519'', as_subscriberId = ''bap'', as_uniqueKeyId = ''k1''\<rparr>"
    by (rule sign_then_verify [OF refl, where pk = "[7]"]) simp_all
  have keys: "\<forall>k pk sig m. (\<lambda>k. Some [7 :: nat]) k = Some pk \<and> (\<lambda>sig m pk. m = ?m) sig m pk
      \<longrightarrow> (\<exists>(c, e, b) \<in> (\<lambda>k. {(100, 200, [1, 2])}) k. m = utf8 (buildSigningString (JInt c) (JInt e) (blake512Base64 (\<lambda>x. [1]) b) None))" by simp
  have bytes: "\<forall>x. \<forall>b \<in> set ((\<lambda>x :: nat list. [1 :: nat]) x). b < 256" by simp
  have "\<exists>p :: ParsedAuthHeader. number_toString (ph_created p) = number_toString (JInt 100) \<and> \<not> js_less (ph_expires p) (JInt 150)"
    using accepted_header_authenticates [OF v bytes keys] by (auto simp del: js_less.simps number_toString.simps)
  then show ?thesis using v by blast
qed

end
