(* ===== verification/Hex_Text.thy ===== *)
theory Hex_Text
  imports Jcs Base58
begin

text \<open>
  Facts about hexadecimal text: decoding does not depend on the case of letters, and a number is read back from
  its digits.
\<close>

section \<open>Case of letters\<close>

lemma code_lower_char: "code (lower_char c) =
  (if is_upper c \<or> 192 \<le> code c \<and> code c \<le> 222 \<and> code c \<noteq> 215 then code c + 32 else code c)"
  by (simp add: lower_char_def is_upper_def)

lemma is_lower_hex_lower_char: "is_lower_hex (lower_char c) \<longleftrightarrow> is_hex c"
  by (auto simp: is_lower_hex_def is_hex_def is_digit_def is_upper_def code_lower_char)

lemma hex_value_lower_char: "is_hex c \<Longrightarrow> hex_value (lower_char c) = hex_value c"
  by (auto simp: hex_value_def is_hex_def is_digit_def is_upper_def code_lower_char)

lemma hex_value_inject: "is_lower_hex c \<Longrightarrow> is_lower_hex d \<Longrightarrow> hex_value c = hex_value d \<longleftrightarrow> c = d"
  by (auto simp: hex_value_def is_lower_hex_def is_digit_def simp flip: code_inject)

lemma is_hex_of_lower: "is_lower_hex c \<Longrightarrow> is_hex c \<and> lower_char c = c"
  by (auto simp: is_hex_def is_lower_hex_def is_digit_def is_upper_def lower_char_def)

lemma hex_pair_eq:
  assumes "is_lower_hex a" "is_lower_hex b" "is_hex c" "is_hex d"
  shows "16 * hex_value a + hex_value b = 16 * hex_value c + hex_value d \<longleftrightarrow> a = lower_char c \<and> b = lower_char d"
proof -
  have pair: "16 * w + x = 16 * y + z \<longleftrightarrow> w = y \<and> x = z" if "x < 16" "z < 16" for w x y z :: nat
  proof
    assume eq: "16 * w + x = 16 * y + z"
    have "(16 * w + x) div 16 = w" "(16 * w + x) mod 16 = x" using that(1) by simp_all
    moreover have "(16 * y + z) div 16 = y" "(16 * y + z) mod 16 = z" using that(2) by simp_all
    ultimately show "w = y \<and> x = z" unfolding eq by simp
  qed simp
  have "16 * hex_value a + hex_value b = 16 * hex_value c + hex_value d
     \<longleftrightarrow> hex_value a = hex_value c \<and> hex_value b = hex_value d"
    using assms is_hex_of_lower hex_value_less by (intro pair) auto
  moreover have "hex_value c = hex_value (lower_char c)" "hex_value d = hex_value (lower_char d)"
    using assms hex_value_lower_char by simp_all
  moreover have "is_lower_hex (lower_char c)" "is_lower_hex (lower_char d)"
    using assms is_lower_hex_lower_char by simp_all
  ultimately show ?thesis using hex_value_inject assms by metis
qed

lemma length_buffer_from_hex: "list_all is_hex a \<Longrightarrow> length (buffer_from_hex a) = length a div 2"
  by (induction a rule: buffer_from_hex.induct) simp_all

lemma buffer_from_hex_eq:
  "list_all is_lower_hex a \<Longrightarrow> length b = length a \<Longrightarrow> even (length a)
   \<Longrightarrow> buffer_from_hex a = buffer_from_hex b \<longleftrightarrow> to_lower b = a"
proof (induction a arbitrary: b rule: buffer_from_hex.induct)
  case (1 x y a)
  then obtain u v b' where b: "b = u # v # b'" by (cases b; cases "tl b") auto
  have xy: "is_lower_hex x" "is_lower_hex y" "is_hex x" "is_hex y" "list_all is_lower_hex a" "length b' = length a" "even (length a)"
    using 1 b is_hex_of_lower by auto
  show ?case
  proof (cases "is_hex u \<and> is_hex v")
    case True
    then show ?thesis
      using 1(1) [of b'] xy b hex_pair_eq [of x y u v] by (auto simp: to_lower_def)
  next
    case False
    then have "lower_char u \<noteq> x \<or> lower_char v \<noteq> y" using xy is_lower_hex_lower_char by metis
    with False show ?thesis using xy b by (auto simp: to_lower_def)
  qed
qed (auto simp: to_lower_def)

section \<open>Numbers\<close>

definition hex_val :: "string \<Rightarrow> nat" where
  "hex_val s = foldl (\<lambda>n c. 16 * n + hex_value c) 0 s"

lemma hex_digit_hex [simp]: "d < 16 \<Longrightarrow> is_hex (hex_digit d)" "d < 16 \<Longrightarrow> hex_value (hex_digit d) = d"
  by (auto simp: hex_digit_def is_hex_def is_digit_def hex_value_def)

lemma hex_val_snoc: "hex_val (s @ [c]) = 16 * hex_val s + hex_value c"
  by (simp add: hex_val_def)

lemma show_hex_val: "hex_val (show_hex n) = n" "list_all is_hex (show_hex n)" "show_hex n \<noteq> []"
proof -
  have "hex_val (show_hex n) = n \<and> list_all is_hex (show_hex n) \<and> show_hex n \<noteq> []"
  proof (induction n rule: show_hex.induct)
    case (1 n)
    then show ?case
    proof (cases "n < 16")
      case True
      then show ?thesis by (subst (1 2 3) show_hex.simps) (simp add: hex_val_def)
    next
      case False
      with 1 show ?thesis by (subst (1 2 3) show_hex.simps) (simp add: hex_val_snoc)
    qed
  qed
  then show "hex_val (show_hex n) = n" "list_all is_hex (show_hex n)" "show_hex n \<noteq> []" by simp_all
qed

lemma show_hex_length: "n < 16 ^ m \<Longrightarrow> 1 \<le> m \<Longrightarrow> length (show_hex n) \<le> m"
proof (induction m arbitrary: n)
  case (Suc m)
  then show ?case
  proof (cases "n < 16")
    case True
    then show ?thesis by (subst show_hex.simps) simp
  next
    case False
    with Suc.prems have "m \<noteq> 0" by (cases m) auto
    moreover have "n div 16 < 16 ^ m" using Suc.prems(1) by (simp add: less_mult_imp_div_less mult.commute)
    ultimately have "length (show_hex (n div 16)) \<le> m" using Suc.IH by simp
    with False show ?thesis by (subst show_hex.simps) simp
  qed
qed simp

lemma hex_val_zeros: "hex_val (replicate n (CHR ''0'') @ s) = hex_val s"
proof -
  have z: "hex_value (CHR ''0'') = 0" by code_simp
  show ?thesis by (induction n) (simp_all add: hex_val_def z)
qed

lemma buffer_from_hex_case: "list_all is_hex a \<Longrightarrow> even (length a) \<Longrightarrow> buffer_from_hex (to_lower a) = buffer_from_hex a"
  using buffer_from_hex_eq [of "to_lower a" a] by (simp add: to_lower_def list_all_iff is_lower_hex_lower_char)

lemma HEX64_buffer_inject:
  assumes "HEX64 a" "HEX64 b"
  shows "buffer_from_hex a = buffer_from_hex b \<longleftrightarrow> to_lower a = to_lower b"
proof -
  have "buffer_from_hex a = buffer_from_hex b \<longleftrightarrow> buffer_from_hex (to_lower a) = buffer_from_hex b"
    using buffer_from_hex_case [of a] assms(1) by (simp add: HEX64_def)
  also have "\<dots> \<longleftrightarrow> to_lower b = to_lower a"
    using assms by (intro buffer_from_hex_eq) (simp_all add: HEX64_def to_lower_def list_all_iff is_lower_hex_lower_char)
  finally show ?thesis by auto
qed

lemma buffer_hex_inject:
  assumes "list_all is_hex a" "list_all is_hex b" "length a = length b" "even (length a)" "buffer_from_hex a = buffer_from_hex b"
  shows "to_lower a = to_lower b"
proof -
  have "buffer_from_hex (to_lower a) = buffer_from_hex b"
    using buffer_from_hex_case [of a] assms by simp
  then show ?thesis using buffer_from_hex_eq [of "to_lower a" b] assms
    by (simp add: to_lower_def list_all_iff is_lower_hex_lower_char)
qed

lemma hex_val_lower: "list_all is_hex s \<Longrightarrow> hex_val (to_lower s) = hex_val s"
  unfolding hex_val_def to_lower_def foldl_map by (rule foldl_cong) (auto simp: list_all_iff hex_value_lower_char)

end
