(* ===== verification/Mesh_Validator.thy ===== *)
theory Mesh_Validator
  imports Session_Auth Hex_Text "HOL-Library.AList" "HOL-Library.Sublist"
begin

text \<open>
  The cross-chain validator \<^verbatim>\<open>mesh/validator.ts\<close>: it reads both chains over RPC, signs attestations, answers HTTP requests behind a
  bearer token and a rate limit, and moves funds by crediting the destination chain. The state is the list of attestations, the list of
  transfers, the rate buckets and the log of RPC calls. The nodes (\<open>me_rpc\<close>), the clock and the random identifiers (by the number
  of earlier readings), SHA-256, Ed25519 and base58 are parameters. Log lines and the files they go to are left out, and the two
  chains that the code reads side by side are read in turn.
\<close>

section \<open>State\<close>

datatype chain = Eto | Eth

type_synonym rpc_call = "chain \<times> string \<times> json list"

datatype att_type = A_state | A_balance

record Attestation =
  at_id :: string
  at_type :: att_type
  at_sourceChain :: "json option"
  at_destChain :: "json option"
  at_sourceBlock :: "json option"
  at_data :: "(string \<times> json) list"
  at_validator :: string
  at_signature :: string
  at_timestamp :: int

record ChainState =
  cs_chainId :: string
  cs_blockHeight :: "json option"
  cs_blockHash :: json
  cs_stateRoot :: json
  cs_timestamp :: int

datatype transfer_status = T_pending | T_attested | T_settled | T_failed

record CrossChainTransfer =
  tr_id :: string
  tr_from_chain :: "json option"
  tr_from_address :: "json option"
  tr_amount :: int
  tr_to_chain :: "json option"
  tr_to_address :: "json option"
  tr_status :: transfer_status
  tr_attestation :: "Attestation option"

record rate_bucket =
  rb_count :: int
  rb_windowStart :: int

record mesh =
  ms_attestations :: "Attestation list"
  ms_transfers :: "CrossChainTransfer list"
  ms_buckets :: "(string \<times> rate_bucket) list"
  ms_calls :: "rpc_call list"
  ms_ticks :: nat

record mesh_env =
  me_rpc :: "rpc_call list \<Rightarrow> rpc_call \<Rightarrow> (string, json option) result"
  me_clock :: "nat \<Rightarrow> int"
  me_uuid :: "nat \<Rightarrow> string"
  me_sha :: "nat list \<Rightarrow> nat list"
  me_sign :: "nat list \<Rightarrow> nat list"
  me_verify :: "nat list \<Rightarrow> nat list \<Rightarrow> nat list \<Rightarrow> bool"
  me_decode58 :: "string \<Rightarrow> nat list option"
  me_validator :: string
  me_token :: string
  me_limit :: jsnumber

text \<open>Steps that may throw: the outcome and the new state.\<close>

type_synonym 'a act = "mesh \<Rightarrow> (string, 'a) result \<times> mesh"

definition ret :: "'a \<Rightarrow> 'a act" where
  "ret x st = (Inr x, st)"

definition raise :: "string \<Rightarrow> 'a act" where
  "raise e st = (Inl e, st)"

definition bindA :: "'a act \<Rightarrow> ('a \<Rightarrow> 'b act) \<Rightarrow> 'b act" where
  "bindA m f st = (case m st of (Inl e, st') \<Rightarrow> (Inl e, st') | (Inr x, st') \<Rightarrow> f x st')"

definition tick :: "mesh_env \<Rightarrow> int act" where
  "tick e st = (Inr (me_clock e (ms_ticks st)), st\<lparr>ms_ticks := Suc (ms_ticks st)\<rparr>)"

section \<open>Values\<close>

text \<open>\<open>v || w\<close> and truth of a value that may be missing.\<close>

fun present :: "json option \<Rightarrow> bool" where
  "present None = False"
| "present (Some JNull) = False"
| "present (Some (JBool b)) = b"
| "present (Some (JNum n)) = (n \<noteq> JInt 0 \<and> n \<noteq> JNaN)"
| "present (Some (JStr s)) = (s \<noteq> [])"
| "present (Some v) = True"

definition or_else :: "json option \<Rightarrow> json \<Rightarrow> json" where
  "or_else v w = (if present v then the v else w)"

text \<open>\<open>v?.k\<close> on a result that may be missing.\<close>

definition maybe_field :: "json option \<Rightarrow> string \<Rightarrow> json option" where
  "maybe_field v k = (case v of None \<Rightarrow> None | Some x \<Rightarrow> own_field x k)"

definition shown_value :: "json option \<Rightarrow> string" where
  "shown_value v = (case v of None \<Rightarrow> ''undefined'' | Some x \<Rightarrow> js_toString x)"

text \<open>\<open>parseInt\<close>: white space, a sign, the prefix \<open>0x\<close>, then as many digits as there are. Without a radix the prefix selects 16.\<close>

definition digits_number :: "nat \<Rightarrow> string \<Rightarrow> jsnumber" where
  "digits_number base s = (if s = [] then JNaN else to_double (of_nat (foldl (\<lambda>n c. base * n + hex_value c) 0 s)))"

definition negate :: "jsnumber \<Rightarrow> jsnumber" where
  "negate x = (case x of JInt i \<Rightarrow> JInt (- i) | JFrac q \<Rightarrow> JFrac (- q) | JNaN \<Rightarrow> JNaN | JInf b \<Rightarrow> JInf (\<not> b))"

definition parseInt :: "bool \<Rightarrow> string \<Rightarrow> jsnumber" where
  "parseInt hex s0 = (let s = dropWhile is_space s0;
       neg = (s \<noteq> [] \<and> hd s = CHR ''-''); u = (if s \<noteq> [] \<and> (hd s = CHR ''-'' \<or> hd s = CHR ''+'') then tl s else s);
       prefixed = (to_lower (take 2 u) = ''0x'');
       v = (if prefixed then digits_number 16 (takeWhile is_hex (drop 2 u))
            else if hex then digits_number 16 (takeWhile is_hex u) else digits_number 10 (takeWhile is_digit u))
     in if neg then negate v else v)"

text \<open>\<open>BigInt(v)\<close>.\<close>

definition bigint_digits :: "nat \<Rightarrow> (char \<Rightarrow> bool) \<Rightarrow> string \<Rightarrow> (string, int) result" where
  "bigint_digits base ok s = (if s \<noteq> [] \<and> list_all ok s then Inr (int (foldl (\<lambda>n c. base * n + hex_value c) 0 s)) else Inl ''SyntaxError'')"

definition bigint_text :: "string \<Rightarrow> (string, int) result" where
  "bigint_text s0 = (let s = trim s0; p = to_lower (take 2 s) in
     if s = [] then Inr 0
     else if p = ''0x'' then bigint_digits 16 is_hex (drop 2 s)
     else if p = ''0o'' then bigint_digits 8 (\<lambda>c. is_digit c \<and> hex_value c < 8) (drop 2 s)
     else if p = ''0b'' then bigint_digits 2 (\<lambda>c. is_digit c \<and> hex_value c < 2) (drop 2 s)
     else if hd s = CHR ''-'' then bind_result (bigint_digits 10 is_digit (tl s)) (\<lambda>n. Inr (- n))
     else if hd s = CHR ''+'' then bigint_digits 10 is_digit (tl s)
     else bigint_digits 10 is_digit s)"

fun BigInt :: "json option \<Rightarrow> (string, int) result" where
  "BigInt None = Inl ''TypeError''"
| "BigInt (Some JNull) = Inl ''TypeError''"
| "BigInt (Some (JBool b)) = Inr (if b then 1 else 0)"
| "BigInt (Some (JNum (JInt i))) = Inr i"
| "BigInt (Some (JNum _)) = Inl ''RangeError''"
| "BigInt (Some v) = bigint_text (js_toString v)"

text \<open>\<open>"0x" + n.toString(16)\<close>.\<close>

definition amount_hex :: "int \<Rightarrow> string" where
  "amount_hex n = ''0x'' @ (if n < 0 then CHR ''-'' # show_hex (nat (- n)) else show_hex (nat n))"

definition lift :: "(string, 'a) result \<Rightarrow> 'a act" where
  "lift r st = (r, st)"

section \<open>Reading the chains\<close>

definition rpc :: "mesh_env \<Rightarrow> chain \<Rightarrow> string \<Rightarrow> json list \<Rightarrow> json option act" where
  "rpc e c m ps st = (me_rpc e (ms_calls st) (c, m, ps), st\<lparr>ms_calls := ms_calls st @ [(c, m, ps)]\<rparr>)"

definition opt_arg :: "json option \<Rightarrow> json" where
  "opt_arg v = (case v of None \<Rightarrow> JNull | Some x \<Rightarrow> x)"

definition sha16 :: "mesh_env \<Rightarrow> string \<Rightarrow> string" where
  "sha16 e s = take 16 (to_hex (me_sha e (utf8 s)))"

definition getEtoState :: "mesh_env \<Rightarrow> ChainState act" where
  "getEtoState e = bindA (rpc e Eto ''getBlockHeight'' []) (\<lambda>height.
     bindA (rpc e Eto ''getRecentBlockhash'' []) (\<lambda>blockhash.
     bindA (tick e) (\<lambda>now. ret \<lparr>cs_chainId = ''eto-testnet'', cs_blockHeight = height,
       cs_blockHash = or_else (maybe_field (maybe_field blockhash ''value'') ''blockhash'') (JStr ''unknown''),
       cs_stateRoot = JStr (''0x'' @ sha16 e (''eto:'' @ shown_value height)), cs_timestamp = now\<rparr>)))"

definition block_number :: "json option \<Rightarrow> json" where
  "block_number v = JNum (parseInt True (shown_value v))"

definition getEthState :: "mesh_env \<Rightarrow> ChainState act" where
  "getEthState e = bindA (rpc e Eth ''eth_blockNumber'' []) (\<lambda>blockNum.
     bindA (rpc e Eth ''eth_getBlockByNumber'' [opt_arg blockNum, JBool False]) (\<lambda>block.
     bindA (tick e) (\<lambda>now. ret \<lparr>cs_chainId = ''eth-devnet'', cs_blockHeight = Some (block_number blockNum),
       cs_blockHash = or_else (maybe_field block ''hash'') (JStr ''0x0''), cs_stateRoot = or_else (maybe_field block ''stateRoot'') (JStr ''0x0''),
       cs_timestamp = now\<rparr>)))"

definition getEthBalance :: "mesh_env \<Rightarrow> json option \<Rightarrow> int act" where
  "getEthBalance e address = bindA (rpc e Eth ''eth_getBalance'' [opt_arg address, JStr ''latest'']) (\<lambda>hex. lift (BigInt hex))"

definition not_null :: "json option \<Rightarrow> bool" where
  "not_null v = (v \<noteq> None \<and> v \<noteq> Some JNull)"

definition getEtoBalance :: "mesh_env \<Rightarrow> json option \<Rightarrow> json act" where
  "getEtoBalance e address = bindA (rpc e Eto ''getBalance'' [opt_arg address]) (\<lambda>result.
     ret (if not_null (maybe_field result ''value'') then the (maybe_field result ''value'') else if not_null result then the result else JNum (JInt 0)))"

section \<open>Attestations\<close>

definition att_type_name :: "att_type \<Rightarrow> string" where
  "att_type_name t = (case t of A_state \<Rightarrow> ''state'' | A_balance \<Rightarrow> ''balance'')"

text \<open>The members of the signed object in their order; an undefined one is not printed.\<close>

definition some_member :: "string \<Rightarrow> json option \<Rightarrow> (string \<times> json) list" where
  "some_member k v = (case v of None \<Rightarrow> [] | Some x \<Rightarrow> [(k, x)])"

definition head_members :: "Attestation \<Rightarrow> (string \<times> json) list" where
  "head_members a = [(''id'', JStr (at_id a)), (''type'', JStr (att_type_name (at_type a)))] @ some_member ''sourceChain'' (at_sourceChain a)
     @ some_member ''destChain'' (at_destChain a) @ some_member ''sourceBlock'' (at_sourceBlock a) @ [(''data'', JObj (at_data a))]"

definition signed_members :: "Attestation \<Rightarrow> (string \<times> json) list" where
  "signed_members a = head_members a @ [(''validator'', JStr (at_validator a)), (''timestamp'', JNum (JInt (at_timestamp a)))]"

definition attestation_json :: "Attestation \<Rightarrow> json" where
  "attestation_json a = JObj (signed_members a @ [(''signature'', JStr (at_signature a))])"

definition signAttestation :: "mesh_env \<Rightarrow> (string \<times> json) list \<Rightarrow> string" where
  "signAttestation e members = to_hex (me_sign e (me_sha e (utf8 (json_stringify (JObj members)))))"

definition sign_it :: "mesh_env \<Rightarrow> Attestation \<Rightarrow> Attestation" where
  "sign_it e a = a\<lparr>at_signature := signAttestation e (signed_members a)\<rparr>"

text \<open>\<open>const { signature, validator, ...data } = attestation\<close>; a signature that is an array or object is outside the model.\<close>

definition verifyAttestation :: "mesh_env \<Rightarrow> json \<Rightarrow> (string, bool) result" where
  "verifyAttestation e attestation = (case (own_field attestation ''signature'', own_field attestation ''validator'', attestation) of
       (Some (JStr signature), Some (JStr validator), JObj kvs) \<Rightarrow>
         let msg = utf8 (json_stringify (JObj (filter (\<lambda>(k, _). k \<noteq> ''signature'' \<and> k \<noteq> ''validator'') kvs)))
         in (case me_decode58 e validator of None \<Rightarrow> Inl ''Error''
           | Some pubkey \<Rightarrow> Inr (me_verify e (buffer_from_hex signature) (me_sha e msg) pubkey))
     | _ \<Rightarrow> Inl ''TypeError'')"

definition createStateAttestation :: "mesh_env \<Rightarrow> ChainState \<Rightarrow> json option \<Rightarrow> Attestation act" where
  "createStateAttestation e sourceState destChain = bindA (tick e) (\<lambda>t0. bindA (tick e) (\<lambda>t1.
     ret (sign_it e \<lparr>at_id = sha16 e (cs_chainId sourceState @ '':'' @ shown_value (cs_blockHeight sourceState) @ '':'' @ number_toString (JInt t0)),
       at_type = A_state, at_sourceChain = Some (JStr (cs_chainId sourceState)), at_destChain = destChain, at_sourceBlock = cs_blockHeight sourceState,
       at_data = [(''blockHash'', cs_blockHash sourceState), (''stateRoot'', cs_stateRoot sourceState)]
         @ some_member ''blockHeight'' (cs_blockHeight sourceState),
       at_validator = me_validator e, at_signature = [], at_timestamp = t1\<rparr>)))"

definition createBalanceAttestation :: "mesh_env \<Rightarrow> json option \<Rightarrow> json option \<Rightarrow> int \<Rightarrow> json option \<Rightarrow> Attestation act" where
  "createBalanceAttestation e c address balance blockHeight = bindA (tick e) (\<lambda>t.
     ret (sign_it e \<lparr>at_id = sha16 e (''balance:'' @ shown_value c @ '':'' @ shown_value address @ '':'' @ shown_value blockHeight),
       at_type = A_balance, at_sourceChain = c,
       at_destChain = Some (JStr (if c = Some (JStr ''eto-testnet'') then ''eth-devnet'' else ''eto-testnet'')), at_sourceBlock = blockHeight,
       at_data = some_member ''address'' address @ [(''balance'', JStr (show_int balance)), (''verified'', JBool True)],
       at_validator = me_validator e, at_signature = [], at_timestamp = t\<rparr>))"

definition storeAttestation :: "Attestation \<Rightarrow> unit act" where
  "storeAttestation a st = (Inr (), st\<lparr>ms_attestations := ms_attestations st @ [a]\<rparr>)"

section \<open>Transfers\<close>

text \<open>The balance of an address and the block it was read at.\<close>

definition source_balance :: "mesh_env \<Rightarrow> json option \<Rightarrow> json option \<Rightarrow> (int \<times> json option) act" where
  "source_balance e c address = (if c = Some (JStr ''eth-devnet'')
     then bindA (getEthBalance e address) (\<lambda>b. bindA (rpc e Eth ''eth_blockNumber'' []) (\<lambda>n. ret (b, Some (block_number n))))
     else bindA (getEtoBalance e address) (\<lambda>v. bindA (lift (BigInt (Some v))) (\<lambda>b. bindA (rpc e Eto ''getBlockHeight'' []) (\<lambda>n. ret (b, n)))))"

definition chain_state :: "mesh_env \<Rightarrow> json option \<Rightarrow> ChainState act" where
  "chain_state e c = (if c = Some (JStr ''eth-devnet'') then getEthState e else getEtoState e)"

text \<open>Step 4: the credit on the destination chain, and whether the handler goes on after it. An exception is a failed transfer.\<close>

definition creditDestination :: "mesh_env \<Rightarrow> CrossChainTransfer \<Rightarrow> mesh \<Rightarrow> (transfer_status \<times> bool) \<times> mesh" where
  "creditDestination e t st = (if tr_to_chain t = Some (JStr ''eto-testnet'')
     then (case rpc e Eto ''faucet'' [opt_arg (tr_to_address t), JStr (amount_hex (tr_amount t))] st of
         (Inr _, st') \<Rightarrow> ((T_settled, True), st') | (Inl _, st') \<Rightarrow> ((T_failed, True), st'))
     else (case rpc e Eth ''eth_accounts'' [] st of
         (Inl _, st') \<Rightarrow> ((T_failed, True), st')
       | (Inr accounts, st') \<Rightarrow> (case accounts of
           Some (JArr (a # as)) \<Rightarrow> (case rpc e Eth ''eth_sendTransaction'' [JObj ([(''from'', a)]
                @ some_member ''to'' (tr_to_address t) @ [(''value'', JStr (amount_hex (tr_amount t)))])] st' of
              (Inr _, st'') \<Rightarrow> ((T_settled, True), st'') | (Inl _, st'') \<Rightarrow> ((T_failed, True), st''))
         | _ \<Rightarrow> ((T_failed, False), st'))))"

text \<open>Steps 1 to 3; \<open>None\<close> when the balance is too small.\<close>

definition attest_transfer :: "mesh_env \<Rightarrow> CrossChainTransfer \<Rightarrow> Attestation option act" where
  "attest_transfer e t = bindA (source_balance e (tr_from_chain t) (tr_from_address t)) (\<lambda>(sourceBalance, sourceBlock).
     if sourceBalance < tr_amount t then ret None
     else bindA (createBalanceAttestation e (tr_from_chain t) (tr_from_address t) sourceBalance sourceBlock) (\<lambda>balanceAtt.
       bindA (storeAttestation balanceAtt) (\<lambda>_.
       bindA (chain_state e (tr_from_chain t)) (\<lambda>state.
       bindA (createStateAttestation e state (tr_to_chain t)) (\<lambda>transferAtt.
       bindA (storeAttestation transferAtt) (\<lambda>_. ret (Some transferAtt)))))))"

definition handleCrossChainTransfer :: "mesh_env \<Rightarrow> CrossChainTransfer \<Rightarrow> CrossChainTransfer act" where
  "handleCrossChainTransfer e t = bindA (attest_transfer e t) (\<lambda>r. case r of
       None \<Rightarrow> ret (t\<lparr>tr_status := T_failed\<rparr>)
     | Some transferAtt \<Rightarrow> (\<lambda>st. case creditDestination e t st of ((status, goes_on), st') \<Rightarrow>
         (Inr (t\<lparr>tr_status := status, tr_attestation := (if goes_on then Some transferAtt else tr_attestation t)\<rparr>), st')))"

section \<open>The HTTP interface\<close>

record mesh_request =
  mr_method :: string
  mr_path :: string
  mr_authorization :: "string option"
  mr_forwarded_for :: "string option"
  mr_body :: "(string, json) result"
  mr_limit_param :: "string option"

record mesh_response =
  mp_status :: int
  mp_body :: json

definition respond :: "json \<Rightarrow> mesh_response" where
  "respond b = \<lparr>mp_status = 200, mp_body = b\<rparr>"

definition MUTATING_PATHS :: "string list" where
  "MUTATING_PATHS = [''/transfer'', ''/attest'', ''/attest-balance'']"

text \<open>\<open>header.match(/^Bearer\s+(.+)$/i)?.[1]?.trim()\<close> of a header without line ends.\<close>

definition bearer_of :: "string \<Rightarrow> string option" where
  "bearer_of h = (if to_lower (take 6 h) = ''bearer'' \<and> 8 \<le> length h \<and> is_space (h ! 6) then Some (trim (drop 6 h)) else None)"

definition checkAuth :: "mesh_env \<Rightarrow> mesh_request \<Rightarrow> mesh_response option" where
  "checkAuth e req = (if me_token e = [] then None
     else if bearer_of (or_default (mr_authorization req) []) \<noteq> Some (me_token e)
     then Some \<lparr>mp_status = 401, mp_body = JObj [(''error'', JStr ''Unauthorized'')]\<rparr> else None)"

definition rate_key :: "mesh_request \<Rightarrow> string" where
  "rate_key req = (case mr_forwarded_for req of None \<Rightarrow> ''local'' | Some k \<Rightarrow> if k = [] then ''local'' else k)"

text \<open>One request of a key at a time: the buckets afterwards and whether it is let through.\<close>

definition bucket_step :: "jsnumber \<Rightarrow> string \<Rightarrow> int \<Rightarrow> (string \<times> rate_bucket) list \<Rightarrow> bool \<times> (string \<times> rate_bucket) list" where
  "bucket_step limit key now buckets = (
     let bucket = (case map_of buckets key of None \<Rightarrow> \<lparr>rb_count = 0, rb_windowStart = now\<rparr> | Some b \<Rightarrow> b);
         opened = (if js_sub now (rb_windowStart bucket) > 60000 then \<lparr>rb_count = 0, rb_windowStart = now\<rparr> else bucket);
         counted = opened\<lparr>rb_count := rb_count opened + 1\<rparr>
     in (\<not> js_less limit (JInt (rb_count counted)), AList.update key counted buckets))"

definition checkRateLimit :: "mesh_env \<Rightarrow> mesh_request \<Rightarrow> mesh \<Rightarrow> mesh_response option \<times> mesh" where
  "checkRateLimit e req st = (let now = me_clock e (ms_ticks st); (ok, buckets) = bucket_step (me_limit e) (rate_key req) now (ms_buckets st)
     in (if ok then None else Some \<lparr>mp_status = 429, mp_body = JObj [(''error'', JStr ''Rate limit exceeded'')]\<rparr>,
         st\<lparr>ms_ticks := Suc (ms_ticks st), ms_buckets := buckets\<rparr>))"

text \<open>The gate in front of the mutating endpoints.\<close>

definition mutating :: "mesh_request \<Rightarrow> bool" where
  "mutating req = (mr_path req \<in> set MUTATING_PATHS \<and> mr_method req = ''POST'')"

definition mesh_gate :: "mesh_env \<Rightarrow> mesh_request \<Rightarrow> mesh \<Rightarrow> mesh_response option \<times> mesh" where
  "mesh_gate e req st = (if \<not> mutating req then (None, st)
     else (case checkAuth e req of Some r \<Rightarrow> (Some r, st) | None \<Rightarrow> checkRateLimit e req st))"

definition state_json :: "ChainState \<Rightarrow> json" where
  "state_json s = JObj ([(''chainId'', JStr (cs_chainId s))] @ some_member ''blockHeight'' (cs_blockHeight s)
     @ [(''blockHash'', cs_blockHash s), (''stateRoot'', cs_stateRoot s), (''timestamp'', JNum (JInt (cs_timestamp s)))])"

definition status_name :: "transfer_status \<Rightarrow> string" where
  "status_name s = (case s of T_pending \<Rightarrow> ''pending'' | T_attested \<Rightarrow> ''attested'' | T_settled \<Rightarrow> ''settled'' | T_failed \<Rightarrow> ''failed'')"

definition transfer_json :: "CrossChainTransfer \<Rightarrow> json" where
  "transfer_json t = JObj ([(''id'', JStr (tr_id t)),
     (''from'', JObj (some_member ''chain'' (tr_from_chain t) @ some_member ''address'' (tr_from_address t) @ [(''amount'', JStr (show_int (tr_amount t)))])),
     (''to'', JObj (some_member ''chain'' (tr_to_chain t) @ some_member ''address'' (tr_to_address t))), (''status'', JStr (status_name (tr_status t)))]
     @ some_member ''attestation'' (map_option attestation_json (tr_attestation t)))"

definition route_state :: "mesh_env \<Rightarrow> mesh_response act" where
  "route_state e = bindA (getEtoState e) (\<lambda>eto. bindA (getEthState e) (\<lambda>eth.
     ret (respond (JObj [(''eto'', state_json eto), (''eth'', state_json eth), (''validator'', JStr (me_validator e))]))))"

definition route_attest :: "mesh_env \<Rightarrow> mesh_request \<Rightarrow> mesh_response act" where
  "route_attest e req = bindA (lift (mr_body req)) (\<lambda>body. if body = JNull then raise ''TypeError'' else
     let c = or_else (own_field body ''chain'') (JStr ''eto-testnet'') in
     bindA (chain_state e (Some c)) (\<lambda>state.
     bindA (createStateAttestation e state (Some (JStr (if c = JStr ''eth-devnet'' then ''eto-testnet'' else ''eth-devnet'')))) (\<lambda>att.
     bindA (storeAttestation att) (\<lambda>_. ret (respond (attestation_json att))))))"

definition route_verify :: "mesh_env \<Rightarrow> mesh_request \<Rightarrow> mesh_response act" where
  "route_verify e req = bindA (lift (mr_body req)) (\<lambda>att. bindA (lift (verifyAttestation e att)) (\<lambda>valid.
     ret (respond (JObj ([(''valid'', JBool valid)] @ some_member ''validator'' (own_field att ''validator''))))))"

definition route_attest_balance :: "mesh_env \<Rightarrow> mesh_request \<Rightarrow> mesh_response act" where
  "route_attest_balance e req = bindA (lift (mr_body req)) (\<lambda>body. if body = JNull then raise ''TypeError'' else
     let c = or_else (own_field body ''chain'') (JStr ''eth-devnet''); address = own_field body ''address'' in
     bindA (source_balance e (Some c) address) (\<lambda>(balance, blockHeight).
     bindA (createBalanceAttestation e (Some c) address balance blockHeight) (\<lambda>att.
     bindA (storeAttestation att) (\<lambda>_. ret (respond (JObj [(''attestation'', attestation_json att), (''balance'', JStr (show_int balance))]))))))"

text \<open>The transfer object is in the list from the start; the handler updates it there when it returns.\<close>

definition route_transfer :: "mesh_env \<Rightarrow> mesh_request \<Rightarrow> mesh_response act" where
  "route_transfer e req = bindA (lift (mr_body req)) (\<lambda>body. if body = JNull then raise ''TypeError'' else
     bindA (lift (BigInt (own_field body ''amount''))) (\<lambda>amount st0.
     let t = \<lparr>tr_id = me_uuid e (length (ms_transfers st0)), tr_from_chain = own_field body ''from_chain'', tr_from_address = own_field body ''from_address'',
           tr_amount = amount, tr_to_chain = own_field body ''to_chain'', tr_to_address = own_field body ''to_address'',
           tr_status = T_pending, tr_attestation = None\<rparr>;
         n = length (ms_transfers st0)
     in bindA (handleCrossChainTransfer e t) (\<lambda>t' st.
          ret (respond (JObj ([(''id'', JStr (tr_id t')), (''status'', JStr (status_name (tr_status t')))]
             @ some_member ''attestation'' (map_option attestation_json (tr_attestation t')))))
            (st\<lparr>ms_transfers := (ms_transfers st)[n := t']\<rparr>))
        (st0\<lparr>ms_transfers := ms_transfers st0 @ [t]\<rparr>)))"

text \<open>\<open>xs.slice(-limit)\<close>.\<close>

definition slice_last :: "jsnumber \<Rightarrow> 'a list \<Rightarrow> 'a list" where
  "slice_last limit xs = (case limit of
       JInt i \<Rightarrow> if i = 0 then xs else if 0 < i then drop (length xs - nat i) xs else drop (nat (- i)) xs
     | JInf b \<Rightarrow> if b then xs else []
     | _ \<Rightarrow> xs)"

definition mesh_routes :: "mesh_env \<Rightarrow> mesh_request \<Rightarrow> mesh_response act" where
  "mesh_routes e req = (
     if mr_path req = ''/health'' then ret (respond (JObj [(''status'', JStr ''ok''), (''validator'', JStr (me_validator e)),
       (''chains'', JArr [JStr ''eto-testnet'', JStr ''eth-devnet''])]))
     else if mr_path req = ''/state'' then route_state e
     else if mr_path req = ''/attest'' \<and> mr_method req = ''POST'' then route_attest e req
     else if mr_path req = ''/verify'' \<and> mr_method req = ''POST'' then route_verify e req
     else if mr_path req = ''/attest-balance'' \<and> mr_method req = ''POST'' then route_attest_balance e req
     else if mr_path req = ''/transfer'' \<and> mr_method req = ''POST'' then route_transfer e req
     else if mr_path req = ''/attestations'' then (\<lambda>st. ret (respond (JArr (map attestation_json
       (slice_last (parseInt False (case mr_limit_param req of None \<Rightarrow> ''50'' | Some l \<Rightarrow> if l = [] then ''50'' else l)) (ms_attestations st))))) st)
     else if mr_path req = ''/transfers'' then (\<lambda>st. ret (respond (JArr (map transfer_json (ms_transfers st)))) st)
     else ret \<lparr>mp_status = 404, mp_body = JObj [(''error'', JStr ''Not found'')]\<rparr>)"

text \<open>A handler that throws is answered with status 500.\<close>

definition mesh_fetch :: "mesh_env \<Rightarrow> mesh_request \<Rightarrow> mesh \<Rightarrow> mesh_response \<times> mesh" where
  "mesh_fetch e req st = (case mesh_gate e req st of
       (Some r, st') \<Rightarrow> (r, st')
     | (None, st') \<Rightarrow> (case mesh_routes e req st' of
           (Inr r, st'') \<Rightarrow> (r, st'') | (Inl err, st'') \<Rightarrow> (\<lparr>mp_status = 500, mp_body = JStr err\<rparr>, st'')))"

text \<open>One turn of the main loop; an exception is logged and the loop goes on.\<close>

definition mesh_tick :: "mesh_env \<Rightarrow> mesh \<Rightarrow> mesh" where
  "mesh_tick e st = snd (bindA (getEtoState e) (\<lambda>eto. bindA (getEthState e) (\<lambda>eth.
     bindA (createStateAttestation e eto (Some (JStr ''eth-devnet''))) (\<lambda>a. bindA (storeAttestation a) (\<lambda>_.
     bindA (createStateAttestation e eth (Some (JStr ''eto-testnet''))) (\<lambda>b. storeAttestation b))))) st)"

datatype mesh_event = Http mesh_request | Tick

definition mesh_step :: "mesh_env \<Rightarrow> mesh_event \<Rightarrow> mesh \<Rightarrow> mesh" where
  "mesh_step e ev st = (case ev of Http req \<Rightarrow> snd (mesh_fetch e req st) | Tick \<Rightarrow> mesh_tick e st)"

definition mesh_run :: "mesh_env \<Rightarrow> mesh_event list \<Rightarrow> mesh \<Rightarrow> mesh" where
  "mesh_run e evs st = foldl (\<lambda>st ev. mesh_step e ev st) st evs"

definition mesh_start :: mesh where
  "mesh_start = \<lparr>ms_attestations = [], ms_transfers = [], ms_buckets = [], ms_calls = [], ms_ticks = 0\<rparr>"

section \<open>Specification\<close>

text \<open>An attestation of this validator, and the calls that move funds.\<close>

definition own :: "mesh_env \<Rightarrow> Attestation \<Rightarrow> bool" where
  "own e a \<longleftrightarrow> at_validator a = me_validator e \<and> at_signature a = signAttestation e (signed_members a)"

definition moving :: "rpc_call \<Rightarrow> bool" where
  "moving call \<longleftrightarrow> fst (snd call) = ''faucet'' \<or> fst (snd call) = ''eth_sendTransaction''"

definition moves :: "mesh \<Rightarrow> rpc_call list" where
  "moves st = filter moving (ms_calls st)"

text \<open>The credit that a transfer asks for, and a call without the account that the node offered for it.\<close>

definition credit_of :: "CrossChainTransfer \<Rightarrow> rpc_call" where
  "credit_of t = (if tr_to_chain t = Some (JStr ''eto-testnet'')
     then (Eto, ''faucet'', [opt_arg (tr_to_address t), JStr (amount_hex (tr_amount t))])
     else (Eth, ''eth_sendTransaction'', [JObj (some_member ''to'' (tr_to_address t) @ [(''value'', JStr (amount_hex (tr_amount t)))])]))"

fun without_from :: "rpc_call \<Rightarrow> rpc_call" where
  "without_from (c, m, [JObj ((k, v) # kvs)]) = (c, m, [JObj (if k = ''from'' then kvs else (k, v) # kvs)])"
| "without_from call = call"

definition is_settled :: "CrossChainTransfer \<Rightarrow> bool" where
  "is_settled t \<longleftrightarrow> tr_status t = T_settled"

text \<open>The store has an attestation of a balance that covers the transfer.\<close>

definition backs :: "CrossChainTransfer \<Rightarrow> Attestation \<Rightarrow> bool" where
  "backs t a \<longleftrightarrow> at_type a = A_balance \<and> at_sourceChain a = tr_from_chain t
     \<and> (\<exists>b \<ge> tr_amount t. at_data a = some_member ''address'' (tr_from_address t) @ [(''balance'', JStr (show_int b)), (''verified'', JBool True)])"

definition authorised_transfer :: "mesh_env \<Rightarrow> mesh_event \<Rightarrow> bool" where
  "authorised_transfer e ev \<longleftrightarrow> (case ev of Tick \<Rightarrow> False
     | Http req \<Rightarrow> mr_path req = ''/transfer'' \<and> mr_method req = ''POST'' \<and> checkAuth e req = None)"

text \<open>The requests that reach the rate limit: key, time and whether they were let through.\<close>

definition rated :: "mesh_env \<Rightarrow> mesh_event \<Rightarrow> mesh \<Rightarrow> (string \<times> int \<times> bool) list" where
  "rated e ev st = (case ev of Tick \<Rightarrow> []
     | Http req \<Rightarrow> if mutating req \<and> checkAuth e req = None then [(rate_key req, me_clock e (ms_ticks st), fst (mesh_gate e req st) = None)] else [])"

fun rate_log :: "mesh_env \<Rightarrow> mesh_event list \<Rightarrow> mesh \<Rightarrow> (string \<times> int \<times> bool) list" where
  "rate_log e [] st = []"
| "rate_log e (ev # evs) st = rated e ev st @ rate_log e evs (mesh_step e ev st)"

fun passed :: "string \<Rightarrow> (string \<times> int \<times> bool) list \<Rightarrow> nat" where
  "passed key [] = 0"
| "passed key ((k, now, ok) # es) = (if k = key \<and> ok then 1 else 0) + passed key es"

section \<open>Lemmas: what an operation does to the state\<close>

text \<open>An operation that moves no funds: it appends own attestations only. \<open>Q\<close> is what holds of its result and of what it appended.\<close>

definition act_ok :: "mesh_env \<Rightarrow> 'a act \<Rightarrow> ('a \<Rightarrow> Attestation list \<Rightarrow> bool) \<Rightarrow> bool" where
  "act_ok e m Q \<longleftrightarrow> (\<forall>st. ms_buckets (snd (m st)) = ms_buckets st \<and> ms_transfers (snd (m st)) = ms_transfers st \<and> moves (snd (m st)) = moves st
     \<and> (\<exists>as. ms_attestations (snd (m st)) = ms_attestations st @ as \<and> list_all (own e) as \<and> (\<forall>x. fst (m st) = Inr x \<longrightarrow> Q x as)))"

abbreviation reader :: "mesh_env \<Rightarrow> 'a act \<Rightarrow> bool" where
  "reader e m \<equiv> act_ok e m (\<lambda>_ as. as = [])"

lemma act_okE:
  assumes "act_ok e m Q" "m st = (r, st')"
  obtains as where "ms_buckets st' = ms_buckets st" "ms_transfers st' = ms_transfers st" "moves st' = moves st"
    "ms_attestations st' = ms_attestations st @ as" "list_all (own e) as" "\<And>x. r = Inr x \<Longrightarrow> Q x as"
proof -
  from assms(1) obtain as where "ms_buckets (snd (m st)) = ms_buckets st" "ms_transfers (snd (m st)) = ms_transfers st"
    "moves (snd (m st)) = moves st" "ms_attestations (snd (m st)) = ms_attestations st @ as" "list_all (own e) as"
    "\<And>x. fst (m st) = Inr x \<Longrightarrow> Q x as" unfolding act_ok_def by meson
  with assms(2) show thesis by (intro that) simp_all
qed

lemma act_bind:
  assumes "act_ok e m Q" "\<And>x as. Q x as \<Longrightarrow> act_ok e (f x) (\<lambda>y bs. R y (as @ bs))"
  shows "act_ok e (bindA m f) R"
  unfolding act_ok_def
proof (intro allI)
  fix st
  obtain r st1 where m: "m st = (r, st1)" by (cases "m st")
  obtain as where a: "ms_buckets st1 = ms_buckets st" "ms_transfers st1 = ms_transfers st" "moves st1 = moves st"
    "ms_attestations st1 = ms_attestations st @ as" "list_all (own e) as" "\<And>x. r = Inr x \<Longrightarrow> Q x as" using act_okE [OF assms(1) m] by metis
  let ?goal = "\<lambda>s'. ms_buckets (snd s') = ms_buckets st \<and> ms_transfers (snd s') = ms_transfers st \<and> moves (snd s') = moves st
     \<and> (\<exists>as. ms_attestations (snd s') = ms_attestations st @ as \<and> list_all (own e) as \<and> (\<forall>x. fst s' = Inr x \<longrightarrow> R x as))"
  show "?goal (bindA m f st)"
  proof (cases r)
    case (Inl err)
    then show ?thesis using a by (simp add: bindA_def m)
  next
    case (Inr x)
    obtain r2 st2 where f: "f x st1 = (r2, st2)" by (cases "f x st1")
    obtain bs where "ms_buckets st2 = ms_buckets st1" "ms_transfers st2 = ms_transfers st1" "moves st2 = moves st1"
      "ms_attestations st2 = ms_attestations st1 @ bs" "list_all (own e) bs" "\<And>y. r2 = Inr y \<Longrightarrow> R y (as @ bs)"
      using act_okE [OF assms(2) [OF a(6) [OF Inr]] f] by metis
    then show ?thesis using a by (simp add: bindA_def m Inr f)
  qed
qed

lemma act_reader: "reader e m \<Longrightarrow> (\<And>x. act_ok e (f x) R) \<Longrightarrow> act_ok e (bindA m f) R"
  by (erule act_bind) simp

lemma act_ret: "Q x [] \<Longrightarrow> act_ok e (ret x) Q"
  by (simp add: act_ok_def ret_def)

lemma act_raise: "act_ok e (raise err) Q"
  by (simp add: act_ok_def raise_def)

lemma act_tick: "reader e (tick e)"
  by (simp add: act_ok_def tick_def moves_def)

lemma act_lift: "reader e (lift r)"
  by (simp add: act_ok_def lift_def)

lemma act_rpc: "\<not> moving (c, m, ps) \<Longrightarrow> reader e (rpc e c m ps)"
  by (simp add: act_ok_def rpc_def moves_def)

lemma act_store: "own e a \<Longrightarrow> act_ok e (f ()) (\<lambda>y as. R y (a # as)) \<Longrightarrow> act_ok e (bindA (storeAttestation a) f) R"
  by (rule act_bind [where Q = "\<lambda>_ as. as = [a]"]) (auto simp: act_ok_def storeAttestation_def moves_def)

lemmas act_rules = act_reader act_ret act_raise act_tick act_lift act_rpc

lemma own_sign: "at_validator a = me_validator e \<Longrightarrow> own e (sign_it e a)"
  by (simp add: own_def sign_it_def signed_members_def head_members_def)

lemma readers: "reader e (getEtoState e)" "reader e (getEthState e)" "reader e (chain_state e c)" "reader e (getEthBalance e a)"
  "reader e (getEtoBalance e a)" "reader e (source_balance e c a)"
proof -
  show eto: "reader e (getEtoState e)" and eth: "reader e (getEthState e)"
    by (auto simp: getEtoState_def getEthState_def moving_def intro!: act_rules)
  then show "reader e (chain_state e c)" by (simp add: chain_state_def)
  show b: "reader e (getEthBalance e a)" and c: "reader e (getEtoBalance e a)"
    by (auto simp: getEthBalance_def getEtoBalance_def moving_def intro!: act_rules)
  show "reader e (source_balance e c a)"
    by (auto simp: source_balance_def moving_def intro!: act_rules b c)
qed

lemma act_create_state: "act_ok e (createStateAttestation e s d) (\<lambda>a as. as = [] \<and> own e a)"
  unfolding createStateAttestation_def by (intro act_rules conjI refl own_sign) simp

lemma act_create_balance: "act_ok e (createBalanceAttestation e c a b n) (\<lambda>att as. as = [] \<and> own e att \<and> at_type att = A_balance
   \<and> at_sourceChain att = c \<and> at_data att = some_member ''address'' a @ [(''balance'', JStr (show_int b)), (''verified'', JBool True)])"
  unfolding createBalanceAttestation_def by (intro act_rules conjI refl own_sign) (simp_all add: sign_it_def)

lemma act_attest_transfer:
  "act_ok e (attest_transfer e t) (\<lambda>r as. r \<noteq> None \<longrightarrow> list_ex (backs t) as)"
  unfolding attest_transfer_def
proof (intro act_reader [OF readers(6)], clarsimp simp: act_ret)
  fix b n
  assume "\<not> b < tr_amount t"
  then show "act_ok e (bindA (createBalanceAttestation e (tr_from_chain t) (tr_from_address t) b n) (\<lambda>balanceAtt.
       bindA (storeAttestation balanceAtt) (\<lambda>_.
       bindA (chain_state e (tr_from_chain t)) (\<lambda>state.
       bindA (createStateAttestation e state (tr_to_chain t)) (\<lambda>transferAtt.
       bindA (storeAttestation transferAtt) (\<lambda>_. ret (Some transferAtt))))))) (\<lambda>r as. (\<exists>y. r = Some y) \<longrightarrow> list_ex (backs t) as)"
    by (auto simp: backs_def intro!: act_bind [OF act_create_balance] act_store act_reader [OF readers(3)] act_bind [OF act_create_state] act_ret exI [of _ b])
qed

lemma act_get: "(\<And>st. Q (f st) []) \<Longrightarrow> act_ok e (\<lambda>st. ret (f st) st) Q"
  by (simp add: act_ok_def ret_def)

abbreviation plain :: "mesh_env \<Rightarrow> 'a act \<Rightarrow> bool" where
  "plain e m \<equiv> act_ok e m (\<lambda>_ _. True)"

lemma plain_routes:
  "plain e (route_state e)" "plain e (route_attest e req)" "plain e (route_verify e req)" "plain e (route_attest_balance e req)"
proof -
  show "plain e (route_state e)" unfolding route_state_def by (intro act_reader [OF readers(1)] act_reader [OF readers(2)] act_ret) simp
  show "plain e (route_attest e req)" unfolding route_attest_def Let_def
    by (auto intro!: act_reader [OF act_lift] act_raise act_reader [OF readers(3)] act_bind [OF act_create_state] act_store act_ret)
  show "plain e (route_verify e req)" unfolding route_verify_def by (intro act_reader [OF act_lift] act_ret) simp
  show "plain e (route_attest_balance e req)" unfolding route_attest_balance_def Let_def
    by (auto intro!: act_reader [OF act_lift] act_raise act_reader [OF readers(6)] act_bind [OF act_create_balance] act_store act_ret)
qed

lemma mesh_routes_other:
  assumes "\<not> (mr_path req = ''/transfer'' \<and> mr_method req = ''POST'')"
  shows "plain e (mesh_routes e req)"
  unfolding mesh_routes_def using assms by (auto intro: plain_routes act_ret act_get)

lemma mesh_routes_transfer:
  "mr_path req = ''/transfer'' \<Longrightarrow> mr_method req = ''POST'' \<Longrightarrow> mesh_routes e req = route_transfer e req"
  by (simp add: mesh_routes_def)

lemma mesh_tick_plain: "plain e (bindA (getEtoState e) (\<lambda>eto. bindA (getEthState e) (\<lambda>eth.
     bindA (createStateAttestation e eto (Some (JStr ''eth-devnet''))) (\<lambda>a. bindA (storeAttestation a) (\<lambda>_.
     bindA (createStateAttestation e eth (Some (JStr ''eto-testnet''))) (\<lambda>b. storeAttestation b))))))"
proof -
  have "own e b \<Longrightarrow> plain e (storeAttestation b)" for b by (simp add: act_ok_def storeAttestation_def moves_def)
  then show ?thesis by (auto intro!: act_reader [OF readers(1)] act_reader [OF readers(2)] act_bind [OF act_create_state] act_store)
qed

text \<open>The calls that one transfer adds.\<close>

definition credited :: "CrossChainTransfer \<Rightarrow> rpc_call list \<Rightarrow> bool" where
  "credited t mv \<longleftrightarrow> map without_from mv = [credit_of t] \<or> mv = [] \<and> \<not> is_settled t"

lemma creditDestination_effect:
  assumes "creditDestination e t st = ((status, goes_on), st')"
  shows "ms_buckets st' = ms_buckets st" "ms_transfers st' = ms_transfers st" "ms_attestations st' = ms_attestations st"
    "\<exists>mv. moves st' = moves st @ mv \<and> (map without_from mv = [credit_of t] \<or> mv = [] \<and> status \<noteq> T_settled)"
  using assms
  by (auto simp: creditDestination_def rpc_def moves_def moving_def credit_of_def split: if_splits sum.splits option.splits json.splits list.splits)

lemma handle_effect:
  assumes "handleCrossChainTransfer e t st = (r, st')" "\<not> is_settled t"
  obtains as mv where "ms_buckets st' = ms_buckets st" "ms_transfers st' = ms_transfers st" "ms_attestations st' = ms_attestations st @ as"
    "list_all (own e) as" "moves st' = moves st @ mv"
    "case r of Inl _ \<Rightarrow> mv = [] | Inr t' \<Rightarrow> credited t' mv \<and> (is_settled t' \<longrightarrow> list_ex (backs t') as)"
proof -
  obtain r1 st1 where f: "attest_transfer e t st = (r1, st1)" by (cases "attest_transfer e t st")
  from act_okE [OF act_attest_transfer f] obtain as where a: "ms_buckets st1 = ms_buckets st" "ms_transfers st1 = ms_transfers st"
    "moves st1 = moves st" "ms_attestations st1 = ms_attestations st @ as" "list_all (own e) as"
    "\<And>x. r1 = Inr x \<Longrightarrow> x \<noteq> None \<longrightarrow> list_ex (backs t) as" by metis
  consider err where "r1 = Inl err" | "r1 = Inr None" | att where "r1 = Inr (Some att)" by (metis option.exhaust sumE)
  then show thesis
  proof cases
    case 1
    then show thesis using assms(1) a by (intro that [of as "[]"]) (auto simp: handleCrossChainTransfer_def bindA_def f)
  next
    case 2
    then show thesis using assms(1) a
      by (intro that [of as "[]"]) (auto simp: handleCrossChainTransfer_def bindA_def f ret_def credited_def is_settled_def)
  next
    case 3
    obtain status goes_on st2 where c: "creditDestination e t st1 = ((status, goes_on), st2)" by (metis prod.exhaust)
    note k = creditDestination_effect [OF c]
    obtain mv where mv: "moves st2 = moves st1 @ mv" "map without_from mv = [credit_of t] \<or> mv = [] \<and> status \<noteq> T_settled" using k(4) by (elim exE conjE)
    define t' where "t' = t\<lparr>tr_status := status, tr_attestation := (if goes_on then Some att else tr_attestation t)\<rparr>"
    have r: "r = Inr t'" "st' = st2" using assms(1) 3 by (auto simp: handleCrossChainTransfer_def bindA_def f c t'_def)
    have same: "credit_of t' = credit_of t" "backs t' = backs t" "is_settled t' \<longleftrightarrow> status = T_settled"
      by (auto simp: credit_of_def backs_def is_settled_def t'_def fun_eq_iff)
    show thesis
    proof (rule that)
      show "ms_buckets st' = ms_buckets st" "ms_transfers st' = ms_transfers st" "ms_attestations st' = ms_attestations st @ as"
        "list_all (own e) as" "moves st' = moves st @ mv"
        using a k(1-3) mv(1) by (simp_all only: r)
      have "list_ex (backs t) as" using a(6) 3 by blast
      then show "case r of Inl _ \<Rightarrow> mv = [] | Inr t' \<Rightarrow> credited t' mv \<and> (is_settled t' \<longrightarrow> list_ex (backs t') as)"
        using mv(2) by (simp add: r(1) credited_def same)
    qed
  qed
qed

lemma transfer_effect:
  assumes "route_transfer e req st = (r, st')"
  shows "st' = st \<or> (\<exists>t as mv. ms_buckets st' = ms_buckets st \<and> ms_transfers st' = ms_transfers st @ [t]
    \<and> ms_attestations st' = ms_attestations st @ as \<and> list_all (own e) as \<and> moves st' = moves st @ mv
    \<and> credited t mv \<and> (is_settled t \<longrightarrow> list_ex (backs t) as))"
proof (cases "case mr_body req of Inl _ \<Rightarrow> True | Inr body \<Rightarrow> body = JNull \<or> \<not> is_ok (BigInt (own_field body ''amount''))")
  case True
  then show ?thesis using assms
    by (cases "BigInt (own_field (projr (mr_body req)) ''amount'')")
       (auto simp: route_transfer_def bindA_def lift_def raise_def split: sum.splits if_splits)
next
  case False
  then obtain body amount where b: "mr_body req = Inr body" "body \<noteq> JNull" "BigInt (own_field body ''amount'') = Inr amount"
    by (auto simp: is_ok_iff split: sum.splits)
  define t where "t = \<lparr>tr_id = me_uuid e (length (ms_transfers st)), tr_from_chain = own_field body ''from_chain'', tr_from_address = own_field body ''from_address'',
           tr_amount = amount, tr_to_chain = own_field body ''to_chain'', tr_to_address = own_field body ''to_address'',
           tr_status = T_pending, tr_attestation = None\<rparr>"
  define st0 where "st0 = st\<lparr>ms_transfers := ms_transfers st @ [t]\<rparr>"
  have n: "\<not> is_settled t" by (simp add: t_def is_settled_def)
  have z: "moves st0 = moves st" "ms_attestations st0 = ms_attestations st" "ms_buckets st0 = ms_buckets st" "ms_transfers st0 = ms_transfers st @ [t]"
    by (simp_all add: st0_def moves_def)
  obtain r1 st1 where h: "handleCrossChainTransfer e t st0 = (r1, st1)" by (cases "handleCrossChainTransfer e t st0")
  obtain as mv where k: "ms_buckets st1 = ms_buckets st0" "ms_transfers st1 = ms_transfers st0" "ms_attestations st1 = ms_attestations st0 @ as"
    "list_all (own e) as" "moves st1 = moves st0 @ mv"
    "case r1 of Inl _ \<Rightarrow> mv = [] | Inr t' \<Rightarrow> credited t' mv \<and> (is_settled t' \<longrightarrow> list_ex (backs t') as)"
    by (rule handle_effect [OF h n])
  have s: "(r, st') = bindA (handleCrossChainTransfer e t) (\<lambda>t' st'.
          ret (respond (JObj ([(''id'', JStr (tr_id t')), (''status'', JStr (status_name (tr_status t')))]
             @ some_member ''attestation'' (map_option attestation_json (tr_attestation t')))))
            (st'\<lparr>ms_transfers := (ms_transfers st')[length (ms_transfers st) := t']\<rparr>)) st0"
    unfolding assms [symmetric] by (simp add: route_transfer_def bindA_def lift_def b t_def st0_def Let_def)
  show ?thesis
  proof (cases r1)
    case (Inl err)
    then have "st' = st1" using s by (simp add: bindA_def h)
    moreover have "mv = []" using k(6) Inl by simp
    ultimately have "ms_buckets st' = ms_buckets st" "ms_transfers st' = ms_transfers st @ [t]" "ms_attestations st' = ms_attestations st @ as"
      "moves st' = moves st @ []" "credited t []" using k n by (simp_all only: z credited_def append_Nil2 simp_thms)
    then show ?thesis using k(4) n by blast
  next
    case (Inr t')
    then have "st' = st1\<lparr>ms_transfers := (ms_transfers st1)[length (ms_transfers st) := t']\<rparr>" using s by (simp add: bindA_def h ret_def)
    then have "ms_buckets st' = ms_buckets st" "ms_transfers st' = ms_transfers st @ [t']" "ms_attestations st' = ms_attestations st @ as"
      "moves st' = moves st @ mv" using k(1-3) k(5) by (simp_all add: z) (simp_all add: moves_def st0_def)
    moreover have "credited t' mv \<and> (is_settled t' \<longrightarrow> list_ex (backs t') as)" using k(6) Inr by simp
    ultimately show ?thesis using k(4) by blast
  qed
qed

lemma gate_effect:
  assumes "mesh_gate e req st = (r, st')"
  shows "ms_attestations st' = ms_attestations st" "ms_transfers st' = ms_transfers st" "moves st' = moves st"
    "ms_buckets st' = (if mutating req \<and> checkAuth e req = None
       then snd (bucket_step (me_limit e) (rate_key req) (me_clock e (ms_ticks st)) (ms_buckets st)) else ms_buckets st)"
    "r = None \<Longrightarrow> mutating req \<Longrightarrow> checkAuth e req = None"
    "mutating req \<Longrightarrow> checkAuth e req = None \<Longrightarrow> r = None
       \<longleftrightarrow> fst (bucket_step (me_limit e) (rate_key req) (me_clock e (ms_ticks st)) (ms_buckets st))"
  using assms by (auto simp: mesh_gate_def checkRateLimit_def moves_def Let_def split: if_splits option.splits prod.splits)

lemma fetch_effect:
  "\<exists>ts as mv. ms_transfers (snd (mesh_fetch e req st)) = ms_transfers st @ ts \<and> ms_attestations (snd (mesh_fetch e req st)) = ms_attestations st @ as
     \<and> moves (snd (mesh_fetch e req st)) = moves st @ mv \<and> list_all (own e) as
     \<and> (ts = [] \<and> mv = [] \<or> (\<exists>t. ts = [t] \<and> authorised_transfer e (Http req) \<and> credited t mv \<and> (is_settled t \<longrightarrow> list_ex (backs t) as)))"
  "ms_buckets (snd (mesh_fetch e req st)) = ms_buckets (snd (mesh_gate e req st))"
proof -
  obtain r st1 where g: "mesh_gate e req st = (r, st1)" by (cases "mesh_gate e req st")
  note G = gate_effect [OF g]
  obtain r2 st2 where m: "mesh_routes e req st1 = (r2, st2)" by (cases "mesh_routes e req st1")
  have f: "snd (mesh_fetch e req st) = (if r = None then st2 else st1)"
    by (auto simp: mesh_fetch_def g m split: option.splits sum.splits)
  let ?P = "\<lambda>s'. \<exists>ts as mv. ms_transfers s' = ms_transfers st @ ts \<and> ms_attestations s' = ms_attestations st @ as
     \<and> moves s' = moves st @ mv \<and> list_all (own e) as
     \<and> (ts = [] \<and> mv = [] \<or> (\<exists>t. ts = [t] \<and> authorised_transfer e (Http req) \<and> credited t mv \<and> (is_settled t \<longrightarrow> list_ex (backs t) as)))"
  have st1: "?P st1" using G by (intro exI [of _ "[]"]) simp
  have st2: "?P st2 \<and> ms_buckets st2 = ms_buckets st1" if "r = None"
  proof (cases "mr_path req = ''/transfer'' \<and> mr_method req = ''POST''")
    case True
    then have rt: "route_transfer e req st1 = (r2, st2)" using m mesh_routes_transfer by metis
    have "mutating req" using True by (simp add: mutating_def MUTATING_PATHS_def)
    then have auth: "authorised_transfer e (Http req)" using True G(5) [OF that] by (simp add: authorised_transfer_def)
    from transfer_effect [OF rt] show ?thesis
    proof (elim disjE exE conjE)
      assume "st2 = st1" then show ?thesis using st1 by simp
    next
      fix t as mv
      assume a: "ms_buckets st2 = ms_buckets st1" "ms_transfers st2 = ms_transfers st1 @ [t]" "ms_attestations st2 = ms_attestations st1 @ as"
        "list_all (own e) as" "moves st2 = moves st1 @ mv" "credited t mv" "is_settled t \<longrightarrow> list_ex (backs t) as"
      have "ms_transfers st2 = ms_transfers st @ [t]" "ms_attestations st2 = ms_attestations st @ as" "moves st2 = moves st @ mv"
        using a(2,3,5) G(1-3) by simp_all
      then show ?thesis using a(1,4,6,7) auth by blast
    qed
  next
    case False
    from act_okE [OF mesh_routes_other [OF False] m] obtain as where
      a: "ms_buckets st2 = ms_buckets st1" "ms_transfers st2 = ms_transfers st1" "moves st2 = moves st1"
      "ms_attestations st2 = ms_attestations st1 @ as" "list_all (own e) as" by metis
    then show ?thesis using G(1-3) by (intro conjI exI [of _ "[]"] exI [of _ as]) simp_all
  qed
  show "?P (snd (mesh_fetch e req st))" using f st1 st2 by (cases "r = None") auto
  show "ms_buckets (snd (mesh_fetch e req st)) = ms_buckets (snd (mesh_gate e req st))" using f st2 by (cases "r = None") (auto simp: g)
qed

lemma step_effect:
  obtains ts as mv where "ms_transfers (mesh_step e ev st) = ms_transfers st @ ts" "ms_attestations (mesh_step e ev st) = ms_attestations st @ as"
     "moves (mesh_step e ev st) = moves st @ mv" "list_all (own e) as"
     "ts = [] \<and> mv = [] \<or> (\<exists>t. ts = [t] \<and> authorised_transfer e ev \<and> credited t mv \<and> (is_settled t \<longrightarrow> list_ex (backs t) as))"
proof (cases ev)
  case (Http req)
  then show thesis using fetch_effect(1) [of e req st] that unfolding mesh_step_def by (elim exE conjE) simp
next
  case Tick
  obtain r st' where m: "bindA (getEtoState e) (\<lambda>eto. bindA (getEthState e) (\<lambda>eth.
     bindA (createStateAttestation e eto (Some (JStr ''eth-devnet''))) (\<lambda>a. bindA (storeAttestation a) (\<lambda>_.
     bindA (createStateAttestation e eth (Some (JStr ''eto-testnet''))) (\<lambda>b. storeAttestation b))))) st = (r, st')" by (metis prod.exhaust)
  from act_okE [OF mesh_tick_plain m] obtain as where
    "ms_transfers st' = ms_transfers st" "moves st' = moves st" "ms_attestations st' = ms_attestations st @ as" "list_all (own e) as" by metis
  then show thesis using m Tick by (intro that [of "[]" as "[]"]) (simp_all add: mesh_step_def mesh_tick_def)
qed

section \<open>Lemmas: runs\<close>

definition mesh_inv :: "mesh_env \<Rightarrow> mesh_event list \<Rightarrow> mesh \<Rightarrow> bool" where
  "mesh_inv e evs st \<longleftrightarrow> list_all (own e) (ms_attestations st)
     \<and> length (ms_transfers st) \<le> length (filter (authorised_transfer e) evs)
     \<and> subseq (map credit_of (filter is_settled (ms_transfers st))) (map without_from (moves st))
     \<and> subseq (map without_from (moves st)) (map credit_of (ms_transfers st))
     \<and> list_all (\<lambda>t. list_ex (backs t) (ms_attestations st)) (filter is_settled (ms_transfers st))"

lemma list_all_ex_mono: "list_all (\<lambda>t. list_ex (P t) as) ts \<Longrightarrow> list_all (\<lambda>t. list_ex (P t) as \<or> list_ex (P t) bs) ts"
  by (auto simp: list_all_iff)

lemma mesh_inv_step:
  assumes "mesh_inv e evs st"
  shows "mesh_inv e (evs @ [ev]) (mesh_step e ev st)"
proof -
  obtain ts as mv where s: "ms_transfers (mesh_step e ev st) = ms_transfers st @ ts" "ms_attestations (mesh_step e ev st) = ms_attestations st @ as"
     "moves (mesh_step e ev st) = moves st @ mv" "list_all (own e) as"
     "ts = [] \<and> mv = [] \<or> (\<exists>t. ts = [t] \<and> authorised_transfer e ev \<and> credited t mv \<and> (is_settled t \<longrightarrow> list_ex (backs t) as))"
    by (rule step_effect)
  note i = assms [unfolded mesh_inv_def]
  from s(5) show ?thesis
  proof (elim disjE exE conjE)
    assume "ts = []" "mv = []"
    then show ?thesis using i s(1-4) by (auto simp: mesh_inv_def list_all_ex_mono)
  next
    fix t
    assume t: "ts = [t]" "authorised_transfer e ev" "credited t mv" "is_settled t \<longrightarrow> list_ex (backs t) as"
    have "subseq (map credit_of (filter is_settled [t])) (map without_from mv)" "subseq (map without_from mv) (map credit_of [t])"
      using t(3) by (auto simp: credited_def)
    then have "subseq (map credit_of (filter is_settled (ms_transfers st @ [t]))) (map without_from (moves st @ mv))"
      "subseq (map without_from (moves st @ mv)) (map credit_of (ms_transfers st @ [t]))"
      using i unfolding filter_append map_append by (blast intro: list_emb_append_mono)+
    moreover have "list_all (\<lambda>t. list_ex (backs t) (ms_attestations st @ as)) (filter is_settled (ms_transfers st @ [t]))"
      using i t(4) by (auto simp: list_all_ex_mono)
    moreover have "length (ms_transfers st @ [t]) \<le> length (filter (authorised_transfer e) (evs @ [ev]))" using i t(2) by simp
    ultimately show ?thesis using i s(4) unfolding mesh_inv_def s(1-3) t(1) by simp
  qed
qed

lemma mesh_inv_run: "mesh_inv e evs (mesh_run e evs mesh_start)"
proof (induction evs rule: rev_induct)
  case Nil
  then show ?case by (simp add: mesh_inv_def mesh_run_def mesh_start_def moves_def)
next
  case (snoc ev evs)
  then show ?case using mesh_inv_step by (simp add: mesh_run_def)
qed

section \<open>Lemmas: the rate limit\<close>

text \<open>A bucket after one more request.\<close>

definition counted :: "int \<Rightarrow> rate_bucket option \<Rightarrow> rate_bucket" where
  "counted now b = (let bucket = (case b of None \<Rightarrow> \<lparr>rb_count = 0, rb_windowStart = now\<rparr> | Some b \<Rightarrow> b);
       opened = (if js_sub now (rb_windowStart bucket) > 60000 then \<lparr>rb_count = 0, rb_windowStart = now\<rparr> else bucket)
     in opened\<lparr>rb_count := rb_count opened + 1\<rparr>)"

lemma bucket_step_counted:
  "fst (bucket_step (JInt n) k now b) \<longleftrightarrow> rb_count (counted now (map_of b k)) \<le> n"
  "map_of (snd (bucket_step L k now b)) key = (if key = k then Some (counted now (map_of b k)) else map_of b key)"
  by (simp_all add: bucket_step_def counted_def Let_def update_conv' not_less)

lemma counted_cases:
  "counted now None = \<lparr>rb_count = 1, rb_windowStart = now\<rparr>"
  "counted now (Some b) = \<lparr>rb_count = 1, rb_windowStart = now\<rparr> \<or> counted now (Some b) = b\<lparr>rb_count := rb_count b + 1\<rparr>"
  "\<bar>now - rb_windowStart b\<bar> \<le> 60000 \<Longrightarrow> counted now (Some b) = b\<lparr>rb_count := rb_count b + 1\<rparr>"
  by (simp_all add: counted_def Let_def)

fun log_ok :: "jsnumber \<Rightarrow> (string \<times> rate_bucket) list \<Rightarrow> (string \<times> int \<times> bool) list \<Rightarrow> bool" where
  "log_ok L b [] = True"
| "log_ok L b ((k, now, ok) # es) = (ok = fst (bucket_step L k now b) \<and> log_ok L (snd (bucket_step L k now b)) es)"

definition counts_ok :: "(string \<times> rate_bucket) list \<Rightarrow> bool" where
  "counts_ok b \<longleftrightarrow> (\<forall>k bk. map_of b k = Some bk \<longrightarrow> 0 \<le> rb_count bk)"

lemma counts_ok_step:
  assumes "counts_ok b"
  shows "counts_ok (snd (bucket_step L k now b))"
proof -
  have "0 \<le> rb_count (counted now (map_of b k))"
  proof (cases "map_of b k")
    case (Some bk)
    then have "0 \<le> rb_count bk" using assms by (simp add: counts_ok_def)
    then show ?thesis using counted_cases(2) [of now bk] Some by auto
  qed (simp add: counted_cases(1))
  then show ?thesis using assms by (simp add: counts_ok_def bucket_step_counted)
qed

lemma log_ok_append: "counts_ok b \<Longrightarrow> log_ok L b (xs @ ys) \<Longrightarrow> \<exists>b'. counts_ok b' \<and> log_ok L b' ys"
  by (induction L b xs rule: log_ok.induct) (auto simp: counts_ok_step)

lemma step_buckets: "ms_buckets (mesh_step e ev st) = (case rated e ev st of [] \<Rightarrow> ms_buckets st
   | (k, now, ok) # _ \<Rightarrow> snd (bucket_step (me_limit e) k now (ms_buckets st)))"
proof (cases ev)
  case (Http req)
  obtain r st1 where g: "mesh_gate e req st = (r, st1)" by (cases "mesh_gate e req st")
  show ?thesis using gate_effect(4) [OF g] by (simp add: Http mesh_step_def fetch_effect(2) g rated_def)
next
  case Tick
  obtain r st' where m: "bindA (getEtoState e) (\<lambda>eto. bindA (getEthState e) (\<lambda>eth.
     bindA (createStateAttestation e eto (Some (JStr ''eth-devnet''))) (\<lambda>a. bindA (storeAttestation a) (\<lambda>_.
     bindA (createStateAttestation e eth (Some (JStr ''eto-testnet''))) (\<lambda>b. storeAttestation b))))) st = (r, st')" by (metis prod.exhaust)
  from act_okE [OF mesh_tick_plain m] have "ms_buckets st' = ms_buckets st" by metis
  then show ?thesis using m by (simp add: Tick mesh_step_def mesh_tick_def rated_def)
qed

lemma rated_ok: "rated e ev st = [] \<or> (\<exists>k now. rated e ev st = [(k, now, fst (bucket_step (me_limit e) k now (ms_buckets st)))])"
proof (cases ev)
  case (Http req)
  obtain r st1 where g: "mesh_gate e req st = (r, st1)" by (cases "mesh_gate e req st")
  show ?thesis using gate_effect(6) [OF g] by (auto simp: Http rated_def g)
qed (simp add: rated_def)

lemma rate_log_ok: "log_ok (me_limit e) (ms_buckets st) (rate_log e evs st)"
proof (induction evs arbitrary: st)
  case (Cons ev evs)
  then show ?case using rated_ok [of e ev st] Cons.IH [of "mesh_step e ev st"] by (auto simp: step_buckets)
qed simp

lemma opened_window:
  assumes "log_ok (JInt n) b es" "list_all (\<lambda>(_, now, _). a \<le> now \<and> now \<le> a + 60000) es" "map_of b key = Some bk"
    and "a \<le> rb_windowStart bk" "rb_windowStart bk \<le> a + 60000"
  shows "int (passed key es) \<le> max 0 (n - rb_count bk)"
  using assms
proof (induction es arbitrary: b bk)
  case (Cons x es)
  obtain k now ok where x: "x = (k, now, ok)" by (cases x)
  let ?b = "snd (bucket_step (JInt n) k now b)"
  from Cons.prems x have p: "ok = fst (bucket_step (JInt n) k now b)" "log_ok (JInt n) ?b es"
    "list_all (\<lambda>(_, now, _). a \<le> now \<and> now \<le> a + 60000) es" "a \<le> now" "now \<le> a + 60000" by simp_all
  show ?case
  proof (cases "k = key")
    case True
    have "\<bar>now - rb_windowStart bk\<bar> \<le> 60000" using p(4,5) Cons.prems(4,5) by linarith
    then have c: "counted now (map_of b k) = bk\<lparr>rb_count := rb_count bk + 1\<rparr>" using counted_cases(3) Cons.prems(3) True by simp
    then have "map_of ?b key = Some (bk\<lparr>rb_count := rb_count bk + 1\<rparr>)" using True by (simp add: bucket_step_counted)
    then have "int (passed key es) \<le> max 0 (n - (rb_count bk + 1))" using Cons.IH [OF p(2,3)] Cons.prems(4,5) by simp
    moreover have "ok \<longleftrightarrow> rb_count bk + 1 \<le> n" using p(1) c by (simp add: bucket_step_counted)
    ultimately show ?thesis by (auto simp: x True)
  next
    case False
    then have "map_of ?b key = Some bk" using Cons.prems(3) by (simp add: bucket_step_counted)
    then show ?thesis using Cons.IH [OF p(2,3)] Cons.prems(4,5) False by (simp add: x)
  qed
qed simp

lemma any_window:
  assumes "log_ok (JInt n) b es" "list_all (\<lambda>(_, now, _). a \<le> now \<and> now \<le> a + 60000) es" "0 \<le> n"
  shows "int (passed key es) \<le> n + (case map_of b key of None \<Rightarrow> 0 | Some bk \<Rightarrow> max 0 (n - rb_count bk))"
  using assms
proof (induction es arbitrary: b)
  case (Cons x es)
  obtain k now ok where x: "x = (k, now, ok)" by (cases x)
  let ?b = "snd (bucket_step (JInt n) k now b)"
  from Cons.prems x have p: "ok = fst (bucket_step (JInt n) k now b)" "log_ok (JInt n) ?b es"
    "list_all (\<lambda>(_, now, _). a \<le> now \<and> now \<le> a + 60000) es" "a \<le> now" "now \<le> a + 60000" by simp_all
  show ?case
  proof (cases "k = key")
    case False
    then show ?thesis using Cons.IH [OF p(2,3)] \<open>0 \<le> n\<close> by (simp add: x bucket_step_counted)
  next
    case True
    let ?c = "counted now (map_of b k)"
    have after: "map_of ?b key = Some ?c" "ok \<longleftrightarrow> rb_count ?c \<le> n" using True p(1) by (simp_all add: bucket_step_counted)
    consider "?c = \<lparr>rb_count = 1, rb_windowStart = now\<rparr>" | bk where "map_of b k = Some bk" "?c = bk\<lparr>rb_count := rb_count bk + 1\<rparr>"
      using counted_cases(1,2) by (cases "map_of b k") (metis, metis)
    then show ?thesis
    proof cases
      case 1
      then have "int (passed key es) \<le> max 0 (n - 1)" using opened_window [OF p(2,3) after(1)] p(4,5) by simp
      moreover have "ok \<longleftrightarrow> 1 \<le> n" using after(2) 1 by simp
      ultimately have "int (passed key (x # es)) \<le> n" using \<open>0 \<le> n\<close> by (auto simp: x True)
      then show ?thesis by (auto split: option.split)
    next
      case 2
      have "int (passed key es) \<le> n + max 0 (n - (rb_count bk + 1))" using Cons.IH [OF p(2,3) \<open>0 \<le> n\<close>] after(1) 2(2) by simp
      moreover have "ok \<longleftrightarrow> rb_count bk + 1 \<le> n" using after(2) 2(2) by simp
      ultimately show ?thesis using 2(1) by (auto simp: x True)
    qed
  qed
qed (simp split: option.split)

section \<open>Properties\<close>

text \<open>C5. In every run of the validator, funds move only for authorised transfers: the calls to the faucet and to the account of the node, in their order, are credits that listed transfers ask for, each at most once and each settled transfer exactly once, to its address and with its amount; there are no more transfers than authorised requests; and for each settled transfer the store holds an attestation, signed by this validator, of a balance of the source address that covers the amount.\<close>

theorem mesh_credits_backed:
  "(let st = mesh_run e evs mesh_start; settled = filter is_settled (ms_transfers st); credits = map without_from (moves st) in
     subseq (map credit_of settled) credits \<and> subseq credits (map credit_of (ms_transfers st))
     \<and> length (ms_transfers st) \<le> length (filter (authorised_transfer e) evs)
     \<and> list_all (\<lambda>t. list_ex (\<lambda>a. backs t a \<and> own e a) (ms_attestations st)) settled)"
proof -
  note i = mesh_inv_run [of e evs, unfolded mesh_inv_def]
  then have "list_all (\<lambda>t. list_ex (\<lambda>a. backs t a \<and> own e a) (ms_attestations (mesh_run e evs mesh_start)))
    (filter is_settled (ms_transfers (mesh_run e evs mesh_start)))"
    by (auto simp: list_all_iff list_ex_iff)
  with i show ?thesis by (simp add: Let_def)
qed

text \<open>C40. The rate limit holds in every stretch of 60 seconds: of the authorised mutating requests that arrive between \<open>a\<close> and \<open>a\<close> + 60000 ms, whatever came before, at most twice the limit pass for one key.\<close>

theorem mesh_rate_limit:
  assumes "me_limit e = JInt n" "0 \<le> n" "rate_log e evs mesh_start = before @ window"
    and "list_all (\<lambda>(_, now, _). a \<le> now \<and> now \<le> a + 60000) window"
  shows "int (passed key window) \<le> 2 * n"
proof -
  have "log_ok (JInt n) [] (before @ window)" using rate_log_ok [of e mesh_start evs] assms(1,3) by (simp add: mesh_start_def)
  moreover have "counts_ok []" by (simp add: counts_ok_def)
  ultimately obtain b where b: "counts_ok b" "log_ok (JInt n) b window" using log_ok_append by blast
  have "(case map_of b key of None \<Rightarrow> 0 | Some bk \<Rightarrow> max 0 (n - rb_count bk)) \<le> n"
    using b(1) assms(2) by (auto simp: counts_ok_def split: option.split)
  then show ?thesis using any_window [OF b(2) assms(4,2), of key] by linarith
qed

definition demo_mesh :: mesh_env where
  "demo_mesh = \<lparr>me_rpc = (\<lambda>_ (c, m, _). if m = ''eth_accounts'' then Inr (Some (JArr [JStr ''0xa''])) else Inr (Some (JNum (JInt 7)))),
     me_clock = (\<lambda>n. 5), me_uuid = (\<lambda>n. ''u''), me_sha = (\<lambda>bs. bs), me_sign = (\<lambda>bs. map (\<lambda>b. b mod 256) bs),
     me_verify = (\<lambda>sig m k. sig = m), me_decode58 = (\<lambda>s. Some []), me_validator = ''v'', me_token = ''t'', me_limit = JInt 1\<rparr>"

definition demo_post :: "string \<Rightarrow> json \<Rightarrow> mesh_request" where
  "demo_post path body = \<lparr>mr_method = ''POST'', mr_path = path, mr_authorization = Some ''Bearer t'', mr_forwarded_for = None,
     mr_body = Inr body, mr_limit_param = None\<rparr>"

lemma demo_rate_log: "rate_log demo_mesh [Http (demo_post ''/attest'' JNull), Http (demo_post ''/attest'' JNull)] mesh_start
   = [] @ [(''local'', 5, True), (''local'', 5, False)]"
  by code_simp

theorem mesh_rate_limit_witness: "int (passed ''local'' [(''local'', 5, True), (''local'', 5, False)]) \<le> 2 * 1"
  by (rule mesh_rate_limit [OF _ _ demo_rate_log, of _ 0]) (simp_all add: demo_mesh_def)

lemma length_join: "length (join sep xs) = sum_list (map length xs) + length sep * (length xs - 1)"
  by (induction sep xs rule: join.induct) simp_all

lemma join_drop_one: "join '','' (xs @ [y, z]) \<noteq> join '','' (xs @ [z])"
proof
  assume "join '','' (xs @ [y, z]) = join '','' (xs @ [z])"
  then have "length (join '','' (xs @ [y, z])) = length (join '','' (xs @ [z]))" by simp
  then show False by (simp add: length_join)
qed

lemma checked_members: "filter (\<lambda>(k, _). k \<noteq> ''signature'' \<and> k \<noteq> ''validator'') (signed_members a)
   = head_members a @ [(''timestamp'', JNum (JInt (at_timestamp a)))]"
  by (simp add: signed_members_def head_members_def some_member_def split: option.split)

lemma attestation_fields: "own_field (attestation_json a) ''signature'' = Some (JStr (at_signature a))"
  "own_field (attestation_json a) ''validator'' = Some (JStr (at_validator a))"
  by (simp_all add: own_field_def attestation_json_def signed_members_def head_members_def some_member_def split: option.splits)

text \<open>C19. The validator refuses its own attestations. The signature is made over the attestation with its validator, and checked against the attestation without it: with a signature scheme that accepts exactly the digest that was signed, an attestation of the store passes only if SHA-256 maps these two different texts to the same digest.\<close>

theorem own_attestations_rejected:
  assumes "a \<in> set (ms_attestations (mesh_run e evs mesh_start))" "me_decode58 e (me_validator e) = Some pk"
    and "\<forall>s s'. me_verify e (me_sign e (me_sha e (utf8 s))) (me_sha e (utf8 s')) pk = (me_sha e (utf8 s) = me_sha e (utf8 s'))"
    and "\<forall>s. \<forall>b \<in> set (me_sign e (me_sha e (utf8 s))). b < 256"
  shows "\<exists>signed checked. signed \<noteq> checked \<and> at_signature a = to_hex (me_sign e (me_sha e (utf8 signed)))
    \<and> verifyAttestation e (attestation_json a) = Inr (me_sha e (utf8 signed) = me_sha e (utf8 checked))"
proof -
  have own: "own e a" using mesh_inv_run [of e evs] assms(1) by (simp add: mesh_inv_def list_all_iff)
  let ?signed = "json_stringify (JObj (signed_members a))"
  let ?checked = "json_stringify (JObj (head_members a @ [(''timestamp'', JNum (JInt (at_timestamp a)))]))"
  have differ: "?signed \<noteq> ?checked" using join_drop_one by (simp add: signed_members_def braces_def)
  have sig: "at_signature a = to_hex (me_sign e (me_sha e (utf8 ?signed)))" using own by (simp add: own_def signAttestation_def)
  moreover have "buffer_from_hex (at_signature a) = me_sign e (me_sha e (utf8 ?signed))" unfolding sig using assms(4) by (intro hex_roundtrip) simp
  moreover have "at_validator a = me_validator e" using own by (simp add: own_def)
  then have "verifyAttestation e (attestation_json a) = Inr (me_verify e (buffer_from_hex (at_signature a)) (me_sha e (utf8 ?checked)) pk)"
    using assms(2) by (simp add: verifyAttestation_def attestation_fields [unfolded attestation_json_def] attestation_json_def checked_members Let_def
        del: json_stringify.simps)
  ultimately have "verifyAttestation e (attestation_json a) = Inr (me_sha e (utf8 ?signed) = me_sha e (utf8 ?checked))" using assms(3) by (simp only:)
  with differ sig show ?thesis by blast
qed

lemma demo_attested: "ms_attestations (mesh_run demo_mesh [Tick] mesh_start) \<noteq> []"
  by (simp add: mesh_run_def mesh_step_def mesh_tick_def bindA_def getEtoState_def getEthState_def rpc_def tick_def ret_def
      createStateAttestation_def storeAttestation_def mesh_start_def demo_mesh_def)

theorem own_attestations_rejected_witness:
  "\<exists>a. a \<in> set (ms_attestations (mesh_run demo_mesh [Tick] mesh_start)) \<and> verifyAttestation demo_mesh (attestation_json a) = Inr False"
proof -
  obtain a where a: "a \<in> set (ms_attestations (mesh_run demo_mesh [Tick] mesh_start))"
    using demo_attested hd_in_set by blast
  have bytes: "map (\<lambda>b. b mod 256) (utf8 s) = utf8 s" for s using utf8_byte_range by (intro map_idI) simp
  have "\<exists>signed checked. signed \<noteq> checked \<and> at_signature a = to_hex (me_sign demo_mesh (me_sha demo_mesh (utf8 signed)))
    \<and> verifyAttestation demo_mesh (attestation_json a) = Inr (me_sha demo_mesh (utf8 signed) = me_sha demo_mesh (utf8 checked))"
    by (rule own_attestations_rejected [OF a, of "[]"]) (simp_all add: demo_mesh_def bytes utf8_byte_range)
  then show ?thesis using a by (auto simp: demo_mesh_def)
qed

section \<open>Defects\<close>

definition demo_transfer :: "string \<Rightarrow> mesh_event" where
  "demo_transfer amount = Http (demo_post ''/transfer'' (JObj [(''from_chain'', JStr ''eth-devnet''), (''from_address'', JStr ''0xb''),
     (''amount'', JStr amount), (''to_chain'', JStr ''eto-testnet''), (''to_address'', JStr ''c'')]))"

definition demo_open :: mesh_env where
  "demo_open = demo_mesh\<lparr>me_limit := JNaN\<rparr>"

lemma demo_open_gate: "mesh_gate demo_open (demo_post ''/transfer'' body) st
   = (None, st\<lparr>ms_ticks := Suc (ms_ticks st), ms_buckets := snd (bucket_step JNaN ''local'' 5 (ms_buckets st))\<rparr>)"
proof -
  have "trim '' t'' = ''t''" "to_lower ''Bearer'' = ''bearer''" "is_space (CHR '' '')" by code_simp+
  then have "checkAuth demo_open (demo_post ''/transfer'' body) = None"
    by (simp add: checkAuth_def bearer_of_def demo_open_def demo_mesh_def demo_post_def or_default_def)
  moreover have "fst (bucket_step JNaN k now b)" for k now b by (simp add: bucket_step_def Let_def)
  ultimately show ?thesis
    by (simp add: mesh_gate_def mutating_def MUTATING_PATHS_def checkRateLimit_def rate_key_def demo_open_def demo_mesh_def demo_post_def
        case_prod_unfold Let_def)
qed

lemma demo_open_attests:
  assumes "tr_from_chain t = Some (JStr ''eth-devnet'')" "tr_amount t \<le> 7"
  shows "\<exists>att st'. attest_transfer demo_open t st = (Inr (Some att), st') \<and> ms_transfers st' = ms_transfers st \<and> moves st' = moves st"
  using assms
  by (simp add: attest_transfer_def source_balance_def getEthBalance_def chain_state_def getEthState_def createBalanceAttestation_def
      createStateAttestation_def storeAttestation_def bindA_def lift_def ret_def rpc_def tick_def moves_def moving_def demo_open_def demo_mesh_def)

lemma demo_transfer_settles:
  assumes "bigint_text s = Inr n" "n \<le> 7"
  shows "\<exists>t. ms_transfers (mesh_step demo_open (demo_transfer s) st) = ms_transfers st @ [t] \<and> tr_status t = T_settled"
    "moves (mesh_step demo_open (demo_transfer s) st) = moves st @ [(Eto, ''faucet'', [JStr ''c'', JStr (amount_hex n)])]"
proof -
  let ?st = "st\<lparr>ms_ticks := Suc (ms_ticks st), ms_buckets := snd (bucket_step JNaN ''local'' 5 (ms_buckets st))\<rparr>"
  let ?t = "\<lparr>tr_id = ''u'', tr_from_chain = Some (JStr ''eth-devnet''), tr_from_address = Some (JStr ''0xb''), tr_amount = n,
     tr_to_chain = Some (JStr ''eto-testnet''), tr_to_address = Some (JStr ''c''), tr_status = T_pending, tr_attestation = None\<rparr>"
  obtain att st' where a: "attest_transfer demo_open ?t (?st\<lparr>ms_transfers := ms_transfers st @ [?t]\<rparr>) = (Inr (Some att), st')"
    "ms_transfers st' = ms_transfers st @ [?t]" "moves st' = moves (?st\<lparr>ms_transfers := ms_transfers st @ [?t]\<rparr>)"
    using demo_open_attests [of ?t "?st\<lparr>ms_transfers := ms_transfers st @ [?t]\<rparr>"] assms(2) by auto
  have uuid: "me_uuid demo_open k = ''u''" for k by (simp add: demo_open_def demo_mesh_def)
  have faucet: "me_rpc demo_open cs (c, ''faucet'', ps) = Inr (Some (JNum (JInt 7)))" for cs c ps by (simp add: demo_open_def demo_mesh_def)
  have "ms_transfers (mesh_step demo_open (demo_transfer s) st) = ms_transfers st @ [?t\<lparr>tr_status := T_settled, tr_attestation := Some att\<rparr>]
    \<and> moves (mesh_step demo_open (demo_transfer s) st) = moves st' @ [(Eto, ''faucet'', [JStr ''c'', JStr (amount_hex n)])]"
    by (simp add: mesh_step_def demo_transfer_def mesh_fetch_def demo_open_gate)
       (simp add: mesh_routes_def demo_post_def route_transfer_def bindA_def lift_def own_field_def assms(1) uuid handleCrossChainTransfer_def
          a(1,2) creditDestination_def rpc_def faucet ret_def opt_arg_def Let_def moves_def moving_def)
  moreover have "moves st' = moves st" unfolding a(3) by (simp add: moves_def)
  ultimately show "\<exists>t. ms_transfers (mesh_step demo_open (demo_transfer s) st) = ms_transfers st @ [t] \<and> tr_status t = T_settled"
    "moves (mesh_step demo_open (demo_transfer s) st) = moves st @ [(Eto, ''faucet'', [JStr ''c'', JStr (amount_hex n)])]" by simp_all
qed

text \<open>Nothing debits the source: a balance of 7 is credited as often as it is asked for.\<close>

lemma balance_credited_twice:
  "map tr_status (ms_transfers (mesh_run demo_open [demo_transfer ''7'', demo_transfer ''7''] mesh_start)) = [T_settled, T_settled]"
  "moves (mesh_run demo_open [demo_transfer ''7'', demo_transfer ''7''] mesh_start)
     = [(Eto, ''faucet'', [JStr ''c'', JStr ''0x7'']), (Eto, ''faucet'', [JStr ''c'', JStr ''0x7''])]"
proof -
  have "bigint_text ''7'' = Inr 7" "amount_hex 7 = ''0x7''" by code_simp+
  note f = demo_transfer_settles [OF this(1)] and h = this(2)
  obtain t u where "ms_transfers (mesh_step demo_open (demo_transfer ''7'') mesh_start) = [] @ [t]" "tr_status t = T_settled"
    "ms_transfers (mesh_step demo_open (demo_transfer ''7'') (mesh_step demo_open (demo_transfer ''7'') mesh_start)) = ([] @ [t]) @ [u]" "tr_status u = T_settled"
    using f(1) [of mesh_start] f(1) [of "mesh_step demo_open (demo_transfer ''7'') mesh_start"] by (auto simp: mesh_start_def)
  then show "map tr_status (ms_transfers (mesh_run demo_open [demo_transfer ''7'', demo_transfer ''7''] mesh_start)) = [T_settled, T_settled]"
    by (simp add: mesh_run_def)
  show "moves (mesh_run demo_open [demo_transfer ''7'', demo_transfer ''7''] mesh_start)
     = [(Eto, ''faucet'', [JStr ''c'', JStr ''0x7'']), (Eto, ''faucet'', [JStr ''c'', JStr ''0x7''])]"
    by (simp add: mesh_run_def f(2) h) (simp add: moves_def mesh_start_def)
qed

text \<open>A negative amount passes the check of the balance.\<close>

lemma negative_amount_settles:
  "\<exists>t. ms_transfers (mesh_run demo_open [demo_transfer ''-5''] mesh_start) = [t] \<and> tr_status t = T_settled"
  "moves (mesh_run demo_open [demo_transfer ''-5''] mesh_start) = [(Eto, ''faucet'', [JStr ''c'', JStr ''0x-5''])]"
proof -
  have "bigint_text ''-5'' = Inr (-5)" "amount_hex (-5) = ''0x-5''" by code_simp+
  note f = demo_transfer_settles [OF this(1), of mesh_start] and h = this(2)
  show "\<exists>t. ms_transfers (mesh_run demo_open [demo_transfer ''-5''] mesh_start) = [t] \<and> tr_status t = T_settled"
    using f(1) by (simp add: mesh_run_def) (simp add: mesh_start_def)
  show "moves (mesh_run demo_open [demo_transfer ''-5''] mesh_start) = [(Eto, ''faucet'', [JStr ''c'', JStr ''0x-5''])]"
    using f(2) by (simp add: mesh_run_def h) (simp add: moves_def mesh_start_def)
qed

text \<open>The key is a header of the request: a caller that sends a new one each time is never limited, nor is anybody under a limit that is no number.\<close>

lemma fresh_key_passes: "map_of b k = None \<Longrightarrow> 1 \<le> n \<Longrightarrow> fst (bucket_step (JInt n) k now b)" "fst (bucket_step JNaN k now b)"
  by (simp_all add: bucket_step_def Let_def)

end
