(* ===== verification/Audit_Trail.thy ===== *)
theory Audit_Trail
  imports Jcs Js_Date Base58 "HOL-Library.Multiset"
begin

text \<open>
  The audit-trail indexer: \<^verbatim>\<open>src/services/indexer/audit-trail.types.ts\<close> (the events and their schemas),
  \<^verbatim>\<open>audit-trail.ts\<close> (the in-memory event source and the feed builder).

  An event source is asked for a stream: the events it yields and, if it fails, the error after them. Numbers in events are
  unchecked until a schema has accepted them; then they are integers. Arrays are sorted with the comparison
  functions of the source by a stable sort, as the language prescribes. The signature suite and logging are left out.
\<close>

section \<open>Events\<close>

datatype KytStageWire = St_init | St_confirm | St_rate

datatype CounterpartyWire = Bap | Bpp

record PartyTraceWire =
  pt_party :: CounterpartyWire
  pt_authority :: string
  pt_cred_pointers :: "string list"

record KytTraceEvent =
  kt_stage :: KytStageWire
  kt_tx_signature :: string
  kt_slot :: jsnumber
  kt_timestamp :: jsnumber
  kt_bap :: PartyTraceWire
  kt_bpp :: PartyTraceWire

record RevocationRootUpdatedEvent =
  rv_oracle :: string
  rv_network :: string
  rv_root :: string
  rv_leaves :: jsnumber
  rv_slot :: jsnumber

definition base58String :: "string \<Rightarrow> bool" where
  "base58String s = (s \<noteq> [] \<and> list_all (\<lambda>c. c \<in> set BASE58_ALPHABET) s)"

text \<open>\<open>z.number().int().nonnegative().finite()\<close>.\<close>

definition slotNumber :: "jsnumber \<Rightarrow> bool" where
  "slotNumber n = (case n of JInt i \<Rightarrow> 0 \<le> i | _ \<Rightarrow> False)"

definition partyTraceWireSchema :: "PartyTraceWire \<Rightarrow> bool" where
  "partyTraceWireSchema p = (base58String (pt_authority p) \<and> list_all HEX64_LOWER (pt_cred_pointers p))"

definition kytTraceEventSchema :: "KytTraceEvent \<Rightarrow> bool" where
  "kytTraceEventSchema e = (base58String (kt_tx_signature e) \<and> slotNumber (kt_slot e) \<and> slotNumber (kt_timestamp e)
     \<and> partyTraceWireSchema (kt_bap e) \<and> partyTraceWireSchema (kt_bpp e)
     \<and> pt_party (kt_bap e) = Bap \<and> pt_party (kt_bpp e) = Bpp)"

definition revocationRootUpdatedEventSchema :: "RevocationRootUpdatedEvent \<Rightarrow> bool" where
  "revocationRootUpdatedEventSchema r = (base58String (rv_oracle r) \<and> rv_network r \<noteq> [] \<and> HEX64_LOWER (rv_root r)
     \<and> slotNumber (rv_leaves r) \<and> slotNumber (rv_slot r))"

text \<open>The integer of an accepted number.\<close>

definition int_of :: "jsnumber \<Rightarrow> int" where
  "int_of n = (case n of JInt i \<Rightarrow> i | _ \<Rightarrow> 0)"

datatype AuditTrailIndexerErrorCode = INVALID_KYT_EVENT | INVALID_REVOCATION_EVENT | INVALID_AUTHORITY | INVALID_BOUNDS

datatype audit_error = AuditTrailIndexerError AuditTrailIndexerErrorCode | AuditRangeError | AuditOther string

section \<open>Sorting\<close>

text \<open>\<open>Array.prototype.sort\<close> with a comparison function.\<close>

fun insert_cmp :: "('a \<Rightarrow> 'a \<Rightarrow> int) \<Rightarrow> 'a \<Rightarrow> 'a list \<Rightarrow> 'a list" where
  "insert_cmp cmp x [] = [x]"
| "insert_cmp cmp x (y # ys) = (if cmp x y \<le> 0 then x # y # ys else y # insert_cmp cmp x ys)"

definition js_sort :: "('a \<Rightarrow> 'a \<Rightarrow> int) \<Rightarrow> 'a list \<Rightarrow> 'a list" where
  "js_sort cmp xs = foldr (insert_cmp cmp) xs []"

definition compareTraces :: "KytTraceEvent \<Rightarrow> KytTraceEvent \<Rightarrow> int" where
  "compareTraces a b = (if int_of (kt_slot a) \<noteq> int_of (kt_slot b) then js_sub (int_of (kt_slot a)) (int_of (kt_slot b))
     else if kt_tx_signature a < kt_tx_signature b then -1
     else if kt_tx_signature a > kt_tx_signature b then 1
     else 0)"

definition compareRevocations :: "RevocationRootUpdatedEvent \<Rightarrow> RevocationRootUpdatedEvent \<Rightarrow> int" where
  "compareRevocations a b = (if int_of (rv_slot a) \<noteq> int_of (rv_slot b) then js_sub (int_of (rv_slot a)) (int_of (rv_slot b))
     else if rv_oracle a \<noteq> rv_oracle b then (if rv_oracle a < rv_oracle b then -1 else 1)
     else if rv_root a \<noteq> rv_root b then (if rv_root a < rv_root b then -1 else 1)
     else 0)"

section \<open>Event sources\<close>

record KytEventSourceQueryOpts =
  qo_sinceSlot :: "jsnumber option"
  qo_untilSlot :: "jsnumber option"

type_synonym 'e event_stream = "'e list \<times> audit_error option"

record KytEventSource =
  ks_tracesForAuthority :: "string \<Rightarrow> KytEventSourceQueryOpts \<Rightarrow> KytTraceEvent event_stream"
  ks_revocationsForCredentialIssuers :: "string list \<Rightarrow> KytEventSourceQueryOpts \<Rightarrow> RevocationRootUpdatedEvent event_stream"

definition withinBounds :: "jsnumber \<Rightarrow> KytEventSourceQueryOpts \<Rightarrow> bool" where
  "withinBounds slot opts = (
     if (case qo_sinceSlot opts of None \<Rightarrow> False | Some s \<Rightarrow> js_less slot s) then False
     else if (case qo_untilSlot opts of None \<Rightarrow> False | Some u \<Rightarrow> js_leq u slot) then False
     else True)"

record InMemoryKytEventSource =
  im_traces :: "KytTraceEvent list"
  im_revocations :: "RevocationRootUpdatedEvent list"

definition InMemoryKytEventSource_new :: "KytTraceEvent list \<Rightarrow> RevocationRootUpdatedEvent list option
    \<Rightarrow> (audit_error, InMemoryKytEventSource) result" where
  "InMemoryKytEventSource_new traces revocations = (
     if \<not> list_all kytTraceEventSchema traces then Inl (AuditTrailIndexerError INVALID_KYT_EVENT)
     else let ts = js_sort compareTraces traces; revs = (case revocations of None \<Rightarrow> [] | Some r \<Rightarrow> r)
     in if \<not> list_all revocationRootUpdatedEventSchema revs then Inl (AuditTrailIndexerError INVALID_REVOCATION_EVENT)
     else Inr \<lparr>im_traces = ts, im_revocations = js_sort compareRevocations revs\<rparr>)"

definition im_tracesForAuthority :: "InMemoryKytEventSource \<Rightarrow> string \<Rightarrow> KytEventSourceQueryOpts \<Rightarrow> KytTraceEvent event_stream" where
  "im_tracesForAuthority s authority opts = (if authority = [] then ([], Some (AuditTrailIndexerError INVALID_AUTHORITY))
     else (filter (\<lambda>t. withinBounds (kt_slot t) opts
             \<and> (pt_authority (kt_bap t) = authority \<or> pt_authority (kt_bpp t) = authority)) (im_traces s), None))"

definition im_revocationsForCredentialIssuers :: "InMemoryKytEventSource \<Rightarrow> string list \<Rightarrow> KytEventSourceQueryOpts
    \<Rightarrow> RevocationRootUpdatedEvent event_stream" where
  "im_revocationsForCredentialIssuers s issuers opts = (filter (\<lambda>r. withinBounds (rv_slot r) opts
     \<and> \<not> (set issuers \<noteq> {} \<and> rv_oracle r \<notin> set issuers)) (im_revocations s), None)"

definition in_memory_source :: "InMemoryKytEventSource \<Rightarrow> KytEventSource" where
  "in_memory_source s = \<lparr>ks_tracesForAuthority = im_tracesForAuthority s,
     ks_revocationsForCredentialIssuers = im_revocationsForCredentialIssuers s\<rparr>"

section \<open>The feed\<close>

record AuditFeedKytEvent =
  fk_stage :: KytStageWire
  fk_txSignature :: string
  fk_slot :: int
  fk_timestamp :: string
  fk_cp_party :: CounterpartyWire
  fk_cp_authority :: string
  fk_cp_credPointers :: "string list"
  fk_selfCredPointers :: "string list"

record AuditFeedRevocationEvent =
  fr_slot :: int
  fr_oracle :: string
  fr_network :: string
  fr_root :: string
  fr_leaves :: int

datatype AuditFeedEvent = KytEv AuditFeedKytEvent | RevEv AuditFeedRevocationEvent

record AuditFeedSummary =
  fs_kytCount :: nat
  fs_initCount :: nat
  fs_confirmCount :: nat
  fs_rateCount :: nat
  fs_revocationCount :: nat

text \<open>The bounds are the numbers given, or the words \<open>earliest\<close> and \<open>latest\<close>.\<close>

record AuditFeed =
  af_id :: string
  af_issuanceDate :: string
  af_subject_id :: string
  af_authority :: string
  af_sinceSlot :: "jsnumber option"
  af_untilSlot :: "jsnumber option"
  af_events :: "AuditFeedEvent list"
  af_summary :: AuditFeedSummary

record BuildAuditFeedOpts =
  bo_sinceSlot :: "jsnumber option"
  bo_untilSlot :: "jsnumber option"
  bo_issuerAllowlist :: "string list option"

definition assertAuthority :: "string \<Rightarrow> (audit_error, unit) result" where
  "assertAuthority authority = (if authority = [] \<or> \<not> base58String authority
     then Inl (AuditTrailIndexerError INVALID_AUTHORITY) else Inr ())"

definition assertBounds :: "BuildAuditFeedOpts \<Rightarrow> (audit_error, unit) result" where
  "assertBounds opts = (
     if (case bo_sinceSlot opts of None \<Rightarrow> False | Some s \<Rightarrow> \<not> isInteger s \<or> js_less s (JInt 0)) then Inl (AuditTrailIndexerError INVALID_BOUNDS)
     else if (case bo_untilSlot opts of None \<Rightarrow> False | Some u \<Rightarrow> \<not> isInteger u \<or> js_less u (JInt 0)) then Inl (AuditTrailIndexerError INVALID_BOUNDS)
     else if (case (bo_sinceSlot opts, bo_untilSlot opts) of (Some s, Some u) \<Rightarrow> js_less u s | _ \<Rightarrow> False) then Inl (AuditTrailIndexerError INVALID_BOUNDS)
     else Inr ())"

definition unixSecondsToIso :: "int \<Rightarrow> string option" where
  "unixSecondsToIso seconds = toISOString (js_mul seconds 1000)"

definition feedUrn :: "string \<Rightarrow> jsnumber option \<Rightarrow> jsnumber option \<Rightarrow> string" where
  "feedUrn authority sinceSlot untilSlot = ''urn:eto:audit:'' @ authority @ '':''
     @ number_toString (case sinceSlot of None \<Rightarrow> JInt 0 | Some s \<Rightarrow> s) @ '':''
     @ (case untilSlot of None \<Rightarrow> ''latest'' | Some u \<Rightarrow> number_toString u)"

text \<open>The counters of the first loop.\<close>

record kyt_state =
  ky_events :: "AuditFeedKytEvent list"
  ky_init :: nat
  ky_confirm :: nat
  ky_rate :: nat

definition count_stage :: "KytStageWire \<Rightarrow> kyt_state \<Rightarrow> kyt_state" where
  "count_stage stage st = (case stage of St_init \<Rightarrow> st\<lparr>ky_init := ky_init st + 1\<rparr>
     | St_confirm \<Rightarrow> st\<lparr>ky_confirm := ky_confirm st + 1\<rparr> | St_rate \<Rightarrow> st\<lparr>ky_rate := ky_rate st + 1\<rparr>)"

text \<open>\<open>findIndex\<close> takes the first party with the authority; the other one is the counterparty.\<close>

definition feed_event :: "string \<Rightarrow> KytTraceEvent \<Rightarrow> string \<Rightarrow> AuditFeedKytEvent" where
  "feed_event authority ev ts = (let self_is_bap = (pt_authority (kt_bap ev) = authority);
       self = (if self_is_bap then kt_bap ev else kt_bpp ev); other = (if self_is_bap then kt_bpp ev else kt_bap ev)
     in \<lparr>fk_stage = kt_stage ev, fk_txSignature = kt_tx_signature ev, fk_slot = int_of (kt_slot ev), fk_timestamp = ts,
         fk_cp_party = pt_party other, fk_cp_authority = pt_authority other, fk_cp_credPointers = pt_cred_pointers other,
         fk_selfCredPointers = pt_cred_pointers self\<rparr>)"

fun kyt_loop :: "string \<Rightarrow> KytTraceEvent list \<Rightarrow> audit_error option \<Rightarrow> kyt_state \<Rightarrow> (audit_error, kyt_state) result" where
  "kyt_loop authority [] ended st = (case ended of None \<Rightarrow> Inr st | Some e \<Rightarrow> Inl e)"
| "kyt_loop authority (ev # evs) ended st = (
     if \<not> kytTraceEventSchema ev then Inl (AuditTrailIndexerError INVALID_KYT_EVENT)
     else if pt_authority (kt_bap ev) \<noteq> authority \<and> pt_authority (kt_bpp ev) \<noteq> authority then kyt_loop authority evs ended st
     else let st1 = count_stage (kt_stage ev) st
     in case unixSecondsToIso (int_of (kt_timestamp ev)) of None \<Rightarrow> Inl AuditRangeError
        | Some ts \<Rightarrow> kyt_loop authority evs ended (st1\<lparr>ky_events := ky_events st1 @ [feed_event authority ev ts]\<rparr>))"

definition feed_revocation :: "RevocationRootUpdatedEvent \<Rightarrow> AuditFeedRevocationEvent" where
  "feed_revocation r = \<lparr>fr_slot = int_of (rv_slot r), fr_oracle = rv_oracle r, fr_network = rv_network r, fr_root = rv_root r,
     fr_leaves = int_of (rv_leaves r)\<rparr>"

fun rev_loop :: "string list option \<Rightarrow> RevocationRootUpdatedEvent list \<Rightarrow> audit_error option \<Rightarrow> AuditFeedRevocationEvent list
    \<Rightarrow> (audit_error, AuditFeedRevocationEvent list) result" where
  "rev_loop issuerSet [] ended acc = (case ended of None \<Rightarrow> Inr acc | Some e \<Rightarrow> Inl e)"
| "rev_loop issuerSet (r # rs) ended acc = (
     if \<not> revocationRootUpdatedEventSchema r then Inl (AuditTrailIndexerError INVALID_REVOCATION_EVENT)
     else if (case issuerSet of None \<Rightarrow> False | Some is \<Rightarrow> rv_oracle r \<notin> set is) then rev_loop issuerSet rs ended acc
     else rev_loop issuerSet rs ended (acc @ [feed_revocation r]))"

fun event_slot :: "AuditFeedEvent \<Rightarrow> int" where
  "event_slot (KytEv e) = fk_slot e"
| "event_slot (RevEv r) = fr_slot r"

fun event_sig :: "AuditFeedEvent \<Rightarrow> string" where
  "event_sig (KytEv e) = fk_txSignature e"
| "event_sig (RevEv r) = ''~rev:'' @ fr_oracle r @ '':'' @ fr_root r"

definition compareEvents :: "AuditFeedEvent \<Rightarrow> AuditFeedEvent \<Rightarrow> int" where
  "compareEvents a b = (if event_slot a \<noteq> event_slot b then js_sub (event_slot a) (event_slot b)
     else if event_sig a < event_sig b then -1
     else if event_sig a > event_sig b then 1
     else 0)"

definition buildAuditFeed :: "KytEventSource \<Rightarrow> int \<Rightarrow> string \<Rightarrow> BuildAuditFeedOpts \<Rightarrow> (audit_error, AuditFeed) result" where
  "buildAuditFeed source clock authority opts =
     bind_result (assertAuthority authority) (\<lambda>_.
     bind_result (assertBounds opts) (\<lambda>_.
     let sourceOpts = \<lparr>qo_sinceSlot = bo_sinceSlot opts, qo_untilSlot = bo_untilSlot opts\<rparr>;
         (traces, ended) = ks_tracesForAuthority source authority sourceOpts
     in bind_result (kyt_loop authority traces ended \<lparr>ky_events = [], ky_init = 0, ky_confirm = 0, ky_rate = 0\<rparr>) (\<lambda>st.
     bind_result (if bo_issuerAllowlist opts = Some [] then Inr []
        else let (revs, rended) = ks_revocationsForCredentialIssuers source
                   (case bo_issuerAllowlist opts of None \<Rightarrow> [] | Some is \<Rightarrow> is) sourceOpts
             in rev_loop (bo_issuerAllowlist opts) revs rended []) (\<lambda>revEvents.
     case toISOString clock of None \<Rightarrow> Inl AuditRangeError
     | Some issued \<Rightarrow> Inr \<lparr>af_id = feedUrn authority (bo_sinceSlot opts) (bo_untilSlot opts), af_issuanceDate = issued,
         af_subject_id = ''did:eto:agent:'' @ authority, af_authority = authority,
         af_sinceSlot = bo_sinceSlot opts, af_untilSlot = bo_untilSlot opts,
         af_events = js_sort compareEvents (map KytEv (ky_events st) @ map RevEv revEvents),
         af_summary = \<lparr>fs_kytCount = length (ky_events st), fs_initCount = ky_init st, fs_confirmCount = ky_confirm st,
           fs_rateCount = ky_rate st, fs_revocationCount = length revEvents\<rparr>\<rparr>))))"

section \<open>Specification\<close>

text \<open>The orders of the source, as keys.\<close>

definition trace_key :: "KytTraceEvent \<Rightarrow> int \<times> string" where
  "trace_key t = (int_of (kt_slot t), kt_tx_signature t)"

definition revocation_key :: "RevocationRootUpdatedEvent \<Rightarrow> int \<times> string \<times> string" where
  "revocation_key r = (int_of (rv_slot r), rv_oracle r, rv_root r)"

definition event_key :: "AuditFeedEvent \<Rightarrow> int \<times> string" where
  "event_key e = (event_slot e, event_sig e)"

definition involves :: "string \<Rightarrow> KytTraceEvent \<Rightarrow> bool" where
  "involves a t \<longleftrightarrow> pt_authority (kt_bap t) = a \<or> pt_authority (kt_bpp t) = a"

definition query_of :: "BuildAuditFeedOpts \<Rightarrow> KytEventSourceQueryOpts" where
  "query_of opts = \<lparr>qo_sinceSlot = bo_sinceSlot opts, qo_untilSlot = bo_untilSlot opts\<rparr>"

definition allowed :: "string list option \<Rightarrow> RevocationRootUpdatedEvent \<Rightarrow> bool" where
  "allowed issuers r \<longleftrightarrow> (case issuers of None \<Rightarrow> True | Some is \<Rightarrow> rv_oracle r \<in> set is)"

text \<open>The line of the feed for a trace; its timestamp is printable when the feed is built.\<close>

definition feed_of :: "string \<Rightarrow> KytTraceEvent \<Rightarrow> AuditFeedKytEvent" where
  "feed_of a t = feed_event a t (the (unixSecondsToIso (int_of (kt_timestamp t))))"

text \<open>What a feed should say, for the stored events in any order.\<close>

definition feed_lines :: "string \<Rightarrow> BuildAuditFeedOpts \<Rightarrow> KytTraceEvent list \<Rightarrow> RevocationRootUpdatedEvent list \<Rightarrow> AuditFeedEvent list" where
  "feed_lines a opts traces revs =
     map (KytEv \<circ> feed_of a) (filter (\<lambda>t. involves a t \<and> withinBounds (kt_slot t) (query_of opts)) traces)
     @ map (RevEv \<circ> feed_revocation) (filter (\<lambda>r. allowed (bo_issuerAllowlist opts) r \<and> withinBounds (rv_slot r) (query_of opts)) revs)"

definition stage_count :: "KytStageWire \<Rightarrow> AuditFeedEvent list \<Rightarrow> nat" where
  "stage_count st es = length (filter (\<lambda>e. case e of KytEv k \<Rightarrow> fk_stage k = st | RevEv r \<Rightarrow> False) es)"

fun is_kyt :: "AuditFeedEvent \<Rightarrow> bool" where
  "is_kyt (KytEv k) = True"
| "is_kyt (RevEv r) = False"

definition summary_of :: "AuditFeedEvent list \<Rightarrow> AuditFeedSummary" where
  "summary_of es = \<lparr>fs_kytCount = length (filter is_kyt es), fs_initCount = stage_count St_init es,
     fs_confirmCount = stage_count St_confirm es, fs_rateCount = stage_count St_rate es,
     fs_revocationCount = length (filter (\<lambda>e. \<not> is_kyt e) es)\<rparr>"

text \<open>The builder before its first trace, and its last step.\<close>

definition no_traces :: kyt_state where
  "no_traces = \<lparr>ky_events = [], ky_init = 0, ky_confirm = 0, ky_rate = 0\<rparr>"

definition issue_feed :: "int \<Rightarrow> string \<Rightarrow> BuildAuditFeedOpts \<Rightarrow> kyt_state \<Rightarrow> AuditFeedRevocationEvent list \<Rightarrow> (audit_error, AuditFeed) result" where
  "issue_feed clock a opts st revEvents = (case toISOString clock of None \<Rightarrow> Inl AuditRangeError
     | Some issued \<Rightarrow> Inr \<lparr>af_id = feedUrn a (bo_sinceSlot opts) (bo_untilSlot opts), af_issuanceDate = issued,
         af_subject_id = ''did:eto:agent:'' @ a, af_authority = a,
         af_sinceSlot = bo_sinceSlot opts, af_untilSlot = bo_untilSlot opts,
         af_events = js_sort compareEvents (map KytEv (ky_events st) @ map RevEv revEvents),
         af_summary = \<lparr>fs_kytCount = length (ky_events st), fs_initCount = ky_init st, fs_confirmCount = ky_confirm st,
           fs_rateCount = ky_rate st, fs_revocationCount = length revEvents\<rparr>\<rparr>)"

definition feed_header :: "AuditFeed \<Rightarrow> string \<times> string option \<times> string \<times> string \<times> jsnumber option \<times> jsnumber option" where
  "feed_header f = (af_id f, Some (af_issuanceDate f), af_subject_id f, af_authority f, af_sinceSlot f, af_untilSlot f)"

text \<open>A store of two traces and a revocation, for the witnesses.\<close>

definition demo_party :: "CounterpartyWire \<Rightarrow> string \<Rightarrow> PartyTraceWire" where
  "demo_party p a = \<lparr>pt_party = p, pt_authority = a, pt_cred_pointers = []\<rparr>"

definition demo_trace :: "KytStageWire \<Rightarrow> string \<Rightarrow> int \<Rightarrow> KytTraceEvent" where
  "demo_trace st sig slot = \<lparr>kt_stage = st, kt_tx_signature = sig, kt_slot = JInt slot, kt_timestamp = JInt 0,
     kt_bap = demo_party Bap ''A'', kt_bpp = demo_party Bpp ''B''\<rparr>"

definition demo_revocation :: RevocationRootUpdatedEvent where
  "demo_revocation = \<lparr>rv_oracle = ''R'', rv_network = ''dev'', rv_root = replicate 64 (CHR ''0''), rv_leaves = JInt 3, rv_slot = JInt 7\<rparr>"

definition demo_opts :: BuildAuditFeedOpts where
  "demo_opts = \<lparr>bo_sinceSlot = Some (JInt 5), bo_untilSlot = None, bo_issuerAllowlist = None\<rparr>"

section \<open>Lemmas\<close>

lemma insert_cmp_key:
  "(\<And>y. y \<in> set ys \<Longrightarrow> cmp x y \<le> 0 \<longleftrightarrow> f x \<le> f y) \<Longrightarrow> insert_cmp cmp x ys = insort_key f x ys"
  by (induction ys) auto

lemma js_sort_key:
  assumes "\<And>x y. x \<in> set xs \<Longrightarrow> y \<in> set xs \<Longrightarrow> cmp x y \<le> 0 \<longleftrightarrow> f x \<le> f y"
  shows "js_sort cmp xs = sort_key f xs"
proof -
  have "foldr (insert_cmp cmp) zs [] = sort_key f zs" if "set zs \<subseteq> set xs" for zs
    using that
  proof (induction zs)
    case (Cons z zs)
    then have "insert_cmp cmp z (sort_key f zs) = insort_key f z (sort_key f zs)"
      using assms by (intro insert_cmp_key) auto
    with Cons show ?case by simp
  qed simp
  then show ?thesis by (simp add: js_sort_def)
qed

lemma string_cases: "(if (a :: string) < b then (-1::int) else if a > b then 1 else 0) \<le> 0 \<longleftrightarrow> a \<le> b"
  by (cases a b rule: linorder_cases) auto

lemma compareTraces_key: "compareTraces a b \<le> 0 \<longleftrightarrow> trace_key a \<le> trace_key b"
  using string_cases [of "kt_tx_signature a" "kt_tx_signature b"]
  by (auto simp: compareTraces_def trace_key_def js_sub_sign less_eq_prod_def)

lemma compareRevocations_key: "compareRevocations a b \<le> 0 \<longleftrightarrow> revocation_key a \<le> revocation_key b"
  by (auto simp: compareRevocations_def revocation_key_def js_sub_sign less_eq_prod_def)

lemma compareEvents_key: "compareEvents a b \<le> 0 \<longleftrightarrow> event_key a \<le> event_key b"
  using string_cases [of "event_sig a" "event_sig b"]
  by (auto simp: compareEvents_def event_key_def js_sub_sign less_eq_prod_def)

lemmas sort_traces = js_sort_key [OF compareTraces_key]
lemmas sort_revocations = js_sort_key [OF compareRevocations_key]
lemmas sort_events = js_sort_key [OF compareEvents_key]

text \<open>With distinct keys there is one sorted order.\<close>

lemma distinct_mset_eq: "mset xs = mset ys \<Longrightarrow> distinct xs \<longleftrightarrow> distinct ys"
  by (metis distinct_count_atmost_1 mset_eq_setD)

lemma distinct_map_mset_eq: "mset xs = mset ys \<Longrightarrow> distinct (map f xs) \<longleftrightarrow> distinct (map f ys)"
  by (rule distinct_mset_eq) simp

lemma sort_key_unique:
  fixes f :: "'a \<Rightarrow> 'b :: linorder"
  assumes "mset xs = mset ys" "distinct (map f xs)"
  shows "sort_key f xs = sort_key f ys"
proof (rule map_sorted_distinct_set_unique)
  have s: "set ys = set xs" using assms(1) by (metis mset_eq_setD)
  show "inj_on f (set (sort_key f xs) \<union> set (sort_key f ys))" using assms(2) by (simp add: s distinct_map)
  show "distinct (map f (sort_key f xs))" "distinct (map f (sort_key f ys))"
    using assms distinct_map_mset_eq [of "sort_key f xs" xs f] distinct_map_mset_eq [of "sort_key f ys" xs f] by simp_all
  show "set (sort_key f xs) = set (sort_key f ys)" using s by simp
qed simp_all

text \<open>The two loops.\<close>

lemma kyt_loop_ok:
  assumes "kyt_loop a evs ended st = Inr st'"
  shows "ended = None" "list_all kytTraceEventSchema evs"
    and "\<forall>t\<in>set evs. involves a t \<longrightarrow> unixSecondsToIso (int_of (kt_timestamp t)) \<noteq> None"
    and "ky_events st' = ky_events st @ map (feed_of a) (filter (involves a) evs)"
    and "ky_init st' = ky_init st + length (filter (\<lambda>t. involves a t \<and> kt_stage t = St_init) evs)"
    and "ky_confirm st' = ky_confirm st + length (filter (\<lambda>t. involves a t \<and> kt_stage t = St_confirm) evs)"
    and "ky_rate st' = ky_rate st + length (filter (\<lambda>t. involves a t \<and> kt_stage t = St_rate) evs)"
  using assms
  by (induction evs arbitrary: st)
    (auto simp: involves_def feed_of_def count_stage_def Let_def split: option.splits if_splits KytStageWire.splits)

lemma kyt_loop_total:
  assumes "list_all kytTraceEventSchema evs"
    and "\<forall>t\<in>set evs. involves a t \<longrightarrow> unixSecondsToIso (int_of (kt_timestamp t)) \<noteq> None"
  shows "\<exists>st'. kyt_loop a evs None st = Inr st'"
  using assms by (induction evs arbitrary: st) (auto simp: involves_def Let_def)

lemma kyt_loop_fails:
  assumes "list_all kytTraceEventSchema evs" "kyt_loop a evs None st = Inl e"
  shows "e = AuditRangeError"
  using assms by (induction evs arbitrary: st) (auto simp: Let_def split: option.splits if_splits)

lemma rev_loop_ok:
  "list_all revocationRootUpdatedEventSchema rs
   \<Longrightarrow> rev_loop issuers rs None acc = Inr (acc @ map feed_revocation (filter (allowed issuers) rs))"
  by (induction rs arbitrary: acc) (auto simp: allowed_def split: option.splits)

lemma assertAuthority_ok [guards]: "assertAuthority a = Inr x \<longleftrightarrow> base58String a"
  by (auto simp: assertAuthority_def base58String_def)

lemma assertAuthority_fails [guards]: "assertAuthority a = Inl e \<longleftrightarrow> \<not> base58String a \<and> e = AuditTrailIndexerError INVALID_AUTHORITY"
  by (auto simp: assertAuthority_def base58String_def)

lemma assertBounds_fails: "assertBounds opts = Inl e \<Longrightarrow> e = AuditTrailIndexerError INVALID_BOUNDS"
  by (auto simp: assertBounds_def split: if_splits)

lemma allowed_some_nil [simp]: "allowed (Some []) r \<longleftrightarrow> False"
  by (simp add: allowed_def)

lemma stage_count_append [simp]: "stage_count st (xs @ ys) = stage_count st xs + stage_count st ys"
  by (simp add: stage_count_def)

lemma stage_count_rev [simp]: "stage_count st (map RevEv rs) = 0"
  by (induction rs) (simp_all add: stage_count_def)

lemma stage_count_kyt: "stage_count st (map KytEv (map (feed_of a) ts)) = length (filter (\<lambda>t. kt_stage t = st) ts)"
  by (induction ts) (simp_all add: stage_count_def feed_of_def feed_event_def Let_def)

lemma stage_count_mset: "mset xs = mset ys \<Longrightarrow> stage_count st xs = stage_count st ys"
  unfolding stage_count_def by (metis mset_filter size_mset)

lemma is_kyt_map [simp]:
  "filter is_kyt (map KytEv ks) = map KytEv ks" "filter is_kyt (map RevEv rs) = []"
  "filter (\<lambda>e. \<not> is_kyt e) (map KytEv ks) = []" "filter (\<lambda>e. \<not> is_kyt e) (map RevEv rs) = map RevEv rs"
  by (induction ks; induction rs; simp)+

lemma summary_of_lines:
  "summary_of (map KytEv (map (feed_of a) ts) @ map RevEv rs) = \<lparr>fs_kytCount = length ts,
     fs_initCount = length (filter (\<lambda>t. kt_stage t = St_init) ts), fs_confirmCount = length (filter (\<lambda>t. kt_stage t = St_confirm) ts),
     fs_rateCount = length (filter (\<lambda>t. kt_stage t = St_rate) ts), fs_revocationCount = length rs\<rparr>"
  by (simp add: summary_of_def stage_count_kyt del: map_map)

lemma summary_of_mset: "mset xs = mset ys \<Longrightarrow> summary_of xs = summary_of ys"
  unfolding summary_of_def using stage_count_mset by (metis mset_filter size_mset)

lemma stage_counts_sum: "stage_count St_init es + stage_count St_confirm es + stage_count St_rate es = length (filter is_kyt es)"
proof (induction es)
  case (Cons e es)
  then show ?case
  proof (cases e)
    case (KytEv k)
    with Cons show ?thesis by (cases "fk_stage k") (auto simp: stage_count_def)
  qed (auto simp: stage_count_def)
qed (simp add: stage_count_def)

lemma buildAuditFeed_refused:
  "\<not> base58String a \<Longrightarrow> buildAuditFeed source clock a opts = Inl (AuditTrailIndexerError INVALID_AUTHORITY)"
  "base58String a \<Longrightarrow> assertBounds opts \<noteq> Inr () \<Longrightarrow> buildAuditFeed source clock a opts = Inl (AuditTrailIndexerError INVALID_BOUNDS)"
  subgoal using assertAuthority_fails [of a "AuditTrailIndexerError INVALID_AUTHORITY"] unfolding buildAuditFeed_def by simp
  subgoal using assertAuthority_ok [of a "()"] assertBounds_fails [of opts] by (cases "assertBounds opts") (simp_all add: buildAuditFeed_def)
  done

lemma feed_lines_mset:
  assumes "mset ts = mset ts'" "mset rs = mset rs'"
  shows "mset (feed_lines a opts ts rs) = mset (feed_lines a opts ts' rs')"
  using assms by (simp add: feed_lines_def mset_filter)

text \<open>A base58 signature is not the tag of a revocation.\<close>

lemma base58_not_tag: "base58String s \<Longrightarrow> s \<noteq> ''~rev:'' @ t"
  by (auto simp: base58String_def BASE58_ALPHABET_def)

text \<open>An oracle and a root are read off the tag, the oracle being base58.\<close>

lemma rev_tag_inject:
  assumes "base58String o1" "base58String o2" "o1 @ '':'' @ r1 = o2 @ '':'' @ r2"
  shows "o1 = o2 \<and> r1 = r2"
proof -
  have c: "CHR '':'' \<notin> set BASE58_ALPHABET" by (simp add: BASE58_ALPHABET_def)
  then have n: "CHR '':'' \<notin> set o1" "CHR '':'' \<notin> set o2" using assms(1,2) by (auto simp: base58String_def list_all_iff)
  have "takeWhile (\<lambda>x. x \<noteq> CHR '':'') (o1 @ '':'' @ r1) = takeWhile (\<lambda>x. x \<noteq> CHR '':'') (o2 @ '':'' @ r2)"
    using assms(3) by simp
  moreover have "takeWhile (\<lambda>x. x \<noteq> CHR '':'') (w @ '':'' @ r) = w" if "CHR '':'' \<notin> set w" for w r
    using that by (subst takeWhile_append2) auto
  ultimately have "o1 = o2" using n by metis
  with assms(3) show ?thesis by simp
qed

lemma feed_lines_keys_distinct:
  assumes "list_all kytTraceEventSchema ts" "list_all revocationRootUpdatedEventSchema rs"
    and "distinct (map trace_key ts)" "distinct (map revocation_key rs)"
  shows "distinct (map event_key (feed_lines a opts ts rs))"
proof -
  let ?T = "filter (\<lambda>t. involves a t \<and> withinBounds (kt_slot t) (query_of opts)) ts"
  let ?R = "filter (\<lambda>r. allowed (bo_issuerAllowlist opts) r \<and> withinBounds (rv_slot r) (query_of opts)) rs"
  have kT: "event_key (KytEv (feed_of a t)) = trace_key t" for t
    by (simp add: event_key_def trace_key_def feed_of_def feed_event_def Let_def)
  have kR: "event_key (RevEv (feed_revocation r)) = (int_of (rv_slot r), ''~rev:'' @ rv_oracle r @ '':'' @ rv_root r)" for r
    by (simp add: event_key_def feed_revocation_def)
  have "distinct (map trace_key ?T)" using assms(3) by (rule distinct_map_filter)
  moreover have "distinct (map (event_key \<circ> (RevEv \<circ> feed_revocation)) ?R)"
    unfolding distinct_map
  proof
    show "distinct ?R" using assms(4) by (simp add: distinct_map)
    show "inj_on (event_key \<circ> (RevEv \<circ> feed_revocation)) (set ?R)"
    proof (rule inj_onI)
      fix x y assume xy: "x \<in> set ?R" "y \<in> set ?R"
        and e: "(event_key \<circ> (RevEv \<circ> feed_revocation)) x = (event_key \<circ> (RevEv \<circ> feed_revocation)) y"
      have "base58String (rv_oracle x)" "base58String (rv_oracle y)"
        using xy assms(2) by (auto simp: list_all_iff revocationRootUpdatedEventSchema_def)
      then have "revocation_key x = revocation_key y"
        using e rev_tag_inject [of "rv_oracle x" "rv_oracle y" "rv_root x" "rv_root y"] by (simp add: kR revocation_key_def)
      then show "x = y" using xy assms(4) by (auto simp: distinct_map dest: inj_onD)
    qed
  qed
  moreover have "trace_key ` set ?T \<inter> (event_key \<circ> (RevEv \<circ> feed_revocation)) ` set ?R = {}"
    using assms(1) base58_not_tag by (auto simp: kR trace_key_def list_all_iff kytTraceEventSchema_def)
  ultimately show ?thesis unfolding feed_lines_def map_append map_map distinct_append set_map by (simp add: kT comp_def)
qed

section \<open>The contract of an event source\<close>

text \<open>
  A source answers for a store of well-formed events. Whatever the order in which it yields them, the traces it gives
  are those of the store that involve the authority and lie within the bounds, and the revocations those of the given
  issuers (of every issuer, when none is given). The feed builder relies on this and nothing else.
\<close>

locale kyt_event_source =
  fixes source :: "'s \<Rightarrow> KytEventSource"
    and valid :: "'s \<Rightarrow> bool"
    and traces :: "'s \<Rightarrow> KytTraceEvent list"
    and revocations :: "'s \<Rightarrow> RevocationRootUpdatedEvent list"
  assumes traces_ok: "valid s \<Longrightarrow> list_all kytTraceEventSchema (traces s)"
    and revocations_ok: "valid s \<Longrightarrow> list_all revocationRootUpdatedEventSchema (revocations s)"
    and traces_yield: "valid s \<Longrightarrow> a \<noteq> [] \<Longrightarrow> \<exists>ts. ks_tracesForAuthority (source s) a q = (ts, None)
          \<and> mset ts = mset (filter (\<lambda>t. involves a t \<and> withinBounds (kt_slot t) q) (traces s))"
    and revocations_yield: "valid s \<Longrightarrow> \<exists>rs. ks_revocationsForCredentialIssuers (source s) issuers q = (rs, None)
          \<and> mset rs = mset (filter (\<lambda>r. (issuers = [] \<or> rv_oracle r \<in> set issuers) \<and> withinBounds (rv_slot r) q) (revocations s))"
begin

definition relevant :: "'s \<Rightarrow> string \<Rightarrow> BuildAuditFeedOpts \<Rightarrow> KytTraceEvent list" where
  "relevant s a opts = filter (\<lambda>t. involves a t \<and> withinBounds (kt_slot t) (query_of opts)) (traces s)"

definition printable :: "'s \<Rightarrow> string \<Rightarrow> BuildAuditFeedOpts \<Rightarrow> bool" where
  "printable s a opts \<longleftrightarrow> (\<forall>t\<in>set (relevant s a opts). unixSecondsToIso (int_of (kt_timestamp t)) \<noteq> None)"

lemma trace_phase:
  assumes "valid s" "a \<noteq> []"
  obtains ts where "ks_tracesForAuthority (source s) a (query_of opts) = (ts, None)" "mset ts = mset (relevant s a opts)"
    "list_all kytTraceEventSchema ts" "filter (involves a) ts = ts"
proof -
  from traces_yield [OF assms] obtain ts where
    ts: "ks_tracesForAuthority (source s) a (query_of opts) = (ts, None)" "mset ts = mset (relevant s a opts)"
    by (auto simp: relevant_def)
  from ts(2) have "set ts = set (relevant s a opts)" by (rule mset_eq_setD)
  with traces_ok [OF assms(1)] have "list_all kytTraceEventSchema ts" "filter (involves a) ts = ts"
    by (auto simp: relevant_def list_all_iff filter_id_conv)
  with ts show ?thesis by (rule that)
qed

lemma revocation_phase:
  assumes "valid s"
  obtains rs where "mset rs = mset (filter (\<lambda>r. allowed (bo_issuerAllowlist opts) r \<and> withinBounds (rv_slot r) (query_of opts)) (revocations s))"
    "(if bo_issuerAllowlist opts = Some [] then Inr []
      else case ks_revocationsForCredentialIssuers (source s) (case bo_issuerAllowlist opts of None \<Rightarrow> [] | Some i \<Rightarrow> i) (query_of opts)
           of (revs, rended) \<Rightarrow> rev_loop (bo_issuerAllowlist opts) revs rended []) = Inr (map feed_revocation rs)"
proof (cases "bo_issuerAllowlist opts = Some []")
  case True
  then show ?thesis by (intro that [of "[]"]) simp_all
next
  case False
  let ?is = "case bo_issuerAllowlist opts of None \<Rightarrow> [] | Some i \<Rightarrow> i"
  let ?keep = "\<lambda>r. (?is = [] \<or> rv_oracle r \<in> set ?is) \<and> withinBounds (rv_slot r) (query_of opts)"
  from revocations_yield [OF assms] obtain rs where
    rs: "ks_revocationsForCredentialIssuers (source s) ?is (query_of opts) = (rs, None)"
      "mset rs = mset (filter ?keep (revocations s))" by blast
  have keep: "?keep = (\<lambda>r. allowed (bo_issuerAllowlist opts) r \<and> withinBounds (rv_slot r) (query_of opts))"
    using False by (auto simp: allowed_def fun_eq_iff split: option.splits)
  from rs(2) have m: "set rs = set (filter (\<lambda>r. allowed (bo_issuerAllowlist opts) r \<and> withinBounds (rv_slot r) (query_of opts)) (revocations s))"
    unfolding keep by (rule mset_eq_setD)
  with revocations_ok [OF assms] have "list_all revocationRootUpdatedEventSchema rs" by (auto simp: list_all_iff)
  moreover from m have "filter (allowed (bo_issuerAllowlist opts)) rs = rs" by (auto simp: filter_id_conv)
  ultimately show ?thesis using rs False unfolding keep by (intro that [of rs]) (simp_all add: rev_loop_ok)
qed

text \<open>The feed of two enumerations, once the guards are passed.\<close>

lemma build_phases:
  assumes "valid s" "base58String a" "assertBounds opts = Inr ()"
  obtains ts rs where
    "list_all kytTraceEventSchema ts" "mset ts = mset (relevant s a opts)" "filter (involves a) ts = ts"
    "mset rs = mset (filter (\<lambda>r. allowed (bo_issuerAllowlist opts) r \<and> withinBounds (rv_slot r) (query_of opts)) (revocations s))"
    "buildAuditFeed (source s) clock a opts = bind_result (kyt_loop a ts None no_traces) (\<lambda>st. issue_feed clock a opts st (map feed_revocation rs))"
proof -
  have a: "a \<noteq> []" "assertAuthority a = Inr ()" using assms(2) by (auto simp: base58String_def guards)
  obtain ts where ts: "ks_tracesForAuthority (source s) a (query_of opts) = (ts, None)" "mset ts = mset (relevant s a opts)"
    "list_all kytTraceEventSchema ts" "filter (involves a) ts = ts" by (rule trace_phase [OF assms(1) a(1)])
  obtain rs where rs: "mset rs = mset (filter (\<lambda>r. allowed (bo_issuerAllowlist opts) r \<and> withinBounds (rv_slot r) (query_of opts)) (revocations s))"
    "(if bo_issuerAllowlist opts = Some [] then Inr []
      else case ks_revocationsForCredentialIssuers (source s) (case bo_issuerAllowlist opts of None \<Rightarrow> [] | Some i \<Rightarrow> i) (query_of opts)
           of (revs, rended) \<Rightarrow> rev_loop (bo_issuerAllowlist opts) revs rended []) = Inr (map feed_revocation rs)"
    by (rule revocation_phase [OF assms(1)])
  have "buildAuditFeed (source s) clock a opts = bind_result (kyt_loop a ts None no_traces) (\<lambda>st. issue_feed clock a opts st (map feed_revocation rs))"
    unfolding buildAuditFeed_def a(2) assms(3) bind_result_simps Let_def query_of_def [symmetric] ts(1) prod.case rs(2)
      no_traces_def [symmetric] issue_feed_def ..
  with ts(2-4) rs(1) show ?thesis by (intro that)
qed

text \<open>When a feed is built.\<close>

lemma feed_built_iff:
  assumes "valid s"
  shows "is_ok (buildAuditFeed (source s) clock a opts)
    \<longleftrightarrow> base58String a \<and> assertBounds opts = Inr () \<and> printable s a opts \<and> toISOString clock \<noteq> None"
proof (cases "base58String a \<and> assertBounds opts = Inr ()")
  case False
  then show ?thesis by (cases "base58String a") (auto simp: buildAuditFeed_refused)
next
  case True
  then obtain ts rs where ts: "list_all kytTraceEventSchema ts" "mset ts = mset (relevant s a opts)" "filter (involves a) ts = ts"
    and b: "buildAuditFeed (source s) clock a opts = bind_result (kyt_loop a ts None no_traces) (\<lambda>st. issue_feed clock a opts st (map feed_revocation rs))"
    using build_phases [OF assms, of a opts clock] by blast
  have "set ts = set (relevant s a opts)" using ts(2) by (rule mset_eq_setD)
  then have "printable s a opts \<longleftrightarrow> (\<forall>t\<in>set ts. involves a t \<longrightarrow> unixSecondsToIso (int_of (kt_timestamp t)) \<noteq> None)"
    by (auto simp: printable_def relevant_def)
  also have "\<dots> \<longleftrightarrow> is_ok (kyt_loop a ts None no_traces)"
    using kyt_loop_ok(3) [of a ts None no_traces] kyt_loop_total [OF ts(1), of a no_traces]
    by (metis is_ok_iff)
  finally have "printable s a opts \<longleftrightarrow> is_ok (kyt_loop a ts None no_traces)" .
  with True b show ?thesis by (cases "kyt_loop a ts None no_traces") (auto simp: issue_feed_def split: option.splits)
qed

lemma feed_error:
  assumes "valid s" "buildAuditFeed (source s) clock a opts = Inl e" "base58String a" "assertBounds opts = Inr ()"
  shows "e = AuditRangeError"
proof -
  obtain ts rs where ts: "list_all kytTraceEventSchema ts"
    and b: "buildAuditFeed (source s) clock a opts = bind_result (kyt_loop a ts None no_traces) (\<lambda>st. issue_feed clock a opts st (map feed_revocation rs))"
    using build_phases [OF assms(1,3,4), of clock] by blast
  show ?thesis
    using assms(2) b kyt_loop_fails [OF ts, of a no_traces]
    by (cases "kyt_loop a ts None no_traces") (auto simp: issue_feed_def split: option.splits)
qed

text \<open>What a feed holds: the lines prescribed, in order, and the counts of its summary.\<close>

lemma feed_contents:
  assumes "valid s" "buildAuditFeed (source s) clock a opts = Inr feed"
  shows "mset (af_events feed) = mset (feed_lines a opts (traces s) (revocations s))"
    and "sorted (map event_key (af_events feed))"
    and "af_summary feed = summary_of (af_events feed)"
    and "feed_header feed = (feedUrn a (bo_sinceSlot opts) (bo_untilSlot opts), toISOString clock, ''did:eto:agent:'' @ a, a,
          bo_sinceSlot opts, bo_untilSlot opts)"
proof -
  have g: "base58String a" "assertBounds opts = Inr ()" using feed_built_iff [OF assms(1), of clock a opts] assms(2) by simp_all
  obtain ts rs where ts: "mset ts = mset (relevant s a opts)" "filter (involves a) ts = ts"
    and rs: "mset rs = mset (filter (\<lambda>r. allowed (bo_issuerAllowlist opts) r \<and> withinBounds (rv_slot r) (query_of opts)) (revocations s))"
    and b: "buildAuditFeed (source s) clock a opts = bind_result (kyt_loop a ts None no_traces) (\<lambda>st. issue_feed clock a opts st (map feed_revocation rs))"
    using build_phases [OF assms(1) g, of clock] by blast
  from b assms(2) obtain st where st: "kyt_loop a ts None no_traces = Inr st"
    and f: "issue_feed clock a opts st (map feed_revocation rs) = Inr feed"
    by (cases "kyt_loop a ts None no_traces") auto
  note loop = kyt_loop_ok [OF st]
  have ev: "ky_events st = map (feed_of a) ts" using loop(4) ts(2) by (simp add: no_traces_def)
  let ?es = "map KytEv (map (feed_of a) ts) @ map RevEv (map feed_revocation rs)"
  have e: "af_events feed = js_sort compareEvents ?es" using f ev by (auto simp: issue_feed_def split: option.splits)
  have m: "mset (af_events feed) = mset ?es" unfolding e by (simp add: sort_events del: map_map)
  show "mset (af_events feed) = mset (feed_lines a opts (traces s) (revocations s))"
    unfolding m feed_lines_def relevant_def [symmetric]
    by (simp only: mset_append mset_map rs ts(1) flip: map_map)
  show "sorted (map event_key (af_events feed))" unfolding e by (simp add: sort_events del: map_map)
  have "filter (\<lambda>t. involves a t \<and> kt_stage t = st') ts = filter (\<lambda>t. kt_stage t = st') ts" for st'
    using ts(2) by (auto simp: filter_id_conv intro!: filter_cong)
  then show "af_summary feed = summary_of (af_events feed)"
    using f loop(5-7) unfolding summary_of_mset [OF m]
    by (auto simp: issue_feed_def ev no_traces_def summary_of_lines split: option.splits simp del: map_map)
  show "feed_header feed = (feedUrn a (bo_sinceSlot opts) (bo_untilSlot opts), toISOString clock, ''did:eto:agent:'' @ a, a,
          bo_sinceSlot opts, bo_untilSlot opts)"
    using f by (auto simp: issue_feed_def feed_header_def split: option.splits)
qed

text \<open>With distinct keys the stored events determine the outcome.\<close>

lemma feed_determined:
  assumes s: "valid s" "valid s'"
    and m: "mset (traces s) = mset (traces s')" "mset (revocations s) = mset (revocations s')"
    and d: "distinct (map trace_key (traces s))" "distinct (map revocation_key (revocations s))"
  shows "buildAuditFeed (source s) clock a opts = buildAuditFeed (source s') clock a opts"
proof -
  have "set (traces s) = set (traces s')" using m(1) by (rule mset_eq_setD)
  then have "printable s a opts \<longleftrightarrow> printable s' a opts" by (auto simp: printable_def relevant_def)
  then have ok: "is_ok (buildAuditFeed (source s) clock a opts) \<longleftrightarrow> is_ok (buildAuditFeed (source s') clock a opts)"
    by (simp add: feed_built_iff s)
  show ?thesis
  proof (cases "buildAuditFeed (source s) clock a opts")
    case (Inl e)
    with ok obtain e' where e': "buildAuditFeed (source s') clock a opts = Inl e'"
      by (cases "buildAuditFeed (source s') clock a opts") auto
    show ?thesis
      using buildAuditFeed_refused [of a] buildAuditFeed_refused(2) [of a opts] feed_error [OF s(1) Inl] feed_error [OF s(2) e'] Inl e'
      by (cases "base58String a"; cases "assertBounds opts = Inr ()") auto
  next
    case (Inr feed)
    with ok obtain feed' where Inr': "buildAuditFeed (source s') clock a opts = Inr feed'"
      by (cases "buildAuditFeed (source s') clock a opts") auto
    note c = feed_contents [OF s(1) Inr] and c' = feed_contents [OF s(2) Inr']
    have mm: "mset (af_events feed) = mset (af_events feed')" using c(1) c'(1) feed_lines_mset [OF m] by simp
    have "distinct (map event_key (feed_lines a opts (traces s) (revocations s)))"
      using traces_ok [OF s(1)] revocations_ok [OF s(1)] d by (rule feed_lines_keys_distinct)
    then have "distinct (map event_key (af_events feed))" using distinct_map_mset_eq [OF c(1), of event_key] by simp
    from sort_key_unique [OF mm this] have "af_events feed = af_events feed'" using c(2) c'(2) by (simp add: sort_key_id_if_sorted)
    moreover have "af_issuanceDate feed = af_issuanceDate feed'" using c(4) c'(4) by (metis (no_types, lifting) Pair_inject feed_header_def option.inject)
    ultimately have "feed = feed'" using c(3,4) c'(3,4) by (intro AuditFeed.equality) (simp_all add: feed_header_def)
    then show ?thesis using Inr Inr' by simp
  qed
qed

end

section \<open>The in-memory source\<close>

definition im_valid :: "InMemoryKytEventSource \<Rightarrow> bool" where
  "im_valid s \<longleftrightarrow> list_all kytTraceEventSchema (im_traces s) \<and> list_all revocationRootUpdatedEventSchema (im_revocations s)"

interpretation mem: kyt_event_source in_memory_source im_valid im_traces im_revocations
proof
  fix s and a :: string and q and issuers :: "string list"
  assume "im_valid s"
  then show "list_all kytTraceEventSchema (im_traces s)" "list_all revocationRootUpdatedEventSchema (im_revocations s)"
    by (simp_all add: im_valid_def)
  show "\<exists>rs. ks_revocationsForCredentialIssuers (in_memory_source s) issuers q = (rs, None)
          \<and> mset rs = mset (filter (\<lambda>r. (issuers = [] \<or> rv_oracle r \<in> set issuers) \<and> withinBounds (rv_slot r) q) (im_revocations s))"
    by (auto simp: in_memory_source_def im_revocationsForCredentialIssuers_def conj_commute intro!: arg_cong [where f = "filter_mset _"] filter_mset_cong)
  assume "a \<noteq> []"
  then show "\<exists>ts. ks_tracesForAuthority (in_memory_source s) a q = (ts, None)
          \<and> mset ts = mset (filter (\<lambda>t. involves a t \<and> withinBounds (kt_slot t) q) (im_traces s))"
    by (auto simp: in_memory_source_def im_tracesForAuthority_def involves_def conj_commute)
qed

lemma InMemoryKytEventSource_new_ok:
  assumes "InMemoryKytEventSource_new ts rs = Inr s"
  shows "im_valid s" "mset (im_traces s) = mset ts" "mset (im_revocations s) = mset (case rs of None \<Rightarrow> [] | Some r \<Rightarrow> r)"
    "sorted (map trace_key (im_traces s))" "sorted (map revocation_key (im_revocations s))"
  using assms
  by (auto simp: InMemoryKytEventSource_new_def im_valid_def sort_traces sort_revocations list_all_iff Let_def split: if_splits option.splits)

lemma demo_source: "\<exists>s. InMemoryKytEventSource_new [demo_trace St_confirm ''4'' 9, demo_trace St_init ''3'' 6] (Some [demo_revocation]) = Inr s"
  "\<exists>s. InMemoryKytEventSource_new [demo_trace St_init ''3'' 6, demo_trace St_confirm ''4'' 9] (Some [demo_revocation]) = Inr s"
  unfolding is_ok_iff [symmetric] by code_simp+

lemma demo_feed:
  assumes "InMemoryKytEventSource_new [demo_trace St_confirm ''4'' 9, demo_trace St_init ''3'' 6] (Some [demo_revocation]) = Inr s"
  shows "\<exists>feed. buildAuditFeed (in_memory_source s) 0 ''B'' demo_opts = Inr feed"
proof -
  have "case InMemoryKytEventSource_new [demo_trace St_confirm ''4'' 9, demo_trace St_init ''3'' 6] (Some [demo_revocation])
    of Inr s \<Rightarrow> is_ok (buildAuditFeed (in_memory_source s) 0 ''B'' demo_opts) | Inl _ \<Rightarrow> False"
    by code_simp
  with assms show ?thesis by (simp add: is_ok_iff)
qed

section \<open>Properties\<close>

text \<open>C8. An audit feed is complete and exact. Built over an in-memory source, the events of the feed are, as a collection with
  multiplicity, one line for each stored trace within the bounds in which the authority is either party, and one for each
  stored revocation within the bounds whose oracle the allowlist admits (all of them when there is no list, none when
  it is empty), nothing else; they are sorted by slot and then by signature or revocation tag; the summary counts them by kind
  and stage, and the three stage counts add up to the number of traces.
\<close>

theorem audit_feed_exact:
  assumes "InMemoryKytEventSource_new ts rs = Inr s"
    and "buildAuditFeed (in_memory_source s) clock a opts = Inr feed"
  shows "mset (af_events feed) = mset (feed_lines a opts ts (case rs of None \<Rightarrow> [] | Some r \<Rightarrow> r))
     \<and> sorted (map event_key (af_events feed))
     \<and> af_summary feed = summary_of (af_events feed)
     \<and> fs_initCount (af_summary feed) + fs_confirmCount (af_summary feed) + fs_rateCount (af_summary feed) = fs_kytCount (af_summary feed)"
proof -
  note new = InMemoryKytEventSource_new_ok [OF assms(1)]
  note c = mem.feed_contents [OF new(1) assms(2)]
  have "mset (af_events feed) = mset (feed_lines a opts ts (case rs of None \<Rightarrow> [] | Some r \<Rightarrow> r))"
    using c(1) feed_lines_mset [OF new(2,3)] by simp
  moreover have "fs_initCount (af_summary feed) + fs_confirmCount (af_summary feed) + fs_rateCount (af_summary feed) = fs_kytCount (af_summary feed)"
    using stage_counts_sum by (simp add: c(3) summary_of_def)
  ultimately show ?thesis using c(2,3) by blast
qed

theorem audit_feed_exact_witness:
  "\<exists>s feed. InMemoryKytEventSource_new [demo_trace St_confirm ''4'' 9, demo_trace St_init ''3'' 6] (Some [demo_revocation]) = Inr s
     \<and> buildAuditFeed (in_memory_source s) 0 ''B'' demo_opts = Inr feed
     \<and> mset (af_events feed) = mset (feed_lines ''B'' demo_opts [demo_trace St_confirm ''4'' 9, demo_trace St_init ''3'' 6] [demo_revocation])
     \<and> sorted (map event_key (af_events feed))"
proof -
  obtain s where s: "InMemoryKytEventSource_new [demo_trace St_confirm ''4'' 9, demo_trace St_init ''3'' 6] (Some [demo_revocation]) = Inr s"
    using demo_source(1) by blast
  obtain feed where f: "buildAuditFeed (in_memory_source s) 0 ''B'' demo_opts = Inr feed" using demo_feed [OF s] by blast
  from audit_feed_exact [OF s f] s f show ?thesis by auto
qed

text \<open>The feed does not depend on the order in which events reached the store. When no two traces share slot and signature and
  no two revocations share slot, oracle and root, two in-memory sources given the same events in different orders answer
  every request for a feed with the same result, error or feed, byte for byte: a trace never ties with a revocation, because the
  tag of a revocation starts with a character that no base58 signature has.
\<close>

theorem audit_feed_deterministic:
  assumes "InMemoryKytEventSource_new ts (Some rs) = Inr s" "InMemoryKytEventSource_new ts' (Some rs') = Inr s'"
    and "mset ts = mset ts'" "mset rs = mset rs'"
    and "distinct (map trace_key ts)" "distinct (map revocation_key rs)"
  shows "buildAuditFeed (in_memory_source s) clock a opts = buildAuditFeed (in_memory_source s') clock a opts"
proof -
  note new = InMemoryKytEventSource_new_ok [OF assms(1)] and new' = InMemoryKytEventSource_new_ok [OF assms(2)]
  show ?thesis
    using new(2,3) new'(2,3) assms(3-6) distinct_map_mset_eq [OF new(2), of trace_key] distinct_map_mset_eq [OF new(3), of revocation_key]
    by (intro mem.feed_determined new(1) new'(1)) simp_all
qed

theorem audit_feed_deterministic_witness:
  "\<exists>s s'. InMemoryKytEventSource_new [demo_trace St_confirm ''4'' 9, demo_trace St_init ''3'' 6] (Some [demo_revocation]) = Inr s
     \<and> InMemoryKytEventSource_new [demo_trace St_init ''3'' 6, demo_trace St_confirm ''4'' 9] (Some [demo_revocation]) = Inr s'
     \<and> buildAuditFeed (in_memory_source s) 0 ''B'' demo_opts = buildAuditFeed (in_memory_source s') 0 ''B'' demo_opts"
proof -
  obtain s s' where s: "InMemoryKytEventSource_new [demo_trace St_confirm ''4'' 9, demo_trace St_init ''3'' 6] (Some [demo_revocation]) = Inr s"
    "InMemoryKytEventSource_new [demo_trace St_init ''3'' 6, demo_trace St_confirm ''4'' 9] (Some [demo_revocation]) = Inr s'"
    using demo_source by blast
  have "buildAuditFeed (in_memory_source s) 0 ''B'' demo_opts = buildAuditFeed (in_memory_source s') 0 ''B'' demo_opts"
    by (rule audit_feed_deterministic [OF s]) (simp_all add: demo_trace_def trace_key_def int_of_def)
  with s show ?thesis by blast
qed

text \<open>When an audit feed is refused. Over an in-memory source the builder answers with a feed exactly when the authority is a
  non-empty base58 string, the bounds are non-negative integers in order, the clock and the timestamp of every trace that
  would be listed are dates the language can print; a bad authority is reported before bad bounds, and the only other
  failure is the range error of the date, never an invalid-event error, since the constructor accepted the events.
\<close>

theorem audit_feed_refused:
  assumes "InMemoryKytEventSource_new ts rs = Inr s"
  shows "case buildAuditFeed (in_memory_source s) clock a opts of
    Inr feed \<Rightarrow> base58String a \<and> assertBounds opts = Inr () \<and> toISOString clock = Some (af_issuanceDate feed)
      \<and> list_all (\<lambda>t. involves a t \<and> withinBounds (kt_slot t) (query_of opts) \<longrightarrow> unixSecondsToIso (int_of (kt_timestamp t)) \<noteq> None) ts
  | Inl e \<Rightarrow> if \<not> base58String a then e = AuditTrailIndexerError INVALID_AUTHORITY
      else if assertBounds opts \<noteq> Inr () then e = AuditTrailIndexerError INVALID_BOUNDS
      else e = AuditRangeError \<and> (toISOString clock = None
        \<or> list_ex (\<lambda>t. involves a t \<and> withinBounds (kt_slot t) (query_of opts) \<and> unixSecondsToIso (int_of (kt_timestamp t)) = None) ts)"
proof -
  note new = InMemoryKytEventSource_new_ok [OF assms]
  have "set (im_traces s) = set ts" using new(2) by (rule mset_eq_setD)
  then have p: "mem.printable s a opts
      \<longleftrightarrow> list_all (\<lambda>t. involves a t \<and> withinBounds (kt_slot t) (query_of opts) \<longrightarrow> unixSecondsToIso (int_of (kt_timestamp t)) \<noteq> None) ts"
    by (auto simp: mem.printable_def mem.relevant_def list_all_iff)
  note built = mem.feed_built_iff [OF new(1), of clock a opts, unfolded p]
  show ?thesis
  proof (cases "buildAuditFeed (in_memory_source s) clock a opts")
    case (Inr feed)
    from mem.feed_contents(4) [OF new(1) Inr] have "toISOString clock = Some (af_issuanceDate feed)" by (simp add: feed_header_def)
    with built Inr show ?thesis by simp
  next
    case (Inl e)
    show ?thesis
    proof (cases "base58String a \<and> assertBounds opts = Inr ()")
      case True
      then have "e = AuditRangeError" using mem.feed_error [OF new(1) Inl] by simp
      with True built Inl show ?thesis by (simp add: list_all_iff list_ex_iff) blast
    qed (use Inl buildAuditFeed_refused [of a] buildAuditFeed_refused(2) [of a opts] in \<open>cases "base58String a"; auto\<close>)
  qed
qed

theorem audit_feed_refused_witness:
  "\<exists>s. InMemoryKytEventSource_new [demo_trace St_confirm ''4'' 9, demo_trace St_init ''3'' 6] (Some [demo_revocation]) = Inr s
     \<and> \<not> is_ok (buildAuditFeed (in_memory_source s) 0 ''0'' demo_opts)"
proof -
  obtain s where s: "InMemoryKytEventSource_new [demo_trace St_confirm ''4'' 9, demo_trace St_init ''3'' 6] (Some [demo_revocation]) = Inr s"
    using demo_source(1) by blast
  have "\<not> base58String ''0''" by code_simp
  with audit_feed_refused [OF s, where clock = 0 and a = "''0''" and opts = demo_opts] s show ?thesis
    by (cases "buildAuditFeed (in_memory_source s) 0 ''0'' demo_opts") auto
qed

end
