(* ===== verification/Issuer_Base.thy ===== *)
theory Issuer_Base
  imports Jcs Js_Date "HOL-Library.Multiset"
begin

text \<open>
  What the credential issuers share: the chain and pinning clients they call, as effects on a trace,
  and the concurrent system in which their requests run.

  An issuer handles a request in three parts. It validates and looks the key up in its store; if that
  does not answer the request it calls the outside world (verifier, clock, pinner, chain); then it
  binds the minted credential in its store and answers. The first and the last part run without an
  \<open>await\<close> between the store access and the decision, so each is atomic; between them any other
  request may run. \<open>issuance_run\<close> is that system, for any number of requests in flight, and the
  locale \<open>concurrent_issuer\<close> is the contract under which answers stay consistent.
\<close>

section \<open>External calls\<close>

record issue_input =
  ii_subject :: string
  ii_schemaId :: string
  ii_claimUri :: string
  ii_claimHash :: string
  ii_validFromSlot :: int
  ii_validUntilSlot :: int

record chain_result =
  cr_credentialPda :: string
  cr_txSignature :: string

text \<open>The narrower arguments of the \<open>verified-human\<close> and skill issuers' chain client.\<close>

record issue_args =
  ia_schema :: string
  ia_subjectAgentCard :: string
  ia_claimHash :: string
  ia_claimUri :: string
  ia_validUntilSlot :: int

datatype effect = EPin string | EPinJson json | EIssue issue_input | EIssueArgs issue_args | EIssueKeyed issue_input string | ERevoke string | EVerify string

type_synonym trace = "effect list"

text \<open>A dependency is a function of the calls made so far and its argument; \<open>Inl\<close> is a rejection
  with its message.\<close>

type_synonym ('a, 'b) dep = "trace \<Rightarrow> 'a \<Rightarrow> (string, 'b) result"

text \<open>A value whose type the code tests at run time.\<close>

datatype js_value = VStr string | VNum jsnumber | VOther

section \<open>The concurrent system\<close>

text \<open>A state is the store, the requests in flight and the answers given so far. \<open>start\<close> answers or
  leaves a pending request; \<open>finish\<close> takes whatever the outside world answered; \<open>aux\<close> is any other
  operation on the store.\<close>

inductive issuance_run ::
  "('s \<Rightarrow> 'q \<Rightarrow> 'r + 'p) \<Rightarrow> ('s \<Rightarrow> 'p \<Rightarrow> 'm \<Rightarrow> 'r \<times> 's) \<Rightarrow> ('s \<Rightarrow> 'x \<Rightarrow> 's) \<Rightarrow> 's
   \<Rightarrow> 's \<Rightarrow> 'p multiset \<Rightarrow> 'r list \<Rightarrow> bool"
  for start :: "'s \<Rightarrow> 'q \<Rightarrow> 'r + 'p" and finish :: "'s \<Rightarrow> 'p \<Rightarrow> 'm \<Rightarrow> 'r \<times> 's"
    and aux :: "'s \<Rightarrow> 'x \<Rightarrow> 's" and s0 :: 's where
  run_init: "issuance_run start finish aux s0 s0 {#} []"
| run_answer: "issuance_run start finish aux s0 s ps rs \<Longrightarrow> start s q = Inl r
     \<Longrightarrow> issuance_run start finish aux s0 s ps (rs @ [r])"
| run_pend: "issuance_run start finish aux s0 s ps rs \<Longrightarrow> start s q = Inr p
     \<Longrightarrow> issuance_run start finish aux s0 s (add_mset p ps) rs"
| run_finish: "issuance_run start finish aux s0 s ps rs \<Longrightarrow> p \<in># ps \<Longrightarrow> finish s p m = (r, s')
     \<Longrightarrow> issuance_run start finish aux s0 s' (ps - {#p#}) (rs @ [r])"
| run_aux: "issuance_run start finish aux s0 s ps rs \<Longrightarrow> issuance_run start finish aux s0 (aux s x) ps rs"

text \<open>A single request that runs alone.\<close>

lemma run_single:
  assumes "start s0 q = Inr p" "finish s0 p m = (r, s')"
  shows "issuance_run start finish aux s0 s' {#} [r]"
proof -
  have "issuance_run start finish aux s0 s0 (add_mset p {#}) []"
    using assms(1) by (intro run_pend [of start finish aux s0 s0 "{#}" "[]" q p] run_init)
  from run_finish [of start finish aux, OF this _ assms(2)] show ?thesis by simp
qed

section \<open>Interface: consistent answers\<close>

text \<open>\<open>success r = Some (k, b)\<close> says that the answer \<open>r\<close> names the binding \<open>b\<close> for the key \<open>k\<close>;
  \<open>look\<close> is the binding the store holds.\<close>

locale concurrent_issuer =
  fixes start :: "'s \<Rightarrow> 'q \<Rightarrow> 'r + 'p" and finish :: "'s \<Rightarrow> 'p \<Rightarrow> 'm \<Rightarrow> 'r \<times> 's" and aux :: "'s \<Rightarrow> 'x \<Rightarrow> 's"
    and look :: "'s \<Rightarrow> 'k \<Rightarrow> 'b option" and success :: "'r \<Rightarrow> ('k \<times> 'b) option"
  assumes start_answers: "start s q = Inl r \<Longrightarrow> success r = Some (k, b) \<Longrightarrow> look s k = Some b"
    and finish_binds: "finish s p m = (r, s') \<Longrightarrow> success r = Some (k, b) \<Longrightarrow> look s' k = Some b"
    and finish_keeps: "finish s p m = (r, s') \<Longrightarrow> look s k = Some b \<Longrightarrow> look s' k = Some b"
    and aux_keeps: "look s k = Some b \<Longrightarrow> look (aux s x) k = Some b"
begin

lemma answers_bound:
  assumes "issuance_run start finish aux s0 s ps rs" "r \<in> set rs" "success r = Some (k, b)"
  shows "look s k = Some b"
  using assms by (induction arbitrary: r k b) (auto intro: start_answers finish_binds finish_keeps aux_keeps)

text \<open>Bindings are never changed, and any two successful answers for a key name the same binding.\<close>

lemma bindings_stable:
  assumes "issuance_run start finish aux s0 s ps rs" "look s0 k = Some b"
  shows "look s k = Some b"
  using assms by (induction) (auto intro: finish_keeps aux_keeps)

lemma answers_agree:
  assumes "issuance_run start finish aux s0 s ps rs" "r \<in> set rs" "r' \<in> set rs"
    "success r = Some (k, b)" "success r' = Some (k, b')"
  shows "b = b'"
  using answers_bound [OF assms(1,2,4)] answers_bound [OF assms(1,3,5)] by simp

end

end
