(* ===== verification/Bank_Issuer.thy ===== *)
theory Bank_Issuer
  imports Issuer_Base
begin

text \<open>
  The reference bank's issuer, \<^verbatim>\<open>src/issuers/bank.ts\<close> with its types in \<^verbatim>\<open>bank.types.ts\<close>:
  checking, savings and debit-card credentials share one issuance routine and one store, keyed by the
  kind and a binding key. Numbers of the requests are JavaScript numbers, so the canonical printer may
  refuse them.
\<close>

section \<open>Data\<close>

datatype BankCredentialKind = AccountChecking | AccountSavings | CardDebit

fun kind_string :: "BankCredentialKind \<Rightarrow> string" where
  "kind_string AccountChecking = ''account.checking''"
| "kind_string AccountSavings = ''account.savings''"
| "kind_string CardDebit = ''card.debit''"

fun BANK_ISSUER_SCHEMA_LABELS :: "BankCredentialKind \<Rightarrow> string" where
  "BANK_ISSUER_SCHEMA_LABELS AccountChecking = ''eto.beckn.schema.account.checking.v1''"
| "BANK_ISSUER_SCHEMA_LABELS AccountSavings = ''eto.beckn.schema.account.savings.v1''"
| "BANK_ISSUER_SCHEMA_LABELS CardDebit = ''eto.beckn.schema.card.debit.v1''"

definition BANK_ISSUER_SCHEMA_IDS_HEX :: "(string \<Rightarrow> string) \<Rightarrow> BankCredentialKind \<Rightarrow> string" where
  "BANK_ISSUER_SCHEMA_IDS_HEX sha kind = sha (BANK_ISSUER_SCHEMA_LABELS kind)"

definition BANK_ISSUER_DID :: string where
  "BANK_ISSUER_DID = ''did:eto:bank:eto-reference''"

record IssueCheckingInput =
  bic_subjectAgentCardPubkey :: string
  bic_checkingAccountPda :: string
  bic_holder :: string
  bic_openedSlot :: jsnumber
  bic_currency :: string
  bic_openingBalance :: jsnumber

record IssueSavingsInput =
  bis_subjectAgentCardPubkey :: string
  bis_savingsAccountPda :: string
  bis_holder :: string
  bis_openedSlot :: jsnumber
  bis_currency :: string
  bis_minBalance :: jsnumber
  bis_apyBps :: "jsnumber option"
  bis_tier :: "string option"

record IssueCardInput =
  bid_subjectAgentCardPubkey :: string
  bid_cardIdHash :: string
  bid_holder :: string
  bid_linkedAccountPda :: string
  bid_jurisdiction :: string
  bid_issuedSlot :: jsnumber
  bid_spendingLimitPerDay :: jsnumber
  bid_expiresSlot :: "jsnumber option"
  bid_spendingLimitPerTx :: "jsnumber option"
  bid_merchantCategoryBlocklist :: "string list option"
  bid_networkBrand :: "string option"
  bid_tier :: "string option"

datatype BankIssueResponse =
    BkIssued string string string string string
  | BkIdempotent string string string string

datatype BankRevokeResponse =
    BkRevoked string string string
  | BkAlreadyRevoked string string string

record BankIssuerRow =
  bkr_kind :: BankCredentialKind
  bkr_bindingKey :: string
  bkr_agentCardPubkey :: string
  bkr_credentialPda :: string
  bkr_txSignature :: string
  bkr_claimUri :: string
  bkr_issuedAtUnix :: int
  bkr_revoked :: bool
  bkr_revokedAtUnix :: "int option"
  bkr_revokeTxSignature :: "string option"

type_synonym bank_store = "string \<rightharpoonup> BankIssuerRow"

datatype BankIssuerErrorKind = BkBindingConflict | BkNotFound | BkChainFailed | BkInvalidRequest

datatype bank_error = BankIssuerError BankIssuerErrorKind "string option" | BkUncaught string

record BankIssuerDeps =
  bkd_chain :: "(issue_input, chain_result) dep"
  bkd_revoker :: "(string, string) dep"
  bkd_pinner :: "(string, string) dep"
  bkd_clock :: "(unit, int) dep"
  bkd_issuerAuthorityPubkey :: string
  bkd_nowUnix :: "trace \<Rightarrow> int"

section \<open>Credentials\<close>

text \<open>A member that is present only when its value is defined.\<close>

definition opt_member :: "string \<Rightarrow> ('a \<Rightarrow> json) \<Rightarrow> 'a option \<Rightarrow> (string \<times> json) list" where
  "opt_member k f x = (case x of None \<Rightarrow> [] | Some v \<Rightarrow> [(k, f v)])"

definition bank_vc :: "string \<Rightarrow> string \<Rightarrow> string \<Rightarrow> string \<Rightarrow> (string \<times> json) list \<Rightarrow> json" where
  "bank_vc context_url credentialType issuanceDate issuerAuthority subject = JObj [
     (''@context'', JArr [JStr ''https://www.w3.org/2018/credentials/v1'', JStr context_url]),
     (''type'', JArr [JStr ''VerifiableCredential'', JStr credentialType]),
     (''issuer'', JStr BANK_ISSUER_DID),
     (''issuanceDate'', JStr issuanceDate),
     (''credentialSubject'', JObj subject),
     (''issuerAuthority'', JStr issuerAuthority)]"

definition buildAccountCheckingVc :: "string \<Rightarrow> IssueCheckingInput \<Rightarrow> string \<Rightarrow> json" where
  "buildAccountCheckingVc authority i issuanceDate =
     bank_vc ''https://schema.eto.dev/banking/account-checking/v1'' ''CheckingAccountCredential'' issuanceDate authority [
       (''id'', JStr (''did:eto:agentcard:'' @ bic_subjectAgentCardPubkey i)),
       (''account_pda'', JStr (bic_checkingAccountPda i)),
       (''holder'', JStr (bic_holder i)),
       (''opened_slot'', JNum (bic_openedSlot i)),
       (''currency'', JStr (bic_currency i)),
       (''opening_balance'', JNum (bic_openingBalance i))]"

definition buildAccountSavingsVc :: "string \<Rightarrow> IssueSavingsInput \<Rightarrow> string \<Rightarrow> json" where
  "buildAccountSavingsVc authority i issuanceDate =
     bank_vc ''https://schema.eto.dev/banking/account-savings/v1'' ''SavingsAccountCredential'' issuanceDate authority ([
       (''id'', JStr (''did:eto:agentcard:'' @ bis_subjectAgentCardPubkey i)),
       (''account_pda'', JStr (bis_savingsAccountPda i)),
       (''holder'', JStr (bis_holder i)),
       (''opened_slot'', JNum (bis_openedSlot i)),
       (''currency'', JStr (bis_currency i)),
       (''min_balance'', JNum (bis_minBalance i))]
       @ opt_member ''apy_bps'' JNum (bis_apyBps i) @ opt_member ''tier'' JStr (bis_tier i))"

definition buildCardDebitVc :: "string \<Rightarrow> IssueCardInput \<Rightarrow> string \<Rightarrow> json" where
  "buildCardDebitVc authority i issuanceDate =
     bank_vc ''https://schema.eto.dev/banking/card-debit/v1'' ''DebitCardCredential'' issuanceDate authority ([
       (''id'', JStr (''did:eto:agentcard:'' @ bid_subjectAgentCardPubkey i)),
       (''holder'', JStr (bid_holder i)),
       (''linked_account_pda'', JStr (bid_linkedAccountPda i)),
       (''jurisdiction'', JStr (bid_jurisdiction i)),
       (''card_id_hash'', JStr (bid_cardIdHash i)),
       (''issued_slot'', JNum (bid_issuedSlot i)),
       (''spending_limit_per_day'', JNum (bid_spendingLimitPerDay i))]
       @ opt_member ''expires_slot'' JNum (bid_expiresSlot i)
       @ opt_member ''spending_limit_per_tx'' JNum (bid_spendingLimitPerTx i)
       @ opt_member ''merchant_category_blocklist'' (\<lambda>xs. JArr (map JStr xs)) (bid_merchantCategoryBlocklist i)
       @ opt_member ''network_brand'' JStr (bid_networkBrand i)
       @ opt_member ''tier'' JStr (bid_tier i))"

section \<open>In-memory store\<close>

definition bk_key :: "BankCredentialKind \<Rightarrow> string \<Rightarrow> string" where
  "bk_key kind bindingKey = kind_string kind @ [CHR 0x00] @ bindingKey"

definition bk_get :: "bank_store \<Rightarrow> BankCredentialKind \<Rightarrow> string \<Rightarrow> BankIssuerRow option" where
  "bk_get st kind bindingKey = st (bk_key kind bindingKey)"

definition bk_putIfAbsent :: "bank_store \<Rightarrow> BankIssuerRow \<Rightarrow> BankIssuerRow \<times> bank_store" where
  "bk_putIfAbsent st row = (let k = bk_key (bkr_kind row) (bkr_bindingKey row)
     in case st k of Some existing \<Rightarrow> (existing, st) | None \<Rightarrow> (row, st(k \<mapsto> row)))"

definition bk_markRevoked :: "bank_store \<Rightarrow> BankCredentialKind \<Rightarrow> string \<Rightarrow> int \<Rightarrow> string \<Rightarrow> (string, BankIssuerRow) result \<times> bank_store" where
  "bk_markRevoked st kind bindingKey t sig = (let k = bk_key kind bindingKey in case st k of
       None \<Rightarrow> (Inl (''markRevoked: unknown kind='' @ kind_string kind @ '' bindingKey='' @ bindingKey), st)
     | Some existing \<Rightarrow> if bkr_revoked existing then (Inr existing, st)
         else let updated = existing\<lparr>bkr_revoked := True, bkr_revokedAtUnix := Some t, bkr_revokeTxSignature := Some sig\<rparr>
              in (Inr updated, st(k \<mapsto> updated)))"

section \<open>Issuing\<close>

text \<open>A request under way: its kind, binding key and card.\<close>

record bank_pending =
  bkp_kind :: BankCredentialKind
  bkp_key :: string
  bkp_card :: string

text \<open>Validation and step 1, the same in the three entry points.\<close>

definition bk_issue_start :: "bank_store \<Rightarrow> bank_pending \<Rightarrow> (bank_error, BankIssueResponse) result + bank_pending" where
  "bk_issue_start st p = (
     if bkp_card p = [] then Inl (Inl (BankIssuerError BkInvalidRequest (Some ''empty_card'')))
     else if bkp_key p = [] then Inl (Inl (BankIssuerError BkInvalidRequest (Some ''empty_binding_key'')))
     else case bk_get st (bkp_kind p) (bkp_key p) of
       Some existing \<Rightarrow>
         if bkr_agentCardPubkey existing \<noteq> bkp_card p
         then Inl (Inl (BankIssuerError BkBindingConflict (Some (''bound_card='' @ bkr_agentCardPubkey existing))))
         else Inl (Inr (BkIdempotent (bkr_credentialPda existing) (bkr_txSignature existing) (bkr_claimUri existing) (bkp_key p)))
     | None \<Rightarrow> Inr p)"

type_synonym bank_minted = "chain_result \<times> string \<times> string \<times> int"

text \<open>Step 2 of \<open>issueCredential\<close>: hash, pin and submit.\<close>

definition bk_issue_mint :: "(string \<Rightarrow> string) \<Rightarrow> BankIssuerDeps \<Rightarrow> bank_pending \<Rightarrow> json \<Rightarrow> trace
    \<Rightarrow> (bank_error, bank_minted) result \<times> trace" where
  "bk_issue_mint sha d p vc tr = (case jcsStringify vc of Inl _ \<Rightarrow> (Inl (BkUncaught ''Error''), tr) | Inr claimJcs \<Rightarrow>
     let claimHashHex = sha claimJcs; tr1 = tr @ [EPin claimJcs]
     in case bkd_pinner d tr claimJcs of Inl e \<Rightarrow> (Inl (BkUncaught e), tr1) | Inr claimUri \<Rightarrow>
     case bkd_clock d tr1 () of Inl e \<Rightarrow> (Inl (BkUncaught e), tr1) | Inr slot \<Rightarrow>
     let input = \<lparr>ii_subject = bkp_card p, ii_schemaId = BANK_ISSUER_SCHEMA_IDS_HEX sha (bkp_kind p), ii_claimUri = claimUri,
                  ii_claimHash = claimHashHex, ii_validFromSlot = slot, ii_validUntilSlot = 0\<rparr>;
         tr2 = tr1 @ [EIssue input]
     in case bkd_chain d tr1 input of Inl _ \<Rightarrow> (Inl (BankIssuerError BkChainFailed None), tr2)
        | Inr chainResult \<Rightarrow> (Inr (chainResult, claimUri, claimHashHex, bkd_nowUnix d tr2), tr2))"

text \<open>Step 3: persist after a successful transaction.\<close>

definition bk_issue_finish :: "bank_store \<Rightarrow> bank_pending \<Rightarrow> (bank_error, bank_minted) result
    \<Rightarrow> (bank_error, BankIssueResponse) result \<times> bank_store" where
  "bk_issue_finish st p m = (case m of Inl e \<Rightarrow> (Inl e, st) | Inr (chainResult, claimUri, claimHashHex, nowUnix) \<Rightarrow>
     let (winner, st') = bk_putIfAbsent st \<lparr>bkr_kind = bkp_kind p, bkr_bindingKey = bkp_key p, bkr_agentCardPubkey = bkp_card p,
            bkr_credentialPda = cr_credentialPda chainResult, bkr_txSignature = cr_txSignature chainResult,
            bkr_claimUri = claimUri, bkr_issuedAtUnix = nowUnix, bkr_revoked = False,
            bkr_revokedAtUnix = None, bkr_revokeTxSignature = None\<rparr>
     in if bkr_agentCardPubkey winner \<noteq> bkp_card p
        then (Inl (BankIssuerError BkBindingConflict (Some (''bound_card='' @ bkr_agentCardPubkey winner))), st')
        else if bkr_credentialPda winner \<noteq> cr_credentialPda chainResult
        then (Inr (BkIdempotent (bkr_credentialPda winner) (bkr_txSignature winner) (bkr_claimUri winner) (bkp_key p)), st')
        else (Inr (BkIssued (cr_credentialPda chainResult) (cr_txSignature chainResult) claimUri claimHashHex (bkp_key p)), st'))"

definition bk_issueCredential :: "(string \<Rightarrow> string) \<Rightarrow> BankIssuerDeps \<Rightarrow> (bank_store \<Rightarrow> bank_store) \<Rightarrow> bank_pending
    \<Rightarrow> (string \<Rightarrow> json) \<Rightarrow> bank_store \<Rightarrow> trace \<Rightarrow> (bank_error, BankIssueResponse) result \<times> bank_store \<times> trace" where
  "bk_issueCredential sha d others p vc st tr = (case bk_issue_start st p of Inl r \<Rightarrow> (r, st, tr) | Inr p \<Rightarrow>
     case toISOString (js_mul (bkd_nowUnix d tr) 1000) of None \<Rightarrow> (Inl (BkUncaught ''RangeError''), st, tr) | Some issuanceDate \<Rightarrow>
     let (m, tr') = bk_issue_mint sha d p (vc issuanceDate) tr; (r, st') = bk_issue_finish (others st) p m
     in (r, st', tr'))"

definition issueCheckingCredential :: "(string \<Rightarrow> string) \<Rightarrow> BankIssuerDeps \<Rightarrow> (bank_store \<Rightarrow> bank_store) \<Rightarrow> IssueCheckingInput
    \<Rightarrow> bank_store \<Rightarrow> trace \<Rightarrow> (bank_error, BankIssueResponse) result \<times> bank_store \<times> trace" where
  "issueCheckingCredential sha d others i = bk_issueCredential sha d others
     \<lparr>bkp_kind = AccountChecking, bkp_key = bic_checkingAccountPda i, bkp_card = bic_subjectAgentCardPubkey i\<rparr>
     (buildAccountCheckingVc (bkd_issuerAuthorityPubkey d) i)"

definition issueSavingsCredential :: "(string \<Rightarrow> string) \<Rightarrow> BankIssuerDeps \<Rightarrow> (bank_store \<Rightarrow> bank_store) \<Rightarrow> IssueSavingsInput
    \<Rightarrow> bank_store \<Rightarrow> trace \<Rightarrow> (bank_error, BankIssueResponse) result \<times> bank_store \<times> trace" where
  "issueSavingsCredential sha d others i = bk_issueCredential sha d others
     \<lparr>bkp_kind = AccountSavings, bkp_key = bis_savingsAccountPda i, bkp_card = bis_subjectAgentCardPubkey i\<rparr>
     (buildAccountSavingsVc (bkd_issuerAuthorityPubkey d) i)"

definition issueCardCredential :: "(string \<Rightarrow> string) \<Rightarrow> BankIssuerDeps \<Rightarrow> (bank_store \<Rightarrow> bank_store) \<Rightarrow> IssueCardInput
    \<Rightarrow> bank_store \<Rightarrow> trace \<Rightarrow> (bank_error, BankIssueResponse) result \<times> bank_store \<times> trace" where
  "issueCardCredential sha d others i = bk_issueCredential sha d others
     \<lparr>bkp_kind = CardDebit, bkp_key = bid_cardIdHash i, bkp_card = bid_subjectAgentCardPubkey i\<rparr>
     (buildCardDebitVc (bkd_issuerAuthorityPubkey d) i)"

section \<open>Revoking\<close>

definition revokeBankCredential :: "BankIssuerDeps \<Rightarrow> (bank_store \<Rightarrow> bank_store) \<Rightarrow> BankCredentialKind \<Rightarrow> string
    \<Rightarrow> bank_store \<Rightarrow> trace \<Rightarrow> (bank_error, BankRevokeResponse) result \<times> bank_store \<times> trace" where
  "revokeBankCredential d others kind k st tr = (
     if k = [] then (Inl (BankIssuerError BkInvalidRequest (Some ''empty_binding_key'')), st, tr)
     else case bk_get st kind k of
       None \<Rightarrow> (Inl (BankIssuerError BkNotFound (Some k)), st, tr)
     | Some row \<Rightarrow>
       if bkr_revoked row
       then (Inr (BkAlreadyRevoked (bkr_credentialPda row) (case bkr_revokeTxSignature row of None \<Rightarrow> [] | Some s \<Rightarrow> s) k), st, tr)
       else let pda = bkr_credentialPda row; tr1 = tr @ [ERevoke pda]; st1 = others st
       in case bkd_revoker d tr pda of
            Inl _ \<Rightarrow> (Inl (BankIssuerError BkChainFailed None), st1, tr1)
          | Inr sig \<Rightarrow> (case bk_markRevoked st1 kind k (bkd_nowUnix d tr1) sig of
                (Inl e, st2) \<Rightarrow> (Inl (BkUncaught e), st2, tr1)
              | (Inr _, st2) \<Rightarrow> (Inr (BkRevoked pda sig k), st2, tr1)))"

section \<open>Specification\<close>

definition bk_binding :: "bank_store \<Rightarrow> BankCredentialKind \<times> string \<Rightarrow> (string \<times> string) option" where
  "bk_binding st k = map_option (\<lambda>r. (bkr_agentCardPubkey r, bkr_credentialPda r)) (bk_get st (fst k) (snd k))"

fun bk_success :: "bank_pending \<times> (bank_error, BankIssueResponse) result \<Rightarrow> ((BankCredentialKind \<times> string) \<times> string \<times> string) option" where
  "bk_success (p, Inr (BkIssued pda sig uri h k)) = Some ((bkp_kind p, bkp_key p), bkp_card p, pda)"
| "bk_success (p, Inr (BkIdempotent pda sig uri k)) = Some ((bkp_kind p, bkp_key p), bkp_card p, pda)"
| "bk_success (p, Inl e) = None"

definition bk_start :: "bank_store \<Rightarrow> bank_pending \<Rightarrow> bank_pending \<times> (bank_error, BankIssueResponse) result + bank_pending" where
  "bk_start st p = (case bk_issue_start st p of Inl r \<Rightarrow> Inl (p, r) | Inr p \<Rightarrow> Inr p)"

definition bk_finish :: "bank_store \<Rightarrow> bank_pending \<Rightarrow> (bank_error, bank_minted) result
    \<Rightarrow> (bank_pending \<times> (bank_error, BankIssueResponse) result) \<times> bank_store" where
  "bk_finish st p m = (case bk_issue_finish st p m of (r, st') \<Rightarrow> ((p, r), st'))"

definition bk_aux :: "bank_store \<Rightarrow> BankCredentialKind \<times> string \<times> int \<times> string \<Rightarrow> bank_store" where
  "bk_aux st x = (case x of (kind, k, t, sig) \<Rightarrow> snd (bk_markRevoked st kind k t sig))"

text \<open>The numbers of a credential are integers: what the canonical printer accepts.\<close>

fun integral_json :: "json \<Rightarrow> bool" where
  "integral_json (JNum n) = isInteger n"
| "integral_json (JArr vs) = list_all integral_json vs"
| "integral_json (JObj kvs) = list_all (\<lambda>(k, v). integral_json v) kvs"
| "integral_json _ = True"

text \<open>What a newly issued credential has pinned, submitted and stored.\<close>

definition bk_issued_ok :: "(string \<Rightarrow> string) \<Rightarrow> bank_pending \<Rightarrow> (string \<Rightarrow> json) \<Rightarrow> trace \<Rightarrow> trace \<Rightarrow> bank_store \<Rightarrow> string \<Rightarrow> string \<Rightarrow> string \<Rightarrow> bool" where
  "bk_issued_ok sha p vc tr tr' st' pda uri h = (\<exists>date c input. jcsStringify (vc date) = Inr c \<and> tr' = tr @ [EPin c, EIssue input]
     \<and> h = sha c \<and> ii_claimHash input = h \<and> ii_claimUri input = uri \<and> ii_subject input = bkp_card p
     \<and> ii_schemaId input = BANK_ISSUER_SCHEMA_IDS_HEX sha (bkp_kind p)
     \<and> bk_binding st' (bkp_kind p, bkp_key p) = Some (bkp_card p, pda))"

text \<open>Clients that always answer, and a request, for examples.\<close>

definition bk_example_deps :: BankIssuerDeps where
  "bk_example_deps = \<lparr>bkd_chain = (\<lambda>tr i. Inr \<lparr>cr_credentialPda = ''pda'', cr_txSignature = ''tx''\<rparr>),
     bkd_revoker = (\<lambda>tr p. Inr ''rtx''), bkd_pinner = (\<lambda>tr c. Inr ''uri''), bkd_clock = (\<lambda>tr u. Inr 7),
     bkd_issuerAuthorityPubkey = ''auth'', bkd_nowUnix = (\<lambda>tr. 0)\<rparr>"

definition bk_example_checking :: "jsnumber \<Rightarrow> IssueCheckingInput" where
  "bk_example_checking balance = \<lparr>bic_subjectAgentCardPubkey = ''card'', bic_checkingAccountPda = ''acc'', bic_holder = ''h'',
     bic_openedSlot = JInt 7, bic_currency = ''eUSD'', bic_openingBalance = balance\<rparr>"

section \<open>Lemmas\<close>

lemmas bk_store_defs = bk_get_def bk_putIfAbsent_def bk_markRevoked_def Let_def

lemma bk_key_inject: "bk_key a x = bk_key b y \<longleftrightarrow> a = b \<and> x = y"
  by (cases a; cases b) (simp_all add: bk_key_def)

lemma bk_start_answers:
  "bk_start st q = Inl r \<Longrightarrow> bk_success r = Some (k, b) \<Longrightarrow> bk_binding st k = Some b"
  by (auto simp: bk_start_def bk_issue_start_def bk_binding_def bk_get_def split: sum.splits option.splits if_splits)

lemma bk_finish_binds:
  "bk_finish st q m = (r, st') \<Longrightarrow> bk_success r = Some (k, b) \<Longrightarrow> bk_binding st' k = Some b"
  by (cases m) (auto simp: bk_finish_def bk_issue_finish_def bk_binding_def bk_store_defs
      split: prod.splits option.splits if_splits)

lemma bk_finish_keeps:
  "bk_finish st q m = (r, st') \<Longrightarrow> bk_binding st k = Some b \<Longrightarrow> bk_binding st' k = Some b"
  by (cases m) (auto simp: bk_finish_def bk_issue_finish_def bk_binding_def bk_store_defs
      split: prod.splits option.splits if_splits)

lemma bk_aux_keeps: "bk_binding st k = Some b \<Longrightarrow> bk_binding (bk_aux st x) k = Some b"
  by (cases x) (auto simp: bk_aux_def bk_binding_def bk_store_defs bk_key_inject split: option.splits)

interpretation bank: concurrent_issuer bk_start bk_finish bk_aux bk_binding bk_success
  by unfold_locales (fact bk_start_answers bk_finish_binds bk_finish_keeps bk_aux_keeps)+

lemma sequence_is_ok: "is_ok (sequence rs) \<longleftrightarrow> list_all is_ok rs"
proof (induction rs)
  case (Cons r rs)
  then show ?case by (cases r; cases "sequence rs") auto
qed simp

lemma bind_is_ok: "is_ok (bind_result r (\<lambda>x. Inr (f x))) \<longleftrightarrow> is_ok r"
  by (cases r) simp_all

text \<open>The canonical printer accepts a value just when its numbers are integers.\<close>

lemma jcsStringify_is_ok: "is_ok (jcsStringify v) \<longleftrightarrow> integral_json v"
proof (induction v rule: jcsStringify.induct)
  case (3 n)
  then show ?case by (cases n) auto
next
  case (5 vs)
  then show ?case by (simp add: bind_is_ok sequence_is_ok list_all_iff)
next
  case (6 kvs)
  have "is_ok (jcsStringify (JObj kvs)) \<longleftrightarrow> (\<forall>kv \<in> set kvs. is_ok (jcsStringify (snd kv)))"
    by (simp add: bind_is_ok sequence_is_ok list_all_iff case_prod_unfold)
  also have "\<dots> \<longleftrightarrow> integral_json (JObj kvs)" using 6 by (auto simp: list_all_iff)
  finally show ?case .
qed simp_all

lemma bk_issueCredential_fresh:
  assumes "bk_issueCredential sha d others p vc st tr = (r, st', tr')" "st' \<noteq> st \<or> tr' \<noteq> tr"
  obtains date m where "bk_issue_start st p = Inr p" "toISOString (js_mul (bkd_nowUnix d tr) 1000) = Some date"
    "bk_issue_mint sha d p (vc date) tr = (m, tr')" "bk_issue_finish (others st) p m = (r, st')"
  using assms unfolding bk_issueCredential_def bk_issue_start_def
  by (auto simp: Let_def split: prod.splits sum.splits option.splits if_splits)

lemma bk_mint_ok:
  assumes "bk_issue_mint sha d p vc tr = (Inr (cr, uri, h, t), tr')"
  obtains c input where "jcsStringify vc = Inr c" "tr' = tr @ [EPin c, EIssue input]" "h = sha c" "ii_claimHash input = h"
    "ii_claimUri input = uri" "ii_subject input = bkp_card p" "ii_schemaId input = BANK_ISSUER_SCHEMA_IDS_HEX sha (bkp_kind p)"
  using assms unfolding bk_issue_mint_def by (auto simp: Let_def split: sum.splits)

lemma bk_issued:
  assumes "bk_issueCredential sha d others p vc st tr = (Inr (BkIssued pda sig uri h k), st', tr')"
  shows "bk_issued_ok sha p vc tr tr' st' pda uri h"
proof -
  from assms obtain date m where m: "bk_issue_mint sha d p (vc date) tr = (m, tr')"
    and f: "bk_issue_finish (others st) p m = (Inr (BkIssued pda sig uri h k), st')"
    unfolding bk_issueCredential_def bk_issue_start_def
    by (auto simp: Let_def split: prod.splits sum.splits option.splits if_splits)
  from f obtain cr t where "m = Inr (cr, uri, h, t)"
    by (cases m) (auto simp: bk_issue_finish_def Let_def split: prod.splits if_splits)
  with m have "bk_issue_mint sha d p (vc date) tr = (Inr (cr, uri, h, t), tr')" by simp
  then show ?thesis
  proof (rule bk_mint_ok)
    fix c input assume c: "jcsStringify (vc date) = Inr c" "tr' = tr @ [EPin c, EIssue input]" "h = sha c" "ii_claimHash input = h"
      "ii_claimUri input = uri" "ii_subject input = bkp_card p" "ii_schemaId input = BANK_ISSUER_SCHEMA_IDS_HEX sha (bkp_kind p)"
    have "bk_binding st' (bkp_kind p, bkp_key p) = Some (bkp_card p, pda)"
      using f by (intro bk_finish_binds [of "others st" p m "(p, Inr (BkIssued pda sig uri h k))"]) (simp_all add: bk_finish_def)
    with c show ?thesis unfolding bk_issued_ok_def by blast
  qed
qed

section \<open>Properties\<close>

text \<open>C28. However concurrent issue requests and revocations interleave, two successful answers for the same
  kind and binding key name the same AgentCard and the same credential, and keys of different kinds never
  meet in the store.\<close>

theorem bank_answers_agree:
  assumes "issuance_run bk_start bk_finish bk_aux st0 st ps rs" "r \<in> set rs" "r' \<in> set rs"
    "bk_success r = Some (k, b)" "bk_success r' = Some (k, b')"
  shows "b = b' \<and> bk_binding st k = Some b \<and> (bk_key x y = bk_key x' y' \<longleftrightarrow> x = x' \<and> y = y')"
  using bank.answers_agree [OF assms] bank.answers_bound [OF assms(1,2,4)] bk_key_inject by simp

theorem bank_answers_agree_witness:
  "let p = \<lparr>bkp_kind = CardDebit, bkp_key = ''k'', bkp_card = ''card''\<rparr>;
       (r, st) = bk_finish Map.empty p (Inr (\<lparr>cr_credentialPda = ''pda'', cr_txSignature = ''tx''\<rparr>, ''uri'', ''h'', 0))
   in bk_success r = Some ((CardDebit, ''k''), ''card'', ''pda'') \<and> bk_binding st (CardDebit, ''k'') = Some (''card'', ''pda'')"
proof -
  define p where "p = \<lparr>bkp_kind = CardDebit, bkp_key = ''k'', bkp_card = ''card''\<rparr>"
  define m :: "(bank_error, bank_minted) result"
    where "m = Inr (\<lparr>cr_credentialPda = ''pda'', cr_txSignature = ''tx''\<rparr>, ''uri'', ''h'', 0)"
  obtain r st where f: "bk_finish Map.empty p m = (r, st)" by fastforce
  have s: "bk_success r = Some ((CardDebit, ''k''), ''card'', ''pda'')"
    using f by (auto simp: bk_finish_def bk_issue_finish_def m_def bk_store_defs p_def)
  have "bk_start Map.empty p = Inr p" by (simp add: bk_start_def bk_issue_start_def bk_get_def p_def)
  from run_single [of bk_start _ _ _ bk_finish, OF this f] have "issuance_run bk_start bk_finish bk_aux Map.empty st {#} [r]" .
  from bank_answers_agree [OF this _ _ s s] f s show ?thesis by (simp add: p_def m_def)
qed

text \<open>Newly issued checking, savings and card credentials: the pinned text is the canonical JSON of the
  credential built from the request, the transaction carries its hash, the schema of the kind and the
  requested card, it is the only transaction, and the store binds the key to that card and credential.\<close>

theorem bank_issued_claims:
  "(issueCheckingCredential sha d others ichk st tr = (Inr (BkIssued pda sig uri h k), st', tr') \<longrightarrow>
      bk_issued_ok sha \<lparr>bkp_kind = AccountChecking, bkp_key = bic_checkingAccountPda ichk, bkp_card = bic_subjectAgentCardPubkey ichk\<rparr>
        (buildAccountCheckingVc (bkd_issuerAuthorityPubkey d) ichk) tr tr' st' pda uri h)
   \<and> (issueSavingsCredential sha d others isav st tr = (Inr (BkIssued pda sig uri h k), st', tr') \<longrightarrow>
      bk_issued_ok sha \<lparr>bkp_kind = AccountSavings, bkp_key = bis_savingsAccountPda isav, bkp_card = bis_subjectAgentCardPubkey isav\<rparr>
        (buildAccountSavingsVc (bkd_issuerAuthorityPubkey d) isav) tr tr' st' pda uri h)
   \<and> (issueCardCredential sha d others icard st tr = (Inr (BkIssued pda sig uri h k), st', tr') \<longrightarrow>
      bk_issued_ok sha \<lparr>bkp_kind = CardDebit, bkp_key = bid_cardIdHash icard, bkp_card = bid_subjectAgentCardPubkey icard\<rparr>
        (buildCardDebitVc (bkd_issuerAuthorityPubkey d) icard) tr tr' st' pda uri h)"
  using bk_issued by (auto simp: issueCheckingCredential_def issueSavingsCredential_def issueCardCredential_def)

theorem bank_issued_claims_witness:
  "\<exists>st' tr' uri h. issueCheckingCredential (\<lambda>x. x) bk_example_deps (\<lambda>s. s) (bk_example_checking (JInt 5)) Map.empty []
       = (Inr (BkIssued ''pda'' ''tx'' uri h ''acc''), st', tr')
     \<and> bk_binding st' (AccountChecking, ''acc'') = Some (''card'', ''pda'')"
proof -
  have date: "toISOString 0 = Some ''1970-01-01T00:00:00.000Z''" by code_simp
  have "is_ok (jcsStringify (buildAccountCheckingVc ''auth'' (bk_example_checking (JInt 5)) ''1970-01-01T00:00:00.000Z''))"
    by (simp add: jcsStringify_is_ok buildAccountCheckingVc_def bank_vc_def bk_example_checking_def)
  then obtain c where "jcsStringify (buildAccountCheckingVc ''auth'' (bk_example_checking (JInt 5)) ''1970-01-01T00:00:00.000Z'') = Inr c"
    by (auto simp: is_ok_iff)
  then have "\<exists>st' tr' uri h. issueCheckingCredential (\<lambda>x. x) bk_example_deps (\<lambda>s. s) (bk_example_checking (JInt 5)) Map.empty []
       = (Inr (BkIssued ''pda'' ''tx'' uri h ''acc''), st', tr')"
    by (simp add: issueCheckingCredential_def bk_issueCredential_def bk_issue_start_def bk_example_deps_def date bk_store_defs
        bk_issue_mint_def bk_issue_finish_def) (simp add: bk_example_checking_def)
  then obtain st' tr' uri h where r: "issueCheckingCredential (\<lambda>x. x) bk_example_deps (\<lambda>s. s) (bk_example_checking (JInt 5)) Map.empty []
       = (Inr (BkIssued ''pda'' ''tx'' uri h ''acc''), st', tr')" by blast
  with bank_issued_claims [of "\<lambda>x. x" bk_example_deps "\<lambda>s. s" "bk_example_checking (JInt 5)" Map.empty "[]" "''pda''" "''tx''" uri h "''acc''" st' tr']
  show ?thesis by (auto simp: bk_issued_ok_def bk_example_checking_def)
qed

text \<open>A checking credential is printable just when its slot and opening balance are integers; a new
  request with any other number is refused before anything is pinned or submitted, and no row is stored.\<close>

theorem bank_fractional_refused:
  assumes "bk_get st AccountChecking (bic_checkingAccountPda i) = None" "\<not> isInteger (bic_openedSlot i) \<or> \<not> isInteger (bic_openingBalance i)"
  shows "\<exists>e. issueCheckingCredential sha d (\<lambda>s. s) i st tr = (Inl e, st, tr)"
proof -
  have "\<not> is_ok (jcsStringify (buildAccountCheckingVc (bkd_issuerAuthorityPubkey d) i date))" for date
    unfolding jcsStringify_is_ok using assms(2) by (auto simp: buildAccountCheckingVc_def bank_vc_def)
  then have "\<exists>e. jcsStringify (buildAccountCheckingVc (bkd_issuerAuthorityPubkey d) i date) = Inl e" for date
    by (metis is_ok_simps(2) sumE)
  then have mint: "bk_issue_mint sha d p (buildAccountCheckingVc (bkd_issuerAuthorityPubkey d) i date) tr = (Inl (BkUncaught ''Error''), tr)" for p date
    unfolding bk_issue_mint_def by (metis (no_types, lifting) sum.case(1))
  show ?thesis
    unfolding issueCheckingCredential_def bk_issueCredential_def bk_issue_start_def
    using assms(1) by (simp add: mint bk_issue_finish_def split: option.splits)
qed

theorem bank_fractional_refused_witness:
  "\<exists>e. issueCheckingCredential (\<lambda>x. x) bk_example_deps (\<lambda>s. s) (bk_example_checking (JFrac (1 / 2))) Map.empty [] = (Inl e, Map.empty, [])"
  by (rule bank_fractional_refused) (simp_all add: bk_get_def bk_example_checking_def)

end
