(* ===== verification/Bank_Tax.thy ===== *)
theory Bank_Tax
  imports Audit_Trail Json_Text Bank_Issuer
begin

text \<open>
  Tax statements of the bank BPP: \<^verbatim>\<open>keeper/bpps/bank/handlers/tax-1099-sketch.ts\<close> and its types. The statement of a year is
  built from the audit feed of the year's slots, canonicalised, pinned and issued; the calls of the pinner and the chain extend the trace.
  \<open>sha\<close> is SHA-256 on bytes. The feed builder is a dependency in the code; the theorems use the indexer of \<^verbatim>\<open>Audit_Trail\<close>.
\<close>

section \<open>Definitions\<close>

record Tax1099SketchRequest =
  txq_agentCardAuthority :: string
  txq_taxYear :: jsnumber
  txq_jurisdiction :: string
  txq_currency :: "string option"
  txq_formVariant :: "string option"
  txq_issuerAuthorityPubkey :: string
  txq_networkPubkey :: string

record Tax1099Totals =
  txt_totalIncome :: string
  txt_totalFees :: string
  txt_totalInterestPaid :: string
  txt_totalWithholding :: string
  txt_transactionCount :: nat
  txt_digestRootBase58 :: string

datatype Tax1099SketchErrorKind = TxInvalidRequest | TxNoActivity | TxIndexerFailed | TxPinFailed | TxChainFailed

datatype tax_error = Tax1099SketchError Tax1099SketchErrorKind "string option" | TaxUncaught string

record Tax1099SketchDeps =
  txd_buildAuditFeed :: "string \<Rightarrow> BuildAuditFeedOpts \<Rightarrow> (audit_error, AuditFeed) result"
  txd_chain :: "(issue_input, chain_result) dep"
  txd_pinner :: "(string, string) dep"
  txd_nowUnix :: "trace \<Rightarrow> int"
  txd_slotsPerYear :: "int option"
  txd_firstSlotOfYear :: "(int \<Rightarrow> int) option"

record Tax1099SketchResponse =
  txr_credentialPda :: string
  txr_txSignature :: string
  txr_claimUri :: string
  txr_claimHashHex :: string
  txr_schemaIdHex :: string
  txr_vc :: json
  txr_totals :: Tax1099Totals

definition sha256Hex :: "(nat list \<Rightarrow> nat list) \<Rightarrow> string \<Rightarrow> string" where
  "sha256Hex sha input = to_hex (sha (utf8 input))"

text \<open>\<open>while (num > 0n)\<close>: the digits of the number, lowest first.\<close>

fun base58_loop :: "nat \<Rightarrow> nat list" where
  "base58_loop num = (if num = 0 then [] else num mod 58 # base58_loop (num div 58))"

declare base58_loop.simps [simp del]

text \<open>The digest is never empty: of no bytes \<open>BigInt\<close> would throw.\<close>

definition base58Encode :: "nat list \<Rightarrow> string" where
  "base58Encode bytes = replicate (length (takeWhile (\<lambda>b. b = 0) bytes)) (CHR ''1'')
     @ map (\<lambda>d. BASE58_ALPHABET ! d) (rev (base58_loop (numeral_val 256 (rev bytes))))"

definition tax1099SchemaIdHex :: "(nat list \<Rightarrow> nat list) \<Rightarrow> string \<Rightarrow> int \<Rightarrow> string" where
  "tax1099SchemaIdHex sha jurisdiction taxYear =
     sha256Hex sha (''eto.beckn.schema.tax.1099.'' @ to_lower jurisdiction @ ''.'' @ number_toString (JInt taxYear) @ ''.v1'')"

definition DEFAULT_SLOTS_PER_YEAR :: int where
  "DEFAULT_SLOTS_PER_YEAR = 78840000"

definition defaultFirstSlotOfYear :: "int \<Rightarrow> int" where
  "defaultFirstSlotOfYear year = (year - 2024) * DEFAULT_SLOTS_PER_YEAR"

fun stage_string :: "KytStageWire \<Rightarrow> string" where
  "stage_string St_init = ''init''"
| "stage_string St_confirm = ''confirm''"
| "stage_string St_rate = ''rate''"

fun party_string :: "CounterpartyWire \<Rightarrow> string" where
  "party_string Bap = ''bap''"
| "party_string Bpp = ''bpp''"

text \<open>The event objects as the feed builder makes them, members in their order.\<close>

fun event_json :: "AuditFeedEvent \<Rightarrow> json" where
  "event_json (KytEv e) = JObj [(''kind'', JStr ''kyt''), (''stage'', JStr (stage_string (fk_stage e))),
     (''txSignature'', JStr (fk_txSignature e)), (''slot'', JNum (JInt (fk_slot e))), (''timestamp'', JStr (fk_timestamp e)),
     (''counterparty'', JObj [(''party'', JStr (party_string (fk_cp_party e))), (''authority'', JStr (fk_cp_authority e)),
        (''credPointers'', JArr (map JStr (fk_cp_credPointers e)))]),
     (''selfCredPointers'', JArr (map JStr (fk_selfCredPointers e)))]"
| "event_json (RevEv r) = JObj [(''kind'', JStr ''revocation''), (''slot'', JNum (JInt (fr_slot r))), (''oracle'', JStr (fr_oracle r)),
     (''network'', JStr (fr_network r)), (''root'', JStr (fr_root r)), (''leaves'', JNum (JInt (fr_leaves r)))]"

definition reduceAuditFeedToTotals :: "(nat list \<Rightarrow> nat list) \<Rightarrow> AuditFeed \<Rightarrow> (tax_error, Tax1099Totals) result" where
  "reduceAuditFeedToTotals sha feed = (
     if fs_kytCount (af_summary feed) = 0 \<and> fs_revocationCount (af_summary feed) = 0
     then Inl (Tax1099SketchError TxNoActivity None)
     else Inr \<lparr>txt_totalIncome = ''0.00'', txt_totalFees = ''0.00'', txt_totalInterestPaid = ''0.00'', txt_totalWithholding = ''0.00'',
       txt_transactionCount = fs_kytCount (af_summary feed),
       txt_digestRootBase58 = base58Encode (sha (utf8 (json_stringify (JArr (map event_json (af_events feed))))))\<rparr>)"

record BuildVcInput =
  bvi_agentCardAuthority :: string
  bvi_taxYear :: int
  bvi_jurisdiction :: string
  bvi_currency :: string
  bvi_formVariant :: string
  bvi_totals :: Tax1099Totals
  bvi_issuerAuthorityPubkey :: string
  bvi_networkPubkey :: string
  bvi_nowUnix :: int

text \<open>The members of the envelope without the proof, and the proof.\<close>

definition tax_claim :: "BuildVcInput \<Rightarrow> string \<Rightarrow> (string \<times> json) list" where
  "tax_claim i issuanceDate = [
     (''@context'', JArr [JStr ''https://www.w3.org/2018/credentials/v1'', JStr ''https://schema.eto.dev/banking/tax-1099/v1'']),
     (''type'', JArr [JStr ''VerifiableCredential'', JStr ''Tax1099Credential'']),
     (''issuer'', JStr ''did:eto:bank:eto-reference''),
     (''issuanceDate'', JStr issuanceDate),
     (''credentialSubject'', JObj [
        (''id'', JStr (''did:eto:agentcard:'' @ bvi_agentCardAuthority i)),
        (''type'', JStr ''Tax1099Statement''),
        (''taxYear'', JNum (JInt (bvi_taxYear i))),
        (''jurisdiction'', JStr (bvi_jurisdiction i)),
        (''currency'', JStr (bvi_currency i)),
        (''formVariant'', JStr (bvi_formVariant i)),
        (''totalIncome'', JStr (txt_totalIncome (bvi_totals i))),
        (''totalFees'', JStr (txt_totalFees (bvi_totals i))),
        (''totalInterestPaid'', JStr (txt_totalInterestPaid (bvi_totals i))),
        (''totalWithholding'', JStr (txt_totalWithholding (bvi_totals i))),
        (''transactionCount'', JNum (JInt (int (txt_transactionCount (bvi_totals i))))),
        (''periodStart'', JStr (number_toString (JInt (bvi_taxYear i)) @ ''-01-01T00:00:00Z'')),
        (''periodEnd'', JStr (number_toString (JInt (bvi_taxYear i)) @ ''-12-31T23:59:59Z''))]),
     (''evidence'', JArr [JObj [
        (''type'', JStr ''EtoChainEventDigest''),
        (''network'', JStr (bvi_networkPubkey i)),
        (''digestRoot'', JStr (txt_digestRootBase58 (bvi_totals i))),
        (''digestAlgorithm'', JStr ''sha256'')]]),
     (''issuerAuthority'', JStr (bvi_issuerAuthorityPubkey i))]"

definition buildTax1099Vc :: "BuildVcInput \<Rightarrow> json option" where
  "buildTax1099Vc i = (case toISOString (js_mul (bvi_nowUnix i) 1000) of None \<Rightarrow> None
     | Some issuanceDate \<Rightarrow> Some (JObj (tax_claim i issuanceDate @ [(''proof'', JObj [
         (''type'', JStr ''Ed25519Signature2020''),
         (''verificationMethod'', JStr ''did:eto:bank:eto-reference#issuer-authority''),
         (''proofValue'', JStr ''<unsigned-v0>'')])])))"

definition upper_letters :: "nat \<Rightarrow> string \<Rightarrow> bool" where
  "upper_letters n s = (length s = n \<and> list_all is_upper s)"

definition ALLOWED_FORM_VARIANTS :: "string list" where
  "ALLOWED_FORM_VARIANTS = [''1099-INT'', ''1099-MISC'', ''1099-NEC'', ''1099-K'']"

text \<open>The envelope without its proof.\<close>

fun without_proof :: "json \<Rightarrow> json" where
  "without_proof (JObj kvs) = JObj (filter (\<lambda>(k, _). k \<noteq> ''proof'') kvs)"
| "without_proof v = v"

text \<open>\<open>Number(n)\<close> of a big integer.\<close>

definition Number_bigint :: "int \<Rightarrow> int" where
  "Number_bigint n = \<lfloor>fl53 (of_int n)\<rfloor>"

definition runTax1099Sketch :: "(nat list \<Rightarrow> nat list) \<Rightarrow> Tax1099SketchDeps \<Rightarrow> Tax1099SketchRequest \<Rightarrow> trace
    \<Rightarrow> (tax_error, Tax1099SketchResponse) result \<times> trace" where
  "runTax1099Sketch sha d request tr = (
     let currency = (case txq_currency request of None \<Rightarrow> ''USD'' | Some c \<Rightarrow> c);
         formVariant = (case txq_formVariant request of None \<Rightarrow> ''1099-MISC'' | Some v \<Rightarrow> v);
         jurisdiction = txq_jurisdiction request; authority = txq_agentCardAuthority request;
         invalid = (\<lambda>why. (Inl (Tax1099SketchError TxInvalidRequest (Some why)), tr))
     in if authority = [] then invalid ''empty_authority''
     else (case txq_taxYear request of JInt taxYear \<Rightarrow>
       if taxYear < 2024 then invalid ''invalid_tax_year''
       else if \<not> upper_letters 2 jurisdiction then invalid ''invalid_jurisdiction''
       else if \<not> upper_letters 3 currency then invalid ''invalid_currency''
       else if formVariant \<notin> set ALLOWED_FORM_VARIANTS then invalid ''invalid_form_variant''
       else let firstSlotOfYear = (case txd_firstSlotOfYear d of None \<Rightarrow> defaultFirstSlotOfYear | Some f \<Rightarrow> f);
                slotsPerYear = (case txd_slotsPerYear d of None \<Rightarrow> DEFAULT_SLOTS_PER_YEAR | Some n \<Rightarrow> n);
                sinceSlotBig = firstSlotOfYear taxYear; untilSlotBig = sinceSlotBig + slotsPerYear
       in (case txd_buildAuditFeed d authority \<lparr>bo_sinceSlot = Some (JInt (Number_bigint sinceSlotBig)),
               bo_untilSlot = Some (JInt (Number_bigint untilSlotBig)), bo_issuerAllowlist = Some [txq_issuerAuthorityPubkey request]\<rparr> of
         Inl _ \<Rightarrow> (Inl (Tax1099SketchError TxIndexerFailed None), tr)
       | Inr feed \<Rightarrow> (case reduceAuditFeedToTotals sha feed of Inl e \<Rightarrow> (Inl e, tr)
       | Inr totals \<Rightarrow> (case buildTax1099Vc \<lparr>bvi_agentCardAuthority = authority, bvi_taxYear = taxYear, bvi_jurisdiction = jurisdiction,
             bvi_currency = currency, bvi_formVariant = formVariant, bvi_totals = totals,
             bvi_issuerAuthorityPubkey = txq_issuerAuthorityPubkey request, bvi_networkPubkey = txq_networkPubkey request,
             bvi_nowUnix = txd_nowUnix d tr\<rparr> of None \<Rightarrow> (Inl (TaxUncaught ''RangeError''), tr)
       | Some vc \<Rightarrow> (case jcsStringify (without_proof vc) of Inl _ \<Rightarrow> (Inl (TaxUncaught ''Error''), tr)
       | Inr claimJcs \<Rightarrow>
         let claimHashHex = sha256Hex sha claimJcs; tr1 = tr @ [EPin claimJcs]
         in (case txd_pinner d tr claimJcs of Inl _ \<Rightarrow> (Inl (Tax1099SketchError TxPinFailed None), tr1)
         | Inr claimUri \<Rightarrow>
           let schemaIdHex = tax1099SchemaIdHex sha jurisdiction taxYear;
               input = \<lparr>ii_subject = authority, ii_schemaId = schemaIdHex, ii_claimUri = claimUri, ii_claimHash = claimHashHex,
                 ii_validFromSlot = untilSlotBig, ii_validUntilSlot = 0\<rparr>;
               tr2 = tr1 @ [EIssue input]
           in (case txd_chain d tr1 input of Inl _ \<Rightarrow> (Inl (Tax1099SketchError TxChainFailed None), tr2)
             | Inr chainResult \<Rightarrow> (Inr \<lparr>txr_credentialPda = cr_credentialPda chainResult, txr_txSignature = cr_txSignature chainResult,
                 txr_claimUri = claimUri, txr_claimHashHex = claimHashHex, txr_schemaIdHex = schemaIdHex, txr_vc = vc,
                 txr_totals = totals\<rparr>, tr2)))))))
     | _ \<Rightarrow> invalid ''invalid_tax_year''))"

section \<open>Lemmas\<close>

lemma base58_loop_val: "numeral_val 58 (base58_loop n) = n"
  by (induction n rule: base58_loop.induct) (subst base58_loop.simps, simp)

lemma base58_loop_digits: "d \<in> set (base58_loop n) \<Longrightarrow> d < 58"
  by (induction n rule: base58_loop.induct) (subst (asm) base58_loop.simps, auto split: if_splits)

lemma base58_loop_top: "no_leading_zero (base58_loop n)"
proof (induction n rule: base58_loop.induct)
  case (1 n)
  show ?case
  proof (cases "n = 0")
    case False
    have "base58_loop (n div 58) = [] \<Longrightarrow> n mod 58 \<noteq> 0"
      using False base58_loop_val [of "n div 58"] by (metis div_mult_mod_eq mult_0 add_cancel_right_right numeral_val.simps(1) mult.commute)
    then show ?thesis using 1 [OF False] by (subst base58_loop.simps) (auto simp: no_leading_zero_def)
  qed (simp add: no_leading_zero_def base58_loop.simps)
qed

lemma takeWhile_zeros: "bs = replicate (length (takeWhile (\<lambda>b. b = 0) bs)) 0 @ dropWhile (\<lambda>b. b = (0 :: nat)) bs"
  by (induction bs) auto

lemma numeral_val_zeros: "numeral_val b (xs @ replicate n 0) = numeral_val b xs"
  by (induction n) (simp_all add: numeral_val_append replicate_append_same [symmetric])

lemma lookup_alphabet: "d < 58 \<Longrightarrow> BASE58_LOOKUP (BASE58_ALPHABET ! d) = Some d"
proof -
  have "list_all (\<lambda>d. BASE58_LOOKUP (BASE58_ALPHABET ! d) = Some d) [0 ..< 58]" by code_simp
  then show "d < 58 \<Longrightarrow> ?thesis" by (simp add: list_all_iff)
qed

lemma base58_digits_total: "\<forall>c \<in> set s. BASE58_LOOKUP c \<noteq> None \<Longrightarrow> \<exists>out. base58_digits s bs = Some out"
  by (induction s arbitrary: bs) auto

text \<open>The decoder of \<^verbatim>\<open>civic.ts\<close> reads back what the encoder of this file writes.\<close>

lemma base58_roundtrip:
  assumes "bytes \<noteq> []" "\<forall>b \<in> set bytes. b < 256"
  shows "base58Decode (base58Encode bytes) = Some bytes"
proof -
  define z where "z = length (takeWhile (\<lambda>b. b = 0) bytes)"
  define bs where "bs = dropWhile (\<lambda>b. b = (0 :: nat)) bytes"
  define ds where "ds = base58_loop (numeral_val 256 (rev bytes))"
  define t where "t = map (\<lambda>d. BASE58_ALPHABET ! d) (rev ds)"
  have bytes: "bytes = replicate z 0 @ bs" unfolding z_def bs_def by (rule takeWhile_zeros)
  have enc: "base58Encode bytes = replicate z (CHR ''1'') @ t" by (simp add: base58Encode_def z_def ds_def t_def)
  have digits: "\<forall>d \<in> set ds. d < 58" using base58_loop_digits by (auto simp: ds_def)
  have look: "map BASE58_LOOKUP t = map Some (rev ds)"
    unfolding t_def map_map using digits by (intro map_cong) (auto simp: lookup_alphabet)
  have head: "t = [] \<or> hd t \<noteq> CHR ''1''"
  proof (cases "ds = []")
    case False
    then have "hd t = BASE58_ALPHABET ! last ds" by (simp add: t_def hd_map hd_rev)
    moreover have "last ds \<noteq> 0" "last ds < 58" using False base58_loop_top digits by (auto simp: no_leading_zero_def ds_def)
    ultimately show ?thesis using lookup_alphabet [of "last ds"] BASE58_LOOKUP_zero [of "CHR ''1''"] by auto
  qed (simp add: t_def)
  have one: "takeWhile (\<lambda>c. c = CHR ''1'') (replicate z (CHR ''1'') @ t) = replicate z (CHR ''1'')"
    using head by (induction z) (cases t, auto)
  have "\<forall>c \<in> set t. BASE58_LOOKUP c \<noteq> None"
  proof
    fix c assume "c \<in> set t"
    then have "BASE58_LOOKUP c \<in> set (map Some (rev ds))" using look by (metis image_eqI list.set_map)
    then show "BASE58_LOOKUP c \<noteq> None" by auto
  qed
  then obtain out where out: "base58_digits t [] = Some out" using base58_digits_total by blast
  from base58_digits_spec [OF out] obtain vs where d: "no_leading_zero out" "\<forall>b \<in> set out. b < 256"
    "map BASE58_LOOKUP t = map Some vs" "numeral_val 256 out = numeral_val 58 (rev vs)"
    by (auto simp: no_leading_zero_def)
  have "vs = rev ds" using d(3) look by (metis list.inj_map_strong option.inject)
  then have "numeral_val 256 out = numeral_val 256 (rev bytes)" using d(4) by (simp add: ds_def base58_loop_val)
  also have "\<dots> = numeral_val 256 (rev bs)" by (simp add: bytes numeral_val_zeros)
  finally have "out = rev bs"
  proof (intro numeral_val_inject [of 256 out "rev bs"])
    show "no_leading_zero (rev bs)"
    proof (cases "bs = []")
      case False
      then have "hd bs \<noteq> 0" unfolding bs_def using hd_dropWhile by blast
      then show ?thesis by (simp add: no_leading_zero_def last_rev)
    qed (simp add: no_leading_zero_def)
    show "\<forall>d \<in> set (rev bs). d < 256" using assms(2) by (simp add: bytes)
  qed (use d in simp_all)
  moreover have "replicate z (CHR ''1'') @ t \<noteq> []"
  proof
    assume e: "replicate z (CHR ''1'') @ t = []"
    then have "ds = []" "z = 0" by (simp_all add: t_def)
    then have "numeral_val 256 (rev bytes) = 0" using base58_loop_val [of "numeral_val 256 (rev bytes)"] by (simp add: ds_def)
    then have "numeral_val 256 (rev bs) = 0" by (simp add: bytes numeral_val_zeros)
    moreover have "bs = bytes" using bytes \<open>z = 0\<close> by simp
    ultimately show False
      using assms(1) numeral_val_pos [of 256 "rev bs"] hd_dropWhile [of "\<lambda>b. b = 0" bytes] by (auto simp: no_leading_zero_def last_rev bs_def)
  qed
  ultimately have "base58Decode (base58Encode bytes) = Some (replicate z 0 @ bs)"
    unfolding enc base58Decode_def using out one by auto
  then show ?thesis using bytes by simp
qed

text \<open>The window of a year.\<close>

lemma Number_bigint_exact: "\<bar>n\<bar> \<le> 2 ^ 53 \<Longrightarrow> Number_bigint n = n"
  using fl53_int [of n] by (simp add: Number_bigint_def)

definition year_opts :: "int \<Rightarrow> string \<Rightarrow> BuildAuditFeedOpts" where
  "year_opts y issuer = \<lparr>bo_sinceSlot = Some (JInt ((y - 2024) * 78840000)), bo_untilSlot = Some (JInt ((y - 2023) * 78840000)),
     bo_issuerAllowlist = Some [issuer]\<rparr>"

lemma year_bounds:
  assumes "2024 \<le> y" "y \<le> 10 ^ 8"
  shows "\<lparr>bo_sinceSlot = Some (JInt (Number_bigint (defaultFirstSlotOfYear y))),
      bo_untilSlot = Some (JInt (Number_bigint (defaultFirstSlotOfYear y + DEFAULT_SLOTS_PER_YEAR))), bo_issuerAllowlist = Some [issuer]\<rparr> = year_opts y issuer"
proof -
  have "Number_bigint ((y - 2024) * 78840000) = (y - 2024) * 78840000"
    using assms by (intro Number_bigint_exact) simp
  moreover have "Number_bigint ((y - 2024) * 78840000 + 78840000) = (y - 2023) * 78840000"
    using assms by (subst Number_bigint_exact) simp_all
  ultimately show ?thesis by (simp add: year_opts_def defaultFirstSlotOfYear_def DEFAULT_SLOTS_PER_YEAR_def)
qed

lemma le_div_iff_int: "0 < c \<Longrightarrow> m \<le> k div c \<longleftrightarrow> m * c \<le> k" for c :: int
proof
  assume "0 < c" "m \<le> k div c"
  then have "m * c \<le> k div c * c" by (intro mult_right_mono) simp_all
  also have "\<dots> \<le> k" using \<open>0 < c\<close> by (simp add: minus_mod_eq_div_mult [symmetric])
  finally show "m * c \<le> k" .
next
  assume "0 < c" "m * c \<le> k"
  then have "m * c div c \<le> k div c" by (intro zdiv_mono1)
  then show "m \<le> k div c" using \<open>0 < c\<close> by simp
qed

lemma div_window:
  fixes c :: int
  assumes "0 < c"
  shows "k div c = m \<longleftrightarrow> m * c \<le> k \<and> k < (m + 1) * c"
proof -
  have "k div c = m \<longleftrightarrow> m \<le> k div c \<and> \<not> m + 1 \<le> k div c" by linarith
  then show ?thesis using le_div_iff_int [OF assms] by (simp only: not_le)
qed

lemma in_year:
  assumes "slotNumber n"
  shows "withinBounds n (query_of (year_opts y issuer)) \<longleftrightarrow> int_of n div 78840000 = y - 2024"
proof -
  obtain k where n: "n = JInt k" using assms by (cases n) (simp_all add: slotNumber_def)
  have "k div 78840000 = y - 2024 \<longleftrightarrow> (y - 2024) * 78840000 \<le> k \<and> k < (y - 2024 + 1) * 78840000" by (rule div_window) simp
  moreover have "y - 2024 + 1 = y - 2023" by simp
  ultimately have "k div 78840000 = y - 2024 \<longleftrightarrow> (y - 2024) * 78840000 \<le> k \<and> k < (y - 2023) * 78840000" by (simp only:)
  then show ?thesis
    unfolding n withinBounds_def query_of_def year_opts_def int_of_def by (auto simp add: js_leq_def)
qed

lemma kyt_count_of_year:
  assumes "InMemoryKytEventSource_new ts rs = Inr s" "buildAuditFeed (in_memory_source s) clock a (year_opts y issuer) = Inr feed"
  shows "fs_kytCount (af_summary feed) = length (filter (\<lambda>t. involves a t \<and> int_of (kt_slot t) div 78840000 = y - 2024) ts)"
proof -
  note new = InMemoryKytEventSource_new_ok [OF assms(1)]
  note c = mem.feed_contents [OF new(1) assms(2)]
  have ok: "list_all kytTraceEventSchema (im_traces s)" using mem.traces_ok [OF new(1)] .
  have eq: "filter (\<lambda>t. involves a t \<and> withinBounds (kt_slot t) (query_of (year_opts y issuer))) (im_traces s)
    = filter (\<lambda>t. involves a t \<and> int_of (kt_slot t) div 78840000 = y - 2024) (im_traces s)"
  proof (rule filter_cong [OF refl])
    fix t assume "t \<in> set (im_traces s)"
    then have "slotNumber (kt_slot t)" using ok by (simp add: list_all_iff kytTraceEventSchema_def)
    then show "(involves a t \<and> withinBounds (kt_slot t) (query_of (year_opts y issuer))) = (involves a t \<and> int_of (kt_slot t) div 78840000 = y - 2024)"
      by (simp only: in_year)
  qed
  have "fs_kytCount (af_summary feed) = fs_kytCount (summary_of (feed_lines a (year_opts y issuer) (im_traces s) (im_revocations s)))"
    using c(3) summary_of_mset [OF c(1)] by simp
  also have "\<dots> = length (filter (\<lambda>t. involves a t \<and> withinBounds (kt_slot t) (query_of (year_opts y issuer))) (im_traces s))"
    by (simp only: feed_lines_def map_map [symmetric] summary_of_lines) simp
  also have "\<dots> = length (filter (\<lambda>t. involves a t \<and> int_of (kt_slot t) div 78840000 = y - 2024) ts)"
    unfolding eq by (simp only: size_mset [symmetric] mset_filter new(2))
  finally show ?thesis .
qed

section \<open>Properties\<close>

text \<open>C18. With the indexer of the program, the statement of a year counts each recorded trace of the authority whose slot lies in that year, so that every trace belongs to exactly one year; its evidence digest decodes to the hash of the listed events, and exactly one credential is pinned and submitted, with the hash of the canonical statement, valid from the end of the year.\<close>

theorem tax_statement_exact:
  assumes "InMemoryKytEventSource_new ts rs = Inr s" "txd_buildAuditFeed d = buildAuditFeed (in_memory_source s) clock"
    and "txd_firstSlotOfYear d = None" "txd_slotsPerYear d = None" "txq_taxYear req = JInt y" "y \<le> 10 ^ 8"
    and "runTax1099Sketch sha d req tr = (Inr resp, tr')" "\<forall>x. sha x \<noteq> [] \<and> (\<forall>b \<in> set (sha x). b < 256)"
  shows "txt_transactionCount (txr_totals resp)
      = length (filter (\<lambda>t. involves (txq_agentCardAuthority req) t \<and> int_of (kt_slot t) div 78840000 + 2024 = y) ts)
    \<and> (\<exists>feed. buildAuditFeed (in_memory_source s) clock (txq_agentCardAuthority req) (year_opts y (txq_issuerAuthorityPubkey req)) = Inr feed
         \<and> base58Decode (txt_digestRootBase58 (txr_totals resp)) = Some (sha (utf8 (json_stringify (JArr (map event_json (af_events feed)))))))
    \<and> (\<exists>c input. jcsStringify (without_proof (txr_vc resp)) = Inr c \<and> tr' = tr @ [EPin c, EIssue input]
         \<and> txr_claimHashHex resp = sha256Hex sha c \<and> ii_claimHash input = sha256Hex sha c \<and> ii_claimUri input = txr_claimUri resp
         \<and> ii_subject input = txq_agentCardAuthority req \<and> ii_schemaId input = tax1099SchemaIdHex sha (txq_jurisdiction req) y
         \<and> ii_validFromSlot input = (y - 2023) * 78840000)"
proof -
  let ?a = "txq_agentCardAuthority req" and ?opts = "year_opts y (txq_issuerAuthorityPubkey req)"
  have y: "2024 \<le> y" using assms(7) by (auto simp: runTax1099Sketch_def assms(5) Let_def split: if_splits)
  note b = year_bounds [OF y assms(6)]
  obtain feed totals where f: "buildAuditFeed (in_memory_source s) clock ?a ?opts = Inr feed" "reduceAuditFeedToTotals sha feed = Inr totals"
    "txr_totals resp = totals"
    using assms(7) y by (auto simp: runTax1099Sketch_def assms(2-5) b Let_def split: if_splits sum.splits option.splits)
  have "txt_transactionCount totals = fs_kytCount (af_summary feed)"
    "base58Decode (txt_digestRootBase58 totals) = Some (sha (utf8 (json_stringify (JArr (map event_json (af_events feed))))))"
    using f(2) assms(8) by (auto simp: reduceAuditFeedToTotals_def base58_roundtrip split: if_splits)
  moreover have "int_of n div 78840000 + 2024 = y \<longleftrightarrow> int_of n div 78840000 = y - 2024" for n by auto
  moreover have "\<exists>c input. jcsStringify (without_proof (txr_vc resp)) = Inr c \<and> tr' = tr @ [EPin c, EIssue input]
         \<and> txr_claimHashHex resp = sha256Hex sha c \<and> ii_claimHash input = sha256Hex sha c \<and> ii_claimUri input = txr_claimUri resp
         \<and> ii_subject input = ?a \<and> ii_schemaId input = tax1099SchemaIdHex sha (txq_jurisdiction req) y
         \<and> ii_validFromSlot input = (y - 2023) * 78840000"
    using assms(7) y by (auto simp: runTax1099Sketch_def assms(2-5) b Let_def defaultFirstSlotOfYear_def DEFAULT_SLOTS_PER_YEAR_def
        split: if_splits sum.splits option.splits)
  ultimately show ?thesis using f kyt_count_of_year [OF assms(1) f(1)] by simp
qed

definition demo_tax :: "Tax1099SketchRequest" where
  "demo_tax = \<lparr>txq_agentCardAuthority = ''B'', txq_taxYear = JInt 2025, txq_jurisdiction = ''US'', txq_currency = None, txq_formVariant = None,
     txq_issuerAuthorityPubkey = ''R'', txq_networkPubkey = ''N''\<rparr>"

definition demo_tax_deps :: "InMemoryKytEventSource \<Rightarrow> Tax1099SketchDeps" where
  "demo_tax_deps s = \<lparr>txd_buildAuditFeed = buildAuditFeed (in_memory_source s) 0, txd_chain = (\<lambda>tr i. Inr \<lparr>cr_credentialPda = ''pda'', cr_txSignature = ''tx''\<rparr>),
     txd_pinner = (\<lambda>tr c. Inr ''uri''), txd_nowUnix = (\<lambda>tr. 0), txd_slotsPerYear = None, txd_firstSlotOfYear = None\<rparr>"

lemma demo_tax_source: "\<exists>s. InMemoryKytEventSource_new [demo_trace St_confirm ''4'' 78840001, demo_trace St_init ''3'' 9] None = Inr s"
proof -
  have "base58String ''A''" "base58String ''B''" "base58String ''3''" "base58String ''4''" by code_simp+
  then show ?thesis
    by (simp add: InMemoryKytEventSource_new_def kytTraceEventSchema_def partyTraceWireSchema_def demo_trace_def demo_party_def slotNumber_def Let_def)
qed

lemma demo_tax_feed:
  assumes "InMemoryKytEventSource_new [demo_trace St_confirm ''4'' 78840001, demo_trace St_init ''3'' 9] None = Inr s"
  shows "\<exists>feed. buildAuditFeed (in_memory_source s) 0 ''B'' (year_opts 2025 ''R'') = Inr feed \<and> fs_kytCount (af_summary feed) = 1"
proof -
  note new = InMemoryKytEventSource_new_ok [OF assms]
  have print: "unixSecondsToIso 0 \<noteq> None" "toISOString 0 \<noteq> None" "base58String ''B''" by code_simp+
  have z: "int_of (kt_timestamp (demo_trace st sig slot)) = 0" for st sig slot by (simp add: demo_trace_def int_of_def)
  have "set (im_traces s) = {demo_trace St_confirm ''4'' 78840001, demo_trace St_init ''3'' 9}" using mset_eq_setD [OF new(2)] by simp
  then have "t = demo_trace St_confirm ''4'' 78840001 \<or> t = demo_trace St_init ''3'' 9" if "t \<in> set (im_traces s)" for t
    using that by (simp only: insert_iff empty_iff simp_thms)
  then have "int_of (kt_timestamp t) = 0" if "t \<in> set (im_traces s)" for t using that z by metis
  then have "mem.printable s ''B'' (year_opts 2025 ''R'')" using print(1) by (simp add: mem.printable_def mem.relevant_def)
  moreover have "assertBounds (year_opts 2025 ''R'') = Inr ()" by (simp add: assertBounds_def year_opts_def)
  ultimately obtain feed where f: "buildAuditFeed (in_memory_source s) 0 ''B'' (year_opts 2025 ''R'') = Inr feed"
    using mem.feed_built_iff [OF new(1), of 0 "''B''" "year_opts 2025 ''R''"] print by (auto simp: is_ok_iff)
  moreover have "fs_kytCount (af_summary feed) = 1"
    using kyt_count_of_year [OF assms f] by (simp add: demo_trace_def demo_party_def involves_def int_of_def)
  ultimately show ?thesis by blast
qed

lemma demo_tax_ok:
  assumes "InMemoryKytEventSource_new [demo_trace St_confirm ''4'' 78840001, demo_trace St_init ''3'' 9] None = Inr s"
  shows "\<exists>resp tr'. runTax1099Sketch (\<lambda>x. [7]) (demo_tax_deps s) demo_tax [] = (Inr resp, tr')"
proof -
  obtain feed where f: "buildAuditFeed (in_memory_source s) 0 ''B'' (year_opts 2025 ''R'') = Inr feed" "fs_kytCount (af_summary feed) = 1"
    using demo_tax_feed [OF assms] by blast
  obtain totals where t: "reduceAuditFeedToTotals (\<lambda>x. [7]) feed = Inr totals" using f(2) by (simp add: reduceAuditFeedToTotals_def)
  have date: "toISOString (js_mul 0 1000) = Some ''1970-01-01T00:00:00.000Z''" by code_simp
  have ok: "is_ok (jcsStringify (without_proof (JObj (tax_claim i d @ [(''proof'', p)]))))" for i d p
    unfolding jcsStringify_is_ok by (simp add: tax_claim_def)
  have lists: "upper_letters 2 ''US''" "upper_letters 3 ''USD''" "''1099-MISC'' \<in> set ALLOWED_FORM_VARIANTS" by code_simp+
  note b = year_bounds [of 2025 "''R''", simplified]
  let ?i = "\<lparr>bvi_agentCardAuthority = ''B'', bvi_taxYear = 2025, bvi_jurisdiction = ''US'',
             bvi_currency = ''USD'', bvi_formVariant = ''1099-MISC'', bvi_totals = totals,
             bvi_issuerAuthorityPubkey = ''R'', bvi_networkPubkey = ''N'', bvi_nowUnix = 0\<rparr>"
  obtain vc where vc: "buildTax1099Vc ?i = Some vc" "is_ok (jcsStringify (without_proof vc))"
    using date ok by (simp add: buildTax1099Vc_def)
  then obtain c where c: "jcsStringify (without_proof vc) = Inr c" by (auto simp: is_ok_iff)
  show ?thesis
    by (simp add: runTax1099Sketch_def demo_tax_def demo_tax_deps_def Let_def lists b f(1) t vc(1) c)
qed

theorem tax_statement_exact_witness:
  "\<exists>s resp tr'. InMemoryKytEventSource_new [demo_trace St_confirm ''4'' 78840001, demo_trace St_init ''3'' 9] None = Inr s
     \<and> runTax1099Sketch (\<lambda>x. [7]) (demo_tax_deps s) demo_tax [] = (Inr resp, tr') \<and> txt_transactionCount (txr_totals resp) = 1"
proof -
  obtain s where s: "InMemoryKytEventSource_new [demo_trace St_confirm ''4'' 78840001, demo_trace St_init ''3'' 9] None = Inr s"
    using demo_tax_source by blast
  then obtain resp tr' where r: "runTax1099Sketch (\<lambda>x. [7]) (demo_tax_deps s) demo_tax [] = (Inr resp, tr')"
    using demo_tax_ok by blast
  have "txt_transactionCount (txr_totals resp) = 1"
    using tax_statement_exact [OF s _ _ _ _ _ r, of 0 2025]
    by (simp add: demo_tax_deps_def demo_tax_def demo_trace_def demo_party_def involves_def int_of_def)
  with s r show ?thesis by blast
qed

end
