(* ===== verification/Usd_Ledger.thy ===== *)
theory Usd_Ledger
  imports Js_Number "HOL-Library.AList"
begin

text \<open>
  The JSON-file-backed USD ledger of \<^verbatim>\<open>keeper/bpps/bank/mock-usd-ledger.ts\<close>. Its state is the
  in-memory snapshot and the file. Every public operation runs behind the promise queue
  \<open>enqueue\<close>, so an operation is one atomic step and concurrent callers are some list of steps;
  an operation that throws leaves the queue usable.

  Balances are doubles: a credit adds with \<^const>\<open>js_add\<close>. The accounts object keeps its keys in
  insertion order, an association list (ids other than \<open>__proto__\<close>, which a JavaScript object
  literal treats specially). \<open>persist\<close> writes a temporary file and renames it, so a failed write
  leaves the old file: it is a parameter \<open>io\<close> that says whether the write fails.
\<close>

section \<open>Data\<close>

datatype RampDirection = Onramp | Offramp

fun zRampDirection :: "string \<Rightarrow> RampDirection option" where
  "zRampDirection s = (if s = ''onramp'' then Some Onramp else if s = ''offramp'' then Some Offramp else None)"

datatype ledger_error = TypeErr | RangeErr | ZodErr | InsufficientFunds string int int
  | LedgerCorrupt | IoErr string

record RampEvent =
  rev_id :: string
  rev_direction :: RampDirection
  rev_accountId :: string
  rev_amountCents :: int
  rev_eusdAmount :: string
  rev_memo :: "string option"
  rev_createdAt :: int

record LedgerSnapshot =
  accounts :: "(string \<times> int) list"
  ramps :: "RampEvent list"

text \<open>What the file holds: nothing, bytes that cannot be read, text that is not JSON, JSON without
  the snapshot's shape, or a value of that shape whose ranges are still unchecked.\<close>

datatype ledger_file = NoFile | Unreadable string | NotJson | BadShape | Stored LedgerSnapshot

record ledger =
  snap :: LedgerSnapshot
  disk :: ledger_file

text \<open>The arguments of \<open>recordRamp\<close>.\<close>

record ramp_args =
  ra_direction :: string
  ra_accountId :: string
  ra_amountCents :: jsnumber
  ra_eusdAmount :: string
  ra_memo :: "string option"

section \<open>Amounts and schemas\<close>

definition usd :: "jsnumber \<Rightarrow> (ledger_error, int) result" where
  "usd dollars = (case dollars of
       JNaN \<Rightarrow> Inl TypeErr
     | JInf _ \<Rightarrow> Inl TypeErr
     | JInt i \<Rightarrow> if i < 0 then Inl RangeErr
         else let cents = math_round (fl53 (of_int i * 100))
              in if isSafeInteger (JInt cents) then Inr cents else Inl RangeErr
     | JFrac q \<Rightarrow> if q < 0 then Inl RangeErr
         else let cents = math_round (fl53 (q * 100))
              in if isSafeInteger (JInt cents) then Inr cents else Inl RangeErr)"

definition zCents :: "int \<Rightarrow> bool" where
  "zCents n = (0 \<le> n \<and> isSafeInteger (JInt n))"

definition zAccountId :: "string \<Rightarrow> bool" where
  "zAccountId s = (1 \<le> length s)"

definition zRampEvent :: "RampEvent \<Rightarrow> bool" where
  "zRampEvent e = (1 \<le> length (rev_id e) \<and> zAccountId (rev_accountId e) \<and> zCents (rev_amountCents e)
     \<and> 1 \<le> length (rev_eusdAmount e) \<and> 0 \<le> rev_createdAt e)"

definition zAccountEntry :: "string \<times> int \<Rightarrow> bool" where
  "zAccountEntry kb = (zAccountId (fst kb) \<and> zCents (snd kb))"

definition zLedgerSnapshot :: "LedgerSnapshot \<Rightarrow> bool" where
  "zLedgerSnapshot s = (list_all zAccountEntry (accounts s) \<and> list_all zRampEvent (ramps s))"

definition emptySnapshot :: LedgerSnapshot where
  "emptySnapshot = \<lparr>accounts = [], ramps = []\<rparr>"

definition assertCents :: "jsnumber \<Rightarrow> (ledger_error, int) result" where
  "assertCents n = (case n of JInt i \<Rightarrow> if i < 0 \<or> \<not> isSafeInteger n then Inl RangeErr else Inr i | _ \<Rightarrow> Inl RangeErr)"

definition assertAccountId :: "string \<Rightarrow> (ledger_error, unit) result" where
  "assertAccountId s = (if s = [] then Inl TypeErr else Inr ())"

section \<open>Operations\<close>

text \<open>\<open>persist\<close>: \<open>io\<close> is \<open>Some\<close> message when the file system throws.\<close>

definition persist :: "string option \<Rightarrow> ledger \<Rightarrow> (ledger_error, unit) result \<times> ledger" where
  "persist io l = (case io of Some e \<Rightarrow> (Inl (IoErr e), l) | None \<Rightarrow> (Inr (), l\<lparr>disk := Stored (snap l)\<rparr>))"

definition open_ledger :: "string option \<Rightarrow> ledger_file \<Rightarrow> (ledger_error, ledger) result" where
  "open_ledger io f = (case f of
       NoFile \<Rightarrow> (case persist io \<lparr>snap = emptySnapshot, disk = NoFile\<rparr> of
                   (Inl e, _) \<Rightarrow> Inl e | (Inr _, l) \<Rightarrow> Inr l)
     | Unreadable e \<Rightarrow> Inl (IoErr e)
     | NotJson \<Rightarrow> Inl LedgerCorrupt
     | BadShape \<Rightarrow> Inl LedgerCorrupt
     | Stored s \<Rightarrow> if zLedgerSnapshot s then Inr \<lparr>snap = s, disk = f\<rparr> else Inl LedgerCorrupt)"

definition getBalance :: "ledger \<Rightarrow> string \<Rightarrow> int" where
  "getBalance l a = (case map_of (accounts (snap l)) a of None \<Rightarrow> 0 | Some b \<Rightarrow> b)"

definition set_balance :: "string \<Rightarrow> int \<Rightarrow> ledger \<Rightarrow> ledger" where
  "set_balance a b l = l\<lparr>snap := (snap l)\<lparr>accounts := AList.update a b (accounts (snap l))\<rparr>\<rparr>"

definition credit :: "string option \<Rightarrow> ledger \<Rightarrow> string \<Rightarrow> jsnumber \<Rightarrow> (ledger_error, int) result \<times> ledger" where
  "credit io l a n = (case assertAccountId a of Inl e \<Rightarrow> (Inl e, l) | Inr _ \<Rightarrow>
     (case assertCents n of Inl e \<Rightarrow> (Inl e, l) | Inr amountCents \<Rightarrow>
       let nxt = js_add (getBalance l a) amountCents; l1 = set_balance a nxt l
       in case persist io l1 of (Inl e, l2) \<Rightarrow> (Inl e, l2) | (Inr _, l2) \<Rightarrow> (Inr nxt, l2)))"

definition debit :: "string option \<Rightarrow> ledger \<Rightarrow> string \<Rightarrow> jsnumber \<Rightarrow> (ledger_error, int) result \<times> ledger" where
  "debit io l a n = (case assertAccountId a of Inl e \<Rightarrow> (Inl e, l) | Inr _ \<Rightarrow>
     (case assertCents n of Inl e \<Rightarrow> (Inl e, l) | Inr amountCents \<Rightarrow>
       let current = getBalance l a
       in if current < amountCents then (Inl (InsufficientFunds a amountCents current), l)
          else let nxt = js_sub current amountCents; l1 = set_balance a nxt l
               in case persist io l1 of (Inl e, l2) \<Rightarrow> (Inl e, l2) | (Inr _, l2) \<Rightarrow> (Inr nxt, l2)))"

text \<open>\<open>newId\<close> and \<open>nowSec\<close> are what \<open>idGen()\<close> and \<open>clock()\<close> return in this call.\<close>

definition recordRamp :: "string option \<Rightarrow> string \<Rightarrow> int \<Rightarrow> ledger \<Rightarrow> ramp_args \<Rightarrow> (ledger_error, RampEvent) result \<times> ledger" where
  "recordRamp io newId nowSec l args = (case zRampDirection (ra_direction args) of None \<Rightarrow> (Inl ZodErr, l) | Some dir \<Rightarrow>
     (case assertAccountId (ra_accountId args) of Inl e \<Rightarrow> (Inl e, l) | Inr _ \<Rightarrow>
     (case assertCents (ra_amountCents args) of Inl e \<Rightarrow> (Inl e, l) | Inr amt \<Rightarrow>
     if ra_eusdAmount args = [] then (Inl TypeErr, l)
     else let current = getBalance l (ra_accountId args)
     in if dir = Offramp \<and> current < amt then (Inl (InsufficientFunds (ra_accountId args) amt current), l)
        else let nxt = (if dir = Onramp then js_add current amt else js_sub current amt);
                 event = \<lparr>rev_id = newId, rev_direction = dir, rev_accountId = ra_accountId args,
                          rev_amountCents = amt, rev_eusdAmount = ra_eusdAmount args,
                          rev_memo = ra_memo args, rev_createdAt = nowSec\<rparr>;
                 l1 = set_balance (ra_accountId args) nxt l;
                 l2 = l1\<lparr>snap := (snap l1)\<lparr>ramps := ramps (snap l1) @ [event]\<rparr>\<rparr>
             in case persist io l2 of (Inl e, l3) \<Rightarrow> (Inl e, l3) | (Inr _, l3) \<Rightarrow> (Inr event, l3))))"

definition listRamps :: "ledger \<Rightarrow> string option \<Rightarrow> RampDirection option \<Rightarrow> RampEvent list" where
  "listRamps l acct dir = filter (\<lambda>r. (case acct of None \<Rightarrow> True | Some a \<Rightarrow> rev_accountId r = a)
                                     \<and> (case dir of None \<Rightarrow> True | Some d \<Rightarrow> rev_direction r = d)) (ramps (snap l))"

text \<open>A queued operation with what its environment does during the call, and a run of the queue.\<close>

datatype ledger_op = Credit "string option" string jsnumber | Debit "string option" string jsnumber
  | Ramp "string option" string int ramp_args

fun ledger_step :: "ledger \<Rightarrow> ledger_op \<Rightarrow> ledger" where
  "ledger_step l (Credit io a n) = snd (credit io l a n)"
| "ledger_step l (Debit io a n) = snd (debit io l a n)"
| "ledger_step l (Ramp io i t args) = snd (recordRamp io i t l args)"

definition enqueue_run :: "ledger \<Rightarrow> ledger_op list \<Rightarrow> ledger" where
  "enqueue_run l ops = foldl ledger_step l ops"

section \<open>Abstract specification\<close>

text \<open>What an operation does to the balance of \<open>a\<close>, in exact integers: the amount when the guards
  of the code pass, nothing otherwise.\<close>

fun ledger_delta :: "ledger \<Rightarrow> ledger_op \<Rightarrow> string \<Rightarrow> int" where
  "ledger_delta l (Credit io k n) a =
     (case n of JInt i \<Rightarrow> if a = k \<and> k \<noteq> [] \<and> zCents i then i else 0 | _ \<Rightarrow> 0)"
| "ledger_delta l (Debit io k n) a =
     (case n of JInt i \<Rightarrow> if a = k \<and> k \<noteq> [] \<and> zCents i \<and> i \<le> getBalance l k then - i else 0 | _ \<Rightarrow> 0)"
| "ledger_delta l (Ramp io u t args) a =
     (case ra_amountCents args of JInt i \<Rightarrow>
        if a = ra_accountId args \<and> a \<noteq> [] \<and> zCents i \<and> ra_eusdAmount args \<noteq> [] then
          (case zRampDirection (ra_direction args) of Some Onramp \<Rightarrow> i
             | Some Offramp \<Rightarrow> if i \<le> getBalance l a then - i else 0
             | None \<Rightarrow> 0)
        else 0
      | _ \<Rightarrow> 0)"

fun op_account :: "ledger_op \<Rightarrow> string" where
  "op_account (Credit io k n) = k"
| "op_account (Debit io k n) = k"
| "op_account (Ramp io u t args) = ra_accountId args"

fun op_io :: "ledger_op \<Rightarrow> string option" where
  "op_io (Credit io k n) = io"
| "op_io (Debit io k n) = io"
| "op_io (Ramp io u t args) = io"

text \<open>The side condition: the new balance is a safe integer, and for a ramp the id generator and the
  clock return what the schema accepts.\<close>

fun env_ok :: "ledger_op \<Rightarrow> bool" where
  "env_ok (Ramp io u t args) = (u \<noteq> [] \<and> 0 \<le> t)"
| "env_ok _ = True"

definition op_ok :: "ledger \<Rightarrow> ledger_op \<Rightarrow> bool" where
  "op_ok l x = (env_ok x \<and> getBalance l (op_account x) + ledger_delta l x (op_account x) \<le> MAX_SAFE_INTEGER)"

definition ledger_inv :: "ledger \<Rightarrow> bool" where
  "ledger_inv l = (zLedgerSnapshot (snap l) \<and> distinct (map fst (accounts (snap l))))"

text \<open>A side condition along a run, and the sum of the changes along a run.\<close>

fun run_ok :: "('s \<Rightarrow> 'x \<Rightarrow> bool) \<Rightarrow> ('s \<Rightarrow> 'x \<Rightarrow> 's) \<Rightarrow> 's \<Rightarrow> 'x list \<Rightarrow> bool" where
  "run_ok ok step s [] = True"
| "run_ok ok step s (x # xs) = (ok s x \<and> run_ok ok step (step s x) xs)"

fun run_sum :: "('s \<Rightarrow> 'x \<Rightarrow> 'a \<Rightarrow> int) \<Rightarrow> ('s \<Rightarrow> 'x \<Rightarrow> 's) \<Rightarrow> 's \<Rightarrow> 'x list \<Rightarrow> 'a \<Rightarrow> int" where
  "run_sum delta step s [] a = 0"
| "run_sum delta step s (x # xs) a = delta s x a + run_sum delta step (step s x) xs a"

text \<open>The double nearest to \<open>c\<close> cents in dollars.\<close>

definition dollars_of_cents :: "int \<Rightarrow> jsnumber" where
  "dollars_of_cents c = (let q = fl53 (of_int c / 100) in if of_int \<lfloor>q\<rfloor> = q then JInt \<lfloor>q\<rfloor> else JFrac q)"

section \<open>Interface: a book of balances\<close>

text \<open>The contract of one operation: under its side condition it keeps the invariant and changes each
  balance by the specified amount. A whole run then does so too.\<close>

locale balance_book =
  fixes inv :: "'s \<Rightarrow> bool" and ok :: "'s \<Rightarrow> 'x \<Rightarrow> bool" and step :: "'s \<Rightarrow> 'x \<Rightarrow> 's"
    and bal :: "'s \<Rightarrow> 'a \<Rightarrow> int" and delta :: "'s \<Rightarrow> 'x \<Rightarrow> 'a \<Rightarrow> int"
  assumes step_inv: "inv s \<Longrightarrow> ok s x \<Longrightarrow> inv (step s x)"
    and step_bal: "inv s \<Longrightarrow> ok s x \<Longrightarrow> bal (step s x) a = bal s a + delta s x a"
    and inv_bal: "inv s \<Longrightarrow> 0 \<le> bal s a"
begin

lemma run_inv: "inv s \<Longrightarrow> run_ok ok step s xs \<Longrightarrow> inv (foldl step s xs)"
  by (induction xs arbitrary: s) (auto simp: step_inv)

lemma run_bal: "inv s \<Longrightarrow> run_ok ok step s xs \<Longrightarrow> bal (foldl step s xs) a = bal s a + run_sum delta step s xs a"
  by (induction xs arbitrary: s) (auto simp: step_inv step_bal)

lemma run_nonneg: "inv s \<Longrightarrow> run_ok ok step s xs \<Longrightarrow> 0 \<le> bal s a + run_sum delta step s xs a"
  using run_inv run_bal inv_bal by metis

end

section \<open>Lemmas\<close>

lemmas ledger_defs = credit_def debit_def recordRamp_def persist_def assertCents_def assertAccountId_def
  Let_def

lemma assertCents_iff: "assertCents n = Inr i \<longleftrightarrow> n = JInt i \<and> zCents i"
  by (auto simp: assertCents_def zCents_def split: jsnumber.splits)

lemma zAccountId_iff: "zAccountId k \<longleftrightarrow> k \<noteq> []"
  by (cases k) (simp_all add: zAccountId_def)

lemma zCents_iff: "zCents i \<longleftrightarrow> 0 \<le> i \<and> i \<le> MAX_SAFE_INTEGER"
  by (auto simp: zCents_def)

lemma snap_set_balance [simp]:
  "accounts (snap (set_balance a b l)) = AList.update a b (accounts (snap l))"
  "ramps (snap (set_balance a b l)) = ramps (snap l)"
  "disk (set_balance a b l) = disk l"
  by (simp_all add: set_balance_def)

lemma getBalance_cong: "accounts (snap l) = accounts (snap l') \<Longrightarrow> getBalance l a = getBalance l' a"
  by (simp add: getBalance_def)

lemma getBalance_update:
  "accounts (snap l') = AList.update k b (accounts (snap l)) \<Longrightarrow> getBalance l' a = (if a = k then b else getBalance l a)"
  by (simp add: getBalance_def update_conv')

lemma zLedgerSnapshot_lookup: "zLedgerSnapshot s \<Longrightarrow> map_of (accounts s) a = Some b \<Longrightarrow> zCents b"
  by (auto simp: zLedgerSnapshot_def list_all_iff zAccountEntry_def dest!: map_of_SomeD)

lemma getBalance_bounds:
  "ledger_inv l \<Longrightarrow> 0 \<le> getBalance l a \<and> getBalance l a \<le> MAX_SAFE_INTEGER"
  by (auto simp: ledger_inv_def getBalance_def MAX_SAFE_INTEGER_def zCents_def
      dest!: zLedgerSnapshot_lookup split: option.splits)

lemma set_update_subset: "set (AList.update k b al) \<subseteq> insert (k, b) (set al)"
  by (induction al) auto

lemma accounts_update_valid:
  "list_all zAccountEntry al \<Longrightarrow> k \<noteq> [] \<Longrightarrow> zCents b \<Longrightarrow> list_all zAccountEntry (AList.update k b al)"
  using set_update_subset [of k b al] by (fastforce simp: list_all_iff zAccountEntry_def zAccountId_iff)

lemma ledger_inv_update:
  assumes "ledger_inv l" "k \<noteq> []" "zCents b"
    and "accounts (snap l') = AList.update k b (accounts (snap l))"
    and "ramps (snap l') = ramps (snap l) @ evs" "list_all zRampEvent evs"
  shows "ledger_inv l'"
  using assms
  by (auto simp: ledger_inv_def zLedgerSnapshot_def distinct_update accounts_update_valid)

text \<open>The effect of each operation as one equation: either nothing changes, or the account gets its
  new exact balance and the ramp is appended.\<close>

lemma ledger_step_effect:
  assumes "ledger_inv l" "op_ok l x"
  shows "ledger_delta l x (op_account x) = 0 \<and> ledger_step l x = l
       \<or> (op_account x \<noteq> [] \<and> zCents (getBalance l (op_account x) + ledger_delta l x (op_account x))
        \<and> accounts (snap (ledger_step l x)) =
             AList.update (op_account x) (getBalance l (op_account x) + ledger_delta l x (op_account x)) (accounts (snap l))
        \<and> (\<exists>evs. ramps (snap (ledger_step l x)) = ramps (snap l) @ evs \<and> list_all zRampEvent evs))"
proof -
  have big: "MAX_SAFE_INTEGER \<le> 2 ^ 53" by (simp add: MAX_SAFE_INTEGER_def)
  have b: "0 \<le> getBalance l a" "getBalance l a \<le> MAX_SAFE_INTEGER" for a
    using getBalance_bounds [OF assms(1)] by auto
  have add: "js_add (getBalance l a) i = getBalance l a + i"
    if "0 \<le> i" "getBalance l a + i \<le> MAX_SAFE_INTEGER" for a i
    using that b [of a] big by (intro js_add_exact) linarith
  have sub: "js_sub (getBalance l a) i = getBalance l a - i" if "0 \<le> i" "i \<le> getBalance l a" for a i
    using that b [of a] big by (intro js_sub_exact) linarith
  show ?thesis
  proof (cases x)
    case (Credit io k n)
    then show ?thesis
      using assms(2) b [of k] add [of _ k]
      by (cases n) (auto simp: op_ok_def ledger_defs zCents_iff split: option.splits)
  next
    case (Debit io k n)
    then show ?thesis
      using assms(2) b [of k] sub [of _ k]
      by (cases n) (auto simp: op_ok_def ledger_defs zCents_iff split: option.splits)
  next
    case (Ramp io u t args)
    then show ?thesis
      using assms(2) b [of "ra_accountId args"] add [of _ "ra_accountId args"] sub [of _ "ra_accountId args"]
      by (cases "ra_amountCents args")
        (auto simp: op_ok_def ledger_defs zCents_iff zRampEvent_def zAccountId_def Suc_le_eq
          split: option.splits if_splits)
  qed
qed

interpretation usd: balance_book ledger_inv op_ok ledger_step getBalance ledger_delta
proof unfold_locales
  fix l x a
  assume inv: "ledger_inv l" and ok: "op_ok l x"
  note effect = ledger_step_effect [OF inv ok]
  show "ledger_inv (ledger_step l x)"
    using effect inv by (auto intro: ledger_inv_update)
  have other: "ledger_delta l x a = 0" if "a \<noteq> op_account x"
    using that by (cases x) (auto split: jsnumber.splits)
  show "getBalance (ledger_step l x) a = getBalance l a + ledger_delta l x a"
    using effect other getBalance_update [of "ledger_step l x" _ _ l a]
    by (cases "a = op_account x") auto
next
  fix l a
  assume "ledger_inv l"
  then show "0 \<le> getBalance l a" using getBalance_bounds by blast
qed

lemma ledger_step_disk:
  "disk l = Stored (snap l) \<Longrightarrow> op_io x = None \<Longrightarrow> disk (ledger_step l x) = Stored (snap (ledger_step l x))"
  by (cases x) (auto simp: ledger_defs split: option.splits sum.splits)

lemma enqueue_run_disk:
  "disk l = Stored (snap l) \<Longrightarrow> list_all (\<lambda>x. op_io x = None) xs \<Longrightarrow>
   disk (enqueue_run l xs) = Stored (snap (enqueue_run l xs))"
  unfolding enqueue_run_def
  by (induction xs arbitrary: l) (auto simp: ledger_step_disk)

lemma fl53_cents_close:
  assumes "0 < c" "c < 2 ^ 50"
  shows "\<bar>fl53 (fl53 (of_int c / 100) * 100) - of_int c\<bar> < 1 / 2"
proof -
  define q where "q = fl53 (of_int c / 100 :: rat)"
  have c: "0 < (of_int c :: rat)" "(of_int c :: rat) < 2 ^ 50"
    using assms by (simp, metis of_int_less_iff of_int_numeral of_int_power)
  then have q: "\<bar>q - of_int c / 100\<bar> \<le> of_int c / 100 / 2 ^ 53"
    unfolding q_def by (intro fl53_error) simp
  have "of_int c / 100 / 2 ^ 53 < (of_int c / 100 :: rat)" using c by simp
  with q have q0: "0 < q" unfolding abs_le_iff by linarith
  have "\<bar>fl53 (q * 100) - q * 100\<bar> \<le> q * 100 / 2 ^ 53"
    using q0 by (intro fl53_error) simp
  then show ?thesis
    using q c unfolding q_def [symmetric] abs_le_iff abs_less_iff by (simp add: field_simps)
qed

lemma credit_failure:
  "credit io l a n = (Inl e, l') \<Longrightarrow> if \<exists>m. e = IoErr m then disk l' = disk l else l' = l"
  by (cases io; cases n; cases "a = []") (auto simp: ledger_defs split: if_splits)

lemma debit_failure:
  "debit io l a n = (Inl e, l') \<Longrightarrow> if \<exists>m. e = IoErr m then disk l' = disk l else l' = l"
  by (cases io; cases n; cases "a = []") (auto simp: ledger_defs split: if_splits)

lemma recordRamp_failure:
  "recordRamp io u t l args = (Inl e, l') \<Longrightarrow> if \<exists>m. e = IoErr m then disk l' = disk l else l' = l"
  by (cases io; cases "ra_amountCents args"; cases "ra_accountId args = []")
    (auto simp: ledger_defs split: if_splits)

lemmas ledger_demo = ledger_defs ledger_inv_def emptySnapshot_def zLedgerSnapshot_def getBalance_def
  set_balance_def op_ok_def zCents_def MAX_SAFE_INTEGER_def

section \<open>Properties\<close>

text \<open>C1. Conservation: from a valid ledger, any sequence of queued credits, debits and ramps whose
  balances stay safe integers leaves every account at its old balance plus the exact integer sum of
  what the accepted operations moved; rejected operations move nothing, no balance is negative, and
  the snapshot still satisfies the on-disk schema.\<close>

theorem usd_ledger_conservation:
  assumes "ledger_inv l" and "run_ok op_ok ledger_step l ops"
  shows "getBalance (enqueue_run l ops) a = getBalance l a + run_sum ledger_delta ledger_step l ops a
       \<and> 0 \<le> getBalance (enqueue_run l ops) a \<and> zLedgerSnapshot (snap (enqueue_run l ops))"
proof -
  have inv: "ledger_inv (enqueue_run l ops)"
    unfolding enqueue_run_def using assms by (rule usd.run_inv)
  show ?thesis
    using usd.run_bal [OF assms] usd.inv_bal [OF inv] inv
    by (simp add: enqueue_run_def ledger_inv_def)
qed

theorem usd_ledger_conservation_witness:
  "getBalance (enqueue_run \<lparr>snap = emptySnapshot, disk = Stored emptySnapshot\<rparr>
     [Credit None ''a'' (JInt 500), Debit None ''a'' (JInt 200), Debit None ''a'' (JInt 900)]) ''a'' = 300"
proof -
  let ?l = "\<lparr>snap = emptySnapshot, disk = Stored emptySnapshot\<rparr>"
  let ?ops = "[Credit None ''a'' (JInt 500), Debit None ''a'' (JInt 200), Debit None ''a'' (JInt 900)]"
  have "ledger_inv ?l" by (simp add: ledger_demo)
  moreover have "run_ok op_ok ledger_step ?l ?ops" by (simp add: ledger_demo)
  ultimately have "getBalance (enqueue_run ?l ?ops) ''a''
      = getBalance ?l ''a'' + run_sum ledger_delta ledger_step ?l ?ops ''a''"
    using usd_ledger_conservation by blast
  also have "\<dots> = 300" by (simp add: ledger_demo)
  finally show ?thesis .
qed

text \<open>Reopening: when every write succeeds, opening the file after any such sequence gives back
  exactly the ledger in memory.\<close>

theorem usd_ledger_reopen:
  assumes "ledger_inv l" and "disk l = Stored (snap l)"
    and "run_ok op_ok ledger_step l ops" and "list_all (\<lambda>x. op_io x = None) ops"
  shows "open_ledger io (disk (enqueue_run l ops)) = Inr (enqueue_run l ops)"
proof -
  have "ledger_inv (enqueue_run l ops)"
    unfolding enqueue_run_def using assms(1,3) by (rule usd.run_inv)
  moreover have "disk (enqueue_run l ops) = Stored (snap (enqueue_run l ops))"
    using assms(2,4) by (rule enqueue_run_disk)
  ultimately show ?thesis
    by (cases "enqueue_run l ops") (simp add: open_ledger_def ledger_inv_def)
qed

theorem usd_ledger_reopen_witness:
  "open_ledger None (disk (enqueue_run \<lparr>snap = emptySnapshot, disk = Stored emptySnapshot\<rparr> [Credit None ''a'' (JInt 5)]))
   = Inr (enqueue_run \<lparr>snap = emptySnapshot, disk = Stored emptySnapshot\<rparr> [Credit None ''a'' (JInt 5)])"
  by (rule usd_ledger_reopen) (simp_all add: ledger_demo)

text \<open>Without the headroom the last guarantee fails: \<open>credit\<close> checks the amount but not the new
  balance, so one more cent on an account at the largest safe integer is accepted and written, and
  the file it leaves is rejected as corrupt by the next \<open>open\<close>.\<close>

theorem usd_ledger_credit_overflow:
  "let s = \<lparr>accounts = [(''acct'', MAX_SAFE_INTEGER)], ramps = []\<rparr>;
       (r, l') = credit None \<lparr>snap = s, disk = Stored s\<rparr> ''acct'' (JInt 1)
   in open_ledger None (Stored s) = Inr \<lparr>snap = s, disk = Stored s\<rparr> \<and> r = Inr (2 ^ 53)
      \<and> open_ledger None (disk l') = Inl LedgerCorrupt"
  by (simp add: ledger_defs isSafeInteger.simps getBalance_def set_balance_def open_ledger_def
      zLedgerSnapshot_def zAccountEntry_def zAccountId_def zCents_def MAX_SAFE_INTEGER_def)

text \<open>Failure atomicity: an operation that throws anything but a file-system error changes neither
  the memory nor the file; one that throws a file-system error leaves the file as it was.\<close>

theorem usd_ledger_failure_atomic:
  assumes "credit io l a n = (Inl e, l') \<or> debit io l a n = (Inl e, l') \<or> recordRamp io u t l args = (Inl e, l')"
  shows "if \<exists>m. e = IoErr m then disk l' = disk l else l' = l"
  using assms by (elim disjE) (fact credit_failure debit_failure recordRamp_failure)+

theorem usd_ledger_failure_atomic_witness:
  "let l = \<lparr>snap = emptySnapshot, disk = NoFile\<rparr>; l' = snd (debit None l ''a'' (JInt 7))
   in debit None l ''a'' (JInt 7) = (Inl (InsufficientFunds ''a'' 7 0), l') \<and> l' = l"
proof -
  let ?l = "\<lparr>snap = emptySnapshot, disk = NoFile\<rparr>"
  have "debit None ?l ''a'' (JInt 7) = (Inl (InsufficientFunds ''a'' 7 0), ?l)"
    by (simp add: ledger_defs getBalance_def emptySnapshot_def MAX_SAFE_INTEGER_def)
  from usd_ledger_failure_atomic [OF disjI2 [OF disjI1 [OF this]]] this show ?thesis by simp
qed

text \<open>\<open>usd\<close> undoes the division by 100 on doubles: for every whole number of cents below
  \<open>2\<^sup>5\<^sup>0\<close>, the double nearest to that many dollars converts back to exactly those cents, although both
  the dollars and the product are rounded.\<close>

theorem usd_of_cents:
  assumes "0 \<le> c" and "c < 2 ^ 50"
  shows "usd (dollars_of_cents c) = Inr c"
proof -
  define q where "q = fl53 (of_int c / 100 :: rat)"
  have "math_round (fl53 (q * 100)) = c"
  proof (cases "c = 0")
    case True
    then show ?thesis by (simp add: q_def fl53_def math_round_near)
  next
    case False
    then show ?thesis
      unfolding q_def using assms by (intro math_round_near fl53_cents_close) auto
  qed
  moreover have "0 \<le> q" unfolding q_def using assms(1) by (intro fl53_nonneg) simp
  ultimately show ?thesis
    using assms by (auto simp: usd_def dollars_of_cents_def Let_def MAX_SAFE_INTEGER_def simp flip: q_def)
qed

theorem usd_of_cents_witness: "usd (dollars_of_cents 1999) = Inr 1999"
  by (rule usd_of_cents) simp_all

end
