(* ===== verification/Bank_Mock.thy ===== *)
theory Bank_Mock
  imports Issuer_Base
begin

text \<open>
  The \<open>bank.fiat-ramp-test\<close> mock issuer, \<^verbatim>\<open>src/issuers/bank-mock.ts\<close> with its types in
  \<^verbatim>\<open>bank-mock.types.ts\<close>, and its in-memory store. \<open>sha\<close> stands for the SHA-256 hex digest of
  \<^verbatim>\<open>node:crypto\<close>. \<open>others\<close> is what other requests do to the store while this one waits for
  the pinner and the chain.
\<close>

section \<open>Data\<close>

record BankMockRow =
  bmr_checkingAccountId :: string
  bmr_agentCardPubkey :: string
  bmr_credentialPda :: string
  bmr_txSignature :: string
  bmr_claimUri :: string
  bmr_issuedAtUnix :: int
  bmr_revoked :: bool
  bmr_revokedAtUnix :: "int option"
  bmr_revokeTxSignature :: "string option"

type_synonym bank_mock_store = "string \<rightharpoonup> BankMockRow"

record BankMockIssueRequest =
  bmq_checkingAccountId :: string
  bmq_agentCardPubkey :: string
  bmq_callerPubkey :: "string option"

datatype BankMockIssueResponse =
    BmIssued string string string string string
  | BmIdempotent string string string string

datatype BankMockRevokeResponse =
    BmRevoked string string string
  | BmAlreadyRevoked string string string

datatype BankMockIssueErrorKind = BmBindingConflict | BmNotFound | BmChainFailed | BmInvalidRequest | BmUnauthorizedCaller

text \<open>A typed error with its detail, or any other exception that leaves the handler.\<close>

datatype bank_mock_error = BankMockIssueError BankMockIssueErrorKind "string option" | BmUncaught string

record BankMockIssuerDeps =
  bmd_chain :: "(issue_input, chain_result) dep"
  bmd_revoker :: "(string, string) dep"
  bmd_pinner :: "(string, string) dep"
  bmd_clock :: "(unit, int) dep"
  bmd_issuerAuthorityPubkey :: string
  bmd_nowUnix :: "trace \<Rightarrow> int"

section \<open>In-memory store\<close>

definition bm_get :: "bank_mock_store \<Rightarrow> string \<Rightarrow> BankMockRow option" where
  "bm_get st k = st k"

definition bm_putIfAbsent :: "bank_mock_store \<Rightarrow> BankMockRow \<Rightarrow> BankMockRow \<times> bank_mock_store" where
  "bm_putIfAbsent st row = (case st (bmr_checkingAccountId row) of
       Some existing \<Rightarrow> (existing, st)
     | None \<Rightarrow> (row, st(bmr_checkingAccountId row \<mapsto> row)))"

definition bm_markRevoked :: "bank_mock_store \<Rightarrow> string \<Rightarrow> int \<Rightarrow> string \<Rightarrow> (string, BankMockRow) result \<times> bank_mock_store" where
  "bm_markRevoked st k t sig = (case st k of
       None \<Rightarrow> (Inl (''markRevoked: unknown checkingAccountId='' @ k), st)
     | Some existing \<Rightarrow> if bmr_revoked existing then (Inr existing, st)
         else let updated = existing\<lparr>bmr_revoked := True, bmr_revokedAtUnix := Some t, bmr_revokeTxSignature := Some sig\<rparr>
              in (Inr updated, st(k \<mapsto> updated)))"

section \<open>Issuing\<close>

definition BANK_FIAT_RAMP_TEST_SCHEMA_ID_HEX :: "(string \<Rightarrow> string) \<Rightarrow> string" where
  "BANK_FIAT_RAMP_TEST_SCHEMA_ID_HEX sha = sha ''eto.beckn.schema.bank.fiat-ramp-test.v1''"

definition VALID_UNTIL_NO_BOUND :: int where
  "VALID_UNTIL_NO_BOUND = 0"

definition assertCallerBindingOrThrow :: "string option \<Rightarrow> string \<Rightarrow> (bank_mock_error, unit) result" where
  "assertCallerBindingOrThrow callerPubkey agentCardPubkey = (case callerPubkey of
       None \<Rightarrow> Inl (BankMockIssueError BmUnauthorizedCaller None)
     | Some c \<Rightarrow> if c = [] \<or> agentCardPubkey = [] then Inl (BankMockIssueError BmUnauthorizedCaller None)
         else let a = to_lower c; b = to_lower agentCardPubkey
         in if length a \<noteq> length b then Inl (BankMockIssueError BmUnauthorizedCaller None)
            else (case timing_safe_equal (utf8 a) (utf8 b) of
                    None \<Rightarrow> Inl (BmUncaught ''RangeError'')
                  | Some eq \<Rightarrow> if \<not> eq then Inl (BankMockIssueError BmUnauthorizedCaller None) else Inr ()))"

definition buildBankFiatRampTestVc :: "string \<Rightarrow> string \<Rightarrow> string \<Rightarrow> string \<Rightarrow> json" where
  "buildBankFiatRampTestVc agentCardPubkey issuerAuthorityPubkey checkingAccountId issuanceDate = JObj [
     (''@context'', JArr [JStr ''https://www.w3.org/2018/credentials/v1'', JStr ''https://schema.eto.dev/bank/fiat-ramp-test/v1'']),
     (''type'', JArr [JStr ''VerifiableCredential'', JStr ''BankFiatRampTestCredential'']),
     (''issuer'', JStr ''did:eto:bank-mock''),
     (''issuanceDate'', JStr issuanceDate),
     (''credentialSubject'', JObj [
        (''id'', JStr (''did:eto:agentcard:'' @ agentCardPubkey)),
        (''checkingAccountId'', JStr checkingAccountId),
        (''bankBindingType'', JStr ''checking-account''),
        (''mockIssuer'', JBool True)]),
     (''issuerAuthority'', JStr issuerAuthorityPubkey)]"

text \<open>Validation and step 1, the store lookup: an answer, or the request goes on (\<open>Inr\<close>).\<close>

definition bm_issue_start :: "bank_mock_store \<Rightarrow> BankMockIssueRequest
    \<Rightarrow> (bank_mock_error, BankMockIssueResponse) result + BankMockIssueRequest" where
  "bm_issue_start st q = (case assertCallerBindingOrThrow (bmq_callerPubkey q) (bmq_agentCardPubkey q) of
       Inl e \<Rightarrow> Inl (Inl e)
     | Inr _ \<Rightarrow>
       if bmq_checkingAccountId q = [] then Inl (Inl (BankMockIssueError BmInvalidRequest (Some ''empty_checking_account_id'')))
       else if bmq_agentCardPubkey q = [] then Inl (Inl (BankMockIssueError BmInvalidRequest (Some ''empty_card'')))
       else (case bm_get st (bmq_checkingAccountId q) of
            Some existing \<Rightarrow>
              if bmr_agentCardPubkey existing \<noteq> bmq_agentCardPubkey q
              then Inl (Inl (BankMockIssueError BmBindingConflict (Some (''bound_card='' @ bmr_agentCardPubkey existing))))
              else Inl (Inr (BmIdempotent (bmr_credentialPda existing) (bmr_txSignature existing) (bmr_claimUri existing)
                               (bmq_checkingAccountId q)))
          | None \<Rightarrow> Inr q))"

text \<open>Step 2: build the claim, pin it and submit the transaction. The result is the chain's answer with
  the claim's URI and hash and the time.\<close>

type_synonym bm_minted = "chain_result \<times> string \<times> string \<times> int"

definition bm_issue_mint :: "(string \<Rightarrow> string) \<Rightarrow> BankMockIssuerDeps \<Rightarrow> BankMockIssueRequest \<Rightarrow> trace
    \<Rightarrow> (bank_mock_error, bm_minted) result \<times> trace" where
  "bm_issue_mint sha d q tr = (case bmd_clock d tr () of Inl e \<Rightarrow> (Inl (BmUncaught e), tr) | Inr slot \<Rightarrow>
     let nowUnix = bmd_nowUnix d tr
     in case toISOString (js_mul nowUnix 1000) of None \<Rightarrow> (Inl (BmUncaught ''RangeError''), tr) | Some issuanceDate \<Rightarrow>
     let vc = buildBankFiatRampTestVc (bmq_agentCardPubkey q) (bmd_issuerAuthorityPubkey d) (bmq_checkingAccountId q) issuanceDate
     in case jcsStringify vc of Inl _ \<Rightarrow> (Inl (BmUncaught ''Error''), tr) | Inr claimJcs \<Rightarrow>
     let claimHashHex = sha claimJcs; tr1 = tr @ [EPin claimJcs]
     in case bmd_pinner d tr claimJcs of Inl e \<Rightarrow> (Inl (BmUncaught e), tr1) | Inr claimUri \<Rightarrow>
     let input = \<lparr>ii_subject = bmq_agentCardPubkey q, ii_schemaId = BANK_FIAT_RAMP_TEST_SCHEMA_ID_HEX sha,
                  ii_claimUri = claimUri, ii_claimHash = claimHashHex, ii_validFromSlot = slot,
                  ii_validUntilSlot = VALID_UNTIL_NO_BOUND\<rparr>;
         tr2 = tr1 @ [EIssue input]
     in case bmd_chain d tr1 input of Inl _ \<Rightarrow> (Inl (BankMockIssueError BmChainFailed None), tr2)
        | Inr chainResult \<Rightarrow> (Inr (chainResult, claimUri, claimHashHex, nowUnix), tr2))"

text \<open>Step 3: persist the row after a successful transaction; the row already there wins.\<close>

definition bm_issue_finish :: "bank_mock_store \<Rightarrow> BankMockIssueRequest \<Rightarrow> (bank_mock_error, bm_minted) result
    \<Rightarrow> (bank_mock_error, BankMockIssueResponse) result \<times> bank_mock_store" where
  "bm_issue_finish st q m = (case m of Inl e \<Rightarrow> (Inl e, st) | Inr (chainResult, claimUri, claimHashHex, nowUnix) \<Rightarrow>
     let row = \<lparr>bmr_checkingAccountId = bmq_checkingAccountId q, bmr_agentCardPubkey = bmq_agentCardPubkey q,
                bmr_credentialPda = cr_credentialPda chainResult, bmr_txSignature = cr_txSignature chainResult,
                bmr_claimUri = claimUri, bmr_issuedAtUnix = nowUnix, bmr_revoked = False,
                bmr_revokedAtUnix = None, bmr_revokeTxSignature = None\<rparr>;
         (winner, st') = bm_putIfAbsent st row
     in if bmr_agentCardPubkey winner \<noteq> bmq_agentCardPubkey q
        then (Inl (BankMockIssueError BmBindingConflict (Some (''bound_card='' @ bmr_agentCardPubkey winner))), st')
        else if bmr_credentialPda winner \<noteq> cr_credentialPda chainResult
        then (Inr (BmIdempotent (bmr_credentialPda winner) (bmr_txSignature winner) (bmr_claimUri winner) (bmq_checkingAccountId q)), st')
        else (Inr (BmIssued (cr_credentialPda chainResult) (cr_txSignature chainResult) claimUri claimHashHex
                     (bmq_checkingAccountId q)), st'))"

definition issueBankFiatRampTest :: "(string \<Rightarrow> string) \<Rightarrow> BankMockIssuerDeps \<Rightarrow> (bank_mock_store \<Rightarrow> bank_mock_store)
    \<Rightarrow> BankMockIssueRequest \<Rightarrow> bank_mock_store \<Rightarrow> trace
    \<Rightarrow> (bank_mock_error, BankMockIssueResponse) result \<times> bank_mock_store \<times> trace" where
  "issueBankFiatRampTest sha d others q st tr = (case bm_issue_start st q of
       Inl r \<Rightarrow> (r, st, tr)
     | Inr q \<Rightarrow> let (m, tr') = bm_issue_mint sha d q tr; (r, st') = bm_issue_finish (others st) q m
                in (r, st', tr'))"

section \<open>Revoking\<close>

definition bm_revoke_start :: "bank_mock_store \<Rightarrow> string
    \<Rightarrow> (bank_mock_error, BankMockRevokeResponse) result + BankMockRow" where
  "bm_revoke_start st k = (if k = [] then Inl (Inl (BankMockIssueError BmInvalidRequest (Some ''empty_checking_account_id'')))
     else case bm_get st k of
       None \<Rightarrow> Inl (Inl (BankMockIssueError BmNotFound (Some k)))
     | Some row \<Rightarrow> if bmr_revoked row
         then Inl (Inr (BmAlreadyRevoked (bmr_credentialPda row) (case bmr_revokeTxSignature row of None \<Rightarrow> [] | Some s \<Rightarrow> s) k))
         else Inr row)"

definition revokeBankFiatRampTest :: "BankMockIssuerDeps \<Rightarrow> (bank_mock_store \<Rightarrow> bank_mock_store)
    \<Rightarrow> string \<Rightarrow> bank_mock_store \<Rightarrow> trace
    \<Rightarrow> (bank_mock_error, BankMockRevokeResponse) result \<times> bank_mock_store \<times> trace" where
  "revokeBankFiatRampTest d others k st tr = (case bm_revoke_start st k of
       Inl r \<Rightarrow> (r, st, tr)
     | Inr row \<Rightarrow>
       let pda = bmr_credentialPda row; tr1 = tr @ [ERevoke pda]; st1 = others st
       in case bmd_revoker d tr pda of
            Inl _ \<Rightarrow> (Inl (BankMockIssueError BmChainFailed None), st1, tr1)
          | Inr sig \<Rightarrow> (case bm_markRevoked st1 k (bmd_nowUnix d tr1) sig of
                (Inl e, st2) \<Rightarrow> (Inl (BmUncaught e), st2, tr1)
              | (Inr _, st2) \<Rightarrow> (Inr (BmRevoked pda sig k), st2, tr1)))"

section \<open>Specification\<close>

text \<open>The binding of an account: its AgentCard and its credential.\<close>

definition bm_binding :: "bank_mock_store \<Rightarrow> string \<Rightarrow> (string \<times> string) option" where
  "bm_binding st k = map_option (\<lambda>r. (bmr_agentCardPubkey r, bmr_credentialPda r)) (st k)"

text \<open>What an answered request says about its account.\<close>

fun bm_success :: "BankMockIssueRequest \<times> (bank_mock_error, BankMockIssueResponse) result \<Rightarrow> (string \<times> string \<times> string) option" where
  "bm_success (q, Inr (BmIssued pda sig uri h k)) = Some (k, bmq_agentCardPubkey q, pda)"
| "bm_success (q, Inr (BmIdempotent pda sig uri k)) = Some (k, bmq_agentCardPubkey q, pda)"
| "bm_success (q, Inl e) = None"

text \<open>The parts of the handlers as steps of the concurrent system: answers keep their request.\<close>

definition bm_start :: "bank_mock_store \<Rightarrow> BankMockIssueRequest
    \<Rightarrow> BankMockIssueRequest \<times> (bank_mock_error, BankMockIssueResponse) result + BankMockIssueRequest" where
  "bm_start st q = (case bm_issue_start st q of Inl r \<Rightarrow> Inl (q, r) | Inr p \<Rightarrow> Inr p)"

definition bm_finish :: "bank_mock_store \<Rightarrow> BankMockIssueRequest \<Rightarrow> (bank_mock_error, bm_minted) result
    \<Rightarrow> (BankMockIssueRequest \<times> (bank_mock_error, BankMockIssueResponse) result) \<times> bank_mock_store" where
  "bm_finish st q m = (case bm_issue_finish st q m of (r, st') \<Rightarrow> ((q, r), st'))"

definition bm_aux :: "bank_mock_store \<Rightarrow> string \<times> int \<times> string \<Rightarrow> bank_mock_store" where
  "bm_aux st x = (case x of (k, t, sig) \<Rightarrow> snd (bm_markRevoked st k t sig))"

text \<open>Every row is stored under its own account id.\<close>

definition bm_store_ok :: "bank_mock_store \<Rightarrow> bool" where
  "bm_store_ok st = (\<forall>k r. st k = Some r \<longrightarrow> bmr_checkingAccountId r = k)"

text \<open>Clients that always answer, for examples.\<close>

definition bm_example_deps :: BankMockIssuerDeps where
  "bm_example_deps = \<lparr>bmd_chain = (\<lambda>tr i. Inr \<lparr>cr_credentialPda = ''pda'', cr_txSignature = ''tx''\<rparr>),
     bmd_revoker = (\<lambda>tr p. Inr ''rtx''), bmd_pinner = (\<lambda>tr c. Inr ''uri''), bmd_clock = (\<lambda>tr u. Inr 7),
     bmd_issuerAuthorityPubkey = ''auth'', bmd_nowUnix = (\<lambda>tr. 0)\<rparr>"

section \<open>Lemmas\<close>

lemmas bm_store_defs = bm_get_def bm_putIfAbsent_def bm_markRevoked_def Let_def

lemma assertCallerBinding_ok:
  "assertCallerBindingOrThrow c a = Inr u \<Longrightarrow> \<exists>p. c = Some p \<and> p \<noteq> [] \<and> a \<noteq> [] \<and> to_lower p = to_lower a"
  by (auto simp: assertCallerBindingOrThrow_def Let_def timing_safe_equal_def split: option.splits if_splits)

lemma assertCallerBinding_same:
  "p \<noteq> [] \<Longrightarrow> to_lower p = to_lower a \<Longrightarrow> assertCallerBindingOrThrow (Some p) a = Inr ()"
  by (cases a) (auto simp: assertCallerBindingOrThrow_def timing_safe_equal_def Let_def to_lower_def)

lemma bm_start_answers:
  "bm_start st q = Inl r \<Longrightarrow> bm_success r = Some (k, b) \<Longrightarrow> bm_binding st k = Some b"
  by (auto simp: bm_start_def bm_issue_start_def bm_binding_def bm_get_def split: sum.splits option.splits if_splits)

lemma bm_finish_binds:
  "bm_finish st q m = (r, st') \<Longrightarrow> bm_success r = Some (k, b) \<Longrightarrow> bm_binding st' k = Some b"
  by (cases m) (auto simp: bm_finish_def bm_issue_finish_def bm_binding_def bm_store_defs
      split: prod.splits option.splits if_splits)

lemma bm_finish_keeps:
  "bm_finish st q m = (r, st') \<Longrightarrow> bm_binding st k = Some b \<Longrightarrow> bm_binding st' k = Some b"
  by (cases m) (auto simp: bm_finish_def bm_issue_finish_def bm_binding_def bm_store_defs
      split: prod.splits option.splits if_splits)

lemma bm_aux_keeps: "bm_binding st k = Some b \<Longrightarrow> bm_binding (bm_aux st x) k = Some b"
  by (cases x) (auto simp: bm_aux_def bm_binding_def bm_store_defs split: option.splits)

interpretation bank_mock: concurrent_issuer bm_start bm_finish bm_aux bm_binding bm_success
  by unfold_locales (fact bm_start_answers bm_finish_binds bm_finish_keeps bm_aux_keeps)+

lemma buildBankFiatRampTestVc_wf: "wf_json (buildBankFiatRampTestVc a i c t)"
  by (simp add: buildBankFiatRampTestVc_def)

lemma bm_mint_trace:
  assumes "bm_issue_mint sha d q tr = (Inr (cr, uri, h, t), tr')"
  shows "\<exists>date c input. toISOString (js_mul t 1000) = Some date
     \<and> c = canonicalJson (buildBankFiatRampTestVc (bmq_agentCardPubkey q) (bmd_issuerAuthorityPubkey d) (bmq_checkingAccountId q) date)
     \<and> tr' = tr @ [EPin c, EIssue input] \<and> h = sha c
     \<and> ii_subject input = bmq_agentCardPubkey q \<and> ii_claimHash input = h \<and> ii_claimUri input = uri
     \<and> ii_schemaId input = BANK_FIAT_RAMP_TEST_SCHEMA_ID_HEX sha \<and> ii_validUntilSlot input = 0"
  using assms
  by (auto simp: bm_issue_mint_def Let_def VALID_UNTIL_NO_BOUND_def jcs_eq_canonical [OF buildBankFiatRampTestVc_wf]
      split: sum.splits option.splits)

section \<open>Properties\<close>

text \<open>Whatever the clients do and in whatever order any number of concurrent issue requests and
  revocations interleave, two successful answers for the same checking account name the same AgentCard
  and the same credential, and the store still holds that binding.\<close>

theorem bank_mock_answers_agree:
  assumes "issuance_run bm_start bm_finish bm_aux st0 st ps rs" "r \<in> set rs" "r' \<in> set rs"
    "bm_success r = Some (k, b)" "bm_success r' = Some (k, b')"
  shows "b = b' \<and> bm_binding st k = Some b"
  using bank_mock.answers_agree [OF assms] bank_mock.answers_bound [OF assms(1,2,4)] by simp

theorem bank_mock_answers_agree_witness:
  "let q = \<lparr>bmq_checkingAccountId = ''acc'', bmq_agentCardPubkey = ''card'', bmq_callerPubkey = Some ''card''\<rparr>;
       m = Inr (\<lparr>cr_credentialPda = ''pda'', cr_txSignature = ''tx''\<rparr>, ''uri'', ''hash'', 1);
       (r, st) = bm_finish Map.empty q m
   in bm_success r = Some (''acc'', ''card'', ''pda'') \<and> bm_binding st ''acc'' = Some (''card'', ''pda'')"
proof -
  define q where "q = \<lparr>bmq_checkingAccountId = ''acc'', bmq_agentCardPubkey = ''card'', bmq_callerPubkey = Some ''card''\<rparr>"
  define m :: "(bank_mock_error, bm_minted) result"
    where "m = Inr (\<lparr>cr_credentialPda = ''pda'', cr_txSignature = ''tx''\<rparr>, ''uri'', ''hash'', 1)"
  obtain r st where f: "bm_finish Map.empty q m = (r, st)" by fastforce
  have s: "bm_success r = Some (''acc'', ''card'', ''pda'')"
    using f by (auto simp: bm_finish_def bm_issue_finish_def m_def q_def bm_store_defs)
  have "bm_start Map.empty q = Inr q"
    by (simp add: bm_start_def bm_issue_start_def q_def assertCallerBinding_same bm_get_def)
  from run_single [of bm_start _ _ _ bm_finish, OF this f] have "issuance_run bm_start bm_finish bm_aux Map.empty st {#} [r]" .
  from bank_mock_answers_agree [OF this _ _ s s] f s
  show ?thesis by (simp add: q_def m_def)
qed

text \<open>The caller gate comes first: a request has an effect, changes the store or succeeds only
  when a caller was verified whose key equals the requested AgentCard up to letter case.\<close>

theorem bank_mock_caller_gate:
  assumes "issueBankFiatRampTest sha d others q st tr = (r, st', tr')"
    and "tr' \<noteq> tr \<or> st' \<noteq> st \<or> is_ok r"
  shows "\<exists>p. bmq_callerPubkey q = Some p \<and> bmq_agentCardPubkey q \<noteq> [] \<and> to_lower p = to_lower (bmq_agentCardPubkey q)"
  using assms assertCallerBinding_ok [of "bmq_callerPubkey q" "bmq_agentCardPubkey q"]
  by (cases "assertCallerBindingOrThrow (bmq_callerPubkey q) (bmq_agentCardPubkey q)")
    (auto simp: issueBankFiatRampTest_def bm_issue_start_def)

theorem bank_mock_caller_gate_witness:
  "\<exists>p. Some ''CARD'' = Some p \<and> to_lower p = to_lower ''card''"
proof -
  define q where "q = \<lparr>bmq_checkingAccountId = ''acc'', bmq_agentCardPubkey = ''card'', bmq_callerPubkey = Some ''CARD''\<rparr>"
  define row where "row = \<lparr>bmr_checkingAccountId = ''acc'', bmr_agentCardPubkey = ''card'', bmr_credentialPda = ''pda'',
    bmr_txSignature = ''tx'', bmr_claimUri = ''uri'', bmr_issuedAtUnix = 0, bmr_revoked = False,
    bmr_revokedAtUnix = None, bmr_revokeTxSignature = None\<rparr>"
  have low: "to_lower ''CARD'' = to_lower ''card''" by code_simp
  have "issueBankFiatRampTest id bm_example_deps id q [''acc'' \<mapsto> row] []
      = (Inr (BmIdempotent ''pda'' ''tx'' ''uri'' ''acc''), [''acc'' \<mapsto> row], [])"
    using assertCallerBinding_same [of "''CARD''" "''card''"] low
    by (simp add: issueBankFiatRampTest_def bm_issue_start_def bm_get_def q_def row_def)
  from bank_mock_caller_gate [OF this] show ?thesis by (simp add: q_def)
qed

text \<open>A newly issued credential: the claim text that is pinned is the canonical JSON of the
  credential that names the AgentCard and the checking account, the transaction carries its hash, and
  it is submitted exactly once; a run that ends in a failed transaction leaves no row behind.\<close>

theorem bank_mock_issued_claim:
  assumes "issueBankFiatRampTest sha d others q st tr = (r, st', tr')"
  shows "(\<forall>pda sig uri h k. r = Inr (BmIssued pda sig uri h k) \<longrightarrow>
      (\<exists>date c input. c = canonicalJson (buildBankFiatRampTestVc (bmq_agentCardPubkey q) (bmd_issuerAuthorityPubkey d)
                          (bmq_checkingAccountId q) date)
         \<and> tr' = tr @ [EPin c, EIssue input] \<and> h = sha c \<and> ii_claimHash input = h \<and> ii_claimUri input = uri
         \<and> ii_subject input = bmq_agentCardPubkey q \<and> ii_schemaId input = BANK_FIAT_RAMP_TEST_SCHEMA_ID_HEX sha
         \<and> k = bmq_checkingAccountId q \<and> bm_binding st' k = Some (bmq_agentCardPubkey q, pda)))
    \<and> (r = Inl (BankMockIssueError BmChainFailed None) \<longrightarrow> st' = others st)"
proof -
  have fail: "st' = others st" if "r = Inl (BankMockIssueError BmChainFailed None)"
    using assms that
    by (auto simp: issueBankFiatRampTest_def bm_issue_finish_def bm_issue_start_def assertCallerBindingOrThrow_def Let_def
        split: sum.splits prod.splits if_splits option.splits)
  have issued: "\<exists>cr t. bm_issue_mint sha d q tr = (Inr (cr, uri, h, t), tr')
      \<and> k = bmq_checkingAccountId q \<and> bm_issue_finish (others st) q (Inr (cr, uri, h, t)) = (r, st')"
    if r: "r = Inr (BmIssued pda sig uri h k)" for pda sig uri h k
  proof -
    from assms r obtain m where m: "bm_issue_mint sha d q tr = (m, tr')" and f: "bm_issue_finish (others st) q m = (r, st')"
      by (auto simp: issueBankFiatRampTest_def bm_issue_start_def Let_def split: sum.splits prod.splits if_splits option.splits)
    from f r obtain cr t where "m = Inr (cr, uri, h, t)" "k = bmq_checkingAccountId q"
      by (cases m) (auto simp: bm_issue_finish_def Let_def split: prod.splits if_splits)
    with m f show ?thesis by blast
  qed
  show ?thesis
  proof (intro conjI allI impI fail)
    fix pda sig uri h k assume r: "r = Inr (BmIssued pda sig uri h k)"
    from issued [OF r] obtain cr t where m: "bm_issue_mint sha d q tr = (Inr (cr, uri, h, t), tr')"
      and k: "k = bmq_checkingAccountId q" and f: "bm_issue_finish (others st) q (Inr (cr, uri, h, t)) = (r, st')" by blast
    have "bm_binding st' k = Some (bmq_agentCardPubkey q, pda)"
      using f r by (intro bm_finish_binds [of "others st" q "Inr (cr, uri, h, t)" "(q, r)"]) (simp_all add: bm_finish_def)
    with bm_mint_trace [OF m] k show "\<exists>date c input. c = canonicalJson (buildBankFiatRampTestVc (bmq_agentCardPubkey q)
        (bmd_issuerAuthorityPubkey d) (bmq_checkingAccountId q) date)
         \<and> tr' = tr @ [EPin c, EIssue input] \<and> h = sha c \<and> ii_claimHash input = h \<and> ii_claimUri input = uri
         \<and> ii_subject input = bmq_agentCardPubkey q \<and> ii_schemaId input = BANK_FIAT_RAMP_TEST_SCHEMA_ID_HEX sha
         \<and> k = bmq_checkingAccountId q \<and> bm_binding st' k = Some (bmq_agentCardPubkey q, pda)" by blast
  qed
qed

theorem bank_mock_issued_claim_witness:
  "let q = \<lparr>bmq_checkingAccountId = ''acc'', bmq_agentCardPubkey = ''card'', bmq_callerPubkey = Some ''card''\<rparr>
   in \<exists>st' tr' uri h. issueBankFiatRampTest id bm_example_deps id q Map.empty [] = (Inr (BmIssued ''pda'' ''tx'' uri h ''acc''), st', tr')
      \<and> bm_binding st' ''acc'' = Some (''card'', ''pda'')"
proof -
  define q where "q = \<lparr>bmq_checkingAccountId = ''acc'', bmq_agentCardPubkey = ''card'', bmq_callerPubkey = Some ''card''\<rparr>"
  have date: "toISOString (js_mul 0 1000) = Some ''1970-01-01T00:00:00.000Z''" by code_simp
  have "\<exists>st' tr' uri h. issueBankFiatRampTest id bm_example_deps id q Map.empty [] = (Inr (BmIssued ''pda'' ''tx'' uri h ''acc''), st', tr')"
    using assertCallerBinding_same [of "''card''" "''card''"] date
    by (simp add: issueBankFiatRampTest_def bm_issue_start_def bm_get_def q_def bm_issue_mint_def bm_example_deps_def Let_def
        jcs_eq_canonical [OF buildBankFiatRampTestVc_wf] bm_issue_finish_def bm_putIfAbsent_def)
  then obtain st' tr' uri h where
    run: "issueBankFiatRampTest id bm_example_deps id q Map.empty [] = (Inr (BmIssued ''pda'' ''tx'' uri h ''acc''), st', tr')"
    by blast
  from bank_mock_issued_claim [OF run] have "bm_binding st' ''acc'' = Some (''card'', ''pda'')" by (auto simp: q_def)
  with run show ?thesis by (auto simp: q_def)
qed

text \<open>Revocation is permanent and idempotent: after a successful revocation a second one sends no
  transaction, changes nothing and returns the first one's signature, whatever the issuer did in
  between (issuing requests and revocations only ever move the store along \<open>bm_aux\<close> and
  \<open>bm_finish\<close>), and the account keeps its binding.\<close>

theorem bank_mock_revoke_idempotent:
  assumes "revokeBankFiatRampTest d id k st tr = (Inr (BmRevoked pda sig k), st1, tr1)"
    and "issuance_run bm_start bm_finish bm_aux st1 st2 ps rs"
  shows "revokeBankFiatRampTest d' others k st2 tr2 = (Inr (BmAlreadyRevoked pda sig k), st2, tr2)
       \<and> tr1 = tr @ [ERevoke pda]"
proof -
  let ?P = "\<lambda>s. k \<noteq> [] \<and> (\<exists>row. s k = Some row \<and> bmr_revoked row \<and> bmr_credentialPda row = pda \<and> bmr_revokeTxSignature row = Some sig)"
  have first: "?P st1 \<and> tr1 = tr @ [ERevoke pda]"
    using assms(1)
    by (auto simp: revokeBankFiatRampTest_def bm_revoke_start_def bm_store_defs split: sum.splits option.splits if_splits)
  from assms(2) first have "?P st2"
  proof induction
    case (run_finish s ps rs p m r s')
    then show ?case
      by (cases m) (auto simp: bm_finish_def bm_issue_finish_def bm_store_defs split: prod.splits option.splits if_splits)
  next
    case (run_aux s ps rs x)
    then show ?case by (cases x) (auto simp: bm_aux_def bm_store_defs split: option.splits)
  qed simp_all
  with first show ?thesis
    by (auto simp: revokeBankFiatRampTest_def bm_revoke_start_def bm_get_def)
qed

theorem bank_mock_revoke_idempotent_witness:
  "\<exists>st1 tr1. revokeBankFiatRampTest bm_example_deps id ''acc'' [''acc'' \<mapsto> \<lparr>bmr_checkingAccountId = ''acc'', bmr_agentCardPubkey = ''card'',
       bmr_credentialPda = ''pda'', bmr_txSignature = ''tx'', bmr_claimUri = ''uri'', bmr_issuedAtUnix = 0, bmr_revoked = False,
       bmr_revokedAtUnix = None, bmr_revokeTxSignature = None\<rparr>] [] = (Inr (BmRevoked ''pda'' ''rtx'' ''acc''), st1, tr1)
     \<and> revokeBankFiatRampTest bm_example_deps id ''acc'' st1 tr1 = (Inr (BmAlreadyRevoked ''pda'' ''rtx'' ''acc''), st1, tr1)"
proof -
  define row where "row = \<lparr>bmr_checkingAccountId = ''acc'', bmr_agentCardPubkey = ''card'',
       bmr_credentialPda = ''pda'', bmr_txSignature = ''tx'', bmr_claimUri = ''uri'', bmr_issuedAtUnix = 0, bmr_revoked = False,
       bmr_revokedAtUnix = None, bmr_revokeTxSignature = None\<rparr>"
  obtain st1 tr1 where r: "revokeBankFiatRampTest bm_example_deps id ''acc'' [''acc'' \<mapsto> row] []
      = (Inr (BmRevoked ''pda'' ''rtx'' ''acc''), st1, tr1)"
    by (auto simp: revokeBankFiatRampTest_def bm_revoke_start_def bm_store_defs row_def bm_example_deps_def)
  from bank_mock_revoke_idempotent [OF r run_init, of bm_example_deps id tr1] r show ?thesis
    unfolding row_def by blast
qed

text \<open>The claim text identifies the credential: two credentials with the same canonical text agree
  in AgentCard, issuer, checking account and date, so equal claim hashes mean equal credentials unless
  the hash collides.\<close>

theorem bank_mock_claim_identifies:
  "jcsStringify (buildBankFiatRampTestVc a i c t) = jcsStringify (buildBankFiatRampTestVc a' i' c' t')
   \<longleftrightarrow> a = a' \<and> i = i' \<and> c = c' \<and> t = t'"
proof -
  have "normal_json (buildBankFiatRampTestVc a i c t) = normal_json (buildBankFiatRampTestVc a' i' c' t')
    \<longleftrightarrow> a = a' \<and> i = i' \<and> c = c' \<and> t = t'"
    by (auto simp: buildBankFiatRampTestVc_def less_char_code code_def)
  then show ?thesis
    using canonicalJson_inject buildBankFiatRampTestVc_wf by (simp add: jcs_eq_canonical)
qed

text \<open>The caller check lets an untyped exception escape: for two keys of equal length whose UTF-8
  encodings differ in length, \<open>timingSafeEqual\<close> throws a \<open>RangeError\<close> in place of the documented
  \<open>unauthorized_caller\<close>.\<close>

theorem bank_mock_caller_gate_range_error:
  "assertCallerBindingOrThrow (Some [CHR 0xE9]) ''e'' = Inl (BmUncaught ''RangeError'')"
  by code_simp

end
