(* ===== verification/Kyc_Issuer.thy ===== *)
theory Kyc_Issuer
  imports Issuer_Base Hex_Text
begin

text \<open>
  The \<open>kyc.us-test\<close> issuer, \<^verbatim>\<open>src/issuers/kyc-test.ts\<close> with its types in \<^verbatim>\<open>kyc-test.types.ts\<close>:
  the form validator with its calendar check, the HMAC form token, the wallet-binding verifier, and the
  issue handler. \<open>sha\<close> is the SHA-256 hex digest and \<open>hmac\<close> the HMAC-SHA-256 hex digest of
  \<^verbatim>\<open>node:crypto\<close>; \<open>decode64\<close> is \<open>Buffer.from(s, "base64")\<close> and \<open>ed25519\<close> the signature check. The
  fields of a submission arrive untyped, so each is a string, a number or anything else.
\<close>

section \<open>Data\<close>

record KycTestFormSubmission =
  kys_fullName :: js_value
  kys_dobIso :: js_value
  kys_flowStartedAtUnix :: js_value
  kys_formTokenHmacHex :: js_value

record KycTestIssueRequest =
  kyq_submission :: KycTestFormSubmission
  kyq_agentCardPubkey :: string
  kyq_agentCardSignature :: js_value

record KycTestDedupeRow =
  kyr_nullifier :: string
  kyr_agentCardPubkey :: string
  kyr_credentialPda :: string
  kyr_txSignature :: string
  kyr_claimUri :: string
  kyr_issuedAtUnix :: int

type_synonym kyc_store = "string \<rightharpoonup> KycTestDedupeRow"

datatype KycTestIssueErrorKind = KyReplayConflict | KyInvalidForm | KyInvalidToken | KyDwellTooShort | KyDwellInFuture
  | KyInvalidAgentCardSignature | KyChainFailed

datatype kyc_error = KycTestIssueError KycTestIssueErrorKind "string option" | KyUncaught string

datatype KycTestIssueResponse =
    KyIssued string string string string string
  | KyIdempotent string string string string

record KycTestIssuerDeps =
  kyd_verifyToken :: "string \<Rightarrow> string \<Rightarrow> jsnumber \<Rightarrow> string \<Rightarrow> bool"
  kyd_verifySignature :: "(string \<times> string \<times> string, bool) dep"
  kyd_chain :: "(issue_input, chain_result) dep"
  kyd_pinner :: "(string, string) dep"
  kyd_clock :: "(unit, int) dep"
  kyd_issuerAuthorityPubkey :: string
  kyd_minDwellSeconds :: "int option"
  kyd_nowUnix :: "trace \<Rightarrow> int"

definition KYC_TEST_MIN_DWELL_SECONDS :: int where
  "KYC_TEST_MIN_DWELL_SECONDS = 30"

definition KYC_TEST_NULLIFIER_DOMAIN :: string where
  "KYC_TEST_NULLIFIER_DOMAIN = ''eto.kyc.us-test.mock-v1''"

definition KYC_TEST_SCHEMA_ID_HEX :: "(string \<Rightarrow> string) \<Rightarrow> string" where
  "KYC_TEST_SCHEMA_ID_HEX sha = sha ''eto.beckn.schema.kyc.us-test.v1''"

definition MAX_NAME_LEN :: nat where
  "MAX_NAME_LEN = 200"

definition MIN_NAME_LEN :: nat where
  "MIN_NAME_LEN = 1"

section \<open>Form validation\<close>

text \<open>\<open>replace(/\s+/g, " ")\<close>.\<close>

function collapse :: "string \<Rightarrow> string" where
  "collapse [] = []"
| "collapse (c # cs) = (if is_space c then CHR '' '' # collapse (dropWhile is_space cs) else c # collapse cs)"
  by pat_completeness auto
termination
  by (relation "measure length") (auto simp: length_dropWhile_le less_Suc_eq_le)

definition normalizeName :: "string \<Rightarrow> string" where
  "normalizeName name = to_lower (collapse (trim name))"

text \<open>\<open>/^[0-9]{4}-[0-9]{2}-[0-9]{2}$/\<close>.\<close>

definition DOB_REGEX :: "string \<Rightarrow> bool" where
  "DOB_REGEX s = (length s = 10 \<and> list_all is_digit (slice 0 4 s) \<and> s ! 4 = CHR ''-'' \<and> list_all is_digit (slice 5 7 s)
     \<and> s ! 7 = CHR ''-'' \<and> list_all is_digit (slice 8 10 s))"

definition isPlausibleGregorianDate :: "string \<Rightarrow> bool" where
  "isPlausibleGregorianDate s = (let year = int (parse_nat (slice 0 4 s)); month = int (parse_nat (slice 5 7 s));
       day = int (parse_nat (slice 8 10 s))
     in if year < 1900 \<or> 2100 < year then False
        else if month < 1 \<or> 12 < month then False
        else if day < 1 \<or> 31 < day then False
        else (case Date_UTC year (month - 1) day of None \<Rightarrow> False
              | Some t \<Rightarrow> getUTCFullYear t = year \<and> getUTCMonth t = month - 1 \<and> getUTCDate t = day))"

definition ky_invalid :: "string \<Rightarrow> kyc_error" where
  "ky_invalid detail = KycTestIssueError KyInvalidForm (Some detail)"

text \<open>The validated fields: the name and the date as submitted, the normalized name, the start and the
  tag.\<close>

record NormalizedSubmission =
  kyn_fullName :: string
  kyn_normName :: string
  kyn_dobIso :: string
  kyn_started :: int
  kyn_tag :: string

definition validateAndNormalizeSubmission :: "KycTestFormSubmission \<Rightarrow> (kyc_error, NormalizedSubmission) result" where
  "validateAndNormalizeSubmission s = (case kys_fullName s of VStr fullName \<Rightarrow>
     (case kys_dobIso s of VStr dobIso \<Rightarrow>
     (case kys_flowStartedAtUnix s of VNum n \<Rightarrow>
       (if \<not> isFinite n \<or> \<not> isInteger n then Inl (ky_invalid ''shape_started'')
        else case kys_formTokenHmacHex s of VStr tag \<Rightarrow>
          let normName = normalizeName fullName
          in if length normName < MIN_NAME_LEN \<or> MAX_NAME_LEN < length normName then Inl (ky_invalid ''len_name'')
             else if \<not> DOB_REGEX dobIso then Inl (ky_invalid ''shape_dob'')
             else if \<not> isPlausibleGregorianDate dobIso then Inl (ky_invalid ''value_dob'')
             else (case n of JInt i \<Rightarrow>
                Inr \<lparr>kyn_fullName = fullName, kyn_normName = normName, kyn_dobIso = dobIso, kyn_started = i, kyn_tag = tag\<rparr>
              | _ \<Rightarrow> Inl (ky_invalid ''shape_started''))
        | _ \<Rightarrow> Inl (ky_invalid ''type_tag''))
      | _ \<Rightarrow> Inl (ky_invalid ''type_started''))
      | _ \<Rightarrow> Inl (ky_invalid ''type_dob''))
      | _ \<Rightarrow> Inl (ky_invalid ''type_name''))"

definition kyc_deriveNullifier :: "(string \<Rightarrow> string) \<Rightarrow> string \<Rightarrow> string \<Rightarrow> string" where
  "kyc_deriveNullifier sha normName dobIso = sha (KYC_TEST_NULLIFIER_DOMAIN @ ''|'' @ normName @ ''|'' @ dobIso)"

section \<open>Form token\<close>

text \<open>The constructor's check of the secret.\<close>

definition hmacSigner_ok :: "nat list \<Rightarrow> bool" where
  "hmacSigner_ok secret = (\<not> length secret < 16)"

definition token_canonical :: "string \<Rightarrow> string \<Rightarrow> jsnumber \<Rightarrow> string" where
  "token_canonical fullName dobIso flowStartedAtUnix =
     fullName @ [CHR 0x1F] @ dobIso @ [CHR 0x1F] @ number_toString flowStartedAtUnix"

definition token_sign :: "(nat list \<Rightarrow> nat list \<Rightarrow> string) \<Rightarrow> nat list \<Rightarrow> string \<Rightarrow> string \<Rightarrow> jsnumber \<Rightarrow> string" where
  "token_sign hmac secret fullName dobIso started = hmac secret (utf8 (token_canonical fullName dobIso started))"

definition token_verify :: "(nat list \<Rightarrow> nat list \<Rightarrow> string) \<Rightarrow> nat list \<Rightarrow> string \<Rightarrow> string \<Rightarrow> jsnumber \<Rightarrow> string \<Rightarrow> bool" where
  "token_verify hmac secret fullName dobIso started tag = (let expected = token_sign hmac secret fullName dobIso started
     in if length expected \<noteq> length tag then False
        else case timing_safe_equal (buffer_from_hex expected) (buffer_from_hex tag) of None \<Rightarrow> False | Some b \<Rightarrow> b)"

text \<open>The tag that \<open>renderKycTestFormHtml\<close> puts in the form.\<close>

definition render_baselineTag :: "(nat list \<Rightarrow> nat list \<Rightarrow> string) \<Rightarrow> nat list \<Rightarrow> int \<Rightarrow> string" where
  "render_baselineTag hmac secret flowStartedAtUnix = token_sign hmac secret [] [] (JInt flowStartedAtUnix)"

text \<open>\<open>escapeHtml\<close>: five global replacements one after the other.\<close>

definition replace_char :: "char \<Rightarrow> string \<Rightarrow> string \<Rightarrow> string" where
  "replace_char c r s = concat (map (\<lambda>x. if x = c then r else [x]) s)"

definition escapeHtml :: "string \<Rightarrow> string" where
  "escapeHtml value = replace_char CHR 0x27 ''&#39;'' (replace_char CHR 0x22 ''&quot;''
     (replace_char (CHR ''>'') ''&gt;'' (replace_char (CHR ''<'') ''&lt;'' (replace_char (CHR ''&'') ''&amp;'' value))))"

section \<open>Wallet binding\<close>

text \<open>\<open>ed25519KycTestSignatureVerifier\<close>: every decoding failure is \<open>false\<close>. \<open>sha_bytes\<close> is the digest as
  bytes and \<open>ed25519\<close> the check of message, key and signature, \<open>None\<close> when it throws.\<close>

definition ed25519KycTestSignatureVerifier ::
  "(nat list \<Rightarrow> nat list) \<Rightarrow> (string \<Rightarrow> nat list) \<Rightarrow> (nat list \<Rightarrow> nat list \<Rightarrow> nat list \<Rightarrow> bool option)
   \<Rightarrow> string \<Rightarrow> string \<Rightarrow> string \<Rightarrow> bool" where
  "ed25519KycTestSignatureVerifier sha_bytes decode64 ed25519 nullifier agentCardPubkey signature =
     (case hexToBytes nullifier of None \<Rightarrow> False | Some nullifierBytes \<Rightarrow>
      if length nullifierBytes \<noteq> 32 then False
      else case base58Decode agentCardPubkey of None \<Rightarrow> False | Some cardBytes \<Rightarrow>
      if length cardBytes \<noteq> 32 then False
      else let sigBytes = decode64 signature
      in if length sigBytes \<noteq> 64 then False
         else case ed25519 (sha_bytes (nullifierBytes @ cardBytes)) cardBytes sigBytes of None \<Rightarrow> False | Some b \<Rightarrow> b)"

section \<open>Issuing\<close>

definition kyc_putIfAbsent :: "kyc_store \<Rightarrow> KycTestDedupeRow \<Rightarrow> KycTestDedupeRow \<times> kyc_store" where
  "kyc_putIfAbsent st row = (case st (kyr_nullifier row) of
       Some existing \<Rightarrow> (existing, st)
     | None \<Rightarrow> (row, st(kyr_nullifier row \<mapsto> row)))"

definition buildKycTestVc :: "string \<Rightarrow> string \<Rightarrow> string \<Rightarrow> string \<Rightarrow> string \<Rightarrow> string \<Rightarrow> json" where
  "buildKycTestVc agentCardPubkey issuerAuthorityPubkey name_hash dob_hash nullifier issuanceDate = JObj [
     (''@context'', JArr [JStr ''https://www.w3.org/2018/credentials/v1'', JStr ''https://schema.eto.dev/kyc-test/v1'']),
     (''type'', JArr [JStr ''VerifiableCredential'', JStr ''KycUsTestCredential'']),
     (''issuer'', JStr ''did:eto:kyc-us-test''),
     (''issuanceDate'', JStr issuanceDate),
     (''credentialSubject'', JObj [
        (''id'', JStr (''did:eto:agentcard:'' @ agentCardPubkey)),
        (''kycLevel'', JStr ''mock-test''),
        (''kycJurisdiction'', JStr ''us-test''),
        (''name_hash'', JStr name_hash),
        (''dob_hash'', JStr dob_hash),
        (''bridgeNullifier'', JStr nullifier)]),
     (''issuerAuthority'', JStr issuerAuthorityPubkey)]"

text \<open>A request that passed validation.\<close>

record kyc_pending =
  kyp_card :: string
  kyp_nullifier :: string
  kyp_normName :: string
  kyp_dobIso :: string
  kyp_nowUnix :: int

text \<open>Steps 1 to 4 up to the store: the form, the token, the dwell and the wallet signature.\<close>

definition kyc_issue_validate :: "(string \<Rightarrow> string) \<Rightarrow> KycTestIssuerDeps \<Rightarrow> KycTestIssueRequest \<Rightarrow> trace
    \<Rightarrow> (kyc_error, kyc_pending) result \<times> trace" where
  "kyc_issue_validate sha d q tr = (
     if kyq_agentCardPubkey q = [] then (Inl (ky_invalid ''empty_card''), tr)
     else case kyq_agentCardSignature q of
       VStr signature \<Rightarrow> if signature = [] then (Inl (KycTestIssueError KyInvalidAgentCardSignature (Some ''empty_signature'')), tr)
     else (case validateAndNormalizeSubmission (kyq_submission q) of Inl e \<Rightarrow> (Inl e, tr) | Inr n \<Rightarrow>
       if \<not> kyd_verifyToken d (kyn_fullName n) (kyn_dobIso n) (JInt (kyn_started n)) (kyn_tag n)
       then (Inl (KycTestIssueError KyInvalidToken None), tr)
       else let minDwell = (case kyd_minDwellSeconds d of None \<Rightarrow> KYC_TEST_MIN_DWELL_SECONDS | Some m \<Rightarrow> m);
                nowUnix = kyd_nowUnix d tr; dwell = js_sub nowUnix (kyn_started n)
       in if dwell < 0 then (Inl (KycTestIssueError KyDwellInFuture (Some (''now='' @ number_toString (JInt nowUnix)
               @ '' started='' @ number_toString (JInt (kyn_started n))))), tr)
          else if dwell < minDwell then (Inl (KycTestIssueError KyDwellTooShort (Some (''dwell='' @ number_toString (JInt dwell)))), tr)
          else let nullifier = kyc_deriveNullifier sha (kyn_normName n) (kyn_dobIso n);
                   tr1 = tr @ [EVerify nullifier]
          in case kyd_verifySignature d tr (nullifier, kyq_agentCardPubkey q, signature) of
               Inl e \<Rightarrow> (Inl (KyUncaught e), tr1)
             | Inr sigOk \<Rightarrow> if \<not> sigOk then (Inl (KycTestIssueError KyInvalidAgentCardSignature None), tr1)
                 else (Inr \<lparr>kyp_card = kyq_agentCardPubkey q, kyp_nullifier = nullifier, kyp_normName = kyn_normName n,
                            kyp_dobIso = kyn_dobIso n, kyp_nowUnix = nowUnix\<rparr>, tr1))
     | _ \<Rightarrow> (Inl (KycTestIssueError KyInvalidAgentCardSignature (Some ''empty_signature'')), tr))"

definition kyc_issue_lookup :: "kyc_store \<Rightarrow> kyc_pending \<Rightarrow> (kyc_error, KycTestIssueResponse) result + kyc_pending" where
  "kyc_issue_lookup st p = (case st (kyp_nullifier p) of
       Some existing \<Rightarrow>
         if kyr_agentCardPubkey existing = kyp_card p
         then Inl (Inr (KyIdempotent (kyr_credentialPda existing) (kyr_txSignature existing) (kyr_claimUri existing) (kyp_nullifier p)))
         else Inl (Inl (KycTestIssueError KyReplayConflict (Some (''bound_card='' @ kyr_agentCardPubkey existing))))
     | None \<Rightarrow> Inr p)"

type_synonym kyc_minted = "chain_result \<times> string \<times> string"

text \<open>Step 5: build, pin and submit.\<close>

definition kyc_issue_mint :: "(string \<Rightarrow> string) \<Rightarrow> KycTestIssuerDeps \<Rightarrow> kyc_pending \<Rightarrow> trace
    \<Rightarrow> (kyc_error, kyc_minted) result \<times> trace" where
  "kyc_issue_mint sha d p tr = (case kyd_clock d tr () of Inl e \<Rightarrow> (Inl (KyUncaught e), tr) | Inr slot \<Rightarrow>
     case toISOString (js_mul (kyp_nowUnix p) 1000) of None \<Rightarrow> (Inl (KyUncaught ''RangeError''), tr) | Some issuanceDate \<Rightarrow>
     let vc = buildKycTestVc (kyp_card p) (kyd_issuerAuthorityPubkey d) (sha (kyp_normName p)) (sha (kyp_dobIso p))
                (kyp_nullifier p) issuanceDate
     in case jcsStringify vc of Inl _ \<Rightarrow> (Inl (KyUncaught ''Error''), tr) | Inr claimJcs \<Rightarrow>
     let claimHashHex = sha claimJcs; tr1 = tr @ [EPin claimJcs]
     in case kyd_pinner d tr claimJcs of Inl e \<Rightarrow> (Inl (KyUncaught e), tr1) | Inr claimUri \<Rightarrow>
     let input = \<lparr>ii_subject = kyp_card p, ii_schemaId = KYC_TEST_SCHEMA_ID_HEX sha, ii_claimUri = claimUri,
                  ii_claimHash = claimHashHex, ii_validFromSlot = slot, ii_validUntilSlot = 0\<rparr>;
         tr2 = tr1 @ [EIssue input]
     in case kyd_chain d tr1 input of Inl _ \<Rightarrow> (Inl (KycTestIssueError KyChainFailed None), tr2)
        | Inr chainResult \<Rightarrow> (Inr (chainResult, claimUri, claimHashHex), tr2))"

text \<open>Step 6: the row already there wins.\<close>

definition kyc_issue_finish :: "kyc_store \<Rightarrow> kyc_pending \<Rightarrow> (kyc_error, kyc_minted) result
    \<Rightarrow> (kyc_error, KycTestIssueResponse) result \<times> kyc_store" where
  "kyc_issue_finish st p m = (case m of Inl e \<Rightarrow> (Inl e, st) | Inr (chainResult, claimUri, claimHashHex) \<Rightarrow>
     let (winner, st') = kyc_putIfAbsent st \<lparr>kyr_nullifier = kyp_nullifier p, kyr_agentCardPubkey = kyp_card p,
            kyr_credentialPda = cr_credentialPda chainResult, kyr_txSignature = cr_txSignature chainResult,
            kyr_claimUri = claimUri, kyr_issuedAtUnix = kyp_nowUnix p\<rparr>
     in if kyr_agentCardPubkey winner \<noteq> kyp_card p
        then (Inl (KycTestIssueError KyReplayConflict (Some (''bound_card='' @ kyr_agentCardPubkey winner))), st')
        else if kyr_credentialPda winner \<noteq> cr_credentialPda chainResult
        then (Inr (KyIdempotent (kyr_credentialPda winner) (kyr_txSignature winner) (kyr_claimUri winner) (kyp_nullifier p)), st')
        else (Inr (KyIssued (cr_credentialPda chainResult) (cr_txSignature chainResult) claimUri claimHashHex (kyp_nullifier p)), st'))"

text \<open>\<open>others1\<close> and \<open>others2\<close> are what other requests do to the store during the signature check and
  during the mint.\<close>

definition issueKycTest :: "(string \<Rightarrow> string) \<Rightarrow> KycTestIssuerDeps \<Rightarrow> (kyc_store \<Rightarrow> kyc_store) \<Rightarrow> (kyc_store \<Rightarrow> kyc_store)
    \<Rightarrow> KycTestIssueRequest \<Rightarrow> kyc_store \<Rightarrow> trace \<Rightarrow> (kyc_error, KycTestIssueResponse) result \<times> kyc_store \<times> trace" where
  "issueKycTest sha d others1 others2 q st tr = (case kyc_issue_validate sha d q tr of
       (Inl e, tr1) \<Rightarrow> (Inl e, if tr1 = tr then st else others1 st, tr1)
     | (Inr p, tr1) \<Rightarrow> let st1 = others1 st
       in case kyc_issue_lookup st1 p of
            Inl r \<Rightarrow> (r, st1, tr1)
          | Inr p \<Rightarrow> let (m, tr2) = kyc_issue_mint sha d p tr1; (r, st2) = kyc_issue_finish (others2 st1) p m
                     in (r, st2, tr2))"

section \<open>Specification\<close>

definition kyc_binding :: "kyc_store \<Rightarrow> string \<Rightarrow> (string \<times> string) option" where
  "kyc_binding st k = map_option (\<lambda>r. (kyr_agentCardPubkey r, kyr_credentialPda r)) (st k)"

fun kyc_success :: "kyc_pending \<times> (kyc_error, KycTestIssueResponse) result \<Rightarrow> (string \<times> string \<times> string) option" where
  "kyc_success (p, Inr (KyIssued pda sig uri h k)) = Some (k, kyp_card p, pda)"
| "kyc_success (p, Inr (KyIdempotent pda sig uri k)) = Some (k, kyp_card p, pda)"
| "kyc_success (p, Inl e) = None"

definition kyc_start :: "kyc_store \<Rightarrow> kyc_pending \<Rightarrow> kyc_pending \<times> (kyc_error, KycTestIssueResponse) result + kyc_pending" where
  "kyc_start st p = (case kyc_issue_lookup st p of Inl r \<Rightarrow> Inl (p, r) | Inr p \<Rightarrow> Inr p)"

definition kyc_finish :: "kyc_store \<Rightarrow> kyc_pending \<Rightarrow> (kyc_error, kyc_minted) result
    \<Rightarrow> (kyc_pending \<times> (kyc_error, KycTestIssueResponse) result) \<times> kyc_store" where
  "kyc_finish st p m = (case kyc_issue_finish st p m of (r, st') \<Rightarrow> ((p, r), st'))"

text \<open>The store has no operation beside \<open>get\<close> and \<open>putIfAbsent\<close>.\<close>

definition kyc_aux :: "kyc_store \<Rightarrow> unit \<Rightarrow> kyc_store" where
  "kyc_aux st u = st"

text \<open>The escape of one character.\<close>

definition html_escape_char :: "char \<Rightarrow> string" where
  "html_escape_char c = (if c = CHR ''&'' then ''&amp;'' else if c = CHR ''<'' then ''&lt;'' else if c = CHR ''>'' then ''&gt;''
     else if c = CHR 0x22 then ''&quot;'' else if c = CHR 0x27 then ''&#39;'' else [c])"

text \<open>Clients that always accept, and a submission, for examples.\<close>

definition kyc_example_deps :: KycTestIssuerDeps where
  "kyc_example_deps = \<lparr>kyd_verifyToken = (\<lambda>n b t tag. True), kyd_verifySignature = (\<lambda>tr x. Inr True),
     kyd_chain = (\<lambda>tr i. Inr \<lparr>cr_credentialPda = ''pda'', cr_txSignature = ''tx''\<rparr>), kyd_pinner = (\<lambda>tr c. Inr ''uri''),
     kyd_clock = (\<lambda>tr u. Inr 7), kyd_issuerAuthorityPubkey = ''auth'', kyd_minDwellSeconds = None, kyd_nowUnix = (\<lambda>tr. 100)\<rparr>"

definition kyc_example_request :: KycTestIssueRequest where
  "kyc_example_request = \<lparr>kyq_submission = \<lparr>kys_fullName = VStr ''Ada'', kys_dobIso = VStr ''1990-01-31'',
       kys_flowStartedAtUnix = VNum (JInt 50), kys_formTokenHmacHex = VStr ''tag''\<rparr>,
     kyq_agentCardPubkey = ''card'', kyq_agentCardSignature = VStr ''sig''\<rparr>"

section \<open>Lemmas: the concurrent system\<close>

lemma kyc_start_answers:
  "kyc_start st q = Inl r \<Longrightarrow> kyc_success r = Some (k, b) \<Longrightarrow> kyc_binding st k = Some b"
  by (auto simp: kyc_start_def kyc_issue_lookup_def kyc_binding_def split: sum.splits option.splits if_splits)

lemma kyc_finish_binds:
  "kyc_finish st q m = (r, st') \<Longrightarrow> kyc_success r = Some (k, b) \<Longrightarrow> kyc_binding st' k = Some b"
  by (cases m) (auto simp: kyc_finish_def kyc_issue_finish_def kyc_binding_def kyc_putIfAbsent_def Let_def
      split: prod.splits option.splits if_splits)

lemma kyc_finish_keeps:
  "kyc_finish st q m = (r, st') \<Longrightarrow> kyc_binding st k = Some b \<Longrightarrow> kyc_binding st' k = Some b"
  by (cases m) (auto simp: kyc_finish_def kyc_issue_finish_def kyc_binding_def kyc_putIfAbsent_def Let_def
      split: prod.splits option.splits if_splits)

interpretation kyc: concurrent_issuer kyc_start kyc_finish kyc_aux kyc_binding kyc_success
  by unfold_locales (auto intro: kyc_start_answers kyc_finish_binds kyc_finish_keeps simp: kyc_aux_def)

section \<open>Lemmas: hexadecimal tags\<close>

lemma token_verify_iff:
  assumes "HEX64_LOWER (token_sign hmac secret name dob started)"
  shows "token_verify hmac secret name dob started tag \<longleftrightarrow> to_lower tag = token_sign hmac secret name dob started"
proof -
  let ?e = "token_sign hmac secret name dob started"
  have e: "list_all is_lower_hex ?e" "even (length ?e)" using assms by (simp_all add: HEX64_LOWER_def)
  show ?thesis
  proof (cases "length tag = length ?e")
    case True
    then show ?thesis using buffer_from_hex_eq [OF e(1) True e(2)]
      by (auto simp: token_verify_def Let_def timing_safe_equal_def)
  next
    case False
    then have "to_lower tag \<noteq> ?e" by (metis length_to_lower)
    with False show ?thesis by (auto simp: token_verify_def Let_def)
  qed
qed

text \<open>The signed text determines the fields: the date and the number contain no separator.\<close>

lemma last_separator:
  assumes "a @ [c] @ b = a' @ [c] @ b'" "c \<notin> set b" "c \<notin> set b'"
  shows "a = a' \<and> b = b'"
proof -
  have "takeWhile (\<lambda>x. x \<noteq> c) (rev b @ [c] @ rev a) = rev b"
    "takeWhile (\<lambda>x. x \<noteq> c) (rev b' @ [c] @ rev a') = rev b'"
    using assms(2,3) by (auto simp: takeWhile_append takeWhile_eq_all_conv)
  moreover have "rev b @ [c] @ rev a = rev b' @ [c] @ rev a'" using arg_cong [OF assms(1), of rev] by simp
  ultimately show ?thesis using assms(1) by auto
qed

lemma show_int_no_separator: "CHR 0x1F \<notin> set (show_int i)"
proof -
  have "CHR 0x1F \<notin> set (show_nat n)" for n
    using show_nat_digits [of n] by (auto simp: list_all_iff is_digit_def code_def)
  then show ?thesis by (simp add: show_int_def)
qed

lemma token_canonical_inject:
  assumes "token_canonical name dob (JInt t) = token_canonical name' dob' (JInt t')"
    and "CHR 0x1F \<notin> set dob" "CHR 0x1F \<notin> set dob'" "\<bar>t\<bar> \<le> 2 ^ 53" "\<bar>t'\<bar> \<le> 2 ^ 53"
  shows "name = name' \<and> dob = dob' \<and> t = t'"
proof -
  have "(name @ [CHR 0x1F] @ dob) @ [CHR 0x1F] @ show_int t = (name' @ [CHR 0x1F] @ dob') @ [CHR 0x1F] @ show_int t'"
    using assms by (simp add: token_canonical_def)
  from last_separator [OF this show_int_no_separator show_int_no_separator]
  show ?thesis using last_separator [of name "CHR 0x1F" dob] assms(2,3) by simp
qed

lemma DOB_REGEX_chars:
  assumes "DOB_REGEX s" shows "length s = 10" "\<forall>c \<in> set s. is_digit c \<or> c = CHR ''-''"
proof -
  show len: "length s = 10" using assms by (simp add: DOB_REGEX_def)
  then obtain c0 c1 c2 c3 c4 c5 c6 c7 c8 c9 where "s = [c0, c1, c2, c3, c4, c5, c6, c7, c8, c9]"
    by (auto simp: length_Suc_conv numeral_eq_Suc)
  with assms show "\<forall>c \<in> set s. is_digit c \<or> c = CHR ''-''" by (simp add: DOB_REGEX_def slice_def)
qed

lemma DOB_REGEX_no_separator: "DOB_REGEX s \<Longrightarrow> CHR 0x1F \<notin> set s"
  using DOB_REGEX_chars(2) [of s] by (auto simp: is_digit_def code_def)

section \<open>Lemmas: names and dates\<close>

lemma is_space_lower_char [simp]: "is_space (lower_char c) = is_space c"
  by (auto simp: is_space_def code_lower_char is_upper_def)

lemma dropWhile_to_lower: "dropWhile is_space (to_lower s) = to_lower (dropWhile is_space s)"
  by (simp add: to_lower_def dropWhile_map comp_def)

lemma trim_to_lower: "trim (to_lower s) = to_lower (trim s)"
  using dropWhile_to_lower by (simp add: trim_def to_lower_def rev_map)

lemma blank_lower: "lower_char (CHR '' '') = CHR '' ''" "is_space (CHR '' '')"
  by (simp_all add: lower_char_def is_upper_def is_space_def code_def)

lemma collapse_to_lower: "collapse (to_lower s) = to_lower (collapse s)"
proof (induction s rule: collapse.induct)
  case (2 c cs)
  then show ?case
    using dropWhile_to_lower [of cs] blank_lower by (auto simp: to_lower_def)
qed (simp add: to_lower_def)

lemma collapse_no_double: "dropWhile is_space (collapse s) = collapse (dropWhile is_space s)"
proof (induction s rule: collapse.induct)
  case (2 c cs)
  then show ?case using blank_lower(2) by simp
qed simp

lemma collapse_idem: "collapse (collapse s) = collapse s"
proof (induction s rule: collapse.induct)
  case (2 c cs)
  show ?case
  proof (cases "is_space c")
    case True
    moreover have "dropWhile is_space (collapse (dropWhile is_space cs)) = collapse (dropWhile is_space cs)"
      by (simp add: collapse_no_double)
    ultimately show ?thesis using 2 blank_lower(2) by simp
  qed (use 2 in simp)
qed simp

lemma collapse_append_nonspace: "\<not> is_space c \<Longrightarrow> collapse (s @ [c]) = collapse s @ [c]"
proof (induction s rule: collapse.induct)
  case (2 d cs)
  then show ?case
  proof (cases "\<forall>x \<in> set cs. is_space x")
    case True
    then have e: "dropWhile is_space cs = []" by simp
    show ?thesis using 2 True unfolding append_Cons collapse.simps e by (simp add: dropWhile_append)
  next
    case False
    then show ?thesis using 2 by (auto simp: dropWhile_append)
  qed
qed simp

lemma trimmed: "s = [] \<or> (\<not> is_space (hd s) \<and> \<not> is_space (last s)) \<Longrightarrow> trim s = s"
proof -
  assume s: "s = [] \<or> (\<not> is_space (hd s) \<and> \<not> is_space (last s))"
  have "dropWhile is_space s = s" using s by (cases s) auto
  moreover have "dropWhile is_space (rev s) = rev s" using s by (cases s rule: rev_cases) auto
  ultimately show "trim s = s" by (simp add: trim_def)
qed

lemma trim_ends: "trim s = [] \<or> (\<not> is_space (hd (trim s)) \<and> \<not> is_space (last (trim s)))"
proof -
  define u where "u = dropWhile is_space s"
  have u: "u = [] \<or> \<not> is_space (hd u)" unfolding u_def by (metis hd_dropWhile)
  define v where "v = dropWhile is_space (rev u)"
  have v: "v = [] \<or> \<not> is_space (hd v)" unfolding v_def by (metis hd_dropWhile)
  have t: "trim s = rev v" by (simp add: trim_def u_def v_def)
  have "last v = hd u" if "v \<noteq> []"
    using that unfolding v_def by (metis hd_rev last_appendR rev_rev_ident takeWhile_dropWhile_id)
  moreover have "v \<noteq> [] \<Longrightarrow> u \<noteq> []" by (auto simp: v_def)
  ultimately show ?thesis using u v t by (auto simp: hd_rev last_rev)
qed

lemma collapse_ends:
  assumes "s \<noteq> []" "\<not> is_space (hd s)" "\<not> is_space (last s)"
  shows "collapse s \<noteq> [] \<and> hd (collapse s) = hd s \<and> last (collapse s) = last s"
proof -
  obtain t c where s: "s = t @ [c]" using assms(1) by (cases s rule: rev_cases) auto
  then have "last (collapse s) = last s" using assms(3) by (simp add: collapse_append_nonspace)
  moreover have "collapse s \<noteq> [] \<and> hd (collapse s) = hd s" using assms(1,2) by (cases s) auto
  ultimately show ?thesis by simp
qed

lemma normalizeName_idem: "normalizeName (normalizeName s) = normalizeName s"
proof -
  have "trim (collapse (trim s)) = collapse (trim s)"
    using trim_ends [of s] collapse_ends [of "trim s"] by (cases "trim s = []") (auto intro!: trimmed)
  then show ?thesis
    by (simp add: normalizeName_def trim_to_lower collapse_to_lower collapse_idem)
qed

lemma Date_UTC_in_range:
  assumes "1900 \<le> y" "y \<le> 2100" "0 \<le> m" "m < 12" "1 \<le> d" "d \<le> 31"
  shows "Date_UTC y m d = Some (MakeDay y m d * msPerDay)"
proof -
  have "DayFromYear 1900 \<le> DayFromYear y" "DayFromYear y \<le> DayFromYear 2100"
    using assms by (simp_all add: DayFromYear_mono)
  moreover have "0 \<le> month_start (InLeapYear y) ! nat m" "month_start (InLeapYear y) ! nat m \<le> 335"
    using month_cases [OF assms(3,4)] by (auto simp: month_start_def)
  moreover have "DayFromYear 1900 = - 25567" "DayFromYear 2100 = 47482" by (simp_all add: DayFromYear_def)
  ultimately have "\<bar>MakeDay y m d\<bar> \<le> 100000000"
    using assms by (simp add: MakeDay_def)
  then show ?thesis using assms by (simp add: Date_UTC_def TimeClip_def msPerDay_def)
qed

lemma escapeHtml_chars: "escapeHtml s = concat (map html_escape_char s)"
proof -
  have cm: "replace_char c r (concat (map f s)) = concat (map (\<lambda>x. replace_char c r (f x)) s)" for c r f s
    by (induction s) (simp_all add: replace_char_def)
  have one: "escapeHtml [x] = html_escape_char x" for x
    by (simp add: escapeHtml_def replace_char_def html_escape_char_def)
  have id: "concat (map (\<lambda>x. [x]) s) = s" by (induction s) simp_all
  have "escapeHtml (concat (map (\<lambda>x. [x]) s)) = concat (map (\<lambda>x. escapeHtml [x]) s)"
    by (simp only: escapeHtml_def cm)
  then show ?thesis by (simp add: one id)
qed

lemma kyc_validate_ok:
  assumes "validateAndNormalizeSubmission s = Inr n"
  shows "DOB_REGEX (kyn_dobIso n) \<and> isPlausibleGregorianDate (kyn_dobIso n) \<and> kyn_normName n = normalizeName (kyn_fullName n)
    \<and> kyn_normName n \<noteq> [] \<and> length (kyn_normName n) \<le> 200
    \<and> kys_fullName s = VStr (kyn_fullName n) \<and> kys_dobIso s = VStr (kyn_dobIso n)
    \<and> kys_flowStartedAtUnix s = VNum (JInt (kyn_started n)) \<and> kys_formTokenHmacHex s = VStr (kyn_tag n)"
  using assms
  by (auto simp: validateAndNormalizeSubmission_def Let_def MIN_NAME_LEN_def MAX_NAME_LEN_def not_less
      split: js_value.splits jsnumber.splits if_splits)

lemma kyc_issue_validate_ok:
  assumes "kyc_issue_validate sha d q tr = (Inr p, tr1)"
  obtains n signature where "validateAndNormalizeSubmission (kyq_submission q) = Inr n" "kyq_agentCardPubkey q \<noteq> []"
    "kyd_verifyToken d (kyn_fullName n) (kyn_dobIso n) (JInt (kyn_started n)) (kyn_tag n)"
    "0 \<le> js_sub (kyp_nowUnix p) (kyn_started n)"
    "(case kyd_minDwellSeconds d of None \<Rightarrow> KYC_TEST_MIN_DWELL_SECONDS | Some m \<Rightarrow> m) \<le> js_sub (kyp_nowUnix p) (kyn_started n)"
    "kyp_nullifier p = kyc_deriveNullifier sha (kyn_normName n) (kyn_dobIso n)" "kyp_card p = kyq_agentCardPubkey q"
    "kyq_agentCardSignature q = VStr signature"
    "kyd_verifySignature d tr (kyp_nullifier p, kyq_agentCardPubkey q, signature) = Inr True"
    "tr1 = tr @ [EVerify (kyp_nullifier p)]" "kyp_nowUnix p = kyd_nowUnix d tr"
  using assms
  by (auto simp: kyc_issue_validate_def Let_def split: if_splits sum.splits js_value.splits)

lemma kyc_issue_validate_trace:
  "kyc_issue_validate sha d q tr = (r, tr1) \<Longrightarrow> tr1 = tr \<or> (\<exists>k. tr1 = tr @ [EVerify k])"
  by (auto simp: kyc_issue_validate_def Let_def split: if_splits sum.splits js_value.splits)

section \<open>Properties\<close>

text \<open>However concurrent requests interleave, two successful answers for the same identity (the
  nullifier of name and date of birth) name the same AgentCard and the same credential: one identity
  never gets credentials on two cards.\<close>

theorem kyc_answers_agree:
  assumes "issuance_run kyc_start kyc_finish kyc_aux st0 st ps rs" "r \<in> set rs" "r' \<in> set rs"
    "kyc_success r = Some (k, b)" "kyc_success r' = Some (k, b')"
  shows "b = b' \<and> kyc_binding st k = Some b"
  using kyc.answers_agree [OF assms] kyc.answers_bound [OF assms(1,2,4)] by simp

theorem kyc_answers_agree_witness:
  "let p = \<lparr>kyp_card = ''card'', kyp_nullifier = ''n'', kyp_normName = ''ada'', kyp_dobIso = ''1990-01-31'', kyp_nowUnix = 1\<rparr>;
       (r, st) = kyc_finish Map.empty p (Inr (\<lparr>cr_credentialPda = ''pda'', cr_txSignature = ''tx''\<rparr>, ''uri'', ''hash''))
   in kyc_success r = Some (''n'', ''card'', ''pda'') \<and> kyc_binding st ''n'' = Some (''card'', ''pda'')"
proof -
  define p where "p = \<lparr>kyp_card = ''card'', kyp_nullifier = ''n'', kyp_normName = ''ada'', kyp_dobIso = ''1990-01-31'', kyp_nowUnix = 1\<rparr>"
  define m :: "(kyc_error, kyc_minted) result"
    where "m = Inr (\<lparr>cr_credentialPda = ''pda'', cr_txSignature = ''tx''\<rparr>, ''uri'', ''hash'')"
  obtain r st where f: "kyc_finish Map.empty p m = (r, st)" by fastforce
  have s: "kyc_success r = Some (''n'', ''card'', ''pda'')"
    using f by (auto simp: kyc_finish_def kyc_issue_finish_def m_def p_def kyc_putIfAbsent_def)
  have "kyc_start Map.empty p = Inr p" by (simp add: kyc_start_def kyc_issue_lookup_def)
  from run_single [of kyc_start _ _ _ kyc_finish, OF this f] have "issuance_run kyc_start kyc_finish kyc_aux Map.empty st {#} [r]" .
  from kyc_answers_agree [OF this _ _ s s] f s show ?thesis by (simp add: p_def m_def)
qed

text \<open>C32. The gates of the KYC issuer: a request that succeeds, pins a claim or submits a transaction has
  a well-formed submission with a real date of birth, a verified form token, a start not in the future and at least the
  minimum dwell ago, and the wallet signature that the request itself carries was verified over this identity's nullifier
  and the card of the request.\<close>

theorem kyc_issue_gates:
  assumes "issueKycTest sha d others1 others2 q st tr = (r, st', tr')"
    and "is_ok r \<or> (\<exists>c. EPin c \<in> set (drop (length tr) tr')) \<or> (\<exists>i. EIssue i \<in> set (drop (length tr) tr'))"
  shows "\<exists>n signature. validateAndNormalizeSubmission (kyq_submission q) = Inr n \<and> kyq_agentCardSignature q = VStr signature
    \<and> kyq_agentCardPubkey q \<noteq> [] \<and> 0 \<le> js_sub (kyd_nowUnix d tr) (kyn_started n)
    \<and> DOB_REGEX (kyn_dobIso n) \<and> isPlausibleGregorianDate (kyn_dobIso n)
    \<and> kyd_verifyToken d (kyn_fullName n) (kyn_dobIso n) (JInt (kyn_started n)) (kyn_tag n)
    \<and> (case kyd_minDwellSeconds d of None \<Rightarrow> KYC_TEST_MIN_DWELL_SECONDS | Some m \<Rightarrow> m) \<le> js_sub (kyd_nowUnix d tr) (kyn_started n)
    \<and> kyd_verifySignature d tr (kyc_deriveNullifier sha (kyn_normName n) (kyn_dobIso n), kyq_agentCardPubkey q, signature) = Inr True"
proof -
  obtain v tr1 where v: "kyc_issue_validate sha d q tr = (v, tr1)" by fastforce
  show ?thesis
  proof (cases v)
    case (Inl e)
    with v assms have "\<not> is_ok r" "tr' = tr1" by (auto simp: issueKycTest_def)
    with assms(2) kyc_issue_validate_trace [OF v] show ?thesis by auto
  next
    case (Inr p)
    from kyc_issue_validate_ok [OF v [unfolded Inr]] obtain n signature where
      n: "validateAndNormalizeSubmission (kyq_submission q) = Inr n"
      "kyd_verifyToken d (kyn_fullName n) (kyn_dobIso n) (JInt (kyn_started n)) (kyn_tag n)"
      "(case kyd_minDwellSeconds d of None \<Rightarrow> KYC_TEST_MIN_DWELL_SECONDS | Some m \<Rightarrow> m) \<le> js_sub (kyp_nowUnix p) (kyn_started n)"
      "kyp_nullifier p = kyc_deriveNullifier sha (kyn_normName n) (kyn_dobIso n)" "kyp_nowUnix p = kyd_nowUnix d tr"
      "kyq_agentCardSignature q = VStr signature" "kyq_agentCardPubkey q \<noteq> []" "0 \<le> js_sub (kyp_nowUnix p) (kyn_started n)"
      "kyd_verifySignature d tr (kyp_nullifier p, kyq_agentCardPubkey q, signature) = Inr True" .
    with kyc_validate_ok [OF n(1)] show ?thesis by (intro exI [of _ n] exI [of _ signature]) simp
  qed
qed

theorem kyc_issue_gates_witness:
  "\<exists>n signature. validateAndNormalizeSubmission (kyq_submission kyc_example_request) = Inr n
     \<and> 30 \<le> js_sub 100 (kyn_started n)"
proof -
  define row where "row = \<lparr>kyr_nullifier = ''n'', kyr_agentCardPubkey = ''card'', kyr_credentialPda = ''pda'',
    kyr_txSignature = ''tx'', kyr_claimUri = ''uri'', kyr_issuedAtUnix = 0\<rparr>"
  have d: "DOB_REGEX ''1990-01-31''" "isPlausibleGregorianDate ''1990-01-31''" "normalizeName ''Ada'' = ''ada''" by code_simp+
  have "\<exists>tr'. issueKycTest (\<lambda>s. ''n'') kyc_example_deps id id kyc_example_request [''n'' \<mapsto> row] []
      = (Inr (KyIdempotent ''pda'' ''tx'' ''uri'' ''n''), [''n'' \<mapsto> row], tr')"
    by (simp add: issueKycTest_def kyc_issue_validate_def kyc_example_deps_def kyc_example_request_def
        validateAndNormalizeSubmission_def d MIN_NAME_LEN_def MAX_NAME_LEN_def KYC_TEST_MIN_DWELL_SECONDS_def
        kyc_deriveNullifier_def kyc_issue_lookup_def row_def Let_def)
  then obtain tr' where "issueKycTest (\<lambda>s. ''n'') kyc_example_deps id id kyc_example_request [''n'' \<mapsto> row] []
      = (Inr (KyIdempotent ''pda'' ''tx'' ''uri'' ''n''), [''n'' \<mapsto> row], tr')" by blast
  from kyc_issue_gates [OF this] show ?thesis by (auto simp: kyc_example_deps_def KYC_TEST_MIN_DWELL_SECONDS_def)
qed

text \<open>The date check accepts exactly the real dates of the Gregorian calendar from 1900 to 2100: among
  strings of the shape \<open>YYYY-MM-DD\<close>, the round trip through \<open>Date.UTC\<close> succeeds just when the month
  has that day.\<close>

theorem kyc_date_check:
  assumes "DOB_REGEX s"
  shows "isPlausibleGregorianDate s \<longleftrightarrow>
    (let y = int (parse_nat (slice 0 4 s)); m = int (parse_nat (slice 5 7 s)); d = int (parse_nat (slice 8 10 s))
     in 1900 \<le> y \<and> y \<le> 2100 \<and> 1 \<le> m \<and> m \<le> 12 \<and> 1 \<le> d \<and> d \<le> days_in_month y (m - 1))"
proof -
  define y m d where "y = int (parse_nat (slice 0 4 s))" and "m = int (parse_nat (slice 5 7 s))"
    and "d = int (parse_nat (slice 8 10 s))"
  have acc: "getUTCFullYear (n * msPerDay) = YearFromDay n \<and> getUTCMonth (n * msPerDay) = MonthFromDay n
      \<and> getUTCDate (n * msPerDay) = DateFromDay n" for n
    by (simp add: getUTCFullYear_def getUTCMonth_def getUTCDate_def msPerDay_def)
  show ?thesis
  proof (cases "1900 \<le> y \<and> y \<le> 2100 \<and> 1 \<le> m \<and> m \<le> 12 \<and> 1 \<le> d \<and> d \<le> 31")
    case True
    let ?n = "MakeDay y (m - 1) d"
    have "isPlausibleGregorianDate s \<longleftrightarrow> YearFromDay ?n = y \<and> MonthFromDay ?n = m - 1 \<and> DateFromDay ?n = d"
      using True acc [of ?n] Date_UTC_in_range [of y "m - 1" d]
      by (simp add: isPlausibleGregorianDate_def y_def [symmetric] m_def [symmetric] d_def [symmetric])
    also have "\<dots> \<longleftrightarrow> d \<le> days_in_month y (m - 1)"
      using True MakeDay_accessors [of "m - 1" d y] accessors_MakeDay [of ?n] by auto
    finally show ?thesis using True by (simp add: y_def [symmetric] m_def [symmetric] d_def [symmetric])
  next
    case False
    then show ?thesis
      using days_in_month_le [of y "m - 1"]
      by (auto simp: isPlausibleGregorianDate_def Let_def y_def [symmetric] m_def [symmetric] d_def [symmetric])
  qed
qed

theorem kyc_date_check_witness:
  "isPlausibleGregorianDate ''2000-02-29'' \<and> \<not> isPlausibleGregorianDate ''1900-02-29''"
proof -
  have "DOB_REGEX ''2000-02-29''" "DOB_REGEX ''1900-02-29''" by code_simp+
  moreover have "1900 \<le> (2000::int) \<and> days_in_month 2000 1 = 29 \<and> days_in_month 1900 1 = 28" by code_simp
  moreover have "parse_nat (slice 0 4 ''2000-02-29'') = 2000" "parse_nat (slice 5 7 ''2000-02-29'') = 2"
    "parse_nat (slice 8 10 ''2000-02-29'') = 29" "parse_nat (slice 0 4 ''1900-02-29'') = 1900"
    "parse_nat (slice 5 7 ''1900-02-29'') = 2" "parse_nat (slice 8 10 ''1900-02-29'') = 29"
    by (simp_all add: parse_nat_def slice_def code_def)
  ultimately show ?thesis using kyc_date_check [of "''2000-02-29''"] kyc_date_check [of "''1900-02-29''"] by simp
qed

text \<open>The form token binds what it signs: with an HMAC that prints 64 lowercase hex digits, a tag is
  accepted exactly when it is the HMAC of the signed text up to letter case, and the signed text of
  validated forms determines name, date and start. The tag that the rendered form carries signs an
  empty name and date, so for a validated form it is accepted only if the HMAC collides.\<close>

theorem kyc_form_token:
  assumes "\<forall>msg. HEX64_LOWER (hmac secret msg)"
    and "validateAndNormalizeSubmission s = Inr n" "validateAndNormalizeSubmission s' = Inr n'"
    and "\<bar>kyn_started n\<bar> \<le> 2 ^ 53" "\<bar>kyn_started n'\<bar> \<le> 2 ^ 53"
  shows "(token_verify hmac secret (kyn_fullName n) (kyn_dobIso n) (JInt (kyn_started n)) tag
            \<longleftrightarrow> to_lower tag = hmac secret (utf8 (token_canonical (kyn_fullName n) (kyn_dobIso n) (JInt (kyn_started n)))))
    \<and> (utf8 (token_canonical (kyn_fullName n) (kyn_dobIso n) (JInt (kyn_started n)))
         = utf8 (token_canonical (kyn_fullName n') (kyn_dobIso n') (JInt (kyn_started n')))
       \<longleftrightarrow> kyn_fullName n = kyn_fullName n' \<and> kyn_dobIso n = kyn_dobIso n' \<and> kyn_started n = kyn_started n')
    \<and> (token_verify hmac secret (kyn_fullName n) (kyn_dobIso n) (JInt (kyn_started n)) (render_baselineTag hmac secret (kyn_started n))
       \<longrightarrow> (\<exists>a b. a \<noteq> b \<and> hmac secret a = hmac secret b))"
proof -
  let ?c = "token_canonical (kyn_fullName n) (kyn_dobIso n) (JInt (kyn_started n))"
  have hex: "HEX64_LOWER (token_sign hmac secret a b t)" for a b t using assms(1) by (simp add: token_sign_def)
  have lower: "to_lower (hmac secret m) = hmac secret m" for m
    using assms(1) is_hex_of_lower by (auto simp: HEX64_LOWER_def list_all_iff to_lower_def map_idI)
  have dob: "CHR 0x1F \<notin> set (kyn_dobIso n)" "CHR 0x1F \<notin> set (kyn_dobIso n')"
    using kyc_validate_ok [OF assms(2)] kyc_validate_ok [OF assms(3)] DOB_REGEX_no_separator by blast+
  have iff: "token_verify hmac secret (kyn_fullName n) (kyn_dobIso n) (JInt (kyn_started n)) tag
            \<longleftrightarrow> to_lower tag = hmac secret (utf8 ?c)" for tag
    using token_verify_iff [OF hex] by (simp add: token_sign_def)
  have "kyn_dobIso n \<noteq> []" using kyc_validate_ok [OF assms(2)] DOB_REGEX_chars(1) by fastforce
  then have "?c \<noteq> token_canonical [] [] (JInt (kyn_started n))"
    using token_canonical_inject [of "kyn_fullName n" "kyn_dobIso n" "kyn_started n" "[]" "[]" "kyn_started n"] dob assms(4) by auto
  then have "utf8 ?c \<noteq> utf8 (token_canonical [] [] (JInt (kyn_started n)))" by simp
  then have base: "\<exists>a b. a \<noteq> b \<and> hmac secret a = hmac secret b"
    if "to_lower (render_baselineTag hmac secret (kyn_started n)) = hmac secret (utf8 ?c)"
    using that lower by (metis render_baselineTag_def token_sign_def)
  show ?thesis
    using iff base token_canonical_inject [OF _ dob assms(4,5)] by auto
qed

theorem kyc_form_token_witness:
  "\<exists>n. validateAndNormalizeSubmission (kyq_submission kyc_example_request) = Inr n
     \<and> token_verify (\<lambda>k m. replicate 64 (CHR ''0'')) [] (kyn_fullName n) (kyn_dobIso n) (JInt (kyn_started n)) (replicate 64 (CHR ''0''))"
proof -
  have d: "DOB_REGEX ''1990-01-31''" "isPlausibleGregorianDate ''1990-01-31''" "normalizeName ''Ada'' = ''ada''" by code_simp+
  have v: "validateAndNormalizeSubmission (kyq_submission kyc_example_request)
      = Inr \<lparr>kyn_fullName = ''Ada'', kyn_normName = ''ada'', kyn_dobIso = ''1990-01-31'', kyn_started = 50, kyn_tag = ''tag''\<rparr>"
    by (simp add: kyc_example_request_def validateAndNormalizeSubmission_def d MIN_NAME_LEN_def MAX_NAME_LEN_def)
  have z: "is_lower_hex (CHR ''0'')" "lower_char (CHR ''0'') = CHR ''0''"
    by (simp_all add: is_lower_hex_def is_digit_def lower_char_def is_upper_def code_def)
  have h: "\<forall>msg. HEX64_LOWER ((\<lambda>k m. replicate 64 (CHR ''0'')) [] msg)" using z by (simp add: HEX64_LOWER_def list_all_iff)
  from kyc_form_token [OF h v v, where tag = "replicate 64 (CHR ''0'')"] v z show ?thesis by (simp add: to_lower_def)
qed

end
