(* ===== verification/Worldcoin_Issuer.thy ===== *)
theory Worldcoin_Issuer
  imports Issuer_Base
begin

text \<open>
  The Worldcoin \<open>verified-human\<close> bridge, \<^verbatim>\<open>src/issuers/worldcoin.ts\<close> with its types in
  \<^verbatim>\<open>worldcoin.types.ts\<close>: the nullifier store, whose \<open>put\<close> throws on a duplicate, the issue flow
  in its six steps and the HTTP cloud verifier. The verifiers, the pinner and the chain are
  dependencies; \<open>sha\<close> is the SHA-256 hex digest.
\<close>

section \<open>Data\<close>

datatype WorldcoinVerificationLevel = Orb | Device

fun level_string :: "WorldcoinVerificationLevel \<Rightarrow> string" where
  "level_string Orb = ''orb''"
| "level_string Device = ''device''"

record WorldcoinIssueRequest =
  wcq_idToken :: string
  wcq_proof :: string
  wcq_merkleRoot :: string
  wcq_nullifierHash :: string
  wcq_verificationLevel :: WorldcoinVerificationLevel
  wcq_agentCardPubkey :: string
  wcq_agentCardSignature :: string

record WorldcoinIssueResponse =
  wca_credentialPda :: string
  wca_txSignature :: string
  wca_claimUri :: string
  wca_claimHash :: string
  wca_idempotent :: bool

record VerifiedIdToken =
  idt_sub :: string
  idt_aud :: string
  idt_iss :: string
  idt_exp :: jsnumber

record CloudVerifyResult =
  cvr_verificationLevel :: WorldcoinVerificationLevel
  cvr_nullifierHash :: string
  cvr_action :: string

record NullifierBinding =
  nb_nullifierHash :: string
  nb_agentCardPubkey :: string
  nb_credentialPda :: string
  nb_txSignature :: string
  nb_claimUri :: string
  nb_claimHash :: string
  nb_issuedAtMs :: int

type_synonym wc_store = "string \<rightharpoonup> NullifierBinding"

datatype WorldcoinIssuerErrorCode = INVALID_ID_TOKEN | INVALID_AGENT_CARD_SIGNATURE | PROOF_REJECTED
  | VERIFICATION_LEVEL_MISMATCH | ACTION_MISMATCH | NULLIFIER_BOUND_TO_OTHER_CARD | CHAIN_TX_FAILED | UPSTREAM_OUTAGE

text \<open>A typed error with its HTTP status, or another exception.\<close>

datatype wc_error = WorldcoinIssuerError WorldcoinIssuerErrorCode nat | WcUncaught string

record cloud_input =
  ci_proof :: string
  ci_merkleRoot :: string
  ci_nullifierHash :: string
  ci_signal :: string
  ci_action :: string

record WorldcoinIssuerConfig =
  wcc_appId :: string
  wcc_issuerUrl :: "string option"
  wcc_issuerDid :: string
  wcc_minVerificationLevel :: "WorldcoinVerificationLevel option"

record WorldcoinIssuerDeps =
  wcd_idTokenVerifier :: "(string, VerifiedIdToken) dep"
  wcd_cloudVerifier :: "trace \<Rightarrow> cloud_input \<Rightarrow> (wc_error, CloudVerifyResult) result"
  wcd_signatureVerifier :: "(string \<times> string \<times> string, bool) dep"
  wcd_chain :: "(issue_args, chain_result) dep"
  wcd_ipfs :: "(json, string) dep"
  wcd_hasher :: "json \<Rightarrow> string"
  wcd_now :: "trace \<Rightarrow> int"

definition VERIFIED_HUMAN_ACTION :: string where
  "VERIFIED_HUMAN_ACTION = ''eto.verified-human.v1''"

definition WORLDCOIN_ISSUER_URL :: string where
  "WORLDCOIN_ISSUER_URL = ''https://id.worldcoin.org''"

definition VERIFIED_HUMAN_SCHEMA_ID :: "(string \<Rightarrow> string) \<Rightarrow> string" where
  "VERIFIED_HUMAN_SCHEMA_ID sha = sha ''eto.beckn.schema.verified-human.v1''"

definition defaultClaimHasher :: "(string \<Rightarrow> string) \<Rightarrow> json \<Rightarrow> string" where
  "defaultClaimHasher sha v = sha (canonicalJson v)"

definition normalizeHex :: "string \<Rightarrow> string" where
  "normalizeHex input = to_lower (if starts_with ''0x'' input \<or> starts_with ''0X'' input then drop 2 input else input)"

section \<open>Nullifier store\<close>

definition wc_get :: "wc_store \<Rightarrow> string \<Rightarrow> NullifierBinding option" where
  "wc_get st nullifierHash = st (normalizeHex nullifierHash)"

text \<open>\<open>Inl\<close> is the error of a duplicate.\<close>

definition wc_put :: "wc_store \<Rightarrow> NullifierBinding \<Rightarrow> (string, unit) result \<times> wc_store" where
  "wc_put st b = (let key = normalizeHex (nb_nullifierHash b)
     in if st key \<noteq> None then (Inl ''already bound'', st) else (Inr (), st(key \<mapsto> b)))"

section \<open>Issuing\<close>

definition satisfiesLevel :: "WorldcoinVerificationLevel \<Rightarrow> WorldcoinVerificationLevel \<Rightarrow> bool" where
  "satisfiesLevel actual required = (if required = Device then True else actual = Orb)"

definition buildVerifiedHumanVc :: "string \<Rightarrow> string \<Rightarrow> WorldcoinVerificationLevel \<Rightarrow> string \<Rightarrow> string \<Rightarrow> string \<Rightarrow> json" where
  "buildVerifiedHumanVc issuerDid agentCardPubkey verificationLevel nullifierHash merkleRoot issuanceDate = JObj [
     (''@context'', JArr [JStr ''https://www.w3.org/2018/credentials/v1'', JStr ''https://schema.eto.dev/verified-human/v1'']),
     (''type'', JArr [JStr ''VerifiableCredential'', JStr ''VerifiedHumanCredential'']),
     (''issuer'', JStr issuerDid),
     (''issuanceDate'', JStr issuanceDate),
     (''credentialSubject'', JObj [
        (''id'', JStr (''did:eto:agentcard:'' @ agentCardPubkey)),
        (''verificationLevel'', JStr (level_string verificationLevel)),
        (''worldIdAction'', JStr VERIFIED_HUMAN_ACTION),
        (''worldIdNullifierHash'', JStr (normalizeHex nullifierHash)),
        (''worldIdMerkleRoot'', JStr (normalizeHex merkleRoot))])]"

text \<open>Steps 1 and 2: the OIDC token and the wallet signature.\<close>

definition wc_authenticate :: "WorldcoinIssuerConfig \<Rightarrow> WorldcoinIssuerDeps \<Rightarrow> WorldcoinIssueRequest \<Rightarrow> trace
    \<Rightarrow> (wc_error, unit) result \<times> trace" where
  "wc_authenticate cfg d q tr = (let tr1 = tr @ [EVerify (wcq_idToken q)] in
     case wcd_idTokenVerifier d tr (wcq_idToken q) of
       Inl _ \<Rightarrow> (Inl (WorldcoinIssuerError INVALID_ID_TOKEN 401), tr1)
     | Inr idClaims \<Rightarrow>
       let expectedIssuer = (case wcc_issuerUrl cfg of None \<Rightarrow> WORLDCOIN_ISSUER_URL | Some u \<Rightarrow> u)
       in if idt_iss idClaims \<noteq> expectedIssuer then (Inl (WorldcoinIssuerError INVALID_ID_TOKEN 401), tr1)
          else if idt_aud idClaims \<noteq> wcc_appId cfg then (Inl (WorldcoinIssuerError INVALID_ID_TOKEN 401), tr1)
          else let nowSec = js_floor_div (wcd_now d tr1) 1000
          in if js_leq (idt_exp idClaims) (JInt nowSec) then (Inl (WorldcoinIssuerError INVALID_ID_TOKEN 401), tr1)
          else let tr2 = tr1 @ [EVerify (wcq_agentCardSignature q)]
          in case wcd_signatureVerifier d tr1 (wcq_agentCardPubkey q, wcq_nullifierHash q, wcq_agentCardSignature q) of
               Inl e \<Rightarrow> (Inl (WcUncaught e), tr2)
             | Inr sigOk \<Rightarrow> if \<not> sigOk then (Inl (WorldcoinIssuerError INVALID_AGENT_CARD_SIGNATURE 401), tr2)
                            else (Inr (), tr2))"

definition wc_answer :: "NullifierBinding \<Rightarrow> WorldcoinIssueResponse" where
  "wc_answer b = \<lparr>wca_credentialPda = nb_credentialPda b, wca_txSignature = nb_txSignature b, wca_claimUri = nb_claimUri b,
     wca_claimHash = nb_claimHash b, wca_idempotent = True\<rparr>"

text \<open>Step 3: the idempotency pre-check.\<close>

definition wc_issue_lookup :: "wc_store \<Rightarrow> WorldcoinIssueRequest
    \<Rightarrow> (wc_error, WorldcoinIssueResponse) result + WorldcoinIssueRequest" where
  "wc_issue_lookup st q = (case wc_get st (normalizeHex (wcq_nullifierHash q)) of
       Some existing \<Rightarrow> if nb_agentCardPubkey existing = wcq_agentCardPubkey q then Inl (Inr (wc_answer existing))
         else Inl (Inl (WorldcoinIssuerError NULLIFIER_BOUND_TO_OTHER_CARD 409))
     | None \<Rightarrow> Inr q)"

text \<open>Step 4: what Worldcoin attests to.\<close>

definition wc_attest :: "(string \<Rightarrow> string) \<Rightarrow> WorldcoinIssuerConfig \<Rightarrow> WorldcoinIssuerDeps \<Rightarrow> WorldcoinIssueRequest \<Rightarrow> trace
    \<Rightarrow> (wc_error, CloudVerifyResult) result \<times> trace" where
  "wc_attest sha cfg d q tr = (
     let input = \<lparr>ci_proof = wcq_proof q, ci_merkleRoot = wcq_merkleRoot q, ci_nullifierHash = wcq_nullifierHash q,
                  ci_signal = sha (wcq_agentCardPubkey q), ci_action = VERIFIED_HUMAN_ACTION\<rparr>;
         tr1 = tr @ [EVerify (wcq_proof q)]
     in case wcd_cloudVerifier d tr input of
       Inl (WorldcoinIssuerError c s) \<Rightarrow> (Inl (WorldcoinIssuerError c s), tr1)
     | Inl (WcUncaught _) \<Rightarrow> (Inl (WorldcoinIssuerError UPSTREAM_OUTAGE 503), tr1)
     | Inr cloud \<Rightarrow>
       if normalizeHex (cvr_nullifierHash cloud) \<noteq> normalizeHex (wcq_nullifierHash q)
       then (Inl (WorldcoinIssuerError PROOF_REJECTED 400), tr1)
       else if cvr_action cloud \<noteq> VERIFIED_HUMAN_ACTION then (Inl (WorldcoinIssuerError ACTION_MISMATCH 400), tr1)
       else if (case wcc_minVerificationLevel cfg of None \<Rightarrow> False | Some l \<Rightarrow> \<not> satisfiesLevel (cvr_verificationLevel cloud) l)
       then (Inl (WorldcoinIssuerError VERIFICATION_LEVEL_MISMATCH 403), tr1)
       else if cvr_verificationLevel cloud \<noteq> wcq_verificationLevel q
       then (Inl (WorldcoinIssuerError VERIFICATION_LEVEL_MISMATCH 400), tr1)
       else (Inr cloud, tr1))"

text \<open>Steps 4 to 6 up to the store: attest, build and pin the credential, submit the transaction.\<close>

type_synonym wc_minted = "chain_result \<times> string \<times> string \<times> int"

definition wc_issue_mint :: "(string \<Rightarrow> string) \<Rightarrow> WorldcoinIssuerConfig \<Rightarrow> WorldcoinIssuerDeps \<Rightarrow> WorldcoinIssueRequest \<Rightarrow> trace
    \<Rightarrow> (wc_error, wc_minted) result \<times> trace" where
  "wc_issue_mint sha cfg d q tr = (case wc_attest sha cfg d q tr of (Inl e, tr1) \<Rightarrow> (Inl e, tr1) | (Inr cloud, tr1) \<Rightarrow>
     case toISOString (wcd_now d tr1) of None \<Rightarrow> (Inl (WcUncaught ''RangeError''), tr1) | Some issuanceDate \<Rightarrow>
     let vc = buildVerifiedHumanVc (wcc_issuerDid cfg) (wcq_agentCardPubkey q) (cvr_verificationLevel cloud) (wcq_nullifierHash q)
                (wcq_merkleRoot q) issuanceDate;
         claimHash = wcd_hasher d vc; tr2 = tr1 @ [EPinJson vc]
     in case wcd_ipfs d tr1 vc of Inl e \<Rightarrow> (Inl (WcUncaught e), tr2) | Inr claimUri \<Rightarrow>
     if \<not> starts_with ''ipfs://'' claimUri then (Inl (WorldcoinIssuerError CHAIN_TX_FAILED 500), tr2)
     else let args = \<lparr>ia_schema = VERIFIED_HUMAN_SCHEMA_ID sha, ia_subjectAgentCard = wcq_agentCardPubkey q,
                      ia_claimHash = claimHash, ia_claimUri = claimUri, ia_validUntilSlot = 0\<rparr>;
              tr3 = tr2 @ [EIssueArgs args]
     in case wcd_chain d tr2 args of Inl _ \<Rightarrow> (Inl (WorldcoinIssuerError CHAIN_TX_FAILED 502), tr3)
        | Inr chainResult \<Rightarrow> (Inr (chainResult, claimUri, claimHash, wcd_now d tr3), tr3))"

text \<open>The end of step 6: bind the nullifier; on a lost race the canonical binding wins.\<close>

definition wc_issue_finish :: "wc_store \<Rightarrow> WorldcoinIssueRequest \<Rightarrow> (wc_error, wc_minted) result
    \<Rightarrow> (wc_error, WorldcoinIssueResponse) result \<times> wc_store" where
  "wc_issue_finish st q m = (case m of Inl e \<Rightarrow> (Inl e, st) | Inr (chainResult, claimUri, claimHash, nowMs) \<Rightarrow>
     let nullifierKey = normalizeHex (wcq_nullifierHash q)
     in case wc_put st \<lparr>nb_nullifierHash = nullifierKey, nb_agentCardPubkey = wcq_agentCardPubkey q,
            nb_credentialPda = cr_credentialPda chainResult, nb_txSignature = cr_txSignature chainResult,
            nb_claimUri = claimUri, nb_claimHash = claimHash, nb_issuedAtMs = nowMs\<rparr> of
          (Inl _, st') \<Rightarrow> (case wc_get st' nullifierKey of
              None \<Rightarrow> (Inl (WorldcoinIssuerError CHAIN_TX_FAILED 500), st')
            | Some canonical \<Rightarrow> if nb_agentCardPubkey canonical \<noteq> wcq_agentCardPubkey q
                then (Inl (WorldcoinIssuerError NULLIFIER_BOUND_TO_OTHER_CARD 409), st')
                else (Inr (wc_answer canonical), st'))
        | (Inr _, st') \<Rightarrow> (Inr \<lparr>wca_credentialPda = cr_credentialPda chainResult, wca_txSignature = cr_txSignature chainResult,
              wca_claimUri = claimUri, wca_claimHash = claimHash, wca_idempotent = False\<rparr>, st'))"

definition worldcoin_issue :: "(string \<Rightarrow> string) \<Rightarrow> WorldcoinIssuerConfig \<Rightarrow> WorldcoinIssuerDeps
    \<Rightarrow> (wc_store \<Rightarrow> wc_store) \<Rightarrow> (wc_store \<Rightarrow> wc_store) \<Rightarrow> WorldcoinIssueRequest \<Rightarrow> wc_store \<Rightarrow> trace
    \<Rightarrow> (wc_error, WorldcoinIssueResponse) result \<times> wc_store \<times> trace" where
  "worldcoin_issue sha cfg d others1 others2 q st tr = (let st1 = others1 st in
     case wc_authenticate cfg d q tr of (Inl e, tr1) \<Rightarrow> (Inl e, st1, tr1) | (Inr _, tr1) \<Rightarrow>
     case wc_issue_lookup st1 q of Inl r \<Rightarrow> (r, st1, tr1) | Inr q \<Rightarrow>
     let (m, tr2) = wc_issue_mint sha cfg d q tr1; (r, st2) = wc_issue_finish (others2 st1) q m
     in (r, st2, tr2))"

section \<open>The HTTP cloud verifier\<close>

text \<open>The response of the verification service: its status and, when it parses, the fields the code
  reads.\<close>

record verify_json =
  vj_success :: bool
  vj_verification_level :: js_value
  vj_nullifier_hash :: js_value
  vj_action :: "string option"

record http_response =
  hr_ok :: bool
  hr_status :: nat
  hr_json :: "(string, verify_json) result"

text \<open>\<open>verifyProof\<close> of \<open>createFetchCloudVerifier\<close>, from the answer of \<open>fetch\<close> on.\<close>

definition fetch_verifyProof :: "(cloud_input \<Rightarrow> (string, http_response) result) \<Rightarrow> cloud_input \<Rightarrow> (wc_error, CloudVerifyResult) result" where
  "fetch_verifyProof fetchFn input = (case fetchFn input of Inl e \<Rightarrow> Inl (WcUncaught e) | Inr res \<Rightarrow>
     if \<not> hr_ok res then
       (if 500 \<le> hr_status res then Inl (WorldcoinIssuerError UPSTREAM_OUTAGE 503) else Inl (WorldcoinIssuerError PROOF_REJECTED 400))
     else case hr_json res of Inl e \<Rightarrow> Inl (WcUncaught e) | Inr j \<Rightarrow>
       if \<not> vj_success j then Inl (WorldcoinIssuerError PROOF_REJECTED 400)
       else if vj_verification_level j \<noteq> VStr ''orb'' \<and> vj_verification_level j \<noteq> VStr ''device''
       then Inl (WorldcoinIssuerError PROOF_REJECTED 400)
       else (case vj_nullifier_hash j of
           VStr h \<Rightarrow> Inr \<lparr>cvr_verificationLevel = (if vj_verification_level j = VStr ''orb'' then Orb else Device),
                          cvr_nullifierHash = normalizeHex h,
                          cvr_action = (case vj_action j of None \<Rightarrow> ci_action input | Some a \<Rightarrow> a)\<rparr>
         | _ \<Rightarrow> Inl (WorldcoinIssuerError PROOF_REJECTED 400)))"

section \<open>Specification\<close>

text \<open>The key of a request in the store: the hash is normalized once by the handler and once more by the
  store.\<close>

definition wc_key :: "WorldcoinIssueRequest \<Rightarrow> string" where
  "wc_key q = normalizeHex (normalizeHex (wcq_nullifierHash q))"

definition wc_binding :: "wc_store \<Rightarrow> string \<Rightarrow> (string \<times> WorldcoinIssueResponse) option" where
  "wc_binding st k = map_option (\<lambda>b. (nb_agentCardPubkey b, wc_answer b)) (st k)"

fun wc_success :: "WorldcoinIssueRequest \<times> (wc_error, WorldcoinIssueResponse) result
    \<Rightarrow> (string \<times> string \<times> WorldcoinIssueResponse) option" where
  "wc_success (q, Inr r) = Some (wc_key q, wcq_agentCardPubkey q, r\<lparr>wca_idempotent := True\<rparr>)"
| "wc_success (q, Inl e) = None"

definition wc_start :: "wc_store \<Rightarrow> WorldcoinIssueRequest
    \<Rightarrow> WorldcoinIssueRequest \<times> (wc_error, WorldcoinIssueResponse) result + WorldcoinIssueRequest" where
  "wc_start st q = (case wc_issue_lookup st q of Inl r \<Rightarrow> Inl (q, r) | Inr q \<Rightarrow> Inr q)"

definition wc_finish :: "wc_store \<Rightarrow> WorldcoinIssueRequest \<Rightarrow> (wc_error, wc_minted) result
    \<Rightarrow> (WorldcoinIssueRequest \<times> (wc_error, WorldcoinIssueResponse) result) \<times> wc_store" where
  "wc_finish st q m = (case wc_issue_finish st q m of (r, st') \<Rightarrow> ((q, r), st'))"

definition wc_aux :: "wc_store \<Rightarrow> unit \<Rightarrow> wc_store" where
  "wc_aux st u = st"

text \<open>A configuration, clients that always accept, and a request, for examples.\<close>

definition wc_example_config :: WorldcoinIssuerConfig where
  "wc_example_config = \<lparr>wcc_appId = ''app'', wcc_issuerUrl = None, wcc_issuerDid = ''did'', wcc_minVerificationLevel = Some Orb\<rparr>"

definition wc_example_deps :: WorldcoinIssuerDeps where
  "wc_example_deps = \<lparr>wcd_idTokenVerifier = (\<lambda>tr t. Inr \<lparr>idt_sub = ''s'', idt_aud = ''app'', idt_iss = WORLDCOIN_ISSUER_URL, idt_exp = JInt 10\<rparr>),
     wcd_cloudVerifier = (\<lambda>tr i. Inr \<lparr>cvr_verificationLevel = Orb, cvr_nullifierHash = ci_nullifierHash i, cvr_action = ci_action i\<rparr>),
     wcd_signatureVerifier = (\<lambda>tr x. Inr True), wcd_chain = (\<lambda>tr a. Inr \<lparr>cr_credentialPda = ''pda'', cr_txSignature = ''tx''\<rparr>),
     wcd_ipfs = (\<lambda>tr v. Inr ''ipfs://c''), wcd_hasher = (\<lambda>v. ''h''), wcd_now = (\<lambda>tr. 0)\<rparr>"

definition wc_example_request :: WorldcoinIssueRequest where
  "wc_example_request = \<lparr>wcq_idToken = ''t'', wcq_proof = ''p'', wcq_merkleRoot = ''r'', wcq_nullifierHash = ''ab'',
     wcq_verificationLevel = Orb, wcq_agentCardPubkey = ''card'', wcq_agentCardSignature = ''sig''\<rparr>"

section \<open>Lemmas\<close>

lemma wc_start_answers:
  "wc_start st q = Inl r \<Longrightarrow> wc_success r = Some (k, b) \<Longrightarrow> wc_binding st k = Some b"
  by (auto simp: wc_start_def wc_issue_lookup_def wc_binding_def wc_get_def wc_key_def wc_answer_def
      split: sum.splits option.splits if_splits)

lemma wc_finish_binds:
  "wc_finish st q m = (r, st') \<Longrightarrow> wc_success r = Some (k, b) \<Longrightarrow> wc_binding st' k = Some b"
  by (cases m) (auto simp: wc_finish_def wc_issue_finish_def wc_binding_def wc_put_def wc_get_def wc_key_def wc_answer_def Let_def
      split: prod.splits option.splits if_splits)

lemma wc_finish_keeps:
  "wc_finish st q m = (r, st') \<Longrightarrow> wc_binding st k = Some b \<Longrightarrow> wc_binding st' k = Some b"
  by (cases m) (auto simp: wc_finish_def wc_issue_finish_def wc_binding_def wc_put_def wc_get_def Let_def
      split: prod.splits option.splits if_splits)

interpretation worldcoin: concurrent_issuer wc_start wc_finish wc_aux wc_binding wc_success
  by unfold_locales (auto intro: wc_start_answers wc_finish_binds wc_finish_keeps simp: wc_aux_def)

lemma wc_authenticate_ok:
  assumes "wc_authenticate cfg d q tr = (Inr u, tr1)"
  obtains idt where "wcd_idTokenVerifier d tr (wcq_idToken q) = Inr idt"
    "idt_iss idt = (case wcc_issuerUrl cfg of None \<Rightarrow> WORLDCOIN_ISSUER_URL | Some u \<Rightarrow> u)" "idt_aud idt = wcc_appId cfg"
    "\<not> js_leq (idt_exp idt) (JInt (js_floor_div (wcd_now d (tr @ [EVerify (wcq_idToken q)])) 1000))"
    "wcd_signatureVerifier d (tr @ [EVerify (wcq_idToken q)]) (wcq_agentCardPubkey q, wcq_nullifierHash q, wcq_agentCardSignature q) = Inr True"
  using assms by (auto simp: wc_authenticate_def Let_def split: if_splits sum.splits)

lemma wc_authenticate_trace:
  "wc_authenticate cfg d q tr = (r, tr1) \<Longrightarrow> \<exists>es. tr1 = tr @ map EVerify es"
  by (auto simp: wc_authenticate_def Let_def split: if_splits sum.splits
      intro: exI [of _ "[wcq_idToken q]"] exI [of _ "[wcq_idToken q, wcq_agentCardSignature q]"])

lemma wc_attest_ok:
  assumes "wc_attest sha cfg d q tr = (Inr cloud, tr1)"
  shows "normalizeHex (cvr_nullifierHash cloud) = normalizeHex (wcq_nullifierHash q) \<and> cvr_action cloud = VERIFIED_HUMAN_ACTION
    \<and> cvr_verificationLevel cloud = wcq_verificationLevel q
    \<and> (\<forall>l. wcc_minVerificationLevel cfg = Some l \<longrightarrow> satisfiesLevel (cvr_verificationLevel cloud) l)
    \<and> wcd_cloudVerifier d tr \<lparr>ci_proof = wcq_proof q, ci_merkleRoot = wcq_merkleRoot q, ci_nullifierHash = wcq_nullifierHash q,
         ci_signal = sha (wcq_agentCardPubkey q), ci_action = VERIFIED_HUMAN_ACTION\<rparr> = Inr cloud
    \<and> tr1 = tr @ [EVerify (wcq_proof q)]"
  using assms by (auto simp: wc_attest_def Let_def split: if_splits sum.splits option.splits wc_error.splits)

lemma wc_mint_ok:
  assumes "wc_issue_mint sha cfg d q tr = (Inr m, tr')"
  obtains cloud tr1 vc args where "wc_attest sha cfg d q tr = (Inr cloud, tr1)" "tr' = tr1 @ [EPinJson vc, EIssueArgs args]"
    "ia_subjectAgentCard args = wcq_agentCardPubkey q" "ia_claimHash args = wcd_hasher d vc"
  using assms unfolding wc_issue_mint_def by (auto simp: Let_def split: sum.splits prod.splits option.splits if_splits)

section \<open>Properties\<close>

text \<open>However concurrent requests interleave, two successful answers for the same World ID nullifier
  name the same AgentCard and carry the same credential, transaction, claim URI and claim hash, which
  are the ones the store holds.\<close>

theorem worldcoin_answers_agree:
  assumes "issuance_run wc_start wc_finish wc_aux st0 st ps rs" "r \<in> set rs" "r' \<in> set rs"
    "wc_success r = Some (k, b)" "wc_success r' = Some (k, b')"
  shows "b = b' \<and> wc_binding st k = Some b"
  using worldcoin.answers_agree [OF assms] worldcoin.answers_bound [OF assms(1,2,4)] by simp

theorem worldcoin_answers_agree_witness:
  "let (r, st) = wc_finish Map.empty wc_example_request (Inr (\<lparr>cr_credentialPda = ''pda'', cr_txSignature = ''tx''\<rparr>, ''ipfs://c'', ''h'', 0))
   in wc_success r \<noteq> None \<and> map_option fst (wc_binding st (wc_key wc_example_request)) = Some ''card''"
proof -
  define m :: "(wc_error, wc_minted) result"
    where "m = Inr (\<lparr>cr_credentialPda = ''pda'', cr_txSignature = ''tx''\<rparr>, ''ipfs://c'', ''h'', 0)"
  obtain r st where f: "wc_finish Map.empty wc_example_request m = (r, st)" by fastforce
  obtain b where s: "wc_success r = Some (wc_key wc_example_request, ''card'', b)"
    using f by (auto simp: wc_finish_def wc_issue_finish_def m_def wc_put_def wc_example_request_def Let_def)
  have "wc_start Map.empty wc_example_request = Inr wc_example_request" by (simp add: wc_start_def wc_issue_lookup_def wc_get_def)
  from run_single [of wc_start _ _ _ wc_finish, OF this f] have "issuance_run wc_start wc_finish wc_aux Map.empty st {#} [r]" .
  from worldcoin_answers_agree [OF this _ _ s s] f s show ?thesis by (simp add: m_def)
qed

text \<open>The gates of the Worldcoin bridge: every success comes with an unexpired id token of the right
  issuer and audience and a verified wallet signature over this nullifier; and a success that is not a
  replay of a stored binding also comes with Worldcoin's attestation of the same nullifier, the right
  action and the claimed level, at least the configured one, and with one submitted transaction whose
  claim hash is the hash of the pinned credential.\<close>

theorem worldcoin_issue_gates:
  assumes "worldcoin_issue sha cfg d others1 others2 q st tr = (Inr a, st', tr')"
  shows "(\<exists>idt tr1. wcd_idTokenVerifier d tr (wcq_idToken q) = Inr idt \<and> idt_aud idt = wcc_appId cfg
       \<and> idt_iss idt = (case wcc_issuerUrl cfg of None \<Rightarrow> WORLDCOIN_ISSUER_URL | Some u \<Rightarrow> u)
       \<and> \<not> js_leq (idt_exp idt) (JInt (js_floor_div (wcd_now d tr1) 1000))
       \<and> wcd_signatureVerifier d tr1 (wcq_agentCardPubkey q, wcq_nullifierHash q, wcq_agentCardSignature q) = Inr True)
    \<and> (\<not> wca_idempotent a \<longrightarrow> (\<exists>tr2 cloud input vc args.
         wcd_cloudVerifier d tr2 input = Inr cloud \<and> ci_nullifierHash input = wcq_nullifierHash q
       \<and> ci_signal input = sha (wcq_agentCardPubkey q)
       \<and> normalizeHex (cvr_nullifierHash cloud) = normalizeHex (wcq_nullifierHash q) \<and> cvr_action cloud = VERIFIED_HUMAN_ACTION
       \<and> cvr_verificationLevel cloud = wcq_verificationLevel q
       \<and> (\<forall>l. wcc_minVerificationLevel cfg = Some l \<longrightarrow> satisfiesLevel (cvr_verificationLevel cloud) l)
       \<and> tr' = tr2 @ [EVerify (wcq_proof q), EPinJson vc, EIssueArgs args]
       \<and> ia_subjectAgentCard args = wcq_agentCardPubkey q \<and> ia_claimHash args = wcd_hasher d vc))"
proof -
  obtain u tr1 where auth: "wc_authenticate cfg d q tr = (Inr u, tr1)"
    using assms by (auto simp: worldcoin_issue_def Let_def split: prod.splits sum.splits)
  have fresh: "\<exists>m. wc_issue_mint sha cfg d q tr1 = (Inr m, tr')" if "\<not> wca_idempotent a"
    using assms that auth
    by (auto simp: worldcoin_issue_def Let_def wc_issue_lookup_def wc_answer_def wc_issue_finish_def
        split: prod.splits sum.splits option.splits if_splits)
  show ?thesis
  proof (intro conjI impI)
    show "\<exists>idt tr1. wcd_idTokenVerifier d tr (wcq_idToken q) = Inr idt \<and> idt_aud idt = wcc_appId cfg
       \<and> idt_iss idt = (case wcc_issuerUrl cfg of None \<Rightarrow> WORLDCOIN_ISSUER_URL | Some u \<Rightarrow> u)
       \<and> \<not> js_leq (idt_exp idt) (JInt (js_floor_div (wcd_now d tr1) 1000))
       \<and> wcd_signatureVerifier d tr1 (wcq_agentCardPubkey q, wcq_nullifierHash q, wcq_agentCardSignature q) = Inr True"
      by (rule wc_authenticate_ok [OF auth], intro exI conjI; assumption)
  next
    assume "\<not> wca_idempotent a"
    from fresh [OF this] obtain m where m: "wc_issue_mint sha cfg d q tr1 = (Inr m, tr')" ..
    from wc_mint_ok [OF m] obtain cloud tr2 vc args where at: "wc_attest sha cfg d q tr1 = (Inr cloud, tr2)"
      and x: "tr' = tr2 @ [EPinJson vc, EIssueArgs args]" "ia_subjectAgentCard args = wcq_agentCardPubkey q"
        "ia_claimHash args = wcd_hasher d vc" .
    let ?in = "\<lparr>ci_proof = wcq_proof q, ci_merkleRoot = wcq_merkleRoot q, ci_nullifierHash = wcq_nullifierHash q,
         ci_signal = sha (wcq_agentCardPubkey q), ci_action = VERIFIED_HUMAN_ACTION\<rparr>"
    show "\<exists>tr2 cloud input vc args.
         wcd_cloudVerifier d tr2 input = Inr cloud \<and> ci_nullifierHash input = wcq_nullifierHash q
       \<and> ci_signal input = sha (wcq_agentCardPubkey q)
       \<and> normalizeHex (cvr_nullifierHash cloud) = normalizeHex (wcq_nullifierHash q) \<and> cvr_action cloud = VERIFIED_HUMAN_ACTION
       \<and> cvr_verificationLevel cloud = wcq_verificationLevel q
       \<and> (\<forall>l. wcc_minVerificationLevel cfg = Some l \<longrightarrow> satisfiesLevel (cvr_verificationLevel cloud) l)
       \<and> tr' = tr2 @ [EVerify (wcq_proof q), EPinJson vc, EIssueArgs args]
       \<and> ia_subjectAgentCard args = wcq_agentCardPubkey q \<and> ia_claimHash args = wcd_hasher d vc"
      using wc_attest_ok [OF at] x
      by (intro exI [of _ tr1] exI [of _ cloud] exI [of _ ?in] exI [of _ vc] exI [of _ args]) auto
  qed
qed

lemma wc_example_authenticate:
  "wc_authenticate wc_example_config wc_example_deps wc_example_request [] = (Inr (), [EVerify ''t'', EVerify ''sig''])"
proof -
  have "js_floor_div 0 1000 = 0" by (simp add: js_floor_div_exact MAX_SAFE_INTEGER_def)
  then show ?thesis
    by (simp add: wc_authenticate_def wc_example_deps_def wc_example_config_def wc_example_request_def js_leq_def)
qed

lemma wc_example_mint:
  "\<exists>tr'. wc_issue_mint sha wc_example_config wc_example_deps wc_example_request tr
     = (Inr (\<lparr>cr_credentialPda = ''pda'', cr_txSignature = ''tx''\<rparr>, ''ipfs://c'', ''h'', 0), tr')"
proof -
  have "toISOString 0 = Some ''1970-01-01T00:00:00.000Z''" by code_simp
  then show ?thesis
    by (simp add: wc_issue_mint_def wc_attest_def wc_example_deps_def wc_example_config_def wc_example_request_def Let_def
        satisfiesLevel_def starts_with_def)
qed

theorem worldcoin_issue_gates_witness:
  "\<exists>a st' tr' args. worldcoin_issue id wc_example_config wc_example_deps id id wc_example_request Map.empty [] = (Inr a, st', tr')
     \<and> \<not> wca_idempotent a \<and> EIssueArgs args \<in> set tr' \<and> ia_subjectAgentCard args = ''card''"
proof -
  from wc_example_mint obtain tr' where m: "wc_issue_mint id wc_example_config wc_example_deps wc_example_request [EVerify ''t'', EVerify ''sig'']
     = (Inr (\<lparr>cr_credentialPda = ''pda'', cr_txSignature = ''tx''\<rparr>, ''ipfs://c'', ''h'', 0), tr')" by blast
  have "\<exists>a st'. worldcoin_issue id wc_example_config wc_example_deps id id wc_example_request Map.empty [] = (Inr a, st', tr')
      \<and> \<not> wca_idempotent a"
    by (simp add: worldcoin_issue_def wc_example_authenticate wc_issue_lookup_def wc_get_def m wc_issue_finish_def wc_put_def Let_def)
  then obtain a st' where r: "worldcoin_issue id wc_example_config wc_example_deps id id wc_example_request Map.empty [] = (Inr a, st', tr')"
    and i: "\<not> wca_idempotent a" by blast
  from worldcoin_issue_gates [OF r] i r show ?thesis by (fastforce simp: wc_example_request_def)
qed

text \<open>The nullifier is bound only after the transaction, not reserved before it: when another request
  binds the nullifier to another card while this one waits, this one answers with the conflict, but its
  own transaction for its own card was already submitted, so one nullifier has two credentials on chain.\<close>

theorem worldcoin_conflict_after_mint:
  assumes "wc_authenticate cfg d q tr = (Inr u, tr1)" "others1 st (wc_key q) = None"
    and "wc_issue_mint sha cfg d q tr1 = (Inr m, tr2)"
    and "others2 (others1 st) (wc_key q) = Some b" "nb_agentCardPubkey b \<noteq> wcq_agentCardPubkey q"
  shows "\<exists>args. worldcoin_issue sha cfg d others1 others2 q st tr
      = (Inl (WorldcoinIssuerError NULLIFIER_BOUND_TO_OTHER_CARD 409), others2 (others1 st), tr2)
    \<and> EIssueArgs args \<in> set tr2 \<and> ia_subjectAgentCard args = wcq_agentCardPubkey q"
proof -
  from wc_mint_ok [OF assms(3)] obtain args where "EIssueArgs args \<in> set tr2" "ia_subjectAgentCard args = wcq_agentCardPubkey q"
    by (metis in_set_conv_decomp list.set_intros(1) append_Cons append_assoc)
  moreover obtain cr uri h t where "m = (cr, uri, h, t)" by (cases m)
  ultimately show ?thesis
    using assms by (auto simp: worldcoin_issue_def wc_issue_lookup_def wc_get_def wc_key_def wc_issue_finish_def wc_put_def Let_def)
qed

theorem worldcoin_conflict_after_mint_witness:
  "\<exists>args others2 st' tr'. worldcoin_issue id wc_example_config wc_example_deps id others2 wc_example_request Map.empty []
      = (Inl (WorldcoinIssuerError NULLIFIER_BOUND_TO_OTHER_CARD 409), st', tr')
    \<and> EIssueArgs args \<in> set tr' \<and> ia_subjectAgentCard args = ''card''"
proof -
  define b where "b = \<lparr>nb_nullifierHash = ''ab'', nb_agentCardPubkey = ''other'', nb_credentialPda = ''pda2'', nb_txSignature = ''tx2'',
    nb_claimUri = ''ipfs://d'', nb_claimHash = ''h2'', nb_issuedAtMs = 0\<rparr>"
  define o2 where "o2 = (\<lambda>st::wc_store. st(wc_key wc_example_request \<mapsto> b))"
  from wc_example_mint obtain tr' where m: "wc_issue_mint id wc_example_config wc_example_deps wc_example_request [EVerify ''t'', EVerify ''sig'']
     = (Inr (\<lparr>cr_credentialPda = ''pda'', cr_txSignature = ''tx''\<rparr>, ''ipfs://c'', ''h'', 0), tr')" by blast
  have "\<exists>args. worldcoin_issue id wc_example_config wc_example_deps id o2 wc_example_request Map.empty []
      = (Inl (WorldcoinIssuerError NULLIFIER_BOUND_TO_OTHER_CARD 409), o2 (id Map.empty), tr')
    \<and> EIssueArgs args \<in> set tr' \<and> ia_subjectAgentCard args = wcq_agentCardPubkey wc_example_request"
    by (rule worldcoin_conflict_after_mint [OF wc_example_authenticate _ m, where b = b])
      (simp_all add: o2_def b_def wc_example_request_def)
  then show ?thesis by (fastforce simp: wc_example_request_def)
qed

end
