(* ===== verification/Civic_Issuer.thy ===== *)
theory Civic_Issuer
  imports Issuer_Base Base58
begin

text \<open>
  The Civic \<open>verified-human\<close> bridge, \<^verbatim>\<open>src/issuers/civic.ts\<close> with its types in \<^verbatim>\<open>civic.types.ts\<close>:
  request validation, the nullifier of a gateway token, the nullifier store and the issue flow.
  \<open>shab\<close> is the SHA-256 hex digest of bytes, \<open>decode64\<close> is \<open>Buffer.from(s, "base64")\<close>. Logging has no
  effect on the result and is left out.

  The store's \<open>put\<close> keeps the card of a nullifier but replaces the rest of the row, so what is stable
  under concurrency is the card, not the credential: both are proved.
\<close>

section \<open>Data\<close>

record CivicIssueRequest =
  cvq_gatewayToken :: js_value
  cvq_agentCardPubkey :: js_value
  cvq_agentCardSignature :: js_value
  cvq_expectedGatekeeperNetwork :: "js_value option"

record CivicIssueResponse =
  cva_credentialPda :: string
  cva_txSignature :: string
  cva_claimUri :: string
  cva_claimHash :: string
  cva_idempotent :: bool

record CivicVerifyResult =
  cvv_tokenAddress :: string
  cvv_owner :: string
  cvv_gatekeeperNetwork :: string
  cvv_civicPassLevel :: "string option"

record CivicNullifierBinding =
  cvb_nullifier :: string
  cvb_agentCardPubkey :: string
  cvb_credentialPda :: string
  cvb_txSignature :: string
  cvb_claimUri :: string
  cvb_claimHash :: string

type_synonym civic_store = "string \<rightharpoonup> CivicNullifierBinding"

datatype CivicIssuerErrorCode = CvInvalidAgentCardSignature | CvGatewayTokenNotFound | CvGatewayTokenNotOwnedByCard
  | CvGatewayTokenInactive | CvGatewayTokenWrongNetwork | CvNullifierBoundToOtherCard | CvChainTxFailed | CvUpstreamOutage

datatype civic_error = CivicIssuerError CivicIssuerErrorCode nat | CvUncaught string

record CivicIssuerDeps =
  cvd_enabled :: bool
  cvd_gatekeeperNetwork :: string
  cvd_civicVerifier :: "trace \<Rightarrow> string \<times> string \<times> string \<Rightarrow> (civic_error, CivicVerifyResult) result"
  cvd_signatureVerifier :: "(string \<times> string \<times> string, bool) dep"
  cvd_issueCredential :: "(issue_input \<times> string, chain_result) dep"
  cvd_currentSlot :: "(unit, int) dep option"
  cvd_ipfsPinner :: "(string, string) dep"
  cvd_claimHasher :: "json \<Rightarrow> string"
  cvd_issuerAuthorityPubkey :: string
  cvd_nowUnix :: "trace \<Rightarrow> int"

definition CIVIC_NULLIFIER_PREFIX :: string where
  "CIVIC_NULLIFIER_PREFIX = ''eto.civic.verified-human.v1''"

definition civic_VERIFIED_HUMAN_SCHEMA_ID :: "(nat list \<Rightarrow> string) \<Rightarrow> string" where
  "civic_VERIFIED_HUMAN_SCHEMA_ID shab = shab (utf8 ''eto.beckn.schema.verified-human.v1'')"

section \<open>Operations\<close>

text \<open>\<open>None\<close> when the token is not base 58.\<close>

definition civicNullifierFromGatewayToken :: "(nat list \<Rightarrow> string) \<Rightarrow> string \<Rightarrow> string option" where
  "civicNullifierFromGatewayToken shab gatewayToken =
     map_option (\<lambda>tokBytes. shab (utf8 CIVIC_NULLIFIER_PREFIX @ tokBytes)) (base58Decode gatewayToken)"

definition ed25519SignatureVerifier ::
  "(nat list \<Rightarrow> nat list) \<Rightarrow> (string \<Rightarrow> nat list) \<Rightarrow> (nat list \<Rightarrow> nat list \<Rightarrow> nat list \<Rightarrow> bool option)
   \<Rightarrow> string \<Rightarrow> string \<Rightarrow> string \<Rightarrow> bool" where
  "ed25519SignatureVerifier sha_bytes decode64 ed25519 nullifier agentCardPubkey signature =
     (case hexToBytes nullifier of None \<Rightarrow> False | Some nullifierBytes \<Rightarrow>
      if length nullifierBytes \<noteq> 32 then False
      else case base58Decode agentCardPubkey of None \<Rightarrow> False | Some cardBytes \<Rightarrow>
      if length cardBytes \<noteq> 32 then False
      else let sigBytes = decode64 signature
      in if length sigBytes \<noteq> 64 then False
         else case ed25519 (sha_bytes (nullifierBytes @ cardBytes)) cardBytes sigBytes of None \<Rightarrow> False | Some b \<Rightarrow> b)"

definition cv_get :: "civic_store \<Rightarrow> string \<Rightarrow> CivicNullifierBinding option" where
  "cv_get st nullifier = st nullifier"

definition cv_put :: "civic_store \<Rightarrow> CivicNullifierBinding \<Rightarrow> (civic_error, unit) result \<times> civic_store" where
  "cv_put st b = (case st (cvb_nullifier b) of
       Some existing \<Rightarrow> if cvb_agentCardPubkey existing \<noteq> cvb_agentCardPubkey b
         then (Inl (CivicIssuerError CvNullifierBoundToOtherCard 409), st)
         else (Inr (), st(cvb_nullifier b \<mapsto> b))
     | None \<Rightarrow> (Inr (), st(cvb_nullifier b \<mapsto> b)))"

definition civic_buildVerifiedHumanVc :: "string \<Rightarrow> string \<Rightarrow> CivicVerifyResult \<Rightarrow> string \<Rightarrow> string \<Rightarrow> json" where
  "civic_buildVerifiedHumanVc agentCardPubkey issuerAuthorityPubkey v civicNullifier issuanceDate = JObj [
     (''@context'', JArr [JStr ''https://www.w3.org/2018/credentials/v1'', JStr ''https://schema.eto.dev/verified-human/v1'']),
     (''type'', JArr [JStr ''VerifiableCredential'', JStr ''VerifiedHumanCredential'']),
     (''issuer'', JStr ''did:eto:civic''),
     (''issuanceDate'', JStr issuanceDate),
     (''credentialSubject'', JObj [
        (''id'', JStr (''did:eto:agentcard:'' @ agentCardPubkey)),
        (''type'', JStr ''VerifiedHuman'')]),
     (''evidence'', JArr [JObj ([
        (''type'', JStr ''CivicGatewayToken''),
        (''tokenAddress'', JStr (cvv_tokenAddress v)),
        (''gatekeeperNetwork'', JStr (cvv_gatekeeperNetwork v))]
        @ (case cvv_civicPassLevel v of None \<Rightarrow> [] | Some l \<Rightarrow> [(''civicPassLevel'', JStr l)]))]),
     (''issuerAuthority'', JStr issuerAuthorityPubkey),
     (''bridgeNullifier'', JStr civicNullifier)]"

definition deriveCredentialPda :: "(nat list \<Rightarrow> string) \<Rightarrow> string \<Rightarrow> string \<Rightarrow> string \<Rightarrow> string option" where
  "deriveCredentialPda shab subject issuer schemaHex =
     (case base58Decode subject of None \<Rightarrow> None | Some s \<Rightarrow>
      case base58Decode issuer of None \<Rightarrow> None | Some i \<Rightarrow>
      case hexToBytes schemaHex of None \<Rightarrow> None | Some h \<Rightarrow> Some (shab (utf8 ''cred'' @ s @ i @ h)))"

definition cv_bad_field :: civic_error where
  "cv_bad_field = CivicIssuerError CvInvalidAgentCardSignature 400"

text \<open>A request whose fields have the right types and shapes.\<close>

record civic_valid =
  cvw_token :: string
  cvw_card :: string
  cvw_signature :: string
  cvw_network :: "string option"

definition civic_validateRequest :: "(string \<Rightarrow> nat list) \<Rightarrow> CivicIssueRequest \<Rightarrow> (civic_error, civic_valid) result" where
  "civic_validateRequest decode64 req = (case cvq_gatewayToken req of VStr token \<Rightarrow> if token = [] then Inl cv_bad_field else
     (case cvq_agentCardPubkey req of VStr agentCard \<Rightarrow> if agentCard = [] then Inl cv_bad_field else
     (case cvq_agentCardSignature req of VStr sig \<Rightarrow> if sig = [] then Inl cv_bad_field else
     (case base58Decode agentCard of None \<Rightarrow> Inl cv_bad_field | Some cardBytes \<Rightarrow>
        if length cardBytes \<noteq> 32 then Inl cv_bad_field
        else if length (decode64 sig) \<noteq> 64 then Inl cv_bad_field
        else if base58Decode token = None then Inl cv_bad_field
        else (case cvq_expectedGatekeeperNetwork req of
            None \<Rightarrow> Inr \<lparr>cvw_token = token, cvw_card = agentCard, cvw_signature = sig, cvw_network = None\<rparr>
          | Some (VStr n) \<Rightarrow> if n = [] then Inl cv_bad_field
              else Inr \<lparr>cvw_token = token, cvw_card = agentCard, cvw_signature = sig, cvw_network = Some n\<rparr>
          | Some _ \<Rightarrow> Inl cv_bad_field))
      | _ \<Rightarrow> Inl cv_bad_field)
      | _ \<Rightarrow> Inl cv_bad_field)
      | _ \<Rightarrow> Inl cv_bad_field)"

text \<open>The constructor refuses a disabled configuration.\<close>

definition civic_constructor :: "CivicIssuerDeps \<Rightarrow> (civic_error, CivicIssuerDeps) result" where
  "civic_constructor d = (if \<not> cvd_enabled d then Inl (CivicIssuerError CvUpstreamOutage 503) else Inr d)"

section \<open>Issuing\<close>

record civic_pending =
  cvp_valid :: civic_valid
  cvp_nullifier :: string

text \<open>Steps 1 to 3: shape, nullifier and wallet signature.\<close>

definition civic_authenticate :: "(nat list \<Rightarrow> string) \<Rightarrow> (string \<Rightarrow> nat list) \<Rightarrow> CivicIssuerDeps \<Rightarrow> CivicIssueRequest \<Rightarrow> trace
    \<Rightarrow> (civic_error, civic_pending) result \<times> trace" where
  "civic_authenticate shab decode64 d req tr = (case civic_validateRequest decode64 req of Inl e \<Rightarrow> (Inl e, tr) | Inr w \<Rightarrow>
     case civicNullifierFromGatewayToken shab (cvw_token w) of None \<Rightarrow> (Inl (CvUncaught ''Error''), tr) | Some civicNullifier \<Rightarrow>
     let tr1 = tr @ [EVerify civicNullifier]
     in case cvd_signatureVerifier d tr (civicNullifier, cvw_card w, cvw_signature w) of
          Inl e \<Rightarrow> (Inl (CvUncaught e), tr1)
        | Inr sigOk \<Rightarrow> if \<not> sigOk then (Inl (CivicIssuerError CvInvalidAgentCardSignature 401), tr1)
            else (Inr \<lparr>cvp_valid = w, cvp_nullifier = civicNullifier\<rparr>, tr1))"

text \<open>Step 4: the dedupe lookup.\<close>

definition civic_issue_lookup :: "civic_store \<Rightarrow> civic_pending \<Rightarrow> (civic_error, CivicIssueResponse) result + civic_pending" where
  "civic_issue_lookup st p = (case cv_get st (cvp_nullifier p) of
       Some existing \<Rightarrow> if cvb_agentCardPubkey existing = cvw_card (cvp_valid p)
         then Inl (Inr \<lparr>cva_credentialPda = cvb_credentialPda existing, cva_txSignature = cvb_txSignature existing,
                        cva_claimUri = cvb_claimUri existing, cva_claimHash = cvb_claimHash existing, cva_idempotent = True\<rparr>)
         else Inl (Inl (CivicIssuerError CvNullifierBoundToOtherCard 409))
     | None \<Rightarrow> Inr p)"

type_synonym civic_minted = "chain_result \<times> string \<times> string"

text \<open>Steps 5 to 7: the gateway token, the credential and the transaction.\<close>

definition civic_issue_mint :: "(nat list \<Rightarrow> string) \<Rightarrow> CivicIssuerDeps \<Rightarrow> civic_pending \<Rightarrow> trace
    \<Rightarrow> (civic_error, civic_minted) result \<times> trace" where
  "civic_issue_mint shab d p tr = (let w = cvp_valid p;
       network = (case cvw_network w of None \<Rightarrow> cvd_gatekeeperNetwork d | Some n \<Rightarrow> n);
       tr1 = tr @ [EVerify (cvw_token w)]
     in case cvd_civicVerifier d tr (cvw_token w, network, cvw_card w) of Inl e \<Rightarrow> (Inl e, tr1) | Inr verifyResult \<Rightarrow>
     case toISOString (js_mul (cvd_nowUnix d tr1) 1000) of None \<Rightarrow> (Inl (CvUncaught ''RangeError''), tr1) | Some issuanceDate \<Rightarrow>
     let vc = civic_buildVerifiedHumanVc (cvw_card w) (cvd_issuerAuthorityPubkey d) verifyResult (cvp_nullifier p) issuanceDate;
         claimHash = cvd_claimHasher d vc
     in case jcsStringify vc of Inl _ \<Rightarrow> (Inl (CvUncaught ''Error''), tr1) | Inr claimJcs \<Rightarrow>
     let tr2 = tr1 @ [EPin claimJcs]
     in case cvd_ipfsPinner d tr1 claimJcs of Inl e \<Rightarrow> (Inl (CvUncaught e), tr2) | Inr claimUri \<Rightarrow>
     case (case cvd_currentSlot d of None \<Rightarrow> Inr 0 | Some slot \<Rightarrow> slot tr2 ()) of Inl e \<Rightarrow> (Inl (CvUncaught e), tr2) | Inr validFromSlot \<Rightarrow>
     let input = \<lparr>ii_subject = cvw_card w, ii_schemaId = civic_VERIFIED_HUMAN_SCHEMA_ID shab, ii_claimUri = claimUri,
                  ii_claimHash = claimHash, ii_validFromSlot = validFromSlot, ii_validUntilSlot = 0\<rparr>;
         idempotencyKey = ''civic:'' @ cvp_nullifier p; tr3 = tr2 @ [EIssueKeyed input idempotencyKey]
     in case cvd_issueCredential d tr2 (input, idempotencyKey) of Inl _ \<Rightarrow> (Inl (CivicIssuerError CvChainTxFailed 502), tr3)
        | Inr chainResult \<Rightarrow> (Inr (chainResult, claimUri, claimHash), tr3))"

definition civic_issue_finish :: "civic_store \<Rightarrow> civic_pending \<Rightarrow> (civic_error, civic_minted) result
    \<Rightarrow> (civic_error, CivicIssueResponse) result \<times> civic_store" where
  "civic_issue_finish st p m = (case m of Inl e \<Rightarrow> (Inl e, st) | Inr (chainResult, claimUri, claimHash) \<Rightarrow>
     case cv_put st \<lparr>cvb_nullifier = cvp_nullifier p, cvb_agentCardPubkey = cvw_card (cvp_valid p),
         cvb_credentialPda = cr_credentialPda chainResult, cvb_txSignature = cr_txSignature chainResult,
         cvb_claimUri = claimUri, cvb_claimHash = claimHash\<rparr> of
       (Inl e, st') \<Rightarrow> (Inl e, st')
     | (Inr _, st') \<Rightarrow> (Inr \<lparr>cva_credentialPda = cr_credentialPda chainResult, cva_txSignature = cr_txSignature chainResult,
           cva_claimUri = claimUri, cva_claimHash = claimHash, cva_idempotent = False\<rparr>, st'))"

definition civic_issue :: "(nat list \<Rightarrow> string) \<Rightarrow> (string \<Rightarrow> nat list) \<Rightarrow> CivicIssuerDeps
    \<Rightarrow> (civic_store \<Rightarrow> civic_store) \<Rightarrow> (civic_store \<Rightarrow> civic_store) \<Rightarrow> CivicIssueRequest \<Rightarrow> civic_store \<Rightarrow> trace
    \<Rightarrow> (civic_error, CivicIssueResponse) result \<times> civic_store \<times> trace" where
  "civic_issue shab decode64 d others1 others2 req st tr = (let st1 = others1 st in
     case civic_authenticate shab decode64 d req tr of (Inl e, tr1) \<Rightarrow> (Inl e, st1, tr1) | (Inr p, tr1) \<Rightarrow>
     case civic_issue_lookup st1 p of Inl r \<Rightarrow> (r, st1, tr1) | Inr p \<Rightarrow>
     let (m, tr2) = civic_issue_mint shab d p tr1; (r, st2) = civic_issue_finish (others2 st1) p m
     in (r, st2, tr2))"

section \<open>Specification\<close>

definition civic_card :: "civic_store \<Rightarrow> string \<Rightarrow> string option" where
  "civic_card st k = map_option cvb_agentCardPubkey (st k)"

fun civic_success :: "civic_pending \<times> (civic_error, CivicIssueResponse) result \<Rightarrow> (string \<times> string) option" where
  "civic_success (p, Inr r) = Some (cvp_nullifier p, cvw_card (cvp_valid p))"
| "civic_success (p, Inl e) = None"

definition civic_start :: "civic_store \<Rightarrow> civic_pending \<Rightarrow> civic_pending \<times> (civic_error, CivicIssueResponse) result + civic_pending" where
  "civic_start st p = (case civic_issue_lookup st p of Inl r \<Rightarrow> Inl (p, r) | Inr p \<Rightarrow> Inr p)"

definition civic_finish :: "civic_store \<Rightarrow> civic_pending \<Rightarrow> (civic_error, civic_minted) result
    \<Rightarrow> (civic_pending \<times> (civic_error, CivicIssueResponse) result) \<times> civic_store" where
  "civic_finish st p m = (case civic_issue_finish st p m of (r, st') \<Rightarrow> ((p, r), st'))"

definition civic_aux :: "civic_store \<Rightarrow> unit \<Rightarrow> civic_store" where
  "civic_aux st u = st"

text \<open>Clients that always accept, for examples; the request's card and token are keys of 32 zero bytes.\<close>

definition civic_example_deps :: CivicIssuerDeps where
  "civic_example_deps = \<lparr>cvd_enabled = True, cvd_gatekeeperNetwork = ''net'',
     cvd_civicVerifier = (\<lambda>tr (t, n, c). Inr \<lparr>cvv_tokenAddress = t, cvv_owner = c, cvv_gatekeeperNetwork = n, cvv_civicPassLevel = None\<rparr>),
     cvd_signatureVerifier = (\<lambda>tr x. Inr True),
     cvd_issueCredential = (\<lambda>tr x. Inr \<lparr>cr_credentialPda = ''pda'', cr_txSignature = ''tx''\<rparr>),
     cvd_currentSlot = None, cvd_ipfsPinner = (\<lambda>tr c. Inr ''uri''), cvd_claimHasher = (\<lambda>v. ''h''),
     cvd_issuerAuthorityPubkey = ''auth'', cvd_nowUnix = (\<lambda>tr. 0)\<rparr>"

definition civic_example_request :: CivicIssueRequest where
  "civic_example_request = \<lparr>cvq_gatewayToken = VStr ''1'', cvq_agentCardPubkey = VStr (replicate 32 (CHR ''1'')),
     cvq_agentCardSignature = VStr ''sig'', cvq_expectedGatekeeperNetwork = None\<rparr>"

definition civic_example_pending :: civic_pending where
  "civic_example_pending = \<lparr>cvp_valid = \<lparr>cvw_token = ''1'', cvw_card = replicate 32 (CHR ''1''), cvw_signature = ''sig'',
     cvw_network = None\<rparr>, cvp_nullifier = ''n''\<rparr>"

section \<open>Lemmas\<close>

lemma civic_start_answers:
  "civic_start st q = Inl r \<Longrightarrow> civic_success r = Some (k, b) \<Longrightarrow> civic_card st k = Some b"
  by (auto simp: civic_start_def civic_issue_lookup_def civic_card_def cv_get_def split: sum.splits option.splits if_splits)

lemma civic_finish_binds:
  "civic_finish st q m = (r, st') \<Longrightarrow> civic_success r = Some (k, b) \<Longrightarrow> civic_card st' k = Some b"
  by (cases m) (auto simp: civic_finish_def civic_issue_finish_def civic_card_def cv_put_def
      split: prod.splits sum.splits option.splits if_splits)

lemma civic_finish_keeps:
  "civic_finish st q m = (r, st') \<Longrightarrow> civic_card st k = Some b \<Longrightarrow> civic_card st' k = Some b"
  by (cases m) (auto simp: civic_finish_def civic_issue_finish_def civic_card_def cv_put_def
      split: prod.splits sum.splits option.splits if_splits)

interpretation civic: concurrent_issuer civic_start civic_finish civic_aux civic_card civic_success
  by unfold_locales (auto intro: civic_start_answers civic_finish_binds civic_finish_keeps simp: civic_aux_def)

lemma civic_validateRequest_ok:
  "civic_validateRequest decode64 req = Inr w \<Longrightarrow> (\<exists>b. base58Decode (cvw_card w) = Some b \<and> length b = 32)
     \<and> length (decode64 (cvw_signature w)) = 64 \<and> base58Decode (cvw_token w) \<noteq> None \<and> cvw_token w \<noteq> []
     \<and> cvq_gatewayToken req = VStr (cvw_token w) \<and> cvq_agentCardPubkey req = VStr (cvw_card w)"
  by (auto simp: civic_validateRequest_def split: js_value.splits if_splits option.splits)

lemma civic_buildVc_wf: "wf_json (civic_buildVerifiedHumanVc a i v n t)"
  by (simp add: civic_buildVerifiedHumanVc_def split: option.splits)

lemma civic_authenticate_ok:
  assumes "civic_authenticate shab decode64 d req tr = (Inr p, tr1)"
  shows "civic_validateRequest decode64 req = Inr (cvp_valid p)
    \<and> civicNullifierFromGatewayToken shab (cvw_token (cvp_valid p)) = Some (cvp_nullifier p)
    \<and> cvd_signatureVerifier d tr (cvp_nullifier p, cvw_card (cvp_valid p), cvw_signature (cvp_valid p)) = Inr True
    \<and> tr1 = tr @ [EVerify (cvp_nullifier p)]"
  using assms by (auto simp: civic_authenticate_def Let_def split: sum.splits option.splits if_splits)

lemma civic_mint_ok:
  assumes "civic_issue_mint shab d p tr = (Inr m, tr')"
  obtains v c input where
    "cvd_civicVerifier d tr (cvw_token (cvp_valid p), case cvw_network (cvp_valid p) of None \<Rightarrow> cvd_gatekeeperNetwork d | Some n \<Rightarrow> n,
        cvw_card (cvp_valid p)) = Inr v"
    "tr' = tr @ [EVerify (cvw_token (cvp_valid p)), EPin c, EIssueKeyed input (''civic:'' @ cvp_nullifier p)]"
    "ii_subject input = cvw_card (cvp_valid p)"
    "\<exists>date. c = canonicalJson (civic_buildVerifiedHumanVc (cvw_card (cvp_valid p)) (cvd_issuerAuthorityPubkey d) v (cvp_nullifier p) date)"
  using assms unfolding civic_issue_mint_def
  by (auto simp: Let_def jcs_eq_canonical [OF civic_buildVc_wf] split: sum.splits option.splits if_splits) blast+

section \<open>Properties\<close>

text \<open>However concurrent requests interleave, all successful answers for one Civic Pass (one nullifier)
  are for the same AgentCard: a pass cannot verify two cards.\<close>

theorem civic_card_agree:
  assumes "issuance_run civic_start civic_finish civic_aux st0 st ps rs" "r \<in> set rs" "r' \<in> set rs"
    "civic_success r = Some (k, c)" "civic_success r' = Some (k, c')"
  shows "c = c' \<and> civic_card st k = Some c"
  using civic.answers_agree [OF assms] civic.answers_bound [OF assms(1,2,4)] by simp

theorem civic_card_agree_witness:
  "let (r, st) = civic_finish Map.empty civic_example_pending (Inr (\<lparr>cr_credentialPda = ''pda'', cr_txSignature = ''tx''\<rparr>, ''uri'', ''h''))
   in civic_success r = Some (''n'', replicate 32 (CHR ''1'')) \<and> civic_card st ''n'' = Some (replicate 32 (CHR ''1''))"
proof -
  define m :: "(civic_error, civic_minted) result"
    where "m = Inr (\<lparr>cr_credentialPda = ''pda'', cr_txSignature = ''tx''\<rparr>, ''uri'', ''h'')"
  obtain r st where f: "civic_finish Map.empty civic_example_pending m = (r, st)" by fastforce
  have s: "civic_success r = Some (''n'', replicate 32 (CHR ''1''))"
    using f by (auto simp: civic_finish_def civic_issue_finish_def m_def cv_put_def civic_example_pending_def)
  have "civic_start Map.empty civic_example_pending = Inr civic_example_pending"
    by (simp add: civic_start_def civic_issue_lookup_def cv_get_def)
  from run_single [of civic_start _ _ _ civic_finish, OF this f]
  have "issuance_run civic_start civic_finish civic_aux Map.empty st {#} [r]" .
  from civic_card_agree [OF this _ _ s s] f s show ?thesis by (simp add: m_def)
qed

text \<open>The gates of the Civic bridge: every success has a 32-byte card, a base-58 token whose nullifier
  the wallet signed, and, unless it replays a stored binding, a gateway token that the verifier accepted
  for this card, with one transaction for this card keyed by the nullifier and a pinned canonical
  credential that names the card and the nullifier.\<close>

theorem civic_issue_gates:
  assumes "civic_issue shab decode64 d others1 others2 req st tr = (Inr a, st', tr')"
  shows "\<exists>w n b. civic_validateRequest decode64 req = Inr w \<and> base58Decode (cvw_card w) = Some b \<and> length b = 32
    \<and> civicNullifierFromGatewayToken shab (cvw_token w) = Some n
    \<and> cvd_signatureVerifier d tr (n, cvw_card w, cvw_signature w) = Inr True
    \<and> (\<not> cva_idempotent a \<longrightarrow> (\<exists>v c input date.
         cvd_civicVerifier d (tr @ [EVerify n]) (cvw_token w,
           case cvw_network w of None \<Rightarrow> cvd_gatekeeperNetwork d | Some net \<Rightarrow> net, cvw_card w) = Inr v
       \<and> tr' = tr @ [EVerify n, EVerify (cvw_token w), EPin c, EIssueKeyed input (''civic:'' @ n)]
       \<and> ii_subject input = cvw_card w
       \<and> c = canonicalJson (civic_buildVerifiedHumanVc (cvw_card w) (cvd_issuerAuthorityPubkey d) v n date)))"
proof -
  obtain p tr1 where auth: "civic_authenticate shab decode64 d req tr = (Inr p, tr1)"
    using assms by (auto simp: civic_issue_def Let_def split: prod.splits sum.splits)
  have fresh: "\<exists>m. civic_issue_mint shab d p tr1 = (Inr m, tr')" if "\<not> cva_idempotent a"
    using assms that auth
    by (auto simp: civic_issue_def Let_def civic_issue_lookup_def civic_issue_finish_def
        split: prod.splits sum.splits option.splits if_splits)
  let ?w = "cvp_valid p" and ?n = "cvp_nullifier p"
  have valid: "civic_validateRequest decode64 req = Inr ?w" "civicNullifierFromGatewayToken shab (cvw_token ?w) = Some ?n"
    "cvd_signatureVerifier d tr (?n, cvw_card ?w, cvw_signature ?w) = Inr True" "tr1 = tr @ [EVerify ?n]"
    using civic_authenticate_ok [OF auth] by auto
  from civic_validateRequest_ok [OF valid(1)] obtain b where b: "base58Decode (cvw_card ?w) = Some b" "length b = 32" by auto
  have minted: "\<exists>v c input date.
         cvd_civicVerifier d (tr @ [EVerify ?n]) (cvw_token ?w,
           case cvw_network ?w of None \<Rightarrow> cvd_gatekeeperNetwork d | Some net \<Rightarrow> net, cvw_card ?w) = Inr v
       \<and> tr' = tr @ [EVerify ?n, EVerify (cvw_token ?w), EPin c, EIssueKeyed input (''civic:'' @ ?n)]
       \<and> ii_subject input = cvw_card ?w
       \<and> c = canonicalJson (civic_buildVerifiedHumanVc (cvw_card ?w) (cvd_issuerAuthorityPubkey d) v ?n date)"
    if new: "\<not> cva_idempotent a"
  proof -
    from fresh [OF new] obtain m where "civic_issue_mint shab d p tr1 = (Inr m, tr')" ..
    then show ?thesis by (rule civic_mint_ok) (use valid(4) in auto)
  qed
  show ?thesis
    by (intro exI [of _ ?w] exI [of _ ?n] exI [of _ b] conjI valid b impI minted)
qed

theorem civic_issue_gates_witness:
  "\<exists>a st' tr' input. civic_issue (\<lambda>b. ''n'') (\<lambda>s. replicate 64 0) civic_example_deps id id civic_example_request Map.empty [] = (Inr a, st', tr')
     \<and> \<not> cva_idempotent a \<and> EIssueKeyed input ''civic:n'' \<in> set tr'"
proof -
  have dec: "base58Decode (replicate 32 (CHR ''1'')) = Some (replicate 32 0)" "base58Decode ''1'' = Some [0]" by code_simp+
  have date: "toISOString 0 = Some ''1970-01-01T00:00:00.000Z''" by code_simp
  have val: "civic_validateRequest (\<lambda>s. replicate 64 0) civic_example_request
      = Inr \<lparr>cvw_token = ''1'', cvw_card = replicate 32 (CHR ''1''), cvw_signature = ''sig'', cvw_network = None\<rparr>"
    unfolding civic_validateRequest_def civic_example_request_def by (simp add: dec)
  have auth: "civic_authenticate (\<lambda>b. ''n'') (\<lambda>s. replicate 64 0) civic_example_deps civic_example_request []
      = (Inr civic_example_pending, [EVerify ''n''])"
    unfolding civic_authenticate_def val
    by (simp add: civicNullifierFromGatewayToken_def dec civic_example_deps_def civic_example_pending_def)
  have "\<exists>a st' tr'. civic_issue (\<lambda>b. ''n'') (\<lambda>s. replicate 64 0) civic_example_deps id id civic_example_request Map.empty [] = (Inr a, st', tr')
     \<and> \<not> cva_idempotent a"
    unfolding civic_issue_def auth
    by (simp add: civic_issue_lookup_def cv_get_def civic_issue_mint_def civic_example_deps_def date Let_def
        jcs_eq_canonical [OF civic_buildVc_wf] civic_issue_finish_def cv_put_def)
  then obtain a st' tr' where r: "civic_issue (\<lambda>b. ''n'') (\<lambda>s. replicate 64 0) civic_example_deps id id civic_example_request Map.empty [] = (Inr a, st', tr')"
    and new: "\<not> cva_idempotent a" by blast
  from civic_issue_gates [OF r] val new obtain input where "EIssueKeyed input ''civic:n'' \<in> set tr'"
    by (fastforce simp: civicNullifierFromGatewayToken_def dec)
  with r new show ?thesis by blast
qed

text \<open>The credential of a pass is not stable under concurrency: two concurrent requests of the same card
  for the same pass can both succeed with different credentials, and the later one replaces the stored
  binding of the first.\<close>

theorem civic_race_two_credentials:
  "\<exists>st r r'. issuance_run civic_start civic_finish civic_aux Map.empty st {#} [(civic_example_pending, Inr r), (civic_example_pending, Inr r')]
     \<and> cva_credentialPda r = ''pda1'' \<and> cva_credentialPda r' = ''pda2''
     \<and> map_option cvb_credentialPda (st ''n'') = Some ''pda2''"
proof -
  let ?p = civic_example_pending
  define m :: "string \<Rightarrow> (civic_error, civic_minted) result"
    where "m = (\<lambda>pda. Inr (\<lparr>cr_credentialPda = pda, cr_txSignature = ''tx''\<rparr>, ''uri'', ''h''))"
  have start: "civic_start Map.empty ?p = Inr ?p" by (simp add: civic_start_def civic_issue_lookup_def cv_get_def)
  obtain r1 st1 where f1: "civic_finish Map.empty ?p (m ''pda1'') = ((?p, Inr r1), st1)"
    and r1: "cva_credentialPda r1 = ''pda1''" and s1: "map_option cvb_agentCardPubkey (st1 ''n'') = Some (cvw_card (cvp_valid ?p))"
    by (auto simp: civic_finish_def civic_issue_finish_def m_def cv_put_def civic_example_pending_def)
  obtain r2 st2 where f2: "civic_finish st1 ?p (m ''pda2'') = ((?p, Inr r2), st2)"
    and r2: "cva_credentialPda r2 = ''pda2''" "map_option cvb_credentialPda (st2 ''n'') = Some ''pda2''"
    using s1 by (auto simp: civic_finish_def civic_issue_finish_def m_def cv_put_def civic_example_pending_def)
  have "issuance_run civic_start civic_finish civic_aux Map.empty Map.empty {#?p, ?p#} []"
    by (intro run_pend [of civic_start civic_finish civic_aux _ _ _ _ ?p ?p] run_init start)
  from run_finish [of civic_start civic_finish civic_aux, OF this _ f1]
  have "issuance_run civic_start civic_finish civic_aux Map.empty st1 {#?p#} [(?p, Inr r1)]" by simp
  from run_finish [of civic_start civic_finish civic_aux, OF this _ f2]
  have "issuance_run civic_start civic_finish civic_aux Map.empty st2 {#} [(?p, Inr r1), (?p, Inr r2)]" by simp
  with r1 r2 show ?thesis by blast
qed

end
