(* ===== verification/Skill_Issuer.thy ===== *)
theory Skill_Issuer
  imports Issuer_Base Base58
begin

text \<open>
  The skill-certificate issuer, \<^verbatim>\<open>src/issuers/skill-cert.ts\<close> with its types in
  \<^verbatim>\<open>skill-cert.types.ts\<close>: the slug check, the signature preimage, the whitelist, the binding store
  and the issue flow. \<open>sha\<close> is the SHA-256 hex digest of a string.
\<close>

section \<open>Data\<close>

record SkillCertIssueRequest =
  skq_skill :: js_value
  skq_subjectAgentCard :: js_value
  skq_agentCardSignature :: js_value
  skq_issuanceNonce :: js_value

record SkillCertIssueResponse =
  ska_credentialPda :: string
  ska_txSignature :: string
  ska_claimUri :: string
  ska_claimHash :: string
  ska_schema :: string
  ska_idempotent :: bool

record SkillBinding =
  skb_skill :: string
  skb_subjectAgentCard :: string
  skb_credentialPda :: string
  skb_txSignature :: string
  skb_claimUri :: string
  skb_claimHash :: string
  skb_issuedAtMs :: int

type_synonym skill_store = "string \<rightharpoonup> SkillBinding"

datatype SkillCertIssuerErrorCode = SkInvalidSkill | SkInvalidSubject | SkInvalidAgentCardSignature | SkNotWhitelisted | SkChainTxFailed

datatype skill_error = SkillCertIssuerError SkillCertIssuerErrorCode nat | SkUncaught string

record SkillCertIssuerDeps =
  skd_isAllowed :: "(string \<times> string, bool) dep"
  skd_chain :: "(issue_args, chain_result) dep"
  skd_ipfs :: "(json, string) dep"
  skd_signatureVerifier :: "(string \<times> string \<times> string \<times> string, bool) dep"
  skd_hasher :: "json \<Rightarrow> string"
  skd_now :: "trace \<Rightarrow> int"
  skd_issuerDid :: string

section \<open>Helpers\<close>

definition SKILL_CERT_SIG_DOMAIN :: string where
  "SKILL_CERT_SIG_DOMAIN = ''eto:skill-cert:v1''"

definition is_slug_char :: "char \<Rightarrow> bool" where
  "is_slug_char c = (is_lower c \<or> is_digit c)"

text \<open>\<open>/^[a-z0-9]+(?:-[a-z0-9]+)*$/\<close> as an automaton; the flag says that the last character was not a
  hyphen.\<close>

fun slug_run :: "bool \<Rightarrow> string \<Rightarrow> bool" where
  "slug_run prev [] = prev"
| "slug_run prev (c # cs) = (if is_slug_char c then slug_run True cs else if c = CHR ''-'' \<and> prev then slug_run False cs else False)"

definition SKILL_SLUG_RE :: "string \<Rightarrow> bool" where
  "SKILL_SLUG_RE s = slug_run False s"

text \<open>The text whose SHA-256 digest is signed.\<close>

definition skillCertSignaturePreimage :: "string \<Rightarrow> string \<Rightarrow> string \<Rightarrow> string" where
  "skillCertSignaturePreimage skill subjectAgentCard issuanceNonce = SKILL_CERT_SIG_DOMAIN @ skill @ subjectAgentCard @ issuanceNonce"

definition ed25519SkillCertSignatureVerifier ::
  "(string \<Rightarrow> nat list) \<Rightarrow> (string \<Rightarrow> nat list) \<Rightarrow> (nat list \<Rightarrow> nat list \<Rightarrow> nat list \<Rightarrow> bool option)
   \<Rightarrow> string \<Rightarrow> string \<Rightarrow> string \<Rightarrow> string \<Rightarrow> bool" where
  "ed25519SkillCertSignatureVerifier digest decode64 ed25519 skill subjectAgentCard issuanceNonce signature =
     (case base58Decode subjectAgentCard of None \<Rightarrow> False | Some cardBytes \<Rightarrow>
      if length cardBytes \<noteq> 32 then False
      else let sigBytes = decode64 signature
      in if length sigBytes \<noteq> 64 then False
         else case ed25519 (digest (skillCertSignaturePreimage skill subjectAgentCard issuanceNonce)) cardBytes sigBytes of
                None \<Rightarrow> False | Some b \<Rightarrow> b)"

definition schemaIdForSkill :: "(string \<Rightarrow> string) \<Rightarrow> string \<Rightarrow> string" where
  "schemaIdForSkill sha skill = sha (''eto.beckn.schema.skill-cert.'' @ skill @ ''.v1'')"

text \<open>\<open>StaticSkillWhitelist\<close>: a map from skills to sets of subjects, here lists without repetition.\<close>

type_synonym skill_whitelist = "string \<rightharpoonup> string list"

definition wl_construct :: "(string \<times> string list) list \<Rightarrow> skill_whitelist" where
  "wl_construct entries = foldl (\<lambda>m (skill, subjects). m(skill \<mapsto> remdups subjects)) Map.empty entries"

definition wl_isAllowed :: "skill_whitelist \<Rightarrow> string \<Rightarrow> string \<Rightarrow> bool" where
  "wl_isAllowed m skill subject = (case m skill of None \<Rightarrow> False | Some s \<Rightarrow> subject \<in> set s)"

definition wl_add :: "skill_whitelist \<Rightarrow> string \<Rightarrow> string \<Rightarrow> skill_whitelist" where
  "wl_add m skill subject = (let s = (case m skill of None \<Rightarrow> [] | Some s \<Rightarrow> s) in m(skill \<mapsto> List.insert subject s))"

text \<open>\<open>InMemorySkillBindingStore\<close>.\<close>

definition sk_key :: "string \<Rightarrow> string \<Rightarrow> string" where
  "sk_key skill subject = skill @ [CHR 0x00] @ subject"

definition sk_get :: "skill_store \<Rightarrow> string \<Rightarrow> string \<Rightarrow> SkillBinding option" where
  "sk_get st skill subject = st (sk_key skill subject)"

definition sk_put :: "skill_store \<Rightarrow> SkillBinding \<Rightarrow> (string, unit) result \<times> skill_store" where
  "sk_put st b = (let k = sk_key (skb_skill b) (skb_subjectAgentCard b)
     in if st k \<noteq> None then (Inl ''already exists'', st) else (Inr (), st(k \<mapsto> b)))"

definition buildSkillCertClaim :: "string \<Rightarrow> string \<Rightarrow> string \<Rightarrow> string \<Rightarrow> json" where
  "buildSkillCertClaim issuerDid skill subjectAgentCard issuanceDate = JObj [
     (''@context'', JArr [JStr ''https://www.w3.org/2018/credentials/v1'', JStr ''https://schema.eto.dev/skill-cert/v1'']),
     (''type'', JArr [JStr ''VerifiableCredential'', JStr ''SkillCertCredential'']),
     (''issuer'', JStr issuerDid),
     (''issuanceDate'', JStr issuanceDate),
     (''credentialSubject'', JObj [
        (''id'', JStr (''did:eto:agent:'' @ subjectAgentCard)),
        (''skill'', JStr skill)])]"

section \<open>Issuing\<close>

record skill_pending =
  skp_skill :: string
  skp_subject :: string

text \<open>Steps 1 and 1b: shape and caller-binding signature.\<close>

definition skill_authenticate :: "SkillCertIssuerDeps \<Rightarrow> SkillCertIssueRequest \<Rightarrow> trace \<Rightarrow> (skill_error, skill_pending) result \<times> trace" where
  "skill_authenticate d q tr = (case skq_skill q of VStr skill \<Rightarrow>
       if \<not> SKILL_SLUG_RE skill then (Inl (SkillCertIssuerError SkInvalidSkill 400), tr) else
     (case skq_subjectAgentCard q of VStr subject \<Rightarrow>
       if subject = [] then (Inl (SkillCertIssuerError SkInvalidSubject 400), tr) else
     (case skq_agentCardSignature q of VStr signature \<Rightarrow>
       if signature = [] then (Inl (SkillCertIssuerError SkInvalidAgentCardSignature 401), tr) else
     (case skq_issuanceNonce q of VStr nonce \<Rightarrow>
       if nonce = [] then (Inl (SkillCertIssuerError SkInvalidAgentCardSignature 401), tr) else
       let tr1 = tr @ [EVerify signature]
       in (case skd_signatureVerifier d tr (skill, subject, nonce, signature) of
             Inl e \<Rightarrow> (Inl (SkUncaught e), tr1)
           | Inr sigOk \<Rightarrow> if \<not> sigOk then (Inl (SkillCertIssuerError SkInvalidAgentCardSignature 401), tr1)
               else (Inr \<lparr>skp_skill = skill, skp_subject = subject\<rparr>, tr1))
      | _ \<Rightarrow> (Inl (SkillCertIssuerError SkInvalidAgentCardSignature 401), tr))
      | _ \<Rightarrow> (Inl (SkillCertIssuerError SkInvalidAgentCardSignature 401), tr))
      | _ \<Rightarrow> (Inl (SkillCertIssuerError SkInvalidSubject 400), tr))
      | _ \<Rightarrow> (Inl (SkillCertIssuerError SkInvalidSkill 400), tr))"

definition sk_answer :: "(string \<Rightarrow> string) \<Rightarrow> skill_pending \<Rightarrow> SkillBinding \<Rightarrow> SkillCertIssueResponse" where
  "sk_answer sha p b = \<lparr>ska_credentialPda = skb_credentialPda b, ska_txSignature = skb_txSignature b, ska_claimUri = skb_claimUri b,
     ska_claimHash = skb_claimHash b, ska_schema = schemaIdForSkill sha (skp_skill p), ska_idempotent = True\<rparr>"

text \<open>Step 2: the idempotency pre-check.\<close>

definition skill_issue_lookup :: "(string \<Rightarrow> string) \<Rightarrow> skill_store \<Rightarrow> skill_pending
    \<Rightarrow> (skill_error, SkillCertIssueResponse) result + skill_pending" where
  "skill_issue_lookup sha st p = (case sk_get st (skp_skill p) (skp_subject p) of
       Some existing \<Rightarrow> Inl (Inr (sk_answer sha p existing)) | None \<Rightarrow> Inr p)"

type_synonym skill_minted = "chain_result \<times> string \<times> string \<times> int"

text \<open>Steps 3 to 5: whitelist, claim and transaction.\<close>

definition skill_issue_mint :: "(string \<Rightarrow> string) \<Rightarrow> SkillCertIssuerDeps \<Rightarrow> skill_pending \<Rightarrow> trace
    \<Rightarrow> (skill_error, skill_minted) result \<times> trace" where
  "skill_issue_mint sha d p tr = (case skd_isAllowed d tr (skp_skill p, skp_subject p) of Inl e \<Rightarrow> (Inl (SkUncaught e), tr)
     | Inr allowed \<Rightarrow> if \<not> allowed then (Inl (SkillCertIssuerError SkNotWhitelisted 403), tr)
     else case toISOString (skd_now d tr) of None \<Rightarrow> (Inl (SkUncaught ''RangeError''), tr) | Some issuanceDate \<Rightarrow>
     let claim = buildSkillCertClaim (skd_issuerDid d) (skp_skill p) (skp_subject p) issuanceDate;
         claimHash = skd_hasher d claim; tr1 = tr @ [EPinJson claim]
     in case skd_ipfs d tr claim of Inl e \<Rightarrow> (Inl (SkUncaught e), tr1) | Inr claimUri \<Rightarrow>
     if \<not> starts_with ''ipfs://'' claimUri then (Inl (SkillCertIssuerError SkChainTxFailed 500), tr1)
     else let args = \<lparr>ia_schema = schemaIdForSkill sha (skp_skill p), ia_subjectAgentCard = skp_subject p, ia_claimHash = claimHash,
                      ia_claimUri = claimUri, ia_validUntilSlot = 0\<rparr>;
              tr2 = tr1 @ [EIssueArgs args]
     in case skd_chain d tr1 args of Inl _ \<Rightarrow> (Inl (SkillCertIssuerError SkChainTxFailed 502), tr2)
        | Inr chainResult \<Rightarrow> (Inr (chainResult, claimUri, claimHash, skd_now d tr2), tr2))"

text \<open>Step 6: persist, or converge on the row that won the race.\<close>

definition skill_issue_finish :: "(string \<Rightarrow> string) \<Rightarrow> skill_store \<Rightarrow> skill_pending \<Rightarrow> (skill_error, skill_minted) result
    \<Rightarrow> (skill_error, SkillCertIssueResponse) result \<times> skill_store" where
  "skill_issue_finish sha st p m = (case m of Inl e \<Rightarrow> (Inl e, st) | Inr (chainResult, claimUri, claimHash, nowMs) \<Rightarrow>
     case sk_put st \<lparr>skb_skill = skp_skill p, skb_subjectAgentCard = skp_subject p, skb_credentialPda = cr_credentialPda chainResult,
         skb_txSignature = cr_txSignature chainResult, skb_claimUri = claimUri, skb_claimHash = claimHash, skb_issuedAtMs = nowMs\<rparr> of
       (Inl _, st') \<Rightarrow> (case sk_get st' (skp_skill p) (skp_subject p) of
           None \<Rightarrow> (Inl (SkillCertIssuerError SkChainTxFailed 500), st')
         | Some canonical \<Rightarrow> (Inr (sk_answer sha p canonical), st'))
     | (Inr _, st') \<Rightarrow> (Inr \<lparr>ska_credentialPda = cr_credentialPda chainResult, ska_txSignature = cr_txSignature chainResult,
           ska_claimUri = claimUri, ska_claimHash = claimHash, ska_schema = schemaIdForSkill sha (skp_skill p),
           ska_idempotent = False\<rparr>, st'))"

definition skill_issue :: "(string \<Rightarrow> string) \<Rightarrow> SkillCertIssuerDeps \<Rightarrow> (skill_store \<Rightarrow> skill_store) \<Rightarrow> (skill_store \<Rightarrow> skill_store)
    \<Rightarrow> SkillCertIssueRequest \<Rightarrow> skill_store \<Rightarrow> trace \<Rightarrow> (skill_error, SkillCertIssueResponse) result \<times> skill_store \<times> trace" where
  "skill_issue sha d others1 others2 q st tr = (case skill_authenticate d q tr of
       (Inl e, tr1) \<Rightarrow> (Inl e, if tr1 = tr then st else others1 st, tr1)
     | (Inr p, tr1) \<Rightarrow> let st1 = others1 st in
       case skill_issue_lookup sha st1 p of Inl r \<Rightarrow> (r, st1, tr1) | Inr p \<Rightarrow>
       let (m, tr2) = skill_issue_mint sha d p tr1; (r, st2) = skill_issue_finish sha (others2 st1) p m
       in (r, st2, tr2))"

section \<open>Specification\<close>

text \<open>The answer that the stored binding of a skill and a subject stands for.\<close>

definition skill_binding :: "(string \<Rightarrow> string) \<Rightarrow> skill_store \<Rightarrow> string \<times> string \<Rightarrow> SkillCertIssueResponse option" where
  "skill_binding sha st k = map_option (sk_answer sha \<lparr>skp_skill = fst k, skp_subject = snd k\<rparr>) (sk_get st (fst k) (snd k))"

fun skill_success :: "skill_pending \<times> (skill_error, SkillCertIssueResponse) result \<Rightarrow> ((string \<times> string) \<times> SkillCertIssueResponse) option" where
  "skill_success (p, Inr r) = Some ((skp_skill p, skp_subject p), r\<lparr>ska_idempotent := True\<rparr>)"
| "skill_success (p, Inl e) = None"

definition skill_start :: "(string \<Rightarrow> string) \<Rightarrow> skill_store \<Rightarrow> skill_pending
    \<Rightarrow> skill_pending \<times> (skill_error, SkillCertIssueResponse) result + skill_pending" where
  "skill_start sha st p = (case skill_issue_lookup sha st p of Inl r \<Rightarrow> Inl (p, r) | Inr p \<Rightarrow> Inr p)"

definition skill_finish :: "(string \<Rightarrow> string) \<Rightarrow> skill_store \<Rightarrow> skill_pending \<Rightarrow> (skill_error, skill_minted) result
    \<Rightarrow> (skill_pending \<times> (skill_error, SkillCertIssueResponse) result) \<times> skill_store" where
  "skill_finish sha st p m = (case skill_issue_finish sha st p m of (r, st') \<Rightarrow> ((p, r), st'))"

definition skill_aux :: "skill_store \<Rightarrow> unit \<Rightarrow> skill_store" where
  "skill_aux st u = st"

text \<open>Clients that always accept, for examples.\<close>

definition skill_example_deps :: SkillCertIssuerDeps where
  "skill_example_deps = \<lparr>skd_isAllowed = (\<lambda>tr (s, a). Inr (wl_isAllowed (wl_construct [(''rust'', [''card''])]) s a)),
     skd_chain = (\<lambda>tr a. Inr \<lparr>cr_credentialPda = ''pda'', cr_txSignature = ''tx''\<rparr>), skd_ipfs = (\<lambda>tr v. Inr ''ipfs://c''),
     skd_signatureVerifier = (\<lambda>tr x. Inr True), skd_hasher = (\<lambda>v. ''h''), skd_now = (\<lambda>tr. 0), skd_issuerDid = ''did''\<rparr>"

definition skill_example_request :: SkillCertIssueRequest where
  "skill_example_request = \<lparr>skq_skill = VStr ''rust'', skq_subjectAgentCard = VStr ''card'', skq_agentCardSignature = VStr ''sig'',
     skq_issuanceNonce = VStr ''n''\<rparr>"

section \<open>Lemmas\<close>

lemma skill_start_answers:
  "skill_start sha st q = Inl r \<Longrightarrow> skill_success r = Some (k, b) \<Longrightarrow> skill_binding sha st k = Some b"
  by (auto simp: skill_start_def skill_issue_lookup_def skill_binding_def sk_answer_def split: sum.splits option.splits)

lemma skill_finish_binds:
  "skill_finish sha st q m = (r, st') \<Longrightarrow> skill_success r = Some (k, b) \<Longrightarrow> skill_binding sha st' k = Some b"
  by (cases m) (auto simp: skill_finish_def skill_issue_finish_def skill_binding_def sk_put_def sk_get_def sk_answer_def Let_def
      split: prod.splits option.splits if_splits)

lemma skill_finish_keeps:
  "skill_finish sha st q m = (r, st') \<Longrightarrow> skill_binding sha st k = Some b \<Longrightarrow> skill_binding sha st' k = Some b"
  by (cases m) (auto simp: skill_finish_def skill_issue_finish_def skill_binding_def sk_put_def sk_get_def Let_def
      split: prod.splits option.splits if_splits)

interpretation skill: concurrent_issuer "skill_start sha" "skill_finish sha" skill_aux "skill_binding sha" skill_success
  for sha
  by unfold_locales (auto intro: skill_start_answers skill_finish_binds skill_finish_keeps simp: skill_aux_def)

lemma slug_run_chars: "slug_run prev s \<Longrightarrow> c \<in> set s \<Longrightarrow> is_slug_char c \<or> c = CHR ''-''"
  by (induction s arbitrary: prev) (auto split: if_splits)

lemma slug_no_nul: "SKILL_SLUG_RE s \<Longrightarrow> CHR 0x00 \<notin> set s"
  using slug_run_chars [of False s "CHR 0x00"] by (auto simp: SKILL_SLUG_RE_def is_slug_char_def is_lower_def is_digit_def code_def)

text \<open>The separator keeps the pairs of a valid slug and a subject apart.\<close>

lemma sk_key_inject:
  assumes "SKILL_SLUG_RE s" "SKILL_SLUG_RE s'" "sk_key s a = sk_key s' a'"
  shows "s = s' \<and> a = a'"
proof -
  have "takeWhile (\<lambda>c. c \<noteq> CHR 0x00) (sk_key s a) = s" "takeWhile (\<lambda>c. c \<noteq> CHR 0x00) (sk_key s' a') = s'"
    using slug_no_nul assms(1,2) by (auto simp: sk_key_def takeWhile_append takeWhile_eq_all_conv)
  with assms(3) show ?thesis by (auto simp: sk_key_def)
qed

lemma wl_add_spec: "wl_isAllowed (wl_add m s a) s' a' \<longleftrightarrow> wl_isAllowed m s' a' \<or> s = s' \<and> a = a'"
  by (auto simp: wl_isAllowed_def wl_add_def Let_def split: option.splits)

lemma skill_authenticate_ok:
  assumes "skill_authenticate d q tr = (Inr p, tr1)"
  obtains nonce signature where "SKILL_SLUG_RE (skp_skill p)" "skp_subject p \<noteq> []" "skq_skill q = VStr (skp_skill p)"
    "skq_subjectAgentCard q = VStr (skp_subject p)" "skq_issuanceNonce q = VStr nonce" "nonce \<noteq> []"
    "skd_signatureVerifier d tr (skp_skill p, skp_subject p, nonce, signature) = Inr True" "tr1 = tr @ [EVerify signature]"
  using assms by (auto simp: skill_authenticate_def Let_def split: js_value.splits if_splits sum.splits)

lemma skill_mint_ok:
  assumes "skill_issue_mint sha d p tr = (Inr m, tr')"
  obtains date claim args where "skd_isAllowed d tr (skp_skill p, skp_subject p) = Inr True"
    "claim = buildSkillCertClaim (skd_issuerDid d) (skp_skill p) (skp_subject p) date"
    "tr' = tr @ [EPinJson claim, EIssueArgs args]" "ia_schema args = schemaIdForSkill sha (skp_skill p)"
    "ia_subjectAgentCard args = skp_subject p" "ia_claimHash args = skd_hasher d claim"
  using assms unfolding skill_issue_mint_def by (auto simp: Let_def split: sum.splits option.splits if_splits)

section \<open>Properties\<close>

text \<open>However concurrent requests interleave, two successful answers for the same skill and subject
  carry the same credential, transaction, claim URI, claim hash and schema, and distinct valid pairs are
  stored under distinct keys.\<close>

theorem skill_answers_agree:
  assumes "issuance_run (skill_start sha) (skill_finish sha) skill_aux st0 st ps rs" "r \<in> set rs" "r' \<in> set rs"
    "skill_success r = Some (k, b)" "skill_success r' = Some (k, b')"
  shows "b = b' \<and> skill_binding sha st k = Some b
    \<and> (\<forall>s a s' a'. SKILL_SLUG_RE s \<longrightarrow> SKILL_SLUG_RE s' \<longrightarrow> (sk_key s a = sk_key s' a' \<longleftrightarrow> s = s' \<and> a = a'))"
  using skill.answers_agree [OF assms] skill.answers_bound [OF assms(1,2,4)] sk_key_inject by blast

theorem skill_answers_agree_witness:
  "let p = \<lparr>skp_skill = ''rust'', skp_subject = ''card''\<rparr>;
       (r, st) = skill_finish id Map.empty p (Inr (\<lparr>cr_credentialPda = ''pda'', cr_txSignature = ''tx''\<rparr>, ''ipfs://c'', ''h'', 0))
   in map_option ska_credentialPda (skill_binding id st (''rust'', ''card'')) = Some ''pda''"
proof -
  define p where "p = \<lparr>skp_skill = ''rust'', skp_subject = ''card''\<rparr>"
  define m :: "(skill_error, skill_minted) result"
    where "m = Inr (\<lparr>cr_credentialPda = ''pda'', cr_txSignature = ''tx''\<rparr>, ''ipfs://c'', ''h'', 0)"
  obtain r st where f: "skill_finish id Map.empty p m = (r, st)" by fastforce
  obtain b where s: "skill_success r = Some ((''rust'', ''card''), b)" "ska_credentialPda b = ''pda''"
    using f by (auto simp: skill_finish_def skill_issue_finish_def m_def sk_put_def p_def)
  have "skill_start id Map.empty p = Inr p" by (simp add: skill_start_def skill_issue_lookup_def sk_get_def)
  from run_single [of "skill_start id" _ _ _ "skill_finish id", OF this f]
  have "issuance_run (skill_start id) (skill_finish id) skill_aux Map.empty st {#} [r]" .
  from skill_answers_agree [OF this _ _ s(1) s(1)] f s show ?thesis by (simp add: p_def m_def)
qed

text \<open>The gates of the skill issuer: every success has a valid slug, a subject and a verified signature
  for that slug, subject and a nonce; a new credential is minted only for a whitelisted pair, under the
  schema of that skill, for that subject, with the hash of the pinned claim.\<close>

theorem skill_issue_gates:
  assumes "skill_issue sha d others1 others2 q st tr = (Inr a, st', tr')"
  shows "\<exists>s c nonce signature. skq_skill q = VStr s \<and> skq_subjectAgentCard q = VStr c \<and> SKILL_SLUG_RE s \<and> c \<noteq> []
    \<and> skd_signatureVerifier d tr (s, c, nonce, signature) = Inr True
    \<and> (\<not> ska_idempotent a \<longrightarrow> (\<exists>date claim args. skd_isAllowed d (tr @ [EVerify signature]) (s, c) = Inr True
         \<and> claim = buildSkillCertClaim (skd_issuerDid d) s c date
         \<and> tr' = tr @ [EVerify signature, EPinJson claim, EIssueArgs args]
         \<and> ia_schema args = schemaIdForSkill sha s \<and> ia_subjectAgentCard args = c \<and> ia_claimHash args = skd_hasher d claim))"
proof -
  obtain p tr1 where auth: "skill_authenticate d q tr = (Inr p, tr1)"
    using assms by (auto simp: skill_issue_def Let_def split: prod.splits sum.splits)
  have fresh: "\<exists>m. skill_issue_mint sha d p tr1 = (Inr m, tr')" if "\<not> ska_idempotent a"
    using assms that auth
    by (auto simp: skill_issue_def Let_def skill_issue_lookup_def skill_issue_finish_def sk_answer_def
        split: prod.splits sum.splits option.splits if_splits)
  from auth obtain nonce signature where ok: "SKILL_SLUG_RE (skp_skill p)" "skp_subject p \<noteq> []" "skq_skill q = VStr (skp_skill p)"
    "skq_subjectAgentCard q = VStr (skp_subject p)"
    "skd_signatureVerifier d tr (skp_skill p, skp_subject p, nonce, signature) = Inr True" "tr1 = tr @ [EVerify signature]"
    by (rule skill_authenticate_ok)
  have minted: "\<exists>date claim args. skd_isAllowed d (tr @ [EVerify signature]) (skp_skill p, skp_subject p) = Inr True
         \<and> claim = buildSkillCertClaim (skd_issuerDid d) (skp_skill p) (skp_subject p) date
         \<and> tr' = tr @ [EVerify signature, EPinJson claim, EIssueArgs args]
         \<and> ia_schema args = schemaIdForSkill sha (skp_skill p) \<and> ia_subjectAgentCard args = skp_subject p
         \<and> ia_claimHash args = skd_hasher d claim" if new: "\<not> ska_idempotent a"
  proof -
    from fresh [OF new] obtain m where "skill_issue_mint sha d p tr1 = (Inr m, tr')" ..
    then show ?thesis by (rule skill_mint_ok) (use ok(6) in auto)
  qed
  show ?thesis
    by (intro exI [of _ "skp_skill p"] exI [of _ "skp_subject p"] exI [of _ nonce] exI [of _ signature] conjI ok impI minted)
qed

theorem skill_issue_gates_witness:
  "\<exists>a st' tr' args. skill_issue id skill_example_deps id id skill_example_request Map.empty [] = (Inr a, st', tr')
     \<and> \<not> ska_idempotent a \<and> EIssueArgs args \<in> set tr' \<and> ia_subjectAgentCard args = ''card''"
proof -
  have date: "toISOString 0 = Some ''1970-01-01T00:00:00.000Z''" by code_simp
  have slug: "SKILL_SLUG_RE ''rust''" by code_simp
  have "\<exists>a st' tr'. skill_issue id skill_example_deps id id skill_example_request Map.empty [] = (Inr a, st', tr') \<and> \<not> ska_idempotent a"
    by (simp add: skill_issue_def skill_authenticate_def skill_example_request_def slug skill_example_deps_def skill_issue_lookup_def
        sk_get_def skill_issue_mint_def date Let_def starts_with_def skill_issue_finish_def sk_put_def wl_isAllowed_def wl_construct_def)
  then obtain a st' tr' where r: "skill_issue id skill_example_deps id id skill_example_request Map.empty [] = (Inr a, st', tr')"
    and new: "\<not> ska_idempotent a" by blast
  from skill_issue_gates [OF r] new obtain args where "EIssueArgs args \<in> set tr'" "ia_subjectAgentCard args = ''card''"
    by (fastforce simp: skill_example_request_def)
  with r new show ?thesis by blast
qed

text \<open>The signed text does not determine the request: without separators, two valid requests of the same
  subject for different skills can have the same preimage, so one signature serves both.\<close>

theorem skill_preimage_ambiguous:
  "\<exists>s s' c n n'. SKILL_SLUG_RE s \<and> SKILL_SLUG_RE s' \<and> s \<noteq> s' \<and> n \<noteq> [] \<and> n' \<noteq> []
     \<and> map_option length (base58Decode c) = Some 32
     \<and> skillCertSignaturePreimage s c n = skillCertSignaturePreimage s' c n'"
proof -
  define c where "c = replicate 32 (CHR ''1'')"
  have "map_option length (base58Decode c) = Some 32" unfolding c_def by code_simp
  moreover have "SKILL_SLUG_RE ''a''" "SKILL_SLUG_RE (''a'' @ c)" unfolding c_def by code_simp+
  moreover have "skillCertSignaturePreimage ''a'' c (c @ ''n'') = skillCertSignaturePreimage (''a'' @ c) c ''n''"
    by (simp add: skillCertSignaturePreimage_def)
  moreover have "c \<noteq> []" by (simp add: c_def)
  ultimately show ?thesis
    by (intro exI [of _ "''a''"] exI [of _ "''a'' @ c"] exI [of _ c] exI [of _ "c @ ''n''"] exI [of _ "''n''"]) simp
qed

end
