(* ===== verification/Bank_Ramps.thy ===== *)
theory Bank_Ramps
  imports Jcs Base58
begin

text \<open>
  The money-moving handlers of the bank BPP: \<^verbatim>\<open>keeper/bpps/bank/handlers/fee.ts\<close>,
  \<^verbatim>\<open>onramp.ts\<close>, \<^verbatim>\<open>offramp.ts\<close> and \<^verbatim>\<open>wire.ts\<close>. Amounts are JavaScript numbers: after
  validation integers, with double arithmetic on them. The external calls a handler makes are a trace
  of effects, and each client is a function of the trace so far; \<open>sha\<close> is the SHA-256 hex digest of the
  concatenated updates. Clients of the chain and the payment rails are dependencies. An effect on the escrow of a wire
  also records whether the client did what it was asked.
\<close>

section \<open>Fee\<close>

definition ONE_BIP_DIVISOR :: int where
  "ONE_BIP_DIVISOR = 10000"

definition oneBipFee :: "jsnumber \<Rightarrow> int" where
  "oneBipFee eusd_atomic = (case eusd_atomic of JInt i \<Rightarrow> if i \<le> 0 then 0 else js_floor_div i ONE_BIP_DIVISOR | _ \<Rightarrow> 0)"

definition BANK_TREASURY_TOKEN_ACCOUNT_PDA_HEX :: "(nat list \<Rightarrow> string) \<Rightarrow> string" where
  "BANK_TREASURY_TOKEN_ACCOUNT_PDA_HEX sha = sha (utf8 ''eto.bank.treasury.eusd.v0'')"

record RemitArgs =
  rm_fee_atomic :: int
  rm_treasury_pda_hex :: string
  rm_source :: string
  rm_correlation_id :: string

definition remit_json :: "RemitArgs \<Rightarrow> json" where
  "remit_json a = JObj [(''fee_atomic'', JNum (JInt (rm_fee_atomic a))), (''treasury_pda_hex'', JStr (rm_treasury_pda_hex a)),
     (''source'', JStr (rm_source a)), (''correlation_id'', JStr (rm_correlation_id a))]"

definition stubRemitToTreasury :: "(nat list \<Rightarrow> string) \<Rightarrow> RemitArgs \<Rightarrow> string" where
  "stubRemitToTreasury sha args = (if rm_fee_atomic args = 0 then replicate 64 (CHR ''0'')
     else sha (utf8 (''treasury:'' @ json_stringify (remit_json args))))"

section \<open>Shared data\<close>

text \<open>An external bank account; a wire's recipient has the same fields. Absent fields are \<open>None\<close>.\<close>

record external_account =
  xa_name :: string
  xa_routing_number :: "string option"
  xa_account_number :: "string option"
  xa_swift_bic :: "string option"
  xa_iban :: "string option"

text \<open>JavaScript truthiness of an optional string.\<close>

definition truthy :: "string option \<Rightarrow> bool" where
  "truthy x = (case x of None \<Rightarrow> False | Some s \<Rightarrow> s \<noteq> [])"

datatype WireKind = Domestic | International

fun wire_kind_string :: "WireKind \<Rightarrow> string" where
  "wire_kind_string Domestic = ''domestic''"
| "wire_kind_string International = ''international''"

datatype bank_effect =
    BVerifyPull string string int
  | BMint string int
  | BRemit RemitArgs
  | BBurn string int
  | BPush int external_account
  | BFlag string string int
  | BLock string string int jsnumber string bool
  | BRelease string external_account int bool
  | BRefund string string int jsnumber bool

type_synonym bank_trace = "bank_effect list"

type_synonym ('a, 'b) bank_dep = "bank_trace \<Rightarrow> 'a \<Rightarrow> (string, 'b) result"

text \<open>\<open>Buffer.from(BigInt(n).toString(16).padStart(16, "0"), "hex")\<close>; \<open>BigInt\<close> of a number that is not an
  integer throws (\<open>None\<close>).\<close>

definition bigint_buffer :: "jsnumber \<Rightarrow> nat list option" where
  "bigint_buffer n = (case n of JInt i \<Rightarrow>
       let s = (if i < 0 then CHR ''-'' # show_hex (nat (- i)) else show_hex (nat i))
       in Some (buffer_from_hex (replicate (16 - length s) (CHR ''0'') @ s))
     | _ \<Rightarrow> None)"

text \<open>The members of the destination object that are present, in the order of its declaration.\<close>

definition account_json :: "string \<Rightarrow> external_account \<Rightarrow> json" where
  "account_json name_key a = (let opt = (\<lambda>k x. case x of None \<Rightarrow> [] | Some v \<Rightarrow> [(k, JStr v)]) in
     JObj (if name_key = ''account_holder_name''
       then [(name_key, JStr (xa_name a))] @ opt ''routing_number'' (xa_routing_number a) @ opt ''account_number'' (xa_account_number a)
            @ opt ''swift_bic'' (xa_swift_bic a) @ opt ''iban'' (xa_iban a)
       else opt ''routing_number'' (xa_routing_number a) @ opt ''account_number'' (xa_account_number a)
            @ opt ''swift_bic'' (xa_swift_bic a) @ opt ''iban'' (xa_iban a) @ [(name_key, JStr (xa_name a))]))"

section \<open>Onramp\<close>

record OnrampRequest =
  onr_caller_pubkey :: string
  onr_recipient :: string
  onr_recipient_token_account_pda :: string
  onr_usd_amount_cents :: jsnumber
  onr_funding_method :: string
  onr_external_payment_ref :: string
  onr_initiated_slot :: jsnumber

record OnrampOutcome =
  ono_onramp_id :: string
  ono_eusd_amount :: int
  ono_fee :: int
  ono_fulfillment_uri :: string
  ono_mint_tx_signature :: string
  ono_treasury_remit_tx_signature :: string

datatype OnrampReason = OnInvalidPubkey | OnCallerMismatch | OnInvalidAmount | OnUsdPullFailed | OnMintFailed

datatype onramp_error = OnrampRejected OnrampReason | OnUncaught string

record OnrampDeps =
  ond_verifyUsdPull :: "(string \<times> string \<times> int, bool) bank_dep"
  ond_mintOnChain :: "(string \<times> int, string) bank_dep"
  ond_feeFor :: "jsnumber \<Rightarrow> int"
  ond_remitToTreasury :: "(RemitArgs, string) bank_dep"

definition usdCentsToAtomicEusd :: "int \<Rightarrow> int" where
  "usdCentsToAtomicEusd cents = js_mul cents 10000"

definition executeOnramp :: "(nat list \<Rightarrow> string) \<Rightarrow> OnrampDeps \<Rightarrow> OnrampRequest \<Rightarrow> bank_trace
    \<Rightarrow> (onramp_error, OnrampOutcome) result \<times> bank_trace" where
  "executeOnramp sha d req tr = (
     if \<not> HEX64 (onr_caller_pubkey req) then (Inl (OnrampRejected OnInvalidPubkey), tr)
     else if \<not> HEX64 (onr_recipient req) then (Inl (OnrampRejected OnInvalidPubkey), tr)
     else if \<not> HEX64 (onr_recipient_token_account_pda req) then (Inl (OnrampRejected OnInvalidPubkey), tr)
     else if onr_caller_pubkey req \<noteq> onr_recipient req then (Inl (OnrampRejected OnCallerMismatch), tr)
     else case onr_usd_amount_cents req of JInt cents \<Rightarrow>
       if cents \<le> 0 then (Inl (OnrampRejected OnInvalidAmount), tr)
       else let eusd_gross = usdCentsToAtomicEusd cents; fee = ond_feeFor d (JInt eusd_gross); eusd_net = js_sub eusd_gross fee
       in (case (bigint_buffer (JInt cents), bigint_buffer (onr_initiated_slot req)) of (Some b1, Some b2) \<Rightarrow>
         let onramp_id = sha (utf8 ''onramp'' @ buffer_from_hex (onr_recipient req) @ b1 @ b2 @ utf8 (onr_external_payment_ref req));
             tr1 = tr @ [BVerifyPull (onr_funding_method req) (onr_external_payment_ref req) cents]
         in (case ond_verifyUsdPull d tr (onr_funding_method req, onr_external_payment_ref req, cents) of
           Inl e \<Rightarrow> (Inl (OnUncaught e), tr1)
         | Inr pulled \<Rightarrow> if \<not> pulled then (Inl (OnrampRejected OnUsdPullFailed), tr1)
           else let tr2 = tr1 @ [BMint (onr_recipient_token_account_pda req) eusd_net]
           in (case ond_mintOnChain d tr1 (onr_recipient_token_account_pda req, eusd_net) of
             Inl _ \<Rightarrow> (Inl (OnrampRejected OnMintFailed), tr2)
           | Inr mint_sig \<Rightarrow>
             let args = \<lparr>rm_fee_atomic = fee, rm_treasury_pda_hex = BANK_TREASURY_TOKEN_ACCOUNT_PDA_HEX sha,
                         rm_source = ''onramp'', rm_correlation_id = onramp_id\<rparr>;
                 tr3 = tr2 @ [BRemit args]
             in (case ond_remitToTreasury d tr2 args of
               Inl e \<Rightarrow> (Inl (OnUncaught e), tr3)
             | Inr remit \<Rightarrow> (Inr \<lparr>ono_onramp_id = onramp_id, ono_eusd_amount = eusd_net, ono_fee = fee,
                   ono_fulfillment_uri = ''eto://onramp/'' @ onramp_id, ono_mint_tx_signature = mint_sig,
                   ono_treasury_remit_tx_signature = remit\<rparr>, tr3))))
        | _ \<Rightarrow> (Inl (OnUncaught ''RangeError''), tr))
     | _ \<Rightarrow> (Inl (OnrampRejected OnInvalidAmount), tr))"

section \<open>Offramp\<close>

record OfframpRequest =
  ofr_caller_pubkey :: string
  ofr_holder :: string
  ofr_holder_token_account_pda :: string
  ofr_eusd_amount_atomic :: jsnumber
  ofr_destination :: external_account
  ofr_initiated_slot :: jsnumber

record OfframpOutcome =
  ofo_offramp_id :: string
  ofo_burned_atomic :: int
  ofo_fee_atomic :: int
  ofo_usd_cents_pushed :: int
  ofo_fulfillment_uri :: string
  ofo_burn_tx_signature :: string
  ofo_external_ref :: string
  ofo_treasury_remit_tx_signature :: string

datatype OfframpReason = OfInvalidPubkey | OfCallerMismatch | OfInvalidAmount | OfDestinationInvalid | OfBurnFailed | OfPushFailedPostBurn

datatype offramp_error = OfframpRejected OfframpReason | OfUncaught string

record OfframpDeps =
  ofd_burnOnChain :: "(string \<times> int, string) bank_dep"
  ofd_pushUsd :: "(int \<times> external_account, string) bank_dep"
  ofd_flagReconciliation :: "(string \<times> string \<times> int, unit) bank_dep"
  ofd_feeFor :: "jsnumber \<Rightarrow> int"
  ofd_remitToTreasury :: "(RemitArgs, string) bank_dep"

definition atomicEusdToUsdCents :: "int \<Rightarrow> int" where
  "atomicEusdToUsdCents atomic = js_floor_div atomic 10000"

text \<open>The checks of \<open>executeOfframp\<close>: the amount, or the rejection.\<close>

definition offramp_validate :: "OfframpRequest \<Rightarrow> (offramp_error, int) result" where
  "offramp_validate req = (
     if \<not> HEX64 (ofr_caller_pubkey req) then Inl (OfframpRejected OfInvalidPubkey)
     else if \<not> HEX64 (ofr_holder req) then Inl (OfframpRejected OfInvalidPubkey)
     else if \<not> HEX64 (ofr_holder_token_account_pda req) then Inl (OfframpRejected OfInvalidPubkey)
     else if ofr_caller_pubkey req \<noteq> ofr_holder req then Inl (OfframpRejected OfCallerMismatch)
     else case ofr_eusd_amount_atomic req of JInt amount \<Rightarrow>
       if amount \<le> 0 then Inl (OfframpRejected OfInvalidAmount)
       else if xa_name (ofr_destination req) = [] then Inl (OfframpRejected OfDestinationInvalid)
       else let hasDomestic = (truthy (xa_routing_number (ofr_destination req)) \<and> truthy (xa_account_number (ofr_destination req)));
                hasIntl = truthy (xa_swift_bic (ofr_destination req))
       in if \<not> hasDomestic \<and> \<not> hasIntl then Inl (OfframpRejected OfDestinationInvalid) else Inr amount
     | _ \<Rightarrow> Inl (OfframpRejected OfInvalidAmount))"

definition executeOfframp :: "(nat list \<Rightarrow> string) \<Rightarrow> OfframpDeps \<Rightarrow> OfframpRequest \<Rightarrow> bank_trace
    \<Rightarrow> (offramp_error, OfframpOutcome) result \<times> bank_trace" where
  "executeOfframp sha d req tr = (case offramp_validate req of Inl e \<Rightarrow> (Inl e, tr) | Inr amount \<Rightarrow>
     let fee = ofd_feeFor d (JInt amount); eusd_net = js_sub amount fee
     in if eusd_net \<le> 0 then (Inl (OfframpRejected OfInvalidAmount), tr)
     else let usd_cents = atomicEusdToUsdCents eusd_net
     in case (bigint_buffer (JInt amount), bigint_buffer (ofr_initiated_slot req)) of (Some b1, Some b2) \<Rightarrow>
       let offramp_id = sha (utf8 ''offramp'' @ buffer_from_hex (ofr_holder req) @ b1 @ b2
                             @ utf8 (json_stringify (account_json ''account_holder_name'' (ofr_destination req))));
           tr1 = tr @ [BBurn (ofr_holder_token_account_pda req) amount]
       in (case ofd_burnOnChain d tr (ofr_holder_token_account_pda req, amount) of
         Inl _ \<Rightarrow> (Inl (OfframpRejected OfBurnFailed), tr1)
       | Inr burn_sig \<Rightarrow>
         let tr2 = tr1 @ [BPush usd_cents (ofr_destination req)]
         in (case ofd_pushUsd d tr1 (usd_cents, ofr_destination req) of
           Inl _ \<Rightarrow> (let tr3 = tr2 @ [BFlag offramp_id (ofr_holder req) amount]
             in case ofd_flagReconciliation d tr2 (offramp_id, ofr_holder req, amount) of
                  Inl e \<Rightarrow> (Inl (OfUncaught e), tr3)
                | Inr _ \<Rightarrow> (Inl (OfframpRejected OfPushFailedPostBurn), tr3))
         | Inr push_external_ref \<Rightarrow>
           let args = \<lparr>rm_fee_atomic = fee, rm_treasury_pda_hex = BANK_TREASURY_TOKEN_ACCOUNT_PDA_HEX sha,
                       rm_source = ''offramp'', rm_correlation_id = offramp_id\<rparr>;
               tr3 = tr2 @ [BRemit args]
           in (case ofd_remitToTreasury d tr2 args of
             Inl e \<Rightarrow> (Inl (OfUncaught e), tr3)
           | Inr remit \<Rightarrow> (Inr \<lparr>ofo_offramp_id = offramp_id, ofo_burned_atomic = amount, ofo_fee_atomic = fee,
                 ofo_usd_cents_pushed = usd_cents, ofo_fulfillment_uri = ''eto://offramp/'' @ offramp_id,
                 ofo_burn_tx_signature = burn_sig, ofo_external_ref = push_external_ref,
                 ofo_treasury_remit_tx_signature = remit\<rparr>, tr3))))
     | _ \<Rightarrow> (Inl (OfUncaught ''RangeError''), tr))"

section \<open>Wire\<close>

record WireRequest =
  wrq_caller_pubkey :: string
  wrq_holder :: string
  wrq_checking_account_pda :: string
  wrq_amount :: jsnumber
  wrq_recipient :: external_account
  wrq_kind :: WireKind
  wrq_initiated_slot :: jsnumber

record WireOutcome =
  wro_wire_id :: string
  wro_amount :: int
  wro_fee :: jsnumber
  wro_fulfillment_uri :: string
  wro_confirmed_at_slot :: int
  wro_external_ref :: string

datatype WireReason = WrInvalidPubkey | WrCallerMismatch | WrInvalidAmount | WrRecipientInvalid | WrLockFailed | WrReleaseFailed

datatype wire_error = WireRejected WireReason | WrUncaught string

record WireDeps =
  wrd_lockEscrow :: "(string \<times> string \<times> int \<times> jsnumber \<times> string, unit) bank_dep"
  wrd_releaseEscrow :: "(string \<times> external_account \<times> int, string \<times> int) bank_dep"
  wrd_refundEscrow :: "(string \<times> string \<times> int \<times> jsnumber, unit) bank_dep"
  wrd_feeFor :: "WireKind \<Rightarrow> int \<Rightarrow> jsnumber"

definition wire_validate :: "WireRequest \<Rightarrow> (wire_error, int) result" where
  "wire_validate req = (
     if \<not> HEX64 (wrq_caller_pubkey req) then Inl (WireRejected WrInvalidPubkey)
     else if \<not> HEX64 (wrq_holder req) then Inl (WireRejected WrInvalidPubkey)
     else if \<not> HEX64 (wrq_checking_account_pda req) then Inl (WireRejected WrInvalidPubkey)
     else if wrq_caller_pubkey req \<noteq> wrq_holder req then Inl (WireRejected WrCallerMismatch)
     else case wrq_amount req of JInt amount \<Rightarrow>
       if amount \<le> 0 then Inl (WireRejected WrInvalidAmount)
       else if wrq_kind req = Domestic \<and> \<not> truthy (xa_routing_number (wrq_recipient req)) then Inl (WireRejected WrRecipientInvalid)
       else if wrq_kind req = International \<and> \<not> truthy (xa_swift_bic (wrq_recipient req)) then Inl (WireRejected WrRecipientInvalid)
       else if xa_name (wrq_recipient req) = [] then Inl (WireRejected WrRecipientInvalid)
       else Inr amount
     | _ \<Rightarrow> Inl (WireRejected WrInvalidAmount))"

text \<open>\<open>amount + fee\<close>; the schedule may return any number.\<close>

definition wire_total :: "int \<Rightarrow> jsnumber \<Rightarrow> jsnumber" where
  "wire_total amount fee = (case fee of JInt f \<Rightarrow> JInt (js_add amount f)
     | JFrac q \<Rightarrow> (let v = fl53 (of_int amount + q) in if v = of_int \<lfloor>v\<rfloor> then JInt \<lfloor>v\<rfloor> else JFrac v)
     | JNaN \<Rightarrow> JNaN | JInf b \<Rightarrow> JInf b)"

text \<open>The identifier hashes holder, sum, slot, kind and recipient; \<open>None\<close> is the \<open>RangeError\<close> of \<open>BigInt\<close>.\<close>

definition wire_identifier :: "(nat list \<Rightarrow> string) \<Rightarrow> WireRequest \<Rightarrow> jsnumber \<Rightarrow> string option" where
  "wire_identifier sha req sum_due = (case (bigint_buffer sum_due, bigint_buffer (wrq_initiated_slot req)) of
       (Some b1, Some b2) \<Rightarrow> Some (sha (utf8 ''wire'' @ buffer_from_hex (wrq_holder req) @ b1 @ b2 @ utf8 (wire_kind_string (wrq_kind req))
          @ utf8 (json_stringify (account_json ''name'' (wrq_recipient req)))))
     | _ \<Rightarrow> None)"

text \<open>The answer to the caller does not depend on whether the refund works: its failure is swallowed.\<close>

definition executeWire :: "(nat list \<Rightarrow> string) \<Rightarrow> WireDeps \<Rightarrow> WireRequest \<Rightarrow> bank_trace
    \<Rightarrow> (wire_error, WireOutcome) result \<times> bank_trace" where
  "executeWire sha d req tr = (case wire_validate req of Inl e \<Rightarrow> (Inl e, tr) | Inr amount \<Rightarrow>
     let fee = wrd_feeFor d (wrq_kind req) amount; sum_due = wire_total amount fee
     in case wire_identifier sha req sum_due of None \<Rightarrow> (Inl (WrUncaught ''RangeError''), tr) | Some wire_id \<Rightarrow>
       let lock = wrd_lockEscrow d tr (wrq_holder req, wrq_checking_account_pda req, amount, fee, wire_id);
           tr1 = tr @ [BLock (wrq_holder req) (wrq_checking_account_pda req) amount fee wire_id (is_ok lock)]
       in if \<not> is_ok lock then (Inl (WireRejected WrLockFailed), tr1)
         else let release = wrd_releaseEscrow d tr1 (wire_id, wrq_recipient req, amount);
                  tr2 = tr1 @ [BRelease wire_id (wrq_recipient req) amount (is_ok release)]
           in (case release of
             Inr (external_ref, slot) \<Rightarrow> (Inr \<lparr>wro_wire_id = wire_id, wro_amount = amount, wro_fee = fee,
                 wro_fulfillment_uri = ''eto://wire/'' @ wire_id, wro_confirmed_at_slot = slot, wro_external_ref = external_ref\<rparr>, tr2)
           | Inl _ \<Rightarrow> (let refund = wrd_refundEscrow d tr2 (wire_id, wrq_holder req, amount, fee)
               in (Inl (WireRejected WrReleaseFailed), tr2 @ [BRefund wire_id (wrq_holder req) amount fee (is_ok refund)]))))"

text \<open>The fee schedule of the stubs.\<close>

definition wire_stub_feeFor :: "WireKind \<Rightarrow> int \<Rightarrow> jsnumber" where
  "wire_stub_feeFor kind amount = JInt (if kind = Domestic then 5000000 else 25000000)"

text \<open>Requests served one after the other on one trace.\<close>

fun handler_run :: "('q \<Rightarrow> bank_trace \<Rightarrow> 'r \<times> bank_trace) \<Rightarrow> 'q list \<Rightarrow> bank_trace \<Rightarrow> 'r list \<times> bank_trace" where
  "handler_run exec [] tr = ([], tr)"
| "handler_run exec (q # qs) tr = (let (r, tr1) = exec q tr; (rs, tr2) = handler_run exec qs tr1 in (r # rs, tr2))"

section \<open>Specification\<close>

text \<open>What the escrow of a wire holds after a trace: the calls that went through count, the others do not.\<close>

fun amount_value :: "jsnumber \<Rightarrow> rat" where
  "amount_value (JInt i) = of_int i"
| "amount_value (JFrac q) = q"
| "amount_value _ = 0"

fun held :: "string \<Rightarrow> bank_trace \<Rightarrow> rat" where
  "held w [] = 0"
| "held w (BLock h p a f w' went # es) = (if w' = w \<and> went then of_int a + amount_value f else 0) + held w es"
| "held w (BRelease w' r a went # es) = held w es - (if w' = w \<and> went then of_int a else 0)"
| "held w (BRefund w' h a f went # es) = held w es - (if w' = w \<and> went then of_int a + amount_value f else 0)"
| "held w (_ # es) = held w es"

text \<open>How often a trace asked to mint an amount into an account.\<close>

definition mints :: "string \<Rightarrow> int \<Rightarrow> bank_trace \<Rightarrow> nat" where
  "mints pda n es = length (filter (\<lambda>e. e = BMint pda n) es)"

definition treasury_remit :: "(nat list \<Rightarrow> string) \<Rightarrow> string \<Rightarrow> int \<Rightarrow> string \<Rightarrow> RemitArgs" where
  "treasury_remit sha source fee i = \<lparr>rm_fee_atomic = fee, rm_treasury_pda_hex = BANK_TREASURY_TOKEN_ACCOUNT_PDA_HEX sha,
     rm_source = source, rm_correlation_id = i\<rparr>"

text \<open>The onramp requests let through to the outside world.\<close>

definition onramp_valid :: "OnrampRequest \<Rightarrow> int \<Rightarrow> bool" where
  "onramp_valid req c = (HEX64 (onr_caller_pubkey req) \<and> HEX64 (onr_recipient req) \<and> HEX64 (onr_recipient_token_account_pda req)
     \<and> onr_caller_pubkey req = onr_recipient req \<and> onr_usd_amount_cents req = JInt c \<and> 0 < c \<and> isInteger (onr_initiated_slot req))"

definition onramp_pull :: "OnrampRequest \<Rightarrow> int \<Rightarrow> bank_effect" where
  "onramp_pull req c = BVerifyPull (onr_funding_method req) (onr_external_payment_ref req) c"

text \<open>The answer and the trace of an onramp of \<open>c\<close> cents whose mint succeeded with signature \<open>g\<close>.\<close>

definition onramp_minted :: "(nat list \<Rightarrow> string) \<Rightarrow> OnrampDeps \<Rightarrow> OnrampRequest \<Rightarrow> int \<Rightarrow> bank_trace \<Rightarrow> string \<Rightarrow> string
    \<Rightarrow> (onramp_error, OnrampOutcome) result \<times> bank_trace" where
  "onramp_minted sha d req c tr g i = (
     let tr3 = tr @ [onramp_pull req c, BMint (onr_recipient_token_account_pda req) (c * 9999), BRemit (treasury_remit sha ''onramp'' c i)]
     in case ond_remitToTreasury d (tr @ [onramp_pull req c, BMint (onr_recipient_token_account_pda req) (c * 9999)]) (treasury_remit sha ''onramp'' c i) of
          Inl e \<Rightarrow> (Inl (OnUncaught e), tr3)
        | Inr t \<Rightarrow> (Inr \<lparr>ono_onramp_id = i, ono_eusd_amount = c * 9999, ono_fee = c, ono_fulfillment_uri = ''eto://onramp/'' @ i,
             ono_mint_tx_signature = g, ono_treasury_remit_tx_signature = t\<rparr>, tr3))"

text \<open>The calls an onramp makes all succeed.\<close>

definition onramp_calls_ok :: "OnrampDeps \<Rightarrow> bool" where
  "onramp_calls_ok d = (\<forall>t x. ond_verifyUsdPull d t x = Inr True \<and> (\<forall>y. \<exists>g. ond_mintOnChain d t y = Inr g)
     \<and> (\<forall>y. \<exists>g. ond_remitToTreasury d t y = Inr g))"

text \<open>Concrete requests and clients, for the examples: the clients' chains accept everything except the
  calls named by the predicate.\<close>

definition demo_key :: string where
  "demo_key = replicate 64 (CHR ''a'')"

definition demo_onramp :: "int \<Rightarrow> OnrampRequest" where
  "demo_onramp c = \<lparr>onr_caller_pubkey = demo_key, onr_recipient = demo_key, onr_recipient_token_account_pda = demo_key,
     onr_usd_amount_cents = JInt c, onr_funding_method = ''ach'', onr_external_payment_ref = ''r1'', onr_initiated_slot = JInt 7\<rparr>"

definition demo_onramp_deps :: "(bank_trace \<Rightarrow> bool) \<Rightarrow> OnrampDeps" where
  "demo_onramp_deps fails = \<lparr>ond_verifyUsdPull = (\<lambda>t x. Inr True), ond_mintOnChain = (\<lambda>t x. Inr ''m''), ond_feeFor = oneBipFee,
     ond_remitToTreasury = (\<lambda>t x. if fails t then Inl ''down'' else Inr ''t'')\<rparr>"

definition demo_account :: external_account where
  "demo_account = \<lparr>xa_name = ''Ada'', xa_routing_number = Some ''1'', xa_account_number = Some ''2'', xa_swift_bic = None, xa_iban = None\<rparr>"

definition demo_offramp :: "int \<Rightarrow> OfframpRequest" where
  "demo_offramp a = \<lparr>ofr_caller_pubkey = demo_key, ofr_holder = demo_key, ofr_holder_token_account_pda = demo_key,
     ofr_eusd_amount_atomic = JInt a, ofr_destination = demo_account, ofr_initiated_slot = JInt 7\<rparr>"

definition demo_offramp_deps :: "bool \<Rightarrow> OfframpDeps" where
  "demo_offramp_deps push_ok = \<lparr>ofd_burnOnChain = (\<lambda>t x. Inr ''b''), ofd_pushUsd = (\<lambda>t x. if push_ok then Inr ''p'' else Inl ''down''),
     ofd_flagReconciliation = (\<lambda>t x. Inr ()), ofd_feeFor = oneBipFee, ofd_remitToTreasury = (\<lambda>t x. Inr ''t'')\<rparr>"

definition demo_wire :: "int \<Rightarrow> WireRequest" where
  "demo_wire a = \<lparr>wrq_caller_pubkey = demo_key, wrq_holder = demo_key, wrq_checking_account_pda = demo_key,
     wrq_amount = JInt a, wrq_recipient = demo_account, wrq_kind = Domestic, wrq_initiated_slot = JInt 7\<rparr>"

definition demo_wire_deps :: "bool \<Rightarrow> WireDeps" where
  "demo_wire_deps release_ok = \<lparr>wrd_lockEscrow = (\<lambda>t x. Inr ()), wrd_releaseEscrow = (\<lambda>t x. if release_ok then Inr (''x'', 9) else Inl ''down''),
     wrd_refundEscrow = (\<lambda>t x. Inl ''down''), wrd_feeFor = wire_stub_feeFor\<rparr>"

section \<open>Amounts\<close>

lemma bigint_buffer_JInt: "\<exists>b. bigint_buffer (JInt i) = Some b"
  by (simp add: bigint_buffer_def Let_def)

lemma oneBipFee_exact:
  assumes "0 < a" "a \<le> MAX_SAFE_INTEGER"
  shows "oneBipFee (JInt a) = a div 10000"
  using assms by (simp add: oneBipFee_def ONE_BIP_DIVISOR_def js_floor_div_exact)

lemma oneBipFee_bounds:
  assumes "0 < a" "a \<le> MAX_SAFE_INTEGER"
  shows "0 \<le> oneBipFee (JInt a)" "oneBipFee (JInt a) < a"
proof -
  have "a div 10000 < a" using assms by linarith
  then show "0 \<le> oneBipFee (JInt a)" "oneBipFee (JInt a) < a"
    using oneBipFee_exact [OF assms] assms by simp_all
qed

lemma onramp_amounts:
  assumes "0 < c" "c * 10000 \<le> MAX_SAFE_INTEGER"
  shows "usdCentsToAtomicEusd c = c * 10000"
    and "oneBipFee (JInt (c * 10000)) = c"
    and "js_sub (c * 10000) c = c * 9999"
proof -
  show "usdCentsToAtomicEusd c = c * 10000"
    using assms by (simp add: usdCentsToAtomicEusd_def MAX_SAFE_INTEGER_def)
  show "oneBipFee (JInt (c * 10000)) = c"
    using assms by (simp add: oneBipFee_exact)
  show "js_sub (c * 10000) c = c * 9999"
    using assms by (subst js_sub_exact) (auto simp: MAX_SAFE_INTEGER_def)
qed

lemma offramp_amounts:
  assumes "0 < a" "a \<le> MAX_SAFE_INTEGER"
  shows "js_sub a (oneBipFee (JInt a)) = a - a div 10000"
    and "atomicEusdToUsdCents (a - a div 10000) = (a - a div 10000) div 10000"
proof -
  have b: "0 \<le> a div 10000" "a div 10000 < a" using assms by linarith+
  then show "js_sub a (oneBipFee (JInt a)) = a - a div 10000"
    using assms by (simp add: oneBipFee_exact MAX_SAFE_INTEGER_def)
  show "atomicEusdToUsdCents (a - a div 10000) = (a - a div 10000) div 10000"
    unfolding atomicEusdToUsdCents_def using b assms by (intro js_floor_div_exact) auto
qed

section \<open>Interface: handlers bound to their caller\<close>

text \<open>A handler only extends the trace, and not at all for a caller that is not the owner of the
  account. Then such requests are invisible: leaving them out of any sequence of requests changes
  neither the effects nor the other answers.\<close>

locale caller_bound_handler =
  fixes exec :: "'q \<Rightarrow> bank_trace \<Rightarrow> 'r \<times> bank_trace" and authorised :: "'q \<Rightarrow> bool"
  assumes unauthorised_silent: "\<not> authorised q \<Longrightarrow> snd (exec q tr) = tr"
    and extends: "\<exists>es. snd (exec q tr) = tr @ es"
begin

lemma drop_unauthorised:
  "handler_run exec (filter authorised qs) tr
     = (let (rs, tr') = handler_run exec qs tr in (map snd (filter (\<lambda>(q, r). authorised q) (zip qs rs)), tr'))"
proof (induction qs arbitrary: tr)
  case (Cons q qs)
  obtain r tr1 where e: "exec q tr = (r, tr1)" by fastforce
  obtain rs tr2 where h: "handler_run exec qs tr1 = (rs, tr2)" by fastforce
  show ?case
  proof (cases "authorised q")
    case True
    then show ?thesis using Cons [of tr1] by (simp add: e h Let_def)
  next
    case False
    then have "tr1 = tr" using unauthorised_silent [of q tr] by (simp add: e)
    then show ?thesis using False Cons [of tr] h by (simp add: e Let_def)
  qed
qed simp

lemma run_extends: "\<exists>es. snd (handler_run exec qs tr) = tr @ es"
proof (induction qs arbitrary: tr)
  case (Cons q qs)
  obtain r tr1 where e: "exec q tr = (r, tr1)" by fastforce
  obtain es where es: "tr1 = tr @ es" using extends [of q tr] by (auto simp: e)
  obtain fs where "snd (handler_run exec qs tr1) = tr1 @ fs" using Cons [of tr1] by blast
  then show ?case by (simp add: e es Let_def split_beta)
qed simp

end

lemmas ramp_splits = if_splits sum.splits option.splits prod.splits jsnumber.splits

interpretation onramp: caller_bound_handler "executeOnramp sha d" "\<lambda>q. onr_caller_pubkey q = onr_recipient q"
  by unfold_locales (auto simp: executeOnramp_def Let_def split: ramp_splits)

interpretation offramp: caller_bound_handler "executeOfframp sha d" "\<lambda>q. ofr_caller_pubkey q = ofr_holder q"
  by unfold_locales (auto simp: executeOfframp_def offramp_validate_def Let_def split: ramp_splits)

interpretation wire: caller_bound_handler "executeWire sha d" "\<lambda>q. wrq_caller_pubkey q = wrq_holder q"
  by unfold_locales (auto simp: executeWire_def wire_validate_def Let_def split: ramp_splits)

section \<open>Properties\<close>

lemma onramp_needs_valid:
  assumes "executeOnramp sha d req tr = (r, tr')" "tr' \<noteq> tr"
  obtains c where "onramp_valid req c"
  using assms
  by (auto simp: executeOnramp_def onramp_valid_def bigint_buffer_def Let_def split: ramp_splits)

lemma onramp_valid_run:
  assumes "onramp_valid req c" "ond_feeFor d = oneBipFee" "c * 10000 \<le> MAX_SAFE_INTEGER"
    and "ond_verifyUsdPull d tr (onr_funding_method req, onr_external_payment_ref req, c) = Inr True"
    and "ond_mintOnChain d (tr @ [onramp_pull req c]) (onr_recipient_token_account_pda req, c * 9999) = Inr g"
  shows "\<exists>i. executeOnramp sha d req tr = onramp_minted sha d req c tr g i"
proof -
  have c: "0 < c" using assms(1) by (simp add: onramp_valid_def)
  note am = onramp_amounts [OF c assms(3)]
  obtain b1 where b1: "bigint_buffer (JInt c) = Some b1" using bigint_buffer_JInt by blast
  obtain b2 where b2: "bigint_buffer (onr_initiated_slot req) = Some b2"
    using assms(1) by (cases "onr_initiated_slot req") (auto simp: onramp_valid_def bigint_buffer_def Let_def)
  show ?thesis using assms(1,4,5)
    by (intro exI [of _ "sha (utf8 ''onramp'' @ buffer_from_hex (onr_recipient req) @ b1 @ b2 @ utf8 (onr_external_payment_ref req))"])
       (simp add: executeOnramp_def onramp_valid_def onramp_pull_def treasury_remit_def onramp_minted_def am assms(2) b1 b2 Let_def split: sum.split)
qed

lemma onramp_success:
  assumes e: "executeOnramp sha d req tr = (Inr out, tr')"
    and d: "ond_feeFor d = oneBipFee" "c * 10000 \<le> MAX_SAFE_INTEGER" "onr_usd_amount_cents req = JInt c"
  shows "onramp_valid req c" "ono_eusd_amount out = c * 9999" "ono_fee out = c"
    "tr' = tr @ [onramp_pull req c, BMint (onr_recipient_token_account_pda req) (c * 9999),
                 BRemit (treasury_remit sha ''onramp'' c (ono_onramp_id out))]"
    "ond_verifyUsdPull d tr (onr_funding_method req, onr_external_payment_ref req, c) = Inr True"
proof -
  show v: "onramp_valid req c" using e
    by (auto simp: executeOnramp_def onramp_valid_def d(3) bigint_buffer_def Let_def split: ramp_splits)
  show p: "ond_verifyUsdPull d tr (onr_funding_method req, onr_external_payment_ref req, c) = Inr True"
    using e v by (auto simp: executeOnramp_def onramp_valid_def d(3) Let_def split: ramp_splits)
  obtain g where "ond_mintOnChain d (tr @ [onramp_pull req c]) (onr_recipient_token_account_pda req, c * 9999) = Inr g"
    using e v onramp_amounts [of c] d
    by (auto simp: executeOnramp_def onramp_valid_def onramp_pull_def Let_def split: ramp_splits)
  from onramp_valid_run [OF v d(1,2) p this, of sha]
  obtain i where i: "executeOnramp sha d req tr = onramp_minted sha d req c tr g i" ..
  show "ono_eusd_amount out = c * 9999" "ono_fee out = c"
    "tr' = tr @ [onramp_pull req c, BMint (onr_recipient_token_account_pda req) (c * 9999),
                 BRemit (treasury_remit sha ''onramp'' c (ono_onramp_id out))]"
    using e unfolding i by (auto simp: onramp_minted_def Let_def split: sum.split_asm)
qed

lemma onramp_complete:
  assumes "onramp_valid req c" "ond_feeFor d = oneBipFee" "c * 10000 \<le> MAX_SAFE_INTEGER" "onramp_calls_ok d"
  shows "\<exists>out tr'. executeOnramp sha d req tr = (Inr out, tr')"
proof -
  obtain g where "ond_mintOnChain d (tr @ [onramp_pull req c]) (onr_recipient_token_account_pda req, c * 9999) = Inr g"
    using assms(4) unfolding onramp_calls_ok_def by blast
  moreover have "\<And>t y. \<exists>g. ond_remitToTreasury d t y = Inr g" and p: "\<And>t x. ond_verifyUsdPull d t x = Inr True"
    using assms(4) unfolding onramp_calls_ok_def by blast+
  ultimately show ?thesis
    using onramp_valid_run [OF assms(1,2,3) p, of tr g sha] unfolding onramp_minted_def by (metis (no_types, lifting) sum.case(2))
qed

text \<open>C14. Settlement of an onramp with the one-basis-point fee, for amounts whose atomic value is a safe
  integer. A success is for a valid request of the recipient itself and made exactly three calls: the USD pull
  is verified for the requested cents, 99.99% is minted into the requested account and the remaining
  0.01% goes to the treasury under the onramp's id; minted amount and fee add up to the exact atomic value
  of the cents. Conversely a valid request whose three calls succeed is answered with a success.\<close>

theorem onramp_settlement:
  assumes "ond_feeFor d = oneBipFee" "c * 10000 \<le> MAX_SAFE_INTEGER" "onr_usd_amount_cents req = JInt c"
  shows "(executeOnramp sha d req tr = (Inr out, tr') \<longrightarrow>
      onramp_valid req c \<and> ono_eusd_amount out + ono_fee out = c * 10000 \<and> ono_fee out = c
      \<and> tr' = tr @ [onramp_pull req c, BMint (onr_recipient_token_account_pda req) (ono_eusd_amount out),
                    BRemit (treasury_remit sha ''onramp'' (ono_fee out) (ono_onramp_id out))]
      \<and> ond_verifyUsdPull d tr (onr_funding_method req, onr_external_payment_ref req, c) = Inr True)
    \<and> (onramp_valid req c \<and> onramp_calls_ok d \<longrightarrow> (\<exists>out tr'. executeOnramp sha d req tr = (Inr out, tr')))"
  using onramp_success [OF _ assms, of sha tr out tr'] onramp_complete [OF _ assms(1,2), of req sha tr] by simp

lemma demo_key_HEX64 [simp]: "HEX64 demo_key"
  by code_simp

lemma demo_onramp_valid [simp]: "onramp_valid (demo_onramp c) c' \<longleftrightarrow> c' = c \<and> 0 < c"
  by (auto simp: onramp_valid_def demo_onramp_def)

lemma demo_onramp_calls_ok [simp]: "onramp_calls_ok (demo_onramp_deps (\<lambda>_. False))"
  by (simp add: onramp_calls_ok_def demo_onramp_deps_def)

lemma demo_onramp_deps_fee [simp]: "ond_feeFor (demo_onramp_deps f) = oneBipFee"
  by (simp add: demo_onramp_deps_def)

theorem onramp_settlement_witness:
  "\<exists>out tr'. executeOnramp (\<lambda>_. ''id'') (demo_onramp_deps (\<lambda>_. False)) (demo_onramp 100) [] = (Inr out, tr')
     \<and> ono_eusd_amount out + ono_fee out = 1000000 \<and> ono_fee out = 100 \<and> length tr' = 3"
proof -
  note s = onramp_settlement [of "demo_onramp_deps (\<lambda>_. False)" 100 "demo_onramp 100" "\<lambda>_. ''id''" "[]"]
  have h: "onr_usd_amount_cents (demo_onramp 100) = JInt 100" by (simp add: demo_onramp_def)
  have "\<exists>out tr'. executeOnramp (\<lambda>_. ''id'') (demo_onramp_deps (\<lambda>_. False)) (demo_onramp 100) [] = (Inr out, tr')"
    using s [of undefined undefined] h by (simp add: MAX_SAFE_INTEGER_def)
  then obtain out tr' where "executeOnramp (\<lambda>_. ''id'') (demo_onramp_deps (\<lambda>_. False)) (demo_onramp 100) [] = (Inr out, tr')"
    by blast
  then show ?thesis using s [of out tr'] h by (simp add: MAX_SAFE_INTEGER_def)
qed

text \<open>The remittance of the fee is the last call, after the mint, and its failure rejects the whole
  request although the tokens are minted. A client that repeats such a request mints the amount a second
  time for the one payment reference: the handler keeps no record of completed onramps.\<close>

theorem onramp_replay_mints_twice:
  assumes "onramp_valid req c" "ond_feeFor d = oneBipFee" "c * 10000 \<le> MAX_SAFE_INTEGER"
    and "\<forall>t x. ond_verifyUsdPull d t x = Inr True" "\<forall>t x. \<exists>g. ond_mintOnChain d t x = Inr g"
    and "\<forall>t x. ond_remitToTreasury d t x = (if length t = 2 then Inl e else Inr g)"
  shows "\<exists>out tr'. handler_run (executeOnramp sha d) [req, req] [] = ([Inl (OnUncaught e), Inr out], tr')
     \<and> mints (onr_recipient_token_account_pda req) (c * 9999) tr' = 2"
proof -
  have run: "\<exists>i. executeOnramp sha d req tr = onramp_minted sha d req c tr g' i"
    if "ond_mintOnChain d (tr @ [onramp_pull req c]) (onr_recipient_token_account_pda req, c * 9999) = Inr g'" for tr g'
    using onramp_valid_run [OF assms(1-3) _ that, of sha] assms(4) by simp
  obtain m where m: "ond_mintOnChain d ([] @ [onramp_pull req c]) (onr_recipient_token_account_pda req, c * 9999) = Inr m"
    using assms(5) by blast
  obtain i where e1: "executeOnramp sha d req [] = (Inl (OnUncaught e),
      [onramp_pull req c, BMint (onr_recipient_token_account_pda req) (c * 9999), BRemit (treasury_remit sha ''onramp'' c i)])"
    using run [OF m] assms(6) by (auto simp: onramp_minted_def Let_def)
  define tr1 where "tr1 = [onramp_pull req c, BMint (onr_recipient_token_account_pda req) (c * 9999), BRemit (treasury_remit sha ''onramp'' c i)]"
  obtain m2 where m2: "ond_mintOnChain d (tr1 @ [onramp_pull req c]) (onr_recipient_token_account_pda req, c * 9999) = Inr m2"
    using assms(5) by blast
  have l: "length tr1 = 3" by (simp add: tr1_def)
  obtain out j where "executeOnramp sha d req tr1 = (Inr out,
      tr1 @ [onramp_pull req c, BMint (onr_recipient_token_account_pda req) (c * 9999), BRemit (treasury_remit sha ''onramp'' c j)])"
    using run [OF m2] assms(6) l by (auto simp: onramp_minted_def Let_def)
  then show ?thesis
    by (simp add: e1 [folded tr1_def] Let_def mints_def tr1_def onramp_pull_def)
qed

theorem onramp_replay_mints_twice_witness:
  "\<exists>out tr'. handler_run (executeOnramp (\<lambda>_. ''id'') (demo_onramp_deps (\<lambda>t. length t = 2))) [demo_onramp 100, demo_onramp 100] []
       = ([Inl (OnUncaught ''down''), Inr out], tr') \<and> mints demo_key 999900 tr' = 2"
  using onramp_replay_mints_twice [of "demo_onramp 100" 100 "demo_onramp_deps (\<lambda>t. length t = 2)" "''down''" "''t''" "\<lambda>_. ''id''"]
  by (simp add: MAX_SAFE_INTEGER_def demo_onramp_deps_def) (simp add: demo_onramp_def)

lemma offramp_validate_pos: "offramp_validate req = Inr a \<Longrightarrow> 0 < a \<and> ofr_caller_pubkey req = ofr_holder req"
  by (auto simp: offramp_validate_def Let_def split: ramp_splits)

lemma offramp_net_pos:
  assumes "0 < a" "a \<le> MAX_SAFE_INTEGER"
  shows "\<not> js_sub a (oneBipFee (JInt a)) \<le> 0"
  using offramp_amounts(1) [OF assms] assms by linarith

text \<open>What an offramp of a valid request does, with the amounts computed.\<close>

lemma offramp_valid_run:
  assumes "offramp_validate req = Inr a" "a \<le> MAX_SAFE_INTEGER" "ofd_feeFor d = oneBipFee" "isInteger (ofr_initiated_slot req)"
    and "ofd_burnOnChain d tr (ofr_holder_token_account_pda req, a) = Inr b"
    and "cents = (a - a div 10000) div 10000"
  shows "\<exists>i. executeOfframp sha d req tr = (
     let tr2 = tr @ [BBurn (ofr_holder_token_account_pda req) a, BPush cents (ofr_destination req)]
     in case ofd_pushUsd d (tr @ [BBurn (ofr_holder_token_account_pda req) a]) (cents, ofr_destination req) of
       Inl _ \<Rightarrow> (case ofd_flagReconciliation d tr2 (i, ofr_holder req, a) of
           Inl e \<Rightarrow> Inl (OfUncaught e) | Inr _ \<Rightarrow> Inl (OfframpRejected OfPushFailedPostBurn), tr2 @ [BFlag i (ofr_holder req) a])
     | Inr p \<Rightarrow> (case ofd_remitToTreasury d tr2 (treasury_remit sha ''offramp'' (a div 10000) i) of
           Inl e \<Rightarrow> Inl (OfUncaught e)
         | Inr t \<Rightarrow> Inr \<lparr>ofo_offramp_id = i, ofo_burned_atomic = a, ofo_fee_atomic = a div 10000, ofo_usd_cents_pushed = cents,
             ofo_fulfillment_uri = ''eto://offramp/'' @ i, ofo_burn_tx_signature = b, ofo_external_ref = p,
             ofo_treasury_remit_tx_signature = t\<rparr>, tr2 @ [BRemit (treasury_remit sha ''offramp'' (a div 10000) i)]))"
proof -
  have a: "0 < a" using offramp_validate_pos [OF assms(1)] by simp
  note am = offramp_amounts [OF a assms(2)] oneBipFee_exact [OF a assms(2)] offramp_net_pos [OF a assms(2)]
  obtain b1 where b1: "bigint_buffer (JInt a) = Some b1" using bigint_buffer_JInt by blast
  obtain b2 where b2: "bigint_buffer (ofr_initiated_slot req) = Some b2"
    using assms(4) by (cases "ofr_initiated_slot req") (auto simp: bigint_buffer_def Let_def)
  show ?thesis
    by (intro exI [of _ "sha (utf8 ''offramp'' @ buffer_from_hex (ofr_holder req) @ b1 @ b2
          @ utf8 (json_stringify (account_json ''account_holder_name'' (ofr_destination req))))"])
       (use am in \<open>simp add: executeOfframp_def treasury_remit_def assms b1 b2 Let_def split: sum.split\<close>)
qed

lemma offramp_success_calls:
  assumes "executeOfframp sha d req tr = (Inr out, tr')" "offramp_validate req = Inr a"
  shows "isInteger (ofr_initiated_slot req)" "\<exists>b. ofd_burnOnChain d tr (ofr_holder_token_account_pda req, a) = Inr b"
  using assms by (auto simp: executeOfframp_def bigint_buffer_def Let_def split: ramp_splits)

lemma offramp_success:
  assumes e: "executeOfframp sha d req tr = (Inr out, tr')" and v: "offramp_validate req = Inr a"
    and d: "a \<le> MAX_SAFE_INTEGER" "ofd_feeFor d = oneBipFee"
  shows "ofo_burned_atomic out = a" "ofo_fee_atomic out = a div 10000"
    "ofo_usd_cents_pushed out = (a - a div 10000) div 10000"
    "tr' = tr @ [BBurn (ofr_holder_token_account_pda req) a, BPush (ofo_usd_cents_pushed out) (ofr_destination req),
                 BRemit (treasury_remit sha ''offramp'' (a div 10000) (ofo_offramp_id out))]"
proof -
  note c = offramp_success_calls [OF e v]
  obtain b where "ofd_burnOnChain d tr (ofr_holder_token_account_pda req, a) = Inr b" using c(2) by blast
  from offramp_valid_run [OF v d c(1) this refl, of sha] e
  have *: "ofo_burned_atomic out = a \<and> ofo_fee_atomic out = a div 10000 \<and> ofo_usd_cents_pushed out = (a - a div 10000) div 10000
    \<and> tr' = tr @ [BBurn (ofr_holder_token_account_pda req) a, BPush (ofo_usd_cents_pushed out) (ofr_destination req),
                 BRemit (treasury_remit sha ''offramp'' (a div 10000) (ofo_offramp_id out))]"
    by (elim exE, simp add: Let_def split: sum.split_asm)
  then show "ofo_burned_atomic out = a" "ofo_fee_atomic out = a div 10000"
    "ofo_usd_cents_pushed out = (a - a div 10000) div 10000"
    "tr' = tr @ [BBurn (ofr_holder_token_account_pda req) a, BPush (ofo_usd_cents_pushed out) (ofr_destination req),
                 BRemit (treasury_remit sha ''offramp'' (a div 10000) (ofo_offramp_id out))]"
    by simp_all
qed

lemma offramp_push_failure:
  assumes "offramp_validate req = Inr a" "a \<le> MAX_SAFE_INTEGER" "ofd_feeFor d = oneBipFee" "isInteger (ofr_initiated_slot req)"
    and b: "\<forall>t x. \<exists>b. ofd_burnOnChain d t x = Inr b" and f: "\<forall>t x. \<exists>e. ofd_pushUsd d t x = Inl e"
  shows "\<exists>i r. executeOfframp sha d req tr = (Inl r, tr @ [BBurn (ofr_holder_token_account_pda req) a,
      BPush ((a - a div 10000) div 10000) (ofr_destination req), BFlag i (ofr_holder req) a])"
proof -
  obtain g where "ofd_burnOnChain d tr (ofr_holder_token_account_pda req, a) = Inr g" using b by blast
  note run = offramp_valid_run [OF assms(1-4) this refl, of sha]
  obtain e where "ofd_pushUsd d (tr @ [BBurn (ofr_holder_token_account_pda req) a])
      ((a - a div 10000) div 10000, ofr_destination req) = Inl e" using f by blast
  with run show ?thesis by (elim exE, simp add: Let_def split: sum.splits)
qed

lemma div_split: "0 < (k::int) \<Longrightarrow> \<exists>r. 0 \<le> r \<and> r < k \<and> n = k * (n div k) + r"
  by (rule exI [of _ "n mod k"]) simp

text \<open>Settlement of an offramp of a safe-integer amount with the one-basis-point fee. A success burned
  the requested amount, paid out whole cents and remitted the fee, in this order, and the burned amount is
  the fee, the atomic value of the cents and a remainder of less than one cent, which nobody receives. If
  the burn succeeds and the payout fails, the request is rejected after exactly one reconciliation flag with
  the burned amount, and no fee is taken.\<close>

theorem offramp_settlement:
  assumes "offramp_validate req = Inr a" "a \<le> MAX_SAFE_INTEGER" "ofd_feeFor d = oneBipFee"
  shows "(executeOfframp sha d req tr = (Inr out, tr') \<longrightarrow>
      ofr_caller_pubkey req = ofr_holder req \<and> ofo_burned_atomic out = a \<and> ofo_fee_atomic out = a div 10000
      \<and> (\<exists>dust. 0 \<le> dust \<and> dust < 10000 \<and> a = ofo_fee_atomic out + 10000 * ofo_usd_cents_pushed out + dust)
      \<and> tr' = tr @ [BBurn (ofr_holder_token_account_pda req) a, BPush (ofo_usd_cents_pushed out) (ofr_destination req),
                    BRemit (treasury_remit sha ''offramp'' (ofo_fee_atomic out) (ofo_offramp_id out))])
    \<and> (isInteger (ofr_initiated_slot req) \<and> (\<forall>t x. \<exists>b. ofd_burnOnChain d t x = Inr b) \<and> (\<forall>t x. \<exists>e. ofd_pushUsd d t x = Inl e)
       \<longrightarrow> (\<exists>i r c. executeOfframp sha d req tr = (Inl r, tr @ [BBurn (ofr_holder_token_account_pda req) a,
              BPush c (ofr_destination req), BFlag i (ofr_holder req) a])))"
proof (intro conjI impI)
  assume e: "executeOfframp sha d req tr = (Inr out, tr')"
  note s = offramp_success [OF e assms]
  obtain r where "0 \<le> r" "r < 10000" "a - a div 10000 = 10000 * ((a - a div 10000) div 10000) + r"
    using div_split [of 10000 "a - a div 10000"] by auto
  then show "\<exists>dust. 0 \<le> dust \<and> dust < 10000 \<and> a = ofo_fee_atomic out + 10000 * ofo_usd_cents_pushed out + dust"
    using s(2,3) by (intro exI [of _ r]) simp
  show "ofr_caller_pubkey req = ofr_holder req" using offramp_validate_pos [OF assms(1)] by simp
  show "ofo_burned_atomic out = a" "ofo_fee_atomic out = a div 10000" using s by simp_all
  show "tr' = tr @ [BBurn (ofr_holder_token_account_pda req) a, BPush (ofo_usd_cents_pushed out) (ofr_destination req),
                    BRemit (treasury_remit sha ''offramp'' (ofo_fee_atomic out) (ofo_offramp_id out))]"
    using s by simp
next
  assume "isInteger (ofr_initiated_slot req) \<and> (\<forall>t x. \<exists>b. ofd_burnOnChain d t x = Inr b) \<and> (\<forall>t x. \<exists>e. ofd_pushUsd d t x = Inl e)"
  then show "\<exists>i r c. executeOfframp sha d req tr = (Inl r, tr @ [BBurn (ofr_holder_token_account_pda req) a,
              BPush c (ofr_destination req), BFlag i (ofr_holder req) a])"
    using offramp_push_failure [OF assms(1-3), of sha tr] by blast
qed

lemma demo_offramp_validate [simp]: "0 < a \<Longrightarrow> offramp_validate (demo_offramp a) = Inr a"
  by (simp add: offramp_validate_def demo_offramp_def demo_account_def truthy_def)

lemma demo_offramp_fields [simp]: "ofd_feeFor (demo_offramp_deps b) = oneBipFee" "isInteger (ofr_initiated_slot (demo_offramp a))"
  by (simp_all add: demo_offramp_deps_def demo_offramp_def)

theorem offramp_settlement_witness:
  "\<exists>i r c. executeOfframp (\<lambda>_. ''id'') (demo_offramp_deps False) (demo_offramp 25000) []
     = (Inl r, [BBurn demo_key 25000, BPush c demo_account, BFlag i demo_key 25000])"
  using offramp_settlement [of "demo_offramp 25000" 25000 "demo_offramp_deps False" "\<lambda>_. ''id''" "[]" undefined undefined]
  by (simp add: MAX_SAFE_INTEGER_def) (simp add: demo_offramp_def demo_offramp_deps_def)

text \<open>An amount of less than one cent passes the checks: the handler burns it all, asks for a payout of
  zero cents and reports success.\<close>

theorem offramp_zero_payout:
  assumes "offramp_validate req = Inr a" "a < 10000" "ofd_feeFor d = oneBipFee" "isInteger (ofr_initiated_slot req)"
    and "\<forall>t x. \<exists>b. ofd_burnOnChain d t x = Inr b" "\<forall>t x. \<exists>p. ofd_pushUsd d t x = Inr p" "\<forall>t x. \<exists>g. ofd_remitToTreasury d t x = Inr g"
  shows "\<exists>out tr'. executeOfframp sha d req tr = (Inr out, tr') \<and> ofo_burned_atomic out = a \<and> ofo_usd_cents_pushed out = 0"
proof -
  have a: "0 < a" using offramp_validate_pos [OF assms(1)] by simp
  then have z: "a div 10000 = 0" "(a - a div 10000) div 10000 = 0" using assms(2) by simp_all
  have m: "a \<le> MAX_SAFE_INTEGER" using assms(2) by (simp add: MAX_SAFE_INTEGER_def)
  obtain g where "ofd_burnOnChain d tr (ofr_holder_token_account_pda req, a) = Inr g" using assms(5) by blast
  note run = offramp_valid_run [OF assms(1) m assms(3,4) this z(2) [symmetric], of sha, unfolded z(1)]
  obtain p where p: "ofd_pushUsd d (tr @ [BBurn (ofr_holder_token_account_pda req) a]) (0, ofr_destination req) = Inr p"
    using assms(6) by blast
  have t: "\<exists>t. ofd_remitToTreasury d (tr @ [BBurn (ofr_holder_token_account_pda req) a, BPush 0 (ofr_destination req)])
      (treasury_remit sha ''offramp'' 0 i) = Inr t" for i using assms(7) by blast
  show ?thesis using run
    apply (elim exE)
    subgoal for i using t [of i] by (elim exE) (simp add: p Let_def)
    done
qed

theorem offramp_zero_payout_witness:
  "\<exists>out tr'. executeOfframp (\<lambda>_. ''id'') (demo_offramp_deps True) (demo_offramp 9999) [] = (Inr out, tr')
     \<and> ofo_burned_atomic out = 9999 \<and> ofo_usd_cents_pushed out = 0"
  by (rule offramp_zero_payout) (simp_all add: demo_offramp_deps_def)

lemma wire_identifier_some:
  "wire_identifier sha req sum_due = Some w \<Longrightarrow> isInteger sum_due \<and> isInteger (wrq_initiated_slot req)"
  by (cases sum_due; cases "wrq_initiated_slot req") (auto simp: wire_identifier_def bigint_buffer_def Let_def)

lemma wire_total_finite: "isInteger (wire_total a fee) \<Longrightarrow> isFinite fee"
  by (cases fee) (auto simp: wire_total_def)

text \<open>C31. What happens to the money of a wire. A request that fails validation, or whose sum or slot is not a whole number, touches nothing. Any other is of the holder's own account and ends in one of three ways, with exactly these calls of the escrow: the lock fails, and nothing is held; the amount is released to the recipient named, and the fee is what stays in escrow; or the release fails, and amount and fee are refunded to the holder, so that nothing is held if the refund goes through, while if it fails the whole sum stays in escrow and the caller gets the same answer.\<close>

theorem wire_escrow_balances:
  assumes "executeWire sha d req tr = (r, tr')"
  shows "(case wire_validate req of Inl e \<Rightarrow> r = Inl e \<and> tr' = tr
    | Inr a \<Rightarrow> let fee = wrd_feeFor d (wrq_kind req) a; holder = wrq_holder req; account = wrq_checking_account_pda req in
        wrq_caller_pubkey req = holder
        \<and> (case wire_identifier sha req (wire_total a fee) of None \<Rightarrow> r = Inl (WrUncaught ''RangeError'') \<and> tr' = tr
          | Some w \<Rightarrow> isFinite fee \<and>
              (case (wrd_lockEscrow d tr (holder, account, a, fee, w),
                     wrd_releaseEscrow d (tr @ [BLock holder account a fee w True]) (w, wrq_recipient req, a),
                     wrd_refundEscrow d (tr @ [BLock holder account a fee w True, BRelease w (wrq_recipient req) a False]) (w, holder, a, fee)) of
                (Inl _, _, _) \<Rightarrow> r = Inl (WireRejected WrLockFailed) \<and> tr' = tr @ [BLock holder account a fee w False]
                  \<and> held w (drop (length tr) tr') = 0
              | (Inr _, Inr (ref, slot), _) \<Rightarrow> r = Inr \<lparr>wro_wire_id = w, wro_amount = a, wro_fee = fee, wro_fulfillment_uri = ''eto://wire/'' @ w,
                    wro_confirmed_at_slot = slot, wro_external_ref = ref\<rparr>
                  \<and> tr' = tr @ [BLock holder account a fee w True, BRelease w (wrq_recipient req) a True]
                  \<and> held w (drop (length tr) tr') = amount_value fee
              | (Inr _, Inl _, refund) \<Rightarrow> r = Inl (WireRejected WrReleaseFailed)
                  \<and> tr' = tr @ [BLock holder account a fee w True, BRelease w (wrq_recipient req) a False, BRefund w holder a fee (is_ok refund)]
                  \<and> held w (drop (length tr) tr') = (if is_ok refund then 0 else of_int a + amount_value fee))))"
proof (cases "wire_validate req")
  case (Inl e)
  then show ?thesis using assms by (simp add: executeWire_def)
next
  case (Inr a)
  let ?fee = "wrd_feeFor d (wrq_kind req) a"
  have c: "wrq_caller_pubkey req = wrq_holder req"
    using Inr by (auto simp: wire_validate_def split: ramp_splits)
  show ?thesis
  proof (cases "wire_identifier sha req (wire_total a ?fee)")
    case None
    then show ?thesis using assms Inr c by (simp add: executeWire_def Let_def)
  next
    case (Some w)
    have f: "isFinite ?fee" using wire_identifier_some [OF Some] wire_total_finite by blast
    let ?lock = "wrd_lockEscrow d tr (wrq_holder req, wrq_checking_account_pda req, a, ?fee, w)"
    let ?tr1 = "tr @ [BLock (wrq_holder req) (wrq_checking_account_pda req) a ?fee w True]"
    let ?release = "wrd_releaseEscrow d ?tr1 (w, wrq_recipient req, a)"
    show ?thesis
    proof (cases ?lock)
      case (Inl e)
      then show ?thesis using assms c f Inr Some by (auto simp: executeWire_def Let_def)
    next
      case lock: (Inr u)
      show ?thesis
      proof (cases ?release)
        case (Inl e)
        then show ?thesis using assms c f Inr Some lock by (auto simp: executeWire_def Let_def)
      next
        case release: (Inr x)
        then show ?thesis using assms c f Inr Some lock by (cases x) (auto simp: executeWire_def Let_def)
      qed
    qed
  qed
qed

theorem wire_escrow_balances_witness:
  "\<exists>w tr'. executeWire (\<lambda>_. ''id'') (demo_wire_deps False) (demo_wire 700) [] = (Inl (WireRejected WrReleaseFailed), tr')
     \<and> held w tr' = 5000700"
proof -
  have v: "wire_validate (demo_wire 700) = Inr 700"
    by (simp add: wire_validate_def demo_wire_def demo_account_def truthy_def)
  have w: "wire_identifier (\<lambda>_. ''id'') (demo_wire 700) (wire_total 700 (JInt 5000000)) = Some ''id''"
    by (simp add: wire_identifier_def wire_total_def bigint_buffer_def demo_wire_def Let_def)
  obtain r tr' where e: "executeWire (\<lambda>_. ''id'') (demo_wire_deps False) (demo_wire 700) [] = (r, tr')" by fastforce
  have "wrd_feeFor (demo_wire_deps False) (wrq_kind (demo_wire 700)) 700 = JInt 5000000"
    by (simp add: demo_wire_deps_def demo_wire_def wire_stub_feeFor_def)
  then have "r = Inl (WireRejected WrReleaseFailed) \<and> held ''id'' tr' = 5000700"
    using wire_escrow_balances [OF e] by (simp add: v w Let_def) (simp add: demo_wire_deps_def)
  with e show ?thesis by blast
qed

text \<open>A caller cannot move another holder's money: in any sequence of requests to one of the three
  handlers, the requests whose caller is not the owner of the account are invisible. Leaving them out gives
  the same calls to the chain and the payment rails and the same answers to all other requests.\<close>

theorem ramps_unauthorised_invisible:
  "handler_run (executeOnramp sha d1) (filter (\<lambda>q. onr_caller_pubkey q = onr_recipient q) qs1) tr
     = (let (rs, tr') = handler_run (executeOnramp sha d1) qs1 tr
        in (map snd (filter (\<lambda>(q, r). onr_caller_pubkey q = onr_recipient q) (zip qs1 rs)), tr'))
   \<and> handler_run (executeOfframp sha d2) (filter (\<lambda>q. ofr_caller_pubkey q = ofr_holder q) qs2) tr
     = (let (rs, tr') = handler_run (executeOfframp sha d2) qs2 tr
        in (map snd (filter (\<lambda>(q, r). ofr_caller_pubkey q = ofr_holder q) (zip qs2 rs)), tr'))
   \<and> handler_run (executeWire sha d3) (filter (\<lambda>q. wrq_caller_pubkey q = wrq_holder q) qs3) tr
     = (let (rs, tr') = handler_run (executeWire sha d3) qs3 tr
        in (map snd (filter (\<lambda>(q, r). wrq_caller_pubkey q = wrq_holder q) (zip qs3 rs)), tr'))"
  by (intro conjI onramp.drop_unauthorised offramp.drop_unauthorised wire.drop_unauthorised)

end
