(* ===== verification/Cred_Gate.thy ===== *)
theory Cred_Gate
  imports Js_Number
begin

text \<open>
  The credential gates of the provider runtime: \<^verbatim>\<open>keeper/templates/bpp/credential-gate.ts\<close>
  (\<open>defaultCredentialGate\<close>) and the composable middlewares of \<^verbatim>\<open>keeper/lib/cred-gate.ts\<close>
  (\<open>requireCred\<close>, \<open>composeGates\<close>), over the card snapshots of \<^verbatim>\<open>keeper/templates/bpp/types.ts\<close>.

  Times are finite doubles, as rational numbers; the sum \<open>now + margin\<close> is rounded. A gate gets the
  card loader and the clock as dependencies; a loader that throws is \<open>Inl\<close> of its message. Predicates
  are pure functions, as the source demands of them.
\<close>

section \<open>Snapshots\<close>

record HeldCredentialSnapshot =
  hc_schema :: string
  hc_predicateHash :: string
  hc_issuer :: string
  hc_validFrom :: rat
  hc_validUntil :: rat
  hc_revoked :: bool

record AgentCardSnapshot =
  ac_authority :: string
  ac_credentials :: "HeldCredentialSnapshot list"

record RequiredCredential =
  rc_schema :: string
  rc_issuerSet :: "string list"
  rc_mustBeActive :: bool
  rc_notExpiredWithinSec :: "rat option"

datatype GateResult = GateOk | GateDenied "RequiredCredential list" string

record CredentialGateDeps =
  cg_loadAgentCard :: "string \<Rightarrow> (string, AgentCardSnapshot) result"
  cg_now :: rat

definition isActiveAt :: "HeldCredentialSnapshot \<Rightarrow> rat \<Rightarrow> bool" where
  "isActiveAt cred now = (if hc_revoked cred then False
     else if hc_validFrom cred \<noteq> 0 \<and> now < hc_validFrom cred then False
     else if hc_validUntil cred \<noteq> 0 \<and> now > hc_validUntil cred then False
     else True)"

section \<open>The default gate\<close>

fun findMatchingCredential :: "HeldCredentialSnapshot list \<Rightarrow> RequiredCredential \<Rightarrow> rat \<Rightarrow> HeldCredentialSnapshot option" where
  "findMatchingCredential [] req now = None"
| "findMatchingCredential (cred # creds) req now = (
     if hc_schema cred \<noteq> rc_schema req then findMatchingCredential creds req now
     else if rc_issuerSet req \<noteq> [] \<and> hc_issuer cred \<notin> set (rc_issuerSet req) then findMatchingCredential creds req now
     else if rc_mustBeActive req \<and> \<not> isActiveAt cred now then findMatchingCredential creds req now
     else if (case rc_notExpiredWithinSec req of None \<Rightarrow> False
              | Some m \<Rightarrow> m \<noteq> 0 \<and> 0 < m \<and> hc_validUntil cred \<noteq> 0 \<and> hc_validUntil cred < fl53 (now + m))
       then findMatchingCredential creds req now
     else Some cred)"

definition defaultCredentialGate :: "RequiredCredential list \<Rightarrow> CredentialGateDeps \<Rightarrow> string \<Rightarrow> GateResult" where
  "defaultCredentialGate required deps bapPubkey = (if required = [] then GateOk
     else case cg_loadAgentCard deps bapPubkey of
       Inl msg \<Rightarrow> GateDenied required (''agent_card_unavailable: '' @ msg)
     | Inr agent_card \<Rightarrow>
       let missing = filter (\<lambda>req. findMatchingCredential (ac_credentials agent_card) req (cg_now deps) = None) required
       in if missing = [] then GateOk
          else GateDenied missing (''missing '' @ show_nat (length missing) @ '' required credential(s): ''
                 @ join '','' (map (\<lambda>m. slice 0 8 (rc_schema m)) missing)))"

section \<open>Middlewares\<close>

record GateMiddlewareCtx =
  gx_now :: rat
  gx_bapPubkey :: string

datatype GateMiddlewareResult = MwOk | MwDeny string

record GateMiddleware =
  mw_fn :: "AgentCardSnapshot \<Rightarrow> GateMiddlewareCtx \<Rightarrow> GateMiddlewareResult"
  mw_meta :: "RequiredCredential option"

record RequireCredOpts =
  ro_mustBeActive :: "bool option"
  ro_notExpiredWithinSec :: "rat option"
  ro_issuerSet :: "string list option"

datatype NearMiss = Not_found | Wrong_issuer | Inactive | Expiring | Predicate_rejected

fun NEAR_MISS_RANK :: "NearMiss \<Rightarrow> nat" where
  "NEAR_MISS_RANK Not_found = 0"
| "NEAR_MISS_RANK Wrong_issuer = 1"
| "NEAR_MISS_RANK Inactive = 2"
| "NEAR_MISS_RANK Expiring = 3"
| "NEAR_MISS_RANK Predicate_rejected = 4"

fun near_miss_string :: "NearMiss \<Rightarrow> string" where
  "near_miss_string Not_found = ''not_found''"
| "near_miss_string Wrong_issuer = ''wrong_issuer''"
| "near_miss_string Inactive = ''inactive''"
| "near_miss_string Expiring = ''expiring''"
| "near_miss_string Predicate_rejected = ''predicate_rejected''"

text \<open>The closure \<open>note\<close> of \<open>requireCred\<close>; \<open>bestRank\<close> is the rank of \<open>best\<close> throughout.\<close>

definition note_miss :: "NearMiss \<Rightarrow> NearMiss \<Rightarrow> NearMiss" where
  "note_miss best m = (if NEAR_MISS_RANK m > NEAR_MISS_RANK best then m else best)"

type_synonym CredPredicate = "HeldCredentialSnapshot \<Rightarrow> GateMiddlewareCtx \<Rightarrow> bool"

text \<open>The loop over the credentials: \<open>None\<close> is the early return of \<open>ok\<close>, \<open>Some best\<close> the end of the loop.\<close>

fun require_loop :: "string \<Rightarrow> CredPredicate option \<Rightarrow> bool \<Rightarrow> rat \<Rightarrow> string list \<Rightarrow> GateMiddlewareCtx
    \<Rightarrow> HeldCredentialSnapshot list \<Rightarrow> NearMiss \<Rightarrow> NearMiss option" where
  "require_loop schema predicate mustBeActive notExpiredWithinSec issuerSet ctx [] best = Some best"
| "require_loop schema predicate mustBeActive notExpiredWithinSec issuerSet ctx (cred # creds) best = (
     let continue = require_loop schema predicate mustBeActive notExpiredWithinSec issuerSet ctx creds
     in if hc_schema cred \<noteq> schema then continue best
     else if issuerSet \<noteq> [] \<and> hc_issuer cred \<notin> set issuerSet then continue (note_miss best Wrong_issuer)
     else if mustBeActive \<and> \<not> isActiveAt cred (gx_now ctx) then continue (note_miss best Inactive)
     else if 0 < notExpiredWithinSec \<and> hc_validUntil cred \<noteq> 0 \<and> hc_validUntil cred < fl53 (gx_now ctx + notExpiredWithinSec)
       then continue (note_miss best Expiring)
     else if (case predicate of None \<Rightarrow> False | Some p \<Rightarrow> \<not> p cred ctx) then continue (note_miss best Predicate_rejected)
     else None)"

definition requireCred :: "string \<Rightarrow> CredPredicate option \<Rightarrow> RequireCredOpts \<Rightarrow> GateMiddleware" where
  "requireCred schema predicate opts = (
     let mustBeActive = (case ro_mustBeActive opts of None \<Rightarrow> True | Some b \<Rightarrow> b);
         notExpiredWithinSec = (case ro_notExpiredWithinSec opts of None \<Rightarrow> 0 | Some m \<Rightarrow> m);
         issuerSet = (case ro_issuerSet opts of None \<Rightarrow> [] | Some is \<Rightarrow> is)
     in \<lparr>mw_fn = (\<lambda>agent_card ctx. case require_loop schema predicate mustBeActive notExpiredWithinSec issuerSet ctx
                     (ac_credentials agent_card) Not_found of
             None \<Rightarrow> MwOk
           | Some best \<Rightarrow> MwDeny (''missing_cred:'' @ slice 0 8 schema @ '':'' @ near_miss_string best)),
         mw_meta = Some \<lparr>rc_schema = schema, rc_issuerSet = issuerSet, rc_mustBeActive = mustBeActive,
           rc_notExpiredWithinSec = (if notExpiredWithinSec > 0 then Some notExpiredWithinSec else None)\<rparr>\<rparr>)"

datatype gate_mode = Mode_all | Mode_first_fail

text \<open>The loop of \<open>composeGates\<close>: the reasons and the metadata collected.\<close>

fun compose_loop :: "gate_mode \<Rightarrow> AgentCardSnapshot \<Rightarrow> GateMiddlewareCtx \<Rightarrow> GateMiddleware list
    \<Rightarrow> string list \<Rightarrow> RequiredCredential list \<Rightarrow> string list \<times> RequiredCredential list" where
  "compose_loop mode agent_card ctx [] reasons missing = (reasons, missing)"
| "compose_loop mode agent_card ctx (mw # mws) reasons missing = (case mw_fn mw agent_card ctx of
     MwOk \<Rightarrow> compose_loop mode agent_card ctx mws reasons missing
   | MwDeny reason \<Rightarrow>
     let reasons' = reasons @ [reason];
         missing' = (case mw_meta mw of None \<Rightarrow> missing | Some m \<Rightarrow> missing @ [m])
     in if mode = Mode_first_fail then (reasons', missing')
        else compose_loop mode agent_card ctx mws reasons' missing')"

definition composeGates :: "GateMiddleware list \<Rightarrow> CredentialGateDeps \<Rightarrow> gate_mode option \<Rightarrow> string \<Rightarrow> GateResult" where
  "composeGates middlewares deps mode_opt bapPubkey = (
     let mode = (case mode_opt of None \<Rightarrow> Mode_all | Some m \<Rightarrow> m)
     in if middlewares = [] then GateOk
     else case cg_loadAgentCard deps bapPubkey of
       Inl msg \<Rightarrow> GateDenied [] (''agent_card_unavailable: '' @ msg)
     | Inr agent_card \<Rightarrow>
       (case compose_loop mode agent_card \<lparr>gx_now = cg_now deps, gx_bapPubkey = bapPubkey\<rparr> middlewares [] [] of (reasons, missing) \<Rightarrow>
         if reasons = [] then GateOk else GateDenied missing (join '','' reasons)))"

section \<open>Specification\<close>

text \<open>What it means for a credential to satisfy a requirement, and for a caller to be admitted.\<close>

definition within_window :: "HeldCredentialSnapshot \<Rightarrow> rat \<Rightarrow> bool" where
  "within_window c now \<longleftrightarrow> \<not> hc_revoked c \<and> (hc_validFrom c = 0 \<or> hc_validFrom c \<le> now) \<and> (hc_validUntil c = 0 \<or> now \<le> hc_validUntil c)"

definition satisfies :: "RequiredCredential \<Rightarrow> rat \<Rightarrow> HeldCredentialSnapshot \<Rightarrow> bool" where
  "satisfies req now c \<longleftrightarrow> hc_schema c = rc_schema req
     \<and> (rc_issuerSet req = [] \<or> hc_issuer c \<in> set (rc_issuerSet req))
     \<and> (rc_mustBeActive req \<longrightarrow> within_window c now)
     \<and> (\<forall>m. rc_notExpiredWithinSec req = Some m \<and> 0 < m \<longrightarrow> hc_validUntil c = 0 \<or> fl53 (now + m) \<le> hc_validUntil c)"

definition admitted :: "RequiredCredential list \<Rightarrow> CredentialGateDeps \<Rightarrow> string \<Rightarrow> bool" where
  "admitted required deps pk \<longleftrightarrow> (\<forall>req \<in> set required. \<exists>agent_card. cg_loadAgentCard deps pk = Inr agent_card
     \<and> (\<exists>c \<in> set (ac_credentials agent_card). satisfies req (cg_now deps) c))"

text \<open>The middleware for a requirement, with or without a predicate.\<close>

definition require_middleware :: "CredPredicate option \<Rightarrow> RequiredCredential \<Rightarrow> GateMiddleware" where
  "require_middleware p req = requireCred (rc_schema req) p
     \<lparr>ro_mustBeActive = Some (rc_mustBeActive req), ro_notExpiredWithinSec = rc_notExpiredWithinSec req,
      ro_issuerSet = Some (rc_issuerSet req)\<rparr>"

text \<open>A requirement without a useless margin, as the metadata of a middleware has it.\<close>

definition normal_requirement :: "RequiredCredential \<Rightarrow> RequiredCredential" where
  "normal_requirement req = req\<lparr>rc_notExpiredWithinSec := (case rc_notExpiredWithinSec req of None \<Rightarrow> None
     | Some m \<Rightarrow> if 0 < m then Some m else None)\<rparr>"

text \<open>The first test a credential of the right schema fails.\<close>

definition miss_of :: "RequiredCredential \<Rightarrow> CredPredicate option \<Rightarrow> GateMiddlewareCtx \<Rightarrow> HeldCredentialSnapshot \<Rightarrow> NearMiss option" where
  "miss_of req p ctx c = (
     if \<not> (rc_issuerSet req = [] \<or> hc_issuer c \<in> set (rc_issuerSet req)) then Some Wrong_issuer
     else if rc_mustBeActive req \<and> \<not> within_window c (gx_now ctx) then Some Inactive
     else if \<not> satisfies req (gx_now ctx) c then Some Expiring
     else if \<exists>q. p = Some q \<and> \<not> q c ctx then Some Predicate_rejected
     else None)"

text \<open>The loop of the middleware for a requirement, and the credentials it looks at.\<close>

definition margin :: "RequiredCredential \<Rightarrow> rat" where
  "margin req = (case rc_notExpiredWithinSec req of None \<Rightarrow> 0 | Some m \<Rightarrow> m)"

definition req_loop :: "RequiredCredential \<Rightarrow> CredPredicate option \<Rightarrow> GateMiddlewareCtx \<Rightarrow> HeldCredentialSnapshot list \<Rightarrow> NearMiss \<Rightarrow> NearMiss option" where
  "req_loop req p ctx = require_loop (rc_schema req) p (rc_mustBeActive req) (margin req) (rc_issuerSet req) ctx"

definition candidates :: "RequiredCredential \<Rightarrow> HeldCredentialSnapshot list \<Rightarrow> HeldCredentialSnapshot list" where
  "candidates req = filter (\<lambda>c. hc_schema c = rc_schema req)"

text \<open>The middlewares that deny, and their reasons.\<close>

definition denials :: "AgentCardSnapshot \<Rightarrow> GateMiddlewareCtx \<Rightarrow> GateMiddleware list \<Rightarrow> GateMiddleware list" where
  "denials agent_card ctx = filter (\<lambda>mw. mw_fn mw agent_card ctx \<noteq> MwOk)"

definition deny_reason :: "AgentCardSnapshot \<Rightarrow> GateMiddlewareCtx \<Rightarrow> GateMiddleware \<Rightarrow> string" where
  "deny_reason agent_card ctx mw = (case mw_fn mw agent_card ctx of MwOk \<Rightarrow> [] | MwDeny r \<Rightarrow> r)"

text \<open>A requirement and a card, for the examples.\<close>

definition demo_requirement :: RequiredCredential where
  "demo_requirement = \<lparr>rc_schema = ''kyc'', rc_issuerSet = [''bank''], rc_mustBeActive = True, rc_notExpiredWithinSec = Some 60\<rparr>"

definition demo_credential :: "string \<Rightarrow> bool \<Rightarrow> HeldCredentialSnapshot" where
  "demo_credential issuer revoked = \<lparr>hc_schema = ''kyc'', hc_predicateHash = [], hc_issuer = issuer, hc_validFrom = 0,
     hc_validUntil = 0, hc_revoked = revoked\<rparr>"

definition demo_gate_deps :: "HeldCredentialSnapshot list \<Rightarrow> CredentialGateDeps" where
  "demo_gate_deps cs = \<lparr>cg_loadAgentCard = (\<lambda>pk. Inr \<lparr>ac_authority = pk, ac_credentials = cs\<rparr>), cg_now = 1000\<rparr>"

section \<open>Lemmas\<close>

lemma isActiveAt_window: "isActiveAt c now = within_window c now"
  by (auto simp: isActiveAt_def within_window_def)

lemma findMatchingCredential_spec:
  "findMatchingCredential cs req now = find (satisfies req now) cs"
  by (induction cs) (auto simp: satisfies_def isActiveAt_window split: option.splits)

lemma findMatchingCredential_None:
  "findMatchingCredential cs req now = None \<longleftrightarrow> (\<forall>c \<in> set cs. \<not> satisfies req now c)"
  by (auto simp: findMatchingCredential_spec find_None_iff)

lemma default_gate_ok: "defaultCredentialGate required deps pk = GateOk \<longleftrightarrow> admitted required deps pk"
proof (cases "cg_loadAgentCard deps pk")
  case (Inl e)
  then show ?thesis by (cases required) (auto simp: defaultCredentialGate_def admitted_def)
next
  case (Inr c)
  then show ?thesis
    by (auto simp: defaultCredentialGate_def admitted_def findMatchingCredential_None filter_empty_conv Let_def)
qed

lemma req_loop_Nil [simp]: "req_loop req p ctx [] best = Some best"
  by (simp add: req_loop_def)

lemma req_loop_Cons [simp]:
  "req_loop req p ctx (c # cs) best = (if hc_schema c \<noteq> rc_schema req then req_loop req p ctx cs best
     else case miss_of req p ctx c of None \<Rightarrow> None | Some m \<Rightarrow> req_loop req p ctx cs (note_miss best m))"
  by (auto simp: req_loop_def miss_of_def isActiveAt_window satisfies_def margin_def Let_def split: option.splits)

lemma require_middleware_fn:
  "mw_fn (require_middleware p req) agent_card ctx = (case req_loop req p ctx (ac_credentials agent_card) Not_found of
     None \<Rightarrow> MwOk | Some best \<Rightarrow> MwDeny (''missing_cred:'' @ slice 0 8 (rc_schema req) @ '':'' @ near_miss_string best))"
  by (simp add: require_middleware_def requireCred_def req_loop_def margin_def Let_def)

lemma require_middleware_meta: "mw_meta (require_middleware p req) = Some (normal_requirement req)"
  by (cases req) (auto simp: require_middleware_def requireCred_def normal_requirement_def Let_def split: option.split)

lemma req_loop_None:
  "req_loop req p ctx cs best = None \<longleftrightarrow> (\<exists>c \<in> set (candidates req cs). miss_of req p ctx c = None)"
  by (induction cs arbitrary: best) (auto simp: candidates_def split: option.splits)

lemma req_loop_best:
  assumes "req_loop req p ctx cs best = Some b"
  shows "(b = best \<or> Some b \<in> miss_of req p ctx ` set (candidates req cs)) \<and> NEAR_MISS_RANK best \<le> NEAR_MISS_RANK b
    \<and> (\<forall>c \<in> set (candidates req cs). \<exists>m. miss_of req p ctx c = Some m \<and> NEAR_MISS_RANK m \<le> NEAR_MISS_RANK b)"
  using assms
proof (induction cs arbitrary: best)
  case (Cons c cs)
  show ?case
  proof (cases "hc_schema c = rc_schema req")
    case True
    then obtain m where m: "miss_of req p ctx c = Some m" and l: "req_loop req p ctx cs (note_miss best m) = Some b"
      using Cons.prems by (auto split: option.splits)
    then show ?thesis using Cons.IH [OF l] True
      by (auto simp: candidates_def note_miss_def split: if_splits)
  next
    case False
    then show ?thesis using Cons by (simp add: candidates_def)
  qed
qed (simp add: candidates_def)

lemma miss_of_None: "hc_schema c = rc_schema req \<Longrightarrow> miss_of req None ctx c = None \<longleftrightarrow> satisfies req (gx_now ctx) c"
  by (auto simp: miss_of_def satisfies_def)

lemma compose_loop_all:
  "compose_loop Mode_all agent_card ctx mws rs ms
     = (rs @ map (deny_reason agent_card ctx) (denials agent_card ctx mws),
        ms @ List.map_filter mw_meta (denials agent_card ctx mws))"
  by (induction mws arbitrary: rs ms)
     (auto simp: denials_def deny_reason_def List.map_filter_simps split: GateMiddlewareResult.splits option.splits)

lemma compose_loop_first_fail:
  "compose_loop Mode_first_fail agent_card ctx mws rs ms
     = (rs @ map (deny_reason agent_card ctx) (take 1 (denials agent_card ctx mws)),
        ms @ List.map_filter mw_meta (take 1 (denials agent_card ctx mws)))"
  by (induction mws arbitrary: rs ms)
     (auto simp: denials_def deny_reason_def List.map_filter_simps split: GateMiddlewareResult.splits option.splits)

lemma require_middleware_ok:
  "mw_fn (require_middleware None req) agent_card ctx = MwOk
     \<longleftrightarrow> findMatchingCredential (ac_credentials agent_card) req (gx_now ctx) \<noteq> None"
proof -
  have "(\<exists>c \<in> set (candidates req cs). miss_of req None ctx c = None) \<longleftrightarrow> (\<exists>c \<in> set cs. satisfies req (gx_now ctx) c)" for cs
    using miss_of_None [of _ req ctx] by (auto simp: candidates_def satisfies_def)
  then have "req_loop req None ctx (ac_credentials agent_card) Not_found = None
      \<longleftrightarrow> findMatchingCredential (ac_credentials agent_card) req (gx_now ctx) \<noteq> None"
    by (simp only: req_loop_None) (auto simp: findMatchingCredential_None)
  then show ?thesis
    by (cases "req_loop req None ctx (ac_credentials agent_card) Not_found") (simp_all add: require_middleware_fn)
qed

lemma require_denials:
  "denials agent_card ctx (map (require_middleware None) required)
     = map (require_middleware None) (filter (\<lambda>req. findMatchingCredential (ac_credentials agent_card) req (gx_now ctx) = None) required)"
  unfolding denials_def filter_map comp_def require_middleware_ok by simp

lemma map_filter_meta: "List.map_filter mw_meta (map (require_middleware p) reqs) = map normal_requirement reqs"
  by (induction reqs) (simp_all add: List.map_filter_simps require_middleware_meta)

lemma compose_gate_ok:
  "composeGates mws deps mode pk = GateOk \<longleftrightarrow> mws = [] \<or> (\<exists>agent_card. cg_loadAgentCard deps pk = Inr agent_card
     \<and> denials agent_card \<lparr>gx_now = cg_now deps, gx_bapPubkey = pk\<rparr> mws = [])"
proof (cases "mode = Some Mode_first_fail")
  case True
  then show ?thesis
    by (auto simp: composeGates_def compose_loop_first_fail take_Suc split: sum.splits)
next
  case False
  then have "(case mode of None \<Rightarrow> Mode_all | Some m \<Rightarrow> m) = Mode_all"
    by (metis gate_mode.exhaust option.case(1) option.case(2) option.exhaust)
  then show ?thesis by (auto simp: composeGates_def compose_loop_all Let_def split: sum.splits)
qed

lemma compose_required_ok:
  "composeGates (map (require_middleware None) required) deps mode pk = GateOk \<longleftrightarrow> admitted required deps pk"
proof (cases "cg_loadAgentCard deps pk")
  case (Inl e)
  then show ?thesis by (cases required) (auto simp: compose_gate_ok admitted_def)
next
  case (Inr c)
  then show ?thesis
    by (auto simp: compose_gate_ok admitted_def require_denials findMatchingCredential_None filter_empty_conv)
qed

section \<open>Interface: a credential gate\<close>

text \<open>What the runtime relies on: the gate opens exactly for the callers that are admitted. Both gates
  provide it, for any list of requirements.\<close>

locale credential_gate =
  fixes gate :: "CredentialGateDeps \<Rightarrow> string \<Rightarrow> GateResult" and required :: "RequiredCredential list"
  assumes gate_ok: "gate deps pk = GateOk \<longleftrightarrow> admitted required deps pk"
begin

text \<open>Credentials only help: a caller that is let in stays let in with more credentials on its card.\<close>

lemma gate_mono:
  assumes "gate deps pk = GateOk" "cg_now deps' = cg_now deps"
    "\<And>c. cg_loadAgentCard deps pk = Inr c \<Longrightarrow>
      \<exists>c'. cg_loadAgentCard deps' pk = Inr c' \<and> set (ac_credentials c) \<subseteq> set (ac_credentials c')"
  shows "gate deps' pk = GateOk"
  using assms unfolding gate_ok admitted_def by fastforce

text \<open>A card whose credentials are all revoked opens no gate with an active requirement.\<close>

lemma gate_revoked:
  assumes "cg_loadAgentCard deps pk = Inr c" "\<forall>x \<in> set (ac_credentials c). hc_revoked x"
    "req \<in> set required" "rc_mustBeActive req"
  shows "gate deps pk \<noteq> GateOk"
  using assms unfolding gate_ok admitted_def by (auto simp: satisfies_def within_window_def)

end

interpretation default_gate: credential_gate "defaultCredentialGate required" required
  by unfold_locales (rule default_gate_ok)

interpretation composed_gate: credential_gate "\<lambda>deps. composeGates (map (require_middleware None) required) deps mode" required
  by unfold_locales (rule compose_required_ok)

section \<open>Properties\<close>

lemma composed_denial:
  assumes "cg_loadAgentCard deps pk = Inr c"
    and "miss = filter (\<lambda>req. findMatchingCredential (ac_credentials c) req (cg_now deps) = None) required" "miss \<noteq> []"
  shows "\<exists>r. composeGates (map (require_middleware None) required) deps (Some Mode_all) pk = GateDenied (map normal_requirement miss) r"
    and "\<exists>r. composeGates (map (require_middleware None) required) deps (Some Mode_first_fail) pk = GateDenied [normal_requirement (hd miss)] r"
proof -
  have "required \<noteq> []" using assms(2,3) by auto
  moreover have "denials c \<lparr>gx_now = cg_now deps, gx_bapPubkey = pk\<rparr> (map (require_middleware None) required)
      = map (require_middleware None) miss" by (simp add: require_denials assms(2))
  moreover have "take 1 (map (require_middleware None) miss) = map (require_middleware None) [hd miss]"
    using assms(3) by (cases miss) simp_all
  ultimately show
    "\<exists>r. composeGates (map (require_middleware None) required) deps (Some Mode_all) pk = GateDenied (map normal_requirement miss) r"
    "\<exists>r. composeGates (map (require_middleware None) required) deps (Some Mode_first_fail) pk = GateDenied [normal_requirement (hd miss)] r"
    using assms(1,3) map_filter_meta [of None "[hd miss]"]
    by (simp_all add: composeGates_def compose_loop_all compose_loop_first_fail map_filter_meta)
qed

text \<open>C33. The two gates agree. For the same requirements, \<open>composeGates\<close> of plain \<open>requireCred\<close> middlewares,
  in either mode, lets in exactly the callers that \<open>defaultCredentialGate\<close> lets in: those whose card loads and
  holds a satisfying credential for every requirement. When the card loads and the caller is denied, the
  missing requirements reported are the unsatisfied ones, in order (in first-fail mode the first of them). When
  the card does not load both deny, but the default gate reports every requirement as missing and the composed
  gate none.\<close>

theorem gates_agree:
  "(composeGates (map (require_middleware None) required) deps mode pk = GateOk \<longleftrightarrow> admitted required deps pk)
   \<and> (defaultCredentialGate required deps pk = GateOk \<longleftrightarrow> admitted required deps pk)
   \<and> (\<forall>c miss r. cg_loadAgentCard deps pk = Inr c \<and> defaultCredentialGate required deps pk = GateDenied miss r \<longrightarrow>
        miss = filter (\<lambda>req. \<forall>x \<in> set (ac_credentials c). \<not> satisfies req (cg_now deps) x) required
      \<and> (\<exists>r. composeGates (map (require_middleware None) required) deps (Some Mode_all) pk = GateDenied (map normal_requirement miss) r)
      \<and> (\<exists>r. composeGates (map (require_middleware None) required) deps (Some Mode_first_fail) pk = GateDenied [normal_requirement (hd miss)] r))
   \<and> (\<forall>e. cg_loadAgentCard deps pk = Inl e \<and> required \<noteq> [] \<longrightarrow>
        defaultCredentialGate required deps pk = GateDenied required (''agent_card_unavailable: '' @ e)
      \<and> composeGates (map (require_middleware None) required) deps mode pk = GateDenied [] (''agent_card_unavailable: '' @ e))"
proof (intro conjI allI impI)
  fix c miss r
  assume a: "cg_loadAgentCard deps pk = Inr c \<and> defaultCredentialGate required deps pk = GateDenied miss r"
  then have m: "miss = filter (\<lambda>req. findMatchingCredential (ac_credentials c) req (cg_now deps) = None) required" "miss \<noteq> []"
    by (auto simp: defaultCredentialGate_def Let_def split: if_splits)
  show "miss = filter (\<lambda>req. \<forall>x \<in> set (ac_credentials c). \<not> satisfies req (cg_now deps) x) required"
    using m(1) by (simp add: findMatchingCredential_None)
  show "\<exists>r. composeGates (map (require_middleware None) required) deps (Some Mode_all) pk = GateDenied (map normal_requirement miss) r"
    "\<exists>r. composeGates (map (require_middleware None) required) deps (Some Mode_first_fail) pk = GateDenied [normal_requirement (hd miss)] r"
    using composed_denial [OF conjunct1 [OF a] m] by simp_all
qed (rule composed_gate.gate_ok default_gate.gate_ok | simp add: defaultCredentialGate_def composeGates_def Let_def)+

theorem gates_agree_witness:
  "defaultCredentialGate [demo_requirement] (demo_gate_deps [demo_credential ''bank'' True]) ''pk''
     = GateDenied [demo_requirement] ''missing 1 required credential(s): kyc''
   \<and> (\<exists>r. composeGates (map (require_middleware None) [demo_requirement]) (demo_gate_deps [demo_credential ''bank'' True]) (Some Mode_all) ''pk''
        = GateDenied [demo_requirement] r)"
proof -
  have d: "defaultCredentialGate [demo_requirement] (demo_gate_deps [demo_credential ''bank'' True]) ''pk''
     = GateDenied [demo_requirement] ''missing 1 required credential(s): kyc''" by code_simp
  have "normal_requirement demo_requirement = demo_requirement"
    by (simp add: normal_requirement_def demo_requirement_def)
  moreover have l: "cg_loadAgentCard (demo_gate_deps [demo_credential ''bank'' True]) ''pk''
      = Inr \<lparr>ac_authority = ''pk'', ac_credentials = [demo_credential ''bank'' True]\<rparr>" by (simp add: demo_gate_deps_def)
  note g = gates_agree [THEN conjunct2, THEN conjunct2, THEN conjunct1, THEN spec, THEN spec, THEN spec, THEN mp, OF conjI [OF l d]]
  have "\<exists>r. composeGates (map (require_middleware None) [demo_requirement]) (demo_gate_deps [demo_credential ''bank'' True]) (Some Mode_all) ''pk''
      = GateDenied (map normal_requirement [demo_requirement]) r"
    by (rule g [THEN conjunct2, THEN conjunct1])
  ultimately show ?thesis using d by simp
qed

lemma miss_of_not_Not_found: "miss_of req p ctx c \<noteq> Some Not_found"
  by (simp add: miss_of_def)

text \<open>What a \<open>requireCred\<close> middleware says when it denies. It denies exactly when every credential of the
  schema fails a test, and its reason names the most specific failure: \<open>not_found\<close> just when the card has no
  credential of the schema, and otherwise the failure of highest rank among the first failed tests of these
  credentials (issuer, then activity, then margin, then predicate).\<close>

theorem requireCred_near_miss:
  "(mw_fn (require_middleware p req) agent_card ctx = MwOk
     \<longleftrightarrow> (\<exists>c \<in> set (candidates req (ac_credentials agent_card)). miss_of req p ctx c = None))
   \<and> (\<forall>reason. mw_fn (require_middleware p req) agent_card ctx = MwDeny reason \<longrightarrow> (\<exists>b.
        reason = ''missing_cred:'' @ slice 0 8 (rc_schema req) @ '':'' @ near_miss_string b
      \<and> (b = Not_found \<longleftrightarrow> candidates req (ac_credentials agent_card) = [])
      \<and> (b \<noteq> Not_found \<longrightarrow> Some b \<in> miss_of req p ctx ` set (candidates req (ac_credentials agent_card)))
      \<and> (\<forall>c \<in> set (candidates req (ac_credentials agent_card)). \<exists>m. miss_of req p ctx c = Some m
             \<and> NEAR_MISS_RANK m \<le> NEAR_MISS_RANK b)))"
proof (cases "req_loop req p ctx (ac_credentials agent_card) Not_found")
  case None
  then show ?thesis using req_loop_None [of req p ctx "ac_credentials agent_card" Not_found]
    by (simp add: require_middleware_fn)
next
  case (Some b)
  note best = req_loop_best [OF Some]
  have "b = Not_found \<longleftrightarrow> candidates req (ac_credentials agent_card) = []"
  proof
    assume b: "b = Not_found"
    have "c \<notin> set (candidates req (ac_credentials agent_card))" for c
    proof
      assume c: "c \<in> set (candidates req (ac_credentials agent_card))"
      obtain m where "miss_of req p ctx c = Some m" "NEAR_MISS_RANK m \<le> 0" using best c b by auto
      then show False using miss_of_not_Not_found [of req p ctx c] by (cases m) auto
    qed
    then have "\<forall>c. c \<notin> set (candidates req (ac_credentials agent_card))" ..
    then show "candidates req (ac_credentials agent_card) = []" by (cases "candidates req (ac_credentials agent_card)") auto
  qed (use best in auto)
  moreover have "\<not> (\<exists>c \<in> set (candidates req (ac_credentials agent_card)). miss_of req p ctx c = None)"
    using req_loop_None [of req p ctx "ac_credentials agent_card" Not_found] Some by simp
  ultimately show ?thesis using best Some by (auto simp: require_middleware_fn)
qed

theorem requireCred_near_miss_witness:
  "mw_fn (require_middleware None demo_requirement) \<lparr>ac_authority = ''pk'', ac_credentials = [demo_credential ''x'' False, demo_credential ''bank'' True]\<rparr>
      \<lparr>gx_now = 1000, gx_bapPubkey = ''pk''\<rparr> = MwDeny ''missing_cred:kyc:inactive''
   \<and> Some Inactive \<in> miss_of demo_requirement None \<lparr>gx_now = 1000, gx_bapPubkey = ''pk''\<rparr>
        ` set (candidates demo_requirement [demo_credential ''x'' False, demo_credential ''bank'' True])"
proof -
  let ?c = "\<lparr>ac_authority = ''pk'', ac_credentials = [demo_credential ''x'' False, demo_credential ''bank'' True]\<rparr>"
  let ?x = "\<lparr>gx_now = 1000, gx_bapPubkey = ''pk''\<rparr>"
  have d: "mw_fn (require_middleware None demo_requirement) ?c ?x = MwDeny ''missing_cred:kyc:inactive''" by code_simp
  then obtain b where b: "''missing_cred:kyc:inactive'' = ''missing_cred:'' @ slice 0 8 (rc_schema demo_requirement) @ '':'' @ near_miss_string b"
    "b \<noteq> Not_found \<longrightarrow> Some b \<in> miss_of demo_requirement None ?x ` set (candidates demo_requirement (ac_credentials ?c))"
    using requireCred_near_miss [of None demo_requirement ?c ?x] by blast
  have "b = Inactive" using b(1) by (cases b) (simp_all add: demo_requirement_def slice_def)
  then show ?thesis using d b(2) by simp
qed

end
