(* ===== verification/Bpp_Runtime.thy ===== *)
theory Bpp_Runtime
  imports Cred_Gate "HOL-Library.Sublist"
begin

text \<open>
  The provider loop of \<^verbatim>\<open>keeper/templates/bpp/runtime.ts\<close>: events come from a source, each one passes
  the credential gate, is handled under a timeout and submitted to the chain once.

  The calls to handler and chain are a trace; a call of the chain is recorded with whether the chain accepted it. A gate, the handler and the chain are functions of the trace
  so far. What happens in the race between a handler and its timer is one of three first events. Logging is
  left out.
\<close>

section \<open>Events and results\<close>

record 'i BeckonInitEvent =
  ev_taskId :: string
  ev_bapPubkey :: string
  ev_bppPubkey :: string
  ev_networkPubkey :: string
  ev_action :: string
  ev_input :: 'i
  ev_observedAt :: rat
  ev_callerPubkey :: "string option"

record 'i TaskRequest =
  tr_taskId :: string
  tr_bapPubkey :: string
  tr_bppPubkey :: string
  tr_networkPubkey :: string
  tr_action :: string
  tr_input :: 'i
  tr_callerPubkey :: "string option"

datatype 'o TaskResult = TaskSuccess 'o | TaskFailure string

datatype ('i, 'o) bpp_effect = BppHandle "'i TaskRequest" | BppComplete string 'o bool | BppFail string string bool

type_synonym ('i, 'o) bpp_trace = "('i, 'o) bpp_effect list"

section \<open>The event source\<close>

record 'e InMemoryEventSource =
  es_queue :: "'e list"
  es_closed :: bool

definition es_new :: "'e InMemoryEventSource" where
  "es_new = \<lparr>es_queue = [], es_closed = False\<rparr>"

definition es_push :: "'e InMemoryEventSource \<Rightarrow> 'e \<Rightarrow> (string, 'e InMemoryEventSource) result" where
  "es_push s event = (if es_closed s then Inl ''InMemoryEventSource: already closed''
     else Inr (s\<lparr>es_queue := es_queue s @ [event]\<rparr>))"

definition es_close :: "'e InMemoryEventSource \<Rightarrow> 'e InMemoryEventSource" where
  "es_close s = s\<lparr>es_closed := True\<rparr>"

text \<open>One turn of the iterator: an event, the end of the stream, or waiting for a push or a close.\<close>

datatype 'e iter_step = Yield 'e | Done | Wait

definition es_next :: "'e InMemoryEventSource \<Rightarrow> 'e iter_step \<times> 'e InMemoryEventSource" where
  "es_next s = (case es_queue s of e # es \<Rightarrow> (Yield e, s\<lparr>es_queue := es\<rparr>)
     | [] \<Rightarrow> if es_closed s then (Done, s) else (Wait, s))"

section \<open>Dispatch\<close>

datatype 'v race = Resolves 'v | Rejects string | TimerFires

definition withTimeout :: "'v race \<Rightarrow> string \<Rightarrow> (string, 'v) result" where
  "withTimeout first message = (case first of Resolves v \<Rightarrow> Inr v | Rejects err \<Rightarrow> Inl err | TimerFires \<Rightarrow> Inl message)"

record ('i, 'o) RunBppDeps =
  rd_completeTask :: "('i, 'o) bpp_trace \<Rightarrow> string \<times> 'o \<Rightarrow> (string, unit) result"
  rd_failTask :: "('i, 'o) bpp_trace \<Rightarrow> string \<times> string \<Rightarrow> (string, unit) result"
  rd_gate :: "('i, 'o) bpp_trace \<Rightarrow> string \<Rightarrow> (string, GateResult) result"
  rd_handleTask :: "('i, 'o) bpp_trace \<Rightarrow> 'i TaskRequest \<Rightarrow> 'o TaskResult race"

text \<open>\<open>safeFail\<close>: a rejected \<open>failTask\<close> is logged only.\<close>

definition safeFail :: "('i, 'o) RunBppDeps \<Rightarrow> string \<Rightarrow> string \<Rightarrow> ('i, 'o) bpp_trace \<Rightarrow> ('i, 'o) bpp_trace" where
  "safeFail deps taskId reason tr = tr @ [BppFail taskId reason (is_ok (rd_failTask deps tr (taskId, reason)))]"

definition task_request :: "'i BeckonInitEvent \<Rightarrow> 'i TaskRequest" where
  "task_request event = \<lparr>tr_taskId = ev_taskId event, tr_bapPubkey = ev_bapPubkey event, tr_bppPubkey = ev_bppPubkey event,
     tr_networkPubkey = ev_networkPubkey event, tr_action = ev_action event, tr_input = ev_input event,
     tr_callerPubkey = ev_callerPubkey event\<rparr>"

definition dispatchOne :: "('i, 'o) RunBppDeps \<Rightarrow> int \<Rightarrow> 'i BeckonInitEvent \<Rightarrow> ('i, 'o) bpp_trace \<Rightarrow> ('i, 'o) bpp_trace" where
  "dispatchOne deps timeoutMs event tr = (let taskId = ev_taskId event in
     case rd_gate deps tr (ev_bapPubkey event) of
       Inl msg \<Rightarrow> safeFail deps taskId (''credential_gate_error: '' @ msg) tr
     | Inr (GateDenied missing reason) \<Rightarrow> safeFail deps taskId (''credential_gate_denied: '' @ reason) tr
     | Inr GateOk \<Rightarrow>
       let req = task_request event; tr1 = tr @ [BppHandle req]
       in (case withTimeout (rd_handleTask deps tr req) (''handler_timeout: exceeded '' @ show_int timeoutMs @ ''ms'') of
            Inl msg \<Rightarrow> safeFail deps taskId (''handler_error: '' @ msg) tr1
          | Inr (TaskSuccess out) \<Rightarrow> tr1 @ [BppComplete taskId out (is_ok (rd_completeTask deps tr1 (taskId, out)))]
          | Inr (TaskFailure reason) \<Rightarrow> safeFail deps taskId reason tr1))"

definition DEFAULT_HANDLER_TIMEOUT_SEC :: int where
  "DEFAULT_HANDLER_TIMEOUT_SEC = 60"

definition timeout_ms :: "int option \<Rightarrow> int" where
  "timeout_ms handlerTimeoutSec = js_mul (case handlerTimeoutSec of None \<Rightarrow> DEFAULT_HANDLER_TIMEOUT_SEC | Some s \<Rightarrow> s) 1000"

text \<open>The loop, over the events the source yields before it closes; \<open>seen\<close> is \<open>seenTaskIds\<close>.\<close>

fun run_loop :: "('i, 'o) RunBppDeps \<Rightarrow> int \<Rightarrow> 'i BeckonInitEvent list \<Rightarrow> string set \<Rightarrow> ('i, 'o) bpp_trace \<Rightarrow> ('i, 'o) bpp_trace" where
  "run_loop deps timeoutMs [] seen tr = tr"
| "run_loop deps timeoutMs (event # events) seen tr = (
     if ev_taskId event \<in> seen then run_loop deps timeoutMs events seen tr
     else run_loop deps timeoutMs events (insert (ev_taskId event) seen) (dispatchOne deps timeoutMs event tr))"

definition runBpp :: "('i, 'o) RunBppDeps \<Rightarrow> int option \<Rightarrow> 'i BeckonInitEvent list \<Rightarrow> ('i, 'o) bpp_trace" where
  "runBpp deps handlerTimeoutSec events = run_loop deps (timeout_ms handlerTimeoutSec) events {} []"

text \<open>\<open>InMemoryChain\<close> accepts every call and records it.\<close>

fun chain_completed :: "('i, 'o) bpp_trace \<Rightarrow> (string \<times> 'o) list" where
  "chain_completed [] = []"
| "chain_completed (BppComplete t out ok # es) = (t, out) # chain_completed es"
| "chain_completed (_ # es) = chain_completed es"

fun chain_failed :: "('i, 'o) bpp_trace \<Rightarrow> (string \<times> string) list" where
  "chain_failed [] = []"
| "chain_failed (BppFail t r ok # es) = (t, r) # chain_failed es"
| "chain_failed (_ # es) = chain_failed es"

section \<open>Specification\<close>

text \<open>The tasks submitted, one way or the other, the tasks the chain accepted, and the tasks handled, in order.\<close>

fun commits :: "('i, 'o) bpp_trace \<Rightarrow> string list" where
  "commits [] = []"
| "commits (BppComplete t out ok # es) = t # commits es"
| "commits (BppFail t r ok # es) = t # commits es"
| "commits (BppHandle q # es) = commits es"

fun committed :: "('i, 'o) bpp_trace \<Rightarrow> string list" where
  "committed [] = []"
| "committed (BppComplete t out ok # es) = (if ok then [t] else []) @ committed es"
| "committed (BppFail t r ok # es) = (if ok then [t] else []) @ committed es"
| "committed (BppHandle q # es) = committed es"

text \<open>The task of a call of the chain, and the chain's answer to the call after a trace.\<close>

fun submits :: "('i, 'o) bpp_effect \<Rightarrow> string option" where
  "submits (BppComplete t out ok) = Some t"
| "submits (BppFail t r ok) = Some t"
| "submits (BppHandle q) = None"

fun chain_accepts :: "('i, 'o) RunBppDeps \<Rightarrow> ('i, 'o) bpp_trace \<Rightarrow> ('i, 'o) bpp_effect \<Rightarrow> bool" where
  "chain_accepts deps tr (BppComplete t out ok) = is_ok (rd_completeTask deps tr (t, out))"
| "chain_accepts deps tr (BppFail t r ok) = is_ok (rd_failTask deps tr (t, r))"
| "chain_accepts deps tr (BppHandle q) = False"

fun handled :: "('i, 'o) bpp_trace \<Rightarrow> 'i TaskRequest list" where
  "handled [] = []"
| "handled (BppHandle q # es) = q # handled es"
| "handled (_ # es) = handled es"

text \<open>The events with a new task id.\<close>

fun first_events :: "string set \<Rightarrow> 'i BeckonInitEvent list \<Rightarrow> 'i BeckonInitEvent list" where
  "first_events seen [] = []"
| "first_events seen (e # es) = (if ev_taskId e \<in> seen then first_events seen es
     else e # first_events (insert (ev_taskId e) seen) es)"

text \<open>A source as its users see it: the events pushed and not yet yielded.\<close>

inductive source_run :: "'e InMemoryEventSource \<Rightarrow> 'e list \<Rightarrow> 'e list \<Rightarrow> bool" where
  src_new: "source_run es_new [] []"
| src_push: "source_run s pushed yielded \<Longrightarrow> es_push s e = Inr s' \<Longrightarrow> source_run s' (pushed @ [e]) yielded"
| src_close: "source_run s pushed yielded \<Longrightarrow> source_run (es_close s) pushed yielded"
| src_yield: "source_run s pushed yielded \<Longrightarrow> es_next s = (Yield e, s') \<Longrightarrow> source_run s' pushed (yielded @ [e])"

section \<open>Lemmas\<close>

lemma commits_append [simp]: "commits (es @ fs) = commits es @ commits fs"
  by (induction es rule: commits.induct) simp_all

lemma handled_append [simp]: "handled (es @ fs) = handled es @ handled fs"
  by (induction es rule: handled.induct) simp_all

lemma dispatchOne_cases:
  obtains r ok where "dispatchOne deps ms e tr = tr @ [BppFail (ev_taskId e) r ok]" "ok = is_ok (rd_failTask deps tr (ev_taskId e, r))"
  | r ok where "dispatchOne deps ms e tr = tr @ [BppHandle (task_request e), BppFail (ev_taskId e) r ok]"
      "ok = is_ok (rd_failTask deps (tr @ [BppHandle (task_request e)]) (ev_taskId e, r))" "rd_gate deps tr (ev_bapPubkey e) = Inr GateOk"
  | out ok where "dispatchOne deps ms e tr = tr @ [BppHandle (task_request e), BppComplete (ev_taskId e) out ok]"
      "ok = is_ok (rd_completeTask deps (tr @ [BppHandle (task_request e)]) (ev_taskId e, out))"
      "rd_gate deps tr (ev_bapPubkey e) = Inr GateOk" "rd_handleTask deps tr (task_request e) = Resolves (TaskSuccess out)"
proof (cases "rd_gate deps tr (ev_bapPubkey e)")
  case (Inl m)
  show ?thesis by (rule that(1) [OF _ refl]) (simp add: dispatchOne_def safeFail_def Inl Let_def)
next
  case (Inr g)
  show ?thesis
  proof (cases g)
    case GateOk
    define first where "first = rd_handleTask deps tr (task_request e)"
    note d = dispatchOne_def [of deps ms e tr] Inr GateOk safeFail_def withTimeout_def Let_def first_def [symmetric]
    show ?thesis
    proof (cases first)
      case (Resolves r)
      show ?thesis
      proof (cases r)
        case (TaskSuccess out)
        show ?thesis by (rule that(3) [OF _ refl, of out]) (simp_all add: d Resolves TaskSuccess)
      next
        case (TaskFailure reason)
        show ?thesis by (rule that(2) [OF _ refl, of reason]) (simp_all add: d Resolves TaskFailure)
      qed
    next
      case (Rejects m)
      show ?thesis by (rule that(2) [OF _ refl]) (simp_all add: d Rejects)
    next
      case TimerFires
      show ?thesis by (rule that(2) [OF _ refl]) (simp_all add: d TimerFires)
    qed
  next
    case GateDenied
    show ?thesis by (rule that(1) [OF _ refl]) (simp add: dispatchOne_def safeFail_def Inr GateDenied Let_def)
  qed
qed

lemma commits_dispatchOne [simp]: "commits (dispatchOne deps ms e tr) = commits tr @ [ev_taskId e]"
  by (rule dispatchOne_cases [of deps ms e tr]) simp_all

lemma commits_run_loop:
  "commits (run_loop deps ms es seen tr) = commits tr @ map ev_taskId (first_events seen es)"
  by (induction es arbitrary: seen tr) simp_all

lemma first_events_distinct:
  "distinct (map ev_taskId (first_events seen es)) \<and> set (map ev_taskId (first_events seen es)) = ev_taskId ` set es - seen"
  by (induction es arbitrary: seen) auto

lemma handled_dispatchOne:
  "q \<in> set (handled (dispatchOne deps ms e tr)) \<Longrightarrow> q \<in> set (handled tr) \<or> q = task_request e \<and> rd_gate deps tr (ev_bapPubkey e) = Inr GateOk"
  by (rule dispatchOne_cases [of deps ms e tr]) auto

lemma handled_run_loop:
  assumes "q \<in> set (handled (run_loop deps ms es seen tr))"
  shows "q \<in> set (handled tr) \<or> (\<exists>tr' e. e \<in> set es \<and> q = task_request e \<and> rd_gate deps tr' (ev_bapPubkey e) = Inr GateOk)"
  using assms
proof (induction es arbitrary: seen tr)
  case (Cons e es)
  show ?case
  proof (cases "ev_taskId e \<in> seen")
    case True
    then show ?thesis using Cons.IH [of seen tr] Cons.prems by auto
  next
    case False
    then show ?thesis
      using Cons.IH [of "insert (ev_taskId e) seen" "dispatchOne deps ms e tr"] Cons.prems handled_dispatchOne [of q deps ms e tr] by auto
  qed
qed simp

lemma subseq_distinct: "subseq xs ys \<Longrightarrow> distinct ys \<Longrightarrow> distinct xs"
  by (induction rule: list_emb.induct) (auto dest: list_emb_set)

lemma handled_ids_run_loop:
  "\<exists>ts. map tr_taskId (handled (run_loop deps ms es seen tr)) = map tr_taskId (handled tr) @ ts
     \<and> subseq ts (map ev_taskId (first_events seen es))"
proof (induction es arbitrary: seen tr)
  case (Cons e es)
  show ?case
  proof (cases "ev_taskId e \<in> seen")
    case True
    then show ?thesis using Cons [of seen tr] by simp
  next
    case False
    obtain ts where ts: "map tr_taskId (handled (run_loop deps ms (e # es) seen tr)) = map tr_taskId (handled (dispatchOne deps ms e tr)) @ ts"
      "subseq ts (map ev_taskId (first_events (insert (ev_taskId e) seen) es))"
      using Cons [of "insert (ev_taskId e) seen" "dispatchOne deps ms e tr"] False by auto
    consider "handled (dispatchOne deps ms e tr) = handled tr" | "handled (dispatchOne deps ms e tr) = handled tr @ [task_request e]"
      by (rule dispatchOne_cases [of deps ms e tr]) auto
    then show ?thesis
    proof cases
      case 1
      then show ?thesis using ts False by auto
    next
      case 2
      then show ?thesis using ts False by (intro exI [of _ "ev_taskId e # ts"]) (auto simp: task_request_def)
    qed
  qed
qed simp

lemma complete_dispatchOne:
  "BppComplete t out ok \<in> set (dispatchOne deps ms e tr) \<Longrightarrow> BppComplete t out ok \<in> set tr
     \<or> t = ev_taskId e \<and> rd_handleTask deps tr (task_request e) = Resolves (TaskSuccess out)"
  by (rule dispatchOne_cases [of deps ms e tr]) auto

lemma complete_run_loop:
  assumes "BppComplete t out ok \<in> set (run_loop deps ms es seen tr)"
  shows "BppComplete t out ok \<in> set tr \<or> (\<exists>tr' e. e \<in> set es \<and> t = ev_taskId e
     \<and> rd_handleTask deps tr' (task_request e) = Resolves (TaskSuccess out))"
  using assms
proof (induction es arbitrary: seen tr)
  case (Cons e es)
  show ?case
  proof (cases "ev_taskId e \<in> seen")
    case True
    then show ?thesis using Cons.IH [of seen tr] Cons.prems by auto
  next
    case False
    then show ?thesis
      using Cons.IH [of "insert (ev_taskId e) seen" "dispatchOne deps ms e tr"] Cons.prems complete_dispatchOne [of t out ok deps ms e tr] by auto
  qed
qed simp

text \<open>Every recorded answer is the chain's answer to that call.\<close>

fun recorded :: "('i, 'o) bpp_effect \<Rightarrow> bool" where
  "recorded (BppComplete t out ok) = ok"
| "recorded (BppFail t r ok) = ok"
| "recorded (BppHandle q) = False"

definition honest :: "('i, 'o) RunBppDeps \<Rightarrow> ('i, 'o) bpp_trace \<Rightarrow> bool" where
  "honest deps tr = (\<forall>k < length tr. recorded (tr ! k) = chain_accepts deps (take k tr) (tr ! k))"

lemma honest_snoc: "honest deps (tr @ [c]) \<longleftrightarrow> honest deps tr \<and> recorded c = chain_accepts deps tr c"
  by (auto simp: honest_def nth_append less_Suc_eq)

lemma honest_snoc2: "honest deps (tr @ [b, c]) \<longleftrightarrow> honest deps tr \<and> recorded b = chain_accepts deps tr b
     \<and> recorded c = chain_accepts deps (tr @ [b]) c"
  using honest_snoc [of deps "tr @ [b]" c] honest_snoc [of deps tr b] by simp

lemma honest_dispatchOne: "honest deps tr \<Longrightarrow> honest deps (dispatchOne deps ms e tr)"
  by (rule dispatchOne_cases [of deps ms e tr]) (simp_all add: honest_snoc honest_snoc2)

lemma honest_run_loop: "honest deps tr \<Longrightarrow> honest deps (run_loop deps ms es seen tr)"
  by (induction es arbitrary: seen tr) (simp_all add: honest_dispatchOne)

lemma committed_recorded: "t \<in> set (committed tr) \<longleftrightarrow> (\<exists>k < length tr. submits (tr ! k) = Some t \<and> recorded (tr ! k))"
proof -
  have "t \<in> set (committed tr) \<longleftrightarrow> (\<exists>c \<in> set tr. submits c = Some t \<and> recorded c)"
    by (induction tr rule: committed.induct) auto
  then show ?thesis by (metis in_set_conv_nth)
qed

lemma committed_subseq: "subseq (committed tr) (commits tr)"
  by (induction tr rule: committed.induct) auto

lemma commits_committed: "list_all (\<lambda>c. submits c \<noteq> None \<longrightarrow> recorded c) tr \<Longrightarrow> committed tr = commits tr"
  by (induction tr rule: committed.induct) auto

lemma run_loop_append:
  "run_loop deps ms (es @ fs) seen tr = run_loop deps ms fs (seen \<union> ev_taskId ` set es) (run_loop deps ms es seen tr)"
  by (induction es arbitrary: seen tr) (simp_all add: insert_absorb Un_insert_right)

lemma source_run_fifo: "source_run s pushed yielded \<Longrightarrow> pushed = yielded @ es_queue s"
  by (induction rule: source_run.induct)
     (auto simp: es_new_def es_push_def es_close_def es_next_def split: if_splits list.splits)

text \<open>For a gate that keeps the contract, every request that reaches the handler comes from an event whose
  caller was admitted.\<close>

context credential_gate
begin

lemma handled_admitted:
  assumes "rd_gate deps = (\<lambda>tr pk. Inr (gate (gdeps tr) pk))" "q \<in> set (handled (runBpp deps t es))"
  shows "\<exists>tr' e. e \<in> set es \<and> q = task_request e \<and> admitted required (gdeps tr') (ev_bapPubkey e)"
  using handled_run_loop [of q deps _ es "{}" "[]"] assms unfolding runBpp_def by (auto simp: gate_ok)

end

section \<open>Properties\<close>

text \<open>C2. Exactly one call of the chain per task, and at most one commit. When the loop has consumed a closed source, each task id that was pushed has been submitted to the chain exactly once, as completed or as failed, in the order of first delivery, whatever gate, handler, timer and chain do; each task was handled at most once, and a completion carries the output that its handler resolved with. The tasks that are committed are those whose one call the chain accepted, each once: all of them if the chain accepts every call, while a task whose call it refuses is never submitted again.\<close>

theorem runtime_exactly_once:
  assumes "source_run s pushed yielded" "es_next s = (Done, s')"
  shows "let run = runBpp deps t yielded in
      commits run = map ev_taskId (first_events {} pushed) \<and> distinct (commits run) \<and> set (commits run) = ev_taskId ` set pushed
    \<and> distinct (map tr_taskId (handled run))
    \<and> (\<forall>i out ok. BppComplete i out ok \<in> set run \<longrightarrow> (\<exists>tr e. e \<in> set pushed \<and> ev_taskId e = i
         \<and> rd_handleTask deps tr (task_request e) = Resolves (TaskSuccess out)))
    \<and> distinct (committed run)
    \<and> set (committed run) = {i. \<exists>k < length run. submits (run ! k) = Some i \<and> chain_accepts deps (take k run) (run ! k)}
    \<and> ((\<forall>tr x. is_ok (rd_completeTask deps tr x)) \<and> (\<forall>tr x. is_ok (rd_failTask deps tr x)) \<longrightarrow> committed run = commits run)"
proof -
  define run where "run = runBpp deps t yielded"
  have y: "yielded = pushed"
    using source_run_fifo [OF assms(1)] assms(2) by (auto simp: es_next_def split: list.splits if_splits)
  have c: "commits run = map ev_taskId (first_events {} pushed)"
    by (simp add: run_def runBpp_def commits_run_loop y)
  note f = first_events_distinct [of "{}" pushed]
  obtain ts where "map tr_taskId (handled run) = ts" "subseq ts (map ev_taskId (first_events {} pushed))"
    using handled_ids_run_loop [of deps _ pushed "{}" "[]"] by (auto simp: run_def runBpp_def y)
  then have h: "distinct (map tr_taskId (handled run))"
    using f subseq_distinct by blast
  have o: "\<forall>i out ok. BppComplete i out ok \<in> set run \<longrightarrow> (\<exists>tr e. e \<in> set pushed \<and> ev_taskId e = i
         \<and> rd_handleTask deps tr (task_request e) = Resolves (TaskSuccess out))"
    using complete_run_loop [of _ _ _ deps _ pushed "{}" "[]"] by (fastforce simp: run_def runBpp_def y)
  have hon: "honest deps run" unfolding run_def runBpp_def by (rule honest_run_loop) (simp add: honest_def)
  have k: "set (committed run) = {i. \<exists>k < length run. submits (run ! k) = Some i \<and> chain_accepts deps (take k run) (run ! k)}"
    unfolding set_eq_iff mem_Collect_eq committed_recorded using hon unfolding honest_def by metis
  have d: "distinct (committed run)" using subseq_distinct [OF committed_subseq] c f by metis
  have all: "committed run = commits run"
    if acc: "(\<forall>tr x. is_ok (rd_completeTask deps tr x)) \<and> (\<forall>tr x. is_ok (rd_failTask deps tr x))"
  proof (rule commits_committed, unfold list_all_length, intro allI impI)
    fix k assume "k < length run" "submits (run ! k) \<noteq> None"
    then show "recorded (run ! k)" using hon acc by (cases "run ! k") (auto simp: honest_def)
  qed
  show ?thesis using c f h o k d all unfolding Let_def run_def [symmetric] by auto
qed

theorem runtime_exactly_once_witness:
  "\<exists>e :: string BeckonInitEvent. \<forall>(deps :: (string, string) RunBppDeps).
     commits (runBpp deps None [e, e]) = [''t1''] \<and> distinct (committed (runBpp deps None [e, e]))"
proof -
  define e :: "string BeckonInitEvent" where "e = \<lparr>ev_taskId = ''t1'', ev_bapPubkey = ''b'', ev_bppPubkey = ''p'', ev_networkPubkey = ''n'',
     ev_action = ''a'', ev_input = ''x'', ev_observedAt = 0, ev_callerPubkey = None\<rparr>"
  have "source_run \<lparr>es_queue = [e], es_closed = False\<rparr> ([] @ [e]) []"
    by (rule src_push [OF src_new]) (simp add: es_new_def es_push_def)
  then have "source_run \<lparr>es_queue = [e, e], es_closed = False\<rparr> (([] @ [e]) @ [e]) []"
    by (rule src_push) (simp add: es_push_def)
  then have "source_run \<lparr>es_queue = [e, e], es_closed = True\<rparr> [e, e] []"
    using src_close by (fastforce simp: es_close_def)
  then have "source_run \<lparr>es_queue = [e], es_closed = True\<rparr> [e, e] ([] @ [e])"
    by (rule src_yield) (simp add: es_next_def)
  then have src: "source_run \<lparr>es_queue = [], es_closed = True\<rparr> [e, e] (([] @ [e]) @ [e])"
    by (rule src_yield) (simp add: es_next_def)
  have "commits (runBpp (deps :: (string, string) RunBppDeps) None [e, e]) = [''t1''] \<and> distinct (committed (runBpp deps None [e, e]))" for deps
    using runtime_exactly_once [OF src, of "\<lparr>es_queue = [], es_closed = True\<rparr>" deps None] by (simp add: es_next_def Let_def e_def)
  then show ?thesis by (intro exI [of _ e] allI)
qed

text \<open>C30. Nobody reaches the handler without the credentials. With either gate in front, every request the
  handler was given comes from an event whose caller's card loaded and satisfied every requirement at
  the time of the check.\<close>

theorem runtime_gated:
  assumes "rd_gate deps = (\<lambda>tr pk. Inr (composeGates (map (require_middleware None) required) (gdeps tr) mode pk))
      \<or> rd_gate deps = (\<lambda>tr pk. Inr (defaultCredentialGate required (gdeps tr) pk))"
    and "q \<in> set (handled (runBpp deps t es))"
  shows "\<exists>tr' e. e \<in> set es \<and> q = task_request e \<and> admitted required (gdeps tr') (ev_bapPubkey e)"
  using assms composed_gate.handled_admitted [of deps required gdeps mode] default_gate.handled_admitted [of deps required gdeps] by blast

theorem runtime_gated_witness:
  "\<exists>(deps :: (string, string) RunBppDeps) q. handled (runBpp deps None [\<lparr>ev_taskId = ''t1'', ev_bapPubkey = ''b'', ev_bppPubkey = ''p'',
       ev_networkPubkey = ''n'', ev_action = ''a'', ev_input = ''x'', ev_observedAt = 0, ev_callerPubkey = None\<rparr>]) = [q]
     \<and> admitted [demo_requirement] (demo_gate_deps [demo_credential ''bank'' False]) ''b''"
proof -
  define e :: "string BeckonInitEvent" where "e = \<lparr>ev_taskId = ''t1'', ev_bapPubkey = ''b'', ev_bppPubkey = ''p'', ev_networkPubkey = ''n'',
     ev_action = ''a'', ev_input = ''x'', ev_observedAt = 0, ev_callerPubkey = None\<rparr>"
  define deps :: "(string, string) RunBppDeps" where "deps = \<lparr>rd_completeTask = (\<lambda>_ _. Inr ()), rd_failTask = (\<lambda>_ _. Inr ()),
     rd_gate = (\<lambda>tr pk. Inr (defaultCredentialGate [demo_requirement] (demo_gate_deps [demo_credential ''bank'' False]) pk)),
     rd_handleTask = (\<lambda>_ _. Resolves (TaskSuccess ''ok''))\<rparr>"
  have g: "defaultCredentialGate [demo_requirement] (demo_gate_deps [demo_credential ''bank'' False]) ''b'' = GateOk" by code_simp
  have h: "handled (runBpp deps None [e]) = [task_request e]"
    unfolding runBpp_def
    by (simp add: dispatchOne_def deps_def g withTimeout_def e_def Let_def)
  have "rd_gate deps = (\<lambda>tr pk. Inr (defaultCredentialGate [demo_requirement] (demo_gate_deps [demo_credential ''bank'' False]) pk))"
    by (simp add: deps_def)
  from runtime_gated [where gdeps = "\<lambda>_. demo_gate_deps [demo_credential ''bank'' False]", OF disjI2, OF this, of "task_request e" None "[e]"] h
  have "\<exists>e'. e' \<in> set [e] \<and> admitted [demo_requirement] (demo_gate_deps [demo_credential ''bank'' False]) (ev_bapPubkey e')"
    by simp
  then have "admitted [demo_requirement] (demo_gate_deps [demo_credential ''bank'' False]) ''b''" by (simp add: e_def)
  with h show ?thesis by (intro exI [of _ deps] exI [of _ "task_request e"]) (simp add: e_def)
qed

text \<open>A redelivered event is dropped: an event whose task id was delivered before changes nothing, wherever it comes later in the
  stream. So when the chain refuses the call of a task, that task stays uncommitted even if its event is delivered again.\<close>

theorem runtime_redelivery_dropped:
  assumes "ev_taskId e \<in> ev_taskId ` set es"
  shows "runBpp deps t (es @ e # fs) = runBpp deps t (es @ fs)"
  using assms by (simp add: runBpp_def run_loop_append)

theorem runtime_redelivery_dropped_witness:
  "\<exists>e :: string BeckonInitEvent. \<forall>(deps :: (string, string) RunBppDeps). runBpp deps None [e, e] = runBpp deps None [e]"
  using runtime_redelivery_dropped [of "\<lparr>ev_taskId = ''t1'', ev_bapPubkey = ''b'', ev_bppPubkey = ''p'', ev_networkPubkey = ''n'',
     ev_action = ''a'', ev_input = ''x'', ev_observedAt = 0, ev_callerPubkey = None\<rparr>" "[\<lparr>ev_taskId = ''t1'', ev_bapPubkey = ''b'', ev_bppPubkey = ''p'', ev_networkPubkey = ''n'',
     ev_action = ''a'', ev_input = ''x'', ev_observedAt = 0, ev_callerPubkey = None\<rparr>]" _ None "[]"] by auto

lemma refused_task_stays_uncommitted:
  assumes "ev_taskId e \<in> ev_taskId ` set es" "ev_taskId e \<notin> set (committed (runBpp deps t es))"
  shows "ev_taskId e \<notin> set (committed (runBpp deps t (es @ replicate n e)))"
proof -
  have "runBpp deps t (es @ replicate n e) = runBpp deps t es"
  proof (induction n)
    case (Suc n)
    then show ?case using assms(1) by (simp add: runBpp_def run_loop_append)
  qed simp
  with assms(2) show ?thesis by simp
qed

end
