(* ===== verification/Poseidon2.thy ===== *)
theory Poseidon2
  imports Jcs Base58
begin

text \<open>
  The hash of \<^verbatim>\<open>src/crypto/poseidon2.ts\<close>: arithmetic modulo the BN254 scalar prime, the Grain
  shift register that generates the round constants, the permutation, the sponge and the encodings of
  values as field elements.

  Field elements and exponents are bigints that never become negative, so they are natural numbers; the
  arguments that the code checks for sign are integers. A slot of the register holds 0 or 1 and is a
  \<^typ>\<open>bool\<close>. The loops that may not end (drawing a first bit, rejection sampling) are partial
  functions with values in \<^typ>\<open>'a option\<close>; for the first of them termination is proved. The parameters are
  an argument of the permutation.
\<close>

unbundle bit_operations_syntax

section \<open>Field arithmetic\<close>

definition BN254_P :: nat where
  "BN254_P = 21888242871839275222246405745257275088548364400416034343698204186575808495617"

definition addMod :: "nat \<Rightarrow> nat \<Rightarrow> nat" where
  "addMod a b = (let r = a + b in if r \<ge> BN254_P then r - BN254_P else r)"

definition mulMod :: "nat \<Rightarrow> nat \<Rightarrow> nat" where
  "mulMod a b = (a * b) mod BN254_P"

fun modPow_loop :: "nat \<Rightarrow> nat \<Rightarrow> nat \<Rightarrow> nat \<Rightarrow> nat" where
  "modPow_loop result base e modulus = (if e > 0
     then modPow_loop (if odd e then (result * base) mod modulus else result) ((base * base) mod modulus) (e div 2) modulus
     else result)"

declare modPow_loop.simps [simp del]

definition modPow :: "nat \<Rightarrow> nat \<Rightarrow> nat \<Rightarrow> nat" where
  "modPow base e modulus = modPow_loop 1 (base mod modulus) e modulus"

definition modInv :: "nat \<Rightarrow> (string, nat) result" where
  "modInv a = (if a = 0 then Inl ''modInv(0) is undefined'' else Inr (modPow a (BN254_P - 2) BN254_P))"

definition sbox :: "nat \<Rightarrow> nat" where
  "sbox x = (let x2 = mulMod x x; x4 = mulMod x2 x2 in mulMod x4 x)"

fun le_loop :: "nat \<Rightarrow> nat \<Rightarrow> nat list \<Rightarrow> nat" where
  "le_loop i val [] = val"
| "le_loop i val (b # bytes) = le_loop (Suc i) (val OR push_bit (8 * i) b) bytes"

definition fromLeBytesModOrder :: "nat list \<Rightarrow> nat" where
  "fromLeBytesModOrder bytes = le_loop 0 0 bytes mod BN254_P"

fun be_loop :: "nat \<Rightarrow> nat list \<Rightarrow> nat" where
  "be_loop val [] = val"
| "be_loop val (b # bytes) = be_loop (push_bit 8 val OR b) bytes"

definition fromBeBytesModOrder :: "nat list \<Rightarrow> nat" where
  "fromBeBytesModOrder bytes = be_loop 0 bytes mod BN254_P"

section \<open>The Grain register\<close>

record GrainLFSR =
  lf_state :: "bool list"
  lf_head :: nat
  lf_primeNumBits :: nat

text \<open>The exclusive or of six slots.\<close>

definition xor6 :: "bool \<Rightarrow> bool \<Rightarrow> bool \<Rightarrow> bool \<Rightarrow> bool \<Rightarrow> bool \<Rightarrow> bool" where
  "xor6 a b c d e f = (((((a \<noteq> b) \<noteq> c) \<noteq> d) \<noteq> e) \<noteq> f)"

definition lf_update :: "GrainLFSR \<Rightarrow> bool \<times> GrainLFSR" where
  "lf_update l = (let h = lf_head l; s = lf_state l;
       newBit = xor6 (s ! h) (s ! ((h + 13) mod 80)) (s ! ((h + 23) mod 80)) (s ! ((h + 38) mod 80))
                  (s ! ((h + 51) mod 80)) (s ! ((h + 62) mod 80))
     in (newBit, l\<lparr>lf_state := s[h := newBit], lf_head := (h + 1) mod 80\<rparr>))"

text \<open>\<open>for (let i = hi; i >= lo; i--) { s[i] = cur & 1; cur >>= 1; }\<close>, for \<open>n = hi - lo + 1\<close> slots.\<close>

fun write_bits :: "bool list \<Rightarrow> nat \<Rightarrow> nat \<Rightarrow> nat \<Rightarrow> bool list" where
  "write_bits s i 0 cur = s"
| "write_bits s i (Suc n) cur = write_bits (s[i := odd cur]) (i - 1) n (cur div 2)"

definition GrainLFSR_new :: "bool \<Rightarrow> nat \<Rightarrow> nat \<Rightarrow> nat \<Rightarrow> nat \<Rightarrow> GrainLFSR" where
  "GrainLFSR_new isSboxAnInverse primeNumBits stateLen numFullRounds numPartialRounds = (
     let s0 = (replicate 80 False)[0 := False, 1 := True];
         s1 = (if isSboxAnInverse then s0[5 := True] else s0);
         s2 = write_bits s1 17 12 primeNumBits;
         s3 = write_bits s2 29 12 stateLen;
         s4 = write_bits s3 39 10 numFullRounds;
         s5 = write_bits s4 49 10 numPartialRounds;
         s6 = fold (\<lambda>i s. s[i := True]) [50..<80] s5
     in ((snd \<circ> lf_update) ^^ 160) \<lparr>lf_state = s6, lf_head = 0, lf_primeNumBits = primeNumBits\<rparr>)"

text \<open>The inner loop of \<open>getBits\<close>: draw bits in pairs until the first of a pair is 1.\<close>

partial_function (option) draw_first :: "GrainLFSR \<Rightarrow> GrainLFSR option" where
  "draw_first l = (case lf_update l of (firstBit, l1) \<Rightarrow> if firstBit then Some l1 else draw_first (snd (lf_update l1)))"

fun getBits :: "nat \<Rightarrow> GrainLFSR \<Rightarrow> (bool list \<times> GrainLFSR) option" where
  "getBits 0 l = Some ([], l)"
| "getBits (Suc numBits) l = (case draw_first l of None \<Rightarrow> None
     | Some l1 \<Rightarrow> (case lf_update l1 of (b, l2) \<Rightarrow> map_option (\<lambda>(res, l3). (b # res, l3)) (getBits numBits l2)))"

text \<open>\<open>val |= 1n << BigInt(i)\<close> for the bits that are set.\<close>

fun bits_value :: "nat \<Rightarrow> nat \<Rightarrow> bool list \<Rightarrow> nat" where
  "bits_value i val [] = val"
| "bits_value i val (b # bits) = bits_value (Suc i) (if b then val OR push_bit i 1 else val) bits"

partial_function (option) rejection_loop :: "nat \<Rightarrow> nat list \<Rightarrow> GrainLFSR \<Rightarrow> (nat list \<times> GrainLFSR) option" where
  "rejection_loop numElems res l = (if length res < numElems
     then (case getBits (lf_primeNumBits l) l of None \<Rightarrow> None
       | Some (bits, l1) \<Rightarrow> let val = bits_value 0 0 (rev bits)
          in rejection_loop numElems (if val < BN254_P then res @ [val] else res) l1)
     else Some (res, l))"

definition getFieldElementsRejectionSampling :: "nat \<Rightarrow> GrainLFSR \<Rightarrow> (nat list \<times> GrainLFSR) option" where
  "getFieldElementsRejectionSampling numElems l = rejection_loop numElems [] l"

text \<open>\<open>bytes[i >> 3] |= 1 << (i & 7)\<close>.\<close>

fun pack_bits :: "nat \<Rightarrow> bool list \<Rightarrow> nat list \<Rightarrow> nat list" where
  "pack_bits i [] bytes = bytes"
| "pack_bits i (b # bits) bytes = pack_bits (Suc i) bits
     (if b then bytes[i div 8 := (bytes ! (i div 8)) OR push_bit (i mod 8) 1] else bytes)"

fun getFieldElementsModP :: "nat \<Rightarrow> GrainLFSR \<Rightarrow> (nat list \<times> GrainLFSR) option" where
  "getFieldElementsModP 0 l = Some ([], l)"
| "getFieldElementsModP (Suc numElems) l = (case getBits (lf_primeNumBits l) l of None \<Rightarrow> None
     | Some (bits, l1) \<Rightarrow>
       let bytes = pack_bits 0 (rev bits) (replicate ((lf_primeNumBits l + 7) div 8) 0)
       in map_option (\<lambda>(res, l2). (fromLeBytesModOrder bytes # res, l2)) (getFieldElementsModP numElems l1))"

section \<open>Parameters\<close>

record PoseidonParams =
  pp_ark :: "nat list list"
  pp_mds :: "nat list list"

fun ark_rounds :: "nat \<Rightarrow> GrainLFSR \<Rightarrow> (nat list list \<times> GrainLFSR) option" where
  "ark_rounds 0 l = Some ([], l)"
| "ark_rounds (Suc n) l = (case getFieldElementsRejectionSampling 3 l of None \<Rightarrow> None
     | Some (row, l1) \<Rightarrow> map_option (\<lambda>(rows, l2). (row # rows, l2)) (ark_rounds n l1))"

fun seq_results :: "(string, 'a) result list \<Rightarrow> (string, 'a list) result" where
  "seq_results [] = Inr []"
| "seq_results (r # rs) = bind_result r (\<lambda>x. bind_result (seq_results rs) (\<lambda>xs. Inr (x # xs)))"

definition cauchy_mds :: "nat list \<Rightarrow> nat list \<Rightarrow> (string, nat list list) result" where
  "cauchy_mds xs ys = seq_results (map (\<lambda>x. seq_results (map (\<lambda>y. modInv (addMod x y)) ys)) xs)"

definition buildParams :: "(string, PoseidonParams) result option" where
  "buildParams = (case ark_rounds (8 + 56) (GrainLFSR_new False 254 3 8 56) of None \<Rightarrow> None
     | Some (ark, l1) \<Rightarrow> (case getFieldElementsModP 3 l1 of None \<Rightarrow> None
     | Some (xs, l2) \<Rightarrow> (case getFieldElementsModP 3 l2 of None \<Rightarrow> None
     | Some (ys, l3) \<Rightarrow> Some (bind_result (cauchy_mds xs ys) (\<lambda>mds. Inr \<lparr>pp_ark = ark, pp_mds = mds\<rparr>)))))"

section \<open>The permutation and the sponge\<close>

definition add_ark :: "nat list \<Rightarrow> nat list \<Rightarrow> nat list" where
  "add_ark st row = fold (\<lambda>j s. s[j := addMod (s ! j) (row ! j)]) [0..<3] st"

definition mds_row :: "nat list \<Rightarrow> nat list \<Rightarrow> nat" where
  "mds_row row st = addMod (addMod (mulMod (row ! 0) (st ! 0)) (mulMod (row ! 1) (st ! 1))) (mulMod (row ! 2) (st ! 2))"

definition mix_mds :: "nat list list \<Rightarrow> nat list \<Rightarrow> nat list" where
  "mix_mds mds st = [mds_row (mds ! 0) st, mds_row (mds ! 1) st, mds_row (mds ! 2) st]"

definition full_round :: "PoseidonParams \<Rightarrow> nat \<Rightarrow> nat list \<Rightarrow> nat list" where
  "full_round p roundIdx st = mix_mds (pp_mds p) (fold (\<lambda>j s. s[j := sbox (s ! j)]) [0..<3] (add_ark st (pp_ark p ! roundIdx)))"

definition partial_round :: "PoseidonParams \<Rightarrow> nat \<Rightarrow> nat list \<Rightarrow> nat list" where
  "partial_round p roundIdx st = mix_mds (pp_mds p) (let s = add_ark st (pp_ark p ! roundIdx) in s[0 := sbox (s ! 0)])"

definition poseidonPermute :: "PoseidonParams \<Rightarrow> nat list \<Rightarrow> nat list" where
  "poseidonPermute p st = (
     let st1 = fold (\<lambda>r s. full_round p r s) [0..<4] st;
         st2 = fold (\<lambda>r s. partial_round p r s) [4..<4 + 56] st1
     in fold (\<lambda>r s. full_round p r s) [4 + 56..<4 + 56 + 4] st2)"

definition in_field :: "int \<Rightarrow> bool" where
  "in_field x = (0 \<le> x \<and> x < int BN254_P)"

definition poseidon2 :: "PoseidonParams \<Rightarrow> int \<times> int \<times> int \<Rightarrow> (string, nat) result" where
  "poseidon2 p inputs = (case inputs of (a, b, c) \<Rightarrow>
     if \<not> in_field a then Inl (''poseidon2: input out of range: '' @ show_int a)
     else if \<not> in_field b then Inl (''poseidon2: input out of range: '' @ show_int b)
     else if \<not> in_field c then Inl (''poseidon2: input out of range: '' @ show_int c)
     else let s0 = [0, 0, 0];
              s1 = s0[1 := addMod (s0 ! 1) (nat a)];
              s2 = s1[2 := addMod (s1 ! 2) (nat b)];
              s3 = poseidonPermute p s2;
              s4 = s3[1 := addMod (s3 ! 1) (nat c)];
              s5 = poseidonPermute p s4
          in Inr (s5 ! 1))"

definition DOMAIN_MERKLE :: int where
  "DOMAIN_MERKLE = 0x1246c3e0c3018567c7f1eb638d561294ffc0332284c4141f7fa0121cfd2c1af1"

definition merkleCompress :: "PoseidonParams \<Rightarrow> int \<Rightarrow> int \<Rightarrow> (string, nat) result" where
  "merkleCompress p left right = poseidon2 p (left, right, DOMAIN_MERKLE)"

section \<open>Encodings\<close>

text \<open>The values \<open>encodeFr\<close> distinguishes; everything else is \<open>FrOther\<close> with its type name.\<close>

datatype fr_value = FrNull | FrUndefined | FrBool bool | FrBigint int | FrNumber jsnumber | FrString string | FrOther string

text \<open>\<open>replace(/\.?0+$/, "") || "0"\<close>: the zeros at the end and a point before them.\<close>

definition strip_zeros :: "string \<Rightarrow> string" where
  "strip_zeros s = (let r = rev s; t = dropWhile (\<lambda>c. c = CHR ''0'') r
     in if t = r then s else let u = (case t of c # cs \<Rightarrow> if c = CHR ''.'' then cs else t | [] \<Rightarrow> [])
        in if u = [] then ''0'' else rev u)"

text \<open>\<open>replace(/^(-?)0+(\d)/, "$1$2")\<close>: leading zeros before a digit.\<close>

definition strip_leading :: "string \<Rightarrow> string" where
  "strip_leading s = (let (sign, t) = (case s of c # cs \<Rightarrow> if c = CHR ''-'' then ([c], cs) else ([], s) | [] \<Rightarrow> ([], s));
       zs = takeWhile (\<lambda>c. c = CHR ''0'') t; u = dropWhile (\<lambda>c. c = CHR ''0'') t
     in if zs = [] then s
        else if u \<noteq> [] \<and> is_digit (hd u) then sign @ u
        else if length zs \<ge> 2 then sign @ CHR ''0'' # u
        else s)"

definition number_decimal :: "jsnumber \<Rightarrow> (string, string) result" where
  "number_decimal n = (if \<not> isFinite n then Inl (''encodeFr: cannot encode non-finite number '' @ number_toString n)
     else let d1 = number_toString n;
              d2 = (if CHR ''.'' \<in> set d1 then strip_zeros d1 else d1)
          in Inr (if d2 \<noteq> ''0'' then strip_leading d2 else d2))"

definition encode_decimal :: "string \<Rightarrow> nat" where
  "encode_decimal decimal = (let u = utf8 decimal in fromBeBytesModOrder (
     if length u \<le> 32 then replicate (32 - length u) 0 @ u else drop (length u - 32) u))"

definition encode_string :: "string \<Rightarrow> nat" where
  "encode_string s = (let u = utf8 s in fromBeBytesModOrder (
     if length u \<le> 31 then replicate (32 - length u) 0 @ u else take 31 u @ [length u mod 256]))"

fun encodeFr :: "fr_value \<Rightarrow> (string, nat) result" where
  "encodeFr FrNull = Inr 0"
| "encodeFr FrUndefined = Inr 0"
| "encodeFr (FrBool b) = Inr (if b then 1 else 0)"
| "encodeFr (FrBigint i) = Inr (encode_decimal (show_int i))"
| "encodeFr (FrNumber n) = map_sum id encode_decimal (number_decimal n)"
| "encodeFr (FrString s) = Inr (encode_string s)"
| "encodeFr (FrOther t) = Inl (''encodeFr: unsupported value type '' @ t)"

definition encodeSalt :: "nat list \<Rightarrow> (string, nat) result" where
  "encodeSalt saltBytes = (if length saltBytes \<noteq> 32
     then Inl (''encodeSalt: expected 32 bytes, got '' @ show_nat (length saltBytes))
     else Inr (fromLeBytesModOrder saltBytes))"

text \<open>\<open>b.toString(16).padStart(2, "0")\<close>.\<close>

definition hex_byte :: "nat \<Rightarrow> string" where
  "hex_byte b = [hex_digit (b div 16), hex_digit (b mod 16)]"

fun le_bytes :: "nat \<Rightarrow> nat \<Rightarrow> nat list" where
  "le_bytes 0 val = []"
| "le_bytes (Suc n) val = val mod 256 # le_bytes n (val div 256)"

definition bytesToHex32 :: "int \<Rightarrow> (string, string) result" where
  "bytesToHex32 fr = (if \<not> in_field fr then Inl (''bytesToHex32: value out of range: '' @ show_int fr)
     else Inr (concat (map hex_byte (le_bytes 32 (nat fr)))))"

section \<open>Specification\<close>

text \<open>The abstract register: a window of 80 bits that moves along the sequence.\<close>

definition lfsr_step :: "bool list \<Rightarrow> bool list" where
  "lfsr_step w = tl w @ [xor6 (w ! 0) (w ! 13) (w ! 23) (w ! 38) (w ! 51) (w ! 62)]"

definition lf_inv :: "GrainLFSR \<Rightarrow> bool" where
  "lf_inv l \<longleftrightarrow> length (lf_state l) = 80 \<and> lf_head l < 80"

definition lf_window :: "GrainLFSR \<Rightarrow> bool list" where
  "lf_window l = rotate (lf_head l) (lf_state l)"

definition lf_ok :: "GrainLFSR \<Rightarrow> bool" where
  "lf_ok l \<longleftrightarrow> lf_inv l \<and> True \<in> set (lf_window l)"

definition lfsr_bit :: "bool list \<Rightarrow> nat \<Rightarrow> bool" where
  "lfsr_bit w n = ((lfsr_step ^^ n) w) ! 0"

text \<open>The value of bytes, low byte first and high byte first.\<close>

fun le_value :: "nat list \<Rightarrow> nat" where
  "le_value [] = 0"
| "le_value (b # bs) = b + 256 * le_value bs"

fun be_value :: "nat \<Rightarrow> nat list \<Rightarrow> nat" where
  "be_value v [] = v"
| "be_value v (b # bs) = be_value (256 * v + b) bs"

text \<open>The permutation in one formula per round, reduced once per output.\<close>

definition spec_mix :: "nat list list \<Rightarrow> nat list \<Rightarrow> nat list" where
  "spec_mix mds v = map (\<lambda>row. (row ! 0 * v ! 0 + row ! 1 * v ! 1 + row ! 2 * v ! 2) mod BN254_P) mds"

definition spec_full :: "PoseidonParams \<Rightarrow> nat \<Rightarrow> nat list \<Rightarrow> nat list" where
  "spec_full p r st = spec_mix (pp_mds p) (map2 (\<lambda>x c. (x + c) ^ 5) st (pp_ark p ! r))"

definition spec_partial :: "PoseidonParams \<Rightarrow> nat \<Rightarrow> nat list \<Rightarrow> nat list" where
  "spec_partial p r st = spec_mix (pp_mds p) (case map2 (+) st (pp_ark p ! r) of x # xs \<Rightarrow> x ^ 5 # xs | [] \<Rightarrow> [])"

definition spec_permute :: "PoseidonParams \<Rightarrow> nat list \<Rightarrow> nat list" where
  "spec_permute p st = fold (\<lambda>r. if r < 4 \<or> 60 \<le> r then spec_full p r else spec_partial p r) [0..<64] st"

definition fr_vector :: "nat list \<Rightarrow> bool" where
  "fr_vector v \<longleftrightarrow> length v = 3 \<and> (\<forall>x \<in> set v. x < BN254_P)"

definition params_ok :: "PoseidonParams \<Rightarrow> bool" where
  "params_ok p \<longleftrightarrow> length (pp_ark p) = 64 \<and> (\<forall>row \<in> set (pp_ark p). fr_vector row)
     \<and> length (pp_mds p) = 3 \<and> (\<forall>row \<in> set (pp_mds p). fr_vector row)"

definition spec_poseidon2 :: "PoseidonParams \<Rightarrow> nat \<Rightarrow> nat \<Rightarrow> nat \<Rightarrow> nat" where
  "spec_poseidon2 p a b c = (case spec_permute p [0, a, b] of [x, y, z] \<Rightarrow> spec_permute p [x, (y + c) mod BN254_P, z] ! 1 | _ \<Rightarrow> 0)"

text \<open>Strings that start with the character NUL.\<close>

definition nul_start :: "string \<Rightarrow> bool" where
  "nul_start s \<longleftrightarrow> s \<noteq> [] \<and> code (hd s) = 0"

text \<open>Small parameters, for the examples.\<close>

definition demo_params :: PoseidonParams where
  "demo_params = \<lparr>pp_ark = replicate 64 [1, 2, 3], pp_mds = [[1, 2, 3], [4, 5, 6], [7, 8, 10]]\<rparr>"

section \<open>Arithmetic\<close>

lemma BN254_P_gt [simp]: "0 < BN254_P" "Suc 0 < BN254_P" "1 < BN254_P" "BN254_P \<noteq> 0"
  by (simp_all add: BN254_P_def)

lemma addMod_mod: "a < BN254_P \<Longrightarrow> b < BN254_P \<Longrightarrow> addMod a b = (a + b) mod BN254_P"
  by (simp add: addMod_def Let_def mod_if)

lemma mulMod_less [simp]: "mulMod a b < BN254_P"
  by (simp add: mulMod_def)

lemma modPow_loop_correct:
  "r < m \<Longrightarrow> modPow_loop r b e m = (r * b ^ e) mod m"
proof (induction r b e m rule: modPow_loop.induct)
  case (1 r b e m)
  show ?case
  proof (cases "e > 0")
    case True
    obtain k where k: "e = 2 * k \<or> e = Suc (2 * k)" by (metis evenE oddE Suc_eq_plus1)
    have "0 < m" using 1 by simp
    then have "(if odd e then r * b mod m else r) < m" using 1 by simp
    note IH = "1.IH" [OF True this]
    have "b ^ (2 * k) = (b * b) ^ k" by (simp add: power_mult power2_eq_square)
    moreover have "x * (b * b mod m) ^ k mod m = x * (b * b) ^ k mod m" for x
      by (metis mod_mult_right_eq power_mod)
    ultimately show ?thesis using k True
      unfolding modPow_loop.simps [of r b e m] IH
      by (elim disjE) (simp_all add: mod_simps mult.assoc)
  qed (use 1 in \<open>simp add: modPow_loop.simps\<close>)
qed

lemma modPow_correct: "1 < m \<Longrightarrow> modPow b e m = b ^ e mod m"
  by (simp add: modPow_def modPow_loop_correct power_mod)

lemma sbox_correct: "sbox x = x ^ 5 mod BN254_P"
proof -
  have "sbox x = (x * x mod BN254_P) * (x * x mod BN254_P) mod BN254_P * x mod BN254_P"
    by (simp add: sbox_def mulMod_def Let_def)
  also have "\<dots> = x * x * (x * x) * x mod BN254_P"
    by (metis mod_mult_eq mod_mult_left_eq)
  also have "x * x * (x * x) * x = x ^ 5" by (simp add: numeral_eq_Suc)
  finally show ?thesis .
qed

section \<open>The permutation\<close>

lemma fr_vectorE:
  assumes "fr_vector v"
  obtains x y z where "v = [x, y, z]" "x < BN254_P" "y < BN254_P" "z < BN254_P"
  using assms by (auto simp: fr_vector_def length_Suc_conv numeral_3_eq_3)

lemma upt_three: "[0..<3] = [0, 1, 2]" by (simp add: upt_rec)

lemma add_ark_eq: "fr_vector st \<Longrightarrow> fr_vector row \<Longrightarrow> add_ark st row = map2 (\<lambda>x c. (x + c) mod BN254_P) st row"
  by (elim fr_vectorE) (simp add: add_ark_def upt_three addMod_mod)

lemma mds_row_eq: "mds_row row st = (row ! 0 * st ! 0 + row ! 1 * st ! 1 + row ! 2 * st ! 2) mod BN254_P"
proof -
  have "addMod (mulMod a b) (mulMod c d) = (a * b + c * d) mod BN254_P" for a b c d
    by (simp add: addMod_mod) (simp add: mulMod_def mod_simps)
  then show ?thesis by (simp add: mds_row_def addMod_mod) (simp add: mulMod_def mod_simps)
qed

lemma mds_row_cong:
  assumes "\<And>i. i < 3 \<Longrightarrow> st ! i mod BN254_P = st' ! i mod BN254_P"
  shows "mds_row row st = mds_row row st'"
proof -
  have "row ! i * st ! i mod BN254_P = row ! i * st' ! i mod BN254_P" if "i < 3" for i
    using assms [OF that] by (metis mod_mult_right_eq)
  then have "row ! 0 * st ! 0 mod BN254_P = row ! 0 * st' ! 0 mod BN254_P"
    "row ! 1 * st ! 1 mod BN254_P = row ! 1 * st' ! 1 mod BN254_P"
    "row ! 2 * st ! 2 mod BN254_P = row ! 2 * st' ! 2 mod BN254_P" by simp_all
  then show ?thesis unfolding mds_row_eq by (metis mod_add_eq)
qed

lemma mix_mds_eq: "length mds = 3 \<Longrightarrow> mix_mds mds st = map (\<lambda>row. mds_row row st) mds"
  by (auto simp: mix_mds_def length_Suc_conv numeral_3_eq_3)

lemma mix_mds_cong:
  assumes "length mds = 3" "\<And>i. i < 3 \<Longrightarrow> st ! i mod BN254_P = st' ! i mod BN254_P"
  shows "mix_mds mds st = spec_mix mds st'"
proof -
  have "mds_row row st = mds_row row st'" for row using assms(2) by (rule mds_row_cong)
  then show ?thesis by (simp add: mix_mds_eq [OF assms(1)] spec_mix_def mds_row_eq)
qed

lemma spec_mix_vector: "length mds = 3 \<Longrightarrow> fr_vector (spec_mix mds v)"
  by (auto simp: fr_vector_def spec_mix_def)

lemma params_okD:
  assumes "params_ok p" "r < 64"
  shows "fr_vector (pp_ark p ! r)" "length (pp_mds p) = 3"
  using assms by (simp_all add: params_ok_def)

lemma less3_cases: "i < (3::nat) \<Longrightarrow> i = 0 \<or> i = 1 \<or> i = 2" by auto

lemma full_round_correct:
  assumes "params_ok p" "r < 64" "fr_vector st"
  shows "full_round p r st = spec_full p r st \<and> fr_vector (spec_full p r st)"
proof -
  note p = params_okD [OF assms(1,2)]
  from assms(3) p(1) show ?thesis
    unfolding full_round_def spec_full_def
    by (intro conjI mix_mds_cong spec_mix_vector p(2))
       (elim fr_vectorE, auto simp: add_ark_eq fr_vector_def upt_three sbox_correct power_mod dest!: less3_cases)
qed

lemma partial_round_correct:
  assumes "params_ok p" "r < 64" "fr_vector st"
  shows "partial_round p r st = spec_partial p r st \<and> fr_vector (spec_partial p r st)"
proof -
  note p = params_okD [OF assms(1,2)]
  from assms(3) p(1) show ?thesis
    unfolding partial_round_def spec_partial_def
    by (intro conjI mix_mds_cong spec_mix_vector p(2))
       (elim fr_vectorE, auto simp: add_ark_eq fr_vector_def sbox_correct power_mod dest!: less3_cases)
qed

lemma fold_refine:
  assumes "\<And>x s. x \<in> set xs \<Longrightarrow> I s \<Longrightarrow> f x s = g x s \<and> I (g x s)" "I s"
  shows "fold f xs s = fold g xs s \<and> I (fold g xs s)"
  using assms by (induction xs arbitrary: s) auto

lemma fold_upt_cong: "(\<And>x. a \<le> x \<Longrightarrow> x < b \<Longrightarrow> f x = g x) \<Longrightarrow> fold f [a..<b] s = fold g [a..<b] s"
  by (rule fold_cong) auto

lemma fold_upt_split: "a \<le> b \<Longrightarrow> b \<le> c \<Longrightarrow> fold f [a..<c] s = fold f [b..<c] (fold f [a..<b] s)"
  using upt_add_eq_append [of a b "c - b"] by simp

lemma poseidonPermute_correct:
  assumes "params_ok p" "fr_vector st"
  shows "poseidonPermute p st = spec_permute p st \<and> fr_vector (spec_permute p st)"
proof -
  define f where "f r = (if r < 4 \<or> 60 \<le> r then full_round p r else partial_round p r)" for r :: nat
  have "fold (\<lambda>r s. full_round p r s) [0..<4] s = fold f [0..<4] s" for s
    by (rule fold_upt_cong) (simp add: f_def)
  moreover have "fold (\<lambda>r s. partial_round p r s) [4..<4 + 56] s = fold f [4..<4 + 56] s" for s
    by (rule fold_upt_cong) (simp add: f_def)
  moreover have "fold (\<lambda>r s. full_round p r s) [4 + 56..<4 + 56 + 4] s = fold f [4 + 56..<4 + 56 + 4] s" for s
    by (rule fold_upt_cong) (simp add: f_def)
  ultimately have "poseidonPermute p st = fold f [0..<4 + 56 + 4] st"
    unfolding poseidonPermute_def Let_def
    using fold_upt_split [of 0 4 "4 + 56 + 4" f st] fold_upt_split [of 4 "4 + 56" "4 + 56 + 4" f] by simp
  moreover have "fold f [0..<64] st = fold (\<lambda>r. if r < 4 \<or> 60 \<le> r then spec_full p r else spec_partial p r) [0..<64] st
     \<and> fr_vector (fold (\<lambda>r. if r < 4 \<or> 60 \<le> r then spec_full p r else spec_partial p r) [0..<64] st)"
  proof (rule fold_refine [where I = fr_vector, OF _ assms(2)])
    fix r s
    assume "r \<in> set [0..<64]" "fr_vector s"
    then have "r < 64" "fr_vector s" by (auto simp only: set_upt atLeastLessThan_iff)
    then show "f r s = (if r < 4 \<or> 60 \<le> r then spec_full p r else spec_partial p r) s
        \<and> fr_vector ((if r < 4 \<or> 60 \<le> r then spec_full p r else spec_partial p r) s)"
      using full_round_correct [OF assms(1)] partial_round_correct [OF assms(1)] by (simp add: f_def)
  qed
  ultimately show ?thesis by (simp only: spec_permute_def) simp
qed

section \<open>The register\<close>

lemma lfsr_step_length [simp]: "w \<noteq> [] \<Longrightarrow> length (lfsr_step w) = length w"
  by (simp add: lfsr_step_def)

lemma lf_window_nth: "lf_inv l \<Longrightarrow> i < 80 \<Longrightarrow> lf_window l ! i = lf_state l ! ((lf_head l + i) mod 80)"
  by (simp add: lf_window_def lf_inv_def nth_rotate)

lemma lf_window_length [simp]: "lf_inv l \<Longrightarrow> length (lf_window l) = 80"
  by (simp add: lf_window_def lf_inv_def)

lemma lf_update_refines:
  assumes "lf_inv l" "lf_update l = (b, l')"
  shows "lf_inv l'" "lf_window l' = lfsr_step (lf_window l)" "b = lf_window l' ! 79" "lf_primeNumBits l' = lf_primeNumBits l"
proof -
  let ?h = "lf_head l" and ?s = "lf_state l"
  have h: "?h < 80" "length ?s = 80" using assms(1) by (simp_all add: lf_inv_def)
  have b: "b = xor6 (lf_window l ! 0) (lf_window l ! 13) (lf_window l ! 23) (lf_window l ! 38) (lf_window l ! 51) (lf_window l ! 62)"
    using assms(2) h(1) by (simp add: lf_update_def Let_def lf_window_nth [OF assms(1)])
  have l': "lf_state l' = ?s[?h := b]" "lf_head l' = (?h + 1) mod 80" and p: "lf_primeNumBits l' = lf_primeNumBits l"
    using assms(2) by (auto simp: lf_update_def Let_def)
  show inv: "lf_inv l'" using h by (simp add: lf_inv_def l')
  show "lf_primeNumBits l' = lf_primeNumBits l" by (rule p)
  have shift: "((?h + 1) mod 80 + i) mod 80 = (?h + (i + 1)) mod 80" for i by (simp add: mod_simps)
  have neq: "(?h + (i + 1)) mod 80 \<noteq> ?h" if "i < 79" for i
    using h(1) that by (cases "?h + (i + 1) < 80") (auto simp: mod_if)
  show w: "lf_window l' = lfsr_step (lf_window l)"
  proof (rule nth_equalityI)
    have ne: "lf_window l \<noteq> []" using lf_window_length [OF assms(1)] by force
    show "length (lf_window l') = length (lfsr_step (lf_window l))"
      using ne by (simp add: inv assms(1))
    fix i assume "i < length (lf_window l')"
    then have i: "i < 80" using inv by simp
    show "lf_window l' ! i = lfsr_step (lf_window l) ! i"
    proof (cases "i < 79")
      case True
      have "lf_window l' ! i = ?s ! ((?h + (i + 1)) mod 80)"
        unfolding lf_window_nth [OF inv i] l' shift using neq [OF True] by simp
      then show ?thesis using True assms(1) by (simp add: lfsr_step_def nth_append nth_tl lf_window_nth)
    next
      case False
      then have "i = 79" using i by simp
      moreover have "lf_window l' ! 79 = b" unfolding lf_window_nth [OF inv, of 79, simplified] l' shift using h by simp
      ultimately show ?thesis using assms(1) b by (simp add: lfsr_step_def nth_append)
    qed
  qed
  show "b = lf_window l' ! 79" unfolding w using assms(1) b by (simp add: lfsr_step_def nth_append)
qed

lemma lfsr_step_nth:
  assumes "length w = 80" "i < 79"
  shows "lfsr_step w ! i = w ! Suc i"
  using assms by (simp add: lfsr_step_def nth_append nth_tl)

lemma lfsr_iter_length: "length w = 80 \<Longrightarrow> length ((lfsr_step ^^ n) w) = 80"
proof (induction n)
  case (Suc n)
  then have "(lfsr_step ^^ n) w \<noteq> []" by force
  with Suc show ?case by simp
qed simp

lemma lfsr_iter_nth:
  assumes "length w = 80" "i < 80"
  shows "((lfsr_step ^^ n) w) ! i = lfsr_bit w (n + i)"
  using assms(2)
proof (induction i arbitrary: n)
  case (Suc i)
  have "((lfsr_step ^^ Suc n) w) ! i = ((lfsr_step ^^ n) w) ! Suc i"
    using lfsr_step_nth [OF lfsr_iter_length [OF assms(1)], of i n] Suc.prems by simp
  then show ?case using Suc.IH [of "Suc n"] Suc.prems by simp
qed (simp add: lfsr_bit_def)

lemma lfsr_recurrence:
  assumes "length w = 80"
  shows "lfsr_bit w (n + 80) = xor6 (lfsr_bit w n) (lfsr_bit w (n + 13)) (lfsr_bit w (n + 23)) (lfsr_bit w (n + 38))
     (lfsr_bit w (n + 51)) (lfsr_bit w (n + 62))"
proof -
  let ?w = "(lfsr_step ^^ n) w"
  have l: "length ?w = 80" by (rule lfsr_iter_length [OF assms])
  have "lfsr_bit w (n + 80) = lfsr_step ?w ! 79"
    using lfsr_iter_nth [OF assms, of 79 "Suc n"] by (simp add: add.commute)
  also have "\<dots> = xor6 (?w ! 0) (?w ! 13) (?w ! 23) (?w ! 38) (?w ! 51) (?w ! 62)"
    using l by (simp add: lfsr_step_def nth_append)
  finally show ?thesis by (simp add: lfsr_iter_nth [OF assms])
qed

text \<open>If every second bit is 0 from some point on, the bits between them satisfy two recurrences at once.
  Euclid's algorithm on their polynomials ends in 1, so they are 0 as well.\<close>

lemma two_recurrences_zero:
  fixes u :: "nat \<Rightarrow> bool"
  assumes a: "\<And>j. (u j \<noteq> u (j + 5)) = u (j + 19)"
    and b: "\<And>j. ((u j \<noteq> u (j + 19)) \<noteq> u (j + 31)) = u (j + 40)"
  shows "\<not> u j"
proof -
  have r1: "(u (j + 2) \<noteq> u (j + 5)) = u (j + 17)" for j
    using b [of j] a [of j] a [of "j + 2"] a [of "j + 7"] a [of "j + 12"] a [of "j + 21"]
    by (simp only: add.assoc arith_simps numeral_One one_plus_numeral numeral_plus_one one_add_one) argo
  have r2: "((u j \<noteq> u (j + 4)) \<noteq> u (j + 5)) = u (j + 7)" for j
    using a [of j] r1 [of "j + 2"] by (simp only: add.assoc arith_simps numeral_One one_plus_numeral numeral_plus_one one_add_one) argo
  have r3: "(((u j \<noteq> u (j + 1)) \<noteq> u (j + 2)) \<noteq> u (j + 4)) = u (j + 5)" for j
    using r1 [of j] r2 [of j] r2 [of "j + 1"] r2 [of "j + 6"] r2 [of "j + 7"] r2 [of "j + 8"] r2 [of "j + 10"]
    by (simp only: add.assoc arith_simps numeral_One one_plus_numeral numeral_plus_one one_add_one) argo
  have r4: "u j = u (j + 1)" for j
    using r2 [of j] r3 [of "j + 1"] r3 [of "j + 2"] by (simp only: add.assoc arith_simps numeral_One one_plus_numeral numeral_plus_one one_add_one) argo
  show ?thesis
    using r3 [of j] r4 [of j] r4 [of "j + 1"] r4 [of "j + 2"] r4 [of "j + 3"] r4 [of "j + 4"] by (simp only: add.assoc arith_simps numeral_One one_plus_numeral numeral_plus_one one_add_one) argo
qed

lemma alternate_zero:
  assumes w: "length w = 80" and z: "\<And>k. \<not> lfsr_bit w (n + 2 * k)"
  shows "\<not> lfsr_bit w (n + k)"
proof (cases "even k")
  case True
  then show ?thesis using z [of "k div 2"] by simp
next
  case False
  define u where "u j = lfsr_bit w (n + (2 * j + 1))" for j
  have e: "lfsr_bit w (n + (2 * j + c)) = False" if "even c" for j c
    using z [of "j + c div 2"] that by (simp add: algebra_simps)
  have o: "lfsr_bit w (n + (2 * j + c)) = u (j + (c - 1) div 2)" if "odd c" for j c
    using that by (auto simp: u_def elim!: oddE intro!: arg_cong [of _ _ "lfsr_bit w"])
  have even_start: "lfsr_bit w (n + (2 * j + 80)) = xor6 (lfsr_bit w (n + (2 * j + 0))) (lfsr_bit w (n + (2 * j + 13)))
      (lfsr_bit w (n + (2 * j + 23))) (lfsr_bit w (n + (2 * j + 38))) (lfsr_bit w (n + (2 * j + 51))) (lfsr_bit w (n + (2 * j + 62)))" for j
    using lfsr_recurrence [OF w, of "n + 2 * j"] by (simp add: add.assoc)
  have odd_start: "lfsr_bit w (n + (2 * j + 81)) = xor6 (lfsr_bit w (n + (2 * j + 1))) (lfsr_bit w (n + (2 * j + 14)))
      (lfsr_bit w (n + (2 * j + 24))) (lfsr_bit w (n + (2 * j + 39))) (lfsr_bit w (n + (2 * j + 52))) (lfsr_bit w (n + (2 * j + 63)))" for j
    using lfsr_recurrence [OF w, of "n + (2 * j + 1)"] by (simp only: add.assoc arith_simps one_plus_numeral)
  have a: "(u (j + 6) \<noteq> u (j + 11)) = u (j + 25)" for j
    using even_start [of j] z [of j] by (simp add: e o xor6_def)
  have b: "((u j \<noteq> u (j + 19)) \<noteq> u (j + 31)) = u (j + 40)" for j
    using odd_start [of j] u_def [of j] by (simp add: e o xor6_def)
  have shifted: "(u (j + 6) \<noteq> u (j + 5 + 6)) = u (j + 19 + 6)"
    "((u (j + 6) \<noteq> u (j + 19 + 6)) \<noteq> u (j + 31 + 6)) = u (j + 40 + 6)" for j
    using a [of j] b [of "j + 6"] by (simp_all only: add.assoc arith_simps)
  have "\<not> u (j + 6)" for j
    by (rule two_recurrences_zero [of "\<lambda>j. u (j + 6)", OF shifted])
  then have late: "\<not> u j" if "6 \<le> j" for j using that by (metis le_add_diff_inverse2)
  have "\<not> u j" for j using b [of j] late [of "j + 19"] late [of "j + 31"] late [of "j + 40"] by simp
  then show ?thesis using False by (auto simp: u_def elim!: oddE)
qed

text \<open>The window is never all zero.\<close>

lemma lfsr_step_nonzero:
  assumes "length w = 80" "True \<in> set w"
  shows "True \<in> set (lfsr_step w)"
proof (rule ccontr)
  assume "True \<notin> set (lfsr_step w)"
  then have z: "\<not> lfsr_step w ! i" if "i < 80" for i
  proof -
    have "length (lfsr_step w) = 80" using lfsr_iter_length [OF assms(1), of 1] by simp
    then have "lfsr_step w ! i \<in> set (lfsr_step w)" using that by simp
    then show ?thesis using \<open>True \<notin> set (lfsr_step w)\<close> by (metis (full_types))
  qed
  have t: "\<not> w ! Suc i" if "i < 79" for i using z [of i] lfsr_step_nth [OF assms(1) that] that by simp
  then have t': "\<not> w ! i" if "0 < i" "i < 80" for i using that t [of "i - 1"] by simp
  have "\<not> xor6 (w ! 0) (w ! 13) (w ! 23) (w ! 38) (w ! 51) (w ! 62)"
    using z [of 79] assms(1) by (simp add: lfsr_step_def nth_append)
  then have "\<not> w ! 0" using t' by (simp add: xor6_def)
  then have "\<not> w ! i" if "i < 80" for i using t' that by (cases "i = 0") auto
  then show False using assms by (auto simp: in_set_conv_nth)
qed

lemma lfsr_iter_nonzero: "length w = 80 \<Longrightarrow> True \<in> set w \<Longrightarrow> True \<in> set ((lfsr_step ^^ n) w)"
  by (induction n) (simp_all add: lfsr_step_nonzero lfsr_iter_length)

lemma lfsr_some_bit:
  assumes "length w = 80" "True \<in> set w"
  shows "\<exists>k. lfsr_bit w (n + 2 * k)"
proof (rule ccontr)
  assume "\<nexists>k. lfsr_bit w (n + 2 * k)"
  then have "\<not> lfsr_bit w (n + k)" for k using alternate_zero [OF assms(1), of n k] by blast
  then have "\<not> ((lfsr_step ^^ n) w) ! i" if "i < 80" for i using lfsr_iter_nth [OF assms(1) that] by simp
  then show False using lfsr_iter_nonzero [OF assms, of n] lfsr_iter_length [OF assms(1), of n] by (auto simp: in_set_conv_nth)
qed

lemma lfsr_bit_shift: "lfsr_bit ((lfsr_step ^^ m) w) n = lfsr_bit w (m + n)"
  by (simp add: lfsr_bit_def funpow_add [symmetric, THEN fun_cong, unfolded comp_def] add.commute)

lemma lf_update_bit:
  assumes "lf_inv l" "lf_update l = (b, l')"
  shows "b = lfsr_bit (lf_window l) 80"
  using lf_update_refines(2,3) [OF assms] lfsr_iter_nth [of "lf_window l" 79 1] assms(1) by simp

lemma lf_update_ok:
  assumes "lf_ok l" "lf_update l = (b, l')"
  shows "lf_ok l'" "lf_primeNumBits l' = lf_primeNumBits l"
  using lf_update_refines [OF _ assms(2)] lfsr_step_nonzero [of "lf_window l"] assms(1) by (auto simp: lf_ok_def)

lemma lf_updates_ok: "lf_ok l \<Longrightarrow> lf_ok (((snd \<circ> lf_update) ^^ n) l)"
proof (induction n)
  case (Suc n)
  then show ?case using lf_update_ok(1) by (metis comp_apply funpow.simps(2) prod.collapse)
qed simp

text \<open>The loop of \<open>getBits\<close> ends: some first bit of a pair is 1.\<close>

lemma draw_first_returns:
  assumes "lf_ok l" "lfsr_bit (lf_window l) (80 + 2 * k)"
  shows "\<exists>l'. draw_first l = Some l' \<and> lf_ok l' \<and> lf_primeNumBits l' = lf_primeNumBits l \<and> lf_window l' ! 79"
  using assms
proof (induction k arbitrary: l)
  case 0
  obtain b l1 where u: "lf_update l = (b, l1)" by fastforce
  have "lf_inv l" using 0 by (simp add: lf_ok_def)
  note r = lf_update_refines [OF this u] lf_update_bit [OF this u]
  have "draw_first l = Some l1" using 0 r(5) by (subst draw_first.simps) (simp add: u)
  then show ?case using lf_update_ok [OF 0(1) u] r 0 by simp
next
  case (Suc k)
  obtain b l1 where u: "lf_update l = (b, l1)" by fastforce
  obtain c l2 where u2: "lf_update l1 = (c, l2)" by fastforce
  have i: "lf_inv l" using Suc by (simp add: lf_ok_def)
  note r = lf_update_refines [OF i u] and r2 = lf_update_refines [OF lf_update_refines(1) [OF i u] u2]
  note ok = lf_update_ok [OF Suc.prems(1) u] and ok2 = lf_update_ok [OF lf_update_ok(1) [OF Suc.prems(1) u] u2]
  show ?case
  proof (cases b)
    case True
    then have "draw_first l = Some l1" by (subst draw_first.simps) (simp add: u)
    then show ?thesis using ok r(3) True by simp
  next
    case False
    have "lf_window l2 = (lfsr_step ^^ 2) (lf_window l)" using r(2) r2(2) by (simp add: numeral_2_eq_2)
    then have "lfsr_bit (lf_window l2) (80 + 2 * k)" using Suc.prems(2) by (simp add: lfsr_bit_shift)
    moreover have "draw_first l = draw_first l2" using False by (subst draw_first.simps) (simp add: u u2)
    ultimately show ?thesis using Suc.IH [OF ok2(1)] ok(2) ok2(2) by simp
  qed
qed

lemma getBits_returns:
  assumes "lf_ok l"
  shows "\<exists>bits l'. getBits n l = Some (bits, l') \<and> length bits = n \<and> lf_ok l' \<and> lf_primeNumBits l' = lf_primeNumBits l"
  using assms
proof (induction n arbitrary: l)
  case (Suc n)
  obtain k where "lfsr_bit (lf_window l) (80 + 2 * k)"
    using lfsr_some_bit [of "lf_window l" 80] Suc.prems by (auto simp: lf_ok_def)
  then obtain l1 where l1: "draw_first l = Some l1" "lf_ok l1" "lf_primeNumBits l1 = lf_primeNumBits l"
    using draw_first_returns [OF Suc.prems] by blast
  obtain b l2 where u: "lf_update l1 = (b, l2)" by fastforce
  show ?case using Suc.IH [OF lf_update_ok(1) [OF l1(2) u]] lf_update_ok(2) [OF l1(2) u] l1 u by auto
qed auto

lemma write_bits_length [simp]: "length (write_bits s i n cur) = length s"
  by (induction s i n cur rule: write_bits.induct) simp_all

lemma fold_set_bits:
  "j < length s \<Longrightarrow> fold (\<lambda>i s. s[i := True]) is s ! j \<longleftrightarrow> j \<in> set is \<or> s ! j"
proof (induction "is" arbitrary: s)
  case (Cons i "is")
  then show ?case by (cases "i = j") auto
qed simp

lemma fold_set_length [simp]: "length (fold (\<lambda>i s. s[i := True]) is s) = length s"
  by (induction "is" arbitrary: s) simp_all

lemma GrainLFSR_new_ok: "lf_ok (GrainLFSR_new isInv n t rf rp)"
proof -
  have "lf_ok \<lparr>lf_state = fold (\<lambda>i s. s[i := True]) [50..<80] s, lf_head = 0, lf_primeNumBits = n\<rparr>" if "length s = 80" for s
  proof -
    define f where "f = fold (\<lambda>i s. s[i := True]) [50..<80] s"
    have "f ! 79" unfolding f_def using that fold_set_bits [of 79 s "[50..<80]"] by (simp del: upt_rec_numeral)
    moreover have "f ! 79 \<in> set f" unfolding f_def using that by (intro nth_mem) simp
    ultimately have "True \<in> set f" by (metis (full_types))
    moreover have "length f = 80" using that by (simp add: f_def)
    ultimately show ?thesis unfolding f_def [symmetric] by (simp add: lf_ok_def lf_inv_def lf_window_def)
  qed
  then show ?thesis unfolding GrainLFSR_new_def Let_def by (intro lf_updates_ok) simp
qed

section \<open>Parameters\<close>

lemma rejection_loop_ok:
  assumes "rejection_loop n res l = Some r" "lf_ok l" "length res \<le> n" "\<forall>x \<in> set res. x < BN254_P"
  shows "length (fst r) = n \<and> (\<forall>x \<in> set (fst r). x < BN254_P) \<and> lf_ok (snd r) \<and> lf_primeNumBits (snd r) = lf_primeNumBits l"
proof -
  have "lf_ok l \<longrightarrow> length res \<le> n \<longrightarrow> (\<forall>x \<in> set res. x < BN254_P) \<longrightarrow>
    length (fst r) = n \<and> (\<forall>x \<in> set (fst r). x < BN254_P) \<and> lf_ok (snd r) \<and> lf_primeNumBits (snd r) = lf_primeNumBits l"
  proof (rule rejection_loop.raw_induct [OF _ assms(1)], intro impI, goal_cases)
    case (1 loop n res l r)
    show ?case
    proof (cases "length res < n")
      case True
      obtain bits l1 where g: "getBits (lf_primeNumBits l) l = Some (bits, l1)" "lf_ok l1" "lf_primeNumBits l1 = lf_primeNumBits l"
        using getBits_returns [OF 1(3)] by blast
      define res' where "res' = (if bits_value 0 0 (rev bits) < BN254_P then res @ [bits_value 0 0 (rev bits)] else res)"
      have "loop n res' l1 = Some r"
        unfolding res'_def using 1(2) True g(1) by (simp add: Let_def split del: if_split)
      note IH = 1(1) [OF this]
      have "length res' \<le> n" "\<forall>x \<in> set res'. x < BN254_P" unfolding res'_def using True 1(5) by simp_all
      then show ?thesis using IH g(2,3) by simp
    qed (use 1 in auto)
  qed
  then show ?thesis using assms(2-4) by simp
qed

lemma getFieldElementsModP_returns:
  assumes "lf_ok l"
  shows "\<exists>xs l'. getFieldElementsModP n l = Some (xs, l') \<and> length xs = n \<and> (\<forall>x \<in> set xs. x < BN254_P) \<and> lf_ok l'"
  using assms
proof (induction n arbitrary: l)
  case (Suc n)
  obtain bits l1 where g: "getBits (lf_primeNumBits l) l = Some (bits, l1)" "lf_ok l1"
    using getBits_returns [OF Suc.prems] by blast
  show ?case using Suc.IH [OF g(2)] g(1) by (auto simp: Let_def fromLeBytesModOrder_def)
qed auto

lemma ark_rounds_ok:
  assumes "ark_rounds n l = Some (rows, l')" "lf_ok l"
  shows "length rows = n \<and> (\<forall>row \<in> set rows. fr_vector row) \<and> lf_ok l'"
  using assms
proof (induction n arbitrary: l rows l')
  case (Suc n)
  obtain row l1 where r: "rejection_loop 3 [] l = Some (row, l1)"
    using Suc.prems by (auto simp: getFieldElementsRejectionSampling_def split: option.splits)
  then have ok: "fr_vector row" "lf_ok l1" using rejection_loop_ok [OF r Suc.prems(2)] by (simp_all add: fr_vector_def)
  obtain rows' where "ark_rounds n l1 = Some (rows', l')" "rows = row # rows'"
    using Suc.prems r by (auto simp: getFieldElementsRejectionSampling_def)
  then show ?case using Suc.IH [of l1 rows' l'] ok by simp
qed simp

lemma modInv_less: "modInv a = Inr b \<Longrightarrow> b < BN254_P"
  by (auto simp: modInv_def modPow_correct split: if_splits)

lemma seq_results_Inr: "seq_results rs = Inr xs \<Longrightarrow> length xs = length rs \<and> (\<forall>x \<in> set xs. Inr x \<in> set rs)"
  by (induction rs arbitrary: xs) (auto simp: bind_result_def split: sum.splits)

lemma cauchy_mds_ok:
  assumes "cauchy_mds xs ys = Inr mds" "length xs = 3" "length ys = 3"
  shows "length mds = 3 \<and> (\<forall>row \<in> set mds. fr_vector row)"
proof -
  note outer = seq_results_Inr [OF assms(1) [unfolded cauchy_mds_def]]
  have "fr_vector row" if "row \<in> set mds" for row
  proof -
    obtain x where "seq_results (map (\<lambda>y. modInv (addMod x y)) ys) = Inr row" using outer \<open>row \<in> set mds\<close> by fastforce
    from seq_results_Inr [OF this] show ?thesis using assms(3) modInv_less by (fastforce simp: fr_vector_def)
  qed
  then show ?thesis using outer assms(2) by simp
qed

text \<open>Whatever parameters the generator produces, they have the right shape and lie in the field.\<close>

lemma buildParams_ok:
  assumes "buildParams = Some (Inr p)"
  shows "params_ok p"
proof -
  obtain ark l1 where a: "ark_rounds (8 + 56) (GrainLFSR_new False 254 3 8 56) = Some (ark, l1)"
    using assms by (auto simp: buildParams_def split: option.splits)
  note ark = ark_rounds_ok [OF a GrainLFSR_new_ok]
  obtain xs l2 where xs: "getFieldElementsModP 3 l1 = Some (xs, l2)" "length xs = 3" "lf_ok l2"
    using getFieldElementsModP_returns [of l1 3] ark by blast
  obtain ys l3 where ys: "getFieldElementsModP 3 l2 = Some (ys, l3)" "length ys = 3"
    using getFieldElementsModP_returns [OF xs(3), of 3] by blast
  obtain mds where m: "cauchy_mds xs ys = Inr mds" "p = \<lparr>pp_ark = ark, pp_mds = mds\<rparr>"
    using assms a xs(1) ys(1) by (auto simp: buildParams_def bind_result_def split: sum.splits)
  show ?thesis using ark cauchy_mds_ok [OF m(1) xs(2) ys(2)] m(2) by (simp add: params_ok_def)
qed

section \<open>Bytes\<close>

lemma or_push_bit: "v < 2 ^ n \<Longrightarrow> v OR push_bit n b = v + 2 ^ n * (b :: nat)"
proof -
  assume v: "v < 2 ^ n"
  have "v OR push_bit n b = v + push_bit n b"
  proof (rule disjunctive_add [symmetric])
    fix k
    have "take_bit n v = v" using v by (simp add: take_bit_nat_eq_self)
    then have "\<not> bit v k" if "n \<le> k" using that by (metis bit_take_bit_iff not_le)
    then show "\<not> bit v k \<or> \<not> bit (push_bit n b) k" by (auto simp: bit_push_bit_iff)
  qed
  then show ?thesis by (simp add: push_bit_eq_mult mult.commute)
qed

lemma le_loop_value:
  assumes "v < 2 ^ (8 * i)" "\<forall>b \<in> set bs. b < 256"
  shows "le_loop i v bs = v + 2 ^ (8 * i) * le_value bs"
  using assms
proof (induction bs arbitrary: i v)
  case (Cons b bs)
  have o: "v OR push_bit (8 * i) b = v + 2 ^ (8 * i) * b" using Cons.prems(1) by (rule or_push_bit)
  have "2 ^ (8 * i) * b + 2 ^ (8 * i) \<le> 2 ^ (8 * i) * (256 :: nat)"
    using Cons.prems(2) by (metis Suc_leI list.set_intros(1) mult_Suc_right add.commute mult_le_mono2)
  then have "v + 2 ^ (8 * i) * b < 2 ^ (8 * i) * 256" using Cons.prems(1) by linarith
  then have "v + 2 ^ (8 * i) * b < 2 ^ (8 * Suc i)" by (simp add: power_add mult.commute)
  from Cons.IH [OF this] Cons.prems(2) o show ?case by (simp add: power_add algebra_simps)
qed simp

lemma be_loop_value: "\<forall>b \<in> set bs. b < 256 \<Longrightarrow> be_loop v bs = be_value v bs"
proof (induction bs arbitrary: v)
  case (Cons b bs)
  have "push_bit 8 v OR b = 256 * v + b" using or_push_bit [of b 8 v] Cons.prems by (simp add: or.commute add.commute)
  then show ?case using Cons by simp
qed simp

lemma be_value_split: "be_value v bs = v * 256 ^ length bs + be_value 0 bs"
proof (induction bs arbitrary: v)
  case (Cons b bs)
  show ?case using Cons.IH [of "256 * v + b"] Cons.IH [of b] by (simp add: algebra_simps)
qed simp

lemma be_value_less: "\<forall>b \<in> set bs. b < 256 \<Longrightarrow> be_value 0 bs < 256 ^ length bs"
proof (induction bs)
  case (Cons b bs)
  have "b * 256 ^ length bs + 256 ^ length bs \<le> 256 * 256 ^ length bs"
    using Cons.prems by (metis Suc_leI add.commute list.set_intros(1) mult_Suc mult_le_mono1)
  moreover have "be_value 0 bs < 256 ^ length bs" using Cons by simp
  ultimately have "b * 256 ^ length bs + be_value 0 bs < 256 * 256 ^ length bs" by linarith
  then show ?case using be_value_split [of b bs] by simp
qed simp

lemma be_value_inject:
  assumes "length as = length bs" "\<forall>b \<in> set as. b < 256" "\<forall>b \<in> set bs. b < 256" "be_value 0 as = be_value 0 bs"
  shows "as = bs"
  using assms
proof (induction as bs rule: list_induct2)
  case (Cons a as b bs)
  have e: "a * 256 ^ length as + be_value 0 as = b * 256 ^ length as + be_value 0 bs"
    using Cons.prems(3) Cons.hyps be_value_split [of a as] be_value_split [of b bs] by simp
  have l: "be_value 0 as < 256 ^ length as" "be_value 0 bs < 256 ^ length as"
    using be_value_less [of as] be_value_less [of bs] Cons by simp_all
  from arg_cong [OF e, of "\<lambda>x. x div 256 ^ length as"] l have "a = b" by simp
  then show ?case using e Cons by simp
qed simp

lemma le_bytes_less: "\<forall>b \<in> set (le_bytes n v). b < 256"
  by (induction n v rule: le_bytes.induct) simp_all

lemma le_bytes_value: "v < 256 ^ n \<Longrightarrow> le_value (le_bytes n v) = v"
proof (induction n v rule: le_bytes.induct)
  case (2 n v)
  then have "v div 256 < 256 ^ n" by (simp add: less_mult_imp_div_less mult.commute)
  with 2 show ?case by simp
qed simp

lemma hex_digit_facts:
  assumes "d < 16"
  shows "is_lower_hex (hex_digit d)" "is_hex (hex_digit d)" "hex_value (hex_digit d) = d"
proof -
  have "code (hex_digit d) = (if d < 10 then 48 + d else 87 + d)" using assms by (auto simp: hex_digit_def code_def)
  then show "is_lower_hex (hex_digit d)" "is_hex (hex_digit d)" "hex_value (hex_digit d) = d"
    using assms by (auto simp: is_lower_hex_def is_hex_def is_digit_def hex_value_def)
qed

lemma high_digit: "b < 256 \<Longrightarrow> b div 16 < (16 :: nat)" by simp

lemma buffer_hex_bytes:
  "\<forall>b \<in> set bs. b < 256 \<Longrightarrow> buffer_from_hex (concat (map hex_byte bs)) = bs"
  by (induction bs) (auto simp: hex_byte_def hex_digit_facts hex_digit_facts [OF high_digit])

lemma hex_bytes_lower: "\<forall>b \<in> set bs. b < 256 \<Longrightarrow> list_all is_lower_hex (concat (map hex_byte bs))"
  by (induction bs) (auto simp: hex_byte_def hex_digit_facts hex_digit_facts [OF high_digit])

lemma hex_bytes_length: "length (concat (map hex_byte bs)) = 2 * length bs"
  by (induction bs) (simp_all add: hex_byte_def)

lemma le_bytes_length [simp]: "length (le_bytes n v) = n"
  by (induction n v rule: le_bytes.induct) simp_all

lemma BN254_P_bounds: "256 ^ 31 < BN254_P" "BN254_P < 256 ^ 32"
  by (simp_all add: BN254_P_def)

section \<open>Properties\<close>

text \<open>The circular register refines the sliding window. A register that satisfies its invariant (80 slots, head
  in range) keeps it; one update moves the window one bit along the recurrence of the feedback polynomial,
  and the bit returned is the new last bit of the window. The constructor establishes the invariant, with a window that is
  not all zero.\<close>

theorem lfsr_refines_window:
  "lf_inv (GrainLFSR_new isInv n t rf rp) \<and> True \<in> set (lf_window (GrainLFSR_new isInv n t rf rp))
   \<and> (\<forall>l b l'. lf_inv l \<and> lf_update l = (b, l') \<longrightarrow> lf_inv l' \<and> lf_window l' = lfsr_step (lf_window l) \<and> b = lf_window l' ! 79)"
proof (intro conjI allI impI)
  show "lf_inv (GrainLFSR_new isInv n t rf rp)" "True \<in> set (lf_window (GrainLFSR_new isInv n t rf rp))"
    using GrainLFSR_new_ok [of isInv n t rf rp] unfolding lf_ok_def by (rule conjunct1, rule conjunct2)
qed (use lf_update_refines in blast)+

theorem lfsr_refines_window_witness:
  "lf_window (snd (lf_update (GrainLFSR_new False 254 3 8 56))) = lfsr_step (lf_window (GrainLFSR_new False 254 3 8 56))"
  using lfsr_refines_window [of False 254 3 8 56] by (metis prod.collapse)

text \<open>C34. \<open>getBits\<close> always returns. Its inner loop waits for a first bit that is 1; from a register whose window is not
  all zero such a bit always comes, because a run of zeros in every second place would satisfy two recurrences with
  coprime polynomials and so force the whole window to zero. The result has the requested length and the register stays
  usable, so every later call returns as well.\<close>

theorem getBits_terminates:
  assumes "lf_ok l"
  shows "\<exists>bits l'. getBits numBits l = Some (bits, l') \<and> length bits = numBits \<and> lf_ok l'"
  using getBits_returns [OF assms] by blast

theorem getBits_terminates_witness:
  "\<exists>bits l'. getBits 254 (GrainLFSR_new False 254 3 8 56) = Some (bits, l') \<and> length bits = 254 \<and> lf_ok l'"
  using getBits_terminates [OF GrainLFSR_new_ok, of 254 False 254 3 8 56] .

text \<open>C22. The hash computes its specification. For parameters of the right shape, \<open>poseidon2\<close> rejects exactly the inputs
  outside the field; on the others it returns the sponge over the specified permutation, in which every one of the 64 rounds
  is one formula modulo the prime (constants added, fifth powers of all elements in the first and last four rounds and of the
  first one in the 56 rounds between, and a matrix product), and the result lies in the field.\<close>

theorem poseidon2_computes_spec:
  assumes "params_ok p"
  shows "(in_field a \<and> in_field b \<and> in_field c \<longrightarrow> poseidon2 p (a, b, c) = Inr (spec_poseidon2 p (nat a) (nat b) (nat c))
       \<and> spec_poseidon2 p (nat a) (nat b) (nat c) < BN254_P)
    \<and> (\<not> (in_field a \<and> in_field b \<and> in_field c) \<longrightarrow> (\<exists>e. poseidon2 p (a, b, c) = Inl e))"
proof (intro conjI impI)
  assume f: "in_field a \<and> in_field b \<and> in_field c"
  then have lt: "nat a < BN254_P" "nat b < BN254_P" "nat c < BN254_P" by (auto simp: in_field_def nat_less_iff)
  then have v: "fr_vector [0, nat a, nat b]" by (simp add: fr_vector_def)
  obtain x y z where s: "spec_permute p [0, nat a, nat b] = [x, y, z]" "x < BN254_P" "y < BN254_P" "z < BN254_P"
    using poseidonPermute_correct [OF assms v] by (blast elim: fr_vectorE)
  then have v2: "fr_vector [x, (y + nat c) mod BN254_P, z]" by (simp add: fr_vector_def)
  note perm = poseidonPermute_correct [OF assms v] poseidonPermute_correct [OF assms v2]
  have "poseidon2 p (a, b, c) = Inr (poseidonPermute p [x, (y + nat c) mod BN254_P, z] ! 1)"
    using f lt s perm by (simp add: poseidon2_def Let_def addMod_mod numeral_2_eq_2)
  then show "poseidon2 p (a, b, c) = Inr (spec_poseidon2 p (nat a) (nat b) (nat c))"
    using perm s by (simp add: spec_poseidon2_def)
  show "spec_poseidon2 p (nat a) (nat b) (nat c) < BN254_P"
    using perm(2) s by (auto simp: spec_poseidon2_def fr_vector_def)
qed (auto simp: poseidon2_def)

theorem poseidon2_computes_spec_witness:
  "(\<exists>h. poseidon2 demo_params (1, 2, 3) = Inr h \<and> h < BN254_P) \<and> (\<exists>e. poseidon2 demo_params (-1, 2, 3) = Inl e)"
proof -
  have "params_ok demo_params" by (simp add: params_ok_def demo_params_def fr_vector_def BN254_P_def)
  from poseidon2_computes_spec [OF this, of 1 2 3] poseidon2_computes_spec [OF this, of "-1" 2 3]
  show ?thesis by (simp add: in_field_def BN254_P_def)
qed

text \<open>Hexadecimal serialisation round trip. \<open>bytesToHex32\<close> of a field element is a string of 64 lower-case
  hexadecimal digits whose bytes \<open>encodeSalt\<close> reads back to the same element, so distinct elements have distinct texts;
  every number outside the field is rejected.\<close>

theorem bytesToHex32_roundtrip:
  "(in_field fr \<longrightarrow> (\<exists>s. bytesToHex32 fr = Inr s \<and> HEX64_LOWER s \<and> encodeSalt (buffer_from_hex s) = Inr (nat fr)))
   \<and> (\<not> in_field fr \<longrightarrow> (\<exists>e. bytesToHex32 fr = Inl e))"
proof (intro conjI impI)
  assume f: "in_field fr"
  let ?bs = "le_bytes 32 (nat fr)"
  have lt: "nat fr < BN254_P" using f by (auto simp: in_field_def nat_less_iff)
  then have v: "le_value ?bs = nat fr" using BN254_P_bounds(2) by (intro le_bytes_value) linarith
  have b: "\<forall>b \<in> set ?bs. b < 256" by (rule le_bytes_less)
  have "HEX64_LOWER (concat (map hex_byte ?bs))"
    using hex_bytes_length [of ?bs] hex_bytes_lower [OF b] by (simp add: HEX64_LOWER_def)
  moreover have "encodeSalt (buffer_from_hex (concat (map hex_byte ?bs))) = Inr (nat fr)"
    unfolding buffer_hex_bytes [OF b] using le_loop_value [of 0 0 ?bs] b v lt
    by (simp add: encodeSalt_def fromLeBytesModOrder_def)
  ultimately show "\<exists>s. bytesToHex32 fr = Inr s \<and> HEX64_LOWER s \<and> encodeSalt (buffer_from_hex s) = Inr (nat fr)"
    using f by (simp add: bytesToHex32_def)
qed (simp add: bytesToHex32_def)

theorem bytesToHex32_roundtrip_witness:
  "(\<exists>s. bytesToHex32 258 = Inr s \<and> HEX64_LOWER s \<and> encodeSalt (buffer_from_hex s) = Inr 258) \<and> (\<exists>e. bytesToHex32 (-1) = Inl e)"
  using bytesToHex32_roundtrip [of 258] bytesToHex32_roundtrip [of "-1"] by (simp add: in_field_def BN254_P_def)

lemma utf8_bytes: "\<forall>b \<in> set (utf8 s). b < 256"
proof -
  have "b < 256" if "b \<in> set (utf8_char c)" for b c
  proof -
    have "code c < 256" by (simp add: code_def)
    then have "code c div 64 < 4" by (simp add: less_mult_imp_div_less)
    then show ?thesis using that by (auto simp: utf8_char_def split: if_splits)
  qed
  then show ?thesis by (auto simp: utf8_def)
qed

lemma pad_inject:
  assumes "replicate (32 - length u) 0 @ u = replicate (32 - length v) (0::nat) @ v"
    and "u = [] \<or> hd u \<noteq> 0" "v = [] \<or> hd v \<noteq> 0"
  shows "u = v"
proof -
  have "dropWhile (\<lambda>b. b = 0) (replicate k 0 @ x) = x" if "x = [] \<or> hd x \<noteq> 0" for k and x :: "nat list"
    using that by (cases x) (simp_all add: dropWhile_append)
  then show ?thesis using assms by metis
qed

lemma short_encoding:
  assumes "length u \<le> 31" "\<forall>b \<in> set u. b < 256"
  shows "fromBeBytesModOrder (replicate (32 - length u) 0 @ u) = be_value 0 (replicate (32 - length u) 0 @ u)"
proof -
  let ?p = "replicate (32 - length u) 0 @ u"
  have zeros: "be_value 0 (replicate k 0 @ xs) = be_value 0 xs" for k xs by (induction k) simp_all
  have "be_value 0 u < 256 ^ length u" by (rule be_value_less [OF assms(2)])
  also have "(256 :: nat) ^ length u \<le> 256 ^ 31" using assms(1) by (intro power_increasing) simp_all
  finally have "be_value 0 ?p < BN254_P" using BN254_P_bounds(1) zeros by simp
  moreover have "be_loop 0 ?p = be_value 0 ?p" using assms(2) by (intro be_loop_value) auto
  ultimately show ?thesis by (simp add: fromBeBytesModOrder_def)
qed

lemma short_encoding_inject:
  assumes "length u \<le> 31" "\<forall>b \<in> set u. b < 256" "u = [] \<or> hd u \<noteq> 0"
    and "length v \<le> 31" "\<forall>b \<in> set v. b < 256" "v = [] \<or> hd v \<noteq> 0"
    and "fromBeBytesModOrder (replicate (32 - length u) 0 @ u) = fromBeBytesModOrder (replicate (32 - length v) 0 @ v)"
  shows "u = v"
proof -
  have "replicate (32 - length u) 0 @ u = replicate (32 - length v) 0 @ v"
    using assms by (intro be_value_inject) (auto simp: short_encoding)
  then show ?thesis using assms(3,6) by (rule pad_inject)
qed

lemma utf8_hd_zero: "\<not> nul_start s \<Longrightarrow> utf8 s = [] \<or> hd (utf8 s) \<noteq> 0"
  by (cases s) (auto simp: nul_start_def utf8_def utf8_char_def)

text \<open>Short attribute values are encoded injectively: two strings of at most 31 UTF-8 bytes that do not start with
  the character NUL have the same field element just when they are equal, and so have two bigints whose decimal form
  has at most 31 characters. The type of a value is not part of the encoding: a bigint, the number and the string
  with the same digits share an element.\<close>

theorem encodeFr_short_injective:
  "(length (utf8 s) \<le> 31 \<and> length (utf8 t) \<le> 31 \<and> \<not> nul_start s \<and> \<not> nul_start t \<longrightarrow>
      (encodeFr (FrString s) = encodeFr (FrString t) \<longleftrightarrow> s = t))
   \<and> (length (utf8 (show_int i)) \<le> 31 \<and> length (utf8 (show_int j)) \<le> 31 \<longrightarrow>
      (encodeFr (FrBigint i) = encodeFr (FrBigint j) \<longleftrightarrow> i = j) \<and> encodeFr (FrString (show_int i)) = encodeFr (FrBigint i))"
proof (intro conjI impI)
  assume "length (utf8 s) \<le> 31 \<and> length (utf8 t) \<le> 31 \<and> \<not> nul_start s \<and> \<not> nul_start t"
  then show "encodeFr (FrString s) = encodeFr (FrString t) \<longleftrightarrow> s = t"
    using short_encoding_inject [of "utf8 s" "utf8 t"] utf8_bytes utf8_hd_zero [of s] utf8_hd_zero [of t]
    by (auto simp: encode_string_def Let_def)
next
  assume l: "length (utf8 (show_int i)) \<le> 31 \<and> length (utf8 (show_int j)) \<le> 31"
  have n: "\<not> nul_start (show_int k)" for k
    using hd_show_nat_digit [of "nat k"] by (auto simp: nul_start_def show_int_def is_digit_def code_def split: if_splits)
  show "encodeFr (FrBigint i) = encodeFr (FrBigint j) \<longleftrightarrow> i = j"
    using l short_encoding_inject [of "utf8 (show_int i)" "utf8 (show_int j)"] utf8_bytes utf8_hd_zero [OF n]
    by (auto simp: encode_decimal_def Let_def)
  show "encodeFr (FrString (show_int i)) = encodeFr (FrBigint i)"
    using l by (simp add: encode_string_def encode_decimal_def Let_def)
qed

theorem encodeFr_short_injective_witness:
  "encodeFr (FrString ''ada'') \<noteq> encodeFr (FrString ''bob'') \<and> encodeFr (FrString (show_int 42)) = encodeFr (FrBigint 42)"
proof -
  have "length (utf8 ''ada'') \<le> 31" "length (utf8 ''bob'') \<le> 31" "\<not> nul_start ''ada''" "\<not> nul_start ''bob''"
    "length (utf8 (show_int 42)) \<le> 31" by code_simp+
  then show ?thesis using encodeFr_short_injective [of "''ada''" "''bob''" 42 42] by simp
qed

text \<open>The regular expression that strips trailing zeros also strips them from an exponent.\<close>

lemma encodeFr_exponent_collision:
  assumes "isFinite m" "isFinite n" "number_toString m = ''1.5e-10''" "number_toString n = ''1.5e-100''"
  shows "encodeFr (FrNumber m) = encodeFr (FrNumber n)"
proof -
  have "strip_zeros ''1.5e-10'' = ''1.5e-1''" "strip_zeros ''1.5e-100'' = ''1.5e-1''" by code_simp+
  then show ?thesis using assms by (simp add: number_decimal_def Let_def)
qed

end
