(* ===== verification/Travel_Rule.thy ===== *)
theory Travel_Rule
  imports Audit_Trail
begin

text \<open>
  The travel-rule report: \<^verbatim>\<open>src/services/indexer/travel-rule.types.ts\<close> (party records and their schemas) and
  \<^verbatim>\<open>travel-rule.ts\<close> (the in-memory directory and resolver, the filters and the report generator).

  The generator consumes the audit feed of \<^verbatim>\<open>Audit_Trail\<close> and looks up parties and amounts behind two interfaces. The main
  results: a report has exactly the reportable settlements of the stored traces, whichever side of them is audited, and
  its total, summed and rounded in doubles, is the exact total when amounts are whole cents.
\<close>

section \<open>Parties and amounts\<close>

datatype Ivms101PartyName = NaturalName string "string option" | LegalName string

record Ivms101GeographicAddress =
  ga_country :: string
  ga_addressLine :: "string option"
  ga_townName :: "string option"
  ga_postCode :: "string option"

datatype Ivms101IdType = Passport | DriverLicense | NationalId | Tin | OtherId

record Ivms101NationalIdentification =
  ni_idType :: Ivms101IdType
  ni_idNumber :: string
  ni_issuingCountry :: string

record Ivms101Party =
  ip_authority :: string
  ip_accountNumber :: string
  ip_name :: Ivms101PartyName
  ip_jurisdiction :: string
  ip_address :: "Ivms101GeographicAddress option"
  ip_nationalId :: "Ivms101NationalIdentification option"

record AmountResolverEntry =
  ar_amountUsd :: jsnumber
  ar_currency :: string

text \<open>\<open>/^[A-Z]{2}$/\<close>.\<close>

definition jurisdictionCodeSchema :: "string \<Rightarrow> bool" where
  "jurisdictionCodeSchema s = (length s = 2 \<and> list_all is_upper s)"

text \<open>\<open>z.string().min(1).optional()\<close>.\<close>

definition optional_text :: "string option \<Rightarrow> bool" where
  "optional_text s = (case s of None \<Rightarrow> True | Some t \<Rightarrow> t \<noteq> [])"

fun ivms101PartyNameSchema :: "Ivms101PartyName \<Rightarrow> bool" where
  "ivms101PartyNameSchema (NaturalName primary secondary) = (primary \<noteq> [] \<and> optional_text secondary)"
| "ivms101PartyNameSchema (LegalName name) = (name \<noteq> [])"

definition ivms101GeographicAddressSchema :: "Ivms101GeographicAddress \<Rightarrow> bool" where
  "ivms101GeographicAddressSchema a = (jurisdictionCodeSchema (ga_country a) \<and> optional_text (ga_addressLine a)
     \<and> optional_text (ga_townName a) \<and> optional_text (ga_postCode a))"

definition ivms101NationalIdentificationSchema :: "Ivms101NationalIdentification \<Rightarrow> bool" where
  "ivms101NationalIdentificationSchema n = (ni_idNumber n \<noteq> [] \<and> jurisdictionCodeSchema (ni_issuingCountry n))"

definition ivms101PartySchema :: "Ivms101Party \<Rightarrow> bool" where
  "ivms101PartySchema p = (base58String (ip_authority p) \<and> ip_accountNumber p \<noteq> [] \<and> ivms101PartyNameSchema (ip_name p)
     \<and> jurisdictionCodeSchema (ip_jurisdiction p)
     \<and> (case ip_address p of None \<Rightarrow> True | Some a \<Rightarrow> ivms101GeographicAddressSchema a)
     \<and> (case ip_nationalId p of None \<Rightarrow> True | Some n \<Rightarrow> ivms101NationalIdentificationSchema n))"

text \<open>\<open>z.number().nonnegative().finite()\<close> and a non-empty currency.\<close>

definition amountResolverEntrySchema :: "AmountResolverEntry \<Rightarrow> bool" where
  "amountResolverEntrySchema e = (isFinite (ar_amountUsd e) \<and> \<not> js_less (ar_amountUsd e) (JInt 0) \<and> ar_currency e \<noteq> [])"

datatype TravelRuleErrorCode = TR_INVALID_AUTHORITY | TR_INVALID_BOUNDS | TR_INVALID_THRESHOLD | TR_INVALID_PARTY | TR_INVALID_AMOUNT

datatype travel_error = TravelRuleError TravelRuleErrorCode | TravelAudit audit_error | TravelOther string

section \<open>Directory and resolver\<close>

text \<open>A lookup fails, or answers with a record or \<open>undefined\<close>.\<close>

type_synonym PartyDirectory = "string \<Rightarrow> int \<Rightarrow> (travel_error, Ivms101Party option) result"
type_synonym AmountResolver = "string \<Rightarrow> (travel_error, AmountResolverEntry option) result"

type_synonym InMemoryPartyDirectory = "string \<rightharpoonup> Ivms101Party"
type_synonym InMemoryAmountResolver = "string \<rightharpoonup> AmountResolverEntry"

fun party_entries :: "(string \<times> Ivms101Party) list \<Rightarrow> InMemoryPartyDirectory \<Rightarrow> (travel_error, InMemoryPartyDirectory) result" where
  "party_entries [] m = Inr m"
| "party_entries ((authority, party) # es) m = (
     if \<not> ivms101PartySchema party then Inl (TravelRuleError TR_INVALID_PARTY) else party_entries es (m(authority \<mapsto> party)))"

definition InMemoryPartyDirectory_new :: "(string \<times> Ivms101Party) list \<Rightarrow> (travel_error, InMemoryPartyDirectory) result" where
  "InMemoryPartyDirectory_new entries = party_entries entries Map.empty"

definition party_lookup :: "InMemoryPartyDirectory \<Rightarrow> PartyDirectory" where
  "party_lookup store authority atSlot = Inr (store authority)"

fun amount_entries :: "(string \<times> AmountResolverEntry) list \<Rightarrow> InMemoryAmountResolver \<Rightarrow> (travel_error, InMemoryAmountResolver) result" where
  "amount_entries [] m = Inr m"
| "amount_entries ((txSig, entry) # es) m = (
     if \<not> amountResolverEntrySchema entry then Inl (TravelRuleError TR_INVALID_AMOUNT) else amount_entries es (m(txSig \<mapsto> entry)))"

definition InMemoryAmountResolver_new :: "(string \<times> AmountResolverEntry) list \<Rightarrow> (travel_error, InMemoryAmountResolver) result" where
  "InMemoryAmountResolver_new entries = amount_entries entries Map.empty"

definition amount_lookup :: "InMemoryAmountResolver \<Rightarrow> AmountResolver" where
  "amount_lookup store txSignature = Inr (store txSignature)"

section \<open>Filters\<close>

definition isCrossJurisdiction :: "Ivms101Party \<Rightarrow> Ivms101Party \<Rightarrow> bool" where
  "isCrossJurisdiction originator beneficiary = (ip_jurisdiction originator \<noteq> ip_jurisdiction beneficiary)"

definition meetsThreshold :: "jsnumber \<Rightarrow> jsnumber \<Rightarrow> bool" where
  "meetsThreshold amountUsd threshold = js_less threshold amountUsd"

text \<open>The eligibility and the reasons.\<close>

definition shouldReport :: "AuditFeedKytEvent \<Rightarrow> Ivms101Party \<Rightarrow> Ivms101Party \<Rightarrow> jsnumber \<Rightarrow> jsnumber \<Rightarrow> bool \<times> string list" where
  "shouldReport event originator beneficiary amountUsd threshold = (
     if fk_stage event \<noteq> St_confirm then (False, [])
     else let reasons = [''stage:confirm'']
     in if \<not> isCrossJurisdiction originator beneficiary then (False, reasons)
     else let reasons = reasons @ [''cross-jurisdiction:'' @ ip_jurisdiction originator @ ''->'' @ ip_jurisdiction beneficiary]
     in if \<not> meetsThreshold amountUsd threshold then (False, reasons)
     else (True, reasons @ [''amount:'' @ number_toString amountUsd @ ''>'' @ number_toString threshold]))"

section \<open>The report\<close>

record TravelRuleEntry =
  te_txSignature :: string
  te_slot :: int
  te_timestamp :: string
  te_amountUsd :: jsnumber
  te_currency :: string
  te_originator :: Ivms101Party
  te_beneficiary :: Ivms101Party
  te_reasons :: "string list"
  te_originatorPointers :: "string list"
  te_beneficiaryPointers :: "string list"

record TravelRuleSummary =
  ts_totalEntries :: nat
  ts_totalAmountUsd :: rat
  ts_originatedCount :: nat
  ts_beneficiaryCount :: nat
  ts_distinctCounterparties :: nat
  ts_skippedMissingParty :: nat
  ts_skippedMissingAmount :: nat

record TravelRuleReport =
  tr_id :: string
  tr_issuanceDate :: string
  tr_subject_id :: string
  tr_authority :: string
  tr_thresholdUsd :: jsnumber
  tr_sinceSlot :: "jsnumber option"
  tr_untilSlot :: "jsnumber option"
  tr_entries :: "TravelRuleEntry list"
  tr_summary :: TravelRuleSummary

record BuildReportOpts =
  br_sinceSlot :: "jsnumber option"
  br_untilSlot :: "jsnumber option"
  br_thresholdUsd :: "jsnumber option"
  br_issuerAllowlist :: "string list option"

definition TRAVEL_RULE_DEFAULT_THRESHOLD_USD :: jsnumber where
  "TRAVEL_RULE_DEFAULT_THRESHOLD_USD = JInt 3000"

definition tr_assertAuthority :: "string \<Rightarrow> (travel_error, unit) result" where
  "tr_assertAuthority authority = (if authority = [] \<or> \<not> base58String authority
     then Inl (TravelRuleError TR_INVALID_AUTHORITY) else Inr ())"

definition bad_slot :: "jsnumber option \<Rightarrow> bool" where
  "bad_slot s = (case s of None \<Rightarrow> False | Some n \<Rightarrow> \<not> isInteger n \<or> js_less n (JInt 0) \<or> \<not> isSafeInteger n)"

definition tr_assertBounds :: "BuildReportOpts \<Rightarrow> (travel_error, unit) result" where
  "tr_assertBounds opts = (
     if bad_slot (br_sinceSlot opts) then Inl (TravelRuleError TR_INVALID_BOUNDS)
     else if bad_slot (br_untilSlot opts) then Inl (TravelRuleError TR_INVALID_BOUNDS)
     else if (case (br_sinceSlot opts, br_untilSlot opts) of (Some s, Some u) \<Rightarrow> js_less u s | _ \<Rightarrow> False)
       then Inl (TravelRuleError TR_INVALID_BOUNDS)
     else Inr ())"

definition assertThreshold :: "jsnumber \<Rightarrow> (travel_error, unit) result" where
  "assertThreshold thresholdUsd = (if \<not> isFinite thresholdUsd \<or> js_less thresholdUsd (JInt 0)
     then Inl (TravelRuleError TR_INVALID_THRESHOLD) else Inr ())"

definition reportUrn :: "string \<Rightarrow> jsnumber option \<Rightarrow> jsnumber option \<Rightarrow> string" where
  "reportUrn authority sinceSlot untilSlot = ''urn:eto:travel-rule:'' @ authority @ '':''
     @ number_toString (case sinceSlot of None \<Rightarrow> JInt 0 | Some s \<Rightarrow> s) @ '':''
     @ (case untilSlot of None \<Rightarrow> ''latest'' | Some u \<Rightarrow> number_toString u)"

text \<open>The rational value of a finite number.\<close>

fun num_value :: "jsnumber \<Rightarrow> rat" where
  "num_value (JInt i) = of_int i"
| "num_value (JFrac q) = q"
| "num_value _ = 0"

text \<open>\<open>Math.round(x * 100) / 100\<close> on doubles.\<close>

definition roundUsd :: "rat \<Rightarrow> rat" where
  "roundUsd x = fl53 (of_int (math_round (fl53 (x * 100))) / 100)"

text \<open>\<open>entries.reduce((sum, e) => sum + e.amountUsd, 0)\<close>.\<close>

definition sum_amounts :: "TravelRuleEntry list \<Rightarrow> rat" where
  "sum_amounts es = foldl (\<lambda>s e. fl53 (s + num_value (te_amountUsd e))) 0 es"

record report_state =
  st_entries :: "TravelRuleEntry list"
  st_missingParty :: nat
  st_missingAmount :: nat
  st_originated :: nat
  st_beneficiary :: nat
  st_counterparties :: "string list"

definition set_add :: "'a \<Rightarrow> 'a list \<Rightarrow> 'a list" where
  "set_add x xs = (if x \<in> set xs then xs else xs @ [x])"

text \<open>The body of the loop over the traces of the feed.\<close>

definition report_event :: "PartyDirectory \<Rightarrow> AmountResolver \<Rightarrow> jsnumber \<Rightarrow> string \<Rightarrow> AuditFeedKytEvent
    \<Rightarrow> report_state \<Rightarrow> (travel_error, report_state) result" where
  "report_event directory amounts threshold authority event st = (
     if fk_stage event \<noteq> St_confirm then Inr st
     else let auditedIsBap = (fk_cp_party event = Bpp);
       originatorAuthority = (if auditedIsBap then authority else fk_cp_authority event);
       beneficiaryAuthority = (if auditedIsBap then fk_cp_authority event else authority)
     in bind_result (directory originatorAuthority (fk_slot event)) (\<lambda>found. case found of
       None \<Rightarrow> Inr (st\<lparr>st_missingParty := st_missingParty st + 1\<rparr>)
     | Some originator \<Rightarrow> bind_result (directory beneficiaryAuthority (fk_slot event)) (\<lambda>found. case found of
       None \<Rightarrow> Inr (st\<lparr>st_missingParty := st_missingParty st + 1\<rparr>)
     | Some beneficiary \<Rightarrow> bind_result (amounts (fk_txSignature event)) (\<lambda>found. case found of
       None \<Rightarrow> Inr (st\<lparr>st_missingAmount := st_missingAmount st + 1\<rparr>)
     | Some amountEntry \<Rightarrow>
       let (eligible, reasons) = shouldReport event originator beneficiary (ar_amountUsd amountEntry) threshold
       in if \<not> eligible then Inr st
       else let originatorPointers = (if auditedIsBap then fk_selfCredPointers event else fk_cp_credPointers event);
         beneficiaryPointers = (if auditedIsBap then fk_cp_credPointers event else fk_selfCredPointers event);
         st1 = st\<lparr>st_entries := st_entries st @ [\<lparr>te_txSignature = fk_txSignature event, te_slot = fk_slot event,
           te_timestamp = fk_timestamp event, te_amountUsd = ar_amountUsd amountEntry, te_currency = ar_currency amountEntry,
           te_originator = originator, te_beneficiary = beneficiary, te_reasons = reasons,
           te_originatorPointers = originatorPointers, te_beneficiaryPointers = beneficiaryPointers\<rparr>]\<rparr>
       in Inr (if auditedIsBap
         then st1\<lparr>st_originated := st_originated st + 1, st_counterparties := set_add beneficiaryAuthority (st_counterparties st)\<rparr>
         else st1\<lparr>st_beneficiary := st_beneficiary st + 1, st_counterparties := set_add originatorAuthority (st_counterparties st)\<rparr>)))))"

fun report_loop :: "PartyDirectory \<Rightarrow> AmountResolver \<Rightarrow> jsnumber \<Rightarrow> string \<Rightarrow> AuditFeedKytEvent list
    \<Rightarrow> report_state \<Rightarrow> (travel_error, report_state) result" where
  "report_loop directory amounts threshold authority [] st = Inr st"
| "report_loop directory amounts threshold authority (e # es) st =
     bind_result (report_event directory amounts threshold authority e st) (report_loop directory amounts threshold authority es)"

definition compareEntries :: "TravelRuleEntry \<Rightarrow> TravelRuleEntry \<Rightarrow> int" where
  "compareEntries a b = (if te_slot a \<noteq> te_slot b then js_sub (te_slot a) (te_slot b)
     else if te_txSignature a < te_txSignature b then -1
     else if te_txSignature a > te_txSignature b then 1
     else 0)"

fun kyt_only :: "AuditFeedEvent list \<Rightarrow> AuditFeedKytEvent list" where
  "kyt_only [] = []"
| "kyt_only (KytEv e # es) = e # kyt_only es"
| "kyt_only (RevEv r # es) = kyt_only es"

definition empty_report :: report_state where
  "empty_report = \<lparr>st_entries = [], st_missingParty = 0, st_missingAmount = 0, st_originated = 0, st_beneficiary = 0, st_counterparties = []\<rparr>"

definition feed_opts :: "BuildReportOpts \<Rightarrow> BuildAuditFeedOpts" where
  "feed_opts opts = \<lparr>bo_sinceSlot = br_sinceSlot opts, bo_untilSlot = br_untilSlot opts, bo_issuerAllowlist = br_issuerAllowlist opts\<rparr>"

text \<open>What \<open>catch\<close> would see of an error of the indexer.\<close>

definition lift_audit :: "(audit_error, 'a) result \<Rightarrow> (travel_error, 'a) result" where
  "lift_audit r = (case r of Inl e \<Rightarrow> Inl (TravelAudit e) | Inr x \<Rightarrow> Inr x)"

text \<open>The clock is read once by the indexer and once for the report.\<close>

definition buildReport :: "KytEventSource \<Rightarrow> PartyDirectory \<Rightarrow> AmountResolver \<Rightarrow> int \<Rightarrow> int \<Rightarrow> string \<Rightarrow> BuildReportOpts
    \<Rightarrow> (travel_error, TravelRuleReport) result" where
  "buildReport source directory amounts feedClock clock authority opts =
     bind_result (tr_assertAuthority authority) (\<lambda>_.
     bind_result (tr_assertBounds opts) (\<lambda>_.
     let threshold = (case br_thresholdUsd opts of None \<Rightarrow> TRAVEL_RULE_DEFAULT_THRESHOLD_USD | Some t \<Rightarrow> t)
     in bind_result (assertThreshold threshold) (\<lambda>_.
     bind_result (lift_audit (buildAuditFeed source feedClock authority (feed_opts opts))) (\<lambda>feed.
     bind_result (report_loop directory amounts threshold authority (kyt_only (af_events feed)) empty_report) (\<lambda>st.
     let entries = js_sort compareEntries (st_entries st)
     in case toISOString clock of None \<Rightarrow> Inl (TravelAudit AuditRangeError)
     | Some issued \<Rightarrow> Inr \<lparr>tr_id = reportUrn authority (br_sinceSlot opts) (br_untilSlot opts), tr_issuanceDate = issued,
         tr_subject_id = ''did:eto:agent:'' @ authority, tr_authority = authority, tr_thresholdUsd = threshold,
         tr_sinceSlot = br_sinceSlot opts, tr_untilSlot = br_untilSlot opts, tr_entries = entries,
         tr_summary = \<lparr>ts_totalEntries = length entries, ts_totalAmountUsd = roundUsd (sum_amounts entries),
           ts_originatedCount = st_originated st, ts_beneficiaryCount = st_beneficiary st,
           ts_distinctCounterparties = length (st_counterparties st), ts_skippedMissingParty = st_missingParty st,
           ts_skippedMissingAmount = st_missingAmount st\<rparr>\<rparr>)))))"

section \<open>Specification\<close>

definition threshold_of :: "BuildReportOpts \<Rightarrow> jsnumber" where
  "threshold_of opts = (case br_thresholdUsd opts of None \<Rightarrow> TRAVEL_RULE_DEFAULT_THRESHOLD_USD | Some t \<Rightarrow> t)"

text \<open>The records a trace needs, for a directory and a resolver that answer with \<open>P\<close> and \<open>A\<close>: its BAP is the originator and its
  BPP the beneficiary.\<close>

definition originator_of :: "(string \<Rightarrow> int \<Rightarrow> Ivms101Party option) \<Rightarrow> KytTraceEvent \<Rightarrow> Ivms101Party option" where
  "originator_of P t = P (pt_authority (kt_bap t)) (int_of (kt_slot t))"

definition beneficiary_of :: "(string \<Rightarrow> int \<Rightarrow> Ivms101Party option) \<Rightarrow> KytTraceEvent \<Rightarrow> Ivms101Party option" where
  "beneficiary_of P t = P (pt_authority (kt_bpp t)) (int_of (kt_slot t))"

definition missing_party :: "(string \<Rightarrow> int \<Rightarrow> Ivms101Party option) \<Rightarrow> KytTraceEvent \<Rightarrow> bool" where
  "missing_party P t \<longleftrightarrow> kt_stage t = St_confirm \<and> (originator_of P t = None \<or> beneficiary_of P t = None)"

definition missing_amount :: "(string \<Rightarrow> int \<Rightarrow> Ivms101Party option) \<Rightarrow> (string \<Rightarrow> AmountResolverEntry option) \<Rightarrow> KytTraceEvent \<Rightarrow> bool" where
  "missing_amount P A t \<longleftrightarrow> kt_stage t = St_confirm \<and> \<not> missing_party P t \<and> A (kt_tx_signature t) = None"

definition exempt :: "(string \<Rightarrow> int \<Rightarrow> Ivms101Party option) \<Rightarrow> (string \<Rightarrow> AmountResolverEntry option) \<Rightarrow> jsnumber \<Rightarrow> KytTraceEvent \<Rightarrow> bool" where
  "exempt P A threshold t \<longleftrightarrow> kt_stage t = St_confirm \<and> \<not> missing_party P t \<and> \<not> missing_amount P A t
     \<and> (ip_jurisdiction (the (originator_of P t)) = ip_jurisdiction (the (beneficiary_of P t))
        \<or> \<not> js_less threshold (ar_amountUsd (the (A (kt_tx_signature t)))))"

definition reportable :: "(string \<Rightarrow> int \<Rightarrow> Ivms101Party option) \<Rightarrow> (string \<Rightarrow> AmountResolverEntry option) \<Rightarrow> jsnumber \<Rightarrow> KytTraceEvent \<Rightarrow> bool" where
  "reportable P A threshold t \<longleftrightarrow> kt_stage t = St_confirm \<and> (case (originator_of P t, beneficiary_of P t, A (kt_tx_signature t)) of
     (Some originator, Some beneficiary, Some amount) \<Rightarrow>
       ip_jurisdiction originator \<noteq> ip_jurisdiction beneficiary \<and> js_less threshold (ar_amountUsd amount)
   | _ \<Rightarrow> False)"

definition entry_of :: "(string \<Rightarrow> int \<Rightarrow> Ivms101Party option) \<Rightarrow> (string \<Rightarrow> AmountResolverEntry option) \<Rightarrow> jsnumber \<Rightarrow> KytTraceEvent \<Rightarrow> TravelRuleEntry" where
  "entry_of P A threshold t = (let originator = the (originator_of P t); beneficiary = the (beneficiary_of P t); amount = the (A (kt_tx_signature t))
     in \<lparr>te_txSignature = kt_tx_signature t, te_slot = int_of (kt_slot t), te_timestamp = the (unixSecondsToIso (int_of (kt_timestamp t))),
         te_amountUsd = ar_amountUsd amount, te_currency = ar_currency amount, te_originator = originator, te_beneficiary = beneficiary,
         te_reasons = [''stage:confirm'', ''cross-jurisdiction:'' @ ip_jurisdiction originator @ ''->'' @ ip_jurisdiction beneficiary,
           ''amount:'' @ number_toString (ar_amountUsd amount) @ ''>'' @ number_toString threshold],
         te_originatorPointers = pt_cred_pointers (kt_bap t), te_beneficiaryPointers = pt_cred_pointers (kt_bpp t)\<rparr>)"

definition counterparty_of :: "string \<Rightarrow> KytTraceEvent \<Rightarrow> string" where
  "counterparty_of a t = (if pt_authority (kt_bap t) = a then pt_authority (kt_bpp t) else pt_authority (kt_bap t))"

definition entry_key :: "TravelRuleEntry \<Rightarrow> int \<times> string" where
  "entry_key e = (te_slot e, te_txSignature e)"

definition in_window :: "string \<Rightarrow> BuildReportOpts \<Rightarrow> KytTraceEvent \<Rightarrow> bool" where
  "in_window a opts t \<longleftrightarrow> involves a t \<and> withinBounds (kt_slot t) (query_of (feed_opts opts))"

text \<open>Two parties, an amount and options, for the witnesses.\<close>

definition demo_ivms :: "string \<Rightarrow> string \<Rightarrow> Ivms101Party" where
  "demo_ivms a j = \<lparr>ip_authority = a, ip_accountNumber = ''1'', ip_name = LegalName ''L'', ip_jurisdiction = j, ip_address = None, ip_nationalId = None\<rparr>"

definition demo_directory :: InMemoryPartyDirectory where
  "demo_directory = [''A'' \<mapsto> demo_ivms ''A'' ''US'', ''B'' \<mapsto> demo_ivms ''B'' ''DE'']"

definition demo_amounts :: InMemoryAmountResolver where
  "demo_amounts = [''4'' \<mapsto> \<lparr>ar_amountUsd = JInt 5000, ar_currency = ''eUSD''\<rparr>]"

definition demo_report_opts :: BuildReportOpts where
  "demo_report_opts = \<lparr>br_sinceSlot = Some (JInt 5), br_untilSlot = None, br_thresholdUsd = None, br_issuerAllowlist = None\<rparr>"

section \<open>Lemmas\<close>

lemma compareEntries_key: "compareEntries a b \<le> 0 \<longleftrightarrow> entry_key a \<le> entry_key b"
  using string_cases [of "te_txSignature a" "te_txSignature b"]
  by (auto simp: compareEntries_def entry_key_def js_sub_sign less_eq_prod_def)

lemmas sort_entries = js_sort_key [OF compareEntries_key]

lemma set_add_simps [simp]: "set (set_add x xs) = insert x (set xs)" "distinct xs \<Longrightarrow> distinct (set_add x xs)"
  by (auto simp: set_add_def)

text \<open>The feed line of a trace tells originator and beneficiary apart.\<close>

lemma feed_of_roles:
  assumes "involves a t" "kytTraceEventSchema t"
  shows "(if fk_cp_party (feed_of a t) = Bpp then a else fk_cp_authority (feed_of a t)) = pt_authority (kt_bap t)"
    and "(if fk_cp_party (feed_of a t) = Bpp then fk_cp_authority (feed_of a t) else a) = pt_authority (kt_bpp t)"
    and "(if fk_cp_party (feed_of a t) = Bpp then fk_selfCredPointers (feed_of a t) else fk_cp_credPointers (feed_of a t)) = pt_cred_pointers (kt_bap t)"
    and "(if fk_cp_party (feed_of a t) = Bpp then fk_cp_credPointers (feed_of a t) else fk_selfCredPointers (feed_of a t)) = pt_cred_pointers (kt_bpp t)"
    and "fk_cp_party (feed_of a t) = Bpp \<longleftrightarrow> pt_authority (kt_bap t) = a"
  using assms by (auto simp: involves_def kytTraceEventSchema_def feed_of_def feed_event_def Let_def)

lemma feed_of_simps [simp]:
  "fk_stage (feed_of a t) = kt_stage t" "fk_slot (feed_of a t) = int_of (kt_slot t)" "fk_txSignature (feed_of a t) = kt_tx_signature t"
  "fk_timestamp (feed_of a t) = the (unixSecondsToIso (int_of (kt_timestamp t)))"
  by (simp_all add: feed_of_def feed_event_def Let_def)

lemma shouldReport_eligible:
  "fk_stage e = St_confirm \<Longrightarrow> ip_jurisdiction p \<noteq> ip_jurisdiction b \<Longrightarrow> js_less th m \<Longrightarrow> shouldReport e p b m th =
     (True, [''stage:confirm'', ''cross-jurisdiction:'' @ ip_jurisdiction p @ ''->'' @ ip_jurisdiction b, ''amount:'' @ number_toString m @ ''>'' @ number_toString th])"
  by (simp add: shouldReport_def isCrossJurisdiction_def meetsThreshold_def)

lemma shouldReport_exempt:
  "ip_jurisdiction p = ip_jurisdiction b \<or> \<not> js_less th m \<Longrightarrow> \<exists>reasons. shouldReport e p b m th = (False, reasons)"
  by (auto simp: shouldReport_def isCrossJurisdiction_def meetsThreshold_def Let_def)

text \<open>One event of the loop.\<close>

definition report_step :: "(string \<Rightarrow> int \<Rightarrow> Ivms101Party option) \<Rightarrow> (string \<Rightarrow> AmountResolverEntry option) \<Rightarrow> jsnumber \<Rightarrow> string
    \<Rightarrow> KytTraceEvent \<Rightarrow> report_state \<Rightarrow> report_state" where
  "report_step P A th a t st = (
     if missing_party P t then st\<lparr>st_missingParty := st_missingParty st + 1\<rparr>
     else if missing_amount P A t then st\<lparr>st_missingAmount := st_missingAmount st + 1\<rparr>
     else if reportable P A th t then st\<lparr>st_entries := st_entries st @ [entry_of P A th t],
       st_originated := st_originated st + (if pt_authority (kt_bap t) = a then 1 else 0),
       st_beneficiary := st_beneficiary st + (if pt_authority (kt_bap t) = a then 0 else 1),
       st_counterparties := set_add (counterparty_of a t) (st_counterparties st)\<rparr>
     else st)"

lemma report_event_eq:
  assumes t: "involves a t" "kytTraceEventSchema t"
    and d: "\<And>b slot. directory b slot = Inr (P b slot)" and m: "\<And>x. amounts x = Inr (A x)"
  shows "report_event directory amounts th a (feed_of a t) st = Inr (report_step P A th a t st)"
proof (cases "kt_stage t = St_confirm")
  case False
  then show ?thesis by (simp add: report_event_def report_step_def missing_party_def missing_amount_def reportable_def)
next
  case True
  note roles = feed_of_roles [OF t]
  show ?thesis
  proof (cases "missing_party P t \<or> missing_amount P A t")
    case missing: True
    then show ?thesis
      unfolding report_event_def Let_def roles(1-4) unfolding roles(5) d m
      using True by (auto simp: report_step_def missing_party_def missing_amount_def originator_of_def beneficiary_of_def split: option.splits)
  next
    case False
    then obtain p b r where found: "P (pt_authority (kt_bap t)) (int_of (kt_slot t)) = Some p"
      "P (pt_authority (kt_bpp t)) (int_of (kt_slot t)) = Some b" "A (kt_tx_signature t) = Some r"
      using True by (auto simp: missing_party_def missing_amount_def originator_of_def beneficiary_of_def)
    have rep: "reportable P A th t \<longleftrightarrow> ip_jurisdiction p \<noteq> ip_jurisdiction b \<and> js_less th (ar_amountUsd r)"
      using True found by (simp add: reportable_def originator_of_def beneficiary_of_def)
    show ?thesis
    proof (cases "reportable P A th t")
      case yes: True
      with rep have e: "ip_jurisdiction p \<noteq> ip_jurisdiction b" "js_less th (ar_amountUsd r)" by simp_all
      show ?thesis
        unfolding report_event_def Let_def roles(1-4) unfolding roles(5) d m
        using True False found yes e by (simp add: report_step_def shouldReport_eligible entry_of_def originator_of_def beneficiary_of_def counterparty_of_def)
    next
      case no: False
      with rep obtain reasons where "shouldReport (feed_of a t) p b (ar_amountUsd r) th = (False, reasons)"
        using shouldReport_exempt by metis
      then show ?thesis
        unfolding report_event_def Let_def roles(1-4) unfolding roles(5) d m
        using True False found no by (simp add: report_step_def)
    qed
  qed
qed

lemma report_loop_eq:
  assumes "\<And>b slot. directory b slot = Inr (P b slot)" "\<And>x. amounts x = Inr (A x)"
  shows "\<forall>t\<in>set ts. involves a t \<and> kytTraceEventSchema t
    \<Longrightarrow> report_loop directory amounts th a (map (feed_of a) ts) st = Inr (fold (report_step P A th a) ts st)"
  by (induction ts arbitrary: st) (simp_all add: report_event_eq [OF _ _ assms])

text \<open>The state after the loop.\<close>

lemma report_cases:
  "missing_party P t \<Longrightarrow> \<not> missing_amount P A t \<and> \<not> reportable P A th t"
  "missing_amount P A t \<Longrightarrow> \<not> reportable P A th t"
  by (auto simp: missing_party_def missing_amount_def reportable_def split: option.splits)

lemma fold_report_step:
  "st_entries (fold (report_step P A th a) ts st) = st_entries st @ map (entry_of P A th) (filter (reportable P A th) ts)"
  "st_missingParty (fold (report_step P A th a) ts st) = st_missingParty st + length (filter (missing_party P) ts)"
  "st_missingAmount (fold (report_step P A th a) ts st) = st_missingAmount st + length (filter (missing_amount P A) ts)"
  "st_originated (fold (report_step P A th a) ts st) = st_originated st + length (filter (\<lambda>t. reportable P A th t \<and> pt_authority (kt_bap t) = a) ts)"
  "st_beneficiary (fold (report_step P A th a) ts st) = st_beneficiary st + length (filter (\<lambda>t. reportable P A th t \<and> pt_authority (kt_bap t) \<noteq> a) ts)"
  "set (st_counterparties (fold (report_step P A th a) ts st)) = set (st_counterparties st) \<union> counterparty_of a ` set (filter (reportable P A th) ts)"
  "distinct (st_counterparties st) \<Longrightarrow> distinct (st_counterparties (fold (report_step P A th a) ts st))"
  by (induction ts arbitrary: st) (auto simp: report_step_def report_cases)

text \<open>The traces of a feed, in its order.\<close>

lemma kyt_only_append [simp]: "kyt_only (xs @ ys) = kyt_only xs @ kyt_only ys"
  by (induction xs rule: kyt_only.induct) simp_all

lemma kyt_only_map [simp]: "kyt_only (map KytEv ks) = ks" "kyt_only (map RevEv rs) = []"
  subgoal by (induction ks) simp_all
  subgoal by (induction rs) simp_all
  done

lemma mset_kyt_only: "mset xs = mset ys \<Longrightarrow> mset (kyt_only xs) = mset (kyt_only ys)"
proof -
  have "mset (kyt_only zs) = image_mset (\<lambda>e. case e of KytEv k \<Rightarrow> k) (filter_mset is_kyt (mset zs))" for zs
    by (induction zs rule: kyt_only.induct) simp_all
  then show "mset xs = mset ys \<Longrightarrow> mset (kyt_only xs) = mset (kyt_only ys)" by simp
qed

lemma mset_map_inverse: "mset xs = mset (map f ys) \<Longrightarrow> \<exists>zs. mset zs = mset ys \<and> map f zs = xs"
proof (induction xs arbitrary: ys)
  case (Cons x xs)
  then have "x \<in> set (map f ys)" by (metis list.set_intros(1) mset_eq_setD)
  then obtain y where y: "y \<in> set ys" "x = f y" by auto
  have "mset xs = mset (map f (remove1 y ys))" using Cons.prems y by (simp add: image_mset_Diff) (metis add_mset_remove_trivial)
  from Cons.IH [OF this] obtain zs where "mset zs = mset (remove1 y ys)" "map f zs = xs" by blast
  then show ?case using y by (intro exI [of _ "y # zs"]) simp
qed simp

section \<open>The interfaces\<close>

text \<open>A directory and a resolver that always answer.\<close>

locale party_directory =
  fixes lookup :: "'d \<Rightarrow> PartyDirectory" and parties :: "'d \<Rightarrow> string \<Rightarrow> int \<Rightarrow> Ivms101Party option"
  assumes party_found: "lookup d b slot = Inr (parties d b slot)"

locale amount_resolver =
  fixes resolve :: "'r \<Rightarrow> AmountResolver" and amounts :: "'r \<Rightarrow> string \<Rightarrow> AmountResolverEntry option"
  assumes amount_found: "resolve r x = Inr (amounts r x)"

text \<open>The generator over the three.\<close>

locale travel_rule_sources = kyt_event_source source valid traces revocations + party_directory lookup parties + amount_resolver resolve amounts
  for source :: "'s \<Rightarrow> KytEventSource" and valid traces revocations
    and lookup :: "'d \<Rightarrow> PartyDirectory" and parties and resolve :: "'r \<Rightarrow> AmountResolver" and amounts
begin

lemma feed_traces:
  assumes "valid s" "buildAuditFeed (source s) clock a opts = Inr feed"
  obtains ts where "kyt_only (af_events feed) = map (feed_of a) ts" "mset ts = mset (relevant s a opts)"
    "\<forall>t\<in>set ts. involves a t \<and> kytTraceEventSchema t"
proof -
  have "mset (kyt_only (af_events feed)) = mset (kyt_only (feed_lines a opts (traces s) (revocations s)))"
    using feed_contents(1) [OF assms] by (rule mset_kyt_only)
  also have "\<dots> = mset (map (feed_of a) (relevant s a opts))"
    by (simp add: feed_lines_def relevant_def flip: map_map)
  finally obtain ts where ts: "mset ts = mset (relevant s a opts)" "map (feed_of a) ts = kyt_only (af_events feed)"
    using mset_map_inverse by blast
  moreover have "\<forall>t\<in>set ts. involves a t \<and> kytTraceEventSchema t"
    using mset_eq_setD [OF ts(1)] traces_ok [OF assms(1)] by (auto simp: relevant_def list_all_iff)
  ultimately show ?thesis using that by metis
qed

lemma report_outcome:
  assumes "valid s" "buildReport (source s) (lookup d) (resolve r) feedClock clock a opts = Inr report"
  obtains ts st where "mset ts = mset (filter (in_window a opts) (traces s))"
    "st = fold (report_step (parties d) (amounts r) (threshold_of opts) a) ts empty_report"
    "tr_entries report = js_sort compareEntries (st_entries st)"
    "tr_summary report = \<lparr>ts_totalEntries = length (tr_entries report), ts_totalAmountUsd = roundUsd (sum_amounts (tr_entries report)),
       ts_originatedCount = st_originated st, ts_beneficiaryCount = st_beneficiary st,
       ts_distinctCounterparties = length (st_counterparties st), ts_skippedMissingParty = st_missingParty st,
       ts_skippedMissingAmount = st_missingAmount st\<rparr>"
proof -
  from assms(2) obtain feed st where feed: "buildAuditFeed (source s) feedClock a (feed_opts opts) = Inr feed"
    and st: "report_loop (lookup d) (resolve r) (threshold_of opts) a (kyt_only (af_events feed)) empty_report = Inr st"
    and rep: "tr_entries report = js_sort compareEntries (st_entries st)"
    "tr_summary report = \<lparr>ts_totalEntries = length (tr_entries report), ts_totalAmountUsd = roundUsd (sum_amounts (tr_entries report)),
       ts_originatedCount = st_originated st, ts_beneficiaryCount = st_beneficiary st,
       ts_distinctCounterparties = length (st_counterparties st), ts_skippedMissingParty = st_missingParty st,
       ts_skippedMissingAmount = st_missingAmount st\<rparr>"
    unfolding buildReport_def threshold_of_def [symmetric] Let_def lift_audit_def bind_result_def
    by (auto split: sum.splits option.splits)
  obtain ts where ts: "kyt_only (af_events feed) = map (feed_of a) ts" "mset ts = mset (relevant s a (feed_opts opts))"
    "\<forall>t\<in>set ts. involves a t \<and> kytTraceEventSchema t" by (rule feed_traces [OF assms(1) feed])
  have "st = fold (report_step (parties d) (amounts r) (threshold_of opts) a) ts empty_report"
    using st report_loop_eq [OF party_found amount_found ts(3)] by (simp add: ts(1))
  moreover have "relevant s a (feed_opts opts) = filter (in_window a opts) (traces s)"
    unfolding relevant_def by (rule filter_cong) (simp_all add: in_window_def)
  ultimately show ?thesis using ts(2) rep by (intro that) simp_all
qed

lemma report_contents:
  assumes "valid s" "buildReport (source s) (lookup d) (resolve r) feedClock clock a opts = Inr report"
  defines "R \<equiv> reportable (parties d) (amounts r) (threshold_of opts)" and "T \<equiv> filter (in_window a opts) (traces s)"
  shows "mset (tr_entries report) = mset (map (entry_of (parties d) (amounts r) (threshold_of opts)) (filter R T))"
    and "sorted (map entry_key (tr_entries report))"
    and "ts_totalEntries (tr_summary report) = length (filter R T)"
    and "ts_originatedCount (tr_summary report) = length (filter (\<lambda>t. R t \<and> pt_authority (kt_bap t) = a) T)"
    and "ts_beneficiaryCount (tr_summary report) = length (filter (\<lambda>t. R t \<and> pt_authority (kt_bap t) \<noteq> a) T)"
    and "ts_distinctCounterparties (tr_summary report) = card (counterparty_of a ` set (filter R T))"
    and "ts_skippedMissingParty (tr_summary report) = length (filter (missing_party (parties d)) T)"
    and "ts_skippedMissingAmount (tr_summary report) = length (filter (missing_amount (parties d) (amounts r)) T)"
    and "ts_totalAmountUsd (tr_summary report) = roundUsd (sum_amounts (tr_entries report))"
proof -
  obtain ts st where ts: "mset ts = mset T" and st: "st = fold (report_step (parties d) (amounts r) (threshold_of opts) a) ts empty_report"
    and e: "tr_entries report = js_sort compareEntries (st_entries st)"
    and s: "tr_summary report = \<lparr>ts_totalEntries = length (tr_entries report), ts_totalAmountUsd = roundUsd (sum_amounts (tr_entries report)),
       ts_originatedCount = st_originated st, ts_beneficiaryCount = st_beneficiary st,
       ts_distinctCounterparties = length (st_counterparties st), ts_skippedMissingParty = st_missingParty st,
       ts_skippedMissingAmount = st_missingAmount st\<rparr>"
    unfolding T_def by (rule report_outcome [OF assms(1,2)])
  note f = fold_report_step [where P = "parties d" and A = "amounts r" and th = "threshold_of opts" and a = a and ts = ts and st = empty_report, folded st R_def]
  have len: "length (filter Q ts) = length (filter Q T)" for Q using ts by (metis mset_filter size_mset)
  show m: "mset (tr_entries report) = mset (map (entry_of (parties d) (amounts r) (threshold_of opts)) (filter R T))"
    using ts by (simp add: e f(1) sort_entries empty_report_def mset_filter)
  show "sorted (map entry_key (tr_entries report))" by (simp add: e sort_entries)
  show "ts_totalEntries (tr_summary report) = length (filter R T)" using mset_eq_length [OF m] by (simp add: s)
  have "distinct (st_counterparties st)" using f(7) by (simp add: empty_report_def)
  then have "length (st_counterparties st) = card (set (st_counterparties st))" by (simp add: distinct_card)
  also have "set (st_counterparties st) = counterparty_of a ` set (filter R T)"
    using f(6) mset_eq_setD [OF ts] by (simp add: empty_report_def)
  finally show "ts_distinctCounterparties (tr_summary report) = card (counterparty_of a ` set (filter R T))" by (simp add: s)
  show "ts_originatedCount (tr_summary report) = length (filter (\<lambda>t. R t \<and> pt_authority (kt_bap t) = a) T)"
    and "ts_beneficiaryCount (tr_summary report) = length (filter (\<lambda>t. R t \<and> pt_authority (kt_bap t) \<noteq> a) T)"
    and "ts_skippedMissingParty (tr_summary report) = length (filter (missing_party (parties d)) T)"
    and "ts_skippedMissingAmount (tr_summary report) = length (filter (missing_amount (parties d) (amounts r)) T)"
    and "ts_totalAmountUsd (tr_summary report) = roundUsd (sum_amounts (tr_entries report))"
    by (simp_all add: s f len empty_report_def)
qed

text \<open>When a report is built.\<close>

lemma report_built_iff:
  assumes "valid s"
  shows "is_ok (buildReport (source s) (lookup d) (resolve r) feedClock clock a opts)
    \<longleftrightarrow> tr_assertBounds opts = Inr () \<and> assertThreshold (threshold_of opts) = Inr ()
      \<and> is_ok (buildAuditFeed (source s) feedClock a (feed_opts opts)) \<and> toISOString clock \<noteq> None"
proof (cases "tr_assertBounds opts = Inr () \<and> assertThreshold (threshold_of opts) = Inr () \<and> tr_assertAuthority a = Inr ()")
  case False
  moreover have "is_ok (buildAuditFeed (source s) feedClock a (feed_opts opts)) \<Longrightarrow> tr_assertAuthority a = Inr ()"
    using feed_built_iff [OF assms, of feedClock a "feed_opts opts"] by (auto simp: tr_assertAuthority_def base58String_def)
  ultimately show ?thesis
    unfolding buildReport_def Let_def threshold_of_def [symmetric]
    by (cases "tr_assertAuthority a"; cases "tr_assertBounds opts"; cases "assertThreshold (threshold_of opts)") auto
next
  case ok: True
  show ?thesis
  proof (cases "buildAuditFeed (source s) feedClock a (feed_opts opts)")
    case (Inl e)
    with ok show ?thesis unfolding buildReport_def Let_def threshold_of_def [symmetric] by (simp add: lift_audit_def)
  next
    case (Inr feed)
    obtain ts where ts: "kyt_only (af_events feed) = map (feed_of a) ts" "\<forall>t\<in>set ts. involves a t \<and> kytTraceEventSchema t"
      by (rule feed_traces [OF assms Inr])
    from ok Inr report_loop_eq [OF party_found amount_found ts(2), where th = "threshold_of opts" and st = empty_report] show ?thesis
      unfolding buildReport_def Let_def threshold_of_def [symmetric] by (auto simp: lift_audit_def ts(1) split: option.splits)
  qed
qed

end

section \<open>The in-memory directory and resolver\<close>

interpretation mem_dir: party_directory party_lookup "\<lambda>store b slot. store b"
  by unfold_locales (simp add: party_lookup_def)

interpretation mem_amt: amount_resolver amount_lookup "\<lambda>store x. store x"
  by unfold_locales (simp add: amount_lookup_def)

interpretation mem_tr: travel_rule_sources in_memory_source im_valid im_traces im_revocations
    party_lookup "\<lambda>store b slot. store b" amount_lookup "\<lambda>store x. store x"
  by unfold_locales

text \<open>From the stored events to the list the source was given.\<close>

lemma window_mset:
  assumes "InMemoryKytEventSource_new ts rs = Inr s"
  shows "mset (filter Q (filter (in_window a opts) (im_traces s))) = mset (filter (\<lambda>t. in_window a opts t \<and> Q t) ts)"
proof -
  have "mset (filter (\<lambda>t. in_window a opts t \<and> Q t) (im_traces s)) = mset (filter (\<lambda>t. in_window a opts t \<and> Q t) ts)"
    using InMemoryKytEventSource_new_ok(2) [OF assms] by (simp add: mset_filter)
  then show ?thesis by (simp add: conj_commute)
qed

lemmas window_length = mset_eq_length [OF window_mset] and window_set = mset_eq_setD [OF window_mset]

text \<open>A settlement is missing a party, missing an amount, exempt, or reportable.\<close>

lemma exempt_iff:
  "kt_stage t = St_confirm \<Longrightarrow> \<not> missing_party P t \<Longrightarrow> \<not> missing_amount P A t \<Longrightarrow> exempt P A th t \<longleftrightarrow> \<not> reportable P A th t"
  by (auto simp: missing_party_def missing_amount_def reportable_def exempt_def split: option.splits)

lemma confirm_cases:
  "length (filter (\<lambda>t. Q t \<and> kt_stage t = St_confirm) ts) = length (filter (\<lambda>t. Q t \<and> reportable P A th t) ts)
     + length (filter (\<lambda>t. Q t \<and> missing_party P t) ts) + length (filter (\<lambda>t. Q t \<and> missing_amount P A t) ts)
     + length (filter (\<lambda>t. Q t \<and> exempt P A th t) ts)"
proof (induction ts)
  case (Cons t ts)
  have "kt_stage t \<noteq> St_confirm \<Longrightarrow> \<not> reportable P A th t \<and> \<not> missing_party P t \<and> \<not> missing_amount P A t \<and> \<not> exempt P A th t"
    "missing_party P t \<or> missing_amount P A t \<Longrightarrow> \<not> exempt P A th t"
    by (auto simp: missing_party_def missing_amount_def reportable_def exempt_def)
  then show ?case
    using Cons.IH report_cases [where P = P and t = t and A = A and th = th] exempt_iff [where P = P and t = t and A = A and th = th]
    by (cases "kt_stage t = St_confirm"; cases "missing_party P t"; cases "missing_amount P A t") auto
qed simp

lemma length_filter_split:
  "length (filter (\<lambda>x. A x \<and> B x) xs) = length (filter (\<lambda>x. A x \<and> B x \<and> C x) xs) + length (filter (\<lambda>x. A x \<and> B x \<and> \<not> C x) xs)"
  by (induction xs) auto

lemma sum_amounts_cents:
  assumes "\<forall>e\<in>set es. num_value (te_amountUsd e) = fl53 (of_int (cents e) / 100)"
  shows "sum_amounts es = foldl (\<lambda>s c. fl53 (s + fl53 (of_int c / 100))) 0 (map cents es)"
proof -
  have "foldl (\<lambda>s e. fl53 (s + num_value (te_amountUsd e))) x es = foldl (\<lambda>s c. fl53 (s + fl53 (of_int c / 100))) x (map cents es)" for x
    using assms by (induction es arbitrary: x) simp_all
  then show ?thesis by (simp add: sum_amounts_def)
qed

lemma sum_no_cents: "\<forall>c\<in>set cs. c = (0 :: int) \<Longrightarrow> foldl (\<lambda>s c. fl53 (s + fl53 (of_int c / 100))) 0 cs = 0"
  by (induction cs) (simp_all add: fl53_def)

lemma foldl_fl53_nonneg: "0 \<le> s \<Longrightarrow> \<forall>c\<in>set cs. (0 :: int) \<le> c \<Longrightarrow> 0 \<le> foldl (\<lambda>s c. fl53 (s + fl53 (of_int c / 100))) s cs"
  by (induction cs arbitrary: s) (simp_all add: fl53_nonneg)

lemma roundUsd_cents:
  fixes cs :: "int list"
  assumes "\<forall>c\<in>set cs. 0 \<le> c" "int (length cs) * sum_list cs \<le> 2 ^ 49"
  shows "roundUsd (foldl (\<lambda>s c. fl53 (s + fl53 (of_int c / 100))) 0 cs) = fl53 (of_int (sum_list cs) / 100)"
proof (cases "sum_list cs = 0")
  case True
  then have "\<forall>c\<in>set cs. c = 0" using assms(1) by (metis sum_list_nonneg_eq_0_iff)
  from sum_no_cents [OF this] True show ?thesis by (simp add: roundUsd_def fl53_def math_round_near)
next
  case False
  have C: "1 \<le> sum_list cs" using False sum_list_nonneg [of cs] assms(1) by fastforce
  then have n: "1 \<le> length cs" by (cases cs) auto
  have "int (length cs) \<le> int (length cs) * sum_list cs" using C by (simp add: mult_le_cancel_left1)
  with assms(2) have "int (length cs) \<le> 2 ^ 49" by linarith
  then have "(of_int (int (length cs)) :: rat) \<le> of_int (2 ^ 49)" by (simp only: of_int_le_iff)
  then have "4 * of_nat (0 + length cs) * (1 / 2 ^ 53) \<le> (1 :: rat)" by simp
  from sum_cents_error [OF assms(1) _ _ _ _ this, of 0 0 "of_int (sum_list cs)"]
  have "\<bar>foldl (\<lambda>s c. fl53 (s + fl53 (of_int c / 100))) 0 cs - of_int (sum_list cs) / 100\<bar>
      \<le> 2 * of_nat (length cs) * (of_int (sum_list cs) / 50 * (1 / 2 ^ 53))" by simp
  then have "math_round (fl53 (foldl (\<lambda>s c. fl53 (s + fl53 (of_int c / 100))) 0 cs * 100)) = sum_list cs"
    using assms n C by (intro round_cents [of _ _ "length cs"] foldl_fl53_nonneg) simp_all
  then show ?thesis by (simp add: roundUsd_def)
qed

lemma demo_report:
  assumes "InMemoryKytEventSource_new [demo_trace St_confirm ''4'' 9, demo_trace St_init ''3'' 6] (Some [demo_revocation]) = Inr s"
  obtains report where "buildReport (in_memory_source s) (party_lookup demo_directory) (amount_lookup demo_amounts) 0 0 ''B'' demo_report_opts = Inr report"
proof -
  have "feed_opts demo_report_opts = demo_opts" by (simp add: feed_opts_def demo_report_opts_def demo_opts_def)
  moreover have "tr_assertBounds demo_report_opts = Inr () \<and> assertThreshold (threshold_of demo_report_opts) = Inr () \<and> toISOString 0 \<noteq> None" by code_simp
  ultimately have "is_ok (buildReport (in_memory_source s) (party_lookup demo_directory) (amount_lookup demo_amounts) 0 0 ''B'' demo_report_opts)"
    unfolding mem_tr.report_built_iff [OF InMemoryKytEventSource_new_ok(1) [OF assms]] using demo_feed [OF assms] by (simp add: is_ok_iff)
  with that show ?thesis by (auto simp: is_ok_iff)
qed

lemma demo_settlement:
  "filter (\<lambda>t. in_window ''B'' demo_report_opts t \<and> reportable (\<lambda>b _. demo_directory b) demo_amounts (threshold_of demo_report_opts) t)
     [demo_trace St_confirm ''4'' 9, demo_trace St_init ''3'' 6] = [demo_trace St_confirm ''4'' 9]"
  "threshold_of demo_report_opts = JInt 3000"
proof -
  show th: "threshold_of demo_report_opts = JInt 3000" by (simp add: threshold_of_def demo_report_opts_def TRAVEL_RULE_DEFAULT_THRESHOLD_USD_def)
  have "in_window ''B'' demo_report_opts (demo_trace St_confirm ''4'' 9)"
    by (simp add: in_window_def involves_def withinBounds_def query_of_def feed_opts_def demo_report_opts_def demo_trace_def demo_party_def)
  moreover have "reportable (\<lambda>b _. demo_directory b) demo_amounts (JInt 3000) (demo_trace St_confirm ''4'' 9)"
    by (simp add: reportable_def originator_of_def beneficiary_of_def demo_directory_def demo_amounts_def demo_ivms_def demo_trace_def demo_party_def)
  moreover have "\<not> reportable (\<lambda>b _. demo_directory b) demo_amounts (JInt 3000) (demo_trace St_init ''3'' 6)"
    by (simp add: reportable_def demo_trace_def)
  ultimately show "filter (\<lambda>t. in_window ''B'' demo_report_opts t \<and> reportable (\<lambda>b _. demo_directory b) demo_amounts (threshold_of demo_report_opts) t)
     [demo_trace St_confirm ''4'' 9, demo_trace St_init ''3'' 6] = [demo_trace St_confirm ''4'' 9]" by (simp add: th)
qed

lemma demo_entries:
  assumes s: "InMemoryKytEventSource_new [demo_trace St_confirm ''4'' 9, demo_trace St_init ''3'' 6] (Some [demo_revocation]) = Inr s"
    and r: "buildReport (in_memory_source s) (party_lookup demo_directory) (amount_lookup demo_amounts) 0 0 ''B'' demo_report_opts = Inr report"
  obtains e where "tr_entries report = [e]" "te_amountUsd e = JInt 5000"
proof -
  let ?e = "entry_of (\<lambda>b _. demo_directory b) demo_amounts (threshold_of demo_report_opts)"
  have "mset (tr_entries report) = mset (map ?e [demo_trace St_confirm ''4'' 9])"
    unfolding mem_tr.report_contents(1) [OF InMemoryKytEventSource_new_ok(1) [OF s] r] mset_map window_mset [OF s] demo_settlement(1) ..
  then have "tr_entries report = [?e (demo_trace St_confirm ''4'' 9)]" by simp
  moreover have "te_amountUsd (?e (demo_trace St_confirm ''4'' 9)) = JInt 5000"
    by (simp add: entry_of_def demo_amounts_def demo_trace_def Let_def)
  ultimately show ?thesis by (rule that)
qed

section \<open>Properties\<close>

text \<open>C12. A travel-rule report is complete and exact, whichever side is audited. Over an in-memory source, directory and resolver,
  the entries of a report are one for each stored trace within the bounds in which the authority is either party, that is a
  confirmation, whose two parties and amount are on record, whose parties are of different jurisdictions and whose amount
  is strictly above the threshold; nothing else. (So an amount of 0 is never reported, not even with a threshold of 0, although the
  comment of \<open>meetsThreshold\<close> says that this threshold admits every transaction; see \<open>zero_threshold_excludes_zero\<close>.) Each entry names the BAP of the trace as originator and its BPP as
  beneficiary, with their own credential pointers, so that it is the same entry in the report of either party. The
  entries are sorted by slot and signature.\<close>

theorem travel_rule_exact:
  assumes "InMemoryKytEventSource_new ts rs = Inr s"
    and "buildReport (in_memory_source s) (party_lookup D) (amount_lookup M) feedClock clock a opts = Inr report"
  shows "mset (tr_entries report) = mset (map (entry_of (\<lambda>b _. D b) M (threshold_of opts))
      (filter (\<lambda>t. in_window a opts t \<and> reportable (\<lambda>b _. D b) M (threshold_of opts) t) ts))
    \<and> sorted (map entry_key (tr_entries report))"
  using mem_tr.report_contents(1,2) [OF InMemoryKytEventSource_new_ok(1) [OF assms(1)] assms(2)] window_mset [OF assms(1)]
  by simp

theorem travel_rule_exact_witness:
  "\<exists>s report. InMemoryKytEventSource_new [demo_trace St_confirm ''4'' 9, demo_trace St_init ''3'' 6] (Some [demo_revocation]) = Inr s
     \<and> buildReport (in_memory_source s) (party_lookup demo_directory) (amount_lookup demo_amounts) 0 0 ''B'' demo_report_opts = Inr report
     \<and> length (tr_entries report) = 1 \<and> sorted (map entry_key (tr_entries report))"
proof -
  obtain s where s: "InMemoryKytEventSource_new [demo_trace St_confirm ''4'' 9, demo_trace St_init ''3'' 6] (Some [demo_revocation]) = Inr s"
    using demo_source(1) by blast
  obtain report where r: "buildReport (in_memory_source s) (party_lookup demo_directory) (amount_lookup demo_amounts) 0 0 ''B'' demo_report_opts = Inr report" by (rule demo_report [OF s])
  obtain e where "tr_entries report = [e]" by (rule demo_entries [OF s r])
  then have "length (tr_entries report) = 1" by simp
  moreover have "sorted (map entry_key (tr_entries report))" using travel_rule_exact [OF s r] by (rule conjunct2)
  ultimately show ?thesis using s r by blast
qed

text \<open>Every settlement is accounted for. The confirmations of the authority within the bounds are the entries of the report, those
  skipped for a missing party, those skipped for a missing amount, and those that are domestic or not above the threshold;
  each entry is counted as originated or as received, by whether the authority is its BAP; and the number of
  distinct counterparties is that of the entries' traces.\<close>

theorem travel_rule_accounts:
  assumes "InMemoryKytEventSource_new ts rs = Inr s"
    and "buildReport (in_memory_source s) (party_lookup D) (amount_lookup M) feedClock clock a opts = Inr report"
  shows "length (filter (\<lambda>t. in_window a opts t \<and> kt_stage t = St_confirm) ts)
      = ts_totalEntries (tr_summary report) + ts_skippedMissingParty (tr_summary report) + ts_skippedMissingAmount (tr_summary report)
        + length (filter (\<lambda>t. in_window a opts t \<and> exempt (\<lambda>b _. D b) M (threshold_of opts) t) ts)
    \<and> ts_totalEntries (tr_summary report) = length (tr_entries report)
    \<and> ts_totalEntries (tr_summary report) = ts_originatedCount (tr_summary report) + ts_beneficiaryCount (tr_summary report)
    \<and> ts_distinctCounterparties (tr_summary report)
      = card (counterparty_of a ` {t \<in> set ts. in_window a opts t \<and> reportable (\<lambda>b _. D b) M (threshold_of opts) t})"
proof -
  note c = mem_tr.report_contents [OF InMemoryKytEventSource_new_ok(1) [OF assms(1)] assms(2)]
  note l = window_length [OF assms(1), where a = a and opts = opts]
  let ?R = "reportable (\<lambda>b _. D b) M (threshold_of opts)"
  have "length (filter (\<lambda>t. in_window a opts t \<and> ?R t) ts) = length (filter (\<lambda>t. in_window a opts t \<and> ?R t \<and> pt_authority (kt_bap t) = a) ts)
      + length (filter (\<lambda>t. in_window a opts t \<and> ?R t \<and> pt_authority (kt_bap t) \<noteq> a) ts)"
    by (rule length_filter_split)
  moreover have "length (tr_entries report) = ts_totalEntries (tr_summary report)" using mset_eq_length [OF c(1)] c(3) by simp
  moreover have "set (filter ?R (filter (in_window a opts) (im_traces s))) = {t \<in> set ts. in_window a opts t \<and> ?R t}"
    using window_set [OF assms(1)] by auto
  ultimately show ?thesis
    using c(3-8) confirm_cases [of "in_window a opts" ts "\<lambda>b _. D b" M "threshold_of opts"]
    by (simp only: l)
qed

theorem travel_rule_accounts_witness:
  "\<exists>s report. InMemoryKytEventSource_new [demo_trace St_confirm ''4'' 9, demo_trace St_init ''3'' 6] (Some [demo_revocation]) = Inr s
     \<and> buildReport (in_memory_source s) (party_lookup demo_directory) (amount_lookup demo_amounts) 0 0 ''B'' demo_report_opts = Inr report
     \<and> ts_totalEntries (tr_summary report) = ts_originatedCount (tr_summary report) + ts_beneficiaryCount (tr_summary report)"
proof -
  obtain s where s: "InMemoryKytEventSource_new [demo_trace St_confirm ''4'' 9, demo_trace St_init ''3'' 6] (Some [demo_revocation]) = Inr s"
    using demo_source(1) by blast
  obtain report where r: "buildReport (in_memory_source s) (party_lookup demo_directory) (amount_lookup demo_amounts) 0 0 ''B'' demo_report_opts = Inr report" by (rule demo_report [OF s])
  from travel_rule_accounts [OF s r] s r show ?thesis by metis
qed

text \<open>C35. The total of a report is exact to the cent. When every amount is the double nearest to a whole number of cents and the
  number of entries times the total in cents is at most \<open>2\<^sup>4\<^sup>9\<close>, the total of the report, accumulated in doubles and then rounded, is
  the double nearest to the true total.\<close>

theorem travel_rule_total_exact:
  assumes "buildReport (in_memory_source s) (party_lookup D) (amount_lookup M) feedClock clock a opts = Inr report" "im_valid s"
    and "\<forall>e\<in>set (tr_entries report). 0 \<le> cents e \<and> num_value (te_amountUsd e) = fl53 (of_int (cents e) / 100)"
    and "int (length (tr_entries report)) * sum_list (map cents (tr_entries report)) \<le> 2 ^ 49"
  shows "ts_totalAmountUsd (tr_summary report) = fl53 (of_int (sum_list (map cents (tr_entries report))) / 100)"
  using mem_tr.report_contents(9) [OF assms(2,1)] assms(3,4)
    roundUsd_cents [of "map cents (tr_entries report)"] sum_amounts_cents [of "tr_entries report" cents]
  by simp

theorem travel_rule_total_exact_witness:
  "\<exists>s report. InMemoryKytEventSource_new [demo_trace St_confirm ''4'' 9, demo_trace St_init ''3'' 6] (Some [demo_revocation]) = Inr s
     \<and> buildReport (in_memory_source s) (party_lookup demo_directory) (amount_lookup demo_amounts) 0 0 ''B'' demo_report_opts = Inr report
     \<and> ts_totalAmountUsd (tr_summary report) = 5000"
proof -
  obtain s where s: "InMemoryKytEventSource_new [demo_trace St_confirm ''4'' 9, demo_trace St_init ''3'' 6] (Some [demo_revocation]) = Inr s"
    using demo_source(1) by blast
  obtain report where r: "buildReport (in_memory_source s) (party_lookup demo_directory) (amount_lookup demo_amounts) 0 0 ''B'' demo_report_opts = Inr report" by (rule demo_report [OF s])
  obtain e where e: "tr_entries report = [e]" "te_amountUsd e = JInt 5000" by (rule demo_entries [OF s r])
  have "fl53 (of_int 5000) = of_int 5000" by (rule fl53_int) simp
  then have f: "fl53 (of_int 500000 / 100) = (5000 :: rat)" by simp
  from travel_rule_total_exact [OF r InMemoryKytEventSource_new_ok(1) [OF s], of "\<lambda>_. 500000"] e f
  have "ts_totalAmountUsd (tr_summary report) = 5000" by simp
  with s r show ?thesis by blast
qed

section \<open>Findings\<close>

text \<open>The comment of \<open>meetsThreshold\<close> says that a threshold of 0 admits every transaction. The schema of an entry admits an amount of
  0; a cross-border confirmation of it is not eligible, and no other amount that the schema admits is held back.\<close>

lemma zero_threshold_excludes_zero:
  assumes "fk_stage e = St_confirm" "isCrossJurisdiction p b" "0 \<le> n"
  shows "fst (shouldReport e p b (JInt n) (JInt 0)) \<longleftrightarrow> n \<noteq> 0"
  using assms by (auto simp: shouldReport_def meetsThreshold_def)

end
