(* ===== verification/Tx_Codec.thy ===== *)
theory Tx_Codec
  imports Jcs Base58 "HOL-Library.Word"
begin

unbundle bit_operations_syntax

text \<open>
  The wire format of transactions, \<^verbatim>\<open>src/wasm/index.ts\<close> (serialisation helpers, message and transaction serialisation,
  \<^verbatim>\<open>signTransaction\<close>, \<^verbatim>\<open>decodeTransaction\<close>, \<^verbatim>\<open>decodeUth\<close>).

  A \<open>Uint8Array\<close> is a list of 8-bit words; a buffer of numbers that becomes one is written directly as that list. Integers that
  enter bitwise operators go through 32-bit words, as the language prescribes. The packages \<open>bs58\<close> and \<open>@noble/ed25519\<close> are
  parameters: \<open>bs58_decode\<close> (\<open>None\<close> when it throws), \<open>bs58_encode\<close> and \<open>ed_sign\<close>. The main results: a transaction decodes to what
  was serialised, and signing keeps the message.
\<close>

type_synonym bytes = "8 word list"

datatype tx_error = Bs58Error | InvalidPubkeyLength nat | Expected32Bytes nat | SignatureLength nat | OffsetOutOfRange
  | ContractAddressLength | InputHashLength nat | SigningFailed

section \<open>Writing\<close>

text \<open>A number as \<open>ToUint32\<close> sees it.\<close>

definition toUint32 :: "int \<Rightarrow> 32 word" where
  "toUint32 v = word_of_int v"

definition writeU8 :: "int \<Rightarrow> bytes" where
  "writeU8 v = [ucast (toUint32 v AND 0xff)]"

definition writeU32LE :: "int \<Rightarrow> bytes" where
  "writeU32LE v = (let w = toUint32 v in
     [ucast (w AND 0xff), ucast (drop_bit 8 w AND 0xff), ucast (drop_bit 16 w AND 0xff), ucast (drop_bit 24 w AND 0xff)])"

definition writeU64LE :: "int \<Rightarrow> bytes" where
  "writeU64LE v = (let lo = v AND 0xffffffff; hi = drop_bit 32 v AND 0xffffffff in writeU32LE lo @ writeU32LE hi)"

definition writeVec :: "bytes \<Rightarrow> bytes" where
  "writeVec bs = writeU32LE (int (length bs)) @ bs"

definition writeFixedBytes32 :: "bytes \<Rightarrow> (tx_error, bytes) result" where
  "writeFixedBytes32 bs = (if length bs \<noteq> 32 then Inl (Expected32Bytes (length bs)) else Inr bs)"

text \<open>\<open>new TextEncoder().encode(s)\<close> and \<open>Buffer.from(s, "hex")\<close>.\<close>

definition textEncode :: "string \<Rightarrow> bytes" where
  "textEncode s = map of_nat (utf8 s)"

definition bufferFromHex :: "string \<Rightarrow> bytes" where
  "bufferFromHex s = map of_nat (buffer_from_hex s)"

definition writeString :: "string \<Rightarrow> bytes" where
  "writeString s = (let bs = textEncode s in writeU32LE (int (length bs)) @ bs)"

section \<open>Keys\<close>

text \<open>Shorter keys are padded on the left; \<open>set\<close> with a negative offset throws.\<close>

definition pad32 :: "bytes \<Rightarrow> bytes" where
  "pad32 bs = replicate (32 - length bs) 0 @ bs"

definition pubkeyBytes :: "(string \<Rightarrow> bytes option) \<Rightarrow> string \<Rightarrow> (tx_error, bytes) result" where
  "pubkeyBytes bs58_decode b58 = (case bs58_decode b58 of None \<Rightarrow> Inl Bs58Error
     | Some decoded \<Rightarrow> if length decoded = 32 then Inr decoded
       else if length decoded > 32 then Inl (InvalidPubkeyLength (length decoded))
       else Inr (pad32 decoded))"

definition blockhashBytes :: "(string \<Rightarrow> bytes option) \<Rightarrow> string \<Rightarrow> (tx_error, bytes) result" where
  "blockhashBytes bs58_decode b58 = (case bs58_decode b58 of None \<Rightarrow> Inl Bs58Error
     | Some decoded \<Rightarrow> if length decoded = 32 then Inr decoded
       else if length decoded > 32 then Inl OffsetOutOfRange
       else Inr (pad32 decoded))"

section \<open>Messages and transactions\<close>

record CompiledInstruction =
  ci_programIdIndex :: int
  ci_accounts :: bytes
  ci_data :: bytes

record Message =
  mg_numRequiredSignatures :: nat
  mg_numReadonlySigned :: nat
  mg_numReadonlyUnsigned :: nat
  mg_accountKeys :: "bytes list"
  mg_recentBlockhash :: bytes
  mg_instructions :: "CompiledInstruction list"

fun writeKeys :: "bytes list \<Rightarrow> (tx_error, bytes) result" where
  "writeKeys [] = Inr []"
| "writeKeys (k # ks) = bind_result (writeFixedBytes32 k) (\<lambda>b. bind_result (writeKeys ks) (\<lambda>bs. Inr (b @ bs)))"

definition writeInstruction :: "CompiledInstruction \<Rightarrow> bytes" where
  "writeInstruction ix = writeU8 (ci_programIdIndex ix) @ writeVec (ci_accounts ix) @ writeVec (ci_data ix)"

definition serializeMessage :: "Message \<Rightarrow> (tx_error, bytes) result" where
  "serializeMessage msg =
     bind_result (writeKeys (mg_accountKeys msg)) (\<lambda>keys.
     bind_result (writeFixedBytes32 (mg_recentBlockhash msg)) (\<lambda>blockhash.
     Inr (writeU8 (int (mg_numRequiredSignatures msg)) @ writeU8 (int (mg_numReadonlySigned msg)) @ writeU8 (int (mg_numReadonlyUnsigned msg))
       @ writeU32LE (int (length (mg_accountKeys msg))) @ keys @ blockhash
       @ writeU32LE (int (length (mg_instructions msg))) @ concat (map writeInstruction (mg_instructions msg)))))"

fun writeSignatures :: "bytes list \<Rightarrow> (tx_error, bytes) result" where
  "writeSignatures [] = Inr []"
| "writeSignatures (s # ss) = (if length s \<noteq> 64 then Inl (SignatureLength (length s))
     else bind_result (writeSignatures ss) (\<lambda>bs. Inr (s @ bs)))"

definition serializeTransaction :: "Message \<Rightarrow> bytes list \<Rightarrow> (tx_error, bytes) result" where
  "serializeTransaction msg signatures =
     bind_result (writeSignatures signatures) (\<lambda>sigs.
     bind_result (serializeMessage msg) (\<lambda>m.
     Inr (writeU32LE (int (length signatures)) @ sigs @ m)))"

definition unsignedTransaction :: "Message \<Rightarrow> (tx_error, bytes) result" where
  "unsignedTransaction msg = serializeTransaction msg (replicate (mg_numRequiredSignatures msg) (replicate 64 0))"

definition buildMessage :: "bytes list \<Rightarrow> bytes \<Rightarrow> CompiledInstruction list \<Rightarrow> nat \<Rightarrow> nat \<Rightarrow> nat \<Rightarrow> Message" where
  "buildMessage accountKeys recentBlockhash instructions numRequiredSignatures numReadonlySigned numReadonlyUnsigned =
     \<lparr>mg_numRequiredSignatures = numRequiredSignatures, mg_numReadonlySigned = numReadonlySigned,
      mg_numReadonlyUnsigned = numReadonlyUnsigned, mg_accountKeys = accountKeys, mg_recentBlockhash = recentBlockhash,
      mg_instructions = instructions\<rparr>"

section \<open>Reading\<close>

text \<open>The reader is the bytes that are left. Beyond the end an element is \<open>undefined\<close>, which the bitwise operators read as
  zero and \<open>slice\<close> as the end.\<close>

definition readU8 :: "bytes \<Rightarrow> 8 word option \<times> bytes" where
  "readU8 bs = (case bs of [] \<Rightarrow> (None, []) | b # r \<Rightarrow> (Some b, r))"

definition byte_at :: "bytes \<Rightarrow> nat \<Rightarrow> 32 word" where
  "byte_at bs i = (if i < length bs then ucast (bs ! i) else 0)"

definition readU32LE :: "bytes \<Rightarrow> nat \<times> bytes" where
  "readU32LE bs = (unat (byte_at bs 0 OR push_bit 8 (byte_at bs 1) OR push_bit 16 (byte_at bs 2) OR push_bit 24 (byte_at bs 3)), drop 4 bs)"

definition readBytes :: "nat \<Rightarrow> bytes \<Rightarrow> bytes \<times> bytes" where
  "readBytes n bs = (take n bs, drop n bs)"

definition readVec :: "bytes \<Rightarrow> bytes \<times> bytes" where
  "readVec bs = (let (len, r) = readU32LE bs in readBytes len r)"

text \<open>\<open>Buffer.from(bytes).toString("hex")\<close>.\<close>

definition toHex :: "bytes \<Rightarrow> string" where
  "toHex bs = concat (map (\<lambda>b. [hex_digit (unat b div 16), hex_digit (unat b mod 16)]) bs)"

record DecodedInstruction =
  di_programIdIndex :: "8 word option"
  di_accounts :: bytes
  di_data :: string

record DecodedTransaction =
  dt_signatures :: "string list"
  dt_header :: "8 word option \<times> 8 word option \<times> 8 word option"
  dt_accountKeys :: "string list"
  dt_recentBlockhash :: string
  dt_instructions :: "DecodedInstruction list"

fun read_signatures :: "nat \<Rightarrow> bytes \<Rightarrow> string list \<times> bytes" where
  "read_signatures 0 bs = ([], bs)"
| "read_signatures (Suc n) bs = (let (s, r) = readBytes 64 bs; (ss, r') = read_signatures n r in (toHex s # ss, r'))"

fun read_keys :: "(bytes \<Rightarrow> string) \<Rightarrow> nat \<Rightarrow> bytes \<Rightarrow> string list \<times> bytes" where
  "read_keys bs58_encode 0 bs = ([], bs)"
| "read_keys bs58_encode (Suc n) bs = (let (k, r) = readBytes 32 bs; (ks, r') = read_keys bs58_encode n r in (bs58_encode k # ks, r'))"

fun read_instructions :: "nat \<Rightarrow> bytes \<Rightarrow> DecodedInstruction list \<times> bytes" where
  "read_instructions 0 bs = ([], bs)"
| "read_instructions (Suc n) bs = (let (p, r) = readU8 bs; (as, r1) = readVec r; (d, r2) = readVec r1; (is, r') = read_instructions n r2
     in (\<lparr>di_programIdIndex = p, di_accounts = as, di_data = toHex d\<rparr> # is, r'))"

definition decodeTransaction :: "(bytes \<Rightarrow> string) \<Rightarrow> bytes \<Rightarrow> DecodedTransaction" where
  "decodeTransaction bs58_encode txBytes = (
     let (sigCount, r) = readU32LE txBytes; (signatures, r) = read_signatures sigCount r;
       (nrs, r) = readU8 r; (nros, r) = readU8 r; (nrou, r) = readU8 r;
       (keyCount, r) = readU32LE r; (accountKeys, r) = read_keys bs58_encode keyCount r;
       (bh, r) = readBytes 32 r;
       (ixCount, r) = readU32LE r; (instructions, r) = read_instructions ixCount r
     in \<lparr>dt_signatures = signatures, dt_header = (nrs, nros, nrou), dt_accountKeys = accountKeys,
         dt_recentBlockhash = bs58_encode bh, dt_instructions = instructions\<rparr>)"

section \<open>Signing\<close>

text \<open>\<open>getUint32\<close> throws on fewer than four bytes.\<close>

definition signTransaction :: "(bytes \<Rightarrow> bytes \<Rightarrow> bytes option) \<Rightarrow> bytes \<Rightarrow> string \<Rightarrow> (tx_error, bytes) result" where
  "signTransaction ed_sign txBytes secretKeyHex = (let secretKey = bufferFromHex secretKeyHex
     in if length txBytes < 4 then Inl OffsetOutOfRange
     else let sigCount = fst (readU32LE txBytes); messageBytes = drop (4 + sigCount * 64) txBytes
     in case ed_sign messageBytes secretKey of None \<Rightarrow> Inl SigningFailed
        | Some signature \<Rightarrow> Inr (writeU32LE 1 @ signature @ messageBytes))"

section \<open>Token headers\<close>

record UniversalTokenHeader =
  uth_version :: "8 word"
  uth_vmOrigin :: "8 word"
  uth_mint :: string
  uth_owner :: string
  uth_amount :: int
  uth_decimals :: "8 word"
  uth_frozen :: bool

definition decodeUth :: "bytes \<Rightarrow> UniversalTokenHeader option" where
  "decodeUth data = (if length data < 76 then None
     else let amountLo = fst (readU32LE (drop 66 data)); amountHi = fst (readU32LE (drop 70 data))
     in Some \<lparr>uth_version = data ! 0, uth_vmOrigin = data ! 1, uth_mint = toHex (take 32 (drop 2 data)),
          uth_owner = toHex (take 32 (drop 34 data)), uth_amount = int amountHi * 0x100000000 + int amountLo,
          uth_decimals = data ! 74, uth_frozen = (data ! 75 \<noteq> 0)\<rparr>)"

section \<open>Specification\<close>

text \<open>What decoding should give back.\<close>

definition decoded_instruction :: "CompiledInstruction \<Rightarrow> DecodedInstruction" where
  "decoded_instruction ix = \<lparr>di_programIdIndex = Some (word_of_int (ci_programIdIndex ix)), di_accounts = ci_accounts ix, di_data = toHex (ci_data ix)\<rparr>"

definition decoded_of :: "(bytes \<Rightarrow> string) \<Rightarrow> Message \<Rightarrow> bytes list \<Rightarrow> DecodedTransaction" where
  "decoded_of bs58_encode msg sigs = \<lparr>dt_signatures = map toHex sigs,
     dt_header = (Some (of_nat (mg_numRequiredSignatures msg)), Some (of_nat (mg_numReadonlySigned msg)), Some (of_nat (mg_numReadonlyUnsigned msg))),
     dt_accountKeys = map bs58_encode (mg_accountKeys msg), dt_recentBlockhash = bs58_encode (mg_recentBlockhash msg),
     dt_instructions = map decoded_instruction (mg_instructions msg)\<rparr>"

text \<open>Every count and length fits the four bytes it is written in.\<close>

definition fits :: "'a list \<Rightarrow> bool" where
  "fits xs \<longleftrightarrow> length xs < 2 ^ 32"

definition sized_msg :: "Message \<Rightarrow> bool" where
  "sized_msg msg \<longleftrightarrow> fits (mg_accountKeys msg) \<and> fits (mg_instructions msg)
     \<and> list_all (\<lambda>ix. fits (ci_accounts ix) \<and> fits (ci_data ix)) (mg_instructions msg)"

section \<open>Lemmas\<close>

text \<open>Four bytes hold a 32-bit word.\<close>

lemma low_byte: "(0xff :: 32 word) = mask 8"
  by (simp add: mask_eq_exp_minus_1)

lemma word_split_join:
  fixes w :: "32 word"
  shows "ucast (ucast (w AND mask 8) :: 8 word) OR push_bit 8 (ucast (ucast (drop_bit 8 w AND mask 8) :: 8 word))
    OR push_bit 16 (ucast (ucast (drop_bit 16 w AND mask 8) :: 8 word)) OR push_bit 24 (ucast (ucast (drop_bit 24 w AND mask 8) :: 8 word)) = w"
    (is "?l = w")
proof (rule bit_word_eqI)
  fix n assume "n < LENGTH(32)"
  then consider "n < 8" | "8 \<le> n" "n < 16" | "16 \<le> n" "n < 24" | "24 \<le> n" "n < 32" by fastforce
  then show "bit ?l n = bit w n" by cases (auto simp: bit_simps)
qed

lemma readU32LE_write: "readU32LE (writeU32LE v @ r) = (nat (v mod 2 ^ 32), r)"
proof -
  have "unat (toUint32 v) = nat (v mod 2 ^ 32)"
    by (simp add: toUint32_def unsigned_of_int take_bit_eq_mod)
  then show ?thesis
    by (simp add: readU32LE_def writeU32LE_def byte_at_def Let_def low_byte word_split_join)
qed

lemma readU8_write [simp]: "readU8 (writeU8 v @ r) = (Some (word_of_int v), r)"
proof -
  have "ucast (toUint32 v AND mask 8) = (word_of_int v :: 8 word)"
    unfolding toUint32_def by (rule bit_word_eqI) (simp add: bit_simps)
  then show ?thesis by (simp add: readU8_def writeU8_def low_byte)
qed

lemma read_length [simp]: "fits xs \<Longrightarrow> readU32LE (writeU32LE (int (length xs)) @ r) = (length xs, r)"
  by (simp add: fits_def readU32LE_write)

lemma readVec_write [simp]: "fits bs \<Longrightarrow> readVec (writeVec bs @ r) = (bs, r)"
  by (simp add: readVec_def writeVec_def readBytes_def)

lemma read_signatures_write:
  "writeSignatures sigs = Inr bs \<Longrightarrow> read_signatures (length sigs) (bs @ r) = (map toHex sigs, r)"
proof (induction sigs arbitrary: bs)
  case (Cons s ss)
  then obtain bs' where "length s = 64" "writeSignatures ss = Inr bs'" "bs = s @ bs'"
    by (auto simp: bind_result_def split: if_splits sum.splits)
  with Cons.IH [of bs'] show ?case by (simp add: readBytes_def)
qed simp

lemma read_keys_write:
  "writeKeys keys = Inr bs \<Longrightarrow> read_keys f (length keys) (bs @ r) = (map f keys, r)"
proof (induction keys arbitrary: bs)
  case (Cons k ks)
  then obtain bs' where "length k = 32" "writeKeys ks = Inr bs'" "bs = k @ bs'"
    by (auto simp: bind_result_def writeFixedBytes32_def split: if_splits sum.splits)
  with Cons.IH [of bs'] show ?case by (simp add: readBytes_def)
qed simp

lemma read_instructions_write:
  "list_all (\<lambda>ix. fits (ci_accounts ix) \<and> fits (ci_data ix)) is
   \<Longrightarrow> read_instructions (length is) (concat (map writeInstruction is) @ r) = (map decoded_instruction is, r)"
  by (induction "is") (simp_all add: writeInstruction_def decoded_instruction_def)

lemma writeKeys_ok: "(\<exists>bs. writeKeys ks = Inr bs) \<longleftrightarrow> list_all (\<lambda>k. length k = 32) ks"
  by (induction ks) (auto simp: bind_result_def writeFixedBytes32_def split: sum.splits)

lemma writeSignatures_ok: "(\<exists>bs. writeSignatures ks = Inr bs) \<longleftrightarrow> list_all (\<lambda>k. length k = 64) ks"
  by (induction ks) (auto simp: bind_result_def split: sum.splits)

lemma writeSignatures_length: "writeSignatures ss = Inr bs \<Longrightarrow> length bs = 64 * length ss"
  by (induction ss arbitrary: bs) (auto simp: bind_result_def split: sum.splits if_splits)

lemma length_writeU32LE [simp]: "length (writeU32LE v) = 4"
  by (simp add: writeU32LE_def Let_def)

lemma length_writeU64LE [simp]: "length (writeU64LE v) = 8"
  by (simp add: writeU64LE_def Let_def)

lemma length_writeU8 [simp]: "length (writeU8 v) = 1"
  by (simp add: writeU8_def)

text \<open>The message of a transaction, read back.\<close>

lemma decode_serialized:
  assumes "serializeTransaction msg sigs = Inr bs" "sized_msg msg" "fits sigs"
  shows "decodeTransaction f bs = decoded_of f msg sigs"
proof -
  from assms(1) obtain ss ks where ss: "writeSignatures sigs = Inr ss" and ks: "writeKeys (mg_accountKeys msg) = Inr ks"
    and bh: "length (mg_recentBlockhash msg) = 32"
    and bs: "bs = writeU32LE (int (length sigs)) @ ss @ writeU8 (int (mg_numRequiredSignatures msg)) @ writeU8 (int (mg_numReadonlySigned msg))
       @ writeU8 (int (mg_numReadonlyUnsigned msg)) @ writeU32LE (int (length (mg_accountKeys msg))) @ ks @ mg_recentBlockhash msg
       @ writeU32LE (int (length (mg_instructions msg))) @ concat (map writeInstruction (mg_instructions msg))"
    by (auto simp: serializeTransaction_def serializeMessage_def bind_result_def writeFixedBytes32_def split: sum.splits if_splits)
  show ?thesis
    unfolding bs using assms(2,3) bh
    by (simp add: decodeTransaction_def decoded_of_def sized_msg_def read_signatures_write [OF ss] read_keys_write [OF ks]
        read_instructions_write [of _ "[]", simplified] readBytes_def)
qed

lemma serialize_ok:
  "(\<exists>bs. serializeTransaction msg sigs = Inr bs) \<longleftrightarrow> list_all (\<lambda>s. length s = 64) sigs \<and> list_all (\<lambda>k. length k = 32) (mg_accountKeys msg)
     \<and> length (mg_recentBlockhash msg) = 32"
  unfolding writeKeys_ok [symmetric] writeSignatures_ok [symmetric]
  by (auto simp: serializeTransaction_def serializeMessage_def bind_result_def writeFixedBytes32_def split: sum.splits)

lemma u64_value: "int (nat ((v AND 0xffffffff) mod 2 ^ 32)) = v mod 2 ^ 32" "int (nat ((drop_bit 32 v AND 0xffffffff) mod 2 ^ 32)) = (v div 2 ^ 32) mod 2 ^ 32"
  for v :: int
proof -
  have m: "(0xffffffff :: int) = mask 32" by (simp add: mask_eq_exp_minus_1)
  show "int (nat ((v AND 0xffffffff) mod 2 ^ 32)) = v mod 2 ^ 32"
    unfolding m take_bit_eq_mask [symmetric] take_bit_eq_mod by simp
  show "int (nat ((drop_bit 32 v AND 0xffffffff) mod 2 ^ 32)) = (v div 2 ^ 32) mod 2 ^ 32"
    unfolding m take_bit_eq_mask [symmetric] take_bit_eq_mod drop_bit_eq_div by simp
qed

lemma mod_split_64: "(v div 2 ^ 32) mod 2 ^ 32 * 0x100000000 + v mod 2 ^ 32 = v mod 2 ^ 64" for v :: int
  using zmod_zmult2_eq [of "2 ^ 32" v "2 ^ 32"] by simp

section \<open>Properties\<close>

text \<open>C6. A transaction decodes to what was serialised. A message and signatures whose counts and lengths fit in four bytes are
  serialised exactly when every signature has 64 bytes and every key and the blockhash 32; and then \<open>decodeTransaction\<close> returns
  the signatures, header, keys, blockhash and instructions that went in, numbers of the header and program
  indices modulo 256.\<close>

theorem tx_roundtrip:
  assumes "sized_msg msg" "fits sigs"
  shows "case serializeTransaction msg sigs of
      Inr bs \<Rightarrow> decodeTransaction bs58_encode bs = decoded_of bs58_encode msg sigs
    | Inl e \<Rightarrow> \<not> (list_all (\<lambda>s. length s = 64) sigs \<and> list_all (\<lambda>k. length k = 32) (mg_accountKeys msg) \<and> length (mg_recentBlockhash msg) = 32)"
  using decode_serialized [OF _ assms] serialize_ok [of msg sigs] by (cases "serializeTransaction msg sigs") auto

theorem tx_roundtrip_witness:
  "case serializeTransaction (buildMessage [replicate 32 1, replicate 32 0] (replicate 32 7) [\<lparr>ci_programIdIndex = 1, ci_accounts = [0], ci_data = [42]\<rparr>] 1 0 1)
      [replicate 64 0] of
      Inr bs \<Rightarrow> decodeTransaction toHex bs = decoded_of toHex
        (buildMessage [replicate 32 1, replicate 32 0] (replicate 32 7) [\<lparr>ci_programIdIndex = 1, ci_accounts = [0], ci_data = [42]\<rparr>] 1 0 1) [replicate 64 0]
    | Inl e \<Rightarrow> False"
  using tx_roundtrip [of "buildMessage [replicate 32 1, replicate 32 0] (replicate 32 7) [\<lparr>ci_programIdIndex = 1, ci_accounts = [0], ci_data = [42]\<rparr>] 1 0 1"
      "[replicate 64 0]" toHex]
  by (simp add: sized_msg_def fits_def buildMessage_def split: sum.splits)

text \<open>Signing keeps the message. For a transaction built from a message, whatever number of empty signatures it carries, \<open>signTransaction\<close> signs the
  bytes of that message and returns the same message with the one signature: the result decodes to the message
  with it. (So a message that requires two signatures leaves with one.)\<close>

theorem sign_keeps_message:
  assumes "unsignedTransaction msg = Inr tx" "mg_numRequiredSignatures msg < 2 ^ 32" "sized_msg msg"
    and "serializeMessage msg = Inr m" "ed_sign m (bufferFromHex secretKeyHex) = Some signature" "length signature = 64"
  shows "\<exists>signed. signTransaction ed_sign tx secretKeyHex = Inr signed \<and> serializeTransaction msg [signature] = Inr signed
    \<and> decodeTransaction bs58_encode signed = decoded_of bs58_encode msg [signature]"
proof -
  let ?n = "mg_numRequiredSignatures msg"
  from assms(1) obtain ss where ss: "writeSignatures (replicate ?n (replicate 64 0)) = Inr ss"
    and tx: "tx = writeU32LE (int ?n) @ ss @ m"
    using assms(4) by (auto simp: unsignedTransaction_def serializeTransaction_def bind_result_def split: sum.splits)
  have "length ss = 64 * ?n" using writeSignatures_length [OF ss] by simp
  moreover have "fst (readU32LE tx) = ?n" unfolding tx readU32LE_write using assms(2) by (simp add: nat_mod_as_int)
  ultimately have "drop (4 + fst (readU32LE tx) * 64) tx = m" by (simp add: tx)
  then have "signTransaction ed_sign tx secretKeyHex = Inr (writeU32LE 1 @ signature @ m)"
    using assms(5) by (simp add: signTransaction_def Let_def tx)
  moreover have ser: "serializeTransaction msg [signature] = Inr (writeU32LE 1 @ signature @ m)"
    using assms(4,6) by (simp add: serializeTransaction_def)
  moreover have "decodeTransaction bs58_encode (writeU32LE 1 @ signature @ m) = decoded_of bs58_encode msg [signature]"
    by (rule decode_serialized [OF ser assms(3)]) (simp add: fits_def)
  ultimately show ?thesis by blast
qed

theorem sign_keeps_message_witness:
  "\<exists>tx signed. unsignedTransaction (buildMessage [replicate 32 1] (replicate 32 7) [] 2 0 0) = Inr tx
    \<and> signTransaction (\<lambda>m k. Some (replicate 64 9)) tx ''00'' = Inr signed
    \<and> decodeTransaction toHex signed = decoded_of toHex (buildMessage [replicate 32 1] (replicate 32 7) [] 2 0 0) [replicate 64 9]"
proof -
  let ?msg = "buildMessage [replicate 32 1] (replicate 32 7) [] 2 0 0"
  obtain tx where tx: "unsignedTransaction ?msg = Inr tx"
    using serialize_ok [of ?msg "replicate 2 (replicate 64 0)"] by (auto simp: unsignedTransaction_def buildMessage_def list_all_iff)
  obtain m where m: "serializeMessage ?msg = Inr m"
    by (simp add: serializeMessage_def buildMessage_def writeFixedBytes32_def)
  have "\<exists>signed. signTransaction (\<lambda>m k. Some (replicate 64 9)) tx ''00'' = Inr signed \<and> serializeTransaction ?msg [replicate 64 9] = Inr signed
      \<and> decodeTransaction toHex signed = decoded_of toHex ?msg [replicate 64 9]"
    by (rule sign_keeps_message [OF tx _ _ m]) (simp_all add: buildMessage_def sized_msg_def fits_def)
  with tx show ?thesis by blast
qed

text \<open>A token header reads back. The 76 bytes version, origin, mint, owner, amount (written as the serialiser writes a 64-bit
  integer), decimals and frozen flag decode to those fields, the amount modulo \<open>2\<^sup>6\<^sup>4\<close>; shorter data decode to \<open>null\<close>.\<close>

theorem uth_roundtrip:
  assumes "length mint = 32" "length owner = 32"
  shows "decodeUth ([version, origin] @ mint @ owner @ writeU64LE amount @ [decimals, frozen] @ rest) =
    Some \<lparr>uth_version = version, uth_vmOrigin = origin, uth_mint = toHex mint, uth_owner = toHex owner, uth_amount = amount mod 2 ^ 64,
      uth_decimals = decimals, uth_frozen = (frozen \<noteq> 0)\<rparr>"
proof -
  let ?lo = "amount AND 0xffffffff" and ?hi = "drop_bit 32 amount AND 0xffffffff"
  define d where "d = [version, origin] @ mint @ owner @ writeU64LE amount @ [decimals, frozen] @ rest"
  have d: "d = [version, origin] @ mint @ owner @ writeU32LE ?lo @ writeU32LE ?hi @ [decimals, frozen] @ rest"
    by (simp add: d_def writeU64LE_def Let_def)
  have "drop 66 d = writeU32LE ?lo @ writeU32LE ?hi @ [decimals, frozen] @ rest" "drop 70 d = writeU32LE ?hi @ [decimals, frozen] @ rest"
    "drop 74 d = [decimals, frozen] @ rest" unfolding d using assms by simp_all
  then have amount: "int (fst (readU32LE (drop 70 d))) * 0x100000000 + int (fst (readU32LE (drop 66 d))) = amount mod 2 ^ 64"
    and tail: "d ! 74 = decimals" "d ! 75 = frozen"
    using mod_split_64 [of amount] u64_value [of amount] hd_drop_conv_nth [of 74 d]
    by (simp_all add: readU32LE_write nth_append d assms)
  have "length d = 76 + length rest" "take 32 (drop 2 d) = mint" "take 32 (drop 34 d) = owner" "d ! 0 = version" "d ! 1 = origin"
    unfolding d using assms by simp_all
  then show ?thesis unfolding d_def [symmetric] decodeUth_def Let_def amount tail by simp
qed

theorem uth_roundtrip_witness:
  "decodeUth ([1, 0] @ replicate 32 5 @ replicate 32 6 @ writeU64LE 1000 @ [9, 0] @ []) =
    Some \<lparr>uth_version = 1, uth_vmOrigin = 0, uth_mint = toHex (replicate 32 5), uth_owner = toHex (replicate 32 6), uth_amount = 1000 mod 2 ^ 64,
      uth_decimals = 9, uth_frozen = False\<rparr>"
  using uth_roundtrip [of "replicate 32 5" "replicate 32 6" 1 0 1000 9 0 "[]"] by simp

end
