(* ===== verification/Tx_Builders.thy ===== *)
theory Tx_Builders
  imports Tx_Codec
begin

text \<open>
  The transaction builders of \<^verbatim>\<open>src/wasm/index.ts\<close>, one definition for each: system, token, stake, agent, A2A, MCP, swarm, EVM,
  cross-VM and deployment transactions. Each decodes the keys it is given, in the order of the source, lays out the account
  keys and instruction data, and serialises the unsigned transaction of \<^verbatim>\<open>Tx_Codec\<close>.

  \<open>tx_request\<close> gathers the builders in one type, so that what every builder guarantees is one statement: it decodes, its indices
  point into its keys, and which ones put their signers first.
\<close>

text \<open>Addresses and blockhashes are given in base58.\<close>

type_synonym base58 = string

section \<open>Program ids\<close>

definition SYSTEM_PROGRAM_ID :: bytes where
  "SYSTEM_PROGRAM_ID = replicate 32 0"

definition TOKEN_PROGRAM_ID :: bytes where
  "TOKEN_PROGRAM_ID = [6, 221, 246, 225, 215, 101, 161, 147, 217, 203, 225, 70, 206, 235, 121, 172,
     28, 180, 133, 237, 95, 91, 55, 145, 58, 140, 245, 133, 126, 255, 0, 169]"

definition EVM_PROGRAM_ID :: bytes where
  "EVM_PROGRAM_ID = replicate 31 0xff @ [0xee]"

definition STAKE_PROGRAM_ID :: bytes where
  "STAKE_PROGRAM_ID = [6, 161, 216, 23, 145, 55, 84, 42, 152, 52, 55, 189, 254, 42, 122, 178,
     85, 127, 83, 92, 138, 120, 114, 43, 104, 164, 157, 192, 0, 0, 0, 0]"

definition SYSVAR_RENT_PUBKEY :: bytes where
  "SYSVAR_RENT_PUBKEY = [6, 167, 213, 23, 25, 44, 97, 55, 206, 224, 146, 217, 182, 146, 62, 225,
     204, 214, 25, 3, 250, 130, 184, 161, 98, 201, 252, 166, 0, 0, 0, 0]"

definition AGENT_PROGRAM_ID :: bytes where
  "AGENT_PROGRAM_ID = [0xa6, 0xe7, 0x01] @ replicate 27 0 @ [0xae, 0x01]"

definition A2A_PROGRAM_ID :: bytes where
  "A2A_PROGRAM_ID = [0xa2, 0xa0, 0x01] @ replicate 27 0 @ [0xa2, 0x01]"

definition MCP_PROGRAM_ID :: bytes where
  "MCP_PROGRAM_ID = [0xbc, 0xd0, 0x01] @ replicate 27 0 @ [0xbc, 0x01]"

definition SWARM_PROGRAM_ID :: bytes where
  "SWARM_PROGRAM_ID = [0x5a, 0xaf, 0x01] @ replicate 27 0 @ [0x5a, 0x01]"

definition WASM_PROGRAM_ID :: bytes where
  "WASM_PROGRAM_ID = replicate 29 0xff @ [0x03]"

definition MOVE_PROGRAM_ID :: bytes where
  "MOVE_PROGRAM_ID = replicate 29 0xff @ [0x02]"

definition BPF_LOADER_PROGRAM_ID :: bytes where
  "BPF_LOADER_PROGRAM_ID = [2, 168, 246, 145, 230, 44, 162, 234, 255] @ replicate 23 0"

section \<open>System and token programs\<close>

text \<open>The memo program id is the decoding of a constant, made when the module is loaded: its value is a parameter.\<close>

definition buildTransferTx :: "bytes \<Rightarrow> (string \<Rightarrow> bytes option) \<Rightarrow> base58 \<Rightarrow> base58 \<Rightarrow> int \<Rightarrow> base58 \<Rightarrow> string option
    \<Rightarrow> (tx_error, bytes) result" where
  "buildTransferTx MEMO_PROGRAM_ID bs58_decode from to lamports recentBlockhash memo =
     bind_result (pubkeyBytes bs58_decode from) (\<lambda>fromKey.
     bind_result (pubkeyBytes bs58_decode to) (\<lambda>toKey.
     bind_result (blockhashBytes bs58_decode recentBlockhash) (\<lambda>blockhash.
     let transferData = writeU32LE 2 @ writeU64LE lamports
     in case memo of
       Some (c # cs) \<Rightarrow> unsignedTransaction (buildMessage [fromKey, toKey, SYSTEM_PROGRAM_ID, MEMO_PROGRAM_ID] blockhash
         [\<lparr>ci_programIdIndex = 3, ci_accounts = [], ci_data = textEncode (c # cs)\<rparr>,
          \<lparr>ci_programIdIndex = 2, ci_accounts = [0, 1], ci_data = transferData\<rparr>] 1 0 2)
     | _ \<Rightarrow> unsignedTransaction (buildMessage [fromKey, toKey, SYSTEM_PROGRAM_ID] blockhash
         [\<lparr>ci_programIdIndex = 2, ci_accounts = [0, 1], ci_data = transferData\<rparr>] 1 0 1))))"

definition buildCreateAccountTx :: "(string \<Rightarrow> bytes option) \<Rightarrow> base58 \<Rightarrow> base58 \<Rightarrow> int \<Rightarrow> int \<Rightarrow> base58 \<Rightarrow> base58
    \<Rightarrow> (tx_error, bytes) result" where
  "buildCreateAccountTx bs58_decode payer newAccount lamports space owner recentBlockhash =
     bind_result (pubkeyBytes bs58_decode payer) (\<lambda>payerKey.
     bind_result (pubkeyBytes bs58_decode newAccount) (\<lambda>newAccountKey.
     bind_result (pubkeyBytes bs58_decode owner) (\<lambda>ownerKey.
     bind_result (blockhashBytes bs58_decode recentBlockhash) (\<lambda>blockhash.
     unsignedTransaction (buildMessage [payerKey, newAccountKey, SYSTEM_PROGRAM_ID] blockhash
       [\<lparr>ci_programIdIndex = 2, ci_accounts = [0, 1], ci_data = writeU32LE 0 @ writeU64LE lamports @ writeU64LE space @ ownerKey\<rparr>] 2 0 1)))))"

definition buildTokenTransferTx :: "(string \<Rightarrow> bytes option) \<Rightarrow> base58 \<Rightarrow> base58 \<Rightarrow> base58 \<Rightarrow> int \<Rightarrow> int \<Rightarrow> base58
    \<Rightarrow> (tx_error, bytes) result" where
  "buildTokenTransferTx bs58_decode authority source destination amount decimals recentBlockhash =
     bind_result (pubkeyBytes bs58_decode authority) (\<lambda>authorityKey.
     bind_result (pubkeyBytes bs58_decode source) (\<lambda>sourceKey.
     bind_result (pubkeyBytes bs58_decode destination) (\<lambda>destinationKey.
     bind_result (blockhashBytes bs58_decode recentBlockhash) (\<lambda>blockhash.
     unsignedTransaction (buildMessage [authorityKey, sourceKey, destinationKey, TOKEN_PROGRAM_ID] blockhash
       [\<lparr>ci_programIdIndex = 3, ci_accounts = [1, 2, 0], ci_data = writeU8 11 @ writeU64LE amount @ writeU8 decimals\<rparr>] 1 0 1)))))"

definition buildCreateMintTx :: "(string \<Rightarrow> bytes option) \<Rightarrow> base58 \<Rightarrow> base58 \<Rightarrow> base58 \<Rightarrow> int \<Rightarrow> base58
    \<Rightarrow> (tx_error, bytes) result" where
  "buildCreateMintTx bs58_decode payer mintAccount mintAuthority decimals recentBlockhash =
     bind_result (pubkeyBytes bs58_decode payer) (\<lambda>payerKey.
     bind_result (pubkeyBytes bs58_decode mintAccount) (\<lambda>mintKey.
     bind_result (pubkeyBytes bs58_decode mintAuthority) (\<lambda>mintAuthorityKey.
     bind_result (blockhashBytes bs58_decode recentBlockhash) (\<lambda>blockhash.
     unsignedTransaction (buildMessage [payerKey, mintKey, SYSTEM_PROGRAM_ID, TOKEN_PROGRAM_ID, SYSVAR_RENT_PUBKEY] blockhash
       [\<lparr>ci_programIdIndex = 2, ci_accounts = [0, 1], ci_data = writeU32LE 0 @ writeU64LE 1461600 @ writeU64LE 0 @ TOKEN_PROGRAM_ID\<rparr>,
        \<lparr>ci_programIdIndex = 3, ci_accounts = [1, 4], ci_data = writeU8 0 @ writeU8 decimals @ mintAuthorityKey @ writeU8 0\<rparr>] 2 0 3)))))"

definition buildMintToTx :: "(string \<Rightarrow> bytes option) \<Rightarrow> base58 \<Rightarrow> base58 \<Rightarrow> base58 \<Rightarrow> int \<Rightarrow> base58
    \<Rightarrow> (tx_error, bytes) result" where
  "buildMintToTx bs58_decode mintAuthority mint destination amount recentBlockhash =
     bind_result (pubkeyBytes bs58_decode mintAuthority) (\<lambda>mintAuthorityKey.
     bind_result (pubkeyBytes bs58_decode mint) (\<lambda>mintKey.
     bind_result (pubkeyBytes bs58_decode destination) (\<lambda>destinationKey.
     bind_result (blockhashBytes bs58_decode recentBlockhash) (\<lambda>blockhash.
     unsignedTransaction (buildMessage [mintAuthorityKey, mintKey, destinationKey, TOKEN_PROGRAM_ID] blockhash
       [\<lparr>ci_programIdIndex = 3, ci_accounts = [1, 2, 0], ci_data = writeU8 6 @ writeU64LE amount\<rparr>] 1 0 1)))))"

definition buildBurnTx :: "(string \<Rightarrow> bytes option) \<Rightarrow> base58 \<Rightarrow> base58 \<Rightarrow> base58 \<Rightarrow> int \<Rightarrow> base58
    \<Rightarrow> (tx_error, bytes) result" where
  "buildBurnTx bs58_decode owner tokenAccount mint amount recentBlockhash =
     bind_result (pubkeyBytes bs58_decode owner) (\<lambda>ownerKey.
     bind_result (pubkeyBytes bs58_decode tokenAccount) (\<lambda>tokenAccountKey.
     bind_result (pubkeyBytes bs58_decode mint) (\<lambda>mintKey.
     bind_result (blockhashBytes bs58_decode recentBlockhash) (\<lambda>blockhash.
     unsignedTransaction (buildMessage [ownerKey, tokenAccountKey, mintKey, TOKEN_PROGRAM_ID] blockhash
       [\<lparr>ci_programIdIndex = 3, ci_accounts = [1, 2, 0], ci_data = writeU8 7 @ writeU64LE amount\<rparr>] 1 0 1)))))"

definition buildFreezeTx :: "(string \<Rightarrow> bytes option) \<Rightarrow> base58 \<Rightarrow> base58 \<Rightarrow> base58 \<Rightarrow> base58
    \<Rightarrow> (tx_error, bytes) result" where
  "buildFreezeTx bs58_decode freezeAuthority tokenAccount mint recentBlockhash =
     bind_result (pubkeyBytes bs58_decode freezeAuthority) (\<lambda>freezeAuthorityKey.
     bind_result (pubkeyBytes bs58_decode tokenAccount) (\<lambda>tokenAccountKey.
     bind_result (pubkeyBytes bs58_decode mint) (\<lambda>mintKey.
     bind_result (blockhashBytes bs58_decode recentBlockhash) (\<lambda>blockhash.
     unsignedTransaction (buildMessage [tokenAccountKey, mintKey, freezeAuthorityKey, TOKEN_PROGRAM_ID] blockhash
       [\<lparr>ci_programIdIndex = 3, ci_accounts = [0, 1, 2], ci_data = writeU8 9\<rparr>] 1 0 1)))))"

section \<open>Stake program\<close>

definition buildCreateStakeTx :: "(string \<Rightarrow> bytes option) \<Rightarrow> base58 \<Rightarrow> base58 \<Rightarrow> int \<Rightarrow> base58
    \<Rightarrow> (tx_error, bytes) result" where
  "buildCreateStakeTx bs58_decode staker stakeAccount lamports recentBlockhash =
     bind_result (pubkeyBytes bs58_decode staker) (\<lambda>stakerKey.
     bind_result (pubkeyBytes bs58_decode stakeAccount) (\<lambda>stakeAccountKey.
     bind_result (blockhashBytes bs58_decode recentBlockhash) (\<lambda>blockhash.
     unsignedTransaction (buildMessage [stakerKey, stakeAccountKey, SYSTEM_PROGRAM_ID, STAKE_PROGRAM_ID, SYSVAR_RENT_PUBKEY] blockhash
       [\<lparr>ci_programIdIndex = 2, ci_accounts = [0, 1], ci_data = writeU32LE 0 @ writeU64LE lamports @ writeU64LE 0 @ STAKE_PROGRAM_ID\<rparr>,
        \<lparr>ci_programIdIndex = 3, ci_accounts = [1, 4], ci_data = writeU8 0 @ stakerKey @ stakerKey @ writeU64LE 0 @ writeU64LE 0 @ replicate 32 0\<rparr>] 2 0 3))))"

definition buildDelegateStakeTx :: "(string \<Rightarrow> bytes option) \<Rightarrow> base58 \<Rightarrow> base58 \<Rightarrow> base58 \<Rightarrow> base58
    \<Rightarrow> (tx_error, bytes) result" where
  "buildDelegateStakeTx bs58_decode staker stakeAccount voteAccount recentBlockhash =
     bind_result (pubkeyBytes bs58_decode staker) (\<lambda>stakerKey.
     bind_result (pubkeyBytes bs58_decode stakeAccount) (\<lambda>stakeAccountKey.
     bind_result (pubkeyBytes bs58_decode voteAccount) (\<lambda>voteAccountKey.
     bind_result (blockhashBytes bs58_decode recentBlockhash) (\<lambda>blockhash.
     unsignedTransaction (buildMessage [stakeAccountKey, voteAccountKey, stakerKey, STAKE_PROGRAM_ID] blockhash
       [\<lparr>ci_programIdIndex = 3, ci_accounts = [0, 1, 2], ci_data = writeU32LE 2\<rparr>] 1 0 1)))))"

definition buildDeactivateStakeTx :: "(string \<Rightarrow> bytes option) \<Rightarrow> base58 \<Rightarrow> base58 \<Rightarrow> base58
    \<Rightarrow> (tx_error, bytes) result" where
  "buildDeactivateStakeTx bs58_decode staker stakeAccount recentBlockhash =
     bind_result (pubkeyBytes bs58_decode staker) (\<lambda>stakerKey.
     bind_result (pubkeyBytes bs58_decode stakeAccount) (\<lambda>stakeAccountKey.
     bind_result (blockhashBytes bs58_decode recentBlockhash) (\<lambda>blockhash.
     unsignedTransaction (buildMessage [stakeAccountKey, stakerKey, STAKE_PROGRAM_ID] blockhash
       [\<lparr>ci_programIdIndex = 2, ci_accounts = [0, 1], ci_data = writeU32LE 5\<rparr>] 1 0 1))))"

definition buildWithdrawStakeTx :: "(string \<Rightarrow> bytes option) \<Rightarrow> base58 \<Rightarrow> base58 \<Rightarrow> base58 \<Rightarrow> int \<Rightarrow> base58
    \<Rightarrow> (tx_error, bytes) result" where
  "buildWithdrawStakeTx bs58_decode staker stakeAccount recipient lamports recentBlockhash =
     bind_result (pubkeyBytes bs58_decode staker) (\<lambda>stakerKey.
     bind_result (pubkeyBytes bs58_decode stakeAccount) (\<lambda>stakeAccountKey.
     bind_result (pubkeyBytes bs58_decode recipient) (\<lambda>recipientKey.
     bind_result (blockhashBytes bs58_decode recentBlockhash) (\<lambda>blockhash.
     unsignedTransaction (buildMessage [stakeAccountKey, recipientKey, stakerKey, STAKE_PROGRAM_ID] blockhash
       [\<lparr>ci_programIdIndex = 3, ci_accounts = [0, 1, 2], ci_data = writeU32LE 4 @ writeU64LE lamports\<rparr>] 1 0 1)))))"

section \<open>Agent program\<close>

definition buildRegisterAgentTx :: "(string \<Rightarrow> bytes option) \<Rightarrow> base58 \<Rightarrow> base58 \<Rightarrow> string \<Rightarrow> string \<Rightarrow> base58
    \<Rightarrow> (tx_error, bytes) result" where
  "buildRegisterAgentTx bs58_decode authority agentAccount name modelId recentBlockhash =
     bind_result (pubkeyBytes bs58_decode authority) (\<lambda>authorityKey.
     bind_result (pubkeyBytes bs58_decode agentAccount) (\<lambda>agentAccountKey.
     bind_result (blockhashBytes bs58_decode recentBlockhash) (\<lambda>blockhash.
     unsignedTransaction (buildMessage [authorityKey, agentAccountKey, authorityKey, AGENT_PROGRAM_ID] blockhash
       [\<lparr>ci_programIdIndex = 3, ci_accounts = [0, 1, 2], ci_data = writeU8 0 @ writeVec (textEncode name) @ writeVec (textEncode modelId) @ writeVec (textEncode []) @ writeU64LE 0\<rparr>] 1 0 2))))"

definition buildSetAgentStatusTx :: "(string \<Rightarrow> bytes option) \<Rightarrow> base58 \<Rightarrow> base58 \<Rightarrow> int \<Rightarrow> base58
    \<Rightarrow> (tx_error, bytes) result" where
  "buildSetAgentStatusTx bs58_decode authority agentAccount status recentBlockhash =
     bind_result (pubkeyBytes bs58_decode authority) (\<lambda>authorityKey.
     bind_result (pubkeyBytes bs58_decode agentAccount) (\<lambda>agentAccountKey.
     bind_result (blockhashBytes bs58_decode recentBlockhash) (\<lambda>blockhash.
     unsignedTransaction (buildMessage [agentAccountKey, authorityKey, AGENT_PROGRAM_ID] blockhash
       [\<lparr>ci_programIdIndex = 2, ci_accounts = [0, 1], ci_data = writeU8 6 @ writeU8 status\<rparr>] 1 0 1))))"

definition buildSetDelegateTx :: "(string \<Rightarrow> bytes option) \<Rightarrow> base58 \<Rightarrow> base58 \<Rightarrow> string option \<Rightarrow> int \<Rightarrow> base58
    \<Rightarrow> (tx_error, bytes) result" where
  "buildSetDelegateTx bs58_decode authority agentAccount delegate spendLimit recentBlockhash =
     bind_result (pubkeyBytes bs58_decode authority) (\<lambda>authorityKey.
     bind_result (pubkeyBytes bs58_decode agentAccount) (\<lambda>agentAccountKey.
     bind_result (blockhashBytes bs58_decode recentBlockhash) (\<lambda>blockhash.
     bind_result (case delegate of None \<Rightarrow> Inr (writeU8 0) | Some d \<Rightarrow> bind_result (pubkeyBytes bs58_decode d) (\<lambda>k. Inr (writeU8 1 @ k))) (\<lambda>delegateData.
     unsignedTransaction (buildMessage [agentAccountKey, authorityKey, AGENT_PROGRAM_ID] blockhash
       [\<lparr>ci_programIdIndex = 2, ci_accounts = [0, 1], ci_data = writeU8 5 @ delegateData @ writeU64LE spendLimit\<rparr>] 1 0 1)))))"

section \<open>A2A, MCP and swarm programs\<close>

text \<open>The capacity argument is not used; the defaults of the last five arguments are the caller's.\<close>

definition buildCreateA2AChannelTx :: "(string \<Rightarrow> bytes option) \<Rightarrow> base58 \<Rightarrow> base58 \<Rightarrow> base58 \<Rightarrow> base58 \<Rightarrow> string \<Rightarrow> string \<Rightarrow> string \<Rightarrow> string \<Rightarrow> string
    \<Rightarrow> (tx_error, bytes) result" where
  "buildCreateA2AChannelTx bs58_decode owner cardAccount agentAccount recentBlockhash name description endpointUri capabilitiesUri version =
     bind_result (pubkeyBytes bs58_decode owner) (\<lambda>ownerKey.
     bind_result (pubkeyBytes bs58_decode cardAccount) (\<lambda>cardKey.
     bind_result (pubkeyBytes bs58_decode agentAccount) (\<lambda>agentKey.
     bind_result (blockhashBytes bs58_decode recentBlockhash) (\<lambda>blockhash.
     unsignedTransaction (buildMessage [ownerKey, cardKey, agentKey, A2A_PROGRAM_ID] blockhash
       [\<lparr>ci_programIdIndex = 3, ci_accounts = [0, 1, 2, 0], ci_data = writeU8 0 @ writeString name @ writeString description @ writeString endpointUri @ writeString capabilitiesUri
          @ writeString version @ writeU8 0\<rparr>] 1 0 2)))))"

definition buildRegisterMcpToolTx :: "(string \<Rightarrow> bytes option) \<Rightarrow> base58 \<Rightarrow> base58 \<Rightarrow> base58 \<Rightarrow> string \<Rightarrow> string \<Rightarrow> base58
    \<Rightarrow> (tx_error, bytes) result" where
  "buildRegisterMcpToolTx bs58_decode owner toolAccount targetProgram name description recentBlockhash =
     bind_result (pubkeyBytes bs58_decode owner) (\<lambda>ownerKey.
     bind_result (pubkeyBytes bs58_decode toolAccount) (\<lambda>toolAccountKey.
     bind_result (pubkeyBytes bs58_decode targetProgram) (\<lambda>targetProgramKey.
     bind_result (blockhashBytes bs58_decode recentBlockhash) (\<lambda>blockhash.
     unsignedTransaction (buildMessage [ownerKey, toolAccountKey, targetProgramKey, MCP_PROGRAM_ID] blockhash
       [\<lparr>ci_programIdIndex = 3, ci_accounts = [0, 1, 2], ci_data = writeU8 0 @ writeVec (textEncode name) @ writeVec (textEncode description) @ targetProgramKey\<rparr>] 1 0 1)))))"

definition buildInvokeMcpToolTx :: "(string \<Rightarrow> bytes option) \<Rightarrow> base58 \<Rightarrow> base58 \<Rightarrow> base58 \<Rightarrow> bytes \<Rightarrow> base58
    \<Rightarrow> (tx_error, bytes) result" where
  "buildInvokeMcpToolTx bs58_decode caller toolAccount logAccount inputHash recentBlockhash =
     bind_result (pubkeyBytes bs58_decode caller) (\<lambda>callerKey.
     bind_result (pubkeyBytes bs58_decode toolAccount) (\<lambda>toolAccountKey.
     bind_result (pubkeyBytes bs58_decode logAccount) (\<lambda>logAccountKey.
     bind_result (blockhashBytes bs58_decode recentBlockhash) (\<lambda>blockhash.
     if length inputHash \<noteq> 32 then Inl (InputHashLength (length inputHash)) else
     unsignedTransaction (buildMessage [callerKey, toolAccountKey, logAccountKey, MCP_PROGRAM_ID] blockhash
       [\<lparr>ci_programIdIndex = 3, ci_accounts = [0, 1, 2], ci_data = writeU8 2 @ inputHash\<rparr>] 1 0 1)))))"

definition buildCreateSwarmTx :: "(string \<Rightarrow> bytes option) \<Rightarrow> base58 \<Rightarrow> base58 \<Rightarrow> string \<Rightarrow> int \<Rightarrow> int \<Rightarrow> base58
    \<Rightarrow> (tx_error, bytes) result" where
  "buildCreateSwarmTx bs58_decode creator swarmAccount name strategy maxMembers recentBlockhash =
     bind_result (pubkeyBytes bs58_decode creator) (\<lambda>creatorKey.
     bind_result (pubkeyBytes bs58_decode swarmAccount) (\<lambda>swarmAccountKey.
     bind_result (blockhashBytes bs58_decode recentBlockhash) (\<lambda>blockhash.
     unsignedTransaction (buildMessage [creatorKey, swarmAccountKey, SWARM_PROGRAM_ID] blockhash
       [\<lparr>ci_programIdIndex = 2, ci_accounts = [0, 1], ci_data = writeU8 0 @ writeVec (textEncode name) @ writeU8 strategy @ writeU8 maxMembers\<rparr>] 1 0 1))))"

definition buildJoinSwarmTx :: "(string \<Rightarrow> bytes option) \<Rightarrow> base58 \<Rightarrow> base58 \<Rightarrow> base58
    \<Rightarrow> (tx_error, bytes) result" where
  "buildJoinSwarmTx bs58_decode agent swarmAccount recentBlockhash =
     bind_result (pubkeyBytes bs58_decode agent) (\<lambda>agentKey.
     bind_result (pubkeyBytes bs58_decode swarmAccount) (\<lambda>swarmAccountKey.
     bind_result (blockhashBytes bs58_decode recentBlockhash) (\<lambda>blockhash.
     unsignedTransaction (buildMessage [agentKey, swarmAccountKey, SWARM_PROGRAM_ID] blockhash
       [\<lparr>ci_programIdIndex = 2, ci_accounts = [0, 1], ci_data = writeU8 1\<rparr>] 1 0 1))))"

definition buildSwarmProposeTx :: "(string \<Rightarrow> bytes option) \<Rightarrow> base58 \<Rightarrow> base58 \<Rightarrow> string \<Rightarrow> bytes \<Rightarrow> base58
    \<Rightarrow> (tx_error, bytes) result" where
  "buildSwarmProposeTx bs58_decode proposer swarmAccount title actionData recentBlockhash =
     bind_result (pubkeyBytes bs58_decode proposer) (\<lambda>proposerKey.
     bind_result (pubkeyBytes bs58_decode swarmAccount) (\<lambda>swarmAccountKey.
     bind_result (blockhashBytes bs58_decode recentBlockhash) (\<lambda>blockhash.
     unsignedTransaction (buildMessage [proposerKey, swarmAccountKey, SWARM_PROGRAM_ID] blockhash
       [\<lparr>ci_programIdIndex = 2, ci_accounts = [0, 1], ci_data = writeU8 2 @ writeVec (textEncode title) @ writeVec actionData\<rparr>] 1 0 1))))"

definition buildSwarmVoteTx :: "(string \<Rightarrow> bytes option) \<Rightarrow> base58 \<Rightarrow> base58 \<Rightarrow> int \<Rightarrow> int \<Rightarrow> base58
    \<Rightarrow> (tx_error, bytes) result" where
  "buildSwarmVoteTx bs58_decode voter swarmAccount proposalIndex vote recentBlockhash =
     bind_result (pubkeyBytes bs58_decode voter) (\<lambda>voterKey.
     bind_result (pubkeyBytes bs58_decode swarmAccount) (\<lambda>swarmAccountKey.
     bind_result (blockhashBytes bs58_decode recentBlockhash) (\<lambda>blockhash.
     unsignedTransaction (buildMessage [voterKey, swarmAccountKey, SWARM_PROGRAM_ID] blockhash
       [\<lparr>ci_programIdIndex = 2, ci_accounts = [0, 1], ci_data = writeU8 3 @ writeU32LE proposalIndex @ writeU8 vote\<rparr>] 1 0 1))))"

section \<open>EVM envelope, cross-VM calls and deployments\<close>

definition wrapEvmRlpInSvmTx :: "(string \<Rightarrow> bytes option) \<Rightarrow> base58 \<Rightarrow> bytes \<Rightarrow> base58
    \<Rightarrow> (tx_error, bytes) result" where
  "wrapEvmRlpInSvmTx bs58_decode deployer rlp recentBlockhash =
     bind_result (pubkeyBytes bs58_decode deployer) (\<lambda>deployerKey.
     bind_result (blockhashBytes bs58_decode recentBlockhash) (\<lambda>blockhash.
     unsignedTransaction (buildMessage [deployerKey, EVM_PROGRAM_ID] blockhash
       [\<lparr>ci_programIdIndex = 1, ci_accounts = [0], ci_data = rlp\<rparr>] 1 0 1)))"

text \<open>\<open>s.startsWith("0x") ? s.slice(2) : s\<close> and \<open>s.padStart(40, "0")\<close>.\<close>

definition strip0x :: "string \<Rightarrow> string" where
  "strip0x s = (if starts_with ''0x'' s then drop 2 s else s)"

definition padStart40 :: "string \<Rightarrow> string" where
  "padStart40 s = replicate (40 - length s) (CHR ''0'') @ s"

text \<open>Value and gas limit are not used.\<close>

definition buildEvmDeployTx :: "(string \<Rightarrow> bytes option) \<Rightarrow> base58 \<Rightarrow> string \<Rightarrow> base58
    \<Rightarrow> (tx_error, bytes) result" where
  "buildEvmDeployTx bs58_decode deployer bytecode recentBlockhash =
     bind_result (pubkeyBytes bs58_decode deployer) (\<lambda>deployerKey.
     bind_result (blockhashBytes bs58_decode recentBlockhash) (\<lambda>blockhash.
     unsignedTransaction (buildMessage [deployerKey, EVM_PROGRAM_ID] blockhash
       [\<lparr>ci_programIdIndex = 1, ci_accounts = [0], ci_data = bufferFromHex (strip0x bytecode)\<rparr>] 1 0 1)))"

definition buildEvmCallTx :: "(string \<Rightarrow> bytes option) \<Rightarrow> base58 \<Rightarrow> string \<Rightarrow> string \<Rightarrow> base58
    \<Rightarrow> (tx_error, bytes) result" where
  "buildEvmCallTx bs58_decode caller contract calldata recentBlockhash =
     bind_result (pubkeyBytes bs58_decode caller) (\<lambda>callerKey.
     bind_result (blockhashBytes bs58_decode recentBlockhash) (\<lambda>blockhash.
     let contractBytes = bufferFromHex (padStart40 (strip0x contract))
     in if length contractBytes \<noteq> 20 then Inl ContractAddressLength else
     unsignedTransaction (buildMessage [callerKey, EVM_PROGRAM_ID] blockhash
       [\<lparr>ci_programIdIndex = 1, ci_accounts = [0], ci_data = contractBytes @ bufferFromHex (strip0x calldata)\<rparr>] 1 0 1)))"

definition buildCrossVmCallTx :: "(string \<Rightarrow> bytes option) \<Rightarrow> base58 \<Rightarrow> int \<Rightarrow> int \<Rightarrow> base58 \<Rightarrow> bytes \<Rightarrow> base58
    \<Rightarrow> (tx_error, bytes) result" where
  "buildCrossVmCallTx bs58_decode caller sourceVm targetVm targetAddress calldata recentBlockhash =
     bind_result (pubkeyBytes bs58_decode caller) (\<lambda>callerKey.
     bind_result (pubkeyBytes bs58_decode targetAddress) (\<lambda>targetAddressKey.
     bind_result (blockhashBytes bs58_decode recentBlockhash) (\<lambda>blockhash.
     unsignedTransaction (buildMessage [callerKey, EVM_PROGRAM_ID] blockhash
       [\<lparr>ci_programIdIndex = 1, ci_accounts = [0], ci_data = writeU8 0xca @ writeU8 sourceVm @ writeU8 targetVm @ targetAddressKey @ calldata\<rparr>] 1 0 1))))"

definition buildWasmDeployTx :: "(string \<Rightarrow> bytes option) \<Rightarrow> base58 \<Rightarrow> bytes \<Rightarrow> base58
    \<Rightarrow> (tx_error, bytes) result" where
  "buildWasmDeployTx bs58_decode deployer wasmBytes recentBlockhash =
     bind_result (pubkeyBytes bs58_decode deployer) (\<lambda>deployerKey.
     bind_result (blockhashBytes bs58_decode recentBlockhash) (\<lambda>blockhash.
     unsignedTransaction (buildMessage [deployerKey, WASM_PROGRAM_ID] blockhash
       [\<lparr>ci_programIdIndex = 1, ci_accounts = [0], ci_data = wasmBytes\<rparr>] 1 0 1)))"

definition buildMoveDeployTx :: "(string \<Rightarrow> bytes option) \<Rightarrow> base58 \<Rightarrow> bytes \<Rightarrow> base58
    \<Rightarrow> (tx_error, bytes) result" where
  "buildMoveDeployTx bs58_decode deployer moveBytes recentBlockhash =
     bind_result (pubkeyBytes bs58_decode deployer) (\<lambda>deployerKey.
     bind_result (blockhashBytes bs58_decode recentBlockhash) (\<lambda>blockhash.
     unsignedTransaction (buildMessage [deployerKey, MOVE_PROGRAM_ID] blockhash
       [\<lparr>ci_programIdIndex = 1, ci_accounts = [0], ci_data = moveBytes\<rparr>] 1 0 1)))"

definition buildSvmDeployTx :: "(string \<Rightarrow> bytes option) \<Rightarrow> base58 \<Rightarrow> bytes \<Rightarrow> base58
    \<Rightarrow> (tx_error, bytes) result" where
  "buildSvmDeployTx bs58_decode deployer programBytes recentBlockhash =
     bind_result (pubkeyBytes bs58_decode deployer) (\<lambda>deployerKey.
     bind_result (blockhashBytes bs58_decode recentBlockhash) (\<lambda>blockhash.
     unsignedTransaction (buildMessage [deployerKey, BPF_LOADER_PROGRAM_ID] blockhash
       [\<lparr>ci_programIdIndex = 1, ci_accounts = [0], ci_data = programBytes\<rparr>] 1 0 1)))"

section \<open>Specification\<close>

text \<open>A call of a builder, without the blockhash that all share.\<close>

datatype tx_request =
    RTransfer string string int "string option"
  | RCreateAccount string string int int string
  | RTokenTransfer string string string int int
  | RCreateMint string string string int
  | RMintTo string string string int
  | RBurn string string string int
  | RFreeze string string string
  | RCreateStake string string int
  | RDelegateStake string string string
  | RDeactivateStake string string
  | RWithdrawStake string string string int
  | RRegisterAgent string string string string
  | RSetAgentStatus string string int
  | RSetDelegate string string "string option" int
  | RCreateA2AChannel string string string string string string string string
  | RRegisterMcpTool string string string string string
  | RInvokeMcpTool string string string bytes
  | RCreateSwarm string string string int int
  | RJoinSwarm string string
  | RSwarmPropose string string string bytes
  | RSwarmVote string string int int
  | REvmEnvelope string bytes
  | REvmDeploy string string
  | REvmCall string string string
  | RCrossVmCall string int int string bytes
  | RWasmDeploy string bytes
  | RMoveDeploy string bytes
  | RSvmDeploy string bytes

fun build_request :: "bytes \<Rightarrow> (string \<Rightarrow> bytes option) \<Rightarrow> string \<Rightarrow> tx_request \<Rightarrow> (tx_error, bytes) result" where
  "build_request MEMO_PROGRAM_ID bs58_decode recentBlockhash (RTransfer from to lamports memo) = buildTransferTx MEMO_PROGRAM_ID bs58_decode from to lamports recentBlockhash memo"
| "build_request MEMO_PROGRAM_ID bs58_decode recentBlockhash (RCreateAccount payer newAccount lamports space owner) = buildCreateAccountTx bs58_decode payer newAccount lamports space owner recentBlockhash"
| "build_request MEMO_PROGRAM_ID bs58_decode recentBlockhash (RTokenTransfer authority source destination amount decimals) = buildTokenTransferTx bs58_decode authority source destination amount decimals recentBlockhash"
| "build_request MEMO_PROGRAM_ID bs58_decode recentBlockhash (RCreateMint payer mintAccount mintAuthority decimals) = buildCreateMintTx bs58_decode payer mintAccount mintAuthority decimals recentBlockhash"
| "build_request MEMO_PROGRAM_ID bs58_decode recentBlockhash (RMintTo mintAuthority mint destination amount) = buildMintToTx bs58_decode mintAuthority mint destination amount recentBlockhash"
| "build_request MEMO_PROGRAM_ID bs58_decode recentBlockhash (RBurn owner tokenAccount mint amount) = buildBurnTx bs58_decode owner tokenAccount mint amount recentBlockhash"
| "build_request MEMO_PROGRAM_ID bs58_decode recentBlockhash (RFreeze freezeAuthority tokenAccount mint) = buildFreezeTx bs58_decode freezeAuthority tokenAccount mint recentBlockhash"
| "build_request MEMO_PROGRAM_ID bs58_decode recentBlockhash (RCreateStake staker stakeAccount lamports) = buildCreateStakeTx bs58_decode staker stakeAccount lamports recentBlockhash"
| "build_request MEMO_PROGRAM_ID bs58_decode recentBlockhash (RDelegateStake staker stakeAccount voteAccount) = buildDelegateStakeTx bs58_decode staker stakeAccount voteAccount recentBlockhash"
| "build_request MEMO_PROGRAM_ID bs58_decode recentBlockhash (RDeactivateStake staker stakeAccount) = buildDeactivateStakeTx bs58_decode staker stakeAccount recentBlockhash"
| "build_request MEMO_PROGRAM_ID bs58_decode recentBlockhash (RWithdrawStake staker stakeAccount recipient lamports) = buildWithdrawStakeTx bs58_decode staker stakeAccount recipient lamports recentBlockhash"
| "build_request MEMO_PROGRAM_ID bs58_decode recentBlockhash (RRegisterAgent authority agentAccount name modelId) = buildRegisterAgentTx bs58_decode authority agentAccount name modelId recentBlockhash"
| "build_request MEMO_PROGRAM_ID bs58_decode recentBlockhash (RSetAgentStatus authority agentAccount status) = buildSetAgentStatusTx bs58_decode authority agentAccount status recentBlockhash"
| "build_request MEMO_PROGRAM_ID bs58_decode recentBlockhash (RSetDelegate authority agentAccount delegate spendLimit) = buildSetDelegateTx bs58_decode authority agentAccount delegate spendLimit recentBlockhash"
| "build_request MEMO_PROGRAM_ID bs58_decode recentBlockhash (RCreateA2AChannel owner cardAccount agentAccount name description endpointUri capabilitiesUri version) = buildCreateA2AChannelTx bs58_decode owner cardAccount agentAccount recentBlockhash name description endpointUri capabilitiesUri version"
| "build_request MEMO_PROGRAM_ID bs58_decode recentBlockhash (RRegisterMcpTool owner toolAccount targetProgram name description) = buildRegisterMcpToolTx bs58_decode owner toolAccount targetProgram name description recentBlockhash"
| "build_request MEMO_PROGRAM_ID bs58_decode recentBlockhash (RInvokeMcpTool caller toolAccount logAccount inputHash) = buildInvokeMcpToolTx bs58_decode caller toolAccount logAccount inputHash recentBlockhash"
| "build_request MEMO_PROGRAM_ID bs58_decode recentBlockhash (RCreateSwarm creator swarmAccount name strategy maxMembers) = buildCreateSwarmTx bs58_decode creator swarmAccount name strategy maxMembers recentBlockhash"
| "build_request MEMO_PROGRAM_ID bs58_decode recentBlockhash (RJoinSwarm agent swarmAccount) = buildJoinSwarmTx bs58_decode agent swarmAccount recentBlockhash"
| "build_request MEMO_PROGRAM_ID bs58_decode recentBlockhash (RSwarmPropose proposer swarmAccount title actionData) = buildSwarmProposeTx bs58_decode proposer swarmAccount title actionData recentBlockhash"
| "build_request MEMO_PROGRAM_ID bs58_decode recentBlockhash (RSwarmVote voter swarmAccount proposalIndex vote) = buildSwarmVoteTx bs58_decode voter swarmAccount proposalIndex vote recentBlockhash"
| "build_request MEMO_PROGRAM_ID bs58_decode recentBlockhash (REvmEnvelope deployer rlp) = wrapEvmRlpInSvmTx bs58_decode deployer rlp recentBlockhash"
| "build_request MEMO_PROGRAM_ID bs58_decode recentBlockhash (REvmDeploy deployer bytecode) = buildEvmDeployTx bs58_decode deployer bytecode recentBlockhash"
| "build_request MEMO_PROGRAM_ID bs58_decode recentBlockhash (REvmCall caller contract calldata) = buildEvmCallTx bs58_decode caller contract calldata recentBlockhash"
| "build_request MEMO_PROGRAM_ID bs58_decode recentBlockhash (RCrossVmCall caller sourceVm targetVm targetAddress calldata) = buildCrossVmCallTx bs58_decode caller sourceVm targetVm targetAddress calldata recentBlockhash"
| "build_request MEMO_PROGRAM_ID bs58_decode recentBlockhash (RWasmDeploy deployer wasmBytes) = buildWasmDeployTx bs58_decode deployer wasmBytes recentBlockhash"
| "build_request MEMO_PROGRAM_ID bs58_decode recentBlockhash (RMoveDeploy deployer moveBytes) = buildMoveDeployTx bs58_decode deployer moveBytes recentBlockhash"
| "build_request MEMO_PROGRAM_ID bs58_decode recentBlockhash (RSvmDeploy deployer programBytes) = buildSvmDeployTx bs58_decode deployer programBytes recentBlockhash"

text \<open>The addresses a request names, and its other guards: the two program ids of 30 bytes make every deployment of a WASM or Move module fail.\<close>

fun request_keys :: "tx_request \<Rightarrow> string list" where
  "request_keys (RTransfer from to _ _) = [from, to]"
| "request_keys (RCreateAccount payer newAccount _ _ owner) = [payer, newAccount, owner]"
| "request_keys (RTokenTransfer authority source destination _ _) = [authority, source, destination]"
| "request_keys (RCreateMint payer mintAccount mintAuthority _) = [payer, mintAccount, mintAuthority]"
| "request_keys (RMintTo mintAuthority mint destination _) = [mintAuthority, mint, destination]"
| "request_keys (RBurn owner tokenAccount mint _) = [owner, tokenAccount, mint]"
| "request_keys (RFreeze freezeAuthority tokenAccount mint) = [freezeAuthority, tokenAccount, mint]"
| "request_keys (RCreateStake staker stakeAccount _) = [staker, stakeAccount]"
| "request_keys (RDelegateStake staker stakeAccount voteAccount) = [staker, stakeAccount, voteAccount]"
| "request_keys (RDeactivateStake staker stakeAccount) = [staker, stakeAccount]"
| "request_keys (RWithdrawStake staker stakeAccount recipient _) = [staker, stakeAccount, recipient]"
| "request_keys (RRegisterAgent authority agentAccount _ _) = [authority, agentAccount]"
| "request_keys (RSetAgentStatus authority agentAccount _) = [authority, agentAccount]"
| "request_keys (RSetDelegate authority agentAccount delegate _) = [authority, agentAccount] @ (case delegate of None \<Rightarrow> [] | Some d \<Rightarrow> [d])"
| "request_keys (RCreateA2AChannel owner cardAccount agentAccount _ _ _ _ _) = [owner, cardAccount, agentAccount]"
| "request_keys (RRegisterMcpTool owner toolAccount targetProgram _ _) = [owner, toolAccount, targetProgram]"
| "request_keys (RInvokeMcpTool caller toolAccount logAccount _) = [caller, toolAccount, logAccount]"
| "request_keys (RCreateSwarm creator swarmAccount _ _ _) = [creator, swarmAccount]"
| "request_keys (RJoinSwarm agent swarmAccount) = [agent, swarmAccount]"
| "request_keys (RSwarmPropose proposer swarmAccount _ _) = [proposer, swarmAccount]"
| "request_keys (RSwarmVote voter swarmAccount _ _) = [voter, swarmAccount]"
| "request_keys (REvmEnvelope deployer _) = [deployer]"
| "request_keys (REvmDeploy deployer _) = [deployer]"
| "request_keys (REvmCall caller _ _) = [caller]"
| "request_keys (RCrossVmCall caller _ _ targetAddress _) = [caller, targetAddress]"
| "request_keys (RWasmDeploy deployer _) = [deployer]"
| "request_keys (RMoveDeploy deployer _) = [deployer]"
| "request_keys (RSvmDeploy deployer _) = [deployer]"

fun request_guard :: "bytes \<Rightarrow> tx_request \<Rightarrow> bool" where
  "request_guard MEMO_PROGRAM_ID (RTransfer _ _ _ memo) = (memo \<noteq> None \<and> memo \<noteq> Some [] \<longrightarrow> length MEMO_PROGRAM_ID = 32)"
| "request_guard MEMO_PROGRAM_ID (RInvokeMcpTool _ _ _ inputHash) = (length inputHash = 32)"
| "request_guard MEMO_PROGRAM_ID (REvmCall _ contract _) = (length (bufferFromHex (padStart40 (strip0x contract))) = 20)"
| "request_guard MEMO_PROGRAM_ID (RWasmDeploy _ _) = (False)"
| "request_guard MEMO_PROGRAM_ID (RMoveDeploy _ _) = (False)"
| "request_guard MEMO_PROGRAM_ID _ = True"

text \<open>Who must sign, as the comments of the builders say; and the builders that put another account in front of the signer.\<close>

fun request_signers :: "tx_request \<Rightarrow> string list" where
  "request_signers (RTransfer from _ _ _) = [from]"
| "request_signers (RCreateAccount payer newAccount _ _ _) = [payer, newAccount]"
| "request_signers (RTokenTransfer authority _ _ _ _) = [authority]"
| "request_signers (RCreateMint payer mintAccount _ _) = [payer, mintAccount]"
| "request_signers (RMintTo mintAuthority _ _ _) = [mintAuthority]"
| "request_signers (RBurn owner _ _ _) = [owner]"
| "request_signers (RFreeze freezeAuthority _ _) = [freezeAuthority]"
| "request_signers (RCreateStake staker stakeAccount _) = [staker, stakeAccount]"
| "request_signers (RDelegateStake staker _ _) = [staker]"
| "request_signers (RDeactivateStake staker _) = [staker]"
| "request_signers (RWithdrawStake staker _ _ _) = [staker]"
| "request_signers (RRegisterAgent authority _ _ _) = [authority]"
| "request_signers (RSetAgentStatus authority _ _) = [authority]"
| "request_signers (RSetDelegate authority _ _ _) = [authority]"
| "request_signers (RCreateA2AChannel owner _ _ _ _ _ _ _) = [owner]"
| "request_signers (RRegisterMcpTool owner _ _ _ _) = [owner]"
| "request_signers (RInvokeMcpTool caller _ _ _) = [caller]"
| "request_signers (RCreateSwarm creator _ _ _ _) = [creator]"
| "request_signers (RJoinSwarm agent _) = [agent]"
| "request_signers (RSwarmPropose proposer _ _ _) = [proposer]"
| "request_signers (RSwarmVote voter _ _ _) = [voter]"
| "request_signers (REvmEnvelope deployer _) = [deployer]"
| "request_signers (REvmDeploy deployer _) = [deployer]"
| "request_signers (REvmCall caller _ _) = [caller]"
| "request_signers (RCrossVmCall caller _ _ _ _) = [caller]"
| "request_signers (RWasmDeploy deployer _) = [deployer]"
| "request_signers (RMoveDeploy deployer _) = [deployer]"
| "request_signers (RSvmDeploy deployer _) = [deployer]"

fun first_account :: "tx_request \<Rightarrow> string option" where
  "first_account (RFreeze _ tokenAccount _) = Some tokenAccount"
| "first_account (RDelegateStake _ stakeAccount _) = Some stakeAccount"
| "first_account (RDeactivateStake _ stakeAccount) = Some stakeAccount"
| "first_account (RWithdrawStake _ stakeAccount _ _) = Some stakeAccount"
| "first_account (RSetAgentStatus _ agentAccount _) = Some agentAccount"
| "first_account (RSetDelegate _ agentAccount _ _) = Some agentAccount"
| "first_account _ = None"

definition valid_key :: "(string \<Rightarrow> bytes option) \<Rightarrow> string \<Rightarrow> bool" where
  "valid_key bs58_decode s = (case bs58_decode s of None \<Rightarrow> False | Some d \<Rightarrow> length d \<le> 32)"

text \<open>The bytes of a valid key.\<close>

definition key_of :: "(string \<Rightarrow> bytes option) \<Rightarrow> string \<Rightarrow> bytes" where
  "key_of bs58_decode s = pad32 (the (bs58_decode s))"

text \<open>The indices of a message point into its keys.\<close>

definition indices_ok :: "Message \<Rightarrow> bool" where
  "indices_ok msg \<longleftrightarrow> 1 \<le> mg_numRequiredSignatures msg
     \<and> mg_numRequiredSignatures msg + mg_numReadonlyUnsigned msg \<le> length (mg_accountKeys msg) \<and> mg_numReadonlySigned msg = 0
     \<and> list_all (\<lambda>ix. 0 \<le> ci_programIdIndex ix \<and> ci_programIdIndex ix < int (length (mg_accountKeys msg))
         \<and> list_all (\<lambda>a. unat a < length (mg_accountKeys msg)) (ci_accounts ix)) (mg_instructions msg)"

text \<open>A builder that succeeds has serialised a message with a property.\<close>

definition builds :: "(tx_error, bytes) result \<Rightarrow> (Message \<Rightarrow> bool) \<Rightarrow> bool" where
  "builds r P \<longleftrightarrow> (\<forall>tx. r = Inr tx \<longrightarrow> (\<exists>msg. unsignedTransaction msg = Inr tx \<and> P msg))"

section \<open>Lemmas\<close>

lemmas builder_defs = buildTransferTx_def buildCreateAccountTx_def buildTokenTransferTx_def buildCreateMintTx_def buildMintToTx_def
  buildBurnTx_def buildFreezeTx_def buildCreateStakeTx_def buildDelegateStakeTx_def buildDeactivateStakeTx_def
  buildWithdrawStakeTx_def buildRegisterAgentTx_def buildSetAgentStatusTx_def buildSetDelegateTx_def buildCreateA2AChannelTx_def
  buildRegisterMcpToolTx_def buildInvokeMcpToolTx_def buildCreateSwarmTx_def buildJoinSwarmTx_def buildSwarmProposeTx_def
  buildSwarmVoteTx_def wrapEvmRlpInSvmTx_def buildEvmDeployTx_def buildEvmCallTx_def buildCrossVmCallTx_def
  buildWasmDeployTx_def buildMoveDeployTx_def buildSvmDeployTx_def

lemma builds_bind: "(\<And>x. r = Inr x \<Longrightarrow> builds (f x) P) \<Longrightarrow> builds (bind_result r f) P"
  by (cases r) (simp_all add: builds_def)

lemma builds_unsigned: "P msg \<Longrightarrow> builds (unsignedTransaction msg) P"
  by (auto simp: builds_def)

lemma builds_Inl: "builds (Inl e) P"
  by (simp add: builds_def)

lemma builds_Inr: "False \<Longrightarrow> builds (Inr e) P"
  by (simp add: builds_def)

lemma builds_if: "(c \<Longrightarrow> builds r P) \<Longrightarrow> (\<not> c \<Longrightarrow> builds r' P) \<Longrightarrow> builds (if c then r else r') P"
  by simp

lemmas builds_rules = builds_bind builds_unsigned builds_Inl builds_if

lemmas message_simps = buildMessage_def indices_ok_def

lemma builds_indices: "builds (build_request memo_id bs58 rb req) indices_ok"
  by (cases req)
    (auto simp: builder_defs Let_def message_simps intro!: builds_rules split: option.splits list.splits)

lemma length_key_of [simp]: "valid_key d s \<Longrightarrow> length (key_of d s) = 32"
  by (auto simp: valid_key_def key_of_def pad32_def split: option.splits)

lemma pubkeyBytes_valid: "valid_key d s \<Longrightarrow> pubkeyBytes d s = Inr (key_of d s)"
  by (auto simp: pubkeyBytes_def valid_key_def key_of_def pad32_def split: option.splits)

lemma blockhashBytes_valid: "valid_key d s \<Longrightarrow> blockhashBytes d s = Inr (key_of d s)"
  by (auto simp: blockhashBytes_def valid_key_def key_of_def pad32_def split: option.splits)

lemma keys_invalid: "\<not> valid_key d s \<Longrightarrow> \<not> is_ok (pubkeyBytes d s)" "\<not> valid_key d s \<Longrightarrow> \<not> is_ok (blockhashBytes d s)"
  by (auto simp: pubkeyBytes_def blockhashBytes_def valid_key_def split: option.splits)

lemma is_ok_bind_key:
  "is_ok (bind_result (pubkeyBytes d s) f) \<longleftrightarrow> valid_key d s \<and> is_ok (f (key_of d s))"
  "is_ok (bind_result (blockhashBytes d s) f) \<longleftrightarrow> valid_key d s \<and> is_ok (f (key_of d s))"
  using keys_invalid [of d s] by (cases "valid_key d s"; auto simp: pubkeyBytes_valid blockhashBytes_valid bind_result_def split: sum.splits)+

lemma is_ok_unsigned: "is_ok (unsignedTransaction msg) \<longleftrightarrow> list_all (\<lambda>k. length k = 32) (mg_accountKeys msg) \<and> length (mg_recentBlockhash msg) = 32"
  unfolding unsignedTransaction_def is_ok_iff serialize_ok by (simp add: list_all_iff)

lemma length_program_ids [simp]:
  "length SYSTEM_PROGRAM_ID = 32" "length TOKEN_PROGRAM_ID = 32" "length EVM_PROGRAM_ID = 32" "length STAKE_PROGRAM_ID = 32"
  "length SYSVAR_RENT_PUBKEY = 32" "length AGENT_PROGRAM_ID = 32" "length A2A_PROGRAM_ID = 32" "length MCP_PROGRAM_ID = 32"
  "length SWARM_PROGRAM_ID = 32" "length BPF_LOADER_PROGRAM_ID = 32" "length WASM_PROGRAM_ID = 30" "length MOVE_PROGRAM_ID = 30"
  by (simp_all add: SYSTEM_PROGRAM_ID_def TOKEN_PROGRAM_ID_def EVM_PROGRAM_ID_def STAKE_PROGRAM_ID_def SYSVAR_RENT_PUBKEY_def
      AGENT_PROGRAM_ID_def A2A_PROGRAM_ID_def MCP_PROGRAM_ID_def SWARM_PROGRAM_ID_def BPF_LOADER_PROGRAM_ID_def
      WASM_PROGRAM_ID_def MOVE_PROGRAM_ID_def)

lemma build_ok_iff:
  "is_ok (build_request memo_id d rb req) \<longleftrightarrow> list_all (valid_key d) (request_keys req) \<and> valid_key d rb \<and> request_guard memo_id req"
proof (cases req)
  case (RTransfer a b l memo)
  then show ?thesis
    by (cases memo; cases "the memo") (auto simp: buildTransferTx_def is_ok_bind_key is_ok_unsigned buildMessage_def Let_def cong: conj_cong)
next
  case (RSetDelegate a b delegate l)
  then show ?thesis
    by (cases delegate) (auto simp: buildSetDelegateTx_def is_ok_bind_key is_ok_unsigned buildMessage_def bind_result_assoc cong: conj_cong)
qed (auto simp: builder_defs is_ok_bind_key is_ok_unsigned buildMessage_def Let_def cong: conj_cong)

text \<open>The signers.\<close>

lemma builds_signers:
  "first_account req = None \<Longrightarrow> builds (build_request memo_id d rb req)
     (\<lambda>msg. map (pubkeyBytes d) (request_signers req) = map Inr (take (mg_numRequiredSignatures msg) (mg_accountKeys msg)))"
  by (cases req)
    (auto simp: builder_defs Let_def buildMessage_def intro!: builds_rules split: option.splits list.splits)

lemma builds_misplaced:
  "first_account req = Some a \<Longrightarrow> builds (build_request memo_id d rb req)
     (\<lambda>msg. mg_numRequiredSignatures msg = 1 \<and> pubkeyBytes d a = Inr (hd (mg_accountKeys msg)))"
  by (cases req)
    (auto simp: builder_defs Let_def buildMessage_def intro!: builds_rules split: option.splits list.splits)

text \<open>A transaction of less than \<open>2\<^sup>3\<^sup>2\<close> bytes has parts that fit.\<close>

lemma writeKeys_length: "writeKeys ks = Inr bs \<Longrightarrow> length bs = 32 * length ks"
  by (induction ks arbitrary: bs) (auto simp: bind_result_def writeFixedBytes32_def split: sum.splits if_splits)

lemma length_instructions: "length is \<le> length (concat (map writeInstruction is))"
  by (induction "is") (simp_all add: writeInstruction_def)

lemma length_instruction_le: "ix \<in> set is \<Longrightarrow> length (ci_accounts ix) + length (ci_data ix) \<le> length (concat (map writeInstruction is))"
  by (induction "is") (auto simp: writeInstruction_def writeVec_def)

lemma sized_of_length:
  assumes "serializeTransaction msg sigs = Inr tx" "length tx < 2 ^ 32"
  shows "sized_msg msg" "fits sigs"
proof -
  from assms(1) obtain ss ks where ss: "writeSignatures sigs = Inr ss" and ks: "writeKeys (mg_accountKeys msg) = Inr ks"
    and len: "length tx = 11 + length ss + length ks + length (mg_recentBlockhash msg) + 4 + length (concat (map writeInstruction (mg_instructions msg)))"
    by (auto simp: serializeTransaction_def serializeMessage_def bind_result_def writeFixedBytes32_def split: sum.splits if_splits)
  have l: "length ss = 64 * length sigs" "length ks = 32 * length (mg_accountKeys msg)"
    "length (mg_instructions msg) \<le> length (concat (map writeInstruction (mg_instructions msg)))"
    using writeSignatures_length [OF ss] writeKeys_length [OF ks] length_instructions by auto
  show "fits sigs" using l len assms(2) by (simp add: fits_def)
  have "fits (ci_accounts ix) \<and> fits (ci_data ix)" if "ix \<in> set (mg_instructions msg)" for ix
    using length_instruction_le [OF that] len assms(2) by (auto simp: fits_def)
  then show "sized_msg msg" using l len assms(2) by (auto simp: sized_msg_def fits_def list_all_iff)
qed

section \<open>Properties\<close>

text \<open>C29. Every builder produces a transaction that decodes, or refuses its input. A builder returns exactly when each address it is given
  and the blockhash are base58 of at most 32 bytes, its own guards hold (a 32-byte input hash, a 20-byte contract address),
  and it is not a WASM or Move deployment; the bytes then decode to a message with as many empty signatures
  as its header requires, whose header counts fit its keys and whose program and account indices all point into its keys.\<close>

theorem tx_builders_decode:
  assumes "case build_request memo_id bs58_decode rb req of Inr tx \<Rightarrow> length tx < 2 ^ 32 | Inl _ \<Rightarrow> True"
  shows "case build_request memo_id bs58_decode rb req of
      Inr tx \<Rightarrow> list_all (valid_key bs58_decode) (request_keys req) \<and> valid_key bs58_decode rb \<and> request_guard memo_id req
        \<and> (\<exists>msg. indices_ok msg \<and> decodeTransaction bs58_encode tx
             = decoded_of bs58_encode msg (replicate (mg_numRequiredSignatures msg) (replicate 64 0)))
    | Inl e \<Rightarrow> \<not> (list_all (valid_key bs58_decode) (request_keys req) \<and> valid_key bs58_decode rb \<and> request_guard memo_id req)"
proof (cases "build_request memo_id bs58_decode rb req")
  case (Inl e)
  then show ?thesis using build_ok_iff [of memo_id bs58_decode rb req] by simp
next
  case (Inr tx)
  then obtain msg where msg: "unsignedTransaction msg = Inr tx" "indices_ok msg"
    using builds_indices [of memo_id bs58_decode rb req] by (auto simp: builds_def)
  have "length tx < 2 ^ 32" using assms Inr by simp
  note s = sized_of_length [OF msg(1) [unfolded unsignedTransaction_def] this]
  have "decodeTransaction bs58_encode tx = decoded_of bs58_encode msg (replicate (mg_numRequiredSignatures msg) (replicate 64 0))"
    by (rule decode_serialized [OF msg(1) [unfolded unsignedTransaction_def] s])
  with Inr msg(2) show ?thesis using build_ok_iff [of memo_id bs58_decode rb req] by auto
qed

theorem tx_builders_decode_witness:
  "\<exists>tx msg. build_request [] (\<lambda>s. Some (replicate 32 1)) ''c'' (RJoinSwarm ''a'' ''b'') = Inr tx \<and> indices_ok msg
     \<and> decodeTransaction toHex tx = decoded_of toHex msg (replicate (mg_numRequiredSignatures msg) (replicate 64 0))"
proof -
  obtain tx where tx: "build_request [] (\<lambda>s. Some (replicate 32 1)) ''c'' (RJoinSwarm ''a'' ''b'') = Inr tx"
    using build_ok_iff [of "[]" "\<lambda>s. Some (replicate 32 1)" "''c''" "RJoinSwarm ''a'' ''b''"] by (auto simp: is_ok_iff valid_key_def)
  moreover have "length tx < 2 ^ 32"
    using tx by (auto simp: buildJoinSwarmTx_def pubkeyBytes_def blockhashBytes_def unsignedTransaction_def serializeTransaction_def
        serializeMessage_def buildMessage_def writeFixedBytes32_def writeInstruction_def writeVec_def)
  ultimately show ?thesis
    using tx_builders_decode [of "[]" "\<lambda>s. Some (replicate 32 1)" "''c''" "RJoinSwarm ''a'' ''b''" toHex] by auto
qed

text \<open>Signers come first, in the builders that keep the rule of the format: the first keys of the message, as many as its header requires
  signatures, are those of the accounts that must sign, in order.\<close>

theorem tx_signers_first:
  assumes "first_account req = None" "build_request memo_id bs58_decode rb req = Inr tx"
  shows "\<exists>msg. unsignedTransaction msg = Inr tx
    \<and> map (pubkeyBytes bs58_decode) (request_signers req) = map Inr (take (mg_numRequiredSignatures msg) (mg_accountKeys msg))"
  using builds_signers [OF assms(1), of memo_id bs58_decode rb] assms(2) by (auto simp: builds_def)

theorem tx_signers_first_witness:
  "\<exists>tx msg. build_request [] (\<lambda>s. Some (replicate 32 1)) ''c'' (RMintTo ''a'' ''b'' ''d'' 5) = Inr tx \<and> unsignedTransaction msg = Inr tx
     \<and> map (pubkeyBytes (\<lambda>s. Some (replicate 32 1))) [''a''] = map Inr (take (mg_numRequiredSignatures msg) (mg_accountKeys msg))"
proof -
  obtain tx where tx: "build_request [] (\<lambda>s. Some (replicate 32 1)) ''c'' (RMintTo ''a'' ''b'' ''d'' 5) = Inr tx"
    using build_ok_iff [of "[]" "\<lambda>s. Some (replicate 32 1)" "''c''" "RMintTo ''a'' ''b'' ''d'' 5"] by (auto simp: is_ok_iff valid_key_def)
  with tx_signers_first [OF _ tx] show ?thesis by auto
qed

text \<open>The other builders require the wrong signature. Freezing, delegating, deactivating and withdrawing stake, setting the status or the
  delegate of an agent put the account they act on first: the message requires one signature, that of this account, and not
  that of the authority.\<close>

theorem tx_signer_misplaced:
  assumes "first_account req = Some a" "build_request memo_id bs58_decode rb req = Inr tx"
  shows "\<exists>msg. unsignedTransaction msg = Inr tx \<and> mg_numRequiredSignatures msg = 1
    \<and> pubkeyBytes bs58_decode a = Inr (hd (mg_accountKeys msg))"
  using builds_misplaced [OF assms(1), of memo_id bs58_decode rb] assms(2) by (auto simp: builds_def)

theorem tx_signer_misplaced_witness:
  "\<exists>tx msg. build_request [] (\<lambda>s. Some (replicate 32 1)) ''c'' (RFreeze ''a'' ''b'' ''d'') = Inr tx \<and> unsignedTransaction msg = Inr tx
     \<and> mg_numRequiredSignatures msg = 1 \<and> pubkeyBytes (\<lambda>s. Some (replicate 32 1)) ''b'' = Inr (hd (mg_accountKeys msg))"
proof -
  obtain tx where tx: "build_request [] (\<lambda>s. Some (replicate 32 1)) ''c'' (RFreeze ''a'' ''b'' ''d'') = Inr tx"
    using build_ok_iff [of "[]" "\<lambda>s. Some (replicate 32 1)" "''c''" "RFreeze ''a'' ''b'' ''d''"] by (auto simp: is_ok_iff valid_key_def)
  with tx_signer_misplaced [OF _ tx, of "''b''"] show ?thesis by auto
qed

text \<open>WASM and Move modules cannot be deployed: the program ids written in the code have 30 bytes, so that both builders
  throw on every input.\<close>

theorem wasm_move_deploy_fails:
  "\<not> is_ok (buildWasmDeployTx bs58_decode deployer module_bytes rb) \<and> \<not> is_ok (buildMoveDeployTx bs58_decode deployer module_bytes rb)"
  using build_ok_iff [of memo_id bs58_decode rb "RWasmDeploy deployer module_bytes"]
    build_ok_iff [of memo_id bs58_decode rb "RMoveDeploy deployer module_bytes"] by simp

end
