(* ===== verification/Evm_Rlp.thy ===== *)
theory Evm_Rlp
  imports Tx_Builders Hex_Text
begin

text \<open>
  The EVM side of \<^verbatim>\<open>src/wasm/index.ts\<close>: RLP encoding, the EIP-155 signing hashes and the signed EVM transactions that are
  wrapped in an envelope of \<^verbatim>\<open>Tx_Builders\<close>. \<open>keccak_256\<close> is a parameter.

  An RLP buffer is a list of numbers that ends up in a \<open>Uint8Array\<close>; here it is the list of bytes from the start. The main
  result: the signing hash binds every field of the transaction, up to a collision of the hash function.
\<close>

section \<open>RLP\<close>

definition bigint_toString16 :: "int \<Rightarrow> string" where
  "bigint_toString16 n = (if n < 0 then CHR ''-'' # show_hex (nat (- n)) else show_hex (nat n))"

definition bigintToBeBytes :: "int \<Rightarrow> bytes" where
  "bigintToBeBytes n = (if n = 0 then []
     else let hex = bigint_toString16 n; padded = (if length hex mod 2 = 0 then hex else CHR ''0'' # hex)
     in bufferFromHex padded)"

definition rlpEncodeItem :: "bytes \<Rightarrow> bytes" where
  "rlpEncodeItem bs = (
     if length bs = 0 then [0x80]
     else if length bs = 1 \<and> bs ! 0 < 0x80 then [bs ! 0]
     else if length bs \<le> 55 then (0x80 + of_nat (length bs)) # bs
     else let lenBytes = bigintToBeBytes (int (length bs)) in (0xb7 + of_nat (length lenBytes)) # lenBytes @ bs)"

definition rlpEncodeInt :: "int \<Rightarrow> bytes" where
  "rlpEncodeInt n = rlpEncodeItem (bigintToBeBytes n)"

definition rlpEncodeList :: "bytes list \<Rightarrow> bytes" where
  "rlpEncodeList items = (let flat = concat items; len = length flat
     in if len \<le> 55 then (0xc0 + of_nat len) # flat
     else let lenBytes = bigintToBeBytes (int len) in (0xf7 + of_nat (length lenBytes)) # lenBytes @ flat)"

section \<open>Transactions\<close>

definition buildEvmDeploySigningHash :: "(bytes \<Rightarrow> bytes) \<Rightarrow> string \<Rightarrow> int \<Rightarrow> int \<Rightarrow> int \<Rightarrow> int \<Rightarrow> int \<Rightarrow> bytes" where
  "buildEvmDeploySigningHash keccak_256 bytecode chainId nonce gasPrice gasLimit amount = (
     let data = bufferFromHex (strip0x bytecode)
     in keccak_256 (rlpEncodeList [rlpEncodeInt nonce, rlpEncodeInt gasPrice, rlpEncodeInt gasLimit, [0x80], rlpEncodeInt amount,
          rlpEncodeItem data, rlpEncodeInt chainId, rlpEncodeInt 0, rlpEncodeInt 0]))"

definition buildEvmCallSigningHash :: "(bytes \<Rightarrow> bytes) \<Rightarrow> string \<Rightarrow> string \<Rightarrow> int \<Rightarrow> int \<Rightarrow> int \<Rightarrow> int \<Rightarrow> int \<Rightarrow> bytes" where
  "buildEvmCallSigningHash keccak_256 contract calldata chainId nonce gasPrice gasLimit amount = (
     let to = bufferFromHex (padStart40 (strip0x contract)); cd = bufferFromHex (strip0x calldata)
     in keccak_256 (rlpEncodeList [rlpEncodeInt nonce, rlpEncodeInt gasPrice, rlpEncodeInt gasLimit, rlpEncodeItem to, rlpEncodeInt amount,
          rlpEncodeItem cd, rlpEncodeInt chainId, rlpEncodeInt 0, rlpEncodeInt 0]))"

text \<open>The chain id of a signed transaction is only in \<open>v\<close>.\<close>

definition buildSignedEvmDeployTx :: "(string \<Rightarrow> bytes option) \<Rightarrow> string \<Rightarrow> string \<Rightarrow> bytes \<Rightarrow> bytes \<Rightarrow> int \<Rightarrow> int \<Rightarrow> int \<Rightarrow> int \<Rightarrow> int \<Rightarrow> int
    \<Rightarrow> string \<Rightarrow> (tx_error, bytes) result" where
  "buildSignedEvmDeployTx bs58_decode deployer bytecode r s v chainId nonce gasPrice gasLimit amount recentBlockhash = (
     let data = bufferFromHex (strip0x bytecode);
       rlp = rlpEncodeList [rlpEncodeInt nonce, rlpEncodeInt gasPrice, rlpEncodeInt gasLimit, [0x80], rlpEncodeInt amount,
          rlpEncodeItem data, rlpEncodeInt v, rlpEncodeItem r, rlpEncodeItem s]
     in wrapEvmRlpInSvmTx bs58_decode deployer rlp recentBlockhash)"

definition buildSignedEvmCallTx :: "(string \<Rightarrow> bytes option) \<Rightarrow> string \<Rightarrow> string \<Rightarrow> string \<Rightarrow> bytes \<Rightarrow> bytes \<Rightarrow> int \<Rightarrow> int \<Rightarrow> int \<Rightarrow> int \<Rightarrow> int \<Rightarrow> int
    \<Rightarrow> string \<Rightarrow> (tx_error, bytes) result" where
  "buildSignedEvmCallTx bs58_decode caller contract calldata r s v chainId nonce gasPrice gasLimit amount recentBlockhash = (
     let to = bufferFromHex (padStart40 (strip0x contract)); cd = bufferFromHex (strip0x calldata);
       rlp = rlpEncodeList [rlpEncodeInt nonce, rlpEncodeInt gasPrice, rlpEncodeInt gasLimit, rlpEncodeItem to, rlpEncodeInt amount,
          rlpEncodeItem cd, rlpEncodeInt v, rlpEncodeItem r, rlpEncodeItem s]
     in wrapEvmRlpInSvmTx bs58_decode caller rlp recentBlockhash)"

section \<open>Specification\<close>

text \<open>Big-endian value.\<close>

definition be_value :: "bytes \<Rightarrow> nat" where
  "be_value bs = foldl (\<lambda>n b. 256 * n + unat b) 0 bs"

text \<open>The fields a signature must cover: destination (empty for a deployment), data, chain, nonce, gas price, gas limit and amount.\<close>

record evm_fields =
  ef_to :: bytes
  ef_data :: bytes
  ef_chainId :: int
  ef_nonce :: int
  ef_gasPrice :: int
  ef_gasLimit :: int
  ef_amount :: int

definition signing_items :: "evm_fields \<Rightarrow> bytes list" where
  "signing_items f = [bigintToBeBytes (ef_nonce f), bigintToBeBytes (ef_gasPrice f), bigintToBeBytes (ef_gasLimit f), ef_to f,
     bigintToBeBytes (ef_amount f), ef_data f, bigintToBeBytes (ef_chainId f), [], []]"

definition signing_preimage :: "evm_fields \<Rightarrow> bytes" where
  "signing_preimage f = rlpEncodeList (map rlpEncodeItem (signing_items f))"

datatype evm_request = EvmDeploy string | EvmCall string string

fun fields_of :: "evm_request \<Rightarrow> int \<Rightarrow> int \<Rightarrow> int \<Rightarrow> int \<Rightarrow> int \<Rightarrow> evm_fields" where
  "fields_of (EvmDeploy bytecode) chainId nonce gasPrice gasLimit amount = \<lparr>ef_to = [], ef_data = bufferFromHex (strip0x bytecode),
     ef_chainId = chainId, ef_nonce = nonce, ef_gasPrice = gasPrice, ef_gasLimit = gasLimit, ef_amount = amount\<rparr>"
| "fields_of (EvmCall contract calldata) chainId nonce gasPrice gasLimit amount = \<lparr>ef_to = bufferFromHex (padStart40 (strip0x contract)),
     ef_data = bufferFromHex (strip0x calldata), ef_chainId = chainId, ef_nonce = nonce, ef_gasPrice = gasPrice, ef_gasLimit = gasLimit,
     ef_amount = amount\<rparr>"

fun signing_hash :: "(bytes \<Rightarrow> bytes) \<Rightarrow> evm_request \<Rightarrow> int \<Rightarrow> int \<Rightarrow> int \<Rightarrow> int \<Rightarrow> int \<Rightarrow> bytes" where
  "signing_hash k (EvmDeploy bytecode) = buildEvmDeploySigningHash k bytecode"
| "signing_hash k (EvmCall contract calldata) = buildEvmCallSigningHash k contract calldata"

definition natural_fields :: "evm_fields \<Rightarrow> bool" where
  "natural_fields f \<longleftrightarrow> 0 \<le> ef_chainId f \<and> 0 \<le> ef_nonce f \<and> 0 \<le> ef_gasPrice f \<and> 0 \<le> ef_gasLimit f \<and> 0 \<le> ef_amount f
     \<and> length (signing_preimage f) < 2 ^ 64"

section \<open>Numbers and bytes\<close>

lemma unat_byte: "k < 256 \<Longrightarrow> unat (of_nat k :: 8 word) = k"
  by (simp add: unsigned_of_nat take_bit_eq_mod)

lemma be_value_buffer:
  assumes "list_all is_hex s" "even (length s)"
  shows "foldl (\<lambda>n b. 256 * n + unat b) x (bufferFromHex s) = foldl (\<lambda>n c. 16 * n + hex_value c) x s" "length (bufferFromHex s) = length s div 2"
proof -
  have "foldl (\<lambda>n b. 256 * n + unat b) x (bufferFromHex s) = foldl (\<lambda>n c. 16 * n + hex_value c) x s \<and> length (bufferFromHex s) = length s div 2"
    using assms
  proof (induction s arbitrary: x rule: buffer_from_hex.induct)
    case (1 a b s)
    then have "16 * hex_value a + hex_value b < 256" using hex_value_less [of a] hex_value_less [of b] by simp
    then have "unat (of_nat (16 * hex_value a + hex_value b) :: 8 word) = 16 * hex_value a + hex_value b"
      by (rule unat_byte)
    then show ?case using 1 by (simp add: bufferFromHex_def add.assoc del: of_nat_add of_nat_mult)
  qed (simp_all add: bufferFromHex_def)
  then show "foldl (\<lambda>n b. 256 * n + unat b) x (bufferFromHex s) = foldl (\<lambda>n c. 16 * n + hex_value c) x s" "length (bufferFromHex s) = length s div 2" by simp_all
qed

lemma be_bytes_value: "0 \<le> n \<Longrightarrow> be_value (bigintToBeBytes n) = nat n"
proof (cases "n = 0")
  case False
  assume "0 \<le> n"
  let ?h = "show_hex (nat n)"
  let ?p = "if length ?h mod 2 = 0 then ?h else CHR ''0'' # ?h"
  have p: "list_all is_hex ?p" "even (length ?p)"
    using show_hex_val(2) [of "nat n"] by (auto simp: is_hex_def is_digit_def code_def)
  have "hex_val ?p = hex_val ?h" by (simp add: hex_val_def hex_value_def is_digit_def code_def)
  then have "be_value (bufferFromHex ?p) = nat n"
    using be_value_buffer(1) [OF p, of 0] show_hex_val(1) [of "nat n"] by (simp only: be_value_def hex_val_def)
  with False \<open>0 \<le> n\<close> show ?thesis by (simp add: bigintToBeBytes_def bigint_toString16_def Let_def)
qed (simp add: bigintToBeBytes_def be_value_def)

lemma be_bytes_inject: "0 \<le> m \<Longrightarrow> 0 \<le> n \<Longrightarrow> bigintToBeBytes m = bigintToBeBytes n \<Longrightarrow> m = n"
  by (metis be_bytes_value eq_nat_nat_iff)

lemma be_bytes_length:
  assumes "0 < n" "n < 2 ^ 64"
  shows "length (bigintToBeBytes n) \<le> 8" "bigintToBeBytes n \<noteq> []"
proof -
  let ?h = "show_hex (nat n)"
  let ?p = "if length ?h mod 2 = 0 then ?h else CHR ''0'' # ?h"
  have p: "list_all is_hex ?p" "even (length ?p)"
    using show_hex_val(2) [of "nat n"] by (auto simp: is_hex_def is_digit_def code_def)
  have "nat n < 16 ^ 16" using assms by (simp add: nat_less_iff)
  then have "length ?h \<le> 16" by (rule show_hex_length) simp
  then have l: "length ?p \<le> 16" by (auto simp: le_eq_less_or_eq)
  have "length ?p \<noteq> 0" using show_hex_val(3) [of "nat n"] by simp
  then have "2 \<le> length ?p" using p(2) by presburger
  then show "length (bigintToBeBytes n) \<le> 8" "bigintToBeBytes n \<noteq> []"
    using be_value_buffer(2) [OF p] l assms by (auto simp: bigintToBeBytes_def bigint_toString16_def Let_def)
qed

section \<open>Unique decoding\<close>

text \<open>The first byte of an item, as a number.\<close>

definition item_head :: "bytes \<Rightarrow> nat" where
  "item_head bs = (if bs = [] then 0x80 else if length bs = 1 \<and> bs ! 0 < 0x80 then unat (bs ! 0)
     else if length bs \<le> 55 then 0x80 + length bs else 0xb7 + length (bigintToBeBytes (int (length bs))))"

definition item_tail :: "bytes \<Rightarrow> bytes" where
  "item_tail bs = (if bs = [] \<or> length bs = 1 \<and> bs ! 0 < 0x80 then [] else if length bs \<le> 55 then bs
     else bigintToBeBytes (int (length bs)) @ bs)"

lemma length_be_length:
  assumes "length bs < 2 ^ 64" "55 < length bs"
  shows "length (bigintToBeBytes (int (length bs))) \<le> 8" "bigintToBeBytes (int (length bs)) \<noteq> []"
proof -
  have "0 < int (length bs)" using assms(2) by linarith
  moreover have "int (length bs) < 2 ^ 64" using assms(1) by simp
  ultimately show "length (bigintToBeBytes (int (length bs))) \<le> 8" "bigintToBeBytes (int (length bs)) \<noteq> []" by (rule be_bytes_length)+
qed

lemma unat_head:
  assumes "(k :: nat) + n < 256"
  shows "unat (of_nat k + of_nat n :: 8 word) = k + n"
  using unat_byte [OF assms] by simp

lemma rlp_item_shape:
  assumes "length bs < 2 ^ 64"
  shows "rlpEncodeItem bs = of_nat (item_head bs) # item_tail bs" "item_head bs < 256"
proof -
  have small: "unat (bs ! 0) < 128" if "bs ! 0 < 0x80" using that by (simp add: word_less_nat_alt)
  show "item_head bs < 256"
    using length_be_length [OF assms] small by (cases "55 < length bs") (auto simp: item_head_def)
  show "rlpEncodeItem bs = of_nat (item_head bs) # item_tail bs"
    by (auto simp: rlpEncodeItem_def item_head_def item_tail_def Let_def)
qed

lemma item_tail_cases:
  assumes "length a < 2 ^ 64" "length b < 2 ^ 64" "item_head a = item_head b" "item_tail a @ x = item_tail b @ y"
  shows "a = b \<and> x = y"
proof -
  consider "a = []" | "length a = 1" "a ! 0 < 0x80" | "a \<noteq> []" "length a \<le> 55" "\<not> (length a = 1 \<and> a ! 0 < 0x80)" | "55 < length a"
    by fastforce
  then show ?thesis
  proof cases
    case 1
    moreover have "b = []" using 1 assms(3) length_be_length(2) [OF assms(2)]
      by (auto simp: item_head_def word_less_nat_alt split: if_splits)
    ultimately show ?thesis using assms(4) by (simp add: item_tail_def)
  next
    case 2
    then have "length b = 1 \<and> b ! 0 < 0x80 \<and> unat (a ! 0) = unat (b ! 0)"
      using assms(3) by (auto simp: item_head_def word_less_nat_alt split: if_splits)
    with 2 show ?thesis using assms(4) by (cases a; cases b) (auto simp: item_tail_def intro: unsigned_word_eqI)
  next
    case 3
    then have "b \<noteq> [] \<and> length b = length a \<and> \<not> (length b = 1 \<and> b ! 0 < 0x80)"
      using assms(3) length_be_length(2) [OF assms(2)] by (auto simp: item_head_def word_less_nat_alt split: if_splits)
    with 3 have "item_tail a = a" "item_tail b = b" "length a = length b" by (auto simp: item_tail_def)
    then show ?thesis using assms(4) by simp
  next
    case 4
    then have b: "55 < length b" "length (bigintToBeBytes (int (length b))) = length (bigintToBeBytes (int (length a)))"
      using assms(3) length_be_length(2) [OF assms(1)] by (auto simp: item_head_def word_less_nat_alt neq_Nil_conv split: if_splits)
    have "a \<noteq> []" "b \<noteq> []" using 4 b(1) by auto
    then have "item_tail a = bigintToBeBytes (int (length a)) @ a" "item_tail b = bigintToBeBytes (int (length b)) @ b"
      using 4 b(1) by (simp_all add: item_tail_def)
    then have "bigintToBeBytes (int (length a)) @ a @ x = bigintToBeBytes (int (length b)) @ b @ y" using assms(4) by simp
    then have e: "bigintToBeBytes (int (length a)) = bigintToBeBytes (int (length b))" "a @ x = b @ y" using b(2) by simp_all
    then have "int (length a) = int (length b)" by (intro be_bytes_inject) simp_all
    then show ?thesis using e(2) by simp
  qed
qed

lemma rlp_item_prefix_free:
  assumes "length a < 2 ^ 64" "length b < 2 ^ 64" "rlpEncodeItem a @ x = rlpEncodeItem b @ y"
  shows "a = b \<and> x = y"
proof (rule item_tail_cases [OF assms(1,2)])
  have "(of_nat (item_head a) :: 8 word) = of_nat (item_head b)" and t: "item_tail a @ x = item_tail b @ y"
    using assms(3) rlp_item_shape(1) [OF assms(1)] rlp_item_shape(1) [OF assms(2)] by simp_all
  then have "unat (of_nat (item_head a) :: 8 word) = unat (of_nat (item_head b) :: 8 word)" by simp
  then show "item_head a = item_head b" using rlp_item_shape(2) [OF assms(1)] rlp_item_shape(2) [OF assms(2)] by (simp add: unat_byte)
  show "item_tail a @ x = item_tail b @ y" by (rule t)
qed

lemma rlp_items_inject:
  "length as = length bs \<Longrightarrow> \<forall>a\<in>set as \<union> set bs. length a < 2 ^ 64 \<Longrightarrow> concat (map rlpEncodeItem as) = concat (map rlpEncodeItem bs) \<Longrightarrow> as = bs"
proof (induction as bs rule: list_induct2)
  case (Cons a as b bs)
  then have "a = b \<and> concat (map rlpEncodeItem as) = concat (map rlpEncodeItem bs)"
    by (intro rlp_item_prefix_free) simp_all
  with Cons show ?case by simp
qed simp

lemma length_item_le: "length a \<le> length (rlpEncodeItem a)"
  by (auto simp: rlpEncodeItem_def Let_def)

lemma length_items_le: "a \<in> set as \<Longrightarrow> length a \<le> length (concat (map rlpEncodeItem as))"
  using length_item_le [of a] by (induction as) (auto intro: le_trans)

lemma length_list_le: "length (concat items) \<le> length (rlpEncodeList items)"
  by (simp add: rlpEncodeList_def Let_def)

lemma rlp_list_inject:
  assumes "length (concat xs) < 2 ^ 64" "length (concat ys) < 2 ^ 64" "rlpEncodeList xs = rlpEncodeList ys"
  shows "concat xs = concat ys"
proof -
  let ?x = "concat xs" and ?y = "concat ys"
  define hd where "hd l = (if length l \<le> 55 then 0xc0 + length l else 0xf7 + length (bigintToBeBytes (int (length l))))" for l :: bytes
  define tl where "tl l = (if length l \<le> 55 then l else bigintToBeBytes (int (length l)) @ l)" for l :: bytes
  have shape: "rlpEncodeList zs = of_nat (hd (concat zs)) # tl (concat zs)" for zs
    by (simp add: rlpEncodeList_def hd_def tl_def Let_def)
  have small: "hd l < 256" if "length l < 2 ^ 64" for l
    using length_be_length [OF that] by (auto simp: hd_def)
  have "unat (of_nat (hd ?x) :: 8 word) = unat (of_nat (hd ?y) :: 8 word)" "tl ?x = tl ?y" using assms(3) by (simp_all add: shape)
  then have h: "hd ?x = hd ?y" "tl ?x = tl ?y" using small assms(1,2) by (simp_all add: unat_byte)
  show ?thesis
  proof (cases "length ?x \<le> 55")
    case True
    then have "length ?y \<le> 55" using h(1) length_be_length(2) [OF assms(2)] by (auto simp: hd_def split: if_splits)
    then show ?thesis using h(2) True by (simp add: tl_def)
  next
    case False
    then have "\<not> length ?y \<le> 55" using h(1) length_be_length(2) [OF assms(1)] by (auto simp: hd_def neq_Nil_conv split: if_splits)
    then show ?thesis using h False by (simp add: tl_def hd_def)
  qed
qed

section \<open>Properties\<close>

lemma signing_hash_preimage:
  "signing_hash k req chainId nonce gasPrice gasLimit amount = k (signing_preimage (fields_of req chainId nonce gasPrice gasLimit amount))"
proof -
  have z: "rlpEncodeInt n = rlpEncodeItem (bigintToBeBytes n)" for n by (simp add: rlpEncodeInt_def)
  have e: "rlpEncodeItem [] = [0x80]" by (simp add: rlpEncodeItem_def)
  have "bigintToBeBytes 0 = []" by (simp add: bigintToBeBytes_def)
  then show ?thesis
    by (cases req) (simp_all add: buildEvmDeploySigningHash_def buildEvmCallSigningHash_def signing_preimage_def signing_items_def z e Let_def)
qed

lemma signing_preimage_inject:
  assumes "natural_fields f" "natural_fields g" "signing_preimage f = signing_preimage g"
  shows "f = g"
proof -
  let ?f = "map rlpEncodeItem (signing_items f)" and ?g = "map rlpEncodeItem (signing_items g)"
  have len: "length (concat ?f) < 2 ^ 64" "length (concat ?g) < 2 ^ 64"
    using assms(1,2) length_list_le [of ?f] length_list_le [of ?g] by (auto simp: natural_fields_def signing_preimage_def simp del: map_map)
  have c: "concat ?f = concat ?g" using rlp_list_inject [OF len] assms(3) by (simp add: signing_preimage_def)
  have "signing_items f = signing_items g"
  proof (rule rlp_items_inject [OF _ _ c])
    show "\<forall>a\<in>set (signing_items f) \<union> set (signing_items g). length a < 2 ^ 64"
      using len length_items_le [of _ "signing_items f"] length_items_le [of _ "signing_items g"] by (meson UnE le_less_trans)
  qed (simp add: signing_items_def)
  then show ?thesis
    using assms(1,2) be_bytes_inject by (auto simp: signing_items_def natural_fields_def intro!: evm_fields.equality)
qed

text \<open>C10. The signing hash binds the transaction. If two requests, each a deployment or a call with non-negative numbers and a preimage of
  less than \<open>2\<^sup>6\<^sup>4\<close> bytes, have the same EIP-155 signing hash, then they agree in destination, data, chain id, nonce, gas price, gas
  limit and amount, or two different preimages collide under the hash function. In particular a signature for a
  call is not one for a deployment.\<close>

theorem evm_signing_hash_binds:
  assumes "natural_fields (fields_of req1 chainId1 nonce1 gasPrice1 gasLimit1 amount1)"
    and "natural_fields (fields_of req2 chainId2 nonce2 gasPrice2 gasLimit2 amount2)"
    and "signing_hash keccak_256 req1 chainId1 nonce1 gasPrice1 gasLimit1 amount1
       = signing_hash keccak_256 req2 chainId2 nonce2 gasPrice2 gasLimit2 amount2"
  shows "fields_of req1 chainId1 nonce1 gasPrice1 gasLimit1 amount1 = fields_of req2 chainId2 nonce2 gasPrice2 gasLimit2 amount2
    \<or> (\<exists>x y. x \<noteq> y \<and> keccak_256 x = keccak_256 y)"
  using signing_preimage_inject [OF assms(1,2)] assms(3) unfolding signing_hash_preimage by blast

theorem evm_signing_hash_binds_witness:
  "fields_of (EvmDeploy ''6000'') 1 0 0 0 0 = fields_of (EvmDeploy ''0x6000'') 1 0 0 0 0 \<or> (\<exists>x y. x \<noteq> y \<and> (\<lambda>b :: bytes. b) x = (\<lambda>b. b) y)"
proof (rule evm_signing_hash_binds)
  have "signing_preimage (fields_of (EvmDeploy ''6000'') 1 0 0 0 0) = [203, 128, 128, 128, 128, 128, 130, 96, 0, 1, 128, 128]" by code_simp
  then show "natural_fields (fields_of (EvmDeploy ''6000'') 1 0 0 0 0)" by (simp add: natural_fields_def)
  have "signing_preimage (fields_of (EvmDeploy ''0x6000'') 1 0 0 0 0) = [203, 128, 128, 128, 128, 128, 130, 96, 0, 1, 128, 128]" by code_simp
  then show "natural_fields (fields_of (EvmDeploy ''0x6000'') 1 0 0 0 0)" by (simp add: natural_fields_def)
  show "signing_hash (\<lambda>b. b) (EvmDeploy ''6000'') 1 0 0 0 0 = signing_hash (\<lambda>b. b) (EvmDeploy ''0x6000'') 1 0 0 0 0" by code_simp
qed

text \<open>Input that is not hexadecimal is cut where it stops being so: the transaction deploys a prefix of the bytecode.\<close>

lemma evm_bytecode_truncated: "buildEvmDeploySigningHash k ''600zff'' = buildEvmDeploySigningHash k ''60''"
proof -
  have "bufferFromHex (strip0x ''600zff'') = bufferFromHex (strip0x ''60'')" by code_simp
  then show ?thesis by (simp add: fun_eq_iff buildEvmDeploySigningHash_def)
qed

end
