(* ===== verification/Tool_Gate.thy ===== *)
theory Tool_Gate
  imports Session_Auth
begin

text \<open>
  What stands before every tool of the server: \<^verbatim>\<open>src/tools/index.ts\<close> wraps each handler with
  authentication, a capability check and the rate limiter of \<^verbatim>\<open>src/gateway/rate-limiter.ts\<close>, and
  runs it in the scope of the caller (\<^verbatim>\<open>src/signing/session-context.ts\<close>). Token counts are doubles. The
  handler itself is a function of the tool, the scope and a state; statistics and logging are left out.
\<close>

section \<open>Rate limiter\<close>

datatype category = Read | Write | Deploy

record rate_limits =
  rl_readPerMinute :: int
  rl_writePerMinute :: int
  rl_deployPerMinute :: int

record TokenBucket =
  tb_tokens :: rat
  tb_lastRefill :: int
  tb_maxTokens :: int
  tb_refillRate :: rat

type_synonym buckets = "TokenBucket js_map"

fun per_minute :: "rate_limits \<Rightarrow> category \<Rightarrow> int" where
  "per_minute limits Read = rl_readPerMinute limits"
| "per_minute limits Deploy = rl_deployPerMinute limits"
| "per_minute limits Write = rl_writePerMinute limits"

definition getOrCreate :: "int \<Rightarrow> json option \<Rightarrow> int \<Rightarrow> buckets \<Rightarrow> TokenBucket \<times> buckets" where
  "getOrCreate now key maxPerMinute bs = (case js_map_get bs key of
       Some b \<Rightarrow> (b, bs)
     | None \<Rightarrow> let b = \<lparr>tb_tokens = of_int maxPerMinute, tb_lastRefill = now, tb_maxTokens = maxPerMinute,
                         tb_refillRate = fl53 (of_int maxPerMinute / 60)\<rparr>
               in (b, js_map_set bs key b))"

definition refill :: "int \<Rightarrow> TokenBucket \<Rightarrow> TokenBucket" where
  "refill now b = (let elapsed = fl53 (of_int (now - tb_lastRefill b) / 1000)
     in b\<lparr>tb_tokens := min (of_int (tb_maxTokens b)) (fl53 (tb_tokens b + fl53 (elapsed * tb_refillRate b))),
          tb_lastRefill := now\<rparr>)"

text \<open>\<open>Math.ceil((1 / rate) * 1000)\<close>.\<close>

definition retry_after :: "rat \<Rightarrow> jsnumber" where
  "retry_after rate = (if rate = 0 then JInf True else JInt \<lceil>fl53 (fl53 (1 / rate) * 1000)\<rceil>)"

definition rate_check :: "rate_limits \<Rightarrow> int \<Rightarrow> json option \<Rightarrow> category \<Rightarrow> buckets \<Rightarrow> (gate_error, unit) result \<times> buckets" where
  "rate_check limits now key cat bs = (let (b0, bs1) = getOrCreate now key (per_minute limits cat) bs; b = refill now b0
     in if tb_tokens b < 1
        then (Inl (McpError ''RATE_001'' ''Rate limit exceeded'' (Some (retry_after (tb_refillRate b)))), js_map_set bs1 key b)
        else (Inr (), js_map_set bs1 key (b\<lparr>tb_tokens := fl53 (tb_tokens b - 1)\<rparr>)))"

definition cleanup :: "int \<Rightarrow> buckets \<Rightarrow> buckets" where
  "cleanup now bs = filter (\<lambda>(_, b). \<not> now - tb_lastRefill b > 300000) bs"

section \<open>Tools\<close>

definition TOOL_CAPS :: "(string \<times> string \<times> category) list" where
  "TOOL_CAPS = [
    (''get_balance'', (''wallet:read'', Read)),
    (''get_account'', (''account:read'', Read)),
    (''get_transaction'', (''block:read'', Read)),
    (''get_block'', (''block:read'', Read)),
    (''search'', (''chain:read'', Read)),
    (''get_chain_stats'', (''chain:read'', Read)),
    (''get_block_height'', (''block:read'', Read)),
    (''get_account_transactions'', (''account:read'', Read)),
    (''list_validators'', (''validator:read'', Read)),
    (''get_epoch_info'', (''validator:read'', Read)),
    (''get_vote_accounts'', (''validator:read'', Read)),
    (''airdrop'', (''transfer:write'', Write)),
    (''get_health'', (''chain:read'', Read)),
    (''create_wallet'', (''wallet:create'', Write)),
    (''import_wallet'', (''wallet:create'', Write)),
    (''list_wallets'', (''wallet:read'', Read)),
    (''get_wallet'', (''wallet:read'', Read)),
    (''set_active_wallet'', (''wallet:read'', Write)),
    (''derive_address'', (''wallet:read'', Read)),
    (''transfer_native'', (''transfer:write'', Write)),
    (''batch_transfer'', (''transfer:write'', Write)),
    (''estimate_fee'', (''chain:read'', Read)),
    (''create_token'', (''token:write'', Write)),
    (''mint_tokens'', (''token:write'', Write)),
    (''transfer_token'', (''token:write'', Write)),
    (''burn_tokens'', (''token:write'', Write)),
    (''get_token_info'', (''token:read'', Read)),
    (''get_token_balance'', (''token:read'', Read)),
    (''list_token_holdings'', (''token:read'', Read)),
    (''deploy_evm_contract'', (''deploy:write'', Deploy)),
    (''deploy_wasm_contract'', (''deploy:write'', Deploy)),
    (''deploy_move_module'', (''deploy:write'', Deploy)),
    (''deploy_svm_program'', (''deploy:write'', Deploy)),
    (''call_contract'', (''contract:write'', Write)),
    (''read_contract'', (''contract:read'', Read)),
    (''encode_calldata'', (''contract:read'', Read)),
    (''get_contract_info'', (''contract:read'', Read)),
    (''cross_vm_call'', (''crossvm:write'', Write)),
    (''resolve_cross_vm_address'', (''chain:read'', Read)),
    (''inspect_uth'', (''chain:read'', Read)),
    (''create_stake'', (''stake:write'', Write)),
    (''delegate_stake'', (''stake:write'', Write)),
    (''deactivate_stake'', (''stake:write'', Write)),
    (''withdraw_stake'', (''stake:write'', Write)),
    (''get_stake_info'', (''validator:read'', Read)),
    (''zk_prove'', (''zk:write'', Write)),
    (''zk_verify'', (''zk:write'', Write)),
    (''zk_bn254_ops'', (''zk:write'', Write)),
    (''create_agent'', (''agent:write'', Write)),
    (''list_agents'', (''agent:read'', Read)),
    (''get_agent'', (''agent:read'', Read)),
    (''pause_agent'', (''agent:write'', Write)),
    (''resume_agent'', (''agent:write'', Write)),
    (''create_a2a_channel'', (''a2a:write'', Write)),
    (''send_a2a_message'', (''a2a:write'', Write)),
    (''read_a2a_messages'', (''a2a:read'', Read)),
    (''list_a2a_channels'', (''a2a:read'', Read)),
    (''close_a2a_channel'', (''a2a:write'', Write)),
    (''register_mcp_service'', (''mcp_program:write'', Write)),
    (''call_mcp_service'', (''mcp_program:write'', Write)),
    (''list_mcp_services'', (''mcp_program:read'', Read)),
    (''get_mcp_service'', (''mcp_program:read'', Read)),
    (''create_swarm'', (''swarm:write'', Write)),
    (''join_swarm'', (''swarm:write'', Write)),
    (''swarm_propose'', (''swarm:write'', Write)),
    (''swarm_vote'', (''swarm:write'', Write)),
    (''get_swarm'', (''swarm:read'', Read)),
    (''subscribe_account'', (''subscription:write'', Write)),
    (''subscribe_logs'', (''subscription:write'', Write)),
    (''subscribe_blocks'', (''subscription:write'', Write)),
    (''unsubscribe'', (''subscription:write'', Write)),
    (''batch_execute'', (''batch:write'', Write)),
    (''batch_query'', (''chain:read'', Read)),
    (''forge_compile'', (''contract:read'', Read)),
    (''forge_create'', (''deploy:write'', Deploy)),
    (''cast_call'', (''contract:write'', Write)),
    (''cast_abi_encode'', (''contract:read'', Read)),
    (''anchor_init'', (''deploy:write'', Write)),
    (''anchor_build'', (''deploy:write'', Write)),
    (''anchor_test'', (''deploy:write'', Write)),
    (''session_info'', (''wallet:read'', Read)),
    (''beckn_search'', (''beckn:read'', Read)),
    (''beckn_select'', (''beckn:write'', Write)),
    (''beckn_init'', (''beckn:write'', Write)),
    (''beckn_confirm'', (''beckn:write'', Write)),
    (''beckn_rate'', (''beckn:write'', Write)),
    (''credential_request'', (''credential:write'', Write)),
    (''credential_attach'', (''credential:write'', Write)),
    (''credential_verify'', (''credential:read'', Read)),
    (''credential_revoke'', (''credential:write'', Write)),
    (''bank_open_checking'', (''bank:write'', Write)),
    (''bank_onramp'', (''bank:write'', Write)),
    (''bank_offramp'', (''bank:write'', Write)),
    (''bank_wire'', (''bank:write'', Write)),
    (''bank_transfer_funds'', (''bank:write'', Write))]"

record gate_config =
  gc_auth :: auth_config
  gc_limits :: rate_limits
  gc_deny :: deny_list

text \<open>One call of a tool: the bearer token of the request, the limiter's buckets and the state the handlers work on.
  The handler runs in the scope of \<open>session.sub\<close>.\<close>

definition instrumented :: "mac \<Rightarrow> gate_config \<Rightarrow> (string \<Rightarrow> json option \<Rightarrow> 's \<Rightarrow> 'r \<times> 's) \<Rightarrow> int \<Rightarrow> string option \<Rightarrow> string
    \<Rightarrow> buckets \<times> 's \<Rightarrow> (gate_error, 'r) result \<times> buckets \<times> 's" where
  "instrumented hmac cfg origHandler now bearer name st = (let (bs, s) = st; meta = map_of TOOL_CAPS name in
     case authenticate hmac (gc_auth cfg) (gc_deny cfg) now None bearer of
       Inl e \<Rightarrow> (Inl e, bs, s)
     | Inr ctx \<Rightarrow>
       let session = ac_session ctx; sub = own_field session ''sub'' in
       (case (case meta of Some (cap, _) \<Rightarrow> requireCapability session cap | None \<Rightarrow> Inr ()) of
          Inl e \<Rightarrow> (Inl e, bs, s)
        | Inr _ \<Rightarrow>
          (case rate_check (gc_limits cfg) now sub (case meta of Some (_, cat) \<Rightarrow> cat | None \<Rightarrow> Read) bs of
             (Inl e, bs') \<Rightarrow> (Inl e, bs', s)
           | (Inr _, bs') \<Rightarrow> (let (r, s') = origHandler name sub s in (Inr r, bs', s')))))"

section \<open>Lemmas: doubles in a bucket\<close>

lemma fl53_upper: "0 \<le> q \<Longrightarrow> fl53 q \<le> q * (1 + 1 / 2 ^ 53)"
proof -
  assume "0 \<le> q"
  then have "fl53 q - q \<le> q * (1 / 2 ^ 53)" using fl53_error_nonneg [of q] by linarith
  then show ?thesis by (simp add: algebra_simps)
qed

lemma fl53_lower: "0 \<le> q \<Longrightarrow> q * (1 - 1 / 2 ^ 53) \<le> fl53 q"
proof -
  assume "0 \<le> q"
  then have "q - fl53 q \<le> q * (1 / 2 ^ 53)" using fl53_error_nonneg [of q] by linarith
  then show ?thesis by (simp add: algebra_simps)
qed

text \<open>A bucket whose limit is at most \<open>M\<close> per minute.\<close>

definition bucket_ok :: "int \<Rightarrow> TokenBucket \<Rightarrow> bool" where
  "bucket_ok M b = (0 \<le> tb_tokens b \<and> tb_tokens b \<le> of_int (tb_maxTokens b) \<and> 0 \<le> tb_maxTokens b \<and> tb_maxTokens b \<le> M \<and> M \<le> 2 ^ 53
     \<and> tb_refillRate b = fl53 (of_int (tb_maxTokens b) / 60))"

definition limits_ok :: "int \<Rightarrow> rate_limits \<Rightarrow> bool" where
  "limits_ok M limits = (M \<le> 2 ^ 53 \<and> (\<forall>cat. 0 \<le> per_minute limits cat \<and> per_minute limits cat \<le> M))"

lemma bucket_ok_rate: "bucket_ok M b \<Longrightarrow> 0 \<le> tb_refillRate b \<and> tb_refillRate b \<le> of_int M / 60 * (1 + 1 / 2 ^ 53)"
proof -
  assume b: "bucket_ok M b"
  then have "0 \<le> (of_int (tb_maxTokens b) / 60 :: rat)" "(of_int (tb_maxTokens b) / 60 :: rat) \<le> of_int M / 60"
    by (simp_all add: bucket_ok_def)
  then have "fl53 (of_int (tb_maxTokens b) / 60) \<le> of_int M / 60 * (1 + 1 / 2 ^ 53)"
    by (intro order_trans [OF fl53_upper] mult_right_mono) simp_all
  with b show ?thesis by (simp add: bucket_ok_def fl53_nonneg)
qed

lemma round3: "(1 + 1 / 2 ^ 53 :: rat) ^ 4 \<le> 1 + 1 / 2 ^ 50"
  by (simp add: field_simps)

text \<open>What a refill adds: at most the elapsed time times the rate, up to the rounding of five operations.\<close>

lemma refill_ok:
  assumes "bucket_ok M b" "tb_lastRefill b \<le> now"
  shows "bucket_ok M (refill now b)" "tb_lastRefill (refill now b) = now"
    "tb_tokens (refill now b) \<le> tb_tokens b + of_int M / 2 ^ 53 + of_int (now - tb_lastRefill b) * (of_int M / 60000) * (1 + 1 / 2 ^ 50)"
proof -
  let ?u = "1 + 1 / 2 ^ 53 :: rat"
  define e0 where "e0 = (of_int (now - tb_lastRefill b) / 1000 :: rat)"
  define e where "e = fl53 e0"
  define p where "p = fl53 (e * tb_refillRate b)"
  have e0: "0 \<le> e0" using assms(2) by (simp add: e0_def)
  have e: "0 \<le> e" "e \<le> e0 * ?u" using e0 fl53_nonneg fl53_upper by (auto simp: e_def)
  have r: "0 \<le> tb_refillRate b" "tb_refillRate b \<le> of_int M / 60 * ?u" using bucket_ok_rate [OF assms(1)] by auto
  have er: "e * tb_refillRate b \<le> (e0 * ?u) * (of_int M / 60 * ?u)" using e r e0 by (intro mult_mono) auto
  have p0: "0 \<le> p" using e r fl53_nonneg by (simp add: p_def)
  have "p \<le> e * tb_refillRate b * ?u" unfolding p_def using e r by (intro fl53_upper) simp
  also have "\<dots> \<le> (e0 * ?u) * (of_int M / 60 * ?u) * ?u" using er by (intro mult_right_mono) simp_all
  finally have p: "p \<le> e0 * (of_int M / 60) * ?u ^ 3" by (simp only: power3_eq_cube ac_simps)
  have t: "0 \<le> tb_tokens b" "tb_tokens b \<le> of_int M" using assms(1) by (auto simp: bucket_ok_def intro: order_trans)
  have "fl53 (tb_tokens b + p) \<le> (tb_tokens b + p) * ?u" using t p0 by (intro fl53_upper) simp
  also have "\<dots> = tb_tokens b + tb_tokens b / 2 ^ 53 + p * ?u" by (simp add: algebra_simps)
  also have "\<dots> \<le> tb_tokens b + of_int M / 2 ^ 53 + e0 * (of_int M / 60) * ?u ^ 3 * ?u"
    using t p by (intro add_mono mult_right_mono divide_right_mono) simp_all
  also have "e0 * (of_int M / 60) * ?u ^ 3 * ?u = e0 * (of_int M / 60) * ?u ^ 4" by (simp only: power4_eq_xxxx power3_eq_cube ac_simps)
  also have "\<dots> \<le> e0 * (of_int M / 60) * (1 + 1 / 2 ^ 50)"
    using e0 t round3 by (intro mult_left_mono) (auto intro!: mult_nonneg_nonneg)
  finally have s: "fl53 (tb_tokens b + p) \<le> tb_tokens b + of_int M / 2 ^ 53 + e0 * (of_int M / 60) * (1 + 1 / 2 ^ 50)" by simp
  have rf: "refill now b = b\<lparr>tb_tokens := min (of_int (tb_maxTokens b)) (fl53 (tb_tokens b + p)), tb_lastRefill := now\<rparr>"
    by (simp add: refill_def Let_def p_def e_def e0_def)
  show "tb_lastRefill (refill now b) = now" by (simp add: rf)
  show "bucket_ok M (refill now b)" using assms(1) t p0 fl53_nonneg [of "tb_tokens b + p"] by (simp add: rf bucket_ok_def)
  have "e0 * (of_int M / 60) = of_int (now - tb_lastRefill b) * (of_int M / 60000)" by (simp add: e0_def)
  then have "fl53 (tb_tokens b + p) \<le> tb_tokens b + of_int M / 2 ^ 53 + of_int (now - tb_lastRefill b) * (of_int M / 60000) * (1 + 1 / 2 ^ 50)"
    using s by (simp only:)
  moreover have "tb_tokens (refill now b) \<le> fl53 (tb_tokens b + p)" by (simp add: rf)
  ultimately show "tb_tokens (refill now b) \<le> tb_tokens b + of_int M / 2 ^ 53 + of_int (now - tb_lastRefill b) * (of_int M / 60000) * (1 + 1 / 2 ^ 50)"
    by (rule order_trans [rotated])
qed

lemma take_ok:
  assumes "bucket_ok M b" "1 \<le> tb_tokens b"
  shows "bucket_ok M (b\<lparr>tb_tokens := fl53 (tb_tokens b - 1)\<rparr>)" "fl53 (tb_tokens b - 1) \<le> tb_tokens b - 1 + of_int M / 2 ^ 53"
proof -
  have t: "tb_tokens b \<le> of_int (tb_maxTokens b)" "tb_tokens b \<le> of_int M" using assms(1) by (auto simp: bucket_ok_def intro: order_trans)
  have up: "fl53 (tb_tokens b - 1) \<le> (tb_tokens b - 1) * (1 + 1 / 2 ^ 53)" using assms(2) by (intro fl53_upper) simp
  also have "\<dots> = (tb_tokens b - 1) + (tb_tokens b - 1) / 2 ^ 53" by (simp add: field_simps)
  also have "\<dots> \<le> (tb_tokens b - 1) + of_int M / 2 ^ 53" using t by (intro add_left_mono divide_right_mono) simp_all
  finally show "fl53 (tb_tokens b - 1) \<le> tb_tokens b - 1 + of_int M / 2 ^ 53" .
  have "of_int (tb_maxTokens b) \<le> (2 ^ 53 :: rat)"
    using assms(1) by (metis (no_types, opaque_lifting) bucket_ok_def of_int_le_iff of_int_numeral of_int_power order_trans)
  then have "(tb_tokens b - 1) / 2 ^ 53 \<le> 1" using t(1) by (simp add: field_simps)
  moreover have "fl53 (tb_tokens b - 1) \<le> (tb_tokens b - 1) + (tb_tokens b - 1) / 2 ^ 53" using up by (simp add: field_simps)
  ultimately have "fl53 (tb_tokens b - 1) \<le> of_int (tb_maxTokens b)" using t(1) by linarith
  then show "bucket_ok M (b\<lparr>tb_tokens := fl53 (tb_tokens b - 1)\<rparr>)"
    using assms fl53_nonneg [of "tb_tokens b - 1"] by (simp add: bucket_ok_def)
qed


section \<open>Properties: rate limits\<close>

text \<open>A run of the limiter: checks by any callers and periodic clean-ups, with their times. It counts the
  requests of one caller that were let through.\<close>

datatype limiter_event = LCheck int string category | LCleanup int

fun event_time :: "limiter_event \<Rightarrow> int" where
  "event_time (LCheck t _ _) = t"
| "event_time (LCleanup t) = t"

fun run_limiter :: "rate_limits \<Rightarrow> string \<Rightarrow> limiter_event list \<Rightarrow> nat \<times> buckets \<Rightarrow> nat \<times> buckets" where
  "run_limiter limits who [] st = st"
| "run_limiter limits who (LCheck t k cat # evs) (n, bs) = (let (r, bs') = rate_check limits t (Some (JStr k)) cat bs
     in run_limiter limits who evs (if k = who \<and> is_ok r then Suc n else n, bs'))"
| "run_limiter limits who (LCleanup t # evs) (n, bs) = run_limiter limits who evs (n, cleanup t bs)"

fun ordered_from :: "int \<Rightarrow> limiter_event list \<Rightarrow> bool" where
  "ordered_from t [] = True"
| "ordered_from t (e # evs) = (t \<le> event_time e \<and> ordered_from (event_time e) evs)"

text \<open>The balance of a caller after \<open>n\<close> admitted requests and \<open>steps\<close> events since time \<open>t0\<close>, at which it may have a bucket from
  before.\<close>

definition slack :: "int \<Rightarrow> nat \<Rightarrow> rat" where
  "slack M steps = of_nat steps * (of_int M / 2 ^ 52)"

definition accrued :: "int \<Rightarrow> int \<Rightarrow> rat" where
  "accrued M ms = of_int ms * (of_int M / 60000) * (1 + 1 / 2 ^ 50)"

definition balance_ok :: "int \<Rightarrow> int \<Rightarrow> int \<Rightarrow> nat \<Rightarrow> nat \<Rightarrow> TokenBucket option \<Rightarrow> bool" where
  "balance_ok M t0 t steps n b = (case b of
       None \<Rightarrow> of_nat n \<le> accrued M (t - t0) + slack M steps
     | Some x \<Rightarrow> bucket_ok M x \<and> tb_lastRefill x \<le> t \<and> (tb_lastRefill x < t0 \<longrightarrow> n = 0)
         \<and> of_nat n + tb_tokens x \<le> of_int M + accrued M (max 0 (tb_lastRefill x - t0)) + slack M steps)"

lemma slack_Suc: "slack M (Suc n) = slack M n + of_int M / 2 ^ 52"
  by (simp add: slack_def field_simps)

lemma accrued_add: "accrued M (a + b) = accrued M a + accrued M b"
  by (simp only: accrued_def of_int_add distrib_right)

lemma slack_nonneg: "0 \<le> M \<Longrightarrow> 0 \<le> slack M n"
  by (simp add: slack_def)

lemma accrued_nonneg: "0 \<le> M \<Longrightarrow> 0 \<le> ms \<Longrightarrow> 0 \<le> accrued M ms"
  by (simp add: accrued_def)

lemma accrued_mono: "0 \<le> M \<Longrightarrow> a \<le> b \<Longrightarrow> accrued M a \<le> accrued M b"
  using accrued_add [of M a "b - a"] accrued_nonneg [of M "b - a"] by simp


lemma balance_later: "0 \<le> M \<Longrightarrow> balance_ok M t0 t steps n b \<Longrightarrow> t \<le> t' \<Longrightarrow> balance_ok M t0 t' (Suc steps) n b"
  using accrued_mono [of M "t - t0" "t' - t0"] by (auto simp: balance_ok_def slack_Suc split: option.splits intro: order_trans add_mono)

lemma getOrCreate_other: "k \<noteq> who \<Longrightarrow> js_map_get (snd (getOrCreate t (Some (JStr k)) m bs)) (Some (JStr who)) = js_map_get bs (Some (JStr who))"
  by (simp add: getOrCreate_def js_map_get_set Let_def split: option.split)

lemma rate_check_other: "k \<noteq> who \<Longrightarrow> js_map_get (snd (rate_check limits t (Some (JStr k)) cat bs)) (Some (JStr who)) = js_map_get bs (Some (JStr who))"
  using getOrCreate_other [of k who t "per_minute limits cat" bs]
  by (simp add: rate_check_def Let_def js_map_get_set case_prod_unfold)

text \<open>The bucket that a check works on, new or old, keeps the balance.\<close>

lemma getOrCreate_balance:
  assumes "limits_ok M limits" "balance_ok M t0 t steps n (js_map_get bs (Some (JStr who)))" "t \<le> now" "t0 \<le> t"
  shows "balance_ok M t0 now steps n (Some (fst (getOrCreate now (Some (JStr who)) (per_minute limits cat) bs)))"
proof (cases "js_map_get bs (Some (JStr who))")
  case None
  have m: "0 \<le> per_minute limits cat" "per_minute limits cat \<le> M" "M \<le> 2 ^ 53" using assms(1) by (auto simp: limits_ok_def)
  then have "of_int (per_minute limits cat) \<le> (of_int M :: rat)" by simp
  moreover have "of_nat n \<le> accrued M (now - t0) + slack M steps"
    using assms(2,3) None m accrued_mono [of M "t - t0" "now - t0"] by (auto simp: balance_ok_def)
  moreover have "max 0 (now - t0) = now - t0" "\<not> now < t0" using assms(3,4) by simp_all
  ultimately show ?thesis using None m by (simp add: balance_ok_def getOrCreate_def bucket_ok_def Let_def)
next
  case (Some b)
  then show ?thesis using assms(2,3) by (simp add: balance_ok_def getOrCreate_def)
qed

lemma rate_check_balance:
  assumes "limits_ok M limits" "balance_ok M t0 t steps n (js_map_get bs (Some (JStr who)))" "t \<le> now" "t0 \<le> t"
    and "rate_check limits now (Some (JStr who)) cat bs = (r, bs')"
  shows "balance_ok M t0 now (Suc steps) (if is_ok r then Suc n else n) (js_map_get bs' (Some (JStr who)))"
proof -
  define b0 where "b0 = fst (getOrCreate now (Some (JStr who)) (per_minute limits cat) bs)"
  define b where "b = refill now b0"
  have g: "bucket_ok M b0" "tb_lastRefill b0 \<le> now" "tb_lastRefill b0 < t0 \<longrightarrow> n = 0"
    "of_nat n + tb_tokens b0 \<le> of_int M + accrued M (max 0 (tb_lastRefill b0 - t0)) + slack M steps"
    using getOrCreate_balance [OF assms(1-4), of cat] by (auto simp: balance_ok_def b0_def)
  note rf = refill_ok [OF g(1,2), folded b_def]
  have half: "of_int M / 2 ^ 53 + of_int M / 2 ^ 53 = (of_int M / 2 ^ 52 :: rat)" by simp
  have acc: "accrued M (now - t0) = accrued M (tb_lastRefill b0 - t0) + accrued M (now - tb_lastRefill b0)"
    using accrued_add [of M "tb_lastRefill b0 - t0" "now - tb_lastRefill b0"] by simp
  have M: "0 \<le> (of_int M / 2 ^ 53 :: rat)" using g(1) by (auto simp: bucket_ok_def)
  have bal: "of_nat n + tb_tokens b + of_int M / 2 ^ 53 \<le> of_int M + accrued M (now - t0) + slack M (Suc steps)"
  proof (cases "tb_lastRefill b0 < t0")
    case True
    have "0 \<le> M" "tb_tokens b \<le> of_int M" using rf(1) by (auto simp: bucket_ok_def intro: order_trans)
    moreover have "0 \<le> accrued M (now - t0)" "0 \<le> slack M steps" using calculation(1) assms(3,4) by (simp_all add: accrued_nonneg slack_nonneg)
    ultimately show ?thesis using g(3) True half M unfolding slack_Suc by simp
  next
    case False
    then have "of_nat n + tb_tokens b0 \<le> of_int M + accrued M (tb_lastRefill b0 - t0) + slack M steps" using g(4) by simp
    then show ?thesis using rf(3) acc half unfolding slack_Suc accrued_def by linarith
  qed
  have mx: "max 0 (now - t0) = now - t0" "\<not> now < t0" using assms(3,4) by simp_all
  show ?thesis
  proof (cases "tb_tokens b < 1")
    case True
    then have "js_map_get bs' (Some (JStr who)) = Some b" "\<not> is_ok r"
      using assms(5) by (auto simp: rate_check_def Let_def case_prod_unfold js_map_get_set b_def b0_def)
    then show ?thesis using rf(1,2) bal M mx by (simp add: balance_ok_def)
  next
    case False
    then have b': "js_map_get bs' (Some (JStr who)) = Some (b\<lparr>tb_tokens := fl53 (tb_tokens b - 1)\<rparr>)" "is_ok r"
      using assms(5) by (auto simp: rate_check_def Let_def case_prod_unfold js_map_get_set b_def b0_def)
    have "of_nat (Suc n) + fl53 (tb_tokens b - 1) \<le> of_int M + accrued M (now - t0) + slack M (Suc steps)"
      using take_ok(2) [OF rf(1)] False bal by simp
    then show ?thesis using take_ok(1) [OF rf(1)] False rf(2) b' mx by (simp add: balance_ok_def)
  qed
qed


lemma js_map_keys: "set (map fst (js_map_set bs (Some (JStr k)) v)) = insert (Some (JStr k)) (set (map fst bs))"
  by (induction bs "Some (JStr k)" v rule: js_map_set.induct) auto

lemma distinct_js_map_set: "distinct (map fst bs) \<Longrightarrow> distinct (map fst (js_map_set bs (Some (JStr k)) v))"
proof (induction bs "Some (JStr k)" v rule: js_map_set.induct)
  case (2 j w bs v)
  then show ?case using js_map_keys [of bs k v] by auto
qed simp

lemma js_map_get_in: "js_map_get bs (Some (JStr k)) \<noteq> None \<longleftrightarrow> Some (JStr k) \<in> set (map fst bs)"
  by (induction bs) auto

lemma js_map_get_filter: "distinct (map fst bs) \<Longrightarrow> js_map_get (filter P bs) (Some (JStr k)) =
  (case js_map_get bs (Some (JStr k)) of None \<Rightarrow> None | Some b \<Rightarrow> if P (Some (JStr k), b) then Some b else None)"
proof (induction bs)
  case (Cons jb bs)
  obtain j b where jb: "jb = (j, b)" by (cases jb)
  show ?case
  proof (cases "j = Some (JStr k)")
    case True
    then have "Some (JStr k) \<notin> set (map fst bs)" using Cons.prems jb by auto
    then have "js_map_get bs (Some (JStr k)) = None" using js_map_get_in [of bs k] by blast
    with Cons True jb show ?thesis by simp
  qed (use Cons jb in simp)
qed simp

lemma distinct_rate_check: "distinct (map fst bs) \<Longrightarrow> distinct (map fst (snd (rate_check limits t (Some (JStr k)) cat bs)))"
  by (simp add: rate_check_def getOrCreate_def Let_def case_prod_unfold distinct_js_map_set split: option.split)

lemma distinct_cleanup: "distinct (map fst bs) \<Longrightarrow> distinct (map fst (cleanup t bs))"
  by (simp add: cleanup_def distinct_map_filter)

lemma cleanup_balance:
  assumes "balance_ok M t0 t steps n (js_map_get bs (Some (JStr who)))" "t \<le> now" "0 \<le> M" "distinct (map fst bs)" "t0 \<le> t"
  shows "balance_ok M t0 now (Suc steps) n (js_map_get (cleanup now bs) (Some (JStr who)))"
proof (cases "js_map_get bs (Some (JStr who))")
  case None
  then show ?thesis using assms balance_later [OF assms(3,1,2)] by (simp add: cleanup_def js_map_get_filter)
next
  case (Some b)
  show ?thesis
  proof (cases "now - tb_lastRefill b > 300000")
    case True
    have b: "0 \<le> tb_tokens b" "of_nat n + tb_tokens b \<le> of_int M + accrued M (max 0 (tb_lastRefill b - t0)) + slack M steps"
      "tb_lastRefill b < t0 \<Longrightarrow> n = 0"
      using assms(1) Some by (auto simp: balance_ok_def bucket_ok_def)
    have later: "slack M steps \<le> slack M (Suc steps)" using assms(3) by (simp add: slack_Suc)
    have "of_nat n \<le> accrued M (now - t0) + slack M (Suc steps)"
    proof (cases "tb_lastRefill b < t0")
      case True
      then show ?thesis using b(3) accrued_nonneg [OF assms(3), of "now - t0"] slack_nonneg [OF assms(3), of "Suc steps"] assms(2,5) by simp
    next
      case False
      have "accrued M (now - t0) = accrued M (tb_lastRefill b - t0) + accrued M (now - tb_lastRefill b)"
        using accrued_add [of M "tb_lastRefill b - t0" "now - tb_lastRefill b"] by simp
      moreover have "accrued M 300000 \<le> accrued M (now - tb_lastRefill b)" using True assms(3) by (intro accrued_mono) simp_all
      moreover have "of_int M \<le> accrued M 300000" using assms(3) by (simp add: accrued_def)
      moreover have "max 0 (tb_lastRefill b - t0) = tb_lastRefill b - t0" using False by simp
      ultimately show ?thesis using b(1,2) later by simp
    qed
    moreover have "js_map_get (cleanup now bs) (Some (JStr who)) = None"
      using True Some assms(4) by (simp add: cleanup_def js_map_get_filter)
    ultimately show ?thesis by (simp add: balance_ok_def)
  next
    case False
    then have "js_map_get (cleanup now bs) (Some (JStr who)) = Some b" using Some assms(4) by (simp add: cleanup_def js_map_get_filter)
    then show ?thesis using Some balance_later [OF assms(3,1,2)] by simp
  qed
qed

lemma run_limiter_balance:
  assumes "limits_ok M limits" "ordered_from t evs" "t0 \<le> t" "distinct (map fst bs)"
    and "balance_ok M t0 t steps n (js_map_get bs (Some (JStr who)))" "run_limiter limits who evs (n, bs) = (n', bs')"
  shows "balance_ok M t0 (if evs = [] then t else event_time (last evs)) (steps + length evs) n' (js_map_get bs' (Some (JStr who)))"
  using assms
proof (induction evs arbitrary: t n bs steps)
  case (Cons ev evs)
  have M: "0 \<le> M" using assms(1) by (auto simp: limits_ok_def dest: spec [of _ Read])
  let ?t = "event_time ev"
  have t: "t \<le> ?t" "ordered_from ?t evs" "t0 \<le> ?t" using Cons.prems(2,3) by auto
  obtain n1 bs1 where step: "run_limiter limits who (ev # evs) (n, bs) = run_limiter limits who evs (n1, bs1)"
      "balance_ok M t0 ?t (Suc steps) n1 (js_map_get bs1 (Some (JStr who)))" "distinct (map fst bs1)"
  proof (cases ev)
    case (LCheck u k cat)
    define r where "r = fst (rate_check limits u (Some (JStr k)) cat bs)"
    define bs1 where "bs1 = snd (rate_check limits u (Some (JStr k)) cat bs)"
    have eq: "rate_check limits u (Some (JStr k)) cat bs = (r, bs1)" by (simp add: r_def bs1_def)
    have "balance_ok M t0 u (Suc steps) (if k = who \<and> is_ok r then Suc n else n) (js_map_get bs1 (Some (JStr who)))"
    proof (cases "k = who")
      case True
      then show ?thesis using rate_check_balance [OF assms(1) Cons.prems(5) _ Cons.prems(3), of u cat r bs1] eq t LCheck by simp
    next
      case False
      then show ?thesis using rate_check_other [OF False, of limits u cat bs] balance_later [OF M Cons.prems(5) t(1)] LCheck by (simp add: bs1_def)
    qed
    moreover have "distinct (map fst bs1)" using distinct_rate_check [OF Cons.prems(4)] by (simp add: bs1_def)
    moreover have "run_limiter limits who (ev # evs) (n, bs) = run_limiter limits who evs (if k = who \<and> is_ok r then Suc n else n, bs1)"
      by (simp add: LCheck eq)
    ultimately show ?thesis using that LCheck by simp
  next
    case (LCleanup u)
    then show ?thesis using that [of n "cleanup u bs"] cleanup_balance [OF Cons.prems(5) t(1) M Cons.prems(4,3)] distinct_cleanup [OF Cons.prems(4)]
      by simp
  qed
  have "run_limiter limits who evs (n1, bs1) = (n', bs')" using step(1) Cons.prems(6) by simp
  from Cons.IH [OF assms(1) t(2,3) step(3,2) this] show ?case by (cases evs) simp_all
qed simp

lemma run_limiter_count: "run_limiter limits who evs (n, bs) = (n + fst (run_limiter limits who evs (0, bs)), snd (run_limiter limits who evs (0, bs)))"
proof (induction evs arbitrary: n bs)
  case (Cons ev evs)
  show ?case
  proof (cases ev)
    case (LCheck u k cat)
    define r where "r = rate_check limits u (Some (JStr k)) cat bs"
    let ?n = "\<lambda>n. if k = who \<and> is_ok (fst r) then Suc n else n"
    obtain f g where fg: "run_limiter limits who evs (0, snd r) = (f, g)" by (cases "run_limiter limits who evs (0, snd r)")
    have c: "run_limiter limits who evs (m, snd r) = (m + f, g)" for m using Cons.IH [of m "snd r"] unfolding fg by simp
    have step: "run_limiter limits who (ev # evs) (m, bs) = run_limiter limits who evs (?n m, snd r)" for m
      by (simp add: LCheck r_def case_prod_unfold Let_def)
    show ?thesis unfolding step c by simp
  next
    case (LCleanup u)
    show ?thesis using Cons.IH [of n "cleanup u bs"] unfolding LCleanup run_limiter.simps .
  qed
qed simp

lemma ordered_from_append: "ordered_from s (pre @ w) \<longleftrightarrow> ordered_from s pre \<and> ordered_from (if pre = [] then s else event_time (last pre)) w"
  by (induction pre arbitrary: s) auto

lemma distinct_run_limiter: "distinct (map fst bs) \<Longrightarrow> distinct (map fst (snd (run_limiter limits who evs (n, bs))))"
proof (induction evs arbitrary: n bs)
  case (Cons ev evs)
  then show ?case
    by (cases ev) (auto simp: case_prod_unfold Let_def distinct_cleanup distinct_rate_check)
qed simp

lemma ordered_last: "ordered_from s evs \<Longrightarrow> evs \<noteq> [] \<Longrightarrow> s \<le> event_time (last evs)"
proof (induction evs arbitrary: s)
  case (Cons e evs)
  then show ?case using Cons.IH [of "event_time e"] by (cases evs) auto
qed simp

text \<open>Wherever a window starts, the caller has a bucket of at most \<open>M\<close> tokens or none.\<close>

lemma window_balance:
  assumes "limits_ok M limits" "ordered_from s pre" "run_limiter limits who pre (0, []) = (n, bs)" "pre \<noteq> [] \<longrightarrow> event_time (last pre) \<le> t0"
  shows "balance_ok M t0 t0 0 0 (js_map_get bs (Some (JStr who)))"
proof (cases "js_map_get bs (Some (JStr who))")
  case None
  then show ?thesis by (simp add: balance_ok_def accrued_def slack_def)
next
  case (Some x)
  then have ne: "pre \<noteq> []" using assms(3) by auto
  have "balance_ok M s s 0 0 (js_map_get [] (Some (JStr who)))" by (simp add: balance_ok_def accrued_def slack_def)
  from run_limiter_balance [OF assms(1,2) order_refl _ this assms(3)] ne Some
  have "bucket_ok M x" "tb_lastRefill x \<le> t0" using assms(4) by (auto simp: balance_ok_def)
  moreover from this have "tb_tokens x \<le> of_int M" by (auto simp: bucket_ok_def intro: order_trans)
  ultimately show ?thesis using Some by (simp add: balance_ok_def accrued_def slack_def)
qed

text \<open>C11. In any window of a run of checks and clean-ups in time order, whatever came before it, a caller gets at most \<open>M\<close> requests through plus what \<open>M\<close> per minute allows over the time from the first to the last event of the window, where \<open>M\<close> bounds the limits of the categories; the two small terms are the rounding of the doubles (one part in \<open>2\<^sup>5\<^sup>0\<close> of the refill and \<open>M\<close> parts in \<open>2\<^sup>5\<^sup>2\<close> per event).\<close>

theorem rate_limit_bound:
  assumes "limits_ok M limits" "ordered_from s (pre @ window)" "window \<noteq> []"
    and "run_limiter limits who pre (0, []) = (before, bs)" "run_limiter limits who window (before, bs) = (after, bs')"
  shows "of_nat after - of_nat before \<le> of_int M + accrued M (event_time (last window) - event_time (hd window)) + slack M (length window)"
proof -
  have M: "0 \<le> M" using assms(1) by (auto simp: limits_ok_def dest: spec [of _ Read])
  obtain e rest where w: "window = e # rest" using assms(3) by (cases window) auto
  let ?t = "event_time e"
  have o: "ordered_from s pre" "pre \<noteq> [] \<longrightarrow> event_time (last pre) \<le> ?t" "ordered_from ?t window"
    using assms(2) by (auto simp: ordered_from_append w split: if_splits)
  obtain k where k: "run_limiter limits who window (0, bs) = (k, bs')" "after = before + k"
    using run_limiter_count [of limits who window before bs] assms(5) by (cases "run_limiter limits who window (0, bs)") auto
  have "distinct (map fst bs)" using distinct_run_limiter [of "[]" limits who pre 0] assms(4) by simp
  from run_limiter_balance [OF assms(1) o(3) order_refl this window_balance [OF assms(1) o(1) assms(4) o(2)] k(1)]
  have b: "balance_ok M ?t (event_time (last window)) (length window) k (js_map_get bs' (Some (JStr who)))" using assms(3) by simp
  have "of_nat k \<le> of_int M + accrued M (event_time (last window) - ?t) + slack M (length window)"
  proof (cases "js_map_get bs' (Some (JStr who))")
    case None
    then show ?thesis using b M by (simp add: balance_ok_def)
  next
    case (Some x)
    then have x: "0 \<le> tb_tokens x" "tb_lastRefill x \<le> event_time (last window)" "tb_lastRefill x < ?t \<longrightarrow> k = 0"
        "of_nat k + tb_tokens x \<le> of_int M + accrued M (max 0 (tb_lastRefill x - ?t)) + slack M (length window)"
      using b by (auto simp: balance_ok_def bucket_ok_def)
    have le: "?t \<le> event_time (last window)" using ordered_last [OF o(3)] assms(3) by simp
    then have "accrued M (max 0 (tb_lastRefill x - ?t)) \<le> accrued M (event_time (last window) - ?t)"
      using M x(2) by (intro accrued_mono) simp_all
    then show ?thesis using x by linarith
  qed
  then show ?thesis by (simp add: k(2) w)
qed

text \<open>A full bucket from before the window allows its burst, and no more.\<close>

theorem rate_limit_bound_witness:
  "\<exists>before bs after bs'. run_limiter \<lparr>rl_readPerMinute = 2, rl_writePerMinute = 1, rl_deployPerMinute = 1\<rparr> ''u'' [LCheck 0 ''u'' Read] (0, []) = (before, bs)
    \<and> run_limiter \<lparr>rl_readPerMinute = 2, rl_writePerMinute = 1, rl_deployPerMinute = 1\<rparr> ''u''
      [LCheck 200000 ''u'' Read, LCheck 200000 ''u'' Read, LCheck 200000 ''u'' Read, LCleanup 200001] (before, bs) = (after, bs')
    \<and> of_nat after - of_nat before \<le> of_int 2 + accrued 2 1 + slack 2 4"
proof -
  let ?l = "\<lparr>rl_readPerMinute = 2, rl_writePerMinute = 1, rl_deployPerMinute = 1\<rparr>"
  let ?w = "[LCheck 200000 ''u'' Read, LCheck 200000 ''u'' Read, LCheck 200000 ''u'' Read, LCleanup 200001]"
  obtain before bs where p: "run_limiter ?l ''u'' [LCheck 0 ''u'' Read] (0, []) = (before, bs)" by (cases "run_limiter ?l ''u'' [LCheck 0 ''u'' Read] (0, [])")
  obtain after bs' where r: "run_limiter ?l ''u'' ?w (before, bs) = (after, bs')" by (cases "run_limiter ?l ''u'' ?w (before, bs)")
  have "0 \<le> per_minute ?l cat \<and> per_minute ?l cat \<le> 2" for cat by (cases cat) simp_all
  then have "limits_ok 2 ?l" by (simp add: limits_ok_def)
  from rate_limit_bound [OF this _ _ p r, of 0]
  have "of_nat after - of_nat before \<le> of_int 2 + accrued 2 (event_time (last ?w) - event_time (hd ?w)) + slack 2 (length ?w)" by simp
  moreover have "event_time (last ?w) - event_time (hd ?w) = 1" "length ?w = 4" by simp_all
  ultimately show ?thesis using p r by metis
qed


lemma fl53_int_max: "0 \<le> m \<Longrightarrow> m \<le> 2 ^ 53 \<Longrightarrow> fl53 (of_int m) = of_int m"
  by (rule fl53_int) simp

lemma round4_lower: "(1 / 5 :: rat) \<le> (1 - 1 / 2 ^ 53) ^ 4"
  by (simp add: field_simps)

text \<open>After five idle minutes a refill fills the bucket.\<close>

lemma refill_idle_full:
  assumes "bucket_ok M b" "300000 \<le> now - tb_lastRefill b"
  shows "tb_tokens (refill now b) = of_int (tb_maxTokens b)"
proof -
  let ?u = "1 - 1 / 2 ^ 53 :: rat" and ?m = "of_int (tb_maxTokens b) :: rat"
  have m: "0 \<le> ?m" "0 \<le> tb_tokens b" using assms(1) by (auto simp: bucket_ok_def)
  have e: "300 * ?u \<le> fl53 (of_int (now - tb_lastRefill b) / 1000)"
  proof -
    have "300000 \<le> (of_int (now - tb_lastRefill b) :: rat)" using assms(2) by (metis of_int_le_iff of_int_numeral)
    then have "300 * ?u \<le> of_int (now - tb_lastRefill b) / 1000 * ?u" by simp
    also have "\<dots> \<le> fl53 (of_int (now - tb_lastRefill b) / 1000)" using assms(2) by (intro fl53_lower) simp
    finally show ?thesis .
  qed
  have r: "?m / 60 * ?u \<le> tb_refillRate b" using assms(1) fl53_lower [of "?m / 60"] by (simp add: bucket_ok_def)
  let ?p = "fl53 (fl53 (of_int (now - tb_lastRefill b) / 1000) * tb_refillRate b)"
  have er: "(300 * ?u) * (?m / 60 * ?u) \<le> fl53 (of_int (now - tb_lastRefill b) / 1000) * tb_refillRate b"
    using e r m by (intro mult_mono) (auto intro: order_trans)
  have er0: "0 \<le> (300 * ?u) * (?m / 60 * ?u)" using m by simp
  have p: "(300 * ?u) * (?m / 60 * ?u) * ?u \<le> ?p"
  proof -
    have "(300 * ?u) * (?m / 60 * ?u) * ?u \<le> fl53 (of_int (now - tb_lastRefill b) / 1000) * tb_refillRate b * ?u"
      using er by (intro mult_right_mono) simp_all
    also have "\<dots> \<le> ?p" using er er0 by (intro fl53_lower) linarith
    finally show ?thesis .
  qed
  have p0: "0 \<le> (300 * ?u) * (?m / 60 * ?u) * ?u" using m by simp
  have "?m * (1 / 5) \<le> ?m * ?u ^ 4" using mult_left_mono [OF round4_lower m(1)] .
  then have "?m \<le> 5 * (?m * ?u ^ 4)" by linarith
  also have "\<dots> = (300 * ?u) * (?m / 60 * ?u) * ?u * ?u" by (simp add: power4_eq_xxxx)
  also have "\<dots> \<le> (tb_tokens b + ?p) * ?u" using p m by (intro mult_right_mono) simp_all
  also have "\<dots> \<le> fl53 (tb_tokens b + ?p)" using p p0 m by (intro fl53_lower) linarith
  finally show ?thesis by (simp add: refill_def Let_def min_absorb1)
qed

text \<open>The periodic clean-up cannot be observed: for a caller whose bucket was made with the limit of the category it now asks for, a check after a clean-up gives the same answer and leaves the same bucket as without it, because a bucket it drops would have been full again.\<close>

theorem rate_cleanup_invisible:
  assumes "distinct (map fst bs)" "js_map_get bs (Some (JStr k)) = Some b" "bucket_ok M b"
    and "tb_maxTokens b = per_minute limits cat" "t \<le> now"
  shows "fst (rate_check limits now (Some (JStr k)) cat (cleanup t bs)) = fst (rate_check limits now (Some (JStr k)) cat bs)
    \<and> js_map_get (snd (rate_check limits now (Some (JStr k)) cat (cleanup t bs))) (Some (JStr k))
      = js_map_get (snd (rate_check limits now (Some (JStr k)) cat bs)) (Some (JStr k))"
proof -
  let ?key = "Some (JStr k)"
  have eq: "refill now (fst (getOrCreate now ?key (per_minute limits cat) (cleanup t bs)))
      = refill now (fst (getOrCreate now ?key (per_minute limits cat) bs))"
  proof (cases "t - tb_lastRefill b > 300000")
    case False
    then have "js_map_get (cleanup t bs) ?key = Some b" using assms(1,2) by (simp add: cleanup_def js_map_get_filter)
    then show ?thesis using assms(2) by (simp add: getOrCreate_def)
  next
    case True
    then have none: "js_map_get (cleanup t bs) ?key = None" using assms(1,2) by (simp add: cleanup_def js_map_get_filter)
    have m: "0 \<le> tb_maxTokens b" "tb_maxTokens b \<le> 2 ^ 53" using assms(3) by (auto simp: bucket_ok_def)
    have "tb_tokens (refill now b) = of_int (tb_maxTokens b)" using True assms(5) by (intro refill_idle_full [OF assms(3)]) simp
    then have "refill now b = \<lparr>tb_tokens = of_int (tb_maxTokens b), tb_lastRefill = now, tb_maxTokens = tb_maxTokens b,
        tb_refillRate = fl53 (of_int (tb_maxTokens b) / 60)\<rparr>"
      using assms(3) by (simp add: refill_def Let_def bucket_ok_def)
    then show ?thesis using none assms(2) fl53_int_max [OF m]
      by (simp add: getOrCreate_def Let_def assms(4)) (simp add: refill_def Let_def fl53_def [of 0])
  qed
  show ?thesis by (simp add: rate_check_def Let_def case_prod_unfold eq js_map_get_set)
qed

theorem rate_cleanup_invisible_witness:
  "fst (rate_check \<lparr>rl_readPerMinute = 3, rl_writePerMinute = 2, rl_deployPerMinute = 1\<rparr> 400000 (Some (JStr ''u'')) Write
      (cleanup 350000 [(Some (JStr ''u''), \<lparr>tb_tokens = 0, tb_lastRefill = 0, tb_maxTokens = 2, tb_refillRate = fl53 (of_int 2 / 60)\<rparr>)]))
   = fst (rate_check \<lparr>rl_readPerMinute = 3, rl_writePerMinute = 2, rl_deployPerMinute = 1\<rparr> 400000 (Some (JStr ''u'')) Write
      [(Some (JStr ''u''), \<lparr>tb_tokens = 0, tb_lastRefill = 0, tb_maxTokens = 2, tb_refillRate = fl53 (of_int 2 / 60)\<rparr>)])"
  by (rule rate_cleanup_invisible [where M = 2 and b = "\<lparr>tb_tokens = 0, tb_lastRefill = 0, tb_maxTokens = 2, tb_refillRate = fl53 (of_int 2 / 60)\<rparr>", THEN conjunct1])
    (simp_all add: bucket_ok_def)


text \<open>At one instant, the category of the first request decides for all of them: the bucket is shared by the
  categories and keeps the limit it was made with.\<close>

lemma fl53_zero [simp]: "fl53 0 = 0"
  by (simp add: fl53_def)

lemma rate_check_same_instant:
  assumes "js_map_get bs (Some (JStr k)) = Some b" "tb_lastRefill b = t" "tb_tokens b = of_int j" "0 \<le> j" "j \<le> tb_maxTokens b" "tb_maxTokens b \<le> 2 ^ 53"
  shows "\<exists>b'. js_map_get (snd (rate_check limits t (Some (JStr k)) cat bs)) (Some (JStr k)) = Some b' \<and> tb_lastRefill b' = t
      \<and> tb_tokens b' = of_int (max 0 (j - 1)) \<and> tb_maxTokens b' = tb_maxTokens b"
    "is_ok (fst (rate_check limits t (Some (JStr k)) cat bs)) \<longleftrightarrow> 0 < j"
proof -
  have f: "fl53 (of_int j) = of_int j" "1 \<le> j \<Longrightarrow> fl53 (of_int j - 1) = of_int (j - 1)"
    using assms(4-6) fl53_int_max [of j] fl53_int_max [of "j - 1"] by simp_all
  have r: "refill t b = b" using assms f by (simp add: refill_def min_def)
  have l: "(of_int j :: rat) < 1 \<longleftrightarrow> j = 0" using assms(4) by linarith
  show "\<exists>b'. js_map_get (snd (rate_check limits t (Some (JStr k)) cat bs)) (Some (JStr k)) = Some b' \<and> tb_lastRefill b' = t
      \<and> tb_tokens b' = of_int (max 0 (j - 1)) \<and> tb_maxTokens b' = tb_maxTokens b"
    using assms f(2) r l by (auto simp: rate_check_def getOrCreate_def Let_def js_map_get_set)
  show "is_ok (fst (rate_check limits t (Some (JStr k)) cat bs)) \<longleftrightarrow> 0 < j"
    using assms r l by (auto simp: rate_check_def getOrCreate_def Let_def)
qed

lemma run_same_instant:
  assumes "js_map_get bs (Some (JStr k)) = Some b" "tb_lastRefill b = t" "tb_tokens b = of_int j" "0 \<le> j" "j \<le> tb_maxTokens b" "tb_maxTokens b \<le> 2 ^ 53"
  shows "fst (run_limiter limits k (map (LCheck t k) cats) (n, bs)) = n + min (length cats) (nat j)"
  using assms
proof (induction cats arbitrary: n bs b j)
  case (Cons c cats)
  obtain b' where b': "js_map_get (snd (rate_check limits t (Some (JStr k)) c bs)) (Some (JStr k)) = Some b'" "tb_lastRefill b' = t"
      "tb_tokens b' = of_int (max 0 (j - 1))" "tb_maxTokens b' = tb_maxTokens b"
    using rate_check_same_instant(1) [OF Cons.prems] by blast
  have "max 0 (j - 1) \<le> tb_maxTokens b'" "tb_maxTokens b' \<le> 2 ^ 53" using b'(4) Cons.prems by auto
  note IH = Cons.IH [OF b'(1-3) _ this, of "if is_ok (fst (rate_check limits t (Some (JStr k)) c bs)) then Suc n else n"]
  have "0 < j \<Longrightarrow> nat j = Suc (nat (j - 1))" by simp
  then show ?case using IH rate_check_same_instant(2) [OF Cons.prems, of limits c] Cons.prems(4)
    by (auto simp: case_prod_unfold Let_def)
qed simp

text \<open>The three categories of a caller share one bucket, which keeps the limit of the category that was asked for first: at one instant exactly that many requests of any categories get through. So a caller that starts with a read gets deployments at the rate of reads, and one that starts with a deployment has its reads refused at the rate of deployments.\<close>

theorem rate_first_category_decides:
  assumes "0 \<le> per_minute limits cat" "per_minute limits cat \<le> 2 ^ 53"
  shows "fst (run_limiter limits k (map (LCheck t k) (cat # cats)) (0, [])) = min (Suc (length cats)) (nat (per_minute limits cat))"
proof -
  let ?key = "Some (JStr k)" and ?m = "per_minute limits cat"
  let ?b = "\<lparr>tb_tokens = of_int ?m, tb_lastRefill = t, tb_maxTokens = ?m, tb_refillRate = fl53 (of_int ?m / 60)\<rparr>"
  have g: "getOrCreate t ?key ?m [] = (?b, [(?key, ?b)])" "getOrCreate t ?key ?m [(?key, ?b)] = (?b, [(?key, ?b)])"
    by (simp_all add: getOrCreate_def Let_def)
  then have "rate_check limits t ?key cat [] = rate_check limits t ?key cat [(?key, ?b)]" by (simp add: rate_check_def)
  then have "run_limiter limits k (map (LCheck t k) (cat # cats)) (0, []) = run_limiter limits k (map (LCheck t k) (cat # cats)) (0, [(?key, ?b)])"
    by simp
  then show ?thesis using run_same_instant [of "[(?key, ?b)]" k ?b t ?m limits "cat # cats" 0] assms by simp
qed

theorem rate_first_category_decides_witness:
  "fst (run_limiter \<lparr>rl_readPerMinute = 100, rl_writePerMinute = 20, rl_deployPerMinute = 5\<rparr> ''u''
      (map (LCheck 0 ''u'') (Read # replicate 60 Deploy)) (0, [])) = 61"
  by (subst rate_first_category_decides) simp_all

section \<open>Properties: the gate\<close>

lemma createSession_head: "\<exists>r. createSession hmac key now jti opts = CHR ''e'' # r"
proof -
  have "\<exists>r. json_stringify (SessionPayload now jti opts) = CHR ''{'' # CHR 0x22 # CHR ''s'' # r"
    by (simp add: SessionPayload_def braces_def member_def quote_def escape_char_def code_def)
  then obtain r where r: "json_stringify (SessionPayload now jti opts) = CHR ''{'' # CHR 0x22 # CHR ''s'' # r" by blast
  have "b64_char 30 = CHR ''e''" by code_simp
  then show ?thesis by (simp add: createSession_def Let_def r utf8_def utf8_char_def code_def)
qed

lemma createSession_not_bearer: "strip_bearer (createSession hmac key now jti opts) = createSession hmac key now jti opts"
proof -
  obtain r where "createSession hmac key now jti opts = CHR ''e'' # r" using createSession_head by blast
  moreover have "lower_char (CHR ''e'') \<noteq> CHR ''b''" by code_simp
  ultimately show ?thesis by (simp add: strip_bearer_def Let_def to_lower_def)
qed

text \<open>The capability a tool needs, if any, is among those of the session.\<close>

definition let_through :: "string list \<Rightarrow> string \<Rightarrow> bool" where
  "let_through caps name = (case map_of TOOL_CAPS name of None \<Rightarrow> True | Some (cap, _) \<Rightarrow> cap \<in> set caps)"

definition tool_category :: "string \<Rightarrow> category" where
  "tool_category name = (case map_of TOOL_CAPS name of None \<Rightarrow> Read | Some (_, cat) \<Rightarrow> cat)"

lemma requireCapability_strings: "own_field session ''caps'' = Some (JArr (map JStr caps)) \<Longrightarrow>
  requireCapability session cap = (if cap \<in> set caps then Inr () else Inl (McpError ''AUTH_002'' ''Insufficient capabilities'' None))"
  by (simp add: requireCapability_def hasCapability_def image_iff)

lemma instrumented_session:
  assumes "authenticate hmac (gc_auth cfg) (gc_deny cfg) now None bearer = Inr ctx"
    and "own_field (ac_session ctx) ''caps'' = Some (JArr (map JStr caps))"
  shows "instrumented hmac cfg h now bearer name (bs, s) =
    (if let_through caps name then
       (case rate_check (gc_limits cfg) now (own_field (ac_session ctx) ''sub'') (tool_category name) bs of
          (Inl e, bs') \<Rightarrow> (Inl e, bs', s)
        | (Inr _, bs') \<Rightarrow> (let (r, s') = h name (own_field (ac_session ctx) ''sub'') s in (Inr r, bs', s')))
     else (Inl (McpError ''AUTH_002'' ''Insufficient capabilities'' None), bs, s))"
  using assms requireCapability_strings [OF assms(2)]
  by (auto simp: instrumented_def let_through_def tool_category_def Let_def split: option.splits)

text \<open>What a tool call with a token of \<open>createSession\<close> does, dev bypass off: a token that has expired or is revoked is refused with \<open>AUTH_001\<close>; one without the capability of the tool with \<open>AUTH_002\<close>; neither takes a token from the caller's bucket or touches the handlers' state. Otherwise the limiter decides under the user id of the session, and the handler runs, in the scope of that user, exactly when a token could be taken.\<close>

theorem session_call_outcome:
  assumes "digest32 hmac" "\<bar>seconds issued\<bar> \<le> 2 ^ 52" "\<bar>or_default (so_ttlSeconds opts) 300\<bar> \<le> 2 ^ 51"
    and "\<not> au_devBypass (gc_auth cfg)" "token = createSession hmac (au_key (gc_auth cfg)) issued jti opts"
  shows "instrumented hmac cfg h now (Some token) name (bs, s) =
    (if seconds issued + or_default (so_ttlSeconds opts) 300 < seconds now \<or> deny_has (gc_deny cfg) (Some (JStr jti))
     then (Inl (McpError ''AUTH_001'' ''Session expired or invalid'' None), bs, s)
     else if \<not> let_through (or_default (so_capabilities opts) ALL_CAPS) name
     then (Inl (McpError ''AUTH_002'' ''Insufficient capabilities'' None), bs, s)
     else (case rate_check (gc_limits cfg) now (Some (JStr (so_userId opts))) (tool_category name) bs of
         (Inl e, bs') \<Rightarrow> (Inl e, bs', s)
       | (Inr _, bs') \<Rightarrow> (let (r, s') = h name (Some (JStr (so_userId opts))) s in (Inr r, bs', s'))))"
proof -
  let ?p = "SessionPayload issued jti opts"
  let ?bad = "seconds issued + or_default (so_ttlSeconds opts) 300 < seconds now \<or> deny_has (gc_deny cfg) (Some (JStr jti))"
  have v: "verifySession hmac (au_key (gc_auth cfg)) (gc_deny cfg) now token = (if ?bad then None else Some ?p)"
    by (auto simp: assms(5) verifySession_created [OF assms(1-3)])
  obtain r where "token = CHR ''e'' # r" using createSession_head assms(5) by blast
  then have a: "authenticate hmac (gc_auth cfg) (gc_deny cfg) now None (Some token) =
      (if ?bad then Inl (McpError ''AUTH_001'' ''Session expired or invalid'' None)
       else Inr \<lparr>ac_session = ?p, ac_userId = own_field ?p ''sub'', ac_walletId = own_field ?p ''wallet_id''\<rparr>)"
    using v createSession_not_bearer [of hmac "au_key (gc_auth cfg)" issued jti opts] assms(4,5) by (simp add: authenticate_def)
  show ?thesis
  proof (cases ?bad)
    case True
    then show ?thesis using a by (simp add: instrumented_def)
  next
    case False
    with a have "authenticate hmac (gc_auth cfg) (gc_deny cfg) now None (Some token)
        = Inr \<lparr>ac_session = ?p, ac_userId = own_field ?p ''sub'', ac_walletId = own_field ?p ''wallet_id''\<rparr>" by (simp only: if_False)
    from instrumented_session [OF this, unfolded AuthContext.select_convs SessionPayload_fields, OF refl, of h name bs s] False
    show ?thesis by (cases "let_through (or_default (so_capabilities opts) ALL_CAPS) name") simp_all
  qed
qed

theorem session_call_outcome_witness:
  "instrumented (\<lambda>k d. replicate 32 7) \<lparr>gc_auth = \<lparr>au_devBypass = False, au_started = 0, au_key = [1]\<rparr>,
      gc_limits = \<lparr>rl_readPerMinute = 2, rl_writePerMinute = 1, rl_deployPerMinute = 1\<rparr>, gc_deny = []\<rparr>
      (\<lambda>name scope s. (''done'', s @ [scope])) 1000
      (Some (createSession (\<lambda>k d. replicate 32 7) [1] 0 ''j'' \<lparr>so_userId = ''u'', so_walletId = ''w'', so_network = None,
         so_capabilities = Some [''wallet:read''], so_agentId = None, so_ttlSeconds = None, so_authStrategy = None, so_clientId = None\<rparr>))
      ''get_block'' ([], []) = (Inl (McpError ''AUTH_002'' ''Insufficient capabilities'' None), [], [])"
proof -
  let ?h = "\<lambda>k d :: nat list. replicate 32 7 :: nat list"
  let ?o = "\<lparr>so_userId = ''u'', so_walletId = ''w'', so_network = None, so_capabilities = Some [''wallet:read''], so_agentId = None,
         so_ttlSeconds = None, so_authStrategy = None, so_clientId = None\<rparr>"
  let ?cfg = "\<lparr>gc_auth = \<lparr>au_devBypass = False, au_started = 0, au_key = [1]\<rparr>,
      gc_limits = \<lparr>rl_readPerMinute = 2, rl_writePerMinute = 1, rl_deployPerMinute = 1\<rparr>, gc_deny = []\<rparr>"
  show ?thesis
    using session_call_outcome [where hmac = ?h and cfg = ?cfg and opts = ?o and issued = 0 and jti = "''j''" and now = 1000 and bs = "[]" and s = "[]"
        and token = "createSession ?h [1] 0 ''j'' ?o" and name = "''get_block''" and h = "\<lambda>name scope s. (''done'', s @ [scope])"]
    by (simp add: digest32_def seconds_def or_default_def deny_has_def let_through_def TOOL_CAPS_def)
qed

text \<open>Who a call speaks for. With the development bypass it is the development session. Otherwise the request has to present a token whose second
  part is the MAC, under the server's key, of the text in its first part; that text is the session, and it has not expired and is not
  revoked.\<close>

definition vouched :: "mac \<Rightarrow> nat list \<Rightarrow> deny_list \<Rightarrow> int \<Rightarrow> string \<Rightarrow> json \<Rightarrow> bool" where
  "vouched hmac key deny now token session = (\<exists>b64 sig rest body. split_dot token = b64 # sig # rest \<and> b64 \<noteq> []
     \<and> utf8_decode (b64url_decode b64) = Some body \<and> buffer_from_hex sig = hmac key (utf8 body)
     \<and> json_parse body = Some session \<and> session \<noteq> JNull
     \<and> \<not> value_less (own_field session ''exp'') (seconds now) \<and> \<not> deny_has deny (own_field session ''jti''))"

definition speaks_for :: "mac \<Rightarrow> gate_config \<Rightarrow> int \<Rightarrow> string option \<Rightarrow> json \<Rightarrow> bool" where
  "speaks_for hmac cfg now bearer session = (if au_devBypass (gc_auth cfg) then session = DEV_SESSION (au_started (gc_auth cfg))
     else \<exists>header. bearer = Some header \<and> header \<noteq> []
       \<and> vouched hmac (au_key (gc_auth cfg)) (gc_deny cfg) now (strip_bearer header) session)"

text \<open>The tool asks for no capability, or for one that the session has.\<close>

definition permitted :: "json \<Rightarrow> string \<Rightarrow> bool" where
  "permitted session name = (case map_of TOOL_CAPS name of None \<Rightarrow> True | Some (cap, _) \<Rightarrow> hasCapability session cap = Inr True)"

lemma verifySession_vouched:
  assumes "digest32 hmac"
  shows "verifySession hmac key deny now token = Some session \<longleftrightarrow> vouched hmac key deny now token session"
proof
  assume "verifySession hmac key deny now token = Some session"
  then obtain b64 sig rest body ex where
    parts: "split_dot token = b64 # sig # rest" "b64 \<noteq> []" and body: "utf8_decode (b64url_decode b64) = Some body"
    and mac: "buffer_from_hex (hmacSign hmac key body) = buffer_from_hex sig" and parse: "json_parse body = Some session"
    and fresh: "js_field (Some session) ''exp'' = Inr ex" "\<not> value_less ex (seconds now)" "\<not> deny_has deny (own_field session ''jti'')"
    unfolding verifySession_def Let_def
    by (auto split: list.splits if_splits option.splits sum.splits simp: timing_safe_equal_True)
  have "session \<noteq> JNull" "ex = own_field session ''exp''"
    using fresh(1) by (auto simp: js_field_def own_field_def split: json.splits)
  moreover have "buffer_from_hex sig = hmac key (utf8 body)" using mac hmacSign_facts(1) [OF assms, of key body] by (simp only:)
  ultimately show "vouched hmac key deny now token session" unfolding vouched_def using parts body parse fresh by blast
next
  assume "vouched hmac key deny now token session"
  then obtain b64 sig rest body where v: "split_dot token = b64 # sig # rest" "b64 \<noteq> []"
    "utf8_decode (b64url_decode b64) = Some body" "buffer_from_hex sig = hmac key (utf8 body)" "json_parse body = Some session" "session \<noteq> JNull"
    "\<not> value_less (own_field session ''exp'') (seconds now)" "\<not> deny_has deny (own_field session ''jti'')"
    unfolding vouched_def by blast
  have "length (hmac key (utf8 body)) = 32" using assms by (simp add: digest32_def)
  then have "sig \<noteq> []" using v(4) by auto
  moreover have "js_field (Some session) ''exp'' = Inr (own_field session ''exp'')"
    using v(6) by (cases session) (simp_all add: js_field_def own_field_def)
  ultimately show "verifySession hmac key deny now token = Some session"
    using v hmacSign_facts(1) [OF assms, of key body] by (simp add: verifySession_def Let_def timing_safe_equal_def)
qed

lemma authenticate_speaks_for:
  assumes "digest32 hmac"
  shows "(case authenticate hmac (gc_auth cfg) (gc_deny cfg) now None bearer of
       Inr ctx \<Rightarrow> speaks_for hmac cfg now bearer (ac_session ctx)
     | Inl e \<Rightarrow> (\<forall>session. \<not> speaks_for hmac cfg now bearer session)
         \<and> e = McpError ''AUTH_001'' (if bearer = None \<or> bearer = Some [] then ''Authentication required'' else ''Session expired or invalid'') None)"
proof (cases "au_devBypass (gc_auth cfg)")
  case True
  then show ?thesis by (simp add: authenticate_def speaks_for_def Let_def)
next
  case False
  show ?thesis
  proof (cases "bearer = None \<or> bearer = Some []")
    case True
    with False show ?thesis by (auto simp: authenticate_def speaks_for_def)
  next
    case has: False
    then obtain c cs where b: "bearer = Some (c # cs)" by (cases bearer; cases "the bearer") auto
    let ?v = "verifySession hmac (au_key (gc_auth cfg)) (gc_deny cfg) now (strip_bearer (c # cs))"
    note iff = verifySession_vouched [OF assms, of "au_key (gc_auth cfg)" "gc_deny cfg" now "strip_bearer (c # cs)"]
    show ?thesis
    proof (cases ?v)
      case None
      then have "\<not> vouched hmac (au_key (gc_auth cfg)) (gc_deny cfg) now (strip_bearer (c # cs)) session" for session using iff [of session] by simp
      with None False b show ?thesis by (simp add: authenticate_def speaks_for_def)
    next
      case (Some session)
      with iff [of session] False b show ?thesis by (simp add: authenticate_def speaks_for_def)
    qed
  qed
qed

lemma speaks_for_unique: "speaks_for hmac cfg now bearer x \<Longrightarrow> speaks_for hmac cfg now bearer y \<Longrightarrow> x = y"
  by (auto simp: speaks_for_def vouched_def split: if_splits)

text \<open>C26. What any call of a tool does, whatever the request presents. A call that speaks for nobody (no token, a token that is malformed, forged, expired or revoked) ends with \<open>AUTH_001\<close>; one that speaks for a session without the capability of the tool ends with an error too; neither takes a token from a bucket or touches the handlers' state. Otherwise the limiter decides under the user id of the session, and the handler runs, in the scope of that user, exactly when a token could be taken. A call speaks for at most one session.\<close>

theorem tool_call_outcome:
  assumes "digest32 hmac"
  shows "((\<forall>session. \<not> speaks_for hmac cfg now bearer session) \<longrightarrow>
      instrumented hmac cfg h now bearer name (bs, s) = (Inl (McpError ''AUTH_001'' (if bearer = None \<or> bearer = Some []
        then ''Authentication required'' else ''Session expired or invalid'') None), bs, s))
    \<and> (\<forall>session. speaks_for hmac cfg now bearer session \<longrightarrow>
      (\<forall>other. speaks_for hmac cfg now bearer other \<longrightarrow> other = session)
      \<and> (if \<not> permitted session name
         then \<exists>e \<in> {McpError ''AUTH_002'' ''Insufficient capabilities'' None, JsError TypeError}.
           instrumented hmac cfg h now bearer name (bs, s) = (Inl e, bs, s)
         else let user = own_field session ''sub''; (taken, bs') = rate_check (gc_limits cfg) now user (tool_category name) bs in
           instrumented hmac cfg h now bearer name (bs, s) = (case taken of
               Inl e \<Rightarrow> (Inl e, bs', s)
             | Inr _ \<Rightarrow> (Inr (fst (h name user s)), bs', snd (h name user s)))))"
proof -
  note auth = authenticate_speaks_for [OF assms, of cfg now bearer]
  have nobody: "instrumented hmac cfg h now bearer name (bs, s) = (Inl (McpError ''AUTH_001'' (if bearer = None \<or> bearer = Some []
        then ''Authentication required'' else ''Session expired or invalid'') None), bs, s)"
    if "\<forall>session. \<not> speaks_for hmac cfg now bearer session"
    using that auth by (cases "authenticate hmac (gc_auth cfg) (gc_deny cfg) now None bearer") (auto simp: instrumented_def)
  have somebody: "if \<not> permitted session name
         then \<exists>e \<in> {McpError ''AUTH_002'' ''Insufficient capabilities'' None, JsError TypeError}.
           instrumented hmac cfg h now bearer name (bs, s) = (Inl e, bs, s)
         else let user = own_field session ''sub''; (taken, bs') = rate_check (gc_limits cfg) now user (tool_category name) bs in
           instrumented hmac cfg h now bearer name (bs, s) = (case taken of
               Inl e \<Rightarrow> (Inl e, bs', s)
             | Inr _ \<Rightarrow> (Inr (fst (h name user s)), bs', snd (h name user s)))"
    if sp: "speaks_for hmac cfg now bearer session" for session
  proof -
    obtain ctx where ctx: "authenticate hmac (gc_auth cfg) (gc_deny cfg) now None bearer = Inr ctx"
      using auth sp by (cases "authenticate hmac (gc_auth cfg) (gc_deny cfg) now None bearer") auto
    then have "ac_session ctx = session" using auth sp speaks_for_unique [of hmac cfg now bearer] by simp
    note i = instrumented_def [of hmac cfg h now bearer name "(bs, s)"] ctx this
    have te: "x = TypeError" for x by (cases x)
    show ?thesis
    proof (cases "map_of TOOL_CAPS name")
      case None
      then have "permitted session name" by (simp add: permitted_def)
      then show ?thesis using None by (simp add: i tool_category_def Let_def case_prod_unfold split: sum.split)
    next
      case (Some cc)
      obtain cap cat where cc: "cc = (cap, cat)" by (cases cc)
      show ?thesis
      proof (cases "hasCapability session cap")
        case (Inl x)
        then show ?thesis using Some cc te [of x] by (simp add: permitted_def i requireCapability_def Let_def)
      next
        case (Inr yes)
        then show ?thesis using Some cc
          by (cases yes) (simp_all add: permitted_def i requireCapability_def tool_category_def Let_def case_prod_unfold split: sum.split)
      qed
    qed
  qed
  show ?thesis using nobody somebody speaks_for_unique [of hmac cfg now bearer] by blast
qed

text \<open>A forged token: its second part is not the MAC of its first.\<close>

theorem tool_call_outcome_witness:
  "instrumented (\<lambda>k d. replicate 32 7) \<lparr>gc_auth = \<lparr>au_devBypass = False, au_started = 0, au_key = [1]\<rparr>,
      gc_limits = \<lparr>rl_readPerMinute = 2, rl_writePerMinute = 1, rl_deployPerMinute = 1\<rparr>, gc_deny = []\<rparr>
      (\<lambda>name scope s. (''done'', s @ [scope])) 1000 (Some ''Bearer e30.00'') ''get_block'' ([], [])
    = (Inl (McpError ''AUTH_001'' ''Session expired or invalid'' None), [], [])"
proof -
  let ?h = "\<lambda>k d :: nat list. replicate 32 7 :: nat list"
  let ?cfg = "\<lparr>gc_auth = \<lparr>au_devBypass = False, au_started = 0, au_key = [1]\<rparr>,
      gc_limits = \<lparr>rl_readPerMinute = 2, rl_writePerMinute = 1, rl_deployPerMinute = 1\<rparr>, gc_deny = []\<rparr>"
  have "strip_bearer ''Bearer e30.00'' = ''e30.00''" "buffer_from_hex ''00'' \<noteq> replicate 32 7" by code_simp+
  then have "\<not> speaks_for ?h ?cfg 1000 (Some ''Bearer e30.00'') session" for session
    by (auto simp: speaks_for_def vouched_def)
  then show ?thesis
    using tool_call_outcome [where hmac = ?h and cfg = ?cfg and now = 1000 and bearer = "Some ''Bearer e30.00''" and bs = "[]" and s = "[]"
        and name = "''get_block''" and h = "\<lambda>name scope s. (''done'', s @ [scope])"]
    by (simp add: digest32_def)
qed

text \<open>The tools whose capability no session can have: it is missing from \<open>CAPABILITY_SCOPES\<close>.\<close>

definition ungrantable :: "string list" where
  "ungrantable = map fst (filter (\<lambda>(_, cap, _). cap \<notin> set ALL_CAPS) TOOL_CAPS)"

lemma ungrantable_tools: "ungrantable = [''beckn_search'', ''beckn_select'', ''beckn_init'', ''beckn_confirm'', ''beckn_rate'',
   ''credential_request'', ''credential_attach'', ''credential_verify'', ''credential_revoke'',
   ''bank_open_checking'', ''bank_onramp'', ''bank_offramp'', ''bank_wire'', ''bank_transfer_funds'']"
  by code_simp

lemma distinct_tools: "distinct (map fst TOOL_CAPS)"
  by code_simp

lemma ungrantable_refused: "set caps \<subseteq> set ALL_CAPS \<Longrightarrow> name \<in> set ungrantable \<Longrightarrow> \<not> let_through caps name"
proof -
  assume caps: "set caps \<subseteq> set ALL_CAPS" and "name \<in> set ungrantable"
  then obtain cap cat where m: "(name, cap, cat) \<in> set TOOL_CAPS" "cap \<notin> set ALL_CAPS" by (auto simp: ungrantable_def)
  then have "map_of TOOL_CAPS name = Some (cap, cat)" by (simp add: map_of_is_SomeI distinct_tools)
  with m caps show ?thesis by (auto simp: let_through_def)
qed

text \<open>The tools of the Beckn, credential and banking groups cannot be called at all: the table asks for capabilities that are not in \<open>CAPABILITY_SCOPES\<close>, so neither a token made by \<open>createSession\<close> (whose capabilities are typed by that table) nor the development session has them, and the handler never runs.\<close>

theorem ungrantable_tools_never_run:
  assumes "digest32 hmac" "\<bar>seconds issued\<bar> \<le> 2 ^ 52" "\<bar>or_default (so_ttlSeconds opts) 300\<bar> \<le> 2 ^ 51"
    and "set (or_default (so_capabilities opts) ALL_CAPS) \<subseteq> set ALL_CAPS"
    and "name \<in> set ungrantable"
    and "au_devBypass (gc_auth cfg) \<or> bearer = Some (createSession hmac (au_key (gc_auth cfg)) issued jti opts)"
  shows "\<exists>e. instrumented hmac cfg h now bearer name (bs, s) = (Inl e, bs, s)"
proof (cases "au_devBypass (gc_auth cfg)")
  case True
  let ?d = "DEV_SESSION (au_started (gc_auth cfg))"
  have caps: "own_field ?d ''caps'' = Some (JArr (map JStr ALL_CAPS))"
    by (simp add: DEV_SESSION_def own_field_def ALL_CAPS_def case_prod_unfold comp_def)
  have "authenticate hmac (gc_auth cfg) (gc_deny cfg) now None bearer
      = Inr \<lparr>ac_session = ?d, ac_userId = own_field ?d ''sub'', ac_walletId = own_field ?d ''wallet_id''\<rparr>"
    using True by (simp add: authenticate_def Let_def)
  from instrumented_session [OF this, unfolded AuthContext.select_convs, OF caps, of h name bs s] ungrantable_refused [OF order_refl assms(5)]
  show ?thesis by simp
next
  case False
  let ?p = "SessionPayload issued jti opts"
  obtain r where r: "createSession hmac (au_key (gc_auth cfg)) issued jti opts = CHR ''e'' # r" using createSession_head by blast
  have b: "bearer = Some (createSession hmac (au_key (gc_auth cfg)) issued jti opts)" using assms(6) False by simp
  have v: "verifySession hmac (au_key (gc_auth cfg)) (gc_deny cfg) now (createSession hmac (au_key (gc_auth cfg)) issued jti opts) \<in> {None, Some ?p}"
    by (simp add: verifySession_created [OF assms(1-3)])
  show ?thesis
  proof (cases "authenticate hmac (gc_auth cfg) (gc_deny cfg) now None bearer")
    case (Inl e)
    then show ?thesis by (simp add: instrumented_def)
  next
    case (Inr ctx)
    have "ac_session ctx = ?p"
      using Inr v b r False createSession_not_bearer [of hmac "au_key (gc_auth cfg)" issued jti opts]
      by (auto simp: authenticate_def split: option.splits)
    then have "own_field (ac_session ctx) ''caps'' = Some (JArr (map JStr (or_default (so_capabilities opts) ALL_CAPS)))"
      by (simp add: SessionPayload_fields)
    from instrumented_session [OF Inr this, of h name bs s] ungrantable_refused [OF assms(4,5)] show ?thesis by simp
  qed
qed

theorem ungrantable_tools_never_run_witness:
  "\<exists>e. instrumented (\<lambda>k d. replicate 32 7) \<lparr>gc_auth = \<lparr>au_devBypass = True, au_started = 0, au_key = [1]\<rparr>,
      gc_limits = \<lparr>rl_readPerMinute = 2, rl_writePerMinute = 1, rl_deployPerMinute = 1\<rparr>, gc_deny = []\<rparr>
      (\<lambda>name scope s. (''done'', s @ [scope])) 1000 None ''bank_wire'' ([], []) = (Inl e, [], [])"
  by (rule ungrantable_tools_never_run [where issued = 0 and opts = "\<lparr>so_userId = ''u'', so_walletId = ''w'', so_network = None,
      so_capabilities = None, so_agentId = None, so_ttlSeconds = None, so_authStrategy = None, so_clientId = None\<rparr>"])
    (simp_all add: digest32_def seconds_def or_default_def ungrantable_tools)

end
