(* ===== verification/Oauth_Provider.thy ===== *)
theory Oauth_Provider
  imports Session_Auth
begin

text \<open>
  The OAuth server of the gateway: \<^verbatim>\<open>src/gateway/oauth-provider.ts\<close> and the \<^verbatim>\<open>/oauth-callback\<close>
  route of \<^verbatim>\<open>src/sse-server.ts\<close>. Registered clients, pending authorization codes, refresh tokens and
  retired refresh tokens are maps in memory, each written to a file after a change and read back at
  start-up. A map is the list of its entries in insertion order; a file holds the entries last written to
  it (the JSON text of such entries reads back as the entries). Random values (codes, tokens, family and
  client ids) are arguments; the SDK calls these operations and checks the PKCE verifier.
\<close>

section \<open>State\<close>

record PendingCode =
  pc_address :: string
  pc_code_challenge :: string
  pc_client_id :: string
  pc_redirect_uri :: string
  pc_scope :: "string list"
  pc_exp :: int

record RefreshEntry =
  re_address :: string
  re_client_id :: string
  re_scope :: "string list"
  re_family_id :: string

record RetiredEntry =
  rt_family_id :: string
  rt_retired_at :: int

record oauth_client =
  oc_client_id :: string
  oc_issued_at :: int
  oc_metadata :: json

type_synonym 'v table = "(string \<times> 'v) list"

text \<open>The files; entries of an earlier release have no family id.\<close>

record oauth_files =
  of_clients :: "oauth_client table"
  of_pending :: "PendingCode table"
  of_refresh :: "(RefreshEntry \<times> bool) table"
  of_retired :: "RetiredEntry table"

record oauth_state =
  os_clients :: "oauth_client table"
  os_pending :: "PendingCode table"
  os_refresh :: "RefreshEntry table"
  os_retired :: "RetiredEntry table"
  os_files :: oauth_files
  os_session :: session_state

record oauth_config =
  ox_key :: "nat list"
  ox_network :: string
  ox_sessionTtlSeconds :: int
  ox_refreshTtlSeconds :: int

datatype oauth_error = InvalidGrantError string | InvalidTokenError string

record OAuthTokens =
  ot_access_token :: string
  ot_token_type :: string
  ot_expires_in :: int
  ot_refresh_token :: string
  ot_scope :: string

definition persistClients :: "oauth_state \<Rightarrow> oauth_state" where
  "persistClients st = st\<lparr>os_files := (os_files st)\<lparr>of_clients := os_clients st\<rparr>\<rparr>"

definition persistPendingCodes :: "oauth_state \<Rightarrow> oauth_state" where
  "persistPendingCodes st = st\<lparr>os_files := (os_files st)\<lparr>of_pending := os_pending st\<rparr>\<rparr>"

definition persistRefreshTokens :: "oauth_state \<Rightarrow> oauth_state" where
  "persistRefreshTokens st = st\<lparr>os_files := (os_files st)\<lparr>of_refresh := map (\<lambda>(k, e). (k, e, True)) (os_refresh st)\<rparr>\<rparr>"

definition persistRetiredRefresh :: "oauth_state \<Rightarrow> oauth_state" where
  "persistRetiredRefresh st = st\<lparr>os_files := (os_files st)\<lparr>of_retired := os_retired st\<rparr>\<rparr>"

section \<open>Operations\<close>

text \<open>Start-up: \<open>fresh i\<close> is the family id drawn for the \<open>i\<close>-th entry that has none.\<close>

definition loadAll :: "oauth_config \<Rightarrow> int \<Rightarrow> (nat \<Rightarrow> string) \<Rightarrow> session_state \<Rightarrow> oauth_files \<Rightarrow> oauth_state" where
  "loadAll cfg now fresh sess fs = (let n = seconds now; cutoff = js_sub n (ox_refreshTtlSeconds cfg) in
     \<lparr>os_clients = fold (\<lambda>(k, v). AList.update k v) (of_clients fs) [],
      os_pending = fold (\<lambda>(k, v) m. if n < pc_exp v then AList.update k v m else m) (of_pending fs) [],
      os_refresh = fold (\<lambda>(i, k, v, has) m. AList.update k (if has then v else v\<lparr>re_family_id := fresh i\<rparr>) m)
                     (zip [0..<length (of_refresh fs)] (of_refresh fs)) [],
      os_retired = fold (\<lambda>(k, v) m. if cutoff < rt_retired_at v then AList.update k v m else m) (of_retired fs) [],
      os_files = fs, os_session = sess\<rparr>)"

text \<open>\<open>revokeFamily\<close>: every live token of the family is retired; the files are written when there was one.\<close>

definition revokeFamily :: "int \<Rightarrow> string \<Rightarrow> oauth_state \<Rightarrow> nat \<times> oauth_state" where
  "revokeFamily now family st = (let hit = filter (\<lambda>(_, e). re_family_id e = family) (os_refresh st);
       st' = st\<lparr>os_refresh := filter (\<lambda>(_, e). re_family_id e \<noteq> family) (os_refresh st),
                os_retired := fold (\<lambda>(tok, _). AList.update tok \<lparr>rt_family_id = family, rt_retired_at = seconds now\<rparr>) hit (os_retired st)\<rparr>
     in (length hit, if 0 < length hit then persistRetiredRefresh (persistRefreshTokens st') else st'))"

definition getClient :: "string \<Rightarrow> oauth_state \<Rightarrow> oauth_client option" where
  "getClient clientId st = map_of (os_clients st) clientId"

definition registerClient :: "int \<Rightarrow> string \<Rightarrow> json \<Rightarrow> oauth_state \<Rightarrow> oauth_client \<times> oauth_state" where
  "registerClient now client_id clientData st = (
     let client = \<lparr>oc_client_id = client_id, oc_issued_at = seconds now, oc_metadata = clientData\<rparr>
     in (client, persistClients (st\<lparr>os_clients := AList.update client_id client (os_clients st)\<rparr>)))"

record code_params =
  cp_codeChallenge :: string
  cp_client_id :: string
  cp_redirectUri :: string
  cp_scopes :: "string list option"

definition issueAuthCode :: "int \<Rightarrow> string \<Rightarrow> string \<Rightarrow> code_params \<Rightarrow> oauth_state \<Rightarrow> oauth_state" where
  "issueAuthCode now acode address params st = persistPendingCodes (st\<lparr>os_pending := AList.update acode
     \<lparr>pc_address = address, pc_code_challenge = cp_codeChallenge params, pc_client_id = cp_client_id params,
      pc_redirect_uri = cp_redirectUri params, pc_scope = or_default (cp_scopes params) [''mcp:tools''],
      pc_exp = js_add (seconds now) 600\<rparr> (os_pending st)\<rparr>)"

text \<open>\<open>encodeURIComponent\<close>.\<close>

definition uri_unreserved :: "char \<Rightarrow> bool" where
  "uri_unreserved c = (is_digit c \<or> is_upper c \<or> is_lower c \<or> c \<in> set ''-_.!~*'' \<or> code c = 39 \<or> c = CHR ''('' \<or> c = CHR '')'')"

definition upper_hex :: "nat \<Rightarrow> char" where
  "upper_hex d = (if d < 10 then char_of (48 + d) else char_of (55 + d))"

definition encodeURIComponent :: "string \<Rightarrow> string" where
  "encodeURIComponent s = concat (map (\<lambda>c. if uri_unreserved c then [c]
     else concat (map (\<lambda>b. [CHR ''%'', upper_hex (b div 16), upper_hex (b mod 16)]) (utf8_char c))) s)"

record AuthorizationParams =
  ap_redirectUri :: string
  ap_codeChallenge :: string
  ap_scopes :: "string list option"
  ap_state :: "string option"

definition oauth_state_json :: "int \<Rightarrow> string \<Rightarrow> AuthorizationParams \<Rightarrow> json" where
  "oauth_state_json now client_id params = JObj ([
      (''client_id'', JStr client_id), (''redirect_uri'', JStr (ap_redirectUri params)),
      (''code_challenge'', JStr (ap_codeChallenge params))]
     @ (case ap_scopes params of None \<Rightarrow> [] | Some xs \<Rightarrow> [(''scope'', JArr (map JStr xs))])
     @ optional_member ''state'' (ap_state params) @ [(''iat'', JNum (JInt (seconds now)))])"

text \<open>\<open>authorize\<close> answers with a redirect to the login page.\<close>

definition authorize :: "mac \<Rightarrow> oauth_config \<Rightarrow> int \<Rightarrow> oauth_client \<Rightarrow> AuthorizationParams \<Rightarrow> string" where
  "authorize hmac cfg now client params = ''/login?oauth_state='' @
     encodeURIComponent (signOauthState hmac (ox_key cfg) (oauth_state_json now (oc_client_id client) params))"

definition challengeForAuthorizationCode :: "string \<Rightarrow> oauth_state \<Rightarrow> (oauth_error, string) result" where
  "challengeForAuthorizationCode acode st = (case map_of (os_pending st) acode of
       None \<Rightarrow> Inl (InvalidGrantError ''Unknown authorization code'') | Some pending \<Rightarrow> Inr (pc_code_challenge pending))"

definition oauth_session :: "oauth_config \<Rightarrow> string \<Rightarrow> string \<Rightarrow> session_opts" where
  "oauth_session cfg address client_id = \<lparr>so_userId = address, so_walletId = address, so_network = Some (ox_network cfg),
     so_capabilities = None, so_agentId = None, so_ttlSeconds = Some (ox_sessionTtlSeconds cfg), so_authStrategy = Some ''siwe'',
     so_clientId = Some client_id\<rparr>"

definition burn_code :: "string \<Rightarrow> oauth_state \<Rightarrow> oauth_state" where
  "burn_code acode st = persistPendingCodes (st\<lparr>os_pending := AList.delete acode (os_pending st)\<rparr>)"

text \<open>The random values of an exchange: the id of the access token, the refresh token and its family.\<close>

record exchange_random =
  xr_jti :: string
  xr_refresh :: string
  xr_family :: string

definition exchangeAuthorizationCode :: "mac \<Rightarrow> oauth_config \<Rightarrow> int \<Rightarrow> exchange_random \<Rightarrow> string \<Rightarrow> string \<Rightarrow> string option
    \<Rightarrow> oauth_state \<Rightarrow> (oauth_error, OAuthTokens) result \<times> oauth_state" where
  "exchangeAuthorizationCode hmac cfg now rnd client_id acode redirectUri st = (case map_of (os_pending st) acode of
       None \<Rightarrow> (Inl (InvalidGrantError ''Unknown or expired authorization code''), st)
     | Some pending \<Rightarrow>
       if pc_exp pending < seconds now then (Inl (InvalidGrantError ''Authorization code expired''), burn_code acode st)
       else if pc_client_id pending \<noteq> client_id
         then (Inl (InvalidGrantError ''authorization code was not issued to this client''), burn_code acode st)
       else if (case redirectUri of None \<Rightarrow> False | Some uri \<Rightarrow> uri \<noteq> pc_redirect_uri pending)
         then (Inl (InvalidGrantError ''redirect_uri mismatch''), burn_code acode st)
       else let st1 = burn_code acode st;
                accessToken = createSession hmac (ox_key cfg) now (xr_jti rnd) (oauth_session cfg (pc_address pending) client_id);
                st2 = persistRefreshTokens (st1\<lparr>os_refresh := AList.update (xr_refresh rnd)
                  \<lparr>re_address = pc_address pending, re_client_id = client_id, re_scope = pc_scope pending, re_family_id = xr_family rnd\<rparr>
                  (os_refresh st1)\<rparr>)
            in (Inr \<lparr>ot_access_token = accessToken, ot_token_type = ''bearer'', ot_expires_in = ox_sessionTtlSeconds cfg,
                     ot_refresh_token = xr_refresh rnd, ot_scope = join '' '' (pc_scope pending)\<rparr>, st2))"

definition exchangeRefreshToken :: "mac \<Rightarrow> oauth_config \<Rightarrow> int \<Rightarrow> exchange_random \<Rightarrow> string \<Rightarrow> string
    \<Rightarrow> oauth_state \<Rightarrow> (oauth_error, OAuthTokens) result \<times> oauth_state" where
  "exchangeRefreshToken hmac cfg now rnd client_id refreshToken st = (case map_of (os_retired st) refreshToken of
       Some retired \<Rightarrow> (Inl (InvalidGrantError ''Refresh token reuse detected; token family revoked''),
                        snd (revokeFamily now (rt_family_id retired) st))
     | None \<Rightarrow> (case map_of (os_refresh st) refreshToken of
         None \<Rightarrow> (Inl (InvalidGrantError ''Invalid refresh token''), st)
       | Some stored \<Rightarrow>
         if re_client_id stored \<noteq> client_id then (Inl (InvalidGrantError ''Invalid refresh token''), st)
         else let st1 = st\<lparr>os_refresh := AList.delete refreshToken (os_refresh st),
                    os_retired := AList.update refreshToken \<lparr>rt_family_id = re_family_id stored, rt_retired_at = seconds now\<rparr> (os_retired st)\<rparr>;
                  st2 = persistRetiredRefresh (persistRefreshTokens (st1\<lparr>os_refresh := AList.update (xr_refresh rnd) stored (os_refresh st1)\<rparr>));
                  accessToken = createSession hmac (ox_key cfg) now (xr_jti rnd) (oauth_session cfg (re_address stored) client_id)
              in (Inr \<lparr>ot_access_token = accessToken, ot_token_type = ''bearer'', ot_expires_in = ox_sessionTtlSeconds cfg,
                       ot_refresh_token = xr_refresh rnd, ot_scope = join '' '' (re_scope stored)\<rparr>, st2)))"

record AuthInfo =
  ai_token :: string
  ai_clientId :: "json option"
  ai_scopes :: "json option"
  ai_expiresAt :: "json option"

text \<open>\<open>a ?? b\<close> passes over \<open>null\<close> and \<open>undefined\<close>.\<close>

definition nullish :: "json option \<Rightarrow> json option \<Rightarrow> json option" where
  "nullish a b = (case a of None \<Rightarrow> b | Some JNull \<Rightarrow> b | Some v \<Rightarrow> Some v)"

definition verifyAccessToken :: "mac \<Rightarrow> oauth_config \<Rightarrow> int \<Rightarrow> string \<Rightarrow> oauth_state \<Rightarrow> (oauth_error, AuthInfo) result" where
  "verifyAccessToken hmac cfg now token st = (case verifySession hmac (ox_key cfg) (ss_deny (os_session st)) now token of
       None \<Rightarrow> Inl (InvalidTokenError ''Invalid or expired token'')
     | Some session \<Rightarrow> Inr \<lparr>ai_token = token, ai_clientId = nullish (own_field session ''client_id'') (own_field session ''sub''),
         ai_scopes = own_field session ''caps'', ai_expiresAt = own_field session ''exp''\<rparr>)"

definition revokeToken :: "mac \<Rightarrow> oauth_config \<Rightarrow> int \<Rightarrow> string \<Rightarrow> oauth_state \<Rightarrow> oauth_state" where
  "revokeToken hmac cfg now token st = (case map_of (os_refresh st) token of
       Some entry \<Rightarrow> persistRetiredRefresh (persistRefreshTokens (st\<lparr>os_refresh := AList.delete token (os_refresh st),
         os_retired := AList.update token \<lparr>rt_family_id = re_family_id entry, rt_retired_at = seconds now\<rparr> (os_retired st)\<rparr>))
     | None \<Rightarrow> (case verifySession hmac (ox_key cfg) (ss_deny (os_session st)) now token of
         None \<Rightarrow> st
       | Some session \<Rightarrow> st\<lparr>os_session := revokeJti (own_field session ''jti'') (own_field session ''exp'') (os_session st)\<rparr>))"

section \<open>The callback\<close>

datatype callback_response =
    BadRequest string
  | Denied string "(string \<times> string) list"
  | Redirect string "(string \<times> string) list"
  | Thrown

definition field_string :: "json \<Rightarrow> string \<Rightarrow> string option" where
  "field_string v k = (case own_field v k of Some (JStr s) \<Rightarrow> Some s | _ \<Rightarrow> None)"

definition field_strings :: "json \<Rightarrow> string \<Rightarrow> string list option" where
  "field_strings v k = (case own_field v k of Some (JArr vs) \<Rightarrow> Some (map js_toString vs) | _ \<Rightarrow> None)"

text \<open>The route: \<open>signed_in\<close> is the answer of the wallet login (\<open>verifyPayload\<close>), the address that signed or \<open>None\<close>;
  \<open>valid_url\<close> says whether \<open>new URL\<close> accepts a text; \<open>has_payload\<close> says that the body has a payload and a signature. The fields of the state are
  read as strings, a missing one as empty.\<close>

definition oauth_callback :: "mac \<Rightarrow> oauth_config \<Rightarrow> (string \<Rightarrow> bool) \<Rightarrow> int \<Rightarrow> string \<Rightarrow> bool \<Rightarrow> string option \<Rightarrow> string
    \<Rightarrow> oauth_state \<Rightarrow> callback_response \<times> oauth_state" where
  "oauth_callback hmac cfg valid_url now acode has_payload signed_in token st = (
     if \<not> has_payload \<or> token = [] then (BadRequest ''Missing payload, signature, or oauth_state'', st)
     else case verifyOauthState hmac (ox_key cfg) token of
       None \<Rightarrow> (BadRequest ''Invalid or tampered oauth_state'', st)
     | Some params \<Rightarrow>
       if params = JNull then (BadRequest ''Invalid or tampered oauth_state'', st)
       else if (case own_field params ''iat'' of Some (JNum (JInt iat)) \<Rightarrow> fl53 (fl53 (of_int now / 1000) - of_int iat) > 1800
           | Some (JNum (JFrac iat)) \<Rightarrow> fl53 (fl53 (of_int now / 1000) - iat) > 1800 | _ \<Rightarrow> False)
       then (BadRequest ''oauth_state expired; restart login'', st)
       else (let extra = (case field_string params ''state'' of Some (c # s) \<Rightarrow> [(''state'', c # s)] | _ \<Rightarrow> []) in
         case (field_string params ''redirect_uri'', signed_in) of
           (None, None) \<Rightarrow> (Thrown, st)
         | (Some uri, None) \<Rightarrow> if valid_url uri then (Denied uri ([(''error'', ''access_denied'')] @ extra), st) else (Thrown, st)
         | (redirect, Some address) \<Rightarrow>
           let st' = issueAuthCode now acode address \<lparr>cp_codeChallenge = or_default (field_string params ''code_challenge'') [],
                 cp_client_id = or_default (field_string params ''client_id'') [], cp_redirectUri = or_default redirect [],
                 cp_scopes = field_strings params ''scope''\<rparr> st
           in (case redirect of Some uri \<Rightarrow> if valid_url uri then (Redirect uri ([(''code'', acode)] @ extra), st') else (Thrown, st')
               | None \<Rightarrow> (Thrown, st'))))"

section \<open>Runs\<close>

text \<open>The operations as steps at a time, restarts of the process included. A restart happens only when the deny list
  of the sessions loads.\<close>

datatype oauth_op =
    ORegister string json
  | OIssue string string code_params
  | OExchange exchange_random string string "string option"
  | ORefresh exchange_random string string
  | ORevoke string
  | ORestart "nat \<Rightarrow> string"

inductive oauth_step :: "mac \<Rightarrow> oauth_config \<Rightarrow> int \<times> oauth_op \<Rightarrow> oauth_state \<Rightarrow> oauth_state \<Rightarrow> bool" for hmac cfg where
  register: "oauth_step hmac cfg (now, ORegister client_id data) st (snd (registerClient now client_id data st))"
| issue: "oauth_step hmac cfg (now, OIssue c address params) st (issueAuthCode now c address params st)"
| exchange: "oauth_step hmac cfg (now, OExchange rnd client_id c uri) st (snd (exchangeAuthorizationCode hmac cfg now rnd client_id c uri st))"
| refresh: "oauth_step hmac cfg (now, ORefresh rnd client_id tok) st (snd (exchangeRefreshToken hmac cfg now rnd client_id tok st))"
| revoke: "oauth_step hmac cfg (now, ORevoke tok) st (revokeToken hmac cfg now tok st)"
| restart: "session_restart now (os_session st) = Inr sess \<Longrightarrow> oauth_step hmac cfg (now, ORestart fresh) st (loadAll cfg now fresh sess (os_files st))"

inductive oauth_run :: "mac \<Rightarrow> oauth_config \<Rightarrow> (int \<times> oauth_op) list \<Rightarrow> oauth_state \<Rightarrow> oauth_state \<Rightarrow> bool" for hmac cfg where
  stop: "oauth_run hmac cfg [] st st"
| more: "oauth_step hmac cfg ev st st1 \<Longrightarrow> oauth_run hmac cfg evs st1 st2 \<Longrightarrow> oauth_run hmac cfg (ev # evs) st st2"

definition oauth_init :: oauth_state where
  "oauth_init = \<lparr>os_clients = [], os_pending = [], os_refresh = [], os_retired = [],
     os_files = \<lparr>of_clients = [], of_pending = [], of_refresh = [], of_retired = []\<rparr>, os_session = \<lparr>ss_deny = [], ss_file = None\<rparr>\<rparr>"

text \<open>An invariant of the steps is an invariant of the runs.\<close>

lemma oauth_run_invariant:
  assumes "oauth_run hmac cfg evs st st'" "I st" "\<forall>ev \<in> set evs. ok ev"
    and "\<And>ev st st'. oauth_step hmac cfg ev st st' \<Longrightarrow> ok ev \<Longrightarrow> I st \<Longrightarrow> I st'"
  shows "I st'"
  using assms by (induction rule: oauth_run.induct) auto

lemmas oauth_defs = registerClient_def issueAuthCode_def exchangeAuthorizationCode_def exchangeRefreshToken_def revokeToken_def
  revokeFamily_def burn_code_def persistClients_def persistPendingCodes_def persistRefreshTokens_def persistRetiredRefresh_def
  loadAll_def

lemma set_fold_update: "set (fold (\<lambda>(k, v) m. if P v then AList.update k v m else m) xs acc) \<subseteq> set xs \<union> set acc"
proof (induction xs arbitrary: acc)
  case (Cons x xs)
  obtain k v where x: "x = (k, v)" by (cases x)
  have "set (fold (\<lambda>(k, v) m. if P v then AList.update k v m else m) (x # xs) acc)
      \<subseteq> set xs \<union> set (if P v then AList.update k v acc else acc)" using Cons.IH by (simp add: x)
  then show ?case using set_alist_update [of k v acc] x by (auto split: if_splits)
qed simp

section \<open>Properties: authorization codes\<close>

definition code_gone :: "string \<Rightarrow> oauth_state \<Rightarrow> bool" where
  "code_gone c st = (c \<notin> fst ` set (os_pending st) \<and> c \<notin> fst ` set (of_pending (os_files st)))"

fun issues :: "string \<Rightarrow> oauth_op \<Rightarrow> bool" where
  "issues c (OIssue c' _ _) = (c = c')"
| "issues c _ = False"

lemma delete_fst: "fst ` set (AList.delete k xs) = fst ` set xs - {k}"
  by (simp add: delete_keys [unfolded image_set [symmetric], symmetric] AList.delete_eq image_set [symmetric]) (auto simp: image_iff)

lemma code_gone_step:
  assumes "oauth_step hmac cfg ev st st'" "\<not> issues c (snd ev)" "code_gone c st"
  shows "code_gone c st'"
  using assms(1)
proof cases
  case (issue now c' address params)
  have "c \<notin> fst ` set (AList.update c' v (os_pending st))" for v
    using set_alist_update [of c' v "os_pending st"] assms(2,3) issue by (auto simp: code_gone_def)
  then show ?thesis using issue by (simp add: code_gone_def oauth_defs)
next
  case (exchange now rnd client_id c' uri)
  have "c \<notin> fst ` set (AList.delete c' (os_pending st))" using assms(3) by (simp add: code_gone_def delete_fst)
  then show ?thesis using exchange assms(3) by (auto simp: code_gone_def oauth_defs Let_def split: option.splits)
next
  case (restart now sess fresh)
  have "c \<notin> fst ` set (fold (\<lambda>(k, v) m. if seconds now < pc_exp v then AList.update k v m else m) (of_pending (os_files st)) [])"
    using set_fold_update [of "\<lambda>v. seconds now < pc_exp v" "of_pending (os_files st)" "[]"] assms(3) by (auto simp: code_gone_def)
  then show ?thesis using restart assms(3) by (simp add: code_gone_def loadAll_def Let_def)
qed (use assms(3) in \<open>auto simp: code_gone_def oauth_defs Let_def split: option.splits\<close>)

lemma exchange_burns:
  "map_of (os_pending st) c = Some p \<Longrightarrow> code_gone c (snd (exchangeAuthorizationCode hmac cfg now rnd client_id c uri st))"
  by (auto simp: exchangeAuthorizationCode_def code_gone_def burn_code_def persistPendingCodes_def persistRefreshTokens_def delete_fst Let_def
      split: option.splits)

text \<open>C9. An authorization code is used at most once: after any attempt to exchange a pending code, successful or not, and any further operations and restarts that do not issue the same code again, exchanging it is refused and changes nothing.\<close>

theorem oauth_code_single_use:
  assumes "map_of (os_pending st) c = Some p" "exchangeAuthorizationCode hmac cfg now rnd client_id c uri st = (r, st1)"
    and "oauth_run hmac cfg evs st1 st2" "\<forall>ev \<in> set evs. \<not> issues c (snd ev)"
  shows "exchangeAuthorizationCode hmac cfg now' rnd' client_id' c uri' st2
    = (Inl (InvalidGrantError ''Unknown or expired authorization code''), st2)"
proof -
  have "code_gone c st1" using exchange_burns [OF assms(1)] assms(2) by (metis snd_conv)
  from oauth_run_invariant [where I = "code_gone c" and ok = "\<lambda>ev. \<not> issues c (snd ev)", OF assms(3) this assms(4)] code_gone_step
  have "code_gone c st2" by blast
  then have "map_of (os_pending st2) c = None" by (simp add: code_gone_def map_of_eq_None_iff)
  then show ?thesis by (simp add: exchangeAuthorizationCode_def)
qed

theorem oauth_code_single_use_witness:
  "\<exists>(st1 :: oauth_state) st2. fst (exchangeAuthorizationCode (\<lambda>k d. []) \<lparr>ox_key = [], ox_network = ''testnet'', ox_sessionTtlSeconds = 300, ox_refreshTtlSeconds = 9\<rparr>
        1000 \<lparr>xr_jti = ''j'', xr_refresh = ''r'', xr_family = ''f''\<rparr> ''app'' ''c'' None st2)
      = Inl (InvalidGrantError ''Unknown or expired authorization code'')
    \<and> map_of (os_pending st1) ''c'' = None"
proof -
  let ?cfg = "\<lparr>ox_key = [], ox_network = ''testnet'', ox_sessionTtlSeconds = 300, ox_refreshTtlSeconds = 9\<rparr>"
  let ?rnd = "\<lparr>xr_jti = ''j'', xr_refresh = ''r'', xr_family = ''f''\<rparr>"
  let ?p = "\<lparr>cp_codeChallenge = ''x'', cp_client_id = ''app'', cp_redirectUri = ''u'', cp_scopes = None\<rparr>"
  let ?st = "issueAuthCode 0 ''c'' ''addr'' ?p oauth_init"
  let ?st1 = "snd (exchangeAuthorizationCode (\<lambda>k d. []) ?cfg 0 ?rnd ''app'' ''c'' None ?st)"
  have p: "map_of (os_pending ?st) ''c'' = Some \<lparr>pc_address = ''addr'', pc_code_challenge = ''x'', pc_client_id = ''app'',
      pc_redirect_uri = ''u'', pc_scope = [''mcp:tools''], pc_exp = js_add (seconds 0) 600\<rparr>"
    by (simp add: issueAuthCode_def persistPendingCodes_def oauth_init_def or_default_def)
  have g: "map_of (os_pending ?st1) ''c'' = None"
    using exchange_burns [OF p] by (simp add: code_gone_def map_of_eq_None_iff)
  have run: "oauth_run (\<lambda>k d. []) ?cfg [(5, OIssue ''d'' ''addr'' ?p)] ?st1 (issueAuthCode 5 ''d'' ''addr'' ?p ?st1)"
    by (rule oauth_run.more [OF oauth_step.issue oauth_run.stop])
  have "exchangeAuthorizationCode (\<lambda>k d. []) ?cfg 1000 ?rnd ''app'' ''c'' None (issueAuthCode 5 ''d'' ''addr'' ?p ?st1)
      = (Inl (InvalidGrantError ''Unknown or expired authorization code''), issueAuthCode 5 ''d'' ''addr'' ?p ?st1)"
    by (rule oauth_code_single_use [OF p prod.collapse [symmetric] run]) simp
  then have "fst (exchangeAuthorizationCode (\<lambda>k d. []) ?cfg 1000 ?rnd ''app'' ''c'' None (issueAuthCode 5 ''d'' ''addr'' ?p ?st1))
      = Inl (InvalidGrantError ''Unknown or expired authorization code'')" by (simp only: fst_conv)
  with g show ?thesis by blast
qed

section \<open>Properties: refresh tokens\<close>

definition family_dead :: "string \<Rightarrow> oauth_state \<Rightarrow> bool" where
  "family_dead f st = ((\<forall>k e. (k, e) \<in> set (os_refresh st) \<longrightarrow> re_family_id e \<noteq> f)
     \<and> (\<forall>k e. (k, e, True) \<in> set (of_refresh (os_files st)) \<longrightarrow> re_family_id e \<noteq> f))"

fun starts_family :: "string \<Rightarrow> oauth_op \<Rightarrow> bool" where
  "starts_family f (OExchange rnd _ _ _) = (xr_family rnd = f)"
| "starts_family f (ORestart fresh) = (\<exists>i. fresh i = f)"
| "starts_family f _ = False"

text \<open>The families of the file are alive in memory, and no token is listed twice.\<close>

definition refresh_synced :: "oauth_state \<Rightarrow> bool" where
  "refresh_synced st = (distinct (map fst (os_refresh st)) \<and> distinct (map fst (of_refresh (os_files st)))
     \<and> (\<forall>k e. (k, e, True) \<in> set (of_refresh (os_files st)) \<longrightarrow> (\<exists>k' e'. (k', e') \<in> set (os_refresh st) \<and> re_family_id e' = re_family_id e)))"

lemma update_new: "k \<notin> fst ` set xs \<Longrightarrow> AList.update k v xs = xs @ [(k, v)]"
  by (induction xs) auto

lemma fold_update_distinct:
  assumes "distinct (map (fst \<circ> snd) xs)" "fst ` set acc \<inter> (fst \<circ> snd) ` set xs = {}"
  shows "fold (\<lambda>(i, k, v, has) m. AList.update k (g i v has) m) xs acc = acc @ map (\<lambda>(i, k, v, has). (k, g i v has)) xs"
  using assms
proof (induction xs arbitrary: acc)
  case (Cons x xs)
  obtain i k v has where x: "x = (i, k, v, has)" by (cases x) auto
  have "AList.update k (g i v has) acc = acc @ [(k, g i v has)]" using Cons.prems x by (intro update_new) auto
  with Cons.IH [of "acc @ [(k, g i v has)]"] Cons.prems x show ?case by auto
qed simp

lemma map_fst_zip_entries: "length js = length xs \<Longrightarrow> map fst (map (\<lambda>(i, k, v, has). (k, g i v has)) (zip js xs)) = map fst xs"
  by (induction js xs rule: list_induct2) auto

lemma loaded_refresh:
  assumes "distinct (map fst (of_refresh fs))"
  shows "os_refresh (loadAll cfg now fresh sess fs)
    = map (\<lambda>(i, k, v, has). (k, if has then v else v\<lparr>re_family_id := fresh i\<rparr>)) (zip [0..<length (of_refresh fs)] (of_refresh fs))"
proof -
  have "map (fst \<circ> snd) (zip [0..<length (of_refresh fs)] (of_refresh fs)) = map fst (of_refresh fs)"
    by (metis length_map length_upt diff_zero map_map map_snd_zip)
  then show ?thesis using assms by (simp add: loadAll_def Let_def fold_update_distinct)
qed

text \<open>A step leaves the refresh tokens and their file alone, writes both, or is a restart.\<close>

definition refresh_kept :: "oauth_state \<Rightarrow> oauth_state \<Rightarrow> bool" where
  "refresh_kept st st' = (os_refresh st' = os_refresh st \<and> of_refresh (os_files st') = of_refresh (os_files st))"

definition refresh_written :: "oauth_state \<Rightarrow> bool" where
  "refresh_written st = (distinct (map fst (os_refresh st)) \<and> of_refresh (os_files st) = map (\<lambda>(k, e). (k, e, True)) (os_refresh st))"

lemma refresh_effect:
  assumes "oauth_step hmac cfg ev st st'" "distinct (map fst (os_refresh st))" "\<And>fresh. snd ev \<noteq> ORestart fresh"
  shows "refresh_kept st st' \<or> refresh_written st'"
  using assms(1)
proof cases
  case (refresh now rnd client_id tok)
  have f: "filter (\<lambda>(_, e). re_family_id e \<noteq> fam) (os_refresh st) = os_refresh st"
    if "filter (\<lambda>(_, e). re_family_id e = fam) (os_refresh st) = []" for fam
    using that by (auto simp: filter_empty_conv intro!: filter_True)
  have fd: "distinct (map fst (filter P (os_refresh st)))" for P using assms(2) by (rule distinct_map_filter)
  show ?thesis
    unfolding refresh exchangeRefreshToken_def revokeFamily_def
    by (simp add: Let_def refresh_kept_def refresh_written_def persistRefreshTokens_def persistRetiredRefresh_def f fd
        distinct_update distinct_delete assms(2) split: option.split)
next
  case (exchange now rnd client_id c uri)
  then show ?thesis
    by (simp add: exchangeAuthorizationCode_def burn_code_def persistPendingCodes_def persistRefreshTokens_def Let_def refresh_kept_def
        refresh_written_def distinct_update assms(2) split: option.split)
next
  case (revoke now tok)
  then show ?thesis
    by (simp add: revokeToken_def persistRetiredRefresh_def persistRefreshTokens_def refresh_kept_def refresh_written_def distinct_delete
        assms(2) split: option.split)
next
  case (restart now sess fresh)
  then show ?thesis using assms(3) [of fresh] by simp
qed (simp_all add: registerClient_def issueAuthCode_def persistClients_def persistPendingCodes_def refresh_kept_def Let_def)

lemma refresh_written_synced: "refresh_written s \<Longrightarrow> refresh_synced s"
proof -
  assume w: "refresh_written s"
  have "map fst (map (\<lambda>(k, e). (k, e, True)) (os_refresh s)) = map fst (os_refresh s)" by (simp add: comp_def case_prod_unfold)
  moreover have "(k, e) \<in> set (os_refresh s)" if "(k, e, True) \<in> set (map (\<lambda>(k, e). (k, e, True)) (os_refresh s))" for k e
    using that by auto
  ultimately show ?thesis using w unfolding refresh_synced_def refresh_written_def by (metis (no_types, lifting))
qed

lemma refresh_synced_step:
  assumes "oauth_step hmac cfg ev st st'" "refresh_synced st"
  shows "refresh_synced st'"
proof (cases "\<exists>fresh. snd ev = ORestart fresh")
  case False
  with refresh_effect [OF assms(1)] assms(2) have "refresh_kept st st' \<or> refresh_written st'" by (auto simp: refresh_synced_def)
  then show ?thesis using assms(2) refresh_written_synced by (auto simp: refresh_synced_def refresh_kept_def)
next
  case True
  have d: "distinct (map fst (of_refresh (os_files st)))" using assms(2) by (simp add: refresh_synced_def)
  from assms(1) show ?thesis
  proof cases
    case (restart now sess fresh)
    have l: "os_refresh st' = map (\<lambda>(i, k, v, has). (k, if has then v else v\<lparr>re_family_id := fresh i\<rparr>))
        (zip [0..<length (of_refresh (os_files st))] (of_refresh (os_files st)))"
      using restart loaded_refresh [OF d] by simp
    have "map fst (os_refresh st') = map fst (of_refresh (os_files st))"
      unfolding l by (rule map_fst_zip_entries) simp
    moreover have "\<exists>k' e'. (k', e') \<in> set (os_refresh st') \<and> re_family_id e' = re_family_id e"
      if e: "(k, e, True) \<in> set (of_refresh (os_files st))" for k e
    proof -
      obtain i where "i < length (of_refresh (os_files st))" "of_refresh (os_files st) ! i = (k, e, True)" using e by (auto simp: in_set_conv_nth)
      then have "(i, k, e, True) \<in> set (zip [0..<length (of_refresh (os_files st))] (of_refresh (os_files st)))"
        by (force simp: set_zip)
      then have "(k, e) \<in> set (os_refresh st')" unfolding l by force
      then show ?thesis by blast
    qed
    ultimately show ?thesis using d restart by (simp add: refresh_synced_def loadAll_def Let_def)
  qed (use True in auto)
qed


lemma family_dead_step:
  assumes "oauth_step hmac cfg ev st st'" "refresh_synced st" "\<not> starts_family f (snd ev)" "family_dead f st"
  shows "family_dead f st'"
proof (cases "\<exists>fresh. snd ev = ORestart fresh")
  case False
  have d: "distinct (map fst (os_refresh st))" using assms(2) by (simp add: refresh_synced_def)
  have live: "re_family_id e \<noteq> f" if "(k, e) \<in> set (os_refresh st)" for k e using assms(4) that by (auto simp: family_dead_def)
  have upd: "re_family_id e \<noteq> f" if "(k, e) \<in> set (AList.update k' e' xs)" "re_family_id e' \<noteq> f" "set xs \<subseteq> set (os_refresh st)" for k e k' e' xs
    using that set_alist_update [of k' e' xs] live by blast
  have del: "set (AList.delete k xs) \<subseteq> set xs" for k and xs :: "RefreshEntry table" by (auto simp: AList.delete_eq)
  have new: "re_family_id e \<noteq> f" if "(k, e) \<in> set (os_refresh st')" for k e
    using assms(1)
  proof cases
    case (exchange now rnd client_id c uri)
    with that show ?thesis using assms(3) live upd [OF _ _ subset_refl]
      by (auto simp: exchangeAuthorizationCode_def burn_code_def persistPendingCodes_def persistRefreshTokens_def Let_def split: option.splits if_splits)
  next
    case (refresh now rnd client_id tok)
    have stored: "map_of (os_refresh st) tok = Some e' \<Longrightarrow> re_family_id e' \<noteq> f" for e' using live by (blast dest: map_of_SomeD)
    from that refresh show ?thesis using live stored upd [OF _ _ del]
      by (auto simp: exchangeRefreshToken_def revokeFamily_def persistRefreshTokens_def persistRetiredRefresh_def Let_def split: option.splits if_splits)
  next
    case (revoke now tok)
    with that show ?thesis using live live [OF subsetD [OF del]]
      by (auto simp: revokeToken_def persistRefreshTokens_def persistRetiredRefresh_def split: option.splits)
  next
    case (restart now sess fresh)
    then show ?thesis using False by auto
  qed (use that live in \<open>auto simp: registerClient_def issueAuthCode_def persistClients_def persistPendingCodes_def Let_def\<close>)
  from refresh_effect [OF assms(1) d] False consider "refresh_kept st st'" | "refresh_written st'" by blast
  then show ?thesis
  proof cases
    case 1
    then show ?thesis using assms(4) by (simp add: family_dead_def refresh_kept_def)
  next
    case 2
    then have "(k, e) \<in> set (os_refresh st')" if "(k, e, True) \<in> set (of_refresh (os_files st'))" for k e
      using that by (auto simp: refresh_written_def)
    then show ?thesis using new unfolding family_dead_def by blast
  qed
next
  case True
  then obtain fresh where fresh: "snd ev = ORestart fresh" by blast
  have d: "distinct (map fst (of_refresh (os_files st)))" using assms(2) by (simp add: refresh_synced_def)
  from assms(1) fresh obtain now sess where st': "st' = loadAll cfg now fresh sess (os_files st)" by cases auto
  have "re_family_id e \<noteq> f" if e: "(k, e) \<in> set (os_refresh st')" for k e
  proof -
    from e obtain i v has where "(i, k, v, has) \<in> set (zip [0..<length (of_refresh (os_files st))] (of_refresh (os_files st)))"
      "e = (if has then v else v\<lparr>re_family_id := fresh i\<rparr>)"
      unfolding st' loaded_refresh [OF d] by auto
    then have "(k, v, has) \<in> set (of_refresh (os_files st))" "e = (if has then v else v\<lparr>re_family_id := fresh i\<rparr>)"
      by (auto dest: set_zip_rightD)
    with assms(3,4) fresh show ?thesis by (cases has) (auto simp: family_dead_def)
  qed
  then show ?thesis using assms(4) by (auto simp: family_dead_def st' loadAll_def Let_def)
qed

text \<open>C23. Reuse of a retired refresh token kills its family for good: in a state reached from the start, after the retired token is presented, no token of its family is live, now or after any further operations and restarts (fresh family ids are not the old one). So neither the thief's nor the owner's chain of tokens survives.\<close>

theorem oauth_reuse_kills_family:
  assumes "oauth_run hmac cfg evs0 oauth_init st" "map_of (os_retired st) tok = Some retired"
    and "exchangeRefreshToken hmac cfg now rnd client_id tok st = (r, st1)"
    and "oauth_run hmac cfg evs st1 st2" "\<forall>ev \<in> set evs. \<not> starts_family (rt_family_id retired) (snd ev)"
  shows "r = Inl (InvalidGrantError ''Refresh token reuse detected; token family revoked'')
    \<and> (\<forall>t e. map_of (os_refresh st2) t = Some e \<longrightarrow> re_family_id e \<noteq> rt_family_id retired)"
proof -
  let ?f = "rt_family_id retired"
  have "refresh_synced oauth_init" by (simp add: refresh_synced_def oauth_init_def)
  from oauth_run_invariant [where I = refresh_synced and ok = "\<lambda>_. True", OF assms(1) this] refresh_synced_step
  have s: "refresh_synced st" by blast
  have st1: "r = Inl (InvalidGrantError ''Refresh token reuse detected; token family revoked'')" "st1 = snd (revokeFamily now ?f st)"
    using assms(2,3) by (simp_all add: exchangeRefreshToken_def)
  have "oauth_step hmac cfg (now, ORefresh rnd client_id tok) st st1" using assms(3) oauth_step.refresh by (metis snd_conv)
  then have s1: "refresh_synced st1" using refresh_synced_step s by blast
  have live: "re_family_id e \<noteq> ?f" if "(k, e) \<in> set (os_refresh st1)" for k e
    using that by (auto simp: st1(2) revokeFamily_def persistRefreshTokens_def persistRetiredRefresh_def Let_def split: if_splits)
  then have "family_dead ?f st1" using s1 unfolding family_dead_def refresh_synced_def by metis
  with s1 have "refresh_synced st2 \<and> family_dead ?f st2"
    using oauth_run_invariant [where I = "\<lambda>s. refresh_synced s \<and> family_dead ?f s" and ok = "\<lambda>ev. \<not> starts_family ?f (snd ev)",
        OF assms(4) _ assms(5)] refresh_synced_step family_dead_step by blast
  then show ?thesis using st1(1) by (auto simp: family_dead_def dest: map_of_SomeD)
qed


theorem oauth_reuse_kills_family_witness:
  "\<exists>(st :: oauth_state) r. r = Inl (InvalidGrantError ''Refresh token reuse detected; token family revoked'')
    \<and> (\<forall>t e. map_of (os_refresh st) t = Some e \<longrightarrow> re_family_id e \<noteq> ''f'')
    \<and> fst (exchangeRefreshToken (\<lambda>k d. []) \<lparr>ox_key = [], ox_network = ''testnet'', ox_sessionTtlSeconds = 300, ox_refreshTtlSeconds = 9\<rparr>
        9 \<lparr>xr_jti = ''j'', xr_refresh = ''r3'', xr_family = ''g''\<rparr> ''app'' ''r1'' st) = r"
proof -
  let ?cfg = "\<lparr>ox_key = [], ox_network = ''testnet'', ox_sessionTtlSeconds = 300, ox_refreshTtlSeconds = 9\<rparr>"
  let ?rnd = "\<lambda>t. \<lparr>xr_jti = ''j'', xr_refresh = t, xr_family = ''f''\<rparr>"
  let ?p = "\<lparr>cp_codeChallenge = ''x'', cp_client_id = ''app'', cp_redirectUri = ''u'', cp_scopes = None\<rparr>"
  let ?h = "\<lambda>(k :: nat list) d :: nat list. [] :: nat list"
  define s1 where "s1 = issueAuthCode 0 ''c'' ''addr'' ?p oauth_init"
  define s2 where "s2 = snd (exchangeAuthorizationCode ?h ?cfg 1 (?rnd ''r1'') ''app'' ''c'' None s1)"
  define s3 where "s3 = snd (exchangeRefreshToken ?h ?cfg 2 (?rnd ''r2'') ''app'' ''r1'' s2)"
  have run: "oauth_run ?h ?cfg [(0, OIssue ''c'' ''addr'' ?p), (1, OExchange (?rnd ''r1'') ''app'' ''c'' None), (2, ORefresh (?rnd ''r2'') ''app'' ''r1'')]
      oauth_init s3"
    unfolding s3_def s2_def s1_def
    by (rule oauth_run.more [OF oauth_step.issue oauth_run.more [OF oauth_step.exchange oauth_run.more [OF oauth_step.refresh oauth_run.stop]]])
  have retired: "map_of (os_retired s3) ''r1'' = Some \<lparr>rt_family_id = ''f'', rt_retired_at = 0\<rparr>"
    unfolding s3_def s2_def s1_def
    by (simp add: issueAuthCode_def exchangeAuthorizationCode_def exchangeRefreshToken_def burn_code_def persistPendingCodes_def
        persistRefreshTokens_def persistRetiredRefresh_def oauth_init_def or_default_def seconds_def Let_def)
  define s4 where "s4 = snd (exchangeRefreshToken ?h ?cfg 9 \<lparr>xr_jti = ''j'', xr_refresh = ''r3'', xr_family = ''g''\<rparr> ''app'' ''r1'' s3)"
  have e: "exchangeRefreshToken ?h ?cfg 9 \<lparr>xr_jti = ''j'', xr_refresh = ''r3'', xr_family = ''g''\<rparr> ''app'' ''r1'' s3
      = (fst (exchangeRefreshToken ?h ?cfg 9 \<lparr>xr_jti = ''j'', xr_refresh = ''r3'', xr_family = ''g''\<rparr> ''app'' ''r1'' s3), s4)"
    by (simp add: s4_def)
  have a: "\<forall>t e. map_of (os_refresh s4) t = Some e \<longrightarrow> re_family_id e \<noteq> ''f''"
    using oauth_reuse_kills_family [OF run retired e oauth_run.stop] by simp
  have "map_of (os_retired s4) ''r1'' \<noteq> None"
    unfolding s4_def s3_def s2_def s1_def
    by (simp add: issueAuthCode_def exchangeAuthorizationCode_def exchangeRefreshToken_def revokeFamily_def burn_code_def persistPendingCodes_def
        persistRefreshTokens_def persistRetiredRefresh_def oauth_init_def or_default_def seconds_def Let_def)
  then have "fst (exchangeRefreshToken ?h ?cfg 9 \<lparr>xr_jti = ''j'', xr_refresh = ''r3'', xr_family = ''g''\<rparr> ''app'' ''r1'' s4)
      = Inl (InvalidGrantError ''Refresh token reuse detected; token family revoked'')"
    by (auto simp: exchangeRefreshToken_def)
  with a show ?thesis by blast
qed

section \<open>Properties: what a token grants\<close>

text \<open>Exchanging a pending code succeeds exactly when it has not expired, the client is the one it was issued to and the redirect address, if given, is the same; in every case the code is burned. The access token then verifies as a session of the address that signed in with every capability of the server, whatever scope was asked for and is reported.\<close>

theorem oauth_exchange_outcome:
  assumes "digest32 hmac" "\<bar>seconds now\<bar> \<le> 2 ^ 52" "0 \<le> ox_sessionTtlSeconds cfg" "ox_sessionTtlSeconds cfg \<le> 2 ^ 51"
    and "map_of (os_pending st) c = Some p" "exchangeAuthorizationCode hmac cfg now rnd client_id c uri st = (r, st')"
    and "\<not> deny_has deny (Some (JStr (xr_jti rnd)))"
  shows "map_of (os_pending st') c = None \<and>
    (case r of
       Inl _ \<Rightarrow> \<not> (seconds now \<le> pc_exp p \<and> client_id = pc_client_id p \<and> (uri = None \<or> uri = Some (pc_redirect_uri p)))
     | Inr tokens \<Rightarrow> seconds now \<le> pc_exp p \<and> client_id = pc_client_id p \<and> (uri = None \<or> uri = Some (pc_redirect_uri p))
         \<and> (\<exists>session. verifySession hmac (ox_key cfg) deny now (ot_access_token tokens) = Some session
              \<and> own_field session ''sub'' = Some (JStr (pc_address p)) \<and> own_field session ''caps'' = Some (JArr (map JStr ALL_CAPS)))
         \<and> map_of (os_refresh st') (ot_refresh_token tokens) = Some \<lparr>re_address = pc_address p, re_client_id = client_id,
              re_scope = pc_scope p, re_family_id = xr_family rnd\<rparr>
         \<and> ot_scope tokens = join '' '' (pc_scope p))"
proof -
  let ?o = "oauth_session cfg (pc_address p) client_id"
  have ttl: "or_default (so_ttlSeconds ?o) 300 = ox_sessionTtlSeconds cfg" by (simp add: oauth_session_def or_default_def)
  have w: "\<bar>or_default (so_ttlSeconds ?o) 300\<bar> \<le> 2 ^ 51" using assms(3,4) ttl by simp
  have v: "verifySession hmac (ox_key cfg) deny now (createSession hmac (ox_key cfg) now (xr_jti rnd) ?o) = Some (SessionPayload now (xr_jti rnd) ?o)"
    using assms(3,7) ttl by (simp add: verifySession_created [OF assms(1,2) w])
  have fields: "own_field (SessionPayload now (xr_jti rnd) ?o) ''sub'' = Some (JStr (pc_address p))"
    "own_field (SessionPayload now (xr_jti rnd) ?o) ''caps'' = Some (JArr (map JStr ALL_CAPS))"
    by (simp_all add: SessionPayload_fields oauth_session_def or_default_def)
  have "code_gone c st'" using exchange_burns [OF assms(5)] assms(6) by (metis snd_conv)
  then have "map_of (os_pending st') c = None" by (simp add: code_gone_def map_of_eq_None_iff)
  moreover have "r = fst (exchangeAuthorizationCode hmac cfg now rnd client_id c uri st)"
    "st' = snd (exchangeAuthorizationCode hmac cfg now rnd client_id c uri st)" using assms(6) by simp_all
  ultimately show ?thesis
    using v fields assms(5)
    by (auto simp: exchangeAuthorizationCode_def Let_def persistRefreshTokens_def burn_code_def persistPendingCodes_def update_conv'
        split: option.splits if_splits)
qed


theorem oauth_exchange_outcome_witness:
  "\<exists>tokens st'. exchangeAuthorizationCode (\<lambda>k d. replicate 32 0)
      \<lparr>ox_key = [], ox_network = ''testnet'', ox_sessionTtlSeconds = 300, ox_refreshTtlSeconds = 9\<rparr>
      1000 \<lparr>xr_jti = ''j'', xr_refresh = ''r'', xr_family = ''f''\<rparr> ''app'' ''c'' None
      (issueAuthCode 0 ''c'' ''addr'' \<lparr>cp_codeChallenge = ''x'', cp_client_id = ''app'', cp_redirectUri = ''u'', cp_scopes = Some [''read'']\<rparr> oauth_init)
      = (Inr tokens, st')
    \<and> (\<exists>session. verifySession (\<lambda>k d. replicate 32 0) [] [] 1000 (ot_access_token tokens) = Some session
         \<and> own_field session ''caps'' = Some (JArr (map JStr ALL_CAPS)))
    \<and> ot_scope tokens = ''read''"
proof -
  let ?h = "\<lambda>(k :: nat list) d :: nat list. replicate 32 0 :: nat list"
  let ?cfg = "\<lparr>ox_key = [], ox_network = ''testnet'', ox_sessionTtlSeconds = 300, ox_refreshTtlSeconds = 9\<rparr>"
  let ?rnd = "\<lparr>xr_jti = ''j'', xr_refresh = ''r'', xr_family = ''f''\<rparr>"
  let ?st = "issueAuthCode 0 ''c'' ''addr'' \<lparr>cp_codeChallenge = ''x'', cp_client_id = ''app'', cp_redirectUri = ''u'', cp_scopes = Some [''read'']\<rparr> oauth_init"
  let ?p = "\<lparr>pc_address = ''addr'', pc_code_challenge = ''x'', pc_client_id = ''app'', pc_redirect_uri = ''u'', pc_scope = [''read''], pc_exp = 600\<rparr>"
  obtain r st' where e: "exchangeAuthorizationCode ?h ?cfg 1000 ?rnd ''app'' ''c'' None ?st = (r, st')" by fastforce
  have p: "map_of (os_pending ?st) ''c'' = Some ?p"
    by (simp add: issueAuthCode_def persistPendingCodes_def oauth_init_def or_default_def seconds_def)
  have o: "case r of
       Inl _ \<Rightarrow> \<not> (seconds 1000 \<le> pc_exp ?p \<and> ''app'' = pc_client_id ?p \<and> (None = None \<or> None = Some (pc_redirect_uri ?p)))
     | Inr tokens \<Rightarrow> (\<exists>session. verifySession ?h [] [] 1000 (ot_access_token tokens) = Some session
         \<and> own_field session ''caps'' = Some (JArr (map JStr ALL_CAPS))) \<and> ot_scope tokens = ''read''"
    using oauth_exchange_outcome [OF _ _ _ _ p e, of "[]"]
    by (auto simp: digest32_def seconds_def deny_has_def split: sum.splits)
  show ?thesis
  proof (cases r)
    case (Inl x)
    with o show ?thesis by (simp add: seconds_def)
  next
    case (Inr tokens)
    with o e show ?thesis by simp
  qed
qed

text \<open>The state that \<open>authorize\<close> puts into the login address of anyone who registers a client is signed like a session and is accepted as one: with no expiry and no id, at every later time, until the missing id itself has been revoked; it grants no capability, because the check of one fails with an exception.\<close>

theorem oauth_state_passes_as_session:
  assumes "digest32 hmac" "\<bar>seconds issued\<bar> \<le> MAX_SAFE_INTEGER" "\<not> deny_has (ss_deny (os_session st)) None"
  shows "verifyAccessToken hmac cfg now (signOauthState hmac (ox_key cfg) (oauth_state_json issued client_id params)) st
      = Inr \<lparr>ai_token = signOauthState hmac (ox_key cfg) (oauth_state_json issued client_id params), ai_clientId = Some (JStr client_id),
             ai_scopes = None, ai_expiresAt = None\<rparr>
    \<and> requireCapability (oauth_state_json issued client_id params) cap = Inl (JsError TypeError)"
proof -
  let ?v = "oauth_state_json issued client_id params"
  have w: "wf_json ?v" using assms(2) wf_strings by (auto simp: oauth_state_json_def optional_member_def list_all_iff split: option.splits)
  have f: "js_field (Some ?v) ''exp'' = Inr None" "own_field ?v ''jti'' = None" "own_field ?v ''caps'' = None" "own_field ?v ''exp'' = None"
    "own_field ?v ''client_id'' = Some (JStr client_id)"
    by (simp_all add: oauth_state_json_def optional_member_def js_field_def own_field_def split: option.split)
  have "verifySession hmac (ox_key cfg) (ss_deny (os_session st)) now (signOauthState hmac (ox_key cfg) ?v) = Some ?v"
    using verifySession_signed [OF assms(1) w refl, of "ox_key cfg" "ss_deny (os_session st)" now] assms(3)
    by (simp add: signOauthState_def Let_def f value_less_def)
  then show ?thesis by (simp add: verifyAccessToken_def f nullish_def requireCapability_def hasCapability_def)
qed

theorem oauth_state_passes_as_session_witness:
  "ai_scopes (projr (verifyAccessToken (\<lambda>k d. replicate 32 0) \<lparr>ox_key = [], ox_network = ''testnet'', ox_sessionTtlSeconds = 300, ox_refreshTtlSeconds = 9\<rparr>
      10000000000000 (signOauthState (\<lambda>k d. replicate 32 0) [] (oauth_state_json 0 ''app''
        \<lparr>ap_redirectUri = ''u'', ap_codeChallenge = ''x'', ap_scopes = None, ap_state = None\<rparr>)) oauth_init)) = None"
  using oauth_state_passes_as_session [of "\<lambda>k d. replicate 32 0" 0 oauth_init
      "\<lparr>ox_key = [], ox_network = ''testnet'', ox_sessionTtlSeconds = 300, ox_refreshTtlSeconds = 9\<rparr>" 10000000000000 "''app''"
      "\<lparr>ap_redirectUri = ''u'', ap_codeChallenge = ''x'', ap_scopes = None, ap_state = None\<rparr>"]
  by (simp add: digest32_def seconds_def MAX_SAFE_INTEGER_def deny_has_def oauth_init_def)

end
