(* ===== verification/Write_Path.thy ===== *)
theory Write_Path
  imports Session_Auth
begin

text \<open>
  Sending transactions: \<^verbatim>\<open>src/write/blockhash-cache.ts\<close>, \<^verbatim>\<open>nonce-manager.ts\<close>, \<^verbatim>\<open>submitter.ts\<close> and
  \<^verbatim>\<open>error-recovery.ts\<close>. What the RPC node answers and when is an argument of each operation: an
  answer is \<open>Inr\<close> of a value or \<open>Inl\<close> of the message of the error that was thrown. An operation that
  waits for the node is split where it waits, so that calls can interleave there.
\<close>

section \<open>Blockhash cache\<close>

record blockhash_info =
  bi_blockhash :: string
  bi_lastValidBlockHeight :: int

record blockhash_cache =
  bc_current :: "blockhash_info option"
  bc_fetchedAt :: int
  bc_refreshing :: bool

definition empty_cache :: blockhash_cache where
  "empty_cache = \<lparr>bc_current = None, bc_fetchedAt = 0, bc_refreshing = False\<rparr>"

definition refresh_blockhash :: "int \<Rightarrow> (string, blockhash_info) result \<Rightarrow> blockhash_cache \<Rightarrow> (string, blockhash_info) result \<times> blockhash_cache" where
  "refresh_blockhash now answer c = (case answer of
       Inr b \<Rightarrow> (Inr b, c\<lparr>bc_current := Some b, bc_fetchedAt := now\<rparr>)
     | Inl err \<Rightarrow> (case bc_current c of Some b \<Rightarrow> (Inr b, c) | None \<Rightarrow> (Inl err, c)))"

text \<open>\<open>now\<close> is the time of the call and \<open>later\<close> the time of the node's answer.\<close>

definition getBlockhash :: "int \<Rightarrow> int \<Rightarrow> (string, blockhash_info) result \<Rightarrow> blockhash_cache \<Rightarrow> (string, blockhash_info) result \<times> blockhash_cache" where
  "getBlockhash now later answer c = (case bc_current c of
       Some b \<Rightarrow> if now - bc_fetchedAt c < 20000 then (Inr b, c) else refresh_blockhash later answer c
     | None \<Rightarrow> refresh_blockhash later answer c)"

definition startRefresh :: "blockhash_cache \<Rightarrow> blockhash_cache" where
  "startRefresh c = c\<lparr>bc_refreshing := True\<rparr>"

definition stopRefresh :: "blockhash_cache \<Rightarrow> blockhash_cache" where
  "stopRefresh c = c\<lparr>bc_refreshing := False\<rparr>"

definition blockhash_isValid :: "int \<Rightarrow> string \<Rightarrow> blockhash_cache \<Rightarrow> bool" where
  "blockhash_isValid now h c = (case bc_current c of None \<Rightarrow> False | Some b \<Rightarrow> bi_blockhash b = h \<and> now - bc_fetchedAt c < 60000)"

section \<open>Nonces\<close>

text \<open>\<open>parseInt(s, 16)\<close>.\<close>

definition parseInt16 :: "string \<Rightarrow> jsnumber" where
  "parseInt16 s = (let t = dropWhile is_space s; neg = (t \<noteq> [] \<and> hd t = CHR ''-'');
       u = (if t \<noteq> [] \<and> (hd t = CHR ''-'' \<or> hd t = CHR ''+'') then tl t else t);
       v = (if to_lower (take 2 u) = ''0x'' then drop 2 u else u); ds = takeWhile is_hex v
     in if ds = [] then JNaN
        else to_double ((if neg then - 1 else 1) * of_int (foldl (\<lambda>n c. 16 * n + int (hex_value c)) 0 ds)))"

text \<open>\<open>a + n\<close> for a small integer \<open>n\<close>.\<close>

fun add_int :: "jsnumber \<Rightarrow> int \<Rightarrow> jsnumber" where
  "add_int (JInt i) n = JInt (js_add i n)"
| "add_int (JFrac q) n = JFrac (fl53 (q + of_int n))"
| "add_int x n = x"

record nonce_entry =
  ne_current :: jsnumber
  ne_pendingCount :: int
  ne_fetchedAt :: int

type_synonym nonces = "(string \<times> nonce_entry) list"

definition ttlMs :: int where
  "ttlMs = 300000"

text \<open>\<open>getNextNonce\<close> up to its request to the node: a nonce from the entry, or \<open>None\<close> when it has to ask.\<close>

definition nonce_begin :: "int \<Rightarrow> string \<Rightarrow> nonces \<Rightarrow> jsnumber option \<times> nonces" where
  "nonce_begin now evmAddress ns = (let addr = to_lower evmAddress in case map_of ns addr of
       Some e \<Rightarrow> if now - ne_fetchedAt e < ttlMs
         then (Some (add_int (ne_current e) (ne_pendingCount e)), AList.update addr (e\<lparr>ne_pendingCount := ne_pendingCount e + 1\<rparr>) ns)
         else (None, ns)
     | None \<Rightarrow> (None, ns))"

text \<open>The rest, with the node's answer.\<close>

definition nonce_finish :: "int \<Rightarrow> string \<Rightarrow> string \<Rightarrow> nonces \<Rightarrow> jsnumber \<times> nonces" where
  "nonce_finish now evmAddress hexNonce ns = (let onChainNonce = parseInt16 hexNonce
     in (onChainNonce, AList.update (to_lower evmAddress) \<lparr>ne_current = onChainNonce, ne_pendingCount = 1, ne_fetchedAt = now\<rparr> ns))"

definition getNextNonce :: "int \<Rightarrow> int \<Rightarrow> string \<Rightarrow> string \<Rightarrow> nonces \<Rightarrow> jsnumber \<times> nonces" where
  "getNextNonce now later evmAddress hexNonce ns = (case nonce_begin now evmAddress ns of
       (Some n, ns') \<Rightarrow> (n, ns') | (None, ns') \<Rightarrow> nonce_finish later evmAddress hexNonce ns')"

definition releaseNonce :: "string \<Rightarrow> jsnumber \<Rightarrow> nonces \<Rightarrow> nonces" where
  "releaseNonce evmAddress nonce ns = (let addr = to_lower evmAddress in case map_of ns addr of
       Some e \<Rightarrow> if ne_pendingCount e > 0 then AList.update addr (e\<lparr>ne_pendingCount := ne_pendingCount e - 1\<rparr>) ns else ns
     | None \<Rightarrow> ns)"

definition resetNonce :: "string \<Rightarrow> nonces \<Rightarrow> nonces" where
  "resetNonce evmAddress ns = AList.delete (to_lower evmAddress) ns"

section \<open>Confirmation\<close>

definition js_truthy :: "json option \<Rightarrow> bool" where
  "js_truthy v = (case v of None \<Rightarrow> False | Some JNull \<Rightarrow> False | Some (JBool b) \<Rightarrow> b | Some (JNum n) \<Rightarrow> n \<noteq> JInt 0 \<and> n \<noteq> JNaN
     | Some (JStr s) \<Rightarrow> s \<noteq> [] | Some _ \<Rightarrow> True)"

text \<open>\<open>tx.meta?.k\<close> and \<open>a ?? b\<close>.\<close>

definition meta_field :: "json \<Rightarrow> string \<Rightarrow> json option" where
  "meta_field tx k = (case own_field tx ''meta'' of Some v \<Rightarrow> own_field v k | None \<Rightarrow> None)"

definition coalesce :: "json option \<Rightarrow> json option \<Rightarrow> json option" where
  "coalesce a b = (case a of None \<Rightarrow> b | Some JNull \<Rightarrow> b | Some v \<Rightarrow> Some v)"

definition is_nullish :: "json option \<Rightarrow> bool" where
  "is_nullish v = (v = None \<or> v = Some JNull)"

datatype tx_status = Confirmed | Failed | Timeout

record tx_failure =
  tf_code :: string
  tf_raw_message :: string
  tf_retryable :: bool

record TransactionResult =
  tr_status :: tx_status
  tr_signature :: string
  tr_block_height :: "json option"
  tr_timestamp :: "json option"
  tr_gas_used :: "json option"
  tr_fee :: "json option"
  tr_error :: "tx_failure option"
  tr_retries :: nat
  tr_latency_ms :: int
  tr_coalesced :: bool

definition tx_success :: "json \<Rightarrow> bool" where
  "tx_success tx = (own_field tx ''success'' \<noteq> Some (JBool False) \<and> \<not> js_truthy (own_field tx ''error'') \<and> is_nullish (meta_field tx ''err''))"

definition receipt_result :: "string \<Rightarrow> json \<Rightarrow> TransactionResult" where
  "receipt_result signature tx = (let failed = \<not> tx_success tx;
       errMsg = or_default (coalesce (coalesce (own_field tx ''error'') (meta_field tx ''err'')) None) (JStr ''transaction failed on-chain'')
     in \<lparr>tr_status = (if failed then Failed else Confirmed), tr_signature = signature,
         tr_block_height = coalesce (own_field tx ''slot'') (own_field tx ''blockHeight''), tr_timestamp = own_field tx ''blockTime'',
         tr_gas_used = coalesce (meta_field tx ''computeUnitsConsumed'') (own_field tx ''computeUnitsUsed''),
         tr_fee = coalesce (meta_field tx ''fee'') (own_field tx ''fee''),
         tr_error = (if failed then Some \<lparr>tf_code = ''CHAIN_EXEC'', tf_raw_message = js_toString errMsg, tf_retryable = False\<rparr> else None),
         tr_retries = 0, tr_latency_ms = 0, tr_coalesced = False\<rparr>)"

definition plain_result :: "tx_status \<Rightarrow> string \<Rightarrow> tx_failure option \<Rightarrow> nat \<Rightarrow> int \<Rightarrow> TransactionResult" where
  "plain_result status signature err retries latency = \<lparr>tr_status = status, tr_signature = signature, tr_block_height = None,
     tr_timestamp = None, tr_gas_used = None, tr_fee = None, tr_error = err, tr_retries = retries, tr_latency_ms = latency, tr_coalesced = False\<rparr>"

text \<open>\<open>/a\s*b/\<close> found anywhere in a text.\<close>

fun spaced_match :: "string \<Rightarrow> string \<Rightarrow> string \<Rightarrow> bool" where
  "spaced_match a b [] = (a = [] \<and> b = [])"
| "spaced_match a b (c # s) = (starts_with a (c # s) \<and> starts_with b (dropWhile is_space (drop (length a) (c # s))) \<or> spaced_match a b s)"

text \<open>\<open>/JSON-RPC\s*error\s*-N/\<close>.\<close>

fun rpc_code_match :: "string \<Rightarrow> string \<Rightarrow> bool" where
  "rpc_code_match n [] = False"
| "rpc_code_match n (c # s) = (starts_with ''JSON-RPC'' (c # s) \<and>
      (let t = dropWhile is_space (drop 8 (c # s)) in starts_with ''error'' t \<and> starts_with n (dropWhile is_space (drop 5 t)))
     \<or> rpc_code_match n s)"

definition notFound :: "string \<Rightarrow> bool" where
  "notFound msg = (let m = to_lower msg in
     spaced_match ''not'' ''found'' m \<or> spaced_match ''unknown'' ''transaction'' m \<or> spaced_match ''invalid'' ''signature'' m
     \<or> rpc_code_match ''-32004'' msg \<or> rpc_code_match ''-32602'' msg)"

record tx_config =
  tc_defaultTimeoutMs :: int
  tc_maxRetries :: nat
  tc_confirmationPollMs :: int
  tc_maxPollErrors :: nat

text \<open>One round of the polling loop: what the node answered to \<open>getTransaction\<close> (\<open>None\<close> for \<open>null\<close>), the time of the answer,
  and the time at which the loop looks at the clock again after its pause.\<close>

record poll_answer =
  pa_answer :: "(string, json option) result"
  pa_at :: int
  pa_wake :: int

text \<open>The loop ends with a result and its time, or throws; \<open>Waiting\<close> means that the answers given do not end it.\<close>

datatype 'a outcome = Returned 'a int | Thrown string int | Waiting

fun poll_loop :: "tx_config \<Rightarrow> string \<Rightarrow> int \<Rightarrow> nat \<Rightarrow> int \<Rightarrow> poll_answer list \<Rightarrow> TransactionResult outcome" where
  "poll_loop cfg signature deadline errs now [] =
     (if \<not> now < deadline then Returned (plain_result Timeout signature None 0 0) now else Waiting)"
| "poll_loop cfg signature deadline errs now (p # ps) =
     (if \<not> now < deadline then Returned (plain_result Timeout signature None 0 0) now
      else case pa_answer p of
        Inr tx \<Rightarrow> if js_truthy tx then Returned (receipt_result signature (the tx)) (pa_at p)
                  else poll_loop cfg signature deadline 0 (pa_wake p) ps
      | Inl msg \<Rightarrow> if notFound msg then poll_loop cfg signature deadline 0 (pa_wake p) ps
                   else if tc_maxPollErrors cfg \<le> Suc errs then Thrown msg (pa_at p)
                   else poll_loop cfg signature deadline (Suc errs) (pa_wake p) ps)"

definition pollConfirmation :: "tx_config \<Rightarrow> string \<Rightarrow> int \<Rightarrow> int \<Rightarrow> poll_answer list \<Rightarrow> TransactionResult outcome" where
  "pollConfirmation cfg signature remainingMs now ps = poll_loop cfg signature (now + max remainingMs 5000) 0 now ps"

section \<open>Submission\<close>

text \<open>One attempt: the answer to \<open>sendTransaction\<close> and its time, the rounds of polling, and the answer to a refresh of the blockhash,
  should one be needed.\<close>

record attempt =
  at_send :: "(string, string) result"
  at_sent :: int
  at_polls :: "poll_answer list"
  at_refresh :: "(string, blockhash_info) result"
  at_refreshed :: int

definition blockhash_error :: "string \<Rightarrow> bool" where
  "blockhash_error msg = (sublist ''BlockhashNotFound'' msg \<or> sublist ''blockhash'' msg)"

definition nonce_error :: "string \<Rightarrow> bool" where
  "nonce_error msg = (sublist ''NonceTooLow'' msg \<or> sublist ''nonce'' msg)"

definition try_once :: "tx_config \<Rightarrow> int \<Rightarrow> int \<Rightarrow> attempt \<Rightarrow> TransactionResult outcome" where
  "try_once cfg timeout start a = (case at_send a of
       Inl msg \<Rightarrow> Thrown msg (at_sent a)
     | Inr signature \<Rightarrow> pollConfirmation cfg signature (timeout - (at_sent a - start)) (at_sent a) (at_polls a))"

text \<open>\<open>_submit\<close>: the answer to the caller, the cache, and how many times the transaction was sent. A refresh that throws rejects
  the whole call.\<close>

fun submit_loop :: "tx_config \<Rightarrow> int \<Rightarrow> int \<Rightarrow> int \<Rightarrow> nat \<Rightarrow> string option \<Rightarrow> blockhash_cache \<Rightarrow> attempt list
    \<Rightarrow> TransactionResult outcome \<times> blockhash_cache \<times> nat" where
  "submit_loop cfg timeout start now retries lastError cache tries = (
     if tc_maxRetries cfg < retries then
       (Returned (plain_result Failed [] (Some \<lparr>tf_code = ''CHAIN_999'', tf_raw_message = (case lastError of Some (c # m) \<Rightarrow> c # m
          | _ \<Rightarrow> ''Max retries exceeded''), tf_retryable = True\<rparr>) retries (now - start)) now, cache, 0)
     else case tries of [] \<Rightarrow> (Waiting, cache, 0)
     | a # rest \<Rightarrow> (case try_once cfg timeout start a of
         Returned r t \<Rightarrow> (Returned (r\<lparr>tr_retries := retries, tr_latency_ms := t - start\<rparr>) t, cache, 1)
       | Waiting \<Rightarrow> (Waiting, cache, 1)
       | Thrown msg t \<Rightarrow>
           if blockhash_error msg then
             (case refresh_blockhash (at_refreshed a) (at_refresh a) cache of
                (Inl e, c) \<Rightarrow> (Thrown e (at_refreshed a), c, 1)
              | (Inr _, c) \<Rightarrow> (let (r, c', n) = submit_loop cfg timeout start (at_refreshed a) (Suc retries) (Some msg) c rest in (r, c', Suc n)))
           else if nonce_error msg then
             (let (r, c', n) = submit_loop cfg timeout start t (Suc retries) (Some msg) cache rest in (r, c', Suc n))
           else (Returned (plain_result Failed [] (Some \<lparr>tf_code = ''CHAIN_005'', tf_raw_message = msg, tf_retryable = False\<rparr>)
                   retries (t - start)) t, cache, 1)))"

declare submit_loop.simps [simp del]

definition submit :: "tx_config \<Rightarrow> int option \<Rightarrow> int \<Rightarrow> blockhash_cache \<Rightarrow> attempt list \<Rightarrow> TransactionResult outcome \<times> blockhash_cache \<times> nat" where
  "submit cfg timeoutMs start cache tries = submit_loop cfg
     (case timeoutMs of Some t \<Rightarrow> if t = 0 then tc_defaultTimeoutMs cfg else t | None \<Rightarrow> tc_defaultTimeoutMs cfg) start start 0 None cache tries"

section \<open>Coalescing\<close>

text \<open>The submissions under an idempotency key: the number of the promise that is shared, when it was entered, and the timers that
  will remove the key.\<close>

record in_flight =
  if_promises :: "(string \<times> nat) list"
  if_timestamps :: "(string \<times> int) list"
  if_timers :: "(int \<times> string) list"
  if_next :: nat

datatype share = Fresh nat | Coalesced nat

definition submit_key :: "int \<Rightarrow> string option \<Rightarrow> in_flight \<Rightarrow> share \<times> in_flight" where
  "submit_key now key st = (case key of
       Some (c # k) \<Rightarrow> (case map_of (if_promises st) (c # k) of
           Some n \<Rightarrow> (Coalesced n, st)
         | None \<Rightarrow> (Fresh (if_next st), st\<lparr>if_promises := AList.update (c # k) (if_next st) (if_promises st),
              if_timestamps := AList.update (c # k) now (if_timestamps st), if_next := Suc (if_next st)\<rparr>))
     | _ \<Rightarrow> (Fresh (if_next st), st\<lparr>if_next := Suc (if_next st)\<rparr>))"

text \<open>The promise of a key settles: a timer of five minutes is set.\<close>

definition settle :: "int \<Rightarrow> string \<Rightarrow> in_flight \<Rightarrow> in_flight" where
  "settle now key st = st\<lparr>if_timers := if_timers st @ [(now + 300000, key)]\<rparr>"

definition forget :: "string \<Rightarrow> in_flight \<Rightarrow> in_flight" where
  "forget key st = st\<lparr>if_promises := AList.delete key (if_promises st), if_timestamps := AList.delete key (if_timestamps st)\<rparr>"

definition fire_timers :: "int \<Rightarrow> in_flight \<Rightarrow> in_flight" where
  "fire_timers now st = (let due = filter (\<lambda>(t, _). t \<le> now) (if_timers st)
     in (fold (\<lambda>(_, key). forget key) due st)\<lparr>if_timers := filter (\<lambda>(t, _). \<not> t \<le> now) (if_timers st)\<rparr>)"

definition sweep :: "int \<Rightarrow> in_flight \<Rightarrow> in_flight" where
  "sweep now st = fold (\<lambda>(key, ts). if ts < now - 600000 then forget key else id) (if_timestamps st) st"

section \<open>Recovery\<close>

record RecoveryResult =
  rr_recovered :: bool
  rr_strategy :: string
  rr_explanation :: string
  rr_retryRecommended :: bool

record recovery_context =
  rc_walletAddress :: "string option"
  rc_evmAddress :: "string option"

definition attemptRecovery :: "string \<Rightarrow> int \<Rightarrow> (string, blockhash_info) result \<Rightarrow> string \<Rightarrow> recovery_context
    \<Rightarrow> blockhash_cache \<Rightarrow> nonces \<Rightarrow> (string, RecoveryResult) result \<times> blockhash_cache \<times> nonces" where
  "attemptRecovery network now answer errMsg ctx cache ns = (
     if sublist ''BlockhashNotFound'' errMsg \<or> sublist ''blockhash'' errMsg then
       (case refresh_blockhash now answer cache of
          (Inl e, c) \<Rightarrow> (Inl e, c, ns)
        | (Inr _, c) \<Rightarrow> (Inr \<lparr>rr_recovered = True, rr_strategy = ''blockhash_refresh'',
            rr_explanation = ''Blockhash expired. Refreshed with a new blockhash. Re-sign and resubmit.'', rr_retryRecommended = True\<rparr>, c, ns))
     else if sublist ''NonceTooLow'' errMsg \<or> sublist ''nonce too low'' errMsg then
       (Inr \<lparr>rr_recovered = True, rr_strategy = ''nonce_reset'',
          rr_explanation = ''EVM nonce was stale. Re-fetched from chain. Re-sign and resubmit.'', rr_retryRecommended = True\<rparr>, cache,
        (case rc_evmAddress ctx of Some (c # a) \<Rightarrow> resetNonce (c # a) ns | _ \<Rightarrow> ns))
     else if sublist ''InsufficientFunds'' errMsg \<or> sublist ''insufficient'' errMsg then
       (let suggestion = (case rc_walletAddress ctx of
            Some (c # w) \<Rightarrow> if network \<noteq> ''mainnet'' then ''Request test tokens: use the '' @ [CHR 0x27] @ ''airdrop'' @ [CHR 0x27]
                @ '' tool with address '' @ [CHR 0x27] @ (c # w) @ [CHR 0x27] @ ''.''
              else ''Reduce the transaction amount.''
          | _ \<Rightarrow> ''Reduce the transaction amount.'')
        in (Inr \<lparr>rr_recovered = False, rr_strategy = ''insufficient_funds'',
              rr_explanation = ''Wallet doesn'' @ [CHR 0x27] @ ''t have enough ETO. '' @ suggestion, rr_retryRecommended = False\<rparr>, cache, ns))
     else if sublist ''AccountNotFound'' errMsg \<or> sublist ''account does not exist'' errMsg then
       (Inr \<lparr>rr_recovered = False, rr_strategy = ''account_creation'',
          rr_explanation = ''Recipient account doesn'' @ [CHR 0x27] @ ''t exist. The transfer tool will auto-create it on retry, or use create_account explicitly.'',
          rr_retryRecommended = True\<rparr>, cache, ns)
     else if sublist ''ComputeExhausted'' errMsg \<or> sublist ''compute budget'' errMsg then
       (Inr \<lparr>rr_recovered = False, rr_strategy = ''increase_compute'',
          rr_explanation = ''Transaction ran out of compute units. Try simplifying the operation or splitting into smaller transactions.'',
          rr_retryRecommended = False\<rparr>, cache, ns)
     else if sublist ''SignatureVerification'' errMsg \<or> sublist ''signature verification'' errMsg then
       (Inr \<lparr>rr_recovered = False, rr_strategy = ''signature_error'',
          rr_explanation = ''Signature doesn'' @ [CHR 0x27] @ ''t match the signing key. Verify you'' @ [CHR 0x27] @ ''re using the correct wallet.'',
          rr_retryRecommended = False\<rparr>, cache, ns)
     else (Inr \<lparr>rr_recovered = False, rr_strategy = ''unknown'',
          rr_explanation = ''Unrecognized error: '' @ errMsg @ ''. Check the transaction details and try again.'', rr_retryRecommended = False\<rparr>, cache, ns))"

definition formatRecovery :: "RecoveryResult \<Rightarrow> string" where
  "formatRecovery r = join [CHR 0x0A] ([''Recovery: '' @ (if rr_recovered r then ''Automatic'' else ''Manual action needed''),
     ''Strategy: '' @ rr_strategy r, rr_explanation r] @ (if rr_retryRecommended r then [''Action: Retry the operation.''] else []))"

section \<open>Properties: nonces\<close>

text \<open>A sequence of complete calls; each hands out nonces to an address.\<close>

datatype nonce_op = NGet int int string string | NRelease string jsnumber | NReset string

fun op_address :: "nonce_op \<Rightarrow> string" where
  "op_address (NGet _ _ a _) = to_lower a"
| "op_address (NRelease a _) = to_lower a"
| "op_address (NReset a) = to_lower a"

fun run_nonces :: "nonce_op list \<Rightarrow> nonces \<Rightarrow> (string \<times> jsnumber) list" where
  "run_nonces [] ns = []"
| "run_nonces (NGet now later a h # ops) ns = (let (n, ns') = getNextNonce now later a h ns in (to_lower a, n) # run_nonces ops ns')"
| "run_nonces (NRelease a n # ops) ns = run_nonces ops (releaseNonce a n ns)"
| "run_nonces (NReset a # ops) ns = run_nonces ops (resetNonce a ns)"

definition handed :: "string \<Rightarrow> (string \<times> jsnumber) list \<Rightarrow> jsnumber list" where
  "handed a out = map snd (filter (\<lambda>(b, _). b = a) out)"

text \<open>On this address, only requests, and none after the entry has expired.\<close>

fun steady :: "string \<Rightarrow> int \<Rightarrow> nonce_op \<Rightarrow> bool" where
  "steady a t0 (NGet now _ b _) = (to_lower b = a \<longrightarrow> now - t0 < ttlMs)"
| "steady a t0 op = (op_address op \<noteq> a)"

lemma getNextNonce_other: "to_lower b \<noteq> a \<Longrightarrow> map_of (snd (getNextNonce now later b h ns)) a = map_of ns a"
  by (auto simp: getNextNonce_def nonce_begin_def nonce_finish_def Let_def update_conv' split: option.splits)

lemma release_other: "to_lower b \<noteq> a \<Longrightarrow> map_of (releaseNonce b n ns) a = map_of ns a"
  by (auto simp: releaseNonce_def Let_def update_conv' split: option.splits)

lemma reset_other: "to_lower b \<noteq> a \<Longrightarrow> map_of (resetNonce b ns) a = map_of ns a"
  by (simp add: resetNonce_def delete_conv')

lemma getNextNonce_fresh:
  assumes "map_of ns (to_lower a) = Some \<lparr>ne_current = JInt c, ne_pendingCount = p, ne_fetchedAt = t0\<rparr>" "now - t0 < ttlMs" "\<bar>c + p\<bar> \<le> 2 ^ 53"
  shows "fst (getNextNonce now later a h ns) = JInt (c + p)"
    "map_of (snd (getNextNonce now later a h ns)) (to_lower a) = Some \<lparr>ne_current = JInt c, ne_pendingCount = p + 1, ne_fetchedAt = t0\<rparr>"
  using assms by (simp_all add: getNextNonce_def nonce_begin_def Let_def update_conv')

text \<open>While the entry of an address is fresh and nobody releases or resets it, its requests get consecutive nonces, each once, whatever happens to other addresses in between; addresses that differ in case are the same.\<close>

theorem nonces_consecutive:
  assumes "map_of ns a = Some \<lparr>ne_current = JInt c, ne_pendingCount = p, ne_fetchedAt = t0\<rparr>" "to_lower a = a"
    and "list_all (steady a t0) ops" "0 \<le> c + p" "c + p + int (length ops) \<le> 2 ^ 53"
  shows "\<exists>k. handed a (run_nonces ops ns) = map JInt [c + p..c + p + int k - 1]"
  using assms
proof (induction ops arbitrary: ns p)
  case Nil
  show ?case by (rule exI [of _ 0]) (simp add: handed_def)
next
  case (Cons op ops)
  show ?case
  proof (cases op)
    case (NGet now later b h)
    show ?thesis
    proof (cases "to_lower b = a")
      case True
      have m: "map_of ns (to_lower b) = Some \<lparr>ne_current = JInt c, ne_pendingCount = p, ne_fetchedAt = t0\<rparr>" using Cons.prems(1) True by simp
      have t: "now - t0 < ttlMs" "\<bar>c + p\<bar> \<le> 2 ^ 53" using Cons.prems NGet True by auto
      note g = getNextNonce_fresh [OF m t, of later h]
      have "\<exists>k. handed a (run_nonces ops (snd (getNextNonce now later b h ns))) = map JInt [c + (p + 1)..c + (p + 1) + int k - 1]"
        using Cons.prems g(2) True by (intro Cons.IH) simp_all
      then obtain k where "handed a (run_nonces ops (snd (getNextNonce now later b h ns))) = map JInt [c + (p + 1)..c + (p + 1) + int k - 1]" by blast
      then have "handed a (run_nonces (op # ops) ns) = JInt (c + p) # map JInt [c + p + 1..c + p + int (Suc k) - 1]"
        using g(1) True NGet by (simp add: handed_def case_prod_unfold Let_def algebra_simps)
      also have "\<dots> = map JInt [c + p..c + p + int (Suc k) - 1]" by (subst (2) upto.simps) simp
      finally show ?thesis by blast
    next
      case False
      have "\<exists>k. handed a (run_nonces ops (snd (getNextNonce now later b h ns))) = map JInt [c + p..c + p + int k - 1]"
        using Cons.prems getNextNonce_other [OF False] by (intro Cons.IH) simp_all
      then show ?thesis using NGet False by (simp add: handed_def case_prod_unfold Let_def)
    qed
  next
    case (NRelease b n)
    have "\<exists>k. handed a (run_nonces ops (releaseNonce b n ns)) = map JInt [c + p..c + p + int k - 1]"
      using Cons.prems release_other [of b a n ns] NRelease by (intro Cons.IH) simp_all
    then show ?thesis using NRelease by simp
  next
    case (NReset b)
    have "\<exists>k. handed a (run_nonces ops (resetNonce b ns)) = map JInt [c + p..c + p + int k - 1]"
      using Cons.prems reset_other [of b a ns] NReset by (intro Cons.IH) simp_all
    then show ?thesis using NReset by simp
  qed
qed

theorem nonces_consecutive_witness:
  "\<exists>k. handed ''0xab'' (run_nonces [NGet 5 5 ''0xAB'' ''0x0'', NReset ''0xcd'', NGet 9 9 ''0xab'' ''0x0'']
      [(''0xab'', \<lparr>ne_current = JInt 7, ne_pendingCount = 1, ne_fetchedAt = 0\<rparr>)]) = map JInt [7 + 1..7 + 1 + int k - 1]"
proof -
  have l: "to_lower ''0xab'' = ''0xab''" "to_lower ''0xcd'' = ''0xcd''" "to_lower ''0xAB'' = ''0xab''" by code_simp+
  show ?thesis by (rule nonces_consecutive [where ?t0.0 = 0]) (simp_all add: l ttlMs_def)
qed

text \<open>\<open>releaseNonce\<close> gives back the last nonce, whichever nonce it is given: after two requests, releasing the first makes the
  third request get the second's nonce again.\<close>

lemma nonce_release_duplicates:
  assumes "map_of ns (to_lower a) = Some \<lparr>ne_current = JInt c, ne_pendingCount = p, ne_fetchedAt = t0\<rparr>" "0 \<le> p" "\<bar>c + p\<bar> + 2 \<le> 2 ^ 53"
    and "now - t0 < ttlMs"
  shows "map snd (run_nonces [NGet now now a h, NGet now now a h, NRelease a (JInt (c + p)), NGet now now a h] ns)
    = [JInt (c + p), JInt (c + p + 1), JInt (c + p + 1)]"
  using assms
  by (simp add: getNextNonce_def nonce_begin_def releaseNonce_def Let_def update_conv' case_prod_unfold add.assoc)

text \<open>Two requests for an address without an entry that overlap while the node is asked get the same nonce.\<close>

lemma nonce_race_duplicates:
  assumes "map_of ns (to_lower a) = None"
  shows "\<exists>ns1 ns2. nonce_begin t1 a ns = (None, ns1) \<and> nonce_begin t2 a ns1 = (None, ns2)
    \<and> fst (nonce_finish t3 a h ns2) = fst (nonce_finish t4 a h (snd (nonce_finish t3 a h ns2)))"
  using assms by (simp add: nonce_begin_def nonce_finish_def Let_def)

section \<open>Properties: submission\<close>

text \<open>The pauses of the polling loop last at least the configured time.\<close>

fun paced :: "int \<Rightarrow> int \<Rightarrow> poll_answer list \<Rightarrow> bool" where
  "paced p now [] = True"
| "paced p now (a # as) = (now + p \<le> pa_wake a \<and> paced p (pa_wake a) as)"

lemma poll_loop_ends:
  "paced p now ps \<Longrightarrow> deadline - now \<le> p * int (length ps) \<Longrightarrow> poll_loop cfg signature deadline errs now ps \<noteq> Waiting"
proof (induction ps arbitrary: now errs)
  case (Cons a ps)
  then have "poll_loop cfg signature deadline e (pa_wake a) ps \<noteq> Waiting" for e by (intro Cons.IH) (auto simp: algebra_simps)
  then show ?case by (simp split: sum.split)
qed simp

lemma try_once_ends:
  assumes "paced p (at_sent a) (at_polls a)" "max timeout 5000 \<le> p * int (length (at_polls a))" "start \<le> at_sent a"
  shows "try_once cfg timeout start a \<noteq> Waiting"
  using assms poll_loop_ends [of p "at_sent a" "at_polls a"]
  by (auto simp: try_once_def pollConfirmation_def split: sum.split)

text \<open>An attempt whose node answers every request, with enough rounds to pass the deadline.\<close>

definition answered :: "int \<Rightarrow> int \<Rightarrow> int \<Rightarrow> attempt \<Rightarrow> bool" where
  "answered p timeout start a = (paced p (at_sent a) (at_polls a) \<and> max timeout 5000 \<le> p * int (length (at_polls a)) \<and> start \<le> at_sent a)"

lemma submit_loop_ends:
  assumes "list_all (answered p timeout start) tries" "Suc (tc_maxRetries cfg) \<le> retries + length tries"
  shows "fst (submit_loop cfg timeout start now retries lastError cache tries) \<noteq> Waiting
    \<and> snd (snd (submit_loop cfg timeout start now retries lastError cache tries)) + retries \<le> max retries (Suc (tc_maxRetries cfg))"
  using assms
proof (induction tries arbitrary: now retries lastError cache)
  case Nil
  then show ?case by (simp add: submit_loop.simps [of cfg timeout start now retries lastError cache "[]"])
next
  case (Cons a rest)
  have w: "try_once cfg timeout start a \<noteq> Waiting" using Cons.prems try_once_ends [of p a timeout start cfg] by (simp add: answered_def)
  have IH: "fst (submit_loop cfg timeout start n (Suc retries) e c rest) \<noteq> Waiting
      \<and> snd (snd (submit_loop cfg timeout start n (Suc retries) e c rest)) + Suc retries \<le> max (Suc retries) (Suc (tc_maxRetries cfg))" for n e c
    using Cons.prems by (intro Cons.IH) auto
  show ?case
  proof (cases "tc_maxRetries cfg < retries")
    case True
    then show ?thesis by (simp add: submit_loop.simps [of cfg timeout start now retries lastError cache "a # rest"])
  next
    case False
    then show ?thesis using w IH
      by (auto simp: submit_loop.simps [of cfg timeout start now retries lastError cache "a # rest"] refresh_blockhash_def Let_def
          case_prod_unfold max_def split: outcome.splits sum.splits option.splits)
  qed
qed


text \<open>C27. A submission ends: when the node answers every request and the pauses of the polling loop last \<open>p\<close> milliseconds, attempts with enough rounds to pass the deadline lead to a result or an exception after at most \<open>maxRetries + 1\<close> sends, never to an endless wait.\<close>

theorem submit_terminates:
  assumes "list_all (answered p (or_default timeoutMs (tc_defaultTimeoutMs cfg)) start) tries" "timeoutMs \<noteq> Some 0"
    and "tc_maxRetries cfg < length tries"
  shows "fst (submit cfg timeoutMs start cache tries) \<noteq> Waiting \<and> snd (snd (submit cfg timeoutMs start cache tries)) \<le> Suc (tc_maxRetries cfg)"
proof -
  let ?t = "or_default timeoutMs (tc_defaultTimeoutMs cfg)"
  have "submit cfg timeoutMs start cache tries = submit_loop cfg ?t start start 0 None cache tries"
    using assms(2) by (auto simp: submit_def or_default_def split: option.split)
  then show ?thesis using submit_loop_ends [OF assms(1), of cfg 0 start None cache] assms(3) by simp
qed

theorem submit_terminates_witness:
  "fst (submit \<lparr>tc_defaultTimeoutMs = 5000, tc_maxRetries = 0, tc_confirmationPollMs = 2500, tc_maxPollErrors = 3\<rparr> None 0 empty_cache
      [\<lparr>at_send = Inr ''sig'', at_sent = 10, at_polls = [\<lparr>pa_answer = Inr None, pa_at = 20, pa_wake = 2600\<rparr>, \<lparr>pa_answer = Inr None, pa_at = 2620, pa_wake = 5200\<rparr>],
        at_refresh = Inl ''down'', at_refreshed = 0\<rparr>]) \<noteq> Waiting"
  by (rule submit_terminates [where p = 2500, THEN conjunct1]) (simp_all add: answered_def or_default_def)

lemma poll_loop_confirmed:
  "poll_loop cfg signature deadline errs now ps = Returned r t \<Longrightarrow> tr_status r = Confirmed \<Longrightarrow>
    tr_signature r = signature \<and> (\<exists>a \<in> set ps. \<exists>tx. pa_answer a = Inr (Some tx) \<and> js_truthy (Some tx) \<and> tx_success tx)"
proof (induction ps arbitrary: errs now)
  case (Cons a ps)
  show ?case
  proof (cases "now < deadline")
    case True
    show ?thesis
    proof (cases "pa_answer a")
      case (Inl msg)
      then show ?thesis using Cons True by (fastforce split: if_splits)
    next
      case (Inr tx)
      show ?thesis
      proof (cases "js_truthy tx")
        case yes: True
        then obtain v where v: "tx = Some v" by (cases tx) (simp_all add: js_truthy_def)
        have "r = receipt_result signature v" using Cons.prems(1) True Inr yes v by simp
        then have "tr_signature r = signature \<and> tx_success v"
          using Cons.prems(2) by (simp add: receipt_result_def Let_def split: if_splits)
        then show ?thesis using Inr v yes by auto
      next
        case False
        then show ?thesis using Cons True Inr by fastforce
      qed
    qed
  next
    case False
    then show ?thesis using Cons.prems by (auto simp: plain_result_def)
  qed
qed (auto simp: plain_result_def split: if_splits)

text \<open>The node confirmed what attempt \<open>a\<close> sent: its signature is the one that came back, and one of its polls found a receipt
  that shows success.\<close>

definition receipt_found :: "attempt \<Rightarrow> string \<Rightarrow> bool" where
  "receipt_found a signature = (at_send a = Inr signature
     \<and> (\<exists>p \<in> set (at_polls a). \<exists>tx. pa_answer p = Inr (Some tx) \<and> js_truthy (Some tx) \<and> tx_success tx))"

lemma try_once_confirmed:
  "try_once cfg timeout start a = Returned r t \<Longrightarrow> tr_status r = Confirmed \<Longrightarrow> receipt_found a (tr_signature r)"
  using poll_loop_confirmed by (fastforce simp: try_once_def pollConfirmation_def receipt_found_def split: sum.splits)

text \<open>The answer of the loop is that of attempt \<open>i\<close>, which the retry counter allows and which was the last one sent.\<close>

lemma submit_loop_confirmed:
  assumes "submit_loop cfg timeout start now retries lastError c tries = (Returned r t, c', n)" "tr_status r = Confirmed"
  shows "\<exists>i < length tries. retries + i \<le> tc_maxRetries cfg \<and> tr_retries r = retries + i \<and> n = Suc i
    \<and> receipt_found (tries ! i) (tr_signature r)"
  using assms(1)
proof (induction tries arbitrary: now retries lastError c n)
  case Nil
  then show ?case using assms(2) by (auto simp: submit_loop.simps [of _ _ _ _ _ _ _ "[]"] plain_result_def split: if_splits)
next
  case (Cons a rest)
  note eq = submit_loop.simps [of cfg timeout start now retries lastError c "a # rest"]
  have in_range: "\<not> tc_maxRetries cfg < retries" using Cons.prems assms(2) by (auto simp: eq plain_result_def split: if_splits)
  show ?case
  proof (cases "try_once cfg timeout start a")
    case (Returned r' t')
    then have "r = r'\<lparr>tr_retries := retries, tr_latency_ms := t' - start\<rparr>" "n = 1" using Cons.prems in_range by (auto simp: eq)
    then show ?thesis using try_once_confirmed [OF Returned] assms(2) in_range by (intro exI [of _ 0]) simp
  next
    case (Thrown msg t')
    obtain now' e' c1 m where later: "submit_loop cfg timeout start now' (Suc retries) e' c1 rest = (Returned r t, c', m)" "n = Suc m"
      using Cons.prems in_range Thrown assms(2)
      by (auto simp: eq plain_result_def Let_def split: if_splits sum.splits prod.splits)
    from Cons.IH [OF later(1)] obtain i where "i < length rest" "Suc retries + i \<le> tc_maxRetries cfg" "tr_retries r = Suc retries + i"
      "m = Suc i" "receipt_found (rest ! i) (tr_signature r)" by blast
    with later(2) show ?thesis by (intro exI [of _ "Suc i"]) simp
  next
    case Waiting
    then show ?thesis using Cons.prems in_range by (simp add: eq)
  qed
qed

text \<open>C13. A transaction is reported confirmed only when the node returned, for the signature that is reported, a receipt that shows success: no failure flag, no error and no error in its metadata. The receipt belongs to the last attempt that was sent, which is at most the one after \<open>maxRetries\<close> retries; the answer reports that number of retries.\<close>

theorem submit_confirmed_sound:
  assumes "submit cfg timeoutMs start cache tries = (Returned r t, cache', sends)" "tr_status r = Confirmed"
  shows "\<exists>i < length tries. i \<le> tc_maxRetries cfg \<and> tr_retries r = i \<and> sends = Suc i
    \<and> at_send (tries ! i) = Inr (tr_signature r)
    \<and> (\<exists>p \<in> set (at_polls (tries ! i)). \<exists>tx. pa_answer p = Inr (Some tx) \<and> js_truthy (Some tx) \<and> tx_success tx)"
  using submit_loop_confirmed [OF assms(1) [unfolded submit_def] assms(2)] by (simp add: receipt_found_def)

theorem submit_confirmed_sound_witness:
  "\<exists>r t cache' sends. submit \<lparr>tc_defaultTimeoutMs = 5000, tc_maxRetries = 0, tc_confirmationPollMs = 400, tc_maxPollErrors = 3\<rparr> None 0 empty_cache
      [\<lparr>at_send = Inr ''sig'', at_sent = 10, at_polls = [\<lparr>pa_answer = Inr (Some (JObj [(''slot'', JNum (JInt 4))])), pa_at = 20, pa_wake = 420\<rparr>],
        at_refresh = Inl ''down'', at_refreshed = 0\<rparr>] = (Returned r t, cache', sends)
    \<and> tr_status r = Confirmed \<and> tr_retries r = 0 \<and> sends = 1 \<and> tr_signature r = ''sig''"
proof -
  let ?cfg = "\<lparr>tc_defaultTimeoutMs = 5000, tc_maxRetries = 0, tc_confirmationPollMs = 400, tc_maxPollErrors = 3\<rparr>"
  let ?a = "\<lparr>at_send = Inr ''sig'', at_sent = 10, at_polls = [\<lparr>pa_answer = Inr (Some (JObj [(''slot'', JNum (JInt 4))])), pa_at = 20, pa_wake = 420\<rparr>],
        at_refresh = Inl ''down'', at_refreshed = 0\<rparr>"
  let ?r = "(receipt_result ''sig'' (JObj [(''slot'', JNum (JInt 4))]))\<lparr>tr_latency_ms := 20\<rparr>"
  have eq: "submit ?cfg None 0 empty_cache [?a] = (Returned ?r 20, empty_cache, 1)"
    by (simp add: submit_def submit_loop.simps [of _ _ _ _ _ _ _ "[_]"] try_once_def pollConfirmation_def js_truthy_def
        receipt_result_def Let_def)
  moreover have c: "tr_status ?r = Confirmed"
    by (simp_all add: receipt_result_def tx_success_def own_field_def js_truthy_def is_nullish_def meta_field_def Let_def)
  ultimately show ?thesis using submit_confirmed_sound [OF eq c] by auto
qed

text \<open>When the transaction was sent and the node then fails at polling, the caller is told that it failed, finally and without its
  signature, although it may be in the chain.\<close>

lemma submit_loses_signature:
  assumes "at_send a = Inr signature" "at_polls a = [p1, p2, p3]" "\<forall>p \<in> {p1, p2, p3}. pa_answer p = Inl msg"
    and "\<not> notFound msg" "\<not> blockhash_error msg" "\<not> nonce_error msg" "tc_maxPollErrors cfg = 3"
    and "pa_wake p1 < at_sent a + 5000" "pa_wake p2 < at_sent a + 5000"
  shows "fst (submit cfg None start cache [a]) = Returned (plain_result Failed []
    (Some \<lparr>tf_code = ''CHAIN_005'', tf_raw_message = msg, tf_retryable = False\<rparr>) 0 (pa_at p3 - start)) (pa_at p3)"
  using assms
  by (simp add: submit_def submit_loop.simps [of _ _ _ _ _ _ _ "[a]"] try_once_def pollConfirmation_def less_max_iff_disj less_diff_eq max_def)

section \<open>Properties: coalescing\<close>

datatype flight_op = FSubmit "string option" | FSettle string | FTimers | FSweep

fun flight_step :: "int \<times> flight_op \<Rightarrow> in_flight \<Rightarrow> share option \<times> in_flight" where
  "flight_step (now, FSubmit key) st = (let (x, st') = submit_key now key st in (Some x, st'))"
| "flight_step (now, FSettle key) st = (None, settle now key st)"
| "flight_step (now, FTimers) st = (None, fire_timers now st)"
| "flight_step (now, FSweep) st = (None, sweep now st)"

fun run_flight :: "(int \<times> flight_op) list \<Rightarrow> in_flight \<Rightarrow> (flight_op \<times> share option) list" where
  "run_flight [] st = []"
| "run_flight (ev # evs) st = (let (x, st') = flight_step ev st in (snd ev, x) # run_flight evs st')"

text \<open>The key is in flight under promise \<open>n\<close> since \<open>t0\<close>, and no timer removes it before five minutes have passed.\<close>

definition held :: "string \<Rightarrow> nat \<Rightarrow> int \<Rightarrow> in_flight \<Rightarrow> bool" where
  "held key n t0 st = (map_of (if_promises st) key = Some n \<and> (\<forall>ts. (key, ts) \<in> set (if_timestamps st) \<longrightarrow> t0 \<le> ts)
     \<and> (\<forall>t. (t, key) \<in> set (if_timers st) \<longrightarrow> t0 + 300000 \<le> t))"

lemma forget_other: "k \<noteq> key \<Longrightarrow> held key n t0 st \<Longrightarrow> held key n t0 (forget k st)"
  using set_alist_delete [of k "if_timestamps st"] by (auto simp: held_def forget_def delete_conv')

lemma fold_forget: "(\<And>x. x \<in> set xs \<Longrightarrow> f x \<noteq> key) \<Longrightarrow> held key n t0 st \<Longrightarrow> held key n t0 (fold (\<lambda>x. forget (f x)) xs st)"
  by (induction xs arbitrary: st) (auto simp: forget_other)

lemma flight_step_held:
  assumes "held key n t0 st" "t0 \<le> fst ev" "fst ev < t0 + 300000" "key \<noteq> []"
  shows "held key n t0 (snd (flight_step ev st)) \<and> (snd ev = FSubmit (Some key) \<longrightarrow> fst (flight_step ev st) = Some (Coalesced n))"
proof (cases "snd ev")
  case (FSubmit k)
  obtain now where ev: "ev = (now, FSubmit k)" using FSubmit by (cases ev) auto
  consider "k = Some key" | c k' where "k = Some (c # k')" "c # k' \<noteq> key" | "k = None \<or> k = Some []"
    using assms(4) by (metis list.exhaust not_None_eq)
  then show ?thesis
  proof cases
    case 1
    then show ?thesis using assms ev by (cases key) (auto simp: submit_key_def held_def)
  next
    case 2
    have "(key, ts) \<in> set (if_timestamps st)" if "(key, ts) \<in> set (AList.update (c # k') now (if_timestamps st))" for ts
      using that 2 set_alist_update [of "c # k'" now "if_timestamps st"] by auto
    with 2 assms(1) ev show ?thesis by (auto simp: submit_key_def held_def update_conv' split: option.splits)
  next
    case 3
    with assms(1,4) ev show ?thesis by (auto simp: submit_key_def held_def)
  qed
next
  case (FSettle k)
  then show ?thesis using assms by (cases ev) (auto simp: settle_def held_def)
next
  case FTimers
  have due: "snd x \<noteq> key" if m: "x \<in> set (filter (\<lambda>(t, _). t \<le> fst ev) (if_timers st))" for x
  proof -
    have x: "(fst x, snd x) \<in> set (if_timers st)" "fst x \<le> fst ev" using m by (simp_all add: case_prod_unfold)
    have "t0 + 300000 \<le> fst x" if "snd x = key" using x(1) assms(1) that unfolding held_def by metis
    then show ?thesis using x(2) assms(3) by linarith
  qed
  have "held key n t0 (fold (\<lambda>x. forget (snd x)) (filter (\<lambda>(t, _). t \<le> fst ev) (if_timers st)) st)"
    using due assms(1) by (intro fold_forget) auto
  then have "held key n t0 (fire_timers (fst ev) st)"
    using assms(1) by (auto simp: fire_timers_def held_def Let_def case_prod_unfold)
  then show ?thesis using FTimers by (cases ev) simp
next
  case FSweep
  have keep: "held key n t0 (fold (\<lambda>(k, ts). if ts < now - 600000 then forget k else id) xs s)"
    if "\<forall>ts. (key, ts) \<in> set xs \<longrightarrow> \<not> ts < now - 600000" "held key n t0 s" for xs s and now :: int
    using that
  proof (induction xs arbitrary: s)
    case (Cons x xs)
    obtain k ts where x: "x = (k, ts)" by (cases x)
    have "held key n t0 (if ts < now - 600000 then forget k s else s)" using Cons.prems x forget_other [of k key n t0 s] by auto
    with Cons x show ?case by (auto split: if_splits)
  qed simp
  have "held key n t0 (sweep (fst ev) st)"
    unfolding sweep_def using assms by (intro keep) (auto simp: held_def)
  then show ?thesis using FSweep by (cases ev) simp
qed

text \<open>Within five minutes of a submission under a key, every further submission under that key shares its promise, so the transaction is sent by one caller only, whatever else is submitted, settles or is swept in between; an old timer for the key would have to be pending for this to fail.\<close>

theorem submissions_coalesce:
  assumes "key \<noteq> []" "map_of (if_promises st) key = None" "\<forall>ts. (key, ts) \<notin> set (if_timestamps st)" "\<forall>t. (t, key) \<notin> set (if_timers st)"
    and "submit_key t0 (Some key) st = (share0, st')" "\<forall>ev \<in> set evs. t0 \<le> fst ev \<and> fst ev < t0 + 300000"
  shows "share0 = Fresh (if_next st) \<and> (\<forall>x. (FSubmit (Some key), x) \<in> set (run_flight evs st') \<longrightarrow> x = Some (Coalesced (if_next st)))"
proof -
  let ?n = "if_next st"
  obtain c k where ck: "key = c # k" using assms(1) by (cases key) auto
  have ts: "ts = t0" if "(key, ts) \<in> set (AList.update key t0 (if_timestamps st))" for ts
    using that assms(3) set_alist_update [of key t0 "if_timestamps st"] by auto
  have e: "share0 = Fresh ?n" "st' = st\<lparr>if_promises := AList.update key ?n (if_promises st),
      if_timestamps := AList.update key t0 (if_timestamps st), if_next := Suc ?n\<rparr>"
    using assms(2,5) ck by (auto simp: submit_key_def)
  then have s: "share0 = Fresh ?n" "held key ?n t0 st'"
    using ts assms(4) by (auto simp: held_def update_conv')
  have "\<forall>x. (FSubmit (Some key), x) \<in> set (run_flight evs s) \<longrightarrow> x = Some (Coalesced ?n)" if "held key ?n t0 s" for s
    using that assms(6)
  proof (induction evs arbitrary: s)
    case (Cons ev evs)
    have "held key ?n t0 (snd (flight_step ev s)) \<and> (snd ev = FSubmit (Some key) \<longrightarrow> fst (flight_step ev s) = Some (Coalesced ?n))"
      using Cons.prems assms(1) by (intro flight_step_held) auto
    then show ?case using Cons by (auto simp: case_prod_unfold Let_def)
  qed simp
  with s show ?thesis by blast
qed


theorem submissions_coalesce_witness:
  "(FSubmit (Some ''k''), Some (Coalesced 4)) \<in> set (run_flight [(5, FSettle ''k''), (100000, FTimers), (200000, FSweep), (299999, FSubmit (Some ''k''))]
      (snd (submit_key 0 (Some ''k'') \<lparr>if_promises = [], if_timestamps = [], if_timers = [], if_next = 4\<rparr>)))"
proof -
  let ?evs = "[(5, FSettle ''k''), (100000, FTimers), (200000, FSweep), (299999, FSubmit (Some ''k''))]"
  let ?st = "\<lparr>if_promises = [], if_timestamps = [], if_timers = [], if_next = 4\<rparr>"
  have "\<exists>x. (FSubmit (Some ''k''), x) \<in> set (run_flight ?evs (snd (submit_key 0 (Some ''k'') ?st)))"
    by (simp add: Let_def case_prod_unfold)
  moreover have "(FSubmit (Some ''k''), x) \<in> set (run_flight ?evs (snd (submit_key 0 (Some ''k'') ?st))) \<longrightarrow> x = Some (Coalesced 4)" for x
    using submissions_coalesce [of "''k''" ?st 0 _ _ ?evs, OF _ _ _ _ prod.collapse [symmetric]] by simp
  ultimately show ?thesis by blast
qed

section \<open>Properties: blockhashes\<close>

text \<open>A blockhash handed out was fetched less than twenty seconds before the call, or is what the node answered to this call, or, only when the node failed to answer, is the last one known, whatever its age; when nothing is known and the node fails, the caller gets the node's error.\<close>

theorem blockhash_freshness:
  "(case getBlockhash now later answer c of
      (Inr b, c') \<Rightarrow> bc_current c' = Some b \<and>
        (bc_current c = Some b \<and> now - bc_fetchedAt c < 20000 \<and> c' = c \<or> answer = Inr b \<and> bc_fetchedAt c' = later
         \<or> bc_current c = Some b \<and> 20000 \<le> now - bc_fetchedAt c \<and> (\<exists>e. answer = Inl e) \<and> c' = c)
    | (Inl e, c') \<Rightarrow> answer = Inl e \<and> bc_current c = None \<and> c' = c)"
  by (auto simp: getBlockhash_def refresh_blockhash_def split: option.splits sum.splits)

end
