(* ===== verification/Units.thy ===== *)
theory Units
  imports Base58 "HOL-Library.Signed_Division"
begin

text \<open>
  Amounts as text: \<^verbatim>\<open>src/utils/units.ts\<close>. A \<open>bigint\<close> is an integer, divided towards zero;
  \<open>BigInt\<close> of a text throws a \<open>SyntaxError\<close> (\<open>None\<close>) when it is not an integer literal. The printed
  amount of a number that is not negative reads back as that number; a negative one does not.
\<close>

section \<open>BigInt of a text\<close>

definition radix_number :: "nat \<Rightarrow> string \<Rightarrow> int option" where
  "radix_number b s = (if s \<noteq> [] \<and> list_all (\<lambda>c. is_hex c \<and> hex_value c < b) s
     then Some (foldl (\<lambda>n c. int b * n + int (hex_value c)) 0 s) else None)"

definition BigInt_string :: "string \<Rightarrow> int option" where
  "BigInt_string s0 = (let s = trim s0; p = to_lower (take 2 s) in
     if s = [] then Some 0
     else if p = ''0x'' then radix_number 16 (drop 2 s)
     else if p = ''0o'' then radix_number 8 (drop 2 s)
     else if p = ''0b'' then radix_number 2 (drop 2 s)
     else if hd s = CHR ''-'' then map_option uminus (radix_number 10 (tl s))
     else if hd s = CHR ''+'' then radix_number 10 (tl s)
     else radix_number 10 s)"

section \<open>Conversions\<close>

definition padStart :: "nat \<Rightarrow> char \<Rightarrow> string \<Rightarrow> string" where
  "padStart n c s = replicate (n - length s) c @ s"

definition padEnd :: "nat \<Rightarrow> char \<Rightarrow> string \<Rightarrow> string" where
  "padEnd n c s = s @ replicate (n - length s) c"

text \<open>\<open>replace(/0+$/, "")\<close>.\<close>

definition drop_zeros :: "string \<Rightarrow> string" where
  "drop_zeros s = rev (dropWhile (\<lambda>c. c = CHR ''0'') (rev s))"

text \<open>\<open>s.split(".")\<close>: the first two parts, where present.\<close>

definition split_point :: "string \<Rightarrow> string \<times> string option" where
  "split_point s = (takeWhile (\<lambda>c. c \<noteq> CHR ''.'') s,
     case dropWhile (\<lambda>c. c \<noteq> CHR ''.'') s of [] \<Rightarrow> None | _ # t \<Rightarrow> Some (takeWhile (\<lambda>c. c \<noteq> CHR ''.'') t))"

definition LAMPORTS_PER_SOL :: int where
  "LAMPORTS_PER_SOL = 1000000000"

definition lamportsToSol :: "int \<Rightarrow> string" where
  "lamportsToSol l = (let whole = l sdiv LAMPORTS_PER_SOL; frac = l smod LAMPORTS_PER_SOL
     in if frac = 0 then show_int whole
        else show_int whole @ ''.'' @ drop_zeros (padStart 9 (CHR ''0'') (show_int frac)))"

definition solToLamports :: "string \<Rightarrow> int option" where
  "solToLamports sol = (let (p0, p1) = split_point sol in
     case BigInt_string (if p0 = [] then ''0'' else p0) of None \<Rightarrow> None
     | Some w \<Rightarrow> (case p1 of
         Some (c # f) \<Rightarrow> (case BigInt_string (take 9 (padEnd 9 (CHR ''0'') (c # f))) of None \<Rightarrow> None
           | Some x \<Rightarrow> Some (w * LAMPORTS_PER_SOL + x))
       | _ \<Rightarrow> Some (w * LAMPORTS_PER_SOL)))"

record TokenAmount =
  ta_raw :: string
  ta_human :: string
  ta_decimals :: nat
  ta_symbol :: "string option"

definition toTokenAmount :: "int \<Rightarrow> nat \<Rightarrow> string option \<Rightarrow> TokenAmount" where
  "toTokenAmount raw decimals symbol = (let divisor = 10 ^ decimals; whole = raw sdiv divisor; frac = raw smod divisor;
       human = (if frac = 0 then show_int whole
                else show_int whole @ ''.'' @ drop_zeros (padStart decimals (CHR ''0'') (show_int frac)))
     in \<lparr>ta_raw = show_int raw, ta_human = human, ta_decimals = decimals, ta_symbol = symbol\<rparr>)"

definition fromHumanAmount :: "string \<Rightarrow> nat \<Rightarrow> int option" where
  "fromHumanAmount human decimals = (let (p0, p1) = split_point human in
     case BigInt_string (if p0 = [] then ''0'' else p0) of None \<Rightarrow> None
     | Some w \<Rightarrow> (case p1 of
         Some (c # f) \<Rightarrow> (case BigInt_string (take decimals (padEnd decimals (CHR ''0'') (c # f))) of None \<Rightarrow> None
           | Some x \<Rightarrow> Some (w * 10 ^ decimals + x))
       | _ \<Rightarrow> Some (w * 10 ^ decimals)))"

section \<open>Lemmas\<close>

lemma digit_facts: "is_digit c \<Longrightarrow> is_hex c \<and> hex_value c < 10 \<and> hex_value c = code c - 48 \<and> \<not> is_space c \<and> c \<noteq> CHR ''.'' \<and> c \<noteq> CHR ''-''
    \<and> c \<noteq> CHR ''+'' \<and> lower_char c = c \<and> c \<noteq> CHR ''x'' \<and> c \<noteq> CHR ''o'' \<and> c \<noteq> CHR ''b''"
  by (auto simp: is_digit_def is_hex_def hex_value_def is_space_def code_def lower_char_def is_upper_def)

lemma trim_no_space: "list_all (\<lambda>c. \<not> is_space c) s \<Longrightarrow> trim s = s"
proof -
  assume a: "list_all (\<lambda>c. \<not> is_space c) s"
  have d: "dropWhile is_space t = t" if "list_all (\<lambda>c. \<not> is_space c) t" for t
    using that by (cases t) auto
  have "list_all (\<lambda>c. \<not> is_space c) (rev s)" using a by (simp add: list_all_iff)
  with a show ?thesis by (simp add: trim_def d)
qed

lemma foldl_digits: "list_all is_digit s \<Longrightarrow>
  foldl (\<lambda>n c. 10 * n + int (hex_value c)) (int a) s = int (foldl (\<lambda>n c. 10 * n + (code c - 48)) a s)"
proof (induction s arbitrary: a)
  case (Cons c s)
  have "10 * int a + int (hex_value c) = int (10 * a + (code c - 48))" using digit_facts [of c] Cons.prems by simp
  then show ?case using Cons by (simp only: foldl_Cons list.pred_inject)
qed simp

lemma BigInt_digits: "s \<noteq> [] \<Longrightarrow> list_all is_digit s \<Longrightarrow> BigInt_string s = Some (int (parse_nat s))"
proof -
  assume ne: "s \<noteq> []" and d: "list_all is_digit s"
  have f: "is_hex c \<and> hex_value c < 10 \<and> hex_value c = code c - 48 \<and> \<not> is_space c \<and> c \<noteq> CHR ''-'' \<and> c \<noteq> CHR ''+'' \<and> lower_char c = c
      \<and> c \<noteq> CHR ''x'' \<and> c \<noteq> CHR ''o'' \<and> c \<noteq> CHR ''b''" if "c \<in> set s" for c
    using digit_facts [of c] d that by (simp add: list_all_iff)
  have t: "trim s = s" using f by (intro trim_no_space) (simp add: list_all_iff)
  have low: "to_lower (take 2 s) = take 2 s" using f by (auto simp: to_lower_def intro!: map_idI dest: in_set_takeD)
  have pre: "take 2 s \<noteq> ''0x'' \<and> take 2 s \<noteq> ''0o'' \<and> take 2 s \<noteq> ''0b''"
  proof -
    have "CHR ''x'' \<notin> set (take 2 s)" "CHR ''o'' \<notin> set (take 2 s)" "CHR ''b'' \<notin> set (take 2 s)" using f by (auto dest: in_set_takeD)
    then show ?thesis by (metis list.set_intros(1,2))
  qed
  have h: "hd s \<noteq> CHR ''-''" "hd s \<noteq> CHR ''+''" using f [of "hd s"] ne by auto
  from foldl_digits [OF d, of 0] have fold: "foldl (\<lambda>n c. 10 * n + int (hex_value c)) 0 s = int (parse_nat s)" by (simp add: parse_nat_def)
  have all: "list_all (\<lambda>c. is_hex c \<and> hex_value c < 10) s" unfolding list_all_iff using f by blast
  show ?thesis using ne pre h all by (simp add: BigInt_string_def Let_def t low radix_number_def fold)
qed

lemma parse_nat_pad: "parse_nat (replicate n (CHR ''0'') @ s) = parse_nat s"
proof -
  have "foldl (\<lambda>n c. 10 * n + (code c - 48)) 0 (replicate n (CHR ''0'')) = 0" by (induction n) (simp_all add: code_def)
  then show ?thesis by (simp add: parse_nat_def)
qed

lemma drop_zeros_pad: "length s = n \<Longrightarrow> take n (padEnd n (CHR ''0'') (drop_zeros s)) = s"
proof -
  have "\<exists>k. s = drop_zeros s @ replicate k (CHR ''0'')"
  proof -
    let ?z = "\<lambda>c. c = CHR ''0''"
    have "rev s = takeWhile ?z (rev s) @ dropWhile ?z (rev s)" by simp
    moreover have "takeWhile ?z (rev s) = replicate (length (takeWhile ?z (rev s))) (CHR ''0'')"
      by (rule replicate_length_same [symmetric]) (auto dest: set_takeWhileD)
    ultimately have "s = drop_zeros s @ replicate (length (takeWhile ?z (rev s))) (CHR ''0'')"
      unfolding drop_zeros_def by (metis rev_append rev_replicate rev_rev_ident)
    then show ?thesis by blast
  qed
  then obtain k where k: "s = drop_zeros s @ replicate k (CHR ''0'')" by blast
  assume "length s = n"
  then have "n - length (drop_zeros s) = k" using k by (metis add_diff_cancel_left' length_append length_replicate)
  then have "padEnd n (CHR ''0'') (drop_zeros s) = s" using k by (simp add: padEnd_def)
  then show ?thesis using \<open>length s = n\<close> by simp
qed

lemma drop_zeros_digits: "list_all is_digit s \<Longrightarrow> list_all is_digit (drop_zeros s)"
  by (auto simp: drop_zeros_def list_all_iff dest!: set_dropWhileD)

lemma drop_zeros_empty: "drop_zeros s = [] \<Longrightarrow> s = replicate (length s) (CHR ''0'')"
  using drop_zeros_pad [of s "length s"] by (simp add: padEnd_def)

lemma show_nat_length: "n < 10 ^ d \<Longrightarrow> 0 < d \<Longrightarrow> length (show_nat n) \<le> d"
proof (induction n arbitrary: d rule: show_nat.induct)
  case (1 n)
  show ?case
  proof (cases "n < 10")
    case True
    then show ?thesis using "1.prems" by (subst show_nat.simps) simp
  next
    case False
    then have d: "1 < d" using "1.prems" by (cases "d = 1") auto
    then obtain k where k: "d = Suc k" "0 < k" by (cases d) auto
    then have "n div 10 < 10 ^ k" using "1.prems" by (simp add: less_mult_imp_div_less mult.commute)
    with 1 False k have "length (show_nat (n div 10)) \<le> k" by blast
    then show ?thesis using False k by (subst show_nat.simps) simp
  qed
qed

lemma split_point_parts:
  "CHR ''.'' \<notin> set a \<Longrightarrow> split_point a = (a, None)"
  "CHR ''.'' \<notin> set a \<Longrightarrow> CHR ''.'' \<notin> set b \<Longrightarrow> split_point (a @ CHR ''.'' # b) = (a, Some b)"
proof -
  have t: "takeWhile (\<lambda>c. c \<noteq> CHR ''.'') x = x" if "CHR ''.'' \<notin> set x" for x using that by (auto simp: takeWhile_eq_all_conv)
  have d: "dropWhile (\<lambda>c. c \<noteq> CHR ''.'') x = []" if "CHR ''.'' \<notin> set x" for x using that by auto
  show "CHR ''.'' \<notin> set a \<Longrightarrow> split_point a = (a, None)" by (simp add: split_point_def t d)
  show "CHR ''.'' \<notin> set a \<Longrightarrow> CHR ''.'' \<notin> set b \<Longrightarrow> split_point (a @ CHR ''.'' # b) = (a, Some b)"
    by (auto simp: split_point_def t takeWhile_append dropWhile_append d)
qed

lemma show_nat_no_dot: "CHR ''.'' \<notin> set (show_nat n)"
  using show_nat_digits [of n] digit_facts by (force simp: list_all_iff)

lemma fromHuman_toToken_aux:
  assumes "0 \<le> raw"
  shows "fromHumanAmount (ta_human (toTokenAmount raw d symbol)) d = Some raw"
proof -
  define w where "w = nat (raw div 10 ^ d)"
  define f where "f = nat (raw mod 10 ^ d)"
  have "raw = int w * 10 ^ d + int f"
    using assms div_mult_mod_eq [of raw "10 ^ d"] by (simp add: w_def f_def pos_imp_zdiv_nonneg_iff)
  then have wf: "raw sdiv 10 ^ d = int w" "raw smod 10 ^ d = int f" "raw = int w * 10 ^ d + int f" "f < 10 ^ d"
    using assms by (simp_all add: w_def f_def signed_divide_int_def signed_modulo_int_def nat_less_iff pos_imp_zdiv_nonneg_iff sgn_if)
  have sw: "show_int (int w) = show_nat w" "show_int (int f) = show_nat f" by (simp_all add: show_int_def)
  have bw: "BigInt_string (show_nat w) = Some (int w)" by (simp add: BigInt_digits show_nat_digits)
  show ?thesis
  proof (cases "f = 0")
    case True
    then have "ta_human (toTokenAmount raw d symbol) = show_nat w" by (simp add: toTokenAmount_def Let_def wf(1,2) sw)
    then show ?thesis using wf(3) True by (simp add: fromHumanAmount_def split_point_parts show_nat_no_dot bw)
  next
    case False
    have d0: "0 < d" using wf(4) False by (cases d) auto
    let ?p = "padStart d (CHR ''0'') (show_nat f)"
    have len: "length ?p = d" using show_nat_length [OF wf(4) d0] by (simp add: padStart_def)
    have "is_digit (CHR ''0'')" by (simp add: is_digit_def code_def)
    then have dig: "list_all is_digit ?p" using show_nat_digits [of f] by (auto simp: padStart_def list_all_iff)
    have val: "parse_nat ?p = f" by (simp add: padStart_def parse_nat_pad)
    have ne: "drop_zeros ?p \<noteq> []"
    proof
      assume "drop_zeros ?p = []"
      from drop_zeros_empty [OF this] have "parse_nat ?p = 0" using parse_nat_pad [of "length ?p" "[]"] by (simp add: parse_nat_def)
      then show False using val False by simp
    qed
    then obtain c r where cr: "drop_zeros ?p = c # r" by (cases "drop_zeros ?p") auto
    have "ta_human (toTokenAmount raw d symbol) = show_nat w @ ''.'' @ drop_zeros ?p"
      using False by (simp add: toTokenAmount_def Let_def wf(1,2) sw)
    moreover have "CHR ''.'' \<notin> set (drop_zeros ?p)"
      using drop_zeros_digits [OF dig] digit_facts by (force simp: list_all_iff)
    moreover have "BigInt_string (take d (padEnd d (CHR ''0'') (drop_zeros ?p))) = Some (int f)"
      using dig val d0 len by (simp add: drop_zeros_pad [OF len] BigInt_digits) (metis BigInt_digits length_0_conv less_numeral_extra(3))
    ultimately show ?thesis using wf(3) by (simp add: fromHumanAmount_def split_point_parts show_nat_no_dot bw cr)
  qed
qed


section \<open>Properties\<close>

text \<open>\<open>lamportsToSol\<close> and \<open>solToLamports\<close> are the conversions for nine decimals.\<close>

lemma lamports_nine: "lamportsToSol l = ta_human (toTokenAmount l 9 None)" "solToLamports s = fromHumanAmount s 9"
proof -
  have ten: "LAMPORTS_PER_SOL = 10 ^ 9" by (simp add: LAMPORTS_PER_SOL_def)
  show "lamportsToSol l = ta_human (toTokenAmount l 9 None)" "solToLamports s = fromHumanAmount s 9"
    by (simp_all only: lamportsToSol_def toTokenAmount_def solToLamports_def fromHumanAmount_def ten Let_def TokenAmount.select_convs)
qed

text \<open>An amount that is not negative reads back as itself after being printed: lamports as SOL, and raw token units as a human amount with any number of decimals.\<close>

theorem units_roundtrip:
  assumes "0 \<le> raw"
  shows "solToLamports (lamportsToSol raw) = Some raw \<and> fromHumanAmount (ta_human (toTokenAmount raw decimals symbol)) decimals = Some raw"
  using fromHuman_toToken_aux [OF assms] by (simp add: lamports_nine)

theorem units_roundtrip_witness:
  "solToLamports (lamportsToSol 1500000000) = Some 1500000000 \<and> fromHumanAmount (ta_human (toTokenAmount 1500000000 2 None)) 2 = Some 1500000000"
  using units_roundtrip [of 1500000000 2 None] by simp

text \<open>The sign of an amount between -1 and 0 is lost, a sign may follow the point, and a printed negative amount does not
  read back: the whole part and the fraction are converted apart.\<close>

lemma units_negative:
  "solToLamports ''-0.5'' = Some 500000000" "solToLamports ''-1.5'' = Some (- 500000000)"
  "solToLamports ''1.-5'' = Some 950000000" "lamportsToSol (- 5) = ''0.0000000-5''"
  by code_simp+

end
