(* ===== verification/Fees.thy ===== *)
theory Fees
  imports Units Jcs
begin

text \<open>
  Fee estimates: \<^verbatim>\<open>src/write/fee-abstraction.ts\<close>. The node's answers (recent prioritisation fees, the balance of
  the wallet) are arguments, \<open>None\<close> when the request fails; amounts are integral doubles. An operation is looked up in
  the fee schedule by name; the names that every JavaScript object inherits are not operations.
\<close>

section \<open>Definitions\<close>

record fee_schedule =
  fs_baseFee :: int
  fs_rent :: int
  fs_computeUnits :: int

definition fee_row :: "int \<Rightarrow> int \<Rightarrow> int \<Rightarrow> fee_schedule" where
  "fee_row b r c = \<lparr>fs_baseFee = b, fs_rent = r, fs_computeUnits = c\<rparr>"

definition FEE_SCHEDULE :: "(string \<times> fee_schedule) list" where
  "FEE_SCHEDULE = [
    (''transfer'', fee_row 5000 0 450),
    (''token_transfer'', fee_row 5000 0 4000),
    (''create_account'', fee_row 5000 890880 1500),
    (''create_token'', fee_row 5000 1461600 5000),
    (''mint_tokens'', fee_row 5000 0 4500),
    (''deploy_evm'', fee_row 5000 0 200000),
    (''deploy_wasm'', fee_row 5000 0 200000),
    (''deploy_move'', fee_row 5000 0 150000),
    (''deploy_svm'', fee_row 5000 0 200000),
    (''contract_call'', fee_row 5000 0 50000),
    (''stake'', fee_row 5000 1392000 5000),
    (''cross_vm_call'', fee_row 5000 0 100000),
    (''create_agent'', fee_row 5000 3571200 10000),
    (''create_swarm'', fee_row 5000 14284800 15000)]"

definition MINIMUM_PRIORITY_FEE :: int where
  "MINIMUM_PRIORITY_FEE = 1000"

definition getMedianPriorityFee :: "int list option \<Rightarrow> int" where
  "getMedianPriorityFee fees = (case fees of None \<Rightarrow> MINIMUM_PRIORITY_FEE
     | Some fs \<Rightarrow> if fs = [] then MINIMUM_PRIORITY_FEE
       else let sorted = sort fs; mid = length sorted div 2
         in if length sorted mod 2 = 0 then math_round (fl53 (of_int (js_add (sorted ! (mid - 1)) (sorted ! mid)) / 2)) else sorted ! mid)"

record FeeEstimate =
  fe_totalCost :: string
  fe_totalLamports :: int
  fe_baseFee :: int
  fe_priorityFee :: int
  fe_rent :: int
  fe_computeUnits :: int
  fe_sufficient :: bool
  fe_walletBalance :: string

text \<open>\<open>fees\<close> is \<open>None\<close> when the request for them throws, \<open>Some None\<close> when it answers nothing; \<open>balance\<close> is the answer for a
  given wallet.\<close>

definition estimateFee :: "string \<Rightarrow> int list option option \<Rightarrow> int option \<Rightarrow> FeeEstimate" where
  "estimateFee operation fees balance = (
     let schedule = (case map_of FEE_SCHEDULE operation of Some s \<Rightarrow> s | None \<Rightarrow> fee_row 5000 0 450);
         priority = (case fees of None \<Rightarrow> MINIMUM_PRIORITY_FEE | Some fs \<Rightarrow> max (getMedianPriorityFee fs) MINIMUM_PRIORITY_FEE);
         total = js_add (js_add (fs_baseFee schedule) (fs_rent schedule)) priority
     in \<lparr>fe_totalCost = lamportsToSol total @ '' ETO'', fe_totalLamports = total, fe_baseFee = fs_baseFee schedule,
         fe_priorityFee = priority, fe_rent = fs_rent schedule, fe_computeUnits = fs_computeUnits schedule,
         fe_sufficient = (case balance of None \<Rightarrow> True | Some b \<Rightarrow> total \<le> b),
         fe_walletBalance = (case balance of None \<Rightarrow> ''unknown'' | Some b \<Rightarrow> lamportsToSol b)\<rparr>)"

definition newline :: string where
  "newline = [CHR 0x0A]"

definition formatFeeEstimate :: "FeeEstimate \<Rightarrow> string" where
  "formatFeeEstimate est = join newline (
     [''Estimated cost: '' @ fe_totalCost est,
      ''  Base fee: '' @ lamportsToSol (fe_baseFee est) @ '' ETO ('' @ show_int (fe_baseFee est) @ '' lamports)'']
     @ (if 0 < fe_rent est then [''  Rent: '' @ lamportsToSol (fe_rent est) @ '' ETO ('' @ show_int (fe_rent est) @ '' lamports)''] else [])
     @ [''  Compute: '' @ show_int (fe_computeUnits est) @ '' CU'']
     @ (if \<not> fe_sufficient est then [''  Warning: Insufficient balance (wallet: '' @ fe_walletBalance est @ '' ETO)''] else []))"

definition listOperationFees :: string where
  "listOperationFees = join newline ([''Operation Fee Schedule:'', []] @ map (\<lambda>(opn, s).
     ''  '' @ padEnd 20 (CHR '' '') opn @ '' '' @ padStart 12 (CHR '' '') (lamportsToSol (fs_baseFee s + fs_rent s))
       @ '' ETO  ('' @ show_int (fs_computeUnits s) @ '' CU)'') FEE_SCHEDULE)"

section \<open>Lemmas\<close>

lemma count_prefix: "sorted xs \<Longrightarrow> i < length xs \<Longrightarrow> xs ! i \<le> m \<Longrightarrow> Suc i \<le> length (filter (\<lambda>x. x \<le> m) xs)"
proof -
  assume s: "sorted xs" "i < length xs" "xs ! i \<le> m"
  have "\<forall>x \<in> set (take (Suc i) xs). x \<le> m"
    using s by (auto simp: in_set_conv_nth less_Suc_eq_le intro!: order_trans [OF _ s(3)] sorted_nth_mono)
  then have "filter (\<lambda>x. x \<le> m) (take (Suc i) xs) = take (Suc i) xs" by simp
  then have "length (take (Suc i) xs) \<le> length (filter (\<lambda>x. x \<le> m) (take (Suc i) xs @ drop (Suc i) xs))" by (metis filter_append length_append le_add1)
  then show ?thesis using s(2) by simp
qed

lemma count_suffix: "sorted xs \<Longrightarrow> i < length xs \<Longrightarrow> m \<le> xs ! i \<Longrightarrow> length xs - i \<le> length (filter (\<lambda>x. m \<le> x) xs)"
proof -
  assume s: "sorted xs" "i < length xs" "m \<le> xs ! i"
  have "\<forall>x \<in> set (drop i xs). m \<le> x"
    using s by (auto simp: in_set_conv_nth sorted_iff_nth_mono intro!: order_trans [OF s(3)])
  then have "filter (\<lambda>x. m \<le> x) (drop i xs) = drop i xs" by simp
  then have "length (drop i xs) \<le> length (filter (\<lambda>x. m \<le> x) (take i xs @ drop i xs))" by (metis filter_append length_append le_add2)
  then show ?thesis by simp
qed

lemma length_filter_sort: "length (filter P (sort xs)) = length (filter P xs)" for xs :: "int list"
  by (metis filter_sort length_sort)

lemma math_round_half:
  assumes "0 \<le> n" "n \<le> 2 ^ 52"
  shows "n div 2 \<le> math_round (fl53 (of_int n / 2)) \<and> math_round (fl53 (of_int n / 2)) \<le> (n + 1) div 2"
proof -
  define q where "q = fl53 (of_int n / 2)"
  have "\<bar>q - of_int n / 2\<bar> \<le> of_int n / 2 * (1 / 2 ^ 53)"
    unfolding q_def using assms(1) by (intro fl53_error_nonneg) simp
  also have "\<dots> \<le> 2 ^ 52 / 2 * (1 / 2 ^ 53)"
  proof -
    have "of_int n \<le> (of_int (2 ^ 52) :: rat)" using assms(2) by (simp only: of_int_le_iff)
    then show ?thesis by simp
  qed
  also have "\<dots> = 1 / 4" by simp
  finally have e: "\<bar>q - of_int n / 2\<bar> \<le> 1 / 4" .
  obtain k where "n = 2 * k \<or> n = 2 * k + 1" using evenE oddE by metis
  then show ?thesis
  proof
    assume n: "n = 2 * k"
    then have "- 1 / 4 \<le> q - of_int k" "q - of_int k \<le> 1 / 4" using e unfolding n abs_le_iff by simp_all
    then have "\<lfloor>q + 1 / 2\<rfloor> = k" unfolding floor_eq_iff by (intro conjI) linarith+
    then show ?thesis unfolding math_round_def q_def [symmetric] by (simp add: n)
  next
    assume n: "n = 2 * k + 1"
    then have "- 1 / 4 \<le> q - (of_int k + 1 / 2)" "q - (of_int k + 1 / 2) \<le> 1 / 4"
      using e unfolding n abs_le_iff by (simp_all add: add_divide_distrib)
    then have "of_int k \<le> q + 1 / 2" "q + 1 / 2 < of_int (k + 2)" by (simp_all only: of_int_add of_int_numeral)
    then have "k \<le> \<lfloor>q + 1 / 2\<rfloor>" "\<lfloor>q + 1 / 2\<rfloor> < k + 2" by (simp_all add: le_floor_iff floor_less_iff del: of_int_add)
    then show ?thesis unfolding math_round_def q_def [symmetric] by (simp add: n)
  qed
qed

lemma rounded_mean_between:
  assumes "0 \<le> a" "a \<le> b" "b \<le> 2 ^ 51"
  shows "a \<le> math_round (fl53 (of_int (js_add a b) / 2)) \<and> math_round (fl53 (of_int (js_add a b) / 2)) \<le> b"
proof -
  have "js_add a b = a + b" using assms by (intro js_add_exact) simp
  moreover have "a \<le> (a + b) div 2" "(a + b + 1) div 2 \<le> b" using assms by linarith+
  moreover have "0 \<le> a + b" "a + b \<le> 2 ^ 52" using assms by simp_all
  ultimately show ?thesis using math_round_half [of "a + b"] by (auto simp del: of_int_add)
qed

lemma median_between:
  assumes "fs \<noteq> []" "\<forall>f \<in> set fs. 0 \<le> f \<and> f \<le> 2 ^ 51"
  shows "sort fs ! ((length fs - 1) div 2) \<le> getMedianPriorityFee (Some fs) \<and> getMedianPriorityFee (Some fs) \<le> sort fs ! (length fs div 2)"
proof (cases "even (length fs)")
  case True
  then obtain k where k: "length fs = 2 * Suc k" using assms(1) by (metis evenE length_0_conv mult_0_right not0_implies_Suc)
  have "sort fs ! k \<in> set (sort fs)" "sort fs ! Suc k \<in> set (sort fs)" using k by (intro nth_mem, simp)+
  moreover have "sort fs ! k \<le> sort fs ! Suc k" using k by (intro sorted_nth_mono) simp_all
  ultimately show ?thesis using rounded_mean_between [of "sort fs ! k" "sort fs ! Suc k"] assms k
    by (simp add: getMedianPriorityFee_def Let_def del: js_add_exact)
next
  case False
  then have "(length fs - 1) div 2 = length fs div 2" by (elim oddE) simp
  then show ?thesis using False assms(1) by (simp add: getMedianPriorityFee_def mod2_eq_if Let_def)
qed

lemma median_halves:
  assumes "fs \<noteq> []" "\<forall>f \<in> set fs. 0 \<le> f \<and> f \<le> 2 ^ 51"
  shows "length fs \<le> 2 * length (filter (\<lambda>f. f \<le> getMedianPriorityFee (Some fs)) fs)"
    and "length fs \<le> 2 * length (filter (\<lambda>f. getMedianPriorityFee (Some fs) \<le> f) fs)"
    and "getMedianPriorityFee (Some fs) \<le> 2 ^ 51"
proof -
  note b = median_between [OF assms]
  have i: "(length fs - 1) div 2 < length (sort fs)" "length fs div 2 < length (sort fs)" using assms(1) by (simp_all add: div_less_dividend less_mult_imp_div_less length_greater_0_conv [symmetric] del: length_greater_0_conv)
  have "Suc ((length fs - 1) div 2) \<le> length (filter (\<lambda>f. f \<le> getMedianPriorityFee (Some fs)) (sort fs))"
    using b i by (intro count_prefix) simp_all
  then show "length fs \<le> 2 * length (filter (\<lambda>f. f \<le> getMedianPriorityFee (Some fs)) fs)"
    by (simp add: length_filter_sort)
  have "length (sort fs) - length fs div 2 \<le> length (filter (\<lambda>f. getMedianPriorityFee (Some fs) \<le> f) (sort fs))"
    using b i by (intro count_suffix) simp_all
  then show "length fs \<le> 2 * length (filter (\<lambda>f. getMedianPriorityFee (Some fs) \<le> f) fs)"
    by (simp add: length_filter_sort)
  have "sort fs ! (length fs div 2) \<in> set fs" using nth_mem [OF i(2)] by simp
  then show "getMedianPriorityFee (Some fs) \<le> 2 ^ 51" using b assms(2) by fastforce
qed

lemma length_filter_le_mono: "m \<le> (n :: int) \<Longrightarrow> length (filter (\<lambda>f. f \<le> m) fs) \<le> length (filter (\<lambda>f. f \<le> n) fs)"
  by (induction fs) auto

definition schedule_of :: "string \<Rightarrow> fee_schedule" where
  "schedule_of opn = (case map_of FEE_SCHEDULE opn of Some s \<Rightarrow> s | None \<Rightarrow> fee_row 5000 0 450)"

lemma schedule_bound: "0 \<le> fs_baseFee (schedule_of opn) + fs_rent (schedule_of opn) \<and> fs_baseFee (schedule_of opn) + fs_rent (schedule_of opn) \<le> 2 ^ 40"
proof -
  have "\<forall>(_, s) \<in> set FEE_SCHEDULE. 0 \<le> fs_baseFee s + fs_rent s \<and> fs_baseFee s + fs_rent s \<le> 2 ^ 40"
    by (simp add: FEE_SCHEDULE_def fee_row_def)
  then show ?thesis
    by (auto simp: schedule_of_def fee_row_def split: option.split dest: map_of_SomeD)
qed

lemma total_cost_exact: "0 \<le> p \<Longrightarrow> p \<le> 2 ^ 51 \<Longrightarrow>
    js_add (js_add (fs_baseFee (schedule_of opn)) (fs_rent (schedule_of opn))) p = fs_baseFee (schedule_of opn) + fs_rent (schedule_of opn) + p"
  using schedule_bound [of opn] by simp

section \<open>Fee estimates\<close>

text \<open>The priority fee of an estimate is the median of the recent prioritisation fees, but at least 1000 lamports: at
  least half of the recent fees are not above it, and, unless it is the minimum, at least half are not below it; the total is the sum of base
  fee, rent and priority fee, and the estimate says that a wallet suffices exactly when its balance covers that total.\<close>

theorem fee_estimate_median:
  fixes fs :: "int list"
  assumes "fs \<noteq> []" "\<forall>f \<in> set fs. 0 \<le> f \<and> f \<le> 2 ^ 51"
  shows "let est = estimateFee opn (Some (Some fs)) (Some b); p = fe_priorityFee est
    in length fs \<le> 2 * length (filter (\<lambda>f. f \<le> p) fs)
       \<and> (p = 1000 \<or> length fs \<le> 2 * length (filter (\<lambda>f. p \<le> f) fs)) \<and> 1000 \<le> p
       \<and> fe_totalLamports est = fe_baseFee est + fe_rent est + p
       \<and> (fe_sufficient est \<longleftrightarrow> fe_baseFee est + fe_rent est + p \<le> b)"
proof -
  let ?m = "getMedianPriorityFee (Some fs)"
  note h = median_halves [OF assms]
  have "length fs \<le> 2 * length (filter (\<lambda>f. f \<le> max ?m 1000) fs)"
    using h(1) length_filter_le_mono [of ?m "max ?m 1000" fs] by linarith
  moreover have "max ?m 1000 = 1000 \<or> length fs \<le> 2 * length (filter (\<lambda>f. max ?m 1000 \<le> f) fs)"
    using h(2) by (cases "?m \<le> 1000") (simp_all add: max_def)
  moreover have "0 \<le> max ?m 1000" "max ?m 1000 \<le> 2 ^ 51" using h(3) by simp_all
  ultimately show ?thesis
    by (simp add: estimateFee_def Let_def MINIMUM_PRIORITY_FEE_def schedule_of_def [symmetric] total_cost_exact del: js_add_exact max.bounded_iff)
qed

theorem fee_estimate_median_witness:
  "let fs = [4000, 10, 2500, 900, 3000]; est = estimateFee ''create_account'' (Some (Some fs)) (Some 898379)
   in fe_priorityFee est = 2500 \<and> length fs \<le> 2 * length (filter (\<lambda>f. f \<le> fe_priorityFee est) fs)
      \<and> fe_totalLamports est = 898380 \<and> \<not> fe_sufficient est"
proof -
  have "fe_priorityFee (estimateFee ''create_account'' (Some (Some [4000, 10, 2500, 900, 3000])) (Some 898379)) = 2500"
    by (simp add: estimateFee_def getMedianPriorityFee_def MINIMUM_PRIORITY_FEE_def Let_def)
  moreover have "fe_baseFee (estimateFee ''create_account'' (Some (Some [4000, 10, 2500, 900, 3000])) (Some 898379)) = 5000"
    "fe_rent (estimateFee ''create_account'' (Some (Some [4000, 10, 2500, 900, 3000])) (Some 898379)) = 890880"
    by (simp_all add: estimateFee_def FEE_SCHEDULE_def fee_row_def Let_def)
  ultimately show ?thesis
    using fee_estimate_median [of "[4000, 10, 2500, 900, 3000]" "''create_account''" 898379] by (simp add: Let_def)
qed

end
