(* ===== verification/Bank_Accounts.thy ===== *)
theory Bank_Accounts
  imports Bank_Ramps Bank_Issuer Hex_Text "HOL-Library.AList"
begin

text \<open>
  Opening accounts and issuing cards at the bank BPP: \<^verbatim>\<open>keeper/bpps/bank/auth.ts\<close>, \<^verbatim>\<open>credential-ledger.ts\<close>,
  \<^verbatim>\<open>handlers/open-checking.ts\<close>, \<^verbatim>\<open>open-savings.ts\<close> and \<^verbatim>\<open>issue-card.ts\<close> with its production adapter to the bank issuer.

  A handler's dependencies are functions on the state of the world \<open>'s\<close>, which they may change; \<open>Inl\<close> is a rejection. So
  the order of the calls and what each leaves behind when a later one fails are visible. \<open>sha\<close> is the SHA-256 hex digest of
  the concatenated updates.
\<close>

section \<open>Caller authentication\<close>

datatype caller_error = UnauthorizedCaller | CallerRangeError

text \<open>\<open>callerPubkey\<close> is absent when the gateway verified no caller.\<close>

definition assertCallerEquals :: "string option \<Rightarrow> string \<Rightarrow> (caller_error, unit) result" where
  "assertCallerEquals callerPubkey expected = (case callerPubkey of None \<Rightarrow> Inl UnauthorizedCaller
     | Some c \<Rightarrow> if length c = 0 \<or> length expected = 0 then Inl UnauthorizedCaller
         else let a = to_lower c; b = to_lower expected
         in if length a \<noteq> length b then Inl UnauthorizedCaller
            else (case timing_safe_equal (utf8 a) (utf8 b) of None \<Rightarrow> Inl CallerRangeError
              | Some eq \<Rightarrow> if \<not> eq then Inl UnauthorizedCaller else Inr ()))"

text \<open>How a handler ends other than by returning: its own rejection, the rejection of a dependency it does not catch, or
  \<open>BigInt\<close> of a number that is not an integer.\<close>

datatype ('r, 'e) rejection = Rejected 'r | DepThrew 'e | BigIntError

type_synonym ('s, 'e, 'a, 'b) call = "'a \<Rightarrow> 's \<Rightarrow> ('e, 'b) result \<times> 's"

definition REQUIRED_SCHEMAS :: "string list" where
  "REQUIRED_SCHEMAS = [''eto.beckn.schema.verified-human.v1'', ''eto.beckn.schema.kyc.us-test.v1'']"

section \<open>Open checking\<close>

record OpenCheckingRequest =
  ocq_subject :: string
  ocq_bank_issuer :: string
  ocq_opened_slot :: jsnumber
  ocq_opening_deposit_atomic :: "jsnumber option"

text \<open>The account that is recorded; the credential's body adds its address and the currency.\<close>

record checking_account =
  ca_holder :: string
  ca_opened_slot :: jsnumber
  ca_opening_balance :: int

record checking_credential =
  cc_schema :: string
  cc_subject :: string
  cc_issuer :: string
  cc_account_pda :: string
  cc_currency :: string
  cc_account :: checking_account

record OpenCheckingResult =
  ocr_checking_account_pda :: string
  ocr_credential :: checking_credential
  ocr_fulfillment_uri :: string

datatype OpenCheckingReason = OcUnauthorizedCaller | OcInvalidPubkey | OcInvalidDeposit | OcCredentialsMissing | OcIssueFailed | OcLedgerFailed

record ('s, 'e) OpenCheckingDeps =
  ocd_verifyHolderCredentials :: "('s, 'e, string \<times> string list, bool) call"
  ocd_issueCheckingCredential :: "('s, 'e, checking_credential, string \<times> string) call"
  ocd_recordCheckingAccount :: "('s, 'e, string \<times> checking_account, unit) call"
  ocd_flagReconciliation :: "('s, 'e, string \<times> checking_account, unit) call"

definition checking_pda :: "(nat list \<Rightarrow> string) \<Rightarrow> string \<Rightarrow> nat list \<Rightarrow> string" where
  "checking_pda sha subject slot_bytes = sha (utf8 ''checking_account'' @ buffer_from_hex subject @ slot_bytes)"

text \<open>The handler up to its first side effect.\<close>

definition checking_prepare :: "(nat list \<Rightarrow> string) \<Rightarrow> ('s, 'e) OpenCheckingDeps \<Rightarrow> string option \<Rightarrow> OpenCheckingRequest \<Rightarrow> 's
    \<Rightarrow> ((OpenCheckingReason, 'e) rejection, checking_credential) result \<times> 's" where
  "checking_prepare sha d callerPubkey body s = (case assertCallerEquals callerPubkey (ocq_subject body) of
       Inl _ \<Rightarrow> (Inl (Rejected OcUnauthorizedCaller), s)
     | Inr _ \<Rightarrow>
     if \<not> HEX64 (ocq_subject body) then (Inl (Rejected OcInvalidPubkey), s)
     else if \<not> HEX64 (ocq_bank_issuer body) then (Inl (Rejected OcInvalidPubkey), s)
     else (case (case ocq_opening_deposit_atomic body of None \<Rightarrow> JInt 0 | Some n \<Rightarrow> n) of
       JInt opening \<Rightarrow>
         if opening < 0 then (Inl (Rejected OcInvalidDeposit), s)
         else (case ocd_verifyHolderCredentials d (ocq_subject body, REQUIRED_SCHEMAS) s of
           (Inl e, s1) \<Rightarrow> (Inl (DepThrew e), s1)
         | (Inr ok, s1) \<Rightarrow> if \<not> ok then (Inl (Rejected OcCredentialsMissing), s1)
           else (case bigint_buffer (ocq_opened_slot body) of None \<Rightarrow> (Inl BigIntError, s1)
             | Some slot_bytes \<Rightarrow> (Inr \<lparr>cc_schema = ''account.checking.v1'', cc_subject = ocq_subject body,
                 cc_issuer = ocq_bank_issuer body, cc_account_pda = checking_pda sha (ocq_subject body) slot_bytes,
                 cc_currency = ''eUSD'', cc_account = \<lparr>ca_holder = ocq_subject body, ca_opened_slot = ocq_opened_slot body,
                   ca_opening_balance = opening\<rparr>\<rparr>, s1)))
     | _ \<Rightarrow> (Inl (Rejected OcInvalidDeposit), s)))"

text \<open>Its side effects: ledger first, then chain, and a flag when the chain fails.\<close>

definition checking_commit :: "('s, 'e) OpenCheckingDeps \<Rightarrow> checking_credential \<Rightarrow> 's
    \<Rightarrow> ((OpenCheckingReason, 'e) rejection, OpenCheckingResult) result \<times> 's" where
  "checking_commit d credential s = (let pda = cc_account_pda credential; account = cc_account credential
     in case ocd_recordCheckingAccount d (pda, account) s of
       (Inl _, s1) \<Rightarrow> (Inl (Rejected OcLedgerFailed), s1)
     | (Inr _, s1) \<Rightarrow> (case ocd_issueCheckingCredential d credential s1 of
         (Inl _, s2) \<Rightarrow> (Inl (Rejected OcIssueFailed), snd (ocd_flagReconciliation d (pda, account) s2))
       | (Inr _, s2) \<Rightarrow> (Inr \<lparr>ocr_checking_account_pda = pda, ocr_credential = credential,
           ocr_fulfillment_uri = ''eto://checking/'' @ pda\<rparr>, s2)))"

definition openChecking :: "(nat list \<Rightarrow> string) \<Rightarrow> ('s, 'e) OpenCheckingDeps \<Rightarrow> string option \<Rightarrow> OpenCheckingRequest \<Rightarrow> 's
    \<Rightarrow> ((OpenCheckingReason, 'e) rejection, OpenCheckingResult) result \<times> 's" where
  "openChecking sha d callerPubkey body s = (case checking_prepare sha d callerPubkey body s of
       (Inl e, s1) \<Rightarrow> (Inl e, s1) | (Inr credential, s1) \<Rightarrow> checking_commit d credential s1)"

section \<open>Open savings\<close>

record OpenSavingsRequest =
  osq_caller_pubkey :: string
  osq_subject :: string
  osq_linked_checking_account_pda :: string
  osq_bank_issuer :: string
  osq_opened_slot :: jsnumber
  osq_tier :: "string option"
  osq_min_balance :: "jsnumber option"
  osq_apy_bps :: "jsnumber option"

record savings_account =
  sa_holder :: string
  sa_opened_slot :: jsnumber
  sa_min_balance :: jsnumber
  sa_apy_bps :: jsnumber
  sa_tier :: string

record savings_credential =
  sc_schema :: string
  sc_subject :: string
  sc_issuer :: string
  sc_account_pda :: string
  sc_currency :: string
  sc_account :: savings_account

record OpenSavingsResult =
  osr_savings_account_pda :: string
  osr_credential :: savings_credential
  osr_fulfillment_uri :: string

datatype OpenSavingsReason = OsNoCheckingCredential | OsInvalidPda | OsCallerMismatch | OsInvalidTier | OsInvalidApy

record ('s, 'e) OpenSavingsDeps =
  osd_verifyCheckingCredential :: "('s, 'e, string \<times> string, bool) call"
  osd_issueSavingsCredential :: "('s, 'e, savings_credential, string \<times> string) call"
  osd_recordSavingsAccount :: "('s, 'e, string \<times> savings_account, unit) call"

definition savings_pda :: "(nat list \<Rightarrow> string) \<Rightarrow> string \<Rightarrow> nat list \<Rightarrow> string" where
  "savings_pda sha subject slot_bytes = sha (utf8 ''savings_account'' @ buffer_from_hex subject @ slot_bytes)"

definition openSavings :: "(nat list \<Rightarrow> string) \<Rightarrow> ('s, 'e) OpenSavingsDeps \<Rightarrow> OpenSavingsRequest \<Rightarrow> 's
    \<Rightarrow> ((OpenSavingsReason, 'e) rejection, OpenSavingsResult) result \<times> 's" where
  "openSavings sha d req s = (
     if \<not> HEX64 (osq_caller_pubkey req) then (Inl (Rejected OsInvalidPda), s)
     else if \<not> HEX64 (osq_subject req) then (Inl (Rejected OsInvalidPda), s)
     else if \<not> HEX64 (osq_linked_checking_account_pda req) then (Inl (Rejected OsInvalidPda), s)
     else if \<not> HEX64 (osq_bank_issuer req) then (Inl (Rejected OsInvalidPda), s)
     else if osq_caller_pubkey req \<noteq> osq_subject req then (Inl (Rejected OsCallerMismatch), s)
     else let tier = (case osq_tier req of None \<Rightarrow> ''standard'' | Some t \<Rightarrow> t);
              apy_bps = (case osq_apy_bps req of None \<Rightarrow> JInt 400 | Some a \<Rightarrow> a);
              min_balance = (case osq_min_balance req of None \<Rightarrow> JInt 0 | Some m \<Rightarrow> m)
     in if tier \<notin> set [''standard'', ''premium'', ''private''] then (Inl (Rejected OsInvalidTier), s)
     else if js_less apy_bps (JInt 0) \<or> js_less (JInt 10000) apy_bps then (Inl (Rejected OsInvalidApy), s)
     else (case osd_verifyCheckingCredential d (osq_subject req, osq_linked_checking_account_pda req) s of
         (Inl e, s1) \<Rightarrow> (Inl (DepThrew e), s1)
       | (Inr has_checking, s1) \<Rightarrow> if \<not> has_checking then (Inl (Rejected OsNoCheckingCredential), s1)
         else (case bigint_buffer (osq_opened_slot req) of None \<Rightarrow> (Inl BigIntError, s1)
           | Some slot_bytes \<Rightarrow>
             let pda = savings_pda sha (osq_subject req) slot_bytes;
                 account = \<lparr>sa_holder = osq_subject req, sa_opened_slot = osq_opened_slot req, sa_min_balance = min_balance,
                   sa_apy_bps = apy_bps, sa_tier = tier\<rparr>;
                 credential = \<lparr>sc_schema = ''account.savings.v1'', sc_subject = osq_subject req, sc_issuer = osq_bank_issuer req,
                   sc_account_pda = pda, sc_currency = ''eUSD'', sc_account = account\<rparr>
             in (case osd_recordSavingsAccount d (pda, account) s1 of
               (Inl e, s2) \<Rightarrow> (Inl (DepThrew e), s2)
             | (Inr _, s2) \<Rightarrow> (case osd_issueSavingsCredential d credential s2 of
                 (Inl e, s3) \<Rightarrow> (Inl (DepThrew e), s3)
               | (Inr _, s3) \<Rightarrow> (Inr \<lparr>osr_savings_account_pda = pda, osr_credential = credential,
                   osr_fulfillment_uri = ''eto://savings/'' @ pda\<rparr>, s3))))))"

section \<open>Issue card\<close>

record IssueCardRequest =
  icq_subject :: string
  icq_bank_issuer :: string
  icq_linked_account_pda :: string
  icq_issued_slot :: jsnumber
  icq_jurisdiction :: "string option"
  icq_spending_limit_per_day_atomic :: "jsnumber option"
  icq_spending_limit_per_tx_atomic :: "jsnumber option"
  icq_expires_slot :: "jsnumber option"
  icq_merchant_category_blocklist :: "string list option"

record CardDebitCredentialBody =
  cb_holder :: string
  cb_linked_account_pda :: string
  cb_jurisdiction :: string
  cb_card_id_hash :: string
  cb_issued_slot :: jsnumber
  cb_expires_slot :: jsnumber
  cb_spending_limit_per_day :: int
  cb_spending_limit_per_tx :: int
  cb_network_brand :: string
  cb_tier :: string
  cb_merchant_category_blocklist :: "string list option"

record IssueCardCredential =
  ic_schema :: string
  ic_subject :: string
  ic_issuer :: string
  ic_body :: CardDebitCredentialBody

record IssueCardResult =
  icr_card_pda :: string
  icr_credential :: IssueCardCredential
  icr_fulfillment_uri :: string

datatype IssueCardRejectedReason = IcUnauthorizedCaller | IcInvalidPubkey | IcInvalidJurisdiction | IcInvalidLimit
  | IcCredentialsMissing | IcAccountNotFound | IcIssueFailed | IcLedgerFailed

record ('s, 'e) IssueCardDeps =
  icd_verifyHolderCredentials :: "('s, 'e, string \<times> string list, bool) call"
  icd_verifyLinkedAccount :: "('s, 'e, string \<times> string, bool) call"
  icd_issueCardCredential :: "('s, 'e, IssueCardCredential, string \<times> string) call"
  icd_recordCard :: "('s, 'e, string \<times> CardDebitCredentialBody, unit) call"
  icd_flagReconciliation :: "('s, 'e, string \<times> string \<times> CardDebitCredentialBody, unit) call"

text \<open>\<open>/^[a-z]{2}$/\<close>.\<close>

definition JURISDICTION_RE :: "string \<Rightarrow> bool" where
  "JURISDICTION_RE s = (length s = 2 \<and> list_all is_lower s)"

definition card_pda :: "(nat list \<Rightarrow> string) \<Rightarrow> string \<Rightarrow> string \<Rightarrow> nat list \<Rightarrow> string" where
  "card_pda sha subject linked slot_bytes = sha (utf8 ''card_debit'' @ buffer_from_hex subject @ buffer_from_hex linked @ slot_bytes)"

definition card_id_hash :: "(nat list \<Rightarrow> string) \<Rightarrow> string \<Rightarrow> string" where
  "card_id_hash sha pda = sha (utf8 ''card_id_v0_stub'' @ buffer_from_hex pda)"

text \<open>The defaults of the limits and whether they pass.\<close>

definition card_limits :: "IssueCardRequest \<Rightarrow> (int \<times> int) option" where
  "card_limits body = (case (case icq_spending_limit_per_day_atomic body of None \<Rightarrow> JInt 5000000000 | Some n \<Rightarrow> n,
       case icq_spending_limit_per_tx_atomic body of None \<Rightarrow> JInt 500000000 | Some n \<Rightarrow> n) of
     (JInt day, JInt tx) \<Rightarrow> if day < 0 \<or> tx < 0 \<or> day < tx then None else Some (day, tx)
   | _ \<Rightarrow> None)"

definition card_prepare :: "(nat list \<Rightarrow> string) \<Rightarrow> ('s, 'e) IssueCardDeps \<Rightarrow> string option \<Rightarrow> IssueCardRequest \<Rightarrow> 's
    \<Rightarrow> ((IssueCardRejectedReason, 'e) rejection, string \<times> IssueCardCredential) result \<times> 's" where
  "card_prepare sha d callerPubkey req s = (case assertCallerEquals callerPubkey (icq_subject req) of
       Inl _ \<Rightarrow> (Inl (Rejected IcUnauthorizedCaller), s)
     | Inr _ \<Rightarrow>
     let jurisdiction = (case icq_jurisdiction req of None \<Rightarrow> ''us'' | Some j \<Rightarrow> j);
         expires_slot = (case icq_expires_slot req of None \<Rightarrow> JInt 0 | Some e \<Rightarrow> e)
     in if \<not> HEX64 (icq_subject req) then (Inl (Rejected IcInvalidPubkey), s)
     else if \<not> HEX64 (icq_bank_issuer req) then (Inl (Rejected IcInvalidPubkey), s)
     else if \<not> HEX64 (icq_linked_account_pda req) then (Inl (Rejected IcInvalidPubkey), s)
     else if \<not> JURISDICTION_RE jurisdiction then (Inl (Rejected IcInvalidJurisdiction), s)
     else (case card_limits req of None \<Rightarrow> (Inl (Rejected IcInvalidLimit), s)
       | Some (day, tx) \<Rightarrow>
       (case icd_verifyHolderCredentials d (icq_subject req, REQUIRED_SCHEMAS) s of
         (Inl e, s1) \<Rightarrow> (Inl (DepThrew e), s1)
       | (Inr ok, s1) \<Rightarrow> if \<not> ok then (Inl (Rejected IcCredentialsMissing), s1)
       else (case icd_verifyLinkedAccount d (icq_linked_account_pda req, icq_subject req) s1 of
         (Inl e, s2) \<Rightarrow> (Inl (DepThrew e), s2)
       | (Inr ok, s2) \<Rightarrow> if \<not> ok then (Inl (Rejected IcAccountNotFound), s2)
       else (case bigint_buffer (icq_issued_slot req) of None \<Rightarrow> (Inl BigIntError, s2)
       | Some slot_bytes \<Rightarrow>
         let pda = card_pda sha (icq_subject req) (icq_linked_account_pda req) slot_bytes
         in (Inr (pda, \<lparr>ic_schema = ''card.debit.'' @ jurisdiction @ ''.v1'', ic_subject = icq_subject req, ic_issuer = icq_bank_issuer req,
               ic_body = \<lparr>cb_holder = icq_subject req, cb_linked_account_pda = icq_linked_account_pda req, cb_jurisdiction = jurisdiction,
                 cb_card_id_hash = card_id_hash sha pda, cb_issued_slot = icq_issued_slot req, cb_expires_slot = expires_slot,
                 cb_spending_limit_per_day = day, cb_spending_limit_per_tx = tx, cb_network_brand = ''internal'', cb_tier = ''standard'',
                 cb_merchant_category_blocklist = (case icq_merchant_category_blocklist req of
                     Some (x # xs) \<Rightarrow> Some (x # xs) | _ \<Rightarrow> None)\<rparr>\<rparr>), s2))))))"

definition card_commit :: "('s, 'e) IssueCardDeps \<Rightarrow> string \<Rightarrow> IssueCardCredential \<Rightarrow> 's
    \<Rightarrow> ((IssueCardRejectedReason, 'e) rejection, IssueCardResult) result \<times> 's" where
  "card_commit d pda credential s = (let body = ic_body credential
     in case icd_recordCard d (pda, body) s of
       (Inl _, s1) \<Rightarrow> (Inl (Rejected IcLedgerFailed), s1)
     | (Inr _, s1) \<Rightarrow> (case icd_issueCardCredential d credential s1 of
         (Inl _, s2) \<Rightarrow> (Inl (Rejected IcIssueFailed), snd (icd_flagReconciliation d (pda, cb_holder body, body) s2))
       | (Inr _, s2) \<Rightarrow> (Inr \<lparr>icr_card_pda = pda, icr_credential = credential, icr_fulfillment_uri = ''eto://card/'' @ pda\<rparr>, s2)))"

definition issueCard :: "(nat list \<Rightarrow> string) \<Rightarrow> ('s, 'e) IssueCardDeps \<Rightarrow> string option \<Rightarrow> IssueCardRequest \<Rightarrow> 's
    \<Rightarrow> ((IssueCardRejectedReason, 'e) rejection, IssueCardResult) result \<times> 's" where
  "issueCard sha d callerPubkey req s = (case card_prepare sha d callerPubkey req s of
       (Inl e, s1) \<Rightarrow> (Inl e, s1) | (Inr (pda, credential), s1) \<Rightarrow> card_commit d pda credential s1)"

section \<open>The credential ledger\<close>

datatype LedgerEntry =
    CardLedgerEntry string string int CardDebitCredentialBody
  | CheckingLedgerEntry string string int checking_account

type_synonym credential_ledger = "(string \<times> LedgerEntry) list"

definition recordCard :: "int \<Rightarrow> string \<Rightarrow> CardDebitCredentialBody \<Rightarrow> credential_ledger \<Rightarrow> credential_ledger" where
  "recordCard now pda body entries = AList.update pda (CardLedgerEntry pda (cb_holder body) now body) entries"

definition recordCheckingAccount :: "int \<Rightarrow> string \<Rightarrow> checking_account \<Rightarrow> credential_ledger \<Rightarrow> credential_ledger" where
  "recordCheckingAccount now pda account entries = AList.update pda (CheckingLedgerEntry pda (ca_holder account) now account) entries"

definition ledger_lookup :: "credential_ledger \<Rightarrow> string \<Rightarrow> LedgerEntry option" where
  "ledger_lookup entries pda = map_of entries pda"

definition ledger_list :: "credential_ledger \<Rightarrow> LedgerEntry list" where
  "ledger_list entries = map snd entries"

definition ledger_size :: "credential_ledger \<Rightarrow> nat" where
  "ledger_size entries = length entries"

section \<open>The production adapter\<close>

datatype adapter_error = IssuerAuthorityMismatch | IssuerThrew bank_error | OtherError string

definition card_issuer_input :: "IssueCardCredential \<Rightarrow> IssueCardInput" where
  "card_issuer_input cred = \<lparr>bid_subjectAgentCardPubkey = ic_subject cred, bid_cardIdHash = cb_card_id_hash (ic_body cred),
     bid_holder = ic_subject cred, bid_linkedAccountPda = cb_linked_account_pda (ic_body cred),
     bid_jurisdiction = cb_jurisdiction (ic_body cred), bid_issuedSlot = cb_issued_slot (ic_body cred),
     bid_spendingLimitPerDay = JInt (cb_spending_limit_per_day (ic_body cred)),
     bid_expiresSlot = (if cb_expires_slot (ic_body cred) \<noteq> JInt 0 then Some (cb_expires_slot (ic_body cred)) else None),
     bid_spendingLimitPerTx = Some (JInt (cb_spending_limit_per_tx (ic_body cred))),
     bid_merchantCategoryBlocklist = (case cb_merchant_category_blocklist (ic_body cred) of
         Some (x # xs) \<Rightarrow> Some (x # xs) | _ \<Rightarrow> None),
     bid_networkBrand = Some (cb_network_brand (ic_body cred)), bid_tier = Some (cb_tier (ic_body cred))\<rparr>"

definition makeProdIssueCardCredential :: "(string \<Rightarrow> string) \<Rightarrow> BankIssuerDeps \<Rightarrow> (bank_store \<Rightarrow> bank_store)
    \<Rightarrow> (bank_store \<times> trace, adapter_error, IssueCardCredential, string \<times> string) call" where
  "makeProdIssueCardCredential sha bankIssuer others cred s = (
     if ic_issuer cred \<noteq> bkd_issuerAuthorityPubkey bankIssuer then (Inl IssuerAuthorityMismatch, s)
     else case issueCardCredential sha bankIssuer others (card_issuer_input cred) (fst s) (snd s) of (r, st, tr) \<Rightarrow>
       (case r of Inl e \<Rightarrow> Inl (IssuerThrew e)
        | Inr (BkIssued pda tx _ _ _) \<Rightarrow> Inr (tx, pda)
        | Inr (BkIdempotent pda tx _ _) \<Rightarrow> Inr (tx, pda), st, tr))"

section \<open>The bank's world\<close>

text \<open>The handlers wired to the ledger of the process and, for cards, to the bank issuer: \<open>stubs\<close> of the two handlers with the
  production adapter in place of the stub issuer. The answers of the credential checks and of the chain for checking
  credentials are arguments. \<open>bw_checking\<close> are the accounts whose checking credential was issued, \<open>bw_flags\<close> what was
  flagged for reconciliation.\<close>

record bank_world =
  bw_ledger :: credential_ledger
  bw_store :: bank_store
  bw_trace :: trace
  bw_checking :: "string list"
  bw_flags :: "(string \<times> string) list"

record bank_env =
  be_sha :: "nat list \<Rightarrow> string"
  be_issuer :: BankIssuerDeps
  be_now :: "bank_world \<Rightarrow> int"
  be_holds :: "bank_world \<Rightarrow> string \<times> string list \<Rightarrow> bool"
  be_linked :: "bank_world \<Rightarrow> string \<times> string \<Rightarrow> bool"
  be_chain :: "bank_world \<Rightarrow> checking_credential \<Rightarrow> (adapter_error, string \<times> string) result"

definition checking_deps :: "bank_env \<Rightarrow> (bank_world, adapter_error) OpenCheckingDeps" where
  "checking_deps env = \<lparr>ocd_verifyHolderCredentials = (\<lambda>a w. (Inr (be_holds env w a), w)),
     ocd_issueCheckingCredential = (\<lambda>cred w. (be_chain env w cred,
       if is_ok (be_chain env w cred) then w\<lparr>bw_checking := cc_account_pda cred # bw_checking w\<rparr> else w)),
     ocd_recordCheckingAccount = (\<lambda>(pda, account) w.
       (Inr (), w\<lparr>bw_ledger := recordCheckingAccount (be_now env w) pda account (bw_ledger w)\<rparr>)),
     ocd_flagReconciliation = (\<lambda>(pda, account) w. (Inr (), w\<lparr>bw_flags := (pda, ca_holder account) # bw_flags w\<rparr>))\<rparr>"

definition card_deps :: "bank_env \<Rightarrow> (bank_store \<Rightarrow> bank_store) \<Rightarrow> (bank_world, adapter_error) IssueCardDeps" where
  "card_deps env others = \<lparr>icd_verifyHolderCredentials = (\<lambda>a w. (Inr (be_holds env w a), w)),
     icd_verifyLinkedAccount = (\<lambda>a w. (Inr (be_linked env w a), w)),
     icd_issueCardCredential = (\<lambda>cred w.
       case makeProdIssueCardCredential (\<lambda>x. be_sha env (utf8 x)) (be_issuer env) others cred (bw_store w, bw_trace w) of
         (r, st, tr) \<Rightarrow> (r, w\<lparr>bw_store := st, bw_trace := tr\<rparr>)),
     icd_recordCard = (\<lambda>(pda, body) w. (Inr (), w\<lparr>bw_ledger := recordCard (be_now env w) pda body (bw_ledger w)\<rparr>)),
     icd_flagReconciliation = (\<lambda>(pda, holder, body) w. (Inr (), w\<lparr>bw_flags := (pda, holder) # bw_flags w\<rparr>))\<rparr>"

text \<open>A request, with what other requests do to the issuer's store while a card request waits for the chain.\<close>

datatype bank_request = RChecking "string option" OpenCheckingRequest
  | RCard "string option" IssueCardRequest "bank_store \<Rightarrow> bank_store"

fun serve :: "bank_env \<Rightarrow> bank_request \<Rightarrow> bank_world \<Rightarrow> bank_world" where
  "serve env (RChecking caller req) w = snd (openChecking (be_sha env) (checking_deps env) caller req w)"
| "serve env (RCard caller req others) w = snd (issueCard (be_sha env) (card_deps env others) caller req w)"

definition keeps_bindings :: "(bank_store \<Rightarrow> bank_store) \<Rightarrow> bool" where
  "keeps_bindings others = (\<forall>st k b. bk_binding st k = Some b \<longrightarrow> bk_binding (others st) k = Some b)"

fun request_ok :: "bank_request \<Rightarrow> bool" where
  "request_ok (RChecking _ _) = True"
| "request_ok (RCard _ _ others) = keeps_bindings others"

definition empty_world :: bank_world where
  "empty_world = \<lparr>bw_ledger = [], bw_store = Map.empty, bw_trace = [], bw_checking = [], bw_flags = []\<rparr>"

fun backed :: "bank_world \<Rightarrow> LedgerEntry \<Rightarrow> bool" where
  "backed w (CardLedgerEntry pda holder t body) =
     (\<exists>cred. bk_binding (bw_store w) (CardDebit, cb_card_id_hash body) = Some (holder, cred))"
| "backed w (CheckingLedgerEntry pda holder t account) = (pda \<in> set (bw_checking w))"

definition reconcilable :: "bank_world \<Rightarrow> bool" where
  "reconcilable w = (\<forall>(pda, e) \<in> set (bw_ledger w). backed w e \<or> pda \<in> fst ` set (bw_flags w))"

section \<open>Lemmas\<close>

lemma assertCallerEquals_ok: "assertCallerEquals c expected = Inr u \<longleftrightarrow> (\<exists>k. c = Some k \<and> k \<noteq> [] \<and> to_lower k = to_lower expected)"
  by (cases c) (auto simp: assertCallerEquals_def Let_def timing_safe_equal_def utf8_inject to_lower_def dest: map_eq_imp_length_eq
      split: option.splits if_splits)

lemma bk_issueCredential_binding:
  assumes "bk_issueCredential sha d others p vc st tr = (r, st', tr')"
    and "keeps_bindings others"
  shows "bk_binding st k = Some b \<Longrightarrow> bk_binding st' k = Some b"
    and "bk_success (p, r) = Some (k', b') \<Longrightarrow> bk_binding st' k' = Some b'"
proof -
  have "r = Inl (BkUncaught ''RangeError'') \<and> st' = st \<or> bk_start st p = Inl (p, r) \<and> st' = st
    \<or> (\<exists>m. bk_issue_finish (others st) p m = (r, st'))"
    using assms(1) unfolding bk_issueCredential_def bk_start_def
    by (cases "bk_issue_start st p") (auto simp: bk_issue_start_def Let_def split: prod.splits option.splits if_splits)
  moreover have "bk_finish x p m = ((p, r), st')" if "bk_issue_finish x p m = (r, st')" for x m
    using that by (simp add: bk_finish_def)
  ultimately have "r = Inl (BkUncaught ''RangeError'') \<and> st' = st \<or> bk_start st p = Inl (p, r) \<and> st' = st
    \<or> (\<exists>m. bk_finish (others st) p m = ((p, r), st'))" by blast
  then show "bk_binding st k = Some b \<Longrightarrow> bk_binding st' k = Some b"
    and "bk_success (p, r) = Some (k', b') \<Longrightarrow> bk_binding st' k' = Some b'"
    using assms(2) unfolding keeps_bindings_def by (blast intro: bk_finish_keeps, force dest: bk_start_answers bk_finish_binds)
qed

text \<open>What the adapter leaves in the issuer's store.\<close>

lemma prod_issue_binding:
  assumes "makeProdIssueCardCredential sha d others cred (st, tr) = (r, st', tr')"
    and "keeps_bindings others"
  shows "bk_binding st k = Some b \<Longrightarrow> bk_binding st' k = Some b"
    and "r = Inr (tx, pda) \<Longrightarrow> bk_binding st' (CardDebit, cb_card_id_hash (ic_body cred)) = Some (ic_subject cred, pda)
           \<and> ic_issuer cred = bkd_issuerAuthorityPubkey d"
proof -
  let ?p = "\<lparr>bkp_kind = CardDebit, bkp_key = cb_card_id_hash (ic_body cred), bkp_card = ic_subject cred\<rparr>"
  have "ic_issuer cred \<noteq> bkd_issuerAuthorityPubkey d \<and> r = Inl IssuerAuthorityMismatch \<and> st' = st
    \<or> ic_issuer cred = bkd_issuerAuthorityPubkey d
      \<and> (\<exists>r0. bk_issueCredential sha d others ?p (buildCardDebitVc (bkd_issuerAuthorityPubkey d) (card_issuer_input cred)) st tr = (r0, st', tr')
         \<and> (\<forall>tx pda. r = Inr (tx, pda) \<longrightarrow> bk_success (?p, r0) = Some ((CardDebit, bkp_key ?p), (ic_subject cred, pda))))"
    using assms(1) by (auto simp: makeProdIssueCardCredential_def issueCardCredential_def card_issuer_input_def
        split: if_splits prod.splits sum.splits BankIssueResponse.splits)
  note out = this
  show "bk_binding st k = Some b \<Longrightarrow> bk_binding st' k = Some b"
    using out bk_issueCredential_binding(1) assms(2) by blast
  show "r = Inr (tx, pda) \<Longrightarrow> bk_binding st' (CardDebit, cb_card_id_hash (ic_body cred)) = Some (ic_subject cred, pda)
      \<and> ic_issuer cred = bkd_issuerAuthorityPubkey d"
    using out bk_issueCredential_binding(2) assms(2) by fastforce
qed

text \<open>Preparing leaves the world as it is.\<close>

lemma card_prepare_world:
  "card_prepare (be_sha env) (card_deps env others) caller req w = (r, w') \<Longrightarrow> w' = w
     \<and> (\<forall>pda cred. r = Inr (pda, cred) \<longrightarrow> ic_subject cred = icq_subject req \<and> ic_issuer cred = icq_bank_issuer req
          \<and> cb_holder (ic_body cred) = icq_subject req)"
  by (auto simp: card_prepare_def card_deps_def Let_def split: sum.splits option.splits prod.splits if_splits)

lemma checking_prepare_world:
  "checking_prepare (be_sha env) (checking_deps env) caller req w = (r, w') \<Longrightarrow> w' = w"
  by (auto simp: checking_prepare_def checking_deps_def Let_def split: sum.splits option.splits prod.splits if_splits jsnumber.splits)

lemma alist_update_entries: "(k, v) \<in> set (AList.update k' v' xs) \<Longrightarrow> (k, v) = (k', v') \<or> (k, v) \<in> set xs"
  by (induction xs) (auto split: if_splits)

lemma reconcilable_mono:
  assumes "reconcilable w" "\<And>e. backed w e \<Longrightarrow> backed w' e" "set (bw_flags w) \<subseteq> set (bw_flags w')"
    "\<And>pda e. (pda, e) \<in> set (bw_ledger w') \<Longrightarrow> (pda, e) \<in> set (bw_ledger w) \<or> backed w' e \<or> pda \<in> fst ` set (bw_flags w')"
  shows "reconcilable w'"
  using assms unfolding reconcilable_def by fast

lemma card_commit_reconcilable:
  assumes "reconcilable w" "keeps_bindings others" "cb_holder (ic_body cred) = ic_subject cred"
  shows "reconcilable (snd (card_commit (card_deps env others) pda cred w))"
proof -
  let ?w1 = "w\<lparr>bw_ledger := recordCard (be_now env w) pda (ic_body cred) (bw_ledger w)\<rparr>"
  obtain r st tr where p: "makeProdIssueCardCredential (\<lambda>x. be_sha env (utf8 x)) (be_issuer env) others cred (bw_store w, bw_trace w) = (r, st, tr)"
    by (metis prod_cases3)
  define w' where "w' = snd (card_commit (card_deps env others) pda cred w)"
  have w': "bw_store w' = st" "bw_checking w' = bw_checking w" "bw_ledger w' = recordCard (be_now env w) pda (ic_body cred) (bw_ledger w)"
    "bw_flags w' = (if is_ok r then bw_flags w else (pda, cb_holder (ic_body cred)) # bw_flags w)"
    by (cases r; simp add: w'_def card_commit_def card_deps_def Let_def p)+
  have new: "backed w' (CardLedgerEntry pda (cb_holder (ic_body cred)) t (ic_body cred)) \<or> pda \<in> fst ` set (bw_flags w')" for t
  proof (cases r)
    case (Inr x)
    then show ?thesis using prod_issue_binding(2) [OF p assms(2), of "fst x" "snd x"] assms(3) by (simp add: w')
  qed (simp add: w')
  have "reconcilable w'"
  proof (rule reconcilable_mono [OF assms(1)])
    fix e show "backed w e \<Longrightarrow> backed w' e"
      by (cases e) (auto simp: w' intro: prod_issue_binding(1) [OF p assms(2)])
  next
    fix q e assume "(q, e) \<in> set (bw_ledger w')"
    then have "(q, e) = (pda, CardLedgerEntry pda (cb_holder (ic_body cred)) (be_now env w) (ic_body cred)) \<or> (q, e) \<in> set (bw_ledger w)"
      unfolding w' recordCard_def by (rule alist_update_entries)
    then show "(q, e) \<in> set (bw_ledger w) \<or> backed w' e \<or> q \<in> fst ` set (bw_flags w')" using new by blast
  qed (auto simp: w')
  then show ?thesis by (simp add: w'_def)
qed

lemma checking_commit_reconcilable:
  assumes "reconcilable w"
  shows "reconcilable (snd (checking_commit (checking_deps env) cred w))"
proof -
  let ?pda = "cc_account_pda cred" and ?account = "cc_account cred"
  define w1 where "w1 = w\<lparr>bw_ledger := recordCheckingAccount (be_now env w) ?pda ?account (bw_ledger w)\<rparr>"
  define w' where "w' = snd (checking_commit (checking_deps env) cred w)"
  have w': "bw_store w' = bw_store w" "bw_ledger w' = recordCheckingAccount (be_now env w) ?pda ?account (bw_ledger w)"
    "bw_checking w' = (if is_ok (be_chain env w1 cred) then ?pda # bw_checking w else bw_checking w)"
    "bw_flags w' = (if is_ok (be_chain env w1 cred) then bw_flags w else (?pda, ca_holder ?account) # bw_flags w)"
    by (cases "be_chain env w1 cred"; simp add: w'_def checking_commit_def checking_deps_def Let_def w1_def)+
  have "reconcilable w'"
  proof (rule reconcilable_mono [OF assms(1)])
    fix e show "backed w e \<Longrightarrow> backed w' e" by (cases e) (simp_all add: w')
  next
    fix q e assume "(q, e) \<in> set (bw_ledger w')"
    then have "(q, e) = (?pda, CheckingLedgerEntry ?pda (ca_holder ?account) (be_now env w) ?account) \<or> (q, e) \<in> set (bw_ledger w)"
      unfolding w' recordCheckingAccount_def by (rule alist_update_entries)
    then show "(q, e) \<in> set (bw_ledger w) \<or> backed w' e \<or> q \<in> fst ` set (bw_flags w')" by (auto simp: w')
  qed (auto simp: w')
  then show ?thesis by (simp add: w'_def)
qed

lemma serve_reconcilable:
  assumes "reconcilable w" "request_ok q"
  shows "reconcilable (serve env q w)"
proof (cases q)
  case (RChecking caller req)
  then show ?thesis using assms checking_prepare_world checking_commit_reconcilable
    by (auto simp: openChecking_def split: prod.splits sum.splits) (metis snd_conv)+
next
  case (RCard caller req others)
  then show ?thesis using assms card_prepare_world card_commit_reconcilable
    by (auto simp: issueCard_def split: prod.splits sum.splits) (metis snd_conv)+
qed

text \<open>Slots below \<open>2\<^sup>6\<^sup>4\<close> are written in 8 bytes, each in its own way; negative ones collide.\<close>

lemma slot_digits:
  assumes "0 \<le> n" "n < 2 ^ 64"
  obtains t where "bigint_buffer (JInt n) = Some (buffer_from_hex t)" "length t = 16" "list_all is_hex t" "hex_val t = nat n"
proof
  let ?s = "show_hex (nat n)"
  have "length ?s \<le> 16" using assms by (intro show_hex_length) (simp_all add: nat_less_iff)
  then show "length (replicate (16 - length ?s) CHR ''0'' @ ?s) = 16" by simp
  show "bigint_buffer (JInt n) = Some (buffer_from_hex (replicate (16 - length ?s) CHR ''0'' @ ?s))"
    using assms(1) by (simp add: bigint_buffer_def Let_def)
  have "is_hex (CHR ''0'')" by code_simp
  then show "list_all is_hex (replicate (16 - length ?s) CHR ''0'' @ ?s)" using show_hex_val(2) by (auto simp: list_all_iff)
  show "hex_val (replicate (16 - length ?s) CHR ''0'' @ ?s) = nat n" by (simp add: hex_val_zeros show_hex_val(1))
qed

lemma slot_bytes:
  assumes "0 \<le> n" "n < 2 ^ 64" "bigint_buffer (JInt n) = Some b"
  shows "length b = 8" and "0 \<le> m \<Longrightarrow> m < 2 ^ 64 \<Longrightarrow> bigint_buffer (JInt m) = Some b \<Longrightarrow> m = n"
proof -
  obtain t where t: "b = buffer_from_hex t" "length t = 16" "list_all is_hex t" "hex_val t = nat n"
    using slot_digits [OF assms(1,2)] assms(3) by auto
  then show "length b = 8" by (simp add: length_buffer_from_hex)
  assume "0 \<le> m" "m < 2 ^ 64" "bigint_buffer (JInt m) = Some b"
  then obtain u where u: "b = buffer_from_hex u" "length u = 16" "list_all is_hex u" "hex_val u = nat m"
    using slot_digits [of m] by auto
  have "to_lower t = to_lower u" using t u by (intro buffer_hex_inject) simp_all
  then have "hex_val t = hex_val u" using t u hex_val_lower by metis
  then show "m = n" using t u assms(1) \<open>0 \<le> m\<close> by simp
qed

lemma negative_slots_collide: "\<exists>b. bigint_buffer (JInt (- 1)) = Some b \<and> bigint_buffer (JInt (- 2)) = Some b"
proof -
  have "bigint_buffer (JInt (- 1)) = Some [0, 0, 0, 0, 0, 0, 0]" "bigint_buffer (JInt (- 2)) = Some [0, 0, 0, 0, 0, 0, 0]" by code_simp+
  then show ?thesis by blast
qed

lemma prefix_lengths: "length (utf8 ''checking_account'') = 16" "length (utf8 ''savings_account'') = 15" "length (utf8 ''card_debit'') = 10"
  by code_simp+

lemma length_key_bytes: "HEX64 a \<Longrightarrow> length (buffer_from_hex a) = 32"
  by (simp add: HEX64_def length_buffer_from_hex)

definition hash_collision :: "(nat list \<Rightarrow> string) \<Rightarrow> bool" where
  "hash_collision sha \<longleftrightarrow> (\<exists>x y. x \<noteq> y \<and> sha x = sha y)"

text \<open>A hash without collisions, for examples: numbers in unary.\<close>

definition unary_hash :: "nat list \<Rightarrow> string" where
  "unary_hash xs = concat (map (\<lambda>n. replicate n (CHR ''1'') @ ''0'') xs)"

lemma unary_hash_inject: "unary_hash xs = unary_hash ys \<Longrightarrow> xs = ys"
proof (induction xs arbitrary: ys)
  case Nil
  then show ?case by (cases ys) (simp_all add: unary_hash_def)
next
  case (Cons x xs)
  obtain y zs where ys: "ys = y # zs" using Cons.prems by (cases ys) (simp_all add: unary_hash_def)
  have eq: "replicate x (CHR ''1'') @ ''0'' @ unary_hash xs = replicate y (CHR ''1'') @ ''0'' @ unary_hash zs"
    using Cons.prems by (simp add: ys unary_hash_def)
  have "takeWhile (\<lambda>c. c = CHR ''1'') (replicate n (CHR ''1'') @ ''0'' @ r) = replicate n (CHR ''1'')" for n r
    by (induction n) simp_all
  then have "replicate x (CHR ''1'') = replicate y (CHR ''1'')" using eq by metis
  then have "x = y" by (metis length_replicate)
  with eq Cons.IH [of zs] show ?case by (simp add: ys)
qed

text \<open>The adapter answers without a transaction when the card was issued before.\<close>

lemma issue_replayed:
  assumes "bk_binding st (CardDebit, cb_card_id_hash (ic_body cred)) = Some (ic_subject cred, p)"
    "ic_issuer cred = bkd_issuerAuthorityPubkey d" "ic_subject cred \<noteq> []" "cb_card_id_hash (ic_body cred) \<noteq> []"
  shows "\<exists>tx. makeProdIssueCardCredential sha d others cred (st, tr) = (Inr (tx, p), st, tr)"
proof -
  obtain row where "bk_get st CardDebit (cb_card_id_hash (ic_body cred)) = Some row" "bkr_agentCardPubkey row = ic_subject cred" "bkr_credentialPda row = p"
    using assms(1) by (auto simp: bk_binding_def)
  then show ?thesis using assms(2-4)
    by (simp add: makeProdIssueCardCredential_def issueCardCredential_def card_issuer_input_def bk_issueCredential_def bk_issue_start_def)
qed

text \<open>What a successful answer of the adapter has pinned and submitted: nothing for a card bound before, which then is the
  subject's own; for a new card its credential, pinned and submitted once, and the chain accepted it.\<close>

definition card_submitted :: "(string \<Rightarrow> string) \<Rightarrow> BankIssuerDeps \<Rightarrow> IssueCardCredential \<Rightarrow> trace \<Rightarrow> trace \<Rightarrow> bool" where
  "card_submitted sha d cred tr tr' \<longleftrightarrow> (\<exists>date c input.
     toISOString (js_mul (bkd_nowUnix d tr) 1000) = Some date
     \<and> jcsStringify (buildCardDebitVc (bkd_issuerAuthorityPubkey d) (card_issuer_input cred) date) = Inr c
     \<and> tr' = tr @ [EPin c, EIssue input] \<and> ii_claimHash input = sha c \<and> ii_subject input = ic_subject cred
     \<and> ii_schemaId input = BANK_ISSUER_SCHEMA_IDS_HEX sha CardDebit \<and> is_ok (bkd_chain d (tr @ [EPin c]) input))"

lemma bk_mint_accepted:
  assumes "bk_issue_mint sha d p vc tr = (Inr m, tr')"
  shows "\<exists>c input. jcsStringify vc = Inr c \<and> tr' = tr @ [EPin c, EIssue input] \<and> ii_claimHash input = sha c
     \<and> ii_subject input = bkp_card p \<and> ii_schemaId input = BANK_ISSUER_SCHEMA_IDS_HEX sha (bkp_kind p) \<and> is_ok (bkd_chain d (tr @ [EPin c]) input)"
  using assms unfolding bk_issue_mint_def by (auto simp: Let_def split: sum.splits)

lemma prod_issue_trace:
  assumes "makeProdIssueCardCredential sha d others cred (st, tr) = (Inr x, st', tr')"
  shows "case bk_binding st (CardDebit, cb_card_id_hash (ic_body cred)) of
       Some (holder, p) \<Rightarrow> holder = ic_subject cred \<and> st' = st \<and> tr' = tr
     | None \<Rightarrow> card_submitted sha d cred tr tr'"
proof -
  let ?p = "\<lparr>bkp_kind = CardDebit, bkp_key = cb_card_id_hash (ic_body cred), bkp_card = ic_subject cred\<rparr>"
  let ?vc = "buildCardDebitVc (bkd_issuerAuthorityPubkey d) (card_issuer_input cred)"
  obtain y where i: "bk_issueCredential sha d others ?p ?vc st tr = (Inr y, st', tr')"
    using assms by (auto simp: makeProdIssueCardCredential_def issueCardCredential_def card_issuer_input_def
        split: if_splits prod.splits sum.splits BankIssueResponse.splits)
  show ?thesis
  proof (cases "bk_get st CardDebit (cb_card_id_hash (ic_body cred))")
    case (Some row)
    then show ?thesis using i
      by (auto simp: bk_issueCredential_def bk_issue_start_def bk_binding_def split: if_splits)
  next
    case None
    then obtain date m where d: "toISOString (js_mul (bkd_nowUnix d tr) 1000) = Some date"
      and m: "bk_issue_mint sha d ?p (?vc date) tr = (m, tr')" "bk_issue_finish (others st) ?p m = (Inr y, st')"
      using i by (auto simp: bk_issueCredential_def bk_issue_start_def Let_def split: if_splits option.splits prod.splits)
    obtain n where "m = Inr n" using m(2) by (cases m) (auto simp: bk_issue_finish_def)
    with m(1) have "card_submitted sha d cred tr tr'"
      using bk_mint_accepted [of sha d ?p "?vc date" tr n tr'] d by (auto simp: card_submitted_def)
    then show ?thesis using None by (simp add: bk_binding_def)
  qed
qed

lemma card_commit_ok:
  assumes "makeProdIssueCardCredential (\<lambda>x. be_sha env (utf8 x)) (be_issuer env) others cred (bw_store w, bw_trace w) = (Inr x, st, tr)"
  shows "card_commit (card_deps env others) pda cred w =
    (Inr \<lparr>icr_card_pda = pda, icr_credential = cred, icr_fulfillment_uri = ''eto://card/'' @ pda\<rparr>,
     w\<lparr>bw_ledger := recordCard (be_now env w) pda (ic_body cred) (bw_ledger w), bw_store := st, bw_trace := tr\<rparr>)"
  using assms by (simp add: card_commit_def card_deps_def Let_def)

lemma card_limits_ok: "card_limits req = Some (day, tx) \<Longrightarrow> 0 \<le> tx \<and> tx \<le> day"
  by (auto simp: card_limits_def split: option.splits jsnumber.splits if_splits)

lemma card_prepare_ok:
  assumes "card_prepare (be_sha env) (card_deps env others) caller req w = (Inr (pda, cred), w')"
  shows "(\<exists>k. caller = Some k \<and> to_lower k = to_lower (icq_subject req)) \<and> HEX64 (icq_subject req)
    \<and> be_holds env w (icq_subject req, REQUIRED_SCHEMAS) \<and> be_linked env w (icq_linked_account_pda req, icq_subject req)
    \<and> 0 \<le> cb_spending_limit_per_tx (ic_body cred) \<and> cb_spending_limit_per_tx (ic_body cred) \<le> cb_spending_limit_per_day (ic_body cred)
    \<and> cb_card_id_hash (ic_body cred) = card_id_hash (be_sha env) pda \<and> cb_linked_account_pda (ic_body cred) = icq_linked_account_pda req"
proof -
  have ok: "assertCallerEquals caller (icq_subject req) = Inr ()"
    using assms by (cases "assertCallerEquals caller (icq_subject req)") (simp_all add: card_prepare_def)
  then have "\<exists>k. caller = Some k \<and> to_lower k = to_lower (icq_subject req)" using assertCallerEquals_ok by blast
  moreover have "HEX64 (icq_subject req) \<and> be_holds env w (icq_subject req, REQUIRED_SCHEMAS) \<and> be_linked env w (icq_linked_account_pda req, icq_subject req)
    \<and> card_limits req = Some (cb_spending_limit_per_day (ic_body cred), cb_spending_limit_per_tx (ic_body cred))
    \<and> cb_card_id_hash (ic_body cred) = card_id_hash (be_sha env) pda \<and> cb_linked_account_pda (ic_body cred) = icq_linked_account_pda req"
    using assms by (auto simp: card_prepare_def ok card_deps_def Let_def split: option.splits prod.splits if_splits)
  ultimately show ?thesis using card_limits_ok by blast
qed

text \<open>An environment in which every check and client answers, for examples.\<close>

definition demo_env :: bank_env where
  "demo_env = \<lparr>be_sha = (\<lambda>xs. show_nat (length xs)), be_issuer = bk_example_deps\<lparr>bkd_issuerAuthorityPubkey := demo_key\<rparr>,
     be_now = (\<lambda>w. 7), be_holds = (\<lambda>w a. True), be_linked = (\<lambda>w a. True), be_chain = (\<lambda>w c. Inl (OtherError ''down''))\<rparr>"

definition demo_checking :: OpenCheckingRequest where
  "demo_checking = \<lparr>ocq_subject = demo_key, ocq_bank_issuer = demo_key, ocq_opened_slot = JInt 5, ocq_opening_deposit_atomic = None\<rparr>"

definition demo_card :: "jsnumber option \<Rightarrow> IssueCardRequest" where
  "demo_card limit = \<lparr>icq_subject = demo_key, icq_bank_issuer = demo_key, icq_linked_account_pda = demo_key, icq_issued_slot = JInt 5,
     icq_jurisdiction = None, icq_spending_limit_per_day_atomic = limit, icq_spending_limit_per_tx_atomic = Some (JInt 10),
     icq_expires_slot = None, icq_merchant_category_blocklist = None\<rparr>"

lemma demo_checking_ledger: "map fst (bw_ledger (serve demo_env (RChecking (Some demo_key) demo_checking) empty_world)) = [''56'']"
  by code_simp

lemma demo_issue_ok:
  assumes "ic_issuer cred = demo_key" "ic_subject cred \<noteq> []" "cb_card_id_hash (ic_body cred) \<noteq> []"
    "isInteger (cb_issued_slot (ic_body cred))" "isInteger (cb_expires_slot (ic_body cred))"
  shows "\<exists>x st tr. makeProdIssueCardCredential sha (be_issuer demo_env) (\<lambda>st. st) cred (Map.empty, []) = (Inr x, st, tr)"
proof -
  have "integral_json (buildCardDebitVc demo_key (card_issuer_input cred) ''1970-01-01T00:00:00.000Z'')"
    using assms(4,5) by (auto simp: buildCardDebitVc_def bank_vc_def opt_member_def card_issuer_input_def list_all_iff split: option.splits)
  then obtain c where c: "jcsStringify (buildCardDebitVc demo_key (card_issuer_input cred) ''1970-01-01T00:00:00.000Z'') = Inr c"
    using jcsStringify_is_ok by (metis is_ok_iff)
  have t: "toISOString 0 = Some ''1970-01-01T00:00:00.000Z''" by code_simp
  have i: "bid_subjectAgentCardPubkey (card_issuer_input cred) = ic_subject cred" "bid_cardIdHash (card_issuer_input cred) = cb_card_id_hash (ic_body cred)"
    by (simp_all add: card_issuer_input_def)
  show ?thesis using assms(1-3) c
    by (simp add: makeProdIssueCardCredential_def demo_env_def issueCardCredential_def bk_issueCredential_def bk_issue_start_def
        bk_get_def bk_example_deps_def t i bk_issue_mint_def bk_issue_finish_def bk_putIfAbsent_def Let_def)
qed

lemma demo_card_prepared:
  "\<exists>cred. card_prepare (be_sha demo_env) (card_deps demo_env (\<lambda>st. st)) (Some demo_key) (demo_card None) empty_world = (Inr (''82'', cred), empty_world)
     \<and> ic_issuer cred = demo_key \<and> ic_subject cred = demo_key \<and> cb_card_id_hash (ic_body cred) = ''16'' \<and> isInteger (cb_issued_slot (ic_body cred))
     \<and> isInteger (cb_expires_slot (ic_body cred))"
proof -
  have call: "assertCallerEquals (Some demo_key) demo_key = Inr ()" by code_simp
  have lim: "card_limits (demo_card None) = Some (5000000000, 10)" by (simp add: card_limits_def demo_card_def)
  have "bigint_buffer (JInt 5) = Some [0, 0, 0, 0, 0, 0, 0, 5]" "JURISDICTION_RE ''us''" "show_nat 82 = ''82''" "show_nat 16 = ''16''"
    "length (utf8 ''card_id_v0_stub'') = 15" "buffer_from_hex ''82'' = [130]" by code_simp+
  note facts = this
  have pda: "card_pda (be_sha demo_env) demo_key demo_key [0, 0, 0, 0, 0, 0, 0, 5] = ''82''"
    using facts(3) by (simp add: card_pda_def demo_env_def prefix_lengths length_key_bytes)
  have idh: "card_id_hash (be_sha demo_env) ''82'' = ''16''"
    using facts(4-6) by (simp add: card_id_hash_def demo_env_def)
  show ?thesis using facts(1,2) lim
    by (simp add: card_prepare_def demo_card_def call card_deps_def pda idh Let_def) (simp add: demo_env_def)
qed


section \<open>Properties\<close>

text \<open>C16. Whatever requests to open accounts and issue cards arrive, and whatever the checks and the chain answer, every entry of the credential ledger is backed by an issued credential of its holder or was flagged for reconciliation: no entry is orphaned silently.\<close>

theorem bank_ledger_reconciled:
  assumes "list_all request_ok qs" "(pda, e) \<in> set (bw_ledger (fold (serve env) qs empty_world))"
  shows "backed (fold (serve env) qs empty_world) e \<or> pda \<in> fst ` set (bw_flags (fold (serve env) qs empty_world))"
proof -
  have "reconcilable w \<Longrightarrow> list_all request_ok qs \<Longrightarrow> reconcilable (fold (serve env) qs w)" for w
    by (induction qs arbitrary: w) (simp_all add: serve_reconcilable)
  moreover have "reconcilable empty_world" by (simp add: reconcilable_def empty_world_def)
  ultimately have "reconcilable (fold (serve env) qs empty_world)" using assms(1) by simp
  then show ?thesis using assms(2) by (auto simp: reconcilable_def)
qed

theorem bank_ledger_reconciled_witness:
  "\<exists>e. (''56'', e) \<in> set (bw_ledger (fold (serve demo_env) [RChecking (Some demo_key) demo_checking] empty_world))
     \<and> (backed (fold (serve demo_env) [RChecking (Some demo_key) demo_checking] empty_world) e
        \<or> ''56'' \<in> fst ` set (bw_flags (fold (serve demo_env) [RChecking (Some demo_key) demo_checking] empty_world)))"
proof -
  have "''56'' \<in> set (map fst (bw_ledger (serve demo_env (RChecking (Some demo_key) demo_checking) empty_world)))"
    unfolding demo_checking_ledger by simp
  then obtain e where "(''56'', e) \<in> set (bw_ledger (fold (serve demo_env) [RChecking (Some demo_key) demo_checking] empty_world))"
    by (auto simp del: serve.simps)
  then show ?thesis using bank_ledger_reconciled [of "[RChecking (Some demo_key) demo_checking]" "''56''" e demo_env] by auto
qed

text \<open>C4. A card is issued only to a verified caller who is the subject, holds the required credentials and owns the linked account, on behalf of this bank; the ledger then holds the card under its address and the issuer's store binds the card to the subject. A card not bound before was pinned and submitted exactly once, with the hash of the canonical credential of the very card answered, and the chain accepted it; a card the store already bound was the subject's own, submits nothing and leaves its earlier credential in place.\<close>

theorem card_issuance_exact:
  assumes "issueCard (be_sha env) (card_deps env others) caller req w = (Inr res, w')" "keeps_bindings others"
  shows "let cred = icr_credential res; body = ic_body cred; authority = bkd_issuerAuthorityPubkey (be_issuer env) in
     (\<exists>k. caller = Some k \<and> to_lower k = to_lower (icq_subject req))
     \<and> be_holds env w (icq_subject req, REQUIRED_SCHEMAS) \<and> be_linked env w (icq_linked_account_pda req, icq_subject req)
     \<and> icq_bank_issuer req = authority
     \<and> 0 \<le> cb_spending_limit_per_tx body \<and> cb_spending_limit_per_tx body \<le> cb_spending_limit_per_day body
     \<and> ledger_lookup (bw_ledger w') (icr_card_pda res) = Some (CardLedgerEntry (icr_card_pda res) (icq_subject req) (be_now env w) body)
     \<and> (\<exists>p. bk_binding (bw_store w') (CardDebit, cb_card_id_hash body) = Some (icq_subject req, p))
     \<and> (case bk_binding (bw_store w) (CardDebit, cb_card_id_hash body) of
          Some (holder, p) \<Rightarrow> holder = icq_subject req \<and> bw_store w' = bw_store w \<and> bw_trace w' = bw_trace w
        | None \<Rightarrow> (\<exists>date c input. jcsStringify (buildCardDebitVc authority (card_issuer_input cred) date) = Inr c
          \<and> toISOString (js_mul (bkd_nowUnix (be_issuer env) (bw_trace w)) 1000) = Some date
          \<and> bw_trace w' = bw_trace w @ [EPin c, EIssue input] \<and> ii_claimHash input = be_sha env (utf8 c) \<and> ii_subject input = icq_subject req
          \<and> ii_schemaId input = BANK_ISSUER_SCHEMA_IDS_HEX (\<lambda>x. be_sha env (utf8 x)) CardDebit
          \<and> is_ok (bkd_chain (be_issuer env) (bw_trace w @ [EPin c]) input)))
     \<and> bw_flags w' = bw_flags w"
proof -
  obtain pda cred where p: "card_prepare (be_sha env) (card_deps env others) caller req w = (Inr (pda, cred), w)"
    and c: "card_commit (card_deps env others) pda cred w = (Inr res, w')"
    using assms(1) card_prepare_world by (auto simp: issueCard_def split: prod.splits sum.splits) blast
  obtain r st tr where m: "makeProdIssueCardCredential (\<lambda>x. be_sha env (utf8 x)) (be_issuer env) others cred (bw_store w, bw_trace w) = (r, st, tr)"
    by (metis prod_cases3)
  obtain x where x: "r = Inr x" and res: "icr_card_pda res = pda" "icr_credential res = cred"
    and w': "w' = w\<lparr>bw_ledger := recordCard (be_now env w) pda (ic_body cred) (bw_ledger w), bw_store := st, bw_trace := tr\<rparr>"
    using c by (cases r) (auto simp: card_commit_def card_deps_def Let_def m)
  have s: "ic_subject cred = icq_subject req" "ic_issuer cred = icq_bank_issuer req" "cb_holder (ic_body cred) = icq_subject req"
    using card_prepare_world [OF p] by simp_all
  have "ledger_lookup (bw_ledger w') pda = Some (CardLedgerEntry pda (icq_subject req) (be_now env w) (ic_body cred))"
    by (simp add: w' ledger_lookup_def recordCard_def update_conv' s)
  moreover have "icq_bank_issuer req = bkd_issuerAuthorityPubkey (be_issuer env)"
    "\<exists>p. bk_binding (bw_store w') (CardDebit, cb_card_id_hash (ic_body cred)) = Some (icq_subject req, p)"
    using prod_issue_binding(2) [OF m assms(2), of "fst x" "snd x"] x s by (simp_all add: w')
  moreover have "bw_trace w' = tr" "bw_store w' = st" "bw_flags w' = bw_flags w" by (simp_all add: w')
  moreover note card_prepare_ok [OF p] prod_issue_trace [OF m [unfolded x], unfolded s card_submitted_def]
  ultimately show ?thesis unfolding res Let_def
    by (cases "bk_binding (bw_store w) (CardDebit, cb_card_id_hash (ic_body cred))") auto
qed

theorem card_issuance_exact_witness:
  "\<exists>res w' c input. issueCard (be_sha demo_env) (card_deps demo_env (\<lambda>st. st)) (Some demo_key) (demo_card None) empty_world = (Inr res, w')
     \<and> icr_card_pda res = ''82''
     \<and> ledger_lookup (bw_ledger w') ''82'' = Some (CardLedgerEntry ''82'' demo_key 7 (ic_body (icr_credential res)))
     \<and> (\<exists>p. bk_binding (bw_store w') (CardDebit, cb_card_id_hash (ic_body (icr_credential res))) = Some (demo_key, p))
     \<and> bw_trace w' = [EPin c, EIssue input] \<and> ii_subject input = demo_key"
proof -
  obtain cred where p: "card_prepare (be_sha demo_env) (card_deps demo_env (\<lambda>st. st)) (Some demo_key) (demo_card None) empty_world = (Inr (''82'', cred), empty_world)"
    "ic_issuer cred = demo_key" "ic_subject cred = demo_key" "cb_card_id_hash (ic_body cred) = ''16''" "isInteger (cb_issued_slot (ic_body cred))"
    "isInteger (cb_expires_slot (ic_body cred))" using demo_card_prepared by blast
  have "demo_key \<noteq> []" by (simp add: demo_key_def)
  with p have "\<exists>x st tr. makeProdIssueCardCredential (\<lambda>x. be_sha demo_env (utf8 x)) (be_issuer demo_env) (\<lambda>st. st) cred (Map.empty, []) = (Inr x, st, tr)"
    by (intro demo_issue_ok) simp_all
  then obtain x st tr where "makeProdIssueCardCredential (\<lambda>x. be_sha demo_env (utf8 x)) (be_issuer demo_env) (\<lambda>st. st) cred
      (bw_store empty_world, bw_trace empty_world) = (Inr x, st, tr)" by (auto simp: empty_world_def)
  note committed = card_commit_ok [OF this, of "''82''"]
  obtain res w' where r: "issueCard (be_sha demo_env) (card_deps demo_env (\<lambda>st. st)) (Some demo_key) (demo_card None) empty_world = (Inr res, w')"
    "icr_card_pda res = ''82''"
    by (simp add: issueCard_def p(1) committed)
  have "keeps_bindings (\<lambda>st. st)" by (simp add: keeps_bindings_def)
  moreover have "icq_subject (demo_card None) = demo_key" "be_now demo_env empty_world = 7" by (simp_all add: demo_card_def demo_env_def)
  moreover have "bk_binding (bw_store empty_world) k = None" "bw_trace empty_world = []" for k
    by (simp_all add: empty_world_def bk_binding_def bk_get_def split: prod.splits)
  ultimately show ?thesis using card_issuance_exact [OF r(1)] r by (auto simp: Let_def)
qed

text \<open>Addresses of accounts and cards do not collide, unless the hash does: an address determines the kind of account, the subject (up to the case of letters), the linked account of a card and the slot, for slots of 64 bits.\<close>

theorem account_addresses_distinct:
  assumes "HEX64 a" "HEX64 a'" "HEX64 l" "HEX64 l'" "0 \<le> n" "n < 2 ^ 64" "0 \<le> m" "m < 2 ^ 64"
    "bigint_buffer (JInt n) = Some b" "bigint_buffer (JInt m) = Some b'"
  shows "hash_collision sha
    \<or> (checking_pda sha a b = checking_pda sha a' b' \<longleftrightarrow> to_lower a = to_lower a' \<and> n = m)
    \<and> (savings_pda sha a b = savings_pda sha a' b' \<longleftrightarrow> to_lower a = to_lower a' \<and> n = m)
    \<and> (card_pda sha a l b = card_pda sha a' l' b' \<longleftrightarrow> to_lower a = to_lower a' \<and> to_lower l = to_lower l' \<and> n = m)
    \<and> checking_pda sha a b \<noteq> savings_pda sha a' b' \<and> checking_pda sha a b \<noteq> card_pda sha a' l' b' \<and> savings_pda sha a b \<noteq> card_pda sha a' l' b'"
proof (cases "hash_collision sha")
  case False
  then have sha: "sha x = sha y \<longleftrightarrow> x = y" for x y by (auto simp: hash_collision_def)
  note len = length_key_bytes [OF assms(1)] length_key_bytes [OF assms(2)] length_key_bytes [OF assms(3)] length_key_bytes [OF assms(4)]
    slot_bytes(1) [OF assms(5,6,9)] slot_bytes(1) [OF assms(7,8,10)]
  have slot: "b = b' \<longleftrightarrow> n = m"
  proof
    assume "b = b'"
    then show "n = m" using slot_bytes(2) [OF assms(5,6,9) assms(7,8)] assms(10) by simp
  next
    assume "n = m"
    then show "b = b'" using assms(9,10) by (simp only: option.inject)
  qed
  have "checking_pda sha a b \<noteq> savings_pda sha a' b'" "checking_pda sha a b \<noteq> card_pda sha a' l' b'" "savings_pda sha a b \<noteq> card_pda sha a' l' b'"
    unfolding checking_pda_def savings_pda_def card_pda_def sha by (auto dest: arg_cong [where f = length] simp: len prefix_lengths)
  then show ?thesis using HEX64_buffer_inject assms(1-4)
    by (simp add: checking_pda_def savings_pda_def card_pda_def sha len slot)
qed simp

theorem account_addresses_distinct_witness:
  "checking_pda unary_hash demo_key [0, 0, 0, 0, 0, 0, 0, 5] \<noteq> checking_pda unary_hash demo_key [0, 0, 0, 0, 0, 0, 0, 6]
   \<and> checking_pda unary_hash demo_key [0, 0, 0, 0, 0, 0, 0, 5] \<noteq> savings_pda unary_hash demo_key [0, 0, 0, 0, 0, 0, 0, 6]"
proof -
  have "bigint_buffer (JInt 5) = Some [0, 0, 0, 0, 0, 0, 0, 5]" "bigint_buffer (JInt 6) = Some [0, 0, 0, 0, 0, 0, 0, 6]" by code_simp+
  moreover have "\<not> hash_collision unary_hash" using unary_hash_inject by (auto simp: hash_collision_def)
  ultimately show ?thesis
    using account_addresses_distinct [of demo_key demo_key demo_key demo_key 5 6 _ _ unary_hash] by auto
qed

section \<open>Findings\<close>

text \<open>Repeating a request with other limits succeeds and answers, and records, a credential with the new limits, although nothing
  was submitted and the chain still holds the old one.\<close>

lemma card_replay_keeps_old_claim:
  assumes "card_prepare (be_sha env) (card_deps env others) caller req w = (Inr (pda, cred), w)"
    "bk_binding (bw_store w) (CardDebit, cb_card_id_hash (ic_body cred)) = Some (icq_subject req, p)"
    "icq_bank_issuer req = bkd_issuerAuthorityPubkey (be_issuer env)" "cb_card_id_hash (ic_body cred) \<noteq> []"
  shows "\<exists>res w'. issueCard (be_sha env) (card_deps env others) caller req w = (Inr res, w') \<and> icr_credential res = cred
     \<and> bw_trace w' = bw_trace w \<and> ledger_lookup (bw_ledger w') pda = Some (CardLedgerEntry pda (icq_subject req) (be_now env w) (ic_body cred))"
proof -
  have s: "ic_subject cred = icq_subject req" "ic_issuer cred = icq_bank_issuer req" "cb_holder (ic_body cred) = icq_subject req"
    using card_prepare_world [OF assms(1)] by simp_all
  have "icq_subject req \<noteq> []" using card_prepare_ok [OF assms(1)] by (auto simp: HEX64_def)
  then have "\<exists>tx. makeProdIssueCardCredential (\<lambda>x. be_sha env (utf8 x)) (be_issuer env) others cred (bw_store w, bw_trace w)
      = (Inr (tx, p), bw_store w, bw_trace w)"
    using assms(2-4) s by (intro issue_replayed) simp_all
  then obtain tx where "makeProdIssueCardCredential (\<lambda>x. be_sha env (utf8 x)) (be_issuer env) others cred (bw_store w, bw_trace w)
      = (Inr (tx, p), bw_store w, bw_trace w)" ..
  from card_commit_ok [OF this, of pda] show ?thesis
    by (simp add: issueCard_def assms(1) ledger_lookup_def recordCard_def update_conv' s)
qed

text \<open>The rate and the minimum balance of a savings account are not checked: a rate that is not a number passes.\<close>

lemma savings_rate_unchecked:
  assumes "HEX64 a" "osd_verifyCheckingCredential d (a, a) s = (Inr True, s)" "bigint_buffer slot = Some b"
    "osd_recordSavingsAccount d = (\<lambda>x s. (Inr (), s))" "osd_issueSavingsCredential d = (\<lambda>x s. (Inr ([], []), s))"
  shows "\<exists>res. openSavings sha d \<lparr>osq_caller_pubkey = a, osq_subject = a, osq_linked_checking_account_pda = a, osq_bank_issuer = a,
      osq_opened_slot = slot, osq_tier = None, osq_min_balance = Some (JInt (- 1)), osq_apy_bps = Some JNaN\<rparr> s = (Inr res, s)
    \<and> sa_apy_bps (sc_account (osr_credential res)) = JNaN \<and> sa_min_balance (sc_account (osr_credential res)) = JInt (- 1)"
  using assms by (simp add: openSavings_def Let_def)

end
