(* ===== verification/Spec2Isabelle.thy ===== *)
theory Spec2Isabelle
  imports Beckn_Gateway Beckn_Callback Beckn_Auth Mesh_Validator Bank_Tax Usd_Ledger Bank_Mock Bank_Issuer Kyc_Issuer Worldcoin_Issuer Civic_Issuer Skill_Issuer Bank_Ramps Bpp_Runtime
    Poseidon2 Travel_Rule Evm_Rlp Tool_Gate Oauth_Provider Write_Path Fees Bank_Accounts
begin

text \<open>
  \<^bold>\<open>A verification library for eto-mcp.\<close>

  The program connects agents to the ETO chain. Credential issuers (\<^verbatim>\<open>src/issuers\<close>) check an applicant and mint a credential;
  service providers, BPPs (\<^verbatim>\<open>keeper\<close>), wait for tasks, admit callers by their credentials and act, among them a bank that opens
  accounts, issues cards and tax statements, and whose ramps turn dollars into tokens and back over a mock ledger; an indexer
  (\<^verbatim>\<open>src/services/indexer\<close>) turns recorded traces into audit feeds and travel-rule reports; a gateway (\<^verbatim>\<open>src/gateway\<close>)
  authenticates callers, limits them and translates between Beckn messages and chain calls; a codec (\<^verbatim>\<open>src/wasm/index.ts\<close>) lays out
  every transaction the tools send and a write path (\<^verbatim>\<open>src/write\<close>) submits them; and a validator (\<^verbatim>\<open>mesh\<close>) attests the state of
  two chains and moves funds between them.

  \<^bold>\<open>Theories and sources.\<close>

  \<^item> \<^verbatim>\<open>Prelude\<close>: results of code that throws, strings and their operations. \<^verbatim>\<open>Js_Number\<close>: JavaScript numbers, double arithmetic as exact
    rational arithmetic and rounding to 53 bits, with the lemmas that say when it is exact. \<^verbatim>\<open>Js_Date\<close>: the calendar behind
    \<open>toISOString\<close>. \<^verbatim>\<open>Js_Regex\<close>: the regular expressions of the language as far as the source uses them. \<^verbatim>\<open>Jcs\<close>: JSON values and the
    two canonical printers (\<^verbatim>\<open>bank-mock.ts\<close>, \<^verbatim>\<open>worldcoin.ts\<close>); \<^verbatim>\<open>Json_Text\<close>: \<open>JSON.parse\<close> with its round trip, base64 and hex.
    \<^verbatim>\<open>Base58\<close>, \<^verbatim>\<open>Hex_Text\<close>: base58 and hex decoding (\<^verbatim>\<open>civic.ts\<close>).
  \<^item> \<^verbatim>\<open>Usd_Ledger\<close>: \<^verbatim>\<open>keeper/bpps/bank/mock-usd-ledger.ts\<close>. Its state is the snapshot in memory and the file; each operation returns
    both. Conservation, reopening, failure atomicity, conversion of dollars.
  \<^item> \<^verbatim>\<open>Issuer_Base\<close> and \<^verbatim>\<open>Bank_Mock\<close>, \<^verbatim>\<open>Bank_Issuer\<close>, \<^verbatim>\<open>Kyc_Issuer\<close>, \<^verbatim>\<open>Worldcoin_Issuer\<close>, \<^verbatim>\<open>Civic_Issuer\<close>, \<^verbatim>\<open>Skill_Issuer\<close>:
    the six issuers. Each issue request is cut at its awaits into steps over the store, so that concurrent requests
    interleave; rule induction shows that all answers for one identity agree. The gates say what must have been verified before any
    effect.
  \<^item> \<^verbatim>\<open>Bank_Ramps\<close>: \<^verbatim>\<open>onramp.ts\<close>, \<^verbatim>\<open>offramp.ts\<close>, \<^verbatim>\<open>wire.ts\<close>, \<^verbatim>\<open>fee.ts\<close>. A handler extends a trace of effects and each outside
    service is a function of the trace so far. Amounts and fees add up, what a wire leaves in escrow is stated for every answer of the
    escrow service, a failed refund included, and unauthorised requests are invisible.
  \<^item> \<^verbatim>\<open>Bank_Accounts\<close>: \<^verbatim>\<open>open-checking.ts\<close>, \<^verbatim>\<open>open-savings.ts\<close>, \<^verbatim>\<open>issue-card.ts\<close>, \<^verbatim>\<open>auth.ts\<close>, \<^verbatim>\<open>credential-ledger.ts\<close>. A handler is a
    state transformer over its dependencies; wired to the ledger and the bank issuer they make a world in which no ledger entry is
    orphaned silently and a new card is submitted exactly once. \<^verbatim>\<open>Bank_Tax\<close>: \<^verbatim>\<open>tax-1099-sketch.ts\<close>, a client of the audit feed: a year counts exactly its traces.
  \<^item> \<^verbatim>\<open>Cred_Gate\<close>: \<^verbatim>\<open>keeper/lib/cred-gate.ts\<close> and \<^verbatim>\<open>keeper/templates/bpp/credential-gate.ts\<close>, related through one contract, the locale
    \<open>credential_gate\<close>. \<^verbatim>\<open>Bpp_Runtime\<close>: \<^verbatim>\<open>keeper/templates/bpp/runtime.ts\<close>, which relies on it: exactly one
    call of the chain for each task, which is committed when the chain accepts that call, and no handler runs for a caller the gate
    refuses.
  \<^item> \<^verbatim>\<open>Poseidon2\<close>: \<^verbatim>\<open>src/crypto/poseidon2.ts\<close>. The generator with a circular buffer refines a shift register; the hash computes the
    permutation written as algebra in the field; encodings.
  \<^item> \<^verbatim>\<open>Audit_Trail\<close>: \<^verbatim>\<open>audit-trail.types.ts\<close>, \<^verbatim>\<open>audit-trail.ts\<close>. The locale \<open>kyt_event_source\<close> is the contract of a source; the feed is
    exact and does not depend on the order of arrival. \<^verbatim>\<open>Travel_Rule\<close>: \<^verbatim>\<open>travel-rule.types.ts\<close>, \<^verbatim>\<open>travel-rule.ts\<close>, a client of the
    feed and of the contracts \<open>party_directory\<close> and \<open>amount_resolver\<close>: reports are exact, every settlement is accounted for and
    totals are right to the cent.
  \<^item> \<^verbatim>\<open>Tx_Codec\<close>, \<^verbatim>\<open>Tx_Builders\<close>, \<^verbatim>\<open>Evm_Rlp\<close>: \<^verbatim>\<open>src/wasm/index.ts\<close>. Bytes are 8-bit words. Serialisation and decoding are inverse, every
    builder's output decodes with indices in range, signing keeps the message, and an EVM signing hash binds every
    field.
  \<^item> \<^verbatim>\<open>Session_Auth\<close>: \<^verbatim>\<open>session.ts\<close>, \<^verbatim>\<open>auth.ts\<close>, \<^verbatim>\<open>persisted-store.ts\<close>: tokens, the denylist and its file, restarts. \<^verbatim>\<open>Tool_Gate\<close>:
    \<^verbatim>\<open>rate-limiter.ts\<close>, \<^verbatim>\<open>tools/index.ts\<close>: token buckets, bounded over every window, and the wrapper of every tool, for every bearer. \<^verbatim>\<open>Oauth_Provider\<close>: \<^verbatim>\<open>oauth-provider.ts\<close> and
    the login callback; codes are used once and a reused refresh token ends its family.
  \<^item> \<^verbatim>\<open>Units\<close>, \<^verbatim>\<open>Write_Path\<close>, \<^verbatim>\<open>Fees\<close>: \<^verbatim>\<open>units.ts\<close>, \<^verbatim>\<open>src/write\<close>. Amounts, blockhash cache, nonces across an await, submission with
    its retries and polling, the table of submissions in flight with its timers, fee estimates.
  \<^item> \<^verbatim>\<open>Beckn_Envelope\<close>, \<^verbatim>\<open>Beckn_Schema\<close>: durations, the envelope check of \<^verbatim>\<open>inbound-bap.ts\<close>, the message schemas of
    \<^verbatim>\<open>beckn-schemas.ts\<close> as data, with a conformance predicate that the validator package is documented to decide
    (\<open>ajv_documented\<close>). \<^verbatim>\<open>Beckn_Gateway\<close>: the routes and triggers of \<^verbatim>\<open>inbound-bap.ts\<close>, \<^verbatim>\<open>outbound-bap.ts\<close>, \<^verbatim>\<open>inbound-bpp.ts\<close> over
    the set of seen transactions and the log of chain calls; what each route demands of a request is stated without the handlers
    (\<open>authentic\<close>). \<^verbatim>\<open>Beckn_Callback\<close>: \<^verbatim>\<open>inbound-bap-callback.ts\<close>, \<^verbatim>\<open>outbound-bpp.ts\<close>, with the hosts that must not be reached
    stated on octets and groups (\<open>internal\<close>).
    \<^verbatim>\<open>Beckn_Auth\<close>: \<^verbatim>\<open>beckn-auth.ts\<close>.
  \<^item> \<^verbatim>\<open>Mesh_Validator\<close>: \<^verbatim>\<open>mesh/validator.ts\<close>. Operations that may throw are functions from states to results and states; a
    post-condition with a frame (\<open>act_ok\<close>) carries them through the sequence of calls.

  \<^bold>\<open>How the model relates to the code.\<close> A throw is \<open>Inl\<close> of an error; a dependency that is not in the repository (hash functions,
  signature libraries, \<open>bs58\<close>, the chain, clocks, databases, URL parsing, DNS) is an argument. Loops are structural recursions except the
  exponentiation, base-58, carry and calendar loops, which have termination proofs, and rejection sampling in \<^verbatim>\<open>Poseidon2\<close>, which may
  run forever in principle and is a partial function; that the bits it draws always arrive is proved. The only fuel is that of the
  JSON reader, twice the length of the text plus one, which is shown to be enough (\<open>read_value_fuel\<close>).

  \<^bold>\<open>Bounds.\<close> Strings have code units up to U+00FF. Doubles have 53 significant bits and no bound on the exponent: overflow to infinity
  and subnormal numbers are outside the model. Serialised lists have fewer than \<open>2\<^sup>3\<^sup>2\<close> elements, RLP payloads fewer than \<open>2\<^sup>6\<^sup>4\<close>
  bytes, where the theorems say so. The routes of the Beckn gateway and of the validator are run one after another: their handlers do
  not read shared state after an await except as the definitions show.

  \<^bold>\<open>Not modelled.\<close> Logging, HTTP framing, HTML pages and configuration. The Postgres event source (SQL; its contract is stated), the
  catalog of the bank, the acknowledging Beckn router, wallets and key rotation, ABI call encoding, address derivation, memos, the tools
  and the other BPPs: these are tables, traffic with services, or calls of cryptographic libraries.
\<close>

end
